(* ===== verification/Prelude.thy ===== *)
theory Prelude
  imports Complex_Main "HOL-Library.Char_ord" "HOL-Library.List_Lexorder"
    "HOL-Library.Product_Lexorder" "HOL-Library.Multiset"
begin

text \<open>
  Shared vocabulary of the development.

  \<^item> \<open>py_error\<close>: the exceptions the modelled code raises; \<open>'a res\<close> is the result of a Python
    call that may raise (\<open>Inl\<close> the exception), \<open>rbind\<close> sequences two such calls.
  \<^item> \<open>instant\<close> (microseconds since the epoch, UTC), \<open>date\<close> (proleptic ordinal), \<open>pydatetime\<close>
    (a \<^verbatim>\<open>datetime\<close> argument that may still be timezone-naive).
  \<^item> the tuple idioms of the code: \<^verbatim>\<open>tuple(sorted(set(xs))) == xs\<close>,
    \<^verbatim>\<open>tuple(dict.fromkeys(xs)) == xs\<close>, \<^verbatim>\<open>next(x for x in xs if p(x))\<close>, each with its characterisation;
  \<^item> the identifier patterns of the pydantic fields.
  \<^item> the collections \<open>res_simps\<close>, \<open>tuple_simps\<close> that the component proofs hand to \<open>simp\<close>/\<open>auto\<close>.
\<close>

named_theorems res_simps \<open>unfolding of result-typed computations\<close>
named_theorems tuple_simps \<open>characterisations of the tuple idioms\<close>

section \<open>Exceptions as results\<close>

datatype py_error =
    ValueError string
  | ValidationError string
  | ConfigurationError string
  | MarketEventError string
  | PaperOrderBlocked "string list"
  | PaperConflict
  | LookupError
  | KeyError
  | IndexError
  | StopIteration
  | RuntimeError string
  | InvalidOperation
  | DivisionByZero
  | OverflowError

type_synonym 'a res = "py_error + 'a"

definition rbind :: "'a res \<Rightarrow> ('a \<Rightarrow> 'b res) \<Rightarrow> 'b res" where
  "rbind m f = (case m of Inl e \<Rightarrow> Inl e | Inr x \<Rightarrow> f x)"

lemma rbind_Inl [simp, res_simps]: "rbind (Inl e) f = Inl e"
  and rbind_Inr [simp, res_simps]: "rbind (Inr x) f = f x"
  by (simp_all add: rbind_def)

lemma rbind_eq_Inr [res_simps]: "rbind m f = Inr y \<longleftrightarrow> (\<exists>x. m = Inr x \<and> f x = Inr y)"
  by (cases m) auto

lemma rbind_eq_Inl [res_simps]:
  "rbind m f = Inl e \<longleftrightarrow> m = Inl e \<or> (\<exists>x. m = Inr x \<and> f x = Inl e)"
  by (cases m) auto

lemma if_Inl_eq_Inr [res_simps]: "(if b then Inl e else r) = Inr y \<longleftrightarrow> \<not> b \<and> r = Inr y"
  by simp

lemma case_res_True: "case r of Inl _ \<Rightarrow> False | Inr x \<Rightarrow> P x \<Longrightarrow> \<exists>x. r = Inr x \<and> P x"
  by (cases r) auto

lemma rbind_cong [fundef_cong]:
  "m = m' \<Longrightarrow> (\<And>x. m' = Inr x \<Longrightarrow> f x = g x) \<Longrightarrow> rbind m f = rbind m' g"
  by (cases m') auto

text \<open>A comprehension whose element expression may raise: the first exception wins.\<close>

fun map_res :: "('a \<Rightarrow> 'b res) \<Rightarrow> 'a list \<Rightarrow> 'b list res" where
  "map_res f [] = Inr []"
| "map_res f (x # xs) = rbind (f x) (\<lambda>y. rbind (map_res f xs) (\<lambda>ys. Inr (y # ys)))"

lemma map_res_cong [fundef_cong]:
  "xs = ys \<Longrightarrow> (\<And>x. x \<in> set ys \<Longrightarrow> f x = g x) \<Longrightarrow> map_res f xs = map_res g ys"
  by (induction ys arbitrary: xs) auto

lemma map_res_Inr_iff:
  "map_res f xs = Inr ys \<longleftrightarrow> list_all2 (\<lambda>x y. f x = Inr y) xs ys"
proof (induction xs arbitrary: ys)
  case Nil
  then show ?case by auto
next
  case (Cons x xs)
  then show ?case by (cases ys) (auto simp: rbind_eq_Inr)
qed

lemma list_all2_set_right:
  "list_all2 P xs ys \<Longrightarrow> y \<in> set ys \<Longrightarrow> \<exists>x \<in> set xs. P x y"
  by (induction rule: list_all2_induct) auto

lemma map_res_total: "(\<And>x. x \<in> set xs \<Longrightarrow> f x = Inr (g x)) \<Longrightarrow> map_res f xs = Inr (map g xs)"
  by (induction xs) auto

lemma map_res_ex:
  "(\<And>x. x \<in> set xs \<Longrightarrow> \<exists>y. f x = Inr y \<and> P x y) \<Longrightarrow>
   \<exists>ys. map_res f xs = Inr ys \<and> length ys = length xs \<and> (\<forall>y \<in> set ys. \<exists>x \<in> set xs. P x y)"
proof (induction xs)
  case (Cons x xs)
  then obtain y where "f x = Inr y" "P x y" by auto
  moreover obtain ys where "map_res f xs = Inr ys" "length ys = length xs"
      "\<forall>y \<in> set ys. \<exists>x \<in> set xs. P x y"
    using Cons by (metis list.set_intros(2))
  ultimately show ?case by auto
qed simp

lemma map_res_defined: "(\<And>x. x \<in> set xs \<Longrightarrow> \<exists>y. f x = Inr y) \<Longrightarrow> \<exists>ys. map_res f xs = Inr ys"
  by (induction xs) (auto simp: rbind_def split: sum.splits, force)

text \<open>A \<^verbatim>\<open>for\<close> loop whose body only raises.\<close>

fun check_all :: "('a \<Rightarrow> unit res) \<Rightarrow> 'a list \<Rightarrow> unit res" where
  "check_all f [] = Inr ()"
| "check_all f (x # xs) = rbind (f x) (\<lambda>_. check_all f xs)"

lemma check_all_Inr [res_simps]: "check_all f xs = Inr u \<longleftrightarrow> (\<forall>x \<in> set xs. f x = Inr ())"
  by (induction xs) (auto simp: rbind_eq_Inr)

section \<open>Time\<close>

type_synonym instant = int
type_synonym date = int

abbreviation second_us :: int where "second_us \<equiv> 1000000"

datatype pydatetime = Naive int | Aware instant

definition to_utc :: "string \<Rightarrow> pydatetime \<Rightarrow> instant res" where
  "to_utc message v = (case v of Naive _ \<Rightarrow> Inl (ValueError message) | Aware t \<Rightarrow> Inr t)"

lemma to_utc_simps [simp]:
  "to_utc m (Aware t) = Inr t" "to_utc m (Naive n) = Inl (ValueError m)"
  by (simp_all add: to_utc_def)

section \<open>Tuple idioms\<close>

definition sorted_set :: "'a::linorder list \<Rightarrow> 'a list" where
  "sorted_set xs = sort (remdups xs)"

lemma sorted_set_fix [tuple_simps]: "sorted_set xs = xs \<longleftrightarrow> sorted xs \<and> distinct xs"
proof
  assume eq: "sorted_set xs = xs"
  have "sorted (sorted_set xs)" "distinct (sorted_set xs)"
    by (simp_all add: sorted_set_def)
  then show "sorted xs \<and> distinct xs" by (simp add: eq)
next
  assume "sorted xs \<and> distinct xs"
  then show "sorted_set xs = xs"
    by (simp add: sorted_set_def distinct_remdups_id sorted_sort_id)
qed

text \<open>\<^verbatim>\<open>dict.fromkeys\<close> keeps the first occurrence of every key, in order.\<close>

definition fromkeys :: "'a list \<Rightarrow> 'a list" where
  "fromkeys xs = rev (remdups (rev xs))"

lemma fromkeys_fix [tuple_simps]: "fromkeys xs = xs \<longleftrightarrow> distinct xs"
proof
  assume "fromkeys xs = xs"
  then have "distinct (fromkeys xs) = distinct xs" by simp
  then show "distinct xs" by (simp add: fromkeys_def)
next
  assume "distinct xs"
  then show "fromkeys xs = xs" by (simp add: fromkeys_def distinct_remdups_id)
qed

lemma set_fromkeys [simp]: "set (fromkeys xs) = set xs"
  and distinct_fromkeys [simp]: "distinct (fromkeys xs)"
  by (simp_all add: fromkeys_def)

lemma fromkeys_Nil_iff [simp]: "fromkeys xs = [] \<longleftrightarrow> xs = []"
  by (simp add: fromkeys_def)

text \<open>\<^verbatim>\<open>len(set(xs)) != len(xs)\<close> is the code's test for duplicates.\<close>

definition all_unique :: "'a list \<Rightarrow> bool" where
  "all_unique xs = (length (remdups xs) = length xs)"

lemma all_unique_iff [tuple_simps, simp]: "all_unique xs \<longleftrightarrow> distinct xs"
  by (auto simp: all_unique_def length_remdups_eq)

text \<open>\<^verbatim>\<open>next(x for x in xs if p(x))\<close> without a default.\<close>

definition next_match :: "('a \<Rightarrow> bool) \<Rightarrow> 'a list \<Rightarrow> 'a res" where
  "next_match p xs = (case find p xs of None \<Rightarrow> Inl StopIteration | Some x \<Rightarrow> Inr x)"

lemma next_match_Inr: "next_match p xs = Inr x \<Longrightarrow> x \<in> set xs \<and> p x"
  by (auto simp: next_match_def find_Some_iff split: option.splits)

lemma next_match_exists: "x \<in> set xs \<Longrightarrow> p x \<Longrightarrow> \<exists>y. next_match p xs = Inr y"
  by (cases "find p xs") (auto simp: next_match_def find_None_iff)

section \<open>Sorting by key\<close>

lemma sort_key_in_set [simp]: "set (sort_key f xs) = set xs"
  by simp

lemma sorted_distinct_key_unique:
  assumes "distinct (map f xs)" "x \<in> set xs" "y \<in> set xs" "f x = f y"
  shows "x = y"
  using assms by (auto simp: distinct_map inj_on_def)

lemma distinct_map_sort_key [simp]: "distinct (map f (sort_key g xs)) = distinct (map f xs)"
proof -
  have "mset (map f (sort_key g xs)) = mset (map f xs)" by simp
  then show ?thesis by (metis mset_eq_imp_distinct_iff)
qed

lemma sum_list_map_sort_key [simp]:
  fixes h :: "'a \<Rightarrow> 'b::comm_monoid_add"
  shows "sum_list (map h (sort_key g xs)) = sum_list (map h xs)"
proof -
  have "mset (map h (sort_key g xs)) = mset (map h xs)" by simp
  then show ?thesis by (metis sum_mset_sum_list)
qed

lemma sum_list_if_mem:
  "distinct ks \<Longrightarrow> sum_list (map (\<lambda>k. if a = k then m else {#}) ks) = (if a \<in> set ks then m else {#})"
  by (induction ks) auto

text \<open>Grouping by a key (\<^verbatim>\<open>defaultdict(list)\<close>) keeps every element exactly once.\<close>

lemma mset_concat_groups:
  assumes "distinct ks" "f ` set xs \<subseteq> set ks"
  shows "mset (concat (map (\<lambda>k. filter (\<lambda>x. f x = k) xs) ks)) = mset xs"
  using assms(2)
proof (induction xs)
  case (Cons x xs)
  have "mset (concat (map (\<lambda>k. filter (\<lambda>y. f y = k) (x # xs)) ks)) =
      sum_list (map (\<lambda>k. (if f x = k then {#x#} else {#}) + mset (filter (\<lambda>y. f y = k) xs)) ks)"
    unfolding mset_concat map_map o_def by (intro arg_cong [where f = sum_list] map_cong) auto
  also have "\<dots> = {#x#} + mset (concat (map (\<lambda>k. filter (\<lambda>y. f y = k) xs) ks))"
    using Cons.prems by (simp add: sum_list_addf sum_list_if_mem assms(1) mset_concat o_def)
  finally show ?case using Cons by simp
qed (simp add: mset_concat o_def)

section \<open>Association lists: Python dictionaries that keep insertion order\<close>

definition keyed :: "('a \<Rightarrow> 'k) \<Rightarrow> 'a list \<Rightarrow> 'k \<Rightarrow> 'a option" where
  "keyed key xs k = find (\<lambda>x. key x = k) (rev xs)"

text \<open>\<^verbatim>\<open>{key(x): x for x in xs}\<close>: the last item with a key wins.\<close>

lemma keyed_Some: "keyed key xs k = Some x \<Longrightarrow> x \<in> set xs \<and> key x = k"
  by (auto simp: keyed_def find_Some_iff in_set_conv_nth dest: sym) (metis length_rev nth_mem set_rev in_set_conv_nth)

lemma keyed_None: "keyed key xs k = None \<longleftrightarrow> k \<notin> key ` set xs"
  by (auto simp: keyed_def find_None_iff)

lemma keyed_distinct:
  assumes "distinct (map key xs)" "x \<in> set xs"
  shows "keyed key xs (key x) = Some x"
proof (cases "keyed key xs (key x)")
  case None
  with assms show ?thesis by (auto simp: keyed_None)
next
  case (Some y)
  then have "y \<in> set xs" "key y = key x" using keyed_Some by fastforce+
  with assms Some show ?thesis by (metis sorted_distinct_key_unique)
qed

lemma sum_list_mset_eq:
  fixes xs ys :: "'b::comm_monoid_add list"
  shows "mset xs = mset ys \<Longrightarrow> sum_list xs = sum_list ys"
  by (metis sum_mset_sum_list)

lemma sum_list_map_zero:
  fixes f :: "'a \<Rightarrow> 'b::comm_monoid_add"
  shows "(\<And>x. x \<in> set xs \<Longrightarrow> f x = 0) \<Longrightarrow> sum_list (map f xs) = 0"
  by (induction xs) auto

text \<open>Taking out the entry of a key.\<close>

lemma sum_list_remove_key:
  fixes g :: "'a \<Rightarrow> 'b::comm_monoid_add"
  assumes "distinct (map f xs)" "x \<in> set xs"
  shows "sum_list (map g xs) = g x + sum_list (map g (filter (\<lambda>y. f y \<noteq> f x) xs))"
  using assms
proof (induction xs)
  case (Cons y ys)
  show ?case
  proof (cases "f y = f x")
    case True
    then have "y = x" using Cons.prems by (metis sorted_distinct_key_unique list.set_intros(1))
    moreover have "filter (\<lambda>z. f z \<noteq> f x) ys = ys" using Cons.prems(1) True by (auto simp: filter_id_conv image_iff)
    ultimately show ?thesis by simp
  next
    case False
    then have "x \<in> set ys" using Cons.prems(2) by auto
    then show ?thesis using Cons False by (simp add: ac_simps)
  qed
qed simp

lemma singleton_filter:
  assumes "length (filter P xs) = 1"
  shows "hd (filter P xs) \<in> set xs" "P (hd (filter P xs))"
proof -
  have "filter P xs \<noteq> []" using assms by auto
  then have "hd (filter P xs) \<in> set (filter P xs)" by (rule hd_in_set)
  then show "hd (filter P xs) \<in> set xs" "P (hd (filter P xs))" by auto
qed

lemma list_all_replicate [simp]: "list_all P (replicate n x) \<longleftrightarrow> n = 0 \<or> P x"
  by (auto simp: list_all_iff)

section \<open>Machines that may refuse a step\<close>

text \<open>
  A component whose operations return the next state or raise: \<open>run_res\<close> applies a sequence of operations and
  stops at the first exception. \<open>guarded_machine\<close> is the contract of an invariant kept by every accepted
  operation, \<open>metered_machine\<close> adds a quantity that each operation changes by a known amount; their laws
  lift to runs once, here, and every component interprets them on its own operations.
\<close>

fun run_res :: "('s \<Rightarrow> 'e \<Rightarrow> 's res) \<Rightarrow> 's \<Rightarrow> 'e list \<Rightarrow> 's res" where
  "run_res step s [] = Inr s"
| "run_res step s (e # es) = rbind (step s e) (\<lambda>s'. run_res step s' es)"

fun run_cost :: "('s \<Rightarrow> 'e \<Rightarrow> 's res) \<Rightarrow> ('s \<Rightarrow> 'e \<Rightarrow> 'm::comm_monoid_add) \<Rightarrow> 's \<Rightarrow> 'e list \<Rightarrow> 'm" where
  "run_cost step cost s [] = 0"
| "run_cost step cost s (e # es) = (case step s e of Inl _ \<Rightarrow> 0 | Inr s' \<Rightarrow> cost s e + run_cost step cost s' es)"

lemma run_res_append: "run_res step s (es @ es') = rbind (run_res step s es) (\<lambda>s'. run_res step s' es')"
  by (induction es arbitrary: s) (auto simp: rbind_def split: sum.splits)

lemma run_res_prefix: "run_res step s (es @ es') = Inr t \<Longrightarrow> \<exists>m. run_res step s es = Inr m"
  by (auto simp: run_res_append rbind_eq_Inr)

locale guarded_machine =
  fixes step :: "'s \<Rightarrow> 'e \<Rightarrow> 's res" and inv :: "'s \<Rightarrow> bool" and ok :: "'e \<Rightarrow> bool"
  assumes step_inv: "inv s \<Longrightarrow> ok e \<Longrightarrow> step s e = Inr s' \<Longrightarrow> inv s'"
begin

lemma run_inv: "inv s \<Longrightarrow> list_all ok es \<Longrightarrow> run_res step s es = Inr s' \<Longrightarrow> inv s'"
  by (induction es arbitrary: s) (auto simp: rbind_eq_Inr intro: step_inv)

end

locale metered_machine = guarded_machine step inv ok
  for step :: "'s \<Rightarrow> 'e \<Rightarrow> 's res" and inv ok +
  fixes total :: "'s \<Rightarrow> 'm::comm_monoid_add" and cost :: "'s \<Rightarrow> 'e \<Rightarrow> 'm"
  assumes step_total: "inv s \<Longrightarrow> ok e \<Longrightarrow> step s e = Inr s' \<Longrightarrow> total s' + cost s e = total s"
begin

lemma run_total:
  "inv s \<Longrightarrow> list_all ok es \<Longrightarrow> run_res step s es = Inr s' \<Longrightarrow> total s' + run_cost step cost s es = total s"
proof (induction es arbitrary: s)
  case (Cons e es)
  then obtain s1 where s1: "step s e = Inr s1" "run_res step s1 es = Inr s'" by (auto simp: rbind_eq_Inr)
  have ok: "ok e" "list_all ok es" using Cons.prems(2) by auto
  have "inv s1" using Cons.prems(1) ok(1) s1(1) by (rule step_inv)
  then have "total s' + run_cost step cost s1 es = total s1" using ok(2) s1(2) by (rule Cons.IH)
  moreover have "total s1 + cost s e = total s" using Cons.prems(1) ok(1) s1(1) by (rule step_total)
  ultimately show ?case using s1 by (simp add: add.assoc) (metis add.assoc add.commute)
qed simp

end

section \<open>Identifier patterns\<close>

definition lower_or_digit :: "char \<Rightarrow> bool" where
  "lower_or_digit c = ((CHR ''a'' \<le> c \<and> c \<le> CHR ''z'') \<or> (CHR ''0'' \<le> c \<and> c \<le> CHR ''9''))"

definition upper :: "char \<Rightarrow> bool" where
  "upper c = (CHR ''A'' \<le> c \<and> c \<le> CHR ''Z'')"

definition digit :: "char \<Rightarrow> bool" where
  "digit c = (CHR ''0'' \<le> c \<and> c \<le> CHR ''9'')"

text \<open>\<^verbatim>\<open>^[0-9a-f]{64}$\<close>\<close>

definition is_sha256 :: "string \<Rightarrow> bool" where
  "is_sha256 s = (length s = 64 \<and>
     list_all (\<lambda>c. digit c \<or> (CHR ''a'' \<le> c \<and> c \<le> CHR ''f'')) s)"

text \<open>\<^verbatim>\<open>^[a-z0-9][a-z0-9-]*$\<close>\<close>

definition is_version :: "string \<Rightarrow> bool" where
  "is_version s = (case s of [] \<Rightarrow> False
     | c # cs \<Rightarrow> lower_or_digit c \<and> list_all (\<lambda>c. lower_or_digit c \<or> c = CHR ''-'') cs)"

text \<open>\<^verbatim>\<open>^[a-z0-9][a-z0-9_]*$\<close>\<close>

definition is_strategy :: "string \<Rightarrow> bool" where
  "is_strategy s = (case s of [] \<Rightarrow> False
     | c # cs \<Rightarrow> lower_or_digit c \<and> list_all (\<lambda>c. lower_or_digit c \<or> c = CHR ''_'') cs)"

text \<open>\<^verbatim>\<open>^[A-Z][A-Z0-9]*$\<close>\<close>

definition is_ticker :: "string \<Rightarrow> bool" where
  "is_ticker s = (case s of [] \<Rightarrow> False
     | c # cs \<Rightarrow> upper c \<and> list_all (\<lambda>c. upper c \<or> digit c) cs)"

text \<open>
  \<^verbatim>\<open>value != value.strip().upper()\<close> over ASCII identifiers: no surrounding white space and no
  lower-case letter.
\<close>

definition is_space :: "char \<Rightarrow> bool" where
  "is_space c = (c \<in> {CHR '' '', CHR 0x09, CHR 0x0A, CHR 0x0B, CHR 0x0C, CHR 0x0D,
                      CHR 0x1C, CHR 0x1D, CHR 0x1E, CHR 0x1F})"

definition strip :: "string \<Rightarrow> string" where
  "strip s = rev (dropWhile is_space (rev (dropWhile is_space s)))"

definition to_upper :: "char \<Rightarrow> char" where
  "to_upper c = (if CHR ''a'' \<le> c \<and> c \<le> CHR ''z'' then char_of (of_char c - (32::nat)) else c)"

definition is_uppercase_identifier :: "string \<Rightarrow> bool" where
  "is_uppercase_identifier s = (s \<noteq> [] \<and> s = map to_upper (strip s))"

end
