(* ===== verification/Decimals.thy ===== *)
theory Decimals
  imports Prelude
begin

text \<open>
  Python's \<^verbatim>\<open>decimal.Decimal\<close> under the default context (28 significant digits,
  \<^verbatim>\<open>ROUND_HALF_EVEN\<close>), and \<^verbatim>\<open>t0_trading/numeric.py\<close> over it.

  A decimal is identified by its numerical value, a \<open>rat\<close>; every arithmetic operation computes the
  exact result and rounds it with \<open>dec_ctx\<close>, as the context does; comparisons are exact.
  \<^verbatim>\<open>quantize\<close> rounds to a quantum and raises \<^verbatim>\<open>InvalidOperation\<close> when the coefficient
  would need more than 28 digits. Exponents are unbounded (\<^verbatim>\<open>Emin\<close>/\<^verbatim>\<open>Emax\<close> are six digits).

  The library part shows that \<open>dec_ctx\<close> is monotone, odd, exact on every value of at most 28 digits and
  sign preserving; these carry the accounting proofs of the other theories.
\<close>

named_theorems dec_simps \<open>evaluation and sign of rounded decimal arithmetic\<close>

type_synonym decimal = rat

section \<open>Rounding to an integer\<close>

definition round_half_even :: "rat \<Rightarrow> int" where
  "round_half_even x = (let f = \<lfloor>x\<rfloor>; r = x - of_int f in
     if r < 1 / 2 then f else if 1 / 2 < r then f + 1 else if even f then f else f + 1)"

definition round_half_up :: "rat \<Rightarrow> int" where
  "round_half_up x = (if 0 \<le> x then \<lfloor>x + 1 / 2\<rfloor> else - \<lfloor>1 / 2 - x\<rfloor>)"

lemma round_half_even_of_int [simp]: "round_half_even (of_int n) = n"
  by (simp add: round_half_even_def Let_def)

lemma round_half_even_bounds: "\<lfloor>x\<rfloor> \<le> round_half_even x" "round_half_even x \<le> \<lfloor>x\<rfloor> + 1"
  by (auto simp: round_half_even_def Let_def)

lemma round_half_even_error: "\<bar>of_int (round_half_even x) - x\<bar> \<le> 1 / 2"
proof -
  have "of_int \<lfloor>x\<rfloor> \<le> x" "x < of_int \<lfloor>x\<rfloor> + 1" by linarith+
  then show ?thesis
    unfolding round_half_even_def Let_def abs_le_iff by (auto split: if_split) linarith+
qed

lemma round_half_even_mono: "x \<le> y \<Longrightarrow> round_half_even x \<le> round_half_even y"
proof -
  assume le: "x \<le> y"
  show ?thesis
  proof (cases "\<lfloor>x\<rfloor> = \<lfloor>y\<rfloor>")
    case True
    with le show ?thesis by (auto simp: round_half_even_def Let_def)
  next
    case False
    with le have "\<lfloor>x\<rfloor> + 1 \<le> \<lfloor>y\<rfloor>" using floor_mono [OF le] by linarith
    then show ?thesis using round_half_even_bounds [of x] round_half_even_bounds [of y] by linarith
  qed
qed

lemma round_half_even_minus: "round_half_even (- x) = - round_half_even x"
proof (cases "x = of_int \<lfloor>x\<rfloor>")
  case True
  then have "round_half_even (- x) = round_half_even (of_int (- \<lfloor>x\<rfloor>))"
    by (metis of_int_minus)
  also have "\<dots> = - \<lfloor>x\<rfloor>" by (rule round_half_even_of_int)
  also have "\<lfloor>x\<rfloor> = round_half_even x" using round_half_even_of_int [of "\<lfloor>x\<rfloor>"] True by metis
  finally show ?thesis .
next
  case False
  then have lt: "of_int \<lfloor>x\<rfloor> < x" "x < of_int \<lfloor>x\<rfloor> + 1" by linarith+
  have fl: "\<lfloor>- x\<rfloor> = - \<lfloor>x\<rfloor> - 1"
    using lt by (intro floor_unique) auto
  show ?thesis
    using lt by (auto simp: round_half_even_def Let_def fl)
qed

section \<open>The arithmetic context\<close>

fun ndigits :: "nat \<Rightarrow> nat" where
  "ndigits n = (if n < 10 then 1 else Suc (ndigits (n div 10)))"

declare ndigits.simps [simp del]

lemma ndigits_upper: "n < 10 ^ ndigits n"
proof (induction n rule: ndigits.induct)
  case (1 n)
  show ?case
  proof (cases "n < 10")
    case True
    then show ?thesis by (simp add: ndigits.simps [of n])
  next
    case False
    with 1 have "n div 10 < 10 ^ ndigits (n div 10)" by simp
    then have "n < 10 * 10 ^ ndigits (n div 10)" by linarith
    with False show ?thesis by (simp add: ndigits.simps [of n])
  qed
qed

lemma ndigits_lower: "0 < n \<Longrightarrow> 10 ^ (ndigits n - 1) \<le> n"
proof (induction n rule: ndigits.induct)
  case (1 n)
  show ?case
  proof (cases "n < 10")
    case True
    with 1 show ?thesis by (simp add: ndigits.simps [of n])
  next
    case False
    then have pos: "0 < n div 10" by linarith
    with 1 False have ih: "10 ^ (ndigits (n div 10) - 1) \<le> n div 10" by simp
    have "1 \<le> ndigits (n div 10)" by (simp add: ndigits.simps [of "n div 10"])
    then have "(10::nat) ^ ndigits (n div 10) = 10 * 10 ^ (ndigits (n div 10) - 1)"
      by (metis Suc_diff_le diff_Suc_1 power_Suc)
    with ih have "10 ^ ndigits (n div 10) \<le> 10 * (n div 10)" by simp
    also have "\<dots> \<le> n" by simp
    finally show ?thesis using False by (simp add: ndigits.simps [of n])
  qed
qed

definition p10 :: "int \<Rightarrow> rat" where
  "p10 e = 10 powi e"

lemma p10_pos [simp]: "0 < p10 e"
  by (simp add: p10_def)

lemma p10_nonzero [simp]: "p10 e \<noteq> 0"
  using p10_pos [of e] by linarith

lemma p10_add: "p10 (a + b) = p10 a * p10 b"
  by (simp add: p10_def power_int_add)

lemma p10_nat: "p10 (int n) = 10 ^ n"
  by (simp add: p10_def)

lemma p10_0 [simp]: "p10 0 = 1"
  by (simp add: p10_def)

lemma p10_mono: "a \<le> b \<Longrightarrow> p10 a \<le> p10 b"
  by (simp add: p10_def power_int_increasing)

lemma p10_less_iff: "p10 a < p10 b \<longleftrightarrow> a < b"
  by (metis p10_def power_int_strict_increasing p10_mono linorder_not_less one_less_numeral_iff semiring_norm(76))

text \<open>The exponent of the leading digit (\<^verbatim>\<open>Decimal.adjusted\<close>).\<close>

definition adjusted :: "rat \<Rightarrow> int" where
  "adjusted x = (let (n, d) = quotient_of \<bar>x\<bar>; l = int (ndigits (nat n)) - int (ndigits (nat d))
                 in if \<bar>x\<bar> < p10 l then l - 1 else l)"

lemma adjusted_bounds:
  assumes "x \<noteq> 0"
  shows "p10 (adjusted x) \<le> \<bar>x\<bar>" "\<bar>x\<bar> < p10 (adjusted x + 1)"
proof -
  obtain n d where q: "quotient_of \<bar>x\<bar> = (n, d)" by (cases "quotient_of \<bar>x\<bar>")
  define a b where "a = nat n" and "b = nat d"
  define l where "l = int (ndigits a) - int (ndigits b)"
  have d: "0 < d" using q by (rule quotient_of_denom_pos)
  have eq: "\<bar>x\<bar> = of_int n / of_int d" using q by (rule quotient_of_div)
  have "0 < (of_int n / of_int d :: rat)" using assms eq by (metis zero_less_abs_iff)
  with d have n: "0 < n" by (simp add: zero_less_divide_iff)
  have a0: "0 < a" and b0: "0 < b" using n d by (simp_all add: a_def b_def)
  have x: "\<bar>x\<bar> = of_nat a / of_nat b" using eq n d by (simp add: a_def b_def of_nat_nat)
  have a1: "(of_nat a :: rat) < 10 ^ ndigits a"
    using ndigits_upper [of a] by (metis of_nat_less_iff of_nat_numeral of_nat_power)
  have b1: "(of_nat b :: rat) < 10 ^ ndigits b"
    using ndigits_upper [of b] by (metis of_nat_less_iff of_nat_numeral of_nat_power)
  have a2: "(10 :: rat) ^ (ndigits a - 1) \<le> of_nat a"
    using ndigits_lower [OF a0] by (metis of_nat_le_iff of_nat_numeral of_nat_power)
  have b2: "(10 :: rat) ^ (ndigits b - 1) \<le> of_nat b"
    using ndigits_lower [OF b0] by (metis of_nat_le_iff of_nat_numeral of_nat_power)
  obtain i where i: "ndigits a = Suc i"
    by (cases "ndigits a") (auto simp: ndigits.simps [of a] split: if_splits)
  obtain j where j: "ndigits b = Suc j"
    by (cases "ndigits b") (auto simp: ndigits.simps [of b] split: if_splits)
  have pl: "p10 l = 10 ^ i / 10 ^ j"
    by (simp add: p10_def l_def i j power_int_diff)
  have "\<bar>x\<bar> < 10 ^ ndigits a / 10 ^ (ndigits b - 1)"
    unfolding x using a1 b2 b0 by (intro frac_less) auto
  also have "\<dots> = p10 (l + 1)"
    by (simp add: p10_add pl i j) (simp add: p10_def)
  finally have hi: "\<bar>x\<bar> < p10 (l + 1)" .
  have "p10 (l - 1) = 10 ^ (ndigits a - 1) / 10 ^ ndigits b"
    using p10_add [of "l - 1" 1] by (simp add: pl i j) (simp add: p10_def field_simps)
  also have "\<dots> \<le> \<bar>x\<bar>"
    unfolding x using a2 b1 b0 by (intro frac_le) auto
  finally have lo: "p10 (l - 1) \<le> \<bar>x\<bar>" .
  have adj: "adjusted x = (if \<bar>x\<bar> < p10 l then l - 1 else l)"
    by (simp add: adjusted_def q l_def a_def b_def Let_def)
  show "p10 (adjusted x) \<le> \<bar>x\<bar>" "\<bar>x\<bar> < p10 (adjusted x + 1)"
    using hi lo by (auto simp: adj)
qed

definition dec_ctx :: "rat \<Rightarrow> decimal" where
  "dec_ctx x = (if x = 0 then 0 else
     let e = adjusted x - 27 in of_int (round_half_even (x / p10 e)) * p10 e)"

definition dadd :: "decimal \<Rightarrow> decimal \<Rightarrow> decimal" where "dadd x y = dec_ctx (x + y)"
definition dsub :: "decimal \<Rightarrow> decimal \<Rightarrow> decimal" where "dsub x y = dec_ctx (x - y)"
definition dmul :: "decimal \<Rightarrow> decimal \<Rightarrow> decimal" where "dmul x y = dec_ctx (x * y)"
definition dneg :: "decimal \<Rightarrow> decimal" where "dneg x = dec_ctx (- x)"

text \<open>Division, where the divisor is known to be non-zero; \<open>ddiv_res\<close> has the error branch.\<close>

definition ddiv :: "decimal \<Rightarrow> decimal \<Rightarrow> decimal" where "ddiv x y = dec_ctx (x / y)"
definition ddiv_res :: "decimal \<Rightarrow> decimal \<Rightarrow> decimal res" where
  "ddiv_res x y = (if y = 0 then Inl (if x = 0 then InvalidOperation else DivisionByZero)
                   else Inr (ddiv x y))"

text \<open>\<^verbatim>\<open>sum(values, Decimal(0))\<close>: a left fold of rounded additions.\<close>

definition dsum :: "decimal list \<Rightarrow> decimal" where
  "dsum xs = foldl dadd 0 xs"

lemma adjusted_minus [simp]: "adjusted (- x) = adjusted x"
  by (simp add: adjusted_def)

lemma dec_ctx_0 [simp, dec_simps]: "dec_ctx 0 = 0"
  by (simp add: dec_ctx_def)

lemma dec_ctx_minus: "dec_ctx (- x) = - dec_ctx x"
  by (simp add: dec_ctx_def Let_def round_half_even_minus)

lemma dec_ctx_scale:
  assumes "0 < x"
  shows "p10 (adjusted x) \<le> dec_ctx x" "dec_ctx x \<le> p10 (adjusted x + 1)"
proof -
  let ?e = "adjusted x - 27"
  have b: "p10 (adjusted x) \<le> x" "x < p10 (adjusted x + 1)"
    using adjusted_bounds [of x] assms by auto
  have lo: "of_int (10 ^ 27) \<le> x / p10 ?e"
    using b(1) p10_add [of 27 ?e] p10_nat [of 27] by (simp add: pos_le_divide_eq)
  have hi: "x / p10 ?e \<le> of_int (10 ^ 28)"
    using b(2) p10_add [of 28 ?e] p10_nat [of 28] by (simp add: pos_divide_le_eq add.commute)
  have c: "(10 ^ 27 :: int) \<le> round_half_even (x / p10 ?e)" "round_half_even (x / p10 ?e) \<le> 10 ^ 28"
    using round_half_even_mono [OF lo] round_half_even_mono [OF hi] round_half_even_of_int by metis+
  have "p10 (adjusted x) = of_int (10 ^ 27) * p10 ?e"
    using p10_add [of 27 ?e] p10_nat [of 27] by simp
  also have "\<dots> \<le> of_int (round_half_even (x / p10 ?e)) * p10 ?e"
    using c(1) by (intro mult_right_mono) (simp_all only: of_int_le_iff p10_pos less_imp_le)
  also have "\<dots> = dec_ctx x" using assms by (simp add: dec_ctx_def Let_def)
  finally show "p10 (adjusted x) \<le> dec_ctx x" .
  have "dec_ctx x = of_int (round_half_even (x / p10 ?e)) * p10 ?e"
    using assms by (simp add: dec_ctx_def Let_def)
  also have "\<dots> \<le> of_int (10 ^ 28) * p10 ?e"
    using c(2) by (intro mult_right_mono) (simp_all only: of_int_le_iff p10_pos less_imp_le)
  also have "\<dots> = p10 (adjusted x + 1)"
    using p10_add [of 28 ?e] p10_nat [of 28] by (simp add: add.commute)
  finally show "dec_ctx x \<le> p10 (adjusted x + 1)" .
qed

lemma dec_ctx_pos: "0 < x \<Longrightarrow> 0 < dec_ctx x"
  using dec_ctx_scale(1) [of x] p10_pos [of "adjusted x"] by linarith

lemma dec_ctx_neg: "x < 0 \<Longrightarrow> dec_ctx x < 0"
  using dec_ctx_pos [of "- x"] by (simp add: dec_ctx_minus)

lemma dec_ctx_sign [simp, dec_simps]:
  "dec_ctx x = 0 \<longleftrightarrow> x = 0" "0 < dec_ctx x \<longleftrightarrow> 0 < x" "dec_ctx x < 0 \<longleftrightarrow> x < 0"
  "0 \<le> dec_ctx x \<longleftrightarrow> 0 \<le> x" "dec_ctx x \<le> 0 \<longleftrightarrow> x \<le> 0"
  using dec_ctx_pos [of x] dec_ctx_neg [of x] by (cases x "0 :: rat" rule: linorder_cases; auto)+

lemma adjusted_mono: "0 < x \<Longrightarrow> x \<le> y \<Longrightarrow> adjusted x \<le> adjusted y"
proof -
  assume "0 < x" "x \<le> y"
  then have "p10 (adjusted x) < p10 (adjusted y + 1)"
    using adjusted_bounds [of x] adjusted_bounds [of y] by auto
  then show ?thesis by (simp add: p10_less_iff)
qed

lemma dec_ctx_mono_pos: "0 < x \<Longrightarrow> x \<le> y \<Longrightarrow> dec_ctx x \<le> dec_ctx y"
proof -
  assume x: "0 < x" and le: "x \<le> y"
  then have y: "0 < y" by linarith
  show ?thesis
  proof (cases "adjusted x = adjusted y")
    case True
    have "x / p10 (adjusted x - 27) \<le> y / p10 (adjusted x - 27)"
      using le by (intro divide_right_mono) (simp_all add: less_imp_le)
    then have "round_half_even (x / p10 (adjusted x - 27)) \<le> round_half_even (y / p10 (adjusted x - 27))"
      by (rule round_half_even_mono)
    then show ?thesis using x y True
      by (simp add: dec_ctx_def Let_def mult_right_mono less_imp_le)
  next
    case False
    with adjusted_mono [OF x le] have "p10 (adjusted x + 1) \<le> p10 (adjusted y)"
      by (intro p10_mono) simp
    then show ?thesis using dec_ctx_scale(2) [OF x] dec_ctx_scale(1) [OF y] by linarith
  qed
qed

lemma dec_ctx_mono: "x \<le> y \<Longrightarrow> dec_ctx x \<le> dec_ctx y"
proof -
  assume le: "x \<le> y"
  consider "0 < x" | "x \<le> 0" "0 \<le> y" | "y < 0" using le by linarith
  then show ?thesis
  proof cases
    case 1
    then show ?thesis using le by (rule dec_ctx_mono_pos)
  next
    case 2
    then have "dec_ctx x \<le> 0" "0 \<le> dec_ctx y" by simp_all
    then show ?thesis by linarith
  next
    case 3
    then have "dec_ctx (- y) \<le> dec_ctx (- x)" using le by (intro dec_ctx_mono_pos) simp_all
    then show ?thesis by (simp add: dec_ctx_minus)
  qed
qed

section \<open>Exactness\<close>

lemma dec_ctx_exact_pos:
  assumes c: "0 < c" "c \<le> 10 ^ 28"
  shows "dec_ctx (of_int c * p10 e) = of_int c * p10 e"
proof -
  let ?x = "of_int c * p10 e" and ?a = "adjusted (of_int c * p10 e)"
  have x: "0 < ?x" using c by simp
  have b: "p10 ?a \<le> ?x" "?x < p10 (?a + 1)" using adjusted_bounds [of ?x] x c(1) by auto
  have top: "p10 (28 + e) = 10 ^ 28 * p10 e" by (simp add: p10_add) (simp add: p10_def)
  have "(of_int c :: rat) \<le> of_int (10 ^ 28)" using c(2) by (rule of_int_le_iff [THEN iffD2])
  then have "?x \<le> 10 ^ 28 * p10 e" by (intro mult_right_mono) (simp_all add: less_imp_le)
  then have le: "?x \<le> p10 (28 + e)" by (simp only: top)
  have "\<exists>m. ?x / p10 (?a - 27) = of_int m"
  proof (cases "?x = p10 (28 + e)")
    case True
    with b have "?a \<le> 28 + e" "28 + e < ?a + 1"
      using p10_less_iff [of "28 + e" ?a] p10_less_iff [of "28 + e" "?a + 1"] by linarith+
    then have "?a - 27 = e + 1" by linarith
    moreover have "p10 (28 + e) = p10 27 * p10 (e + 1)"
      by (simp flip: p10_add)
    ultimately have "?x / p10 (?a - 27) = p10 27" using True by (simp add: add.commute)
    also have "\<dots> = of_int (10 ^ 27)" by (simp add: p10_def)
    finally show ?thesis by blast
  next
    case False
    with le b(1) have "p10 ?a < p10 (28 + e)" by linarith
    then have "?a < 28 + e" by (simp add: p10_less_iff)
    then have k: "e = (?a - 27) + int (nat (e - (?a - 27)))" by simp
    have "?x / p10 (?a - 27) = of_int c * p10 (int (nat (e - (?a - 27))))"
      by (subst k) (simp only: p10_add, simp)
    also have "\<dots> = of_int (c * 10 ^ nat (e - (?a - 27)))"
      by (simp only: p10_nat) simp
    finally show ?thesis by blast
  qed
  then obtain m where "?x / p10 (?a - 27) = of_int m" by blast
  then have "of_int (round_half_even (?x / p10 (?a - 27))) = ?x / p10 (?a - 27)" by simp
  then show ?thesis using x by (simp add: dec_ctx_def Let_def)
qed

lemma dec_ctx_exact:
  assumes "\<bar>c\<bar> \<le> 10 ^ 28"
  shows "dec_ctx (of_int c * p10 e) = of_int c * p10 e"
proof (cases c "0 :: int" rule: linorder_cases)
  case less
  then have "dec_ctx (of_int (- c) * p10 e) = of_int (- c) * p10 e"
    using assms by (intro dec_ctx_exact_pos) auto
  then show ?thesis by (simp add: dec_ctx_minus)
next
  case greater
  then show ?thesis using assms by (intro dec_ctx_exact_pos) auto
qed simp

lemma dec_ctx_idem [simp]: "dec_ctx (dec_ctx x) = dec_ctx x"
proof (cases "x = 0")
  case False
  let ?e = "adjusted x - 27"
  have y: "\<bar>x\<bar> / p10 ?e \<le> of_int (10 ^ 28)"
    using adjusted_bounds(2) [OF False] p10_add [of 28 ?e] p10_nat [of 28]
    by (simp add: pos_divide_le_eq add.commute)
  have "x / p10 ?e \<le> \<bar>x\<bar> / p10 ?e" "(- x) / p10 ?e \<le> \<bar>x\<bar> / p10 ?e"
    by (intro divide_right_mono; simp add: less_imp_le)+
  then have "x / p10 ?e \<le> of_int (10 ^ 28)" "- (x / p10 ?e) \<le> of_int (10 ^ 28)"
    using y by linarith+
  then have "round_half_even (x / p10 ?e) \<le> 10 ^ 28" "- round_half_even (x / p10 ?e) \<le> 10 ^ 28"
    using round_half_even_mono round_half_even_of_int round_half_even_minus by metis+
  then have "\<bar>round_half_even (x / p10 ?e)\<bar> \<le> 10 ^ 28" by linarith
  then show ?thesis using False
    by (simp add: dec_ctx_def [of x] Let_def dec_ctx_exact)
qed simp

text \<open>Values the context stores without rounding.\<close>

definition fits :: "rat \<Rightarrow> bool" where "fits x = (dec_ctx x = x)"

lemma fits_ctx [simp]: "fits (dec_ctx x)"
  by (simp add: fits_def)

lemma fits_of_int: "\<bar>n\<bar> \<le> 10 ^ 28 \<Longrightarrow> fits (of_int n)"
  using dec_ctx_exact [of n 0] by (simp add: fits_def)

lemma dec_ctx_le: "fits y \<Longrightarrow> x \<le> y \<Longrightarrow> dec_ctx x \<le> y"
  using dec_ctx_mono [of x y] by (simp add: fits_def)

lemma dec_ctx_ge: "fits y \<Longrightarrow> y \<le> x \<Longrightarrow> y \<le> dec_ctx x"
  using dec_ctx_mono [of y x] by (simp add: fits_def)

text \<open>The grid of multiples of \<open>10\<^sup>-\<^sup>8\<close> (the finest quantum of the code).\<close>

definition on_grid :: "rat \<Rightarrow> bool" where
  "on_grid x = (x * 100000000 = of_int \<lfloor>x * 100000000\<rfloor>)"

lemma on_grid_iff: "on_grid x \<longleftrightarrow> (\<exists>n. x = of_int n / 100000000)"
  by (auto simp: on_grid_def field_simps)

lemma on_grid_add: "on_grid x \<Longrightarrow> on_grid y \<Longrightarrow> on_grid (x + y)"
  by (simp add: on_grid_iff) (metis add_divide_distrib of_int_add)

lemma on_grid_uminus: "on_grid x \<Longrightarrow> on_grid (- x)"
  by (simp add: on_grid_iff) (metis minus_divide_left of_int_minus)

lemma on_grid_diff: "on_grid x \<Longrightarrow> on_grid y \<Longrightarrow> on_grid (x - y)"
  using on_grid_add [of x "- y"] on_grid_uminus [of y] by simp

lemma on_grid_of_int [simp]: "on_grid (of_int n)"
  by (simp add: on_grid_iff exI [where x = "n * 100000000"])

lemma on_grid_mult_int: "on_grid x \<Longrightarrow> on_grid (x * of_int n)"
proof -
  assume "on_grid x"
  then obtain m where "x = of_int m / 100000000" by (auto simp: on_grid_iff)
  then have "x * of_int n = of_int (m * n) / 100000000" by simp
  then show ?thesis unfolding on_grid_iff by blast
qed

lemma on_grid_0 [simp]: "on_grid 0"
  using on_grid_of_int [of 0] by simp

lemma on_grid_fits:
  assumes "on_grid x" "\<bar>x\<bar> \<le> 10 ^ 20"
  shows "fits x"
proof -
  obtain n where x: "x = of_int n / 100000000" using assms(1) by (auto simp: on_grid_iff)
  have "\<bar>of_int n :: rat\<bar> \<le> of_int (10 ^ 28)" using assms(2) by (simp add: x field_simps)
  then have "\<bar>n\<bar> \<le> 10 ^ 28" by (metis of_int_abs of_int_le_iff)
  then have "dec_ctx (of_int n * p10 (- 8)) = of_int n * p10 (- 8)" by (rule dec_ctx_exact)
  then show ?thesis by (simp add: fits_def x p10_def power_int_minus field_simps)
qed

lemma dec_ctx_on_grid [dec_simps]:
  "x * 100000000 = of_int \<lfloor>x * 100000000\<rfloor> \<Longrightarrow> \<bar>x\<bar> \<le> 10 ^ 20 \<Longrightarrow> dec_ctx x = x"
  using on_grid_fits [of x] by (simp add: on_grid_def fits_def)

section \<open>Rounding error\<close>

lemma dec_ctx_error: "\<bar>dec_ctx x - x\<bar> \<le> \<bar>x\<bar> / (2 * 10 ^ 27)"
proof (cases "x = 0")
  case False
  let ?e = "adjusted x - 27"
  let ?r = "of_int (round_half_even (x / p10 ?e)) :: rat"
  have "dec_ctx x - x = (?r - x / p10 ?e) * p10 ?e"
    using False by (simp add: dec_ctx_def Let_def algebra_simps)
  then have "\<bar>dec_ctx x - x\<bar> = \<bar>?r - x / p10 ?e\<bar> * p10 ?e"
    by (simp add: abs_mult less_imp_le)
  also have "\<dots> \<le> 1 / 2 * p10 ?e"
    by (intro mult_right_mono round_half_even_error) (simp add: less_imp_le)
  also have "\<dots> = p10 (adjusted x) / (2 * 10 ^ 27)"
    using p10_add [of 27 ?e] p10_nat [of 27] by simp
  also have "\<dots> \<le> \<bar>x\<bar> / (2 * 10 ^ 27)"
    using adjusted_bounds(1) [OF False] by (intro divide_right_mono) simp_all
  finally show ?thesis .
qed simp

section \<open>Monotone rounding\<close>

text \<open>
  The contract that averages rely on: a monotone rounding never leaves an interval whose ends it
  fixes, however often it rounds on the way.
\<close>

locale monotone_rounding =
  fixes rnd :: "rat \<Rightarrow> rat"
  assumes mono: "x \<le> y \<Longrightarrow> rnd x \<le> rnd y"
begin

lemma le_fixed: "x \<le> y \<Longrightarrow> rnd y = y \<Longrightarrow> rnd x \<le> y"
  using mono [of x y] by simp

lemma ge_fixed: "y \<le> x \<Longrightarrow> rnd y = y \<Longrightarrow> y \<le> rnd x"
  using mono [of y x] by simp

lemma weighted_average_le:
  assumes "0 \<le> m" "0 \<le> n" "0 < m + n" "a \<le> h" "b \<le> h"
    and "rnd (h * m) = h * m" "rnd (h * n) = h * n" "rnd (h * (m + n)) = h * (m + n)" "rnd h = h"
  shows "rnd (rnd (rnd (a * m) + rnd (b * n)) / (m + n)) \<le> h"
proof -
  have "rnd (a * m) \<le> h * m" "rnd (b * n) \<le> h * n"
    using assms by (auto intro!: le_fixed mult_right_mono)
  then have "rnd (a * m) + rnd (b * n) \<le> h * (m + n)" by (simp add: distrib_left)
  then have "rnd (rnd (a * m) + rnd (b * n)) \<le> h * (m + n)" using assms(8) by (rule le_fixed)
  then have "rnd (rnd (a * m) + rnd (b * n)) / (m + n) \<le> h" using assms(3) by (simp add: divide_le_eq)
  then show ?thesis using assms(9) by (rule le_fixed)
qed

lemma weighted_average_ge:
  assumes "0 \<le> m" "0 \<le> n" "0 < m + n" "h \<le> a" "h \<le> b"
    and "rnd (h * m) = h * m" "rnd (h * n) = h * n" "rnd (h * (m + n)) = h * (m + n)" "rnd h = h"
  shows "h \<le> rnd (rnd (rnd (a * m) + rnd (b * n)) / (m + n))"
proof -
  have "h * m \<le> rnd (a * m)" "h * n \<le> rnd (b * n)"
    using assms by (auto intro!: ge_fixed mult_right_mono)
  then have "h * (m + n) \<le> rnd (a * m) + rnd (b * n)" by (simp add: distrib_left)
  then have "h * (m + n) \<le> rnd (rnd (a * m) + rnd (b * n))" using assms(8) by (rule ge_fixed)
  then have "h \<le> rnd (rnd (a * m) + rnd (b * n)) / (m + n)" using assms(3) by (simp add: le_divide_eq)
  then show ?thesis using assms(9) by (rule ge_fixed)
qed

end

interpretation context_rounding: monotone_rounding dec_ctx
  by unfold_locales (rule dec_ctx_mono)

lemma on_grid_scaled_exact:
  assumes "on_grid h" "0 \<le> h" "0 \<le> n" "n \<le> q" "h * of_int q \<le> 10 ^ 20"
  shows "dec_ctx (h * of_int n) = h * of_int n"
proof -
  have "h * of_int n \<le> h * of_int q" using assms by (intro mult_left_mono) auto
  then have "\<bar>h * of_int n\<bar> \<le> 10 ^ 20" using assms by simp
  then show ?thesis using on_grid_fits [OF on_grid_mult_int [OF assms(1)]] by (simp add: fits_def)
qed

section \<open>Kernel evaluation\<close>

lemma floor_rat_numeral [dec_simps]:
  "\<lfloor>numeral a / numeral b :: rat\<rfloor> = numeral a div numeral b"
  "\<lfloor>- (numeral a / numeral b) :: rat\<rfloor> = - numeral a div numeral b"
  "\<lfloor>1 / numeral b :: rat\<rfloor> = 1 div numeral b"
proof -
  show "\<lfloor>numeral a / numeral b :: rat\<rfloor> = numeral a div numeral b"
    by (metis floor_divide_of_int_eq of_int_numeral)
  show "\<lfloor>- (numeral a / numeral b) :: rat\<rfloor> = - numeral a div numeral b"
    by (metis floor_divide_of_int_eq minus_divide_left of_int_neg_numeral of_int_numeral)
  show "\<lfloor>1 / numeral b :: rat\<rfloor> = 1 div numeral b"
    by (metis floor_divide_of_int_eq of_int_1 of_int_numeral)
qed

text \<open>
  The short path of evaluation: a value on the grid is its own rounding, so evaluation only
  searches for the decimal exponent of values that really need rounding.
\<close>

lemma dec_ctx_short:
  "dec_ctx x = (let (n, d) = quotient_of x in
     if 100000000 mod d = 0 \<and> \<bar>n\<bar> \<le> 100000000000000000000 then x
     else let e = adjusted x - 27 in of_int (round_half_even (x / p10 e)) * p10 e)"
proof (cases "quotient_of x")
  case (Pair n d)
  have x: "x = of_int n / of_int d" and d: "0 < d"
    using quotient_of_div [OF Pair] quotient_of_denom_pos [OF Pair] by auto
  have fit: "dec_ctx x = x" if "100000000 mod d = 0" "\<bar>n\<bar> \<le> 100000000000000000000"
  proof -
    from that(1) have "d dvd 100000000" by (rule mod_0_imp_dvd)
    then obtain k where k: "(100000000 :: int) = d * k" by (rule dvdE)
    have "(100000000 :: rat) = of_int d * of_int k" using arg_cong [OF k, of "of_int :: int \<Rightarrow> rat"] by simp
    then have "of_int n * 100000000 = of_int n * of_int k * (of_int d :: rat)" by (simp only: ac_simps)
    then have "x = of_int (n * k) / 100000000" using d by (simp add: x divide_eq_eq)
    then have grid: "on_grid x" unfolding on_grid_iff by blast
    have "\<bar>of_int n\<bar> * (1 :: rat) \<le> \<bar>of_int n\<bar> * of_int d" using d by (intro mult_left_mono) auto
    then have "\<bar>x\<bar> \<le> \<bar>of_int n\<bar>" using d by (simp add: x field_simps)
    moreover have "of_int \<bar>n\<bar> \<le> (of_int 100000000000000000000 :: rat)" using that(2) by (simp only: of_int_le_iff)
    ultimately have "\<bar>x\<bar> \<le> 10 ^ 20" by simp
    with grid show ?thesis using on_grid_fits by (simp add: fits_def)
  qed
  show ?thesis
  proof (cases "100000000 mod d = 0 \<and> \<bar>n\<bar> \<le> 100000000000000000000")
    case True
    with fit Pair show ?thesis by simp
  next
    case False
    then have "x \<noteq> 0" using Pair by auto
    then show ?thesis unfolding Pair Let_def prod.case if_not_P [OF False] by (simp add: dec_ctx_def Let_def)
  qed
qed

section \<open>Evaluation on integers\<close>

text \<open>Code equations that keep the coefficients whole: rationals are normalised once, digits are counted upwards.\<close>

lemma p10_code [code]: "p10 e = (if 0 \<le> e then of_int (10 ^ nat e) else 1 / of_int (10 ^ nat (- e)))"
  by (simp add: p10_def power_int_def inverse_eq_divide power_one_over)

function count_digits :: "int \<Rightarrow> int \<Rightarrow> int \<Rightarrow> int" where
  "count_digits k p n = (if p \<le> 0 \<or> n < p then k else count_digits (k + 1) (10 * p) n)"
  by pat_completeness auto
termination by (relation "measure (\<lambda>(k, p, n). nat (n - p + 1))") auto

declare count_digits.simps [simp del]

lemma count_digits_ndigits: "0 \<le> n \<Longrightarrow> count_digits (int j + 1) (10 * 10 ^ j) n = int j + int (ndigits (nat (n div 10 ^ j)))"
proof (induction "nat n - 10 ^ j" arbitrary: j rule: less_induct)
  case less
  have small: "n < 10 * 10 ^ j \<longleftrightarrow> n div 10 ^ j < 10"
  proof -
    have "n = n div 10 ^ j * 10 ^ j + n mod 10 ^ j" by (rule div_mult_mod_eq [symmetric])
    moreover have "0 \<le> n mod 10 ^ j" "n mod 10 ^ j < 10 ^ j" by simp_all
    moreover have "n div 10 ^ j * 10 ^ j \<le> 9 * 10 ^ j" if "n div 10 ^ j < 10" using that by (intro mult_right_mono) simp_all
    moreover have "10 * 10 ^ j \<le> n div 10 ^ j * 10 ^ j" if "\<not> n div 10 ^ j < 10" using that by (intro mult_right_mono) simp_all
    ultimately show ?thesis by linarith
  qed
  have "n div 10 ^ Suc j = n div 10 ^ j div 10" by (simp add: zdiv_zmult2_eq mult.commute [of 10])
  moreover have "0 \<le> n div 10 ^ j" using less.prems by (simp add: pos_imp_zdiv_nonneg_iff)
  ultimately have shift: "nat (n div 10 ^ j) div 10 = nat (n div 10 ^ Suc j)" by (simp add: nat_div_as_int)
  show ?case
  proof (cases "n < 10 * 10 ^ j")
    case True
    then have "nat (n div 10 ^ j) < 10" using small by simp
    then show ?thesis using True by (simp add: count_digits.simps [of "int j + 1"] ndigits.simps [of "nat (n div 10 ^ j)"])
  next
    case False
    then have "\<not> nat (n div 10 ^ j) < 10" using small by simp
    then have digits: "ndigits (nat (n div 10 ^ j)) = Suc (ndigits (nat (n div 10 ^ Suc j)))"
      by (simp only: ndigits.simps [of "nat (n div 10 ^ j)"] if_False shift)
    have "(10::nat) * 10 ^ j \<le> nat n" using False by (metis int_ops(7) le_nat_iff less.prems linorder_not_less of_nat_numeral of_nat_power)
    moreover have "(0::nat) < 10 ^ j" by simp
    ultimately have "(10::nat) ^ j < nat n" "(10::nat) ^ j < 10 ^ Suc j" by (linarith, simp)
    then have "nat n - 10 ^ Suc j < nat n - 10 ^ j" by (intro diff_less_mono2)
    then have "count_digits (int (Suc j) + 1) (10 * 10 ^ Suc j) n = int (Suc j) + int (ndigits (nat (n div 10 ^ Suc j)))"
      using less by blast
    moreover have "count_digits (int j + 1) (10 * 10 ^ j) n = count_digits (int (Suc j) + 1) (10 * 10 ^ Suc j) n"
      using False zero_less_power [of "10 :: int" j] by (subst count_digits.simps) (simp add: add.commute not_le [symmetric])
    ultimately show ?thesis using digits by simp
  qed
qed

lemma adjusted_code [code]:
  "adjusted x = (let (n, d) = quotient_of \<bar>x\<bar>; l = count_digits 1 10 n - count_digits 1 10 d;
     below = (if 0 \<le> l then n < d * 10 ^ nat l else n * 10 ^ nat (- l) < d) in if below then l - 1 else l)"
proof -
  obtain n d where q: "quotient_of \<bar>x\<bar> = (n, d)" by (cases "quotient_of \<bar>x\<bar>")
  then have d: "0 < d" and x: "\<bar>x\<bar> = of_int n / of_int d" by (simp_all add: quotient_of_denom_pos quotient_of_div)
  then have n: "0 \<le> n" using abs_ge_zero [of x] by (auto simp: zero_le_divide_iff)
  have count: "count_digits 1 10 k = int (ndigits (nat k))" if "0 \<le> k" for k using count_digits_ndigits [of k 0] that by simp
  have less: "\<bar>x\<bar> < p10 l \<longleftrightarrow> (if 0 \<le> l then n < d * 10 ^ nat l else n * 10 ^ nat (- l) < d)" for l
  proof (cases "0 \<le> l")
    case True
    have "\<bar>x\<bar> < p10 l \<longleftrightarrow> of_int n < (of_int (d * 10 ^ nat l) :: rat)"
      using d True by (simp add: x p10_code pos_divide_less_eq mult.commute)
    then show ?thesis using True by (simp only: of_int_less_iff if_True)
  next
    case False
    have "\<bar>x\<bar> < p10 l \<longleftrightarrow> of_int (n * 10 ^ nat (- l)) < (of_int d :: rat)"
      using d False by (simp add: x p10_code field_simps)
    then show ?thesis using False by (simp only: of_int_less_iff if_False)
  qed
  show ?thesis using d n by (simp add: adjusted_def q count less Let_def)
qed

definition half_even_quotient :: "int \<Rightarrow> int \<Rightarrow> int" where
  "half_even_quotient n d = (let q = n div d; r = 2 * (n mod d) in if r < d then q else if d < r then q + 1 else if even q then q else q + 1)"

lemma round_half_even_quotient: "0 < d \<Longrightarrow> round_half_even (of_int n / of_int d) = half_even_quotient n d"
proof -
  assume d: "0 < d"
  have "(of_int n :: rat) = of_int (n div d * d + n mod d)" by simp
  then have "(of_int n :: rat) = of_int (n div d) * of_int d + of_int (n mod d)" by (simp only: of_int_add of_int_mult)
  then have "of_int n / of_int d - of_int (n div d) = (of_int (n mod d) / of_int d :: rat)" using d by (simp add: field_simps)
  moreover have "(of_int (n mod d) / of_int d :: rat) < 1 / 2 \<longleftrightarrow> of_int (2 * (n mod d)) < (of_int d :: rat)"
    "1 / 2 < (of_int (n mod d) / of_int d :: rat) \<longleftrightarrow> of_int d < (of_int (2 * (n mod d)) :: rat)"
    using d by (simp_all add: field_simps)
  ultimately show ?thesis
    unfolding round_half_even_def half_even_quotient_def Let_def floor_divide_of_int_eq of_int_less_iff by simp
qed

definition rounded_digits :: "nat \<Rightarrow> rat \<Rightarrow> decimal" where
  "rounded_digits p x = (if x = 0 then 0 else
     let (n, d) = quotient_of x; e = adjusted x - (int p - 1) in
     if 0 \<le> e then of_int (half_even_quotient n (d * 10 ^ nat e) * 10 ^ nat e)
     else let scale = 10 ^ nat (- e) in if n * scale mod d = 0 then x else of_int (half_even_quotient (n * scale) d) / of_int scale)"

lemma rounded_digits_eq:
  "rounded_digits p x = (if x = 0 then 0 else let e = adjusted x - (int p - 1) in of_int (round_half_even (x / p10 e)) * p10 e)"
proof (cases "x = 0")
  case False
  obtain n d where q: "quotient_of x = (n, d)" by (cases "quotient_of x")
  then have d: "0 < d" and x: "x = of_int n / of_int d" by (simp_all add: quotient_of_denom_pos quotient_of_div)
  define e where "e = adjusted x - (int p - 1)"
  have eq: "rounded_digits p x = of_int (round_half_even (x / p10 e)) * p10 e"
  proof (cases "0 \<le> e")
    case True
    have "x / p10 e = of_int n / of_int (d * 10 ^ nat e)" using True by (simp add: x p10_code)
    then have "round_half_even (x / p10 e) = half_even_quotient n (d * 10 ^ nat e)"
      using round_half_even_quotient [of "d * 10 ^ nat e" n] d by simp
    then show ?thesis using False True q by (simp add: rounded_digits_def e_def [symmetric] p10_code)
  next
    case neg: False
    define s where "s = (10::int) ^ nat (- e)"
    have s: "0 < s" by (simp add: s_def)
    have p: "p10 e = 1 / of_int s" using neg by (simp add: p10_code s_def)
    then have "x / p10 e = of_int (n * s) / of_int d" by (simp add: x)
    then have r: "round_half_even (x / p10 e) = half_even_quotient (n * s) d" using d by (simp only: round_half_even_quotient)
    show ?thesis
    proof (cases "n * s mod d = 0")
      case True
      then have "half_even_quotient (n * s) d = n * s div d" using d by (simp add: half_even_quotient_def)
      moreover have "of_int (n * s div d) = (of_int (n * s) / of_int d :: rat)" using True by (simp add: of_int_divide_in_Ints mod_eq_0_iff_dvd of_int_div)
      ultimately have "of_int (round_half_even (x / p10 e)) = of_int (n * s) / (of_int d :: rat)" unfolding r by simp
      then have "of_int (round_half_even (x / p10 e)) * p10 e = x" using s by (simp add: p x)
      then show ?thesis using False neg q True by (simp add: rounded_digits_def Let_def e_def [symmetric] s_def [symmetric])
    next
      case rest: False
      then show ?thesis unfolding r using False neg q by (simp add: rounded_digits_def Let_def e_def [symmetric] s_def [symmetric] p)
    qed
  qed
  then show ?thesis using False by (simp add: e_def Let_def)
qed (simp add: rounded_digits_def)

lemma dec_ctx_code [code]:
  "dec_ctx x = (let (n, d) = quotient_of x in
     if 100000000 mod d = 0 \<and> \<bar>n\<bar> \<le> 100000000000000000000 then x else rounded_digits 28 x)"
proof -
  have "dec_ctx x = rounded_digits 28 x" by (simp add: dec_ctx_def rounded_digits_eq)
  then show ?thesis using dec_ctx_short [of x] by (auto split: prod.splits if_splits)
qed

end
