(* ===== verification/Numeric.thy ===== *)
theory Numeric
  imports Decimals
begin

text \<open>
  \<^verbatim>\<open>t0_trading/numeric.py\<close>: quantised ratios, basis points, count rates and interpolated quantiles.
  A quantum \<open>10\<^sup>-\<^sup>k\<close> is given by its number of places \<open>k\<close>.
\<close>

abbreviation RATIO_QUANTUM :: nat where "RATIO_QUANTUM \<equiv> 8"
abbreviation RATE_QUANTUM :: nat where "RATE_QUANTUM \<equiv> 6"
abbreviation BPS_QUANTUM :: nat where "BPS_QUANTUM \<equiv> 4"
abbreviation PRICE_QUANTUM :: nat where "PRICE_QUANTUM \<equiv> 8"

text \<open>\<^verbatim>\<open>Decimal.quantize(quantum, rounding=ROUND_HALF_UP)\<close>\<close>

definition quantize :: "nat \<Rightarrow> decimal \<Rightarrow> decimal res" where
  "quantize k x = (let c = round_half_up (x * 10 ^ k) in
     if 10 ^ 28 \<le> \<bar>c\<bar> then Inl InvalidOperation else Inr (of_int c / 10 ^ k))"

definition ratio :: "nat \<Rightarrow> decimal \<Rightarrow> decimal \<Rightarrow> decimal res" where
  "ratio k numerator denominator =
     (if denominator = 0 then Inl (ValueError ''ratio denominator must be non-zero'')
      else quantize k (ddiv numerator denominator))"

definition basis_points :: "decimal \<Rightarrow> decimal \<Rightarrow> decimal res" where
  "basis_points numerator denominator = ratio BPS_QUANTUM (dmul numerator 10000) denominator"

definition rate :: "int \<Rightarrow> int \<Rightarrow> decimal res" where
  "rate numerator denominator =
     (if numerator < 0 \<or> denominator < 0 \<or> numerator > denominator
      then Inl (ValueError ''rate counts are inconsistent'')
      else if denominator = 0 then Inr 0
      else ratio RATE_QUANTUM (of_int numerator) (of_int denominator))"

definition index_res :: "'a list \<Rightarrow> nat \<Rightarrow> 'a res" where
  "index_res xs i = (if i < length xs then Inr (xs ! i) else Inl IndexError)"

text \<open>The loop body of \<^verbatim>\<open>quantiles\<close> for one fraction.\<close>

definition quantile_at :: "decimal list \<Rightarrow> decimal \<Rightarrow> decimal res" where
  "quantile_at ordered fraction =
     (let position = dmul (of_nat (length ordered - 1)) fraction;
          lower = nat \<lfloor>position\<rfloor>;
          upper = min (lower + 1) (length ordered - 1);
          weight = dsub position (of_nat lower)
      in rbind (index_res ordered lower) (\<lambda>a. rbind (index_res ordered upper) (\<lambda>b.
           Inr (dadd a (dmul (dsub b a) weight)))))"

definition quantiles :: "decimal list \<Rightarrow> decimal list \<Rightarrow> decimal list res" where
  "quantiles values fractions =
     (if values = [] then Inl (ValueError ''quantiles require at least one value'')
      else if list_ex (\<lambda>f. f < 0 \<or> 1 < f) fractions
      then Inl (ValueError ''quantile fractions must be between zero and one'')
      else map_res (quantile_at (sort values)) fractions)"

section \<open>Rounding half up\<close>

lemma round_half_up_of_int [simp]: "round_half_up (of_int n) = n"
proof (cases "0 \<le> n")
  case True
  have "\<lfloor>of_int n + 1 / 2 :: rat\<rfloor> = n" by (intro floor_unique) auto
  with True show ?thesis by (simp add: round_half_up_def)
next
  case False
  have "\<lfloor>1 / 2 - of_int n :: rat\<rfloor> = - n" by (intro floor_unique) auto
  with False show ?thesis by (simp add: round_half_up_def)
qed

lemma round_half_up_error: "\<bar>of_int (round_half_up x) - x\<bar> \<le> 1 / 2"
proof (cases "0 \<le> x")
  case True
  have "of_int \<lfloor>x + 1 / 2\<rfloor> \<le> x + 1 / 2" "x + 1 / 2 < of_int \<lfloor>x + 1 / 2\<rfloor> + 1" by linarith+
  with True show ?thesis unfolding round_half_up_def abs_le_iff by simp linarith
next
  case False
  have "of_int \<lfloor>1 / 2 - x\<rfloor> \<le> 1 / 2 - x" "1 / 2 - x < of_int \<lfloor>1 / 2 - x\<rfloor> + 1" by linarith+
  with False show ?thesis unfolding round_half_up_def abs_le_iff by simp linarith
qed

lemma round_half_up_mono: "x \<le> y \<Longrightarrow> round_half_up x \<le> round_half_up y"
proof -
  assume le: "x \<le> y"
  show ?thesis
  proof (cases "0 \<le> x \<or> y < 0")
    case True
    then show ?thesis
      using le floor_mono [of "x + 1/2" "y + 1/2"] floor_mono [of "1/2 - y" "1/2 - x"]
      by (auto simp: round_half_up_def)
  next
    case False
    then have "0 \<le> 1 / 2 - x" "0 \<le> y + 1 / 2" by auto
    then have "0 \<le> \<lfloor>1 / 2 - x\<rfloor>" "0 \<le> \<lfloor>y + 1 / 2\<rfloor>" by (simp_all only: zero_le_floor)
    then have "- \<lfloor>1 / 2 - x\<rfloor> \<le> \<lfloor>y + 1 / 2\<rfloor>" by linarith
    then show ?thesis using False by (simp add: round_half_up_def)
  qed
qed

lemma quantize_mono:
  "x \<le> y \<Longrightarrow> quantize k x = Inr a \<Longrightarrow> quantize k y = Inr b \<Longrightarrow> a \<le> b"
proof -
  assume "x \<le> y" and q: "quantize k x = Inr a" "quantize k y = Inr b"
  then have "round_half_up (x * 10 ^ k) \<le> round_half_up (y * 10 ^ k)"
    by (intro round_half_up_mono mult_right_mono) simp_all
  then show "a \<le> b" using q
    by (auto simp: quantize_def Let_def divide_right_mono split: if_splits)
qed

lemma quantize_error: "quantize k x = Inr a \<Longrightarrow> \<bar>a - x\<bar> \<le> 1 / (2 * 10 ^ k)"
proof -
  assume "quantize k x = Inr a"
  then have a: "a = of_int (round_half_up (x * 10 ^ k)) / 10 ^ k"
    by (auto simp: quantize_def Let_def split: if_splits)
  have "\<bar>a - x\<bar> = \<bar>of_int (round_half_up (x * 10 ^ k)) - x * 10 ^ k\<bar> / 10 ^ k"
    unfolding a by (simp add: abs_if field_simps)
  also have "\<dots> \<le> (1 / 2) / 10 ^ k"
    by (intro divide_right_mono round_half_up_error) simp
  finally show ?thesis by simp
qed

lemma quantize_in_unit:
  assumes "0 \<le> x" "x \<le> 1" "k \<le> 20"
  shows "\<exists>a. quantize k x = Inr a \<and> 0 \<le> a \<and> a \<le> 1"
proof -
  let ?c = "round_half_up (x * 10 ^ k)"
  have "0 \<le> ?c" using round_half_up_mono [of 0 "x * 10 ^ k"] round_half_up_of_int [of 0] assms by simp
  have "x * 10 ^ k \<le> of_int (10 ^ k)" using assms by (simp add: mult_left_le_one_le)
  then have hi: "?c \<le> 10 ^ k" using round_half_up_mono round_half_up_of_int by metis
  have "(10 :: int) ^ k < 10 ^ 28" using assms(3) by (intro power_strict_increasing) auto
  then have small: "\<bar>?c\<bar> < 10 ^ 28" using \<open>0 \<le> ?c\<close> hi by linarith
  have "(of_int ?c :: rat) \<le> of_int (10 ^ k)" using hi by (rule of_int_le_iff [THEN iffD2])
  then show ?thesis using small \<open>0 \<le> ?c\<close> by (simp add: quantize_def Let_def not_le)
qed

lemma fits_1: "fits 1" and fits_0: "fits 0"
  using fits_of_int [of 1] fits_of_int [of 0] by simp_all

lemma ddiv_in_unit: "0 \<le> n \<Longrightarrow> n \<le> d \<Longrightarrow> 0 < d \<Longrightarrow> 0 \<le> ddiv n d \<and> ddiv n d \<le> 1"
  by (simp add: ddiv_def dec_ctx_le [OF fits_1])

section \<open>Rates\<close>

lemma rate_Inr_cases:
  assumes "rate n d = Inr r"
  shows "0 \<le> n \<and> n \<le> d \<and> (d = 0 \<and> r = 0 \<or> 0 < d \<and> quantize 6 (ddiv (of_int n) (of_int d)) = Inr r)"
  using assms by (auto simp: rate_def ratio_def split: if_splits)

lemma rate_defined:
  assumes "0 \<le> n" "n \<le> d"
  shows "\<exists>r. rate n d = Inr r \<and> 0 \<le> r \<and> r \<le> 1"
proof (cases "d = 0")
  case True
  with assms show ?thesis by (simp add: rate_def)
next
  case False
  with assms have "0 < d" by simp
  then have "0 \<le> ddiv (of_int n) (of_int d) \<and> ddiv (of_int n) (of_int d) \<le> 1"
    using assms by (intro ddiv_in_unit) auto
  then show ?thesis using quantize_in_unit [of "ddiv (of_int n) (of_int d)" 6] assms \<open>0 < d\<close>
    by (auto simp: rate_def ratio_def)
qed

lemma rate_mono:
  assumes "rate n d = Inr r" "rate m d = Inr s" "n \<le> m"
  shows "r \<le> s"
proof (cases "d = 0")
  case True
  then show ?thesis using assms(1,2) [THEN rate_Inr_cases] by auto
next
  case False
  then have q: "0 < d" "quantize 6 (ddiv (of_int n) (of_int d)) = Inr r"
      "quantize 6 (ddiv (of_int m) (of_int d)) = Inr s"
    using assms(1,2) [THEN rate_Inr_cases] by auto
  have "ddiv (of_int n) (of_int d) \<le> ddiv (of_int m) (of_int d)"
    unfolding ddiv_def using q(1) assms(3) by (intro dec_ctx_mono divide_right_mono) auto
  then show ?thesis using q(2,3) by (rule quantize_mono)
qed

lemma rate_error:
  assumes r: "rate n d = Inr r"
  shows "\<bar>r - of_int n / of_int d\<bar> \<le> 1 / 2000000 + 1 / (2 * 10 ^ 27)"
proof (cases "d = 0")
  case True
  then show ?thesis using rate_Inr_cases [OF r] by simp
next
  case False
  let ?q = "of_int n / of_int d :: rat"
  have d: "0 < d" and q: "quantize 6 (ddiv (of_int n) (of_int d)) = Inr r" and n: "0 \<le> n" "n \<le> d"
    using rate_Inr_cases [OF r] False by auto
  have e1: "\<bar>r - dec_ctx ?q\<bar> \<le> 1 / 2000000"
    using quantize_error [OF q] by (simp add: ddiv_def)
  have "\<bar>?q\<bar> \<le> 1" using n d by simp
  then have "\<bar>?q\<bar> / (2 * 10 ^ 27) \<le> 1 / (2 * 10 ^ 27)" by (intro divide_right_mono) simp_all
  then have "\<bar>dec_ctx ?q - ?q\<bar> \<le> 1 / (2 * 10 ^ 27)" using dec_ctx_error [of ?q] by linarith
  then show ?thesis using e1 by linarith
qed

text \<open>\<^verbatim>\<open>rate\<close> accepts exactly the consistent counts; the result lies in \<open>[0, 1]\<close>, is within half a
  quantum (plus the context's rounding) of the true quotient, and grows with the numerator, so a
  threshold on a rate is a threshold on the counts.\<close>

theorem rate_correct:
  "((\<exists>r. rate n d = Inr r) \<longleftrightarrow> 0 \<le> n \<and> n \<le> d) \<and>
   (\<forall>r. rate n d = Inr r \<longrightarrow>
      0 \<le> r \<and> r \<le> 1 \<and> \<bar>r - of_int n / of_int d\<bar> \<le> 1 / 2000000 + 1 / (2 * 10 ^ 27) \<and>
      (\<forall>m s. n \<le> m \<longrightarrow> rate m d = Inr s \<longrightarrow> r \<le> s))"
proof (intro conjI allI impI)
  show dom: "(\<exists>r. rate n d = Inr r) \<longleftrightarrow> 0 \<le> n \<and> n \<le> d"
    using rate_defined rate_Inr_cases by blast
  fix r assume r: "rate n d = Inr r"
  then have "0 \<le> n" "n \<le> d" using rate_Inr_cases by auto
  then show "0 \<le> r" "r \<le> 1" using rate_defined [of n d] r by auto
  show "\<bar>r - of_int n / of_int d\<bar> \<le> 1 / 2000000 + 1 / (2 * 10 ^ 27)" using r by (rule rate_error)
  show "r \<le> s" if "n \<le> m" "rate m d = Inr s" for m s using r that(2,1) by (rule rate_mono)
qed

theorem rate_correct_witness: "rate 3 4 = Inr (3 / 4) \<and> (3 / 4 :: rat) \<le> 1"
proof -
  have "rate 3 4 = Inr (3 / 4)"
    by (simp add: rate_def ratio_def quantize_def ddiv_def dec_simps round_half_up_def)
  then show ?thesis using rate_correct [of 3 4] by blast
qed

section \<open>Quantiles\<close>

lemma quantile_at_bounds:
  assumes ne: "ordered \<noteq> []" and so: "sorted ordered" and len: "length ordered \<le> 10 ^ 20"
    and f: "0 \<le> f" "f \<le> 1"
    and grid: "\<forall>v \<in> set ordered. on_grid v \<and> \<bar>v\<bar> \<le> 10 ^ 19"
  shows "\<exists>r. quantile_at ordered f = Inr r \<and> hd ordered \<le> r \<and> r \<le> last ordered"
proof -
  let ?n = "length ordered - 1"
  define p where "p = dmul (of_nat ?n) f"
  define l where "l = nat \<lfloor>p\<rfloor>"
  define u where "u = min (l + 1) ?n"
  define w where "w = dsub p (of_nat l)"
  have p0: "0 \<le> p" using f by (simp add: p_def dmul_def)
  have "int ?n \<le> 10 ^ 20" using len by simp
  then have "fits (of_int (int ?n))" by (intro fits_of_int) simp
  then have pn: "p \<le> of_nat ?n"
    unfolding p_def dmul_def using f by (intro dec_ctx_le) (simp_all add: mult_left_le)
  then have ln: "l \<le> ?n" unfolding l_def using p0 by (metis floor_le_iff floor_of_nat floor_mono nat_le_iff)
  then have ll: "l < length ordered" using ne by (cases ordered) auto
  have ul: "u < length ordered" using ne by (cases ordered) (auto simp: u_def)
  have lp: "of_nat l \<le> p" "p < of_nat l + 1" using p0 floor_correct [of p] by (simp_all add: l_def of_nat_nat)
  have w: "0 \<le> w" "w \<le> 1"
    using lp by (simp_all add: w_def dsub_def dec_ctx_le [OF fits_1])
  let ?a = "ordered ! l" and ?b = "ordered ! u"
  have lu: "l \<le> u" using ln by (simp add: u_def)
  then have ab: "?a \<le> ?b" using so ul by (intro sorted_nth_mono)
  have g: "on_grid ?a" "on_grid ?b" "\<bar>?a\<bar> \<le> 10 ^ 19" "\<bar>?b\<bar> \<le> 10 ^ 19"
    using grid nth_mem [OF ll] nth_mem [OF ul] by auto
  then have "on_grid (?b - ?a)" "\<bar>?b - ?a\<bar> \<le> 10 ^ 20" by (auto intro: on_grid_diff)
  then have fd: "fits (?b - ?a)" by (rule on_grid_fits)
  have fa: "fits ?a" "fits ?b" using g by (auto intro!: on_grid_fits)
  define m where "m = dmul (dsub ?b ?a) w"
  have m: "0 \<le> m" "m \<le> ?b - ?a"
    using fd ab w by (auto simp: m_def dmul_def dsub_def fits_def intro!: dec_ctx_le [OF fd] mult_left_le)
  have r: "quantile_at ordered f = Inr (dadd ?a m)"
    using ll ul by (simp add: quantile_at_def Let_def index_res_def p_def l_def u_def w_def m_def)
  have "?a \<le> dadd ?a m" unfolding dadd_def using m by (intro dec_ctx_ge [OF fa(1)]) simp
  moreover have "dadd ?a m \<le> ?b" unfolding dadd_def using m by (intro dec_ctx_le [OF fa(2)]) simp
  moreover have "hd ordered \<le> ?a" using so ll ne by (metis hd_conv_nth le0 sorted_nth_mono)
  moreover have "?b \<le> last ordered"
    using so ul ne by (metis One_nat_def Suc_pred diff_Suc_less last_conv_nth length_greater_0_conv less_Suc_eq_le sorted_nth_mono)
  ultimately show ?thesis using r by force
qed

text \<open>\<^verbatim>\<open>quantiles\<close> returns one value per fraction, and each value lies between the smallest and
  the largest sample, despite the rounded interpolation (samples on the \<open>10\<^sup>-\<^sup>8\<close> grid).\<close>

theorem quantiles_within_range:
  assumes "values \<noteq> []" "length values \<le> 10 ^ 20" "\<forall>f \<in> set fractions. 0 \<le> f \<and> f \<le> 1"
    and "\<forall>v \<in> set values. on_grid v \<and> \<bar>v\<bar> \<le> 10 ^ 19"
  shows "\<exists>rs. quantiles values fractions = Inr rs \<and> length rs = length fractions \<and>
     (\<forall>r \<in> set rs. Min (set values) \<le> r \<and> r \<le> Max (set values))"
proof -
  let ?s = "sort values"
  have ends: "Min (set values) \<le> hd ?s" "last ?s \<le> Max (set values)"
  proof -
    have "hd ?s \<in> set values" "last ?s \<in> set values"
      using assms(1) by (metis hd_in_set last_in_set set_empty set_sort)+
    then show "Min (set values) \<le> hd ?s" "last ?s \<le> Max (set values)" by simp_all
  qed
  have "?s \<noteq> []" using assms(1) by (metis set_empty set_sort)
  then have "\<exists>r. quantile_at ?s f = Inr r \<and> hd ?s \<le> r \<and> r \<le> last ?s" if "f \<in> set fractions" for f
    using assms(2-) that by (intro quantile_at_bounds) auto
  then obtain rs where rs: "map_res (quantile_at ?s) fractions = Inr rs" "length rs = length fractions"
      "\<forall>r \<in> set rs. hd ?s \<le> r \<and> r \<le> last ?s"
    using map_res_ex [of fractions "quantile_at ?s" "\<lambda>_ r. hd ?s \<le> r \<and> r \<le> last ?s"] by blast
  have "quantiles values fractions = Inr rs"
    using rs(1) assms(1,3) by (auto simp: quantiles_def list_ex_iff)
  then show ?thesis using rs(2,3) ends order_trans by blast
qed

theorem quantiles_within_range_witness:
  "quantiles [3, 1, 2] [1 / 2] = Inr [2] \<and> Min (set [3, 1, 2 :: rat]) \<le> 2"
proof -
  have "quantiles [3, 1, 2] [1 / 2] = Inr [2]"
    by (simp add: quantiles_def quantile_at_def index_res_def dmul_def dsub_def dadd_def Let_def dec_simps)
  moreover have "\<exists>rs. quantiles [3, 1, 2] [1 / 2] = Inr rs \<and> length rs = length [1 / 2 :: rat] \<and>
     (\<forall>r \<in> set rs. Min (set [3, 1, 2]) \<le> r \<and> r \<le> Max (set [3, 1, 2]))"
    by (rule quantiles_within_range) (auto simp: on_grid_def)
  ultimately show ?thesis by auto
qed

end
