(* ===== verification/Controls.thy ===== *)
theory Controls
  imports Numeric
begin

text \<open>
  \<^verbatim>\<open>t0_trading/controls\<close>: cost, advance, selection, risk and account records shared by simulation and
  paper execution. A pydantic class is a record; its constructor is a function that returns the
  record or the validation error (field constraints first, then the model validator in its own order).
  Timestamps in records are already normalised to UTC instants.
\<close>

text \<open>The side of an order or of a markout.\<close>

datatype action = BUY | SELL

section \<open>Cost policy\<close>

datatype fee_basis = USER_SUPPLIED | PUBLIC_SCHEDULE_ASSUMPTION

record cost_policy =
  cp_version :: string
  cp_effective_from :: date
  cp_effective_to :: "date option"
  cp_buy_fee_bps :: decimal
  cp_sell_fee_bps :: decimal
  cp_sell_tax_bps :: decimal
  cp_extra_slippage_bps :: decimal
  cp_basis :: fee_basis
  cp_account_plan :: "string option"
  cp_fee_source :: "string option"
  cp_fee_checked_at :: "instant option"

definition bps_field :: "decimal \<Rightarrow> bool" where
  "bps_field x = (0 \<le> x \<and> x < 10000)"

definition CostPolicy :: "cost_policy \<Rightarrow> cost_policy res" where
  "CostPolicy p =
     (if \<not> (is_version (cp_version p) \<and> bps_field (cp_buy_fee_bps p) \<and> bps_field (cp_sell_fee_bps p) \<and>
             bps_field (cp_sell_tax_bps p) \<and> bps_field (cp_extra_slippage_bps p))
      then Inl (ValidationError ''CostPolicy'')
      else if (case cp_effective_to p of None \<Rightarrow> False | Some t \<Rightarrow> t < cp_effective_from p)
      then Inl (ValidationError ''cost effective_to precedes effective_from'')
      else if (cp_fee_source p = None) \<noteq> (cp_fee_checked_at p = None)
      then Inl (ValidationError ''fee source and check time must be supplied together'')
      else if (case cp_fee_source p of None \<Rightarrow> False | Some s \<Rightarrow> strip s = [])
      then Inl (ValidationError ''fee source cannot be blank'')
      else if cp_basis p = PUBLIC_SCHEDULE_ASSUMPTION \<and>
              (cp_account_plan p \<in> {None, Some []} \<or> cp_fee_source p = None)
      then Inl (ValidationError ''public fee assumptions require an account plan and source'')
      else if dadd (cp_sell_fee_bps p) (cp_sell_tax_bps p) \<ge> 10000
      then Inl (ValidationError ''sell charges must be less than sale notional'')
      else Inr p)"

definition cost_contains :: "cost_policy \<Rightarrow> date \<Rightarrow> bool" where
  "cost_contains p d = (cp_effective_from p \<le> d \<and>
     (case cp_effective_to p of None \<Rightarrow> True | Some t \<Rightarrow> d \<le> t))"

lemma CostPolicy_Inr: "CostPolicy p = Inr q \<Longrightarrow> q = p"
  by (auto simp: CostPolicy_def split: if_splits)

lemma CostPolicy_bps:
  assumes "CostPolicy p = Inr q"
  shows "bps_field (cp_buy_fee_bps p)" "bps_field (cp_sell_fee_bps p)" "bps_field (cp_sell_tax_bps p)"
    "bps_field (cp_extra_slippage_bps p)" "dadd (cp_sell_fee_bps p) (cp_sell_tax_bps p) < 10000"
  using assms by (auto simp: CostPolicy_def split: if_splits)

text \<open>\<^verbatim>\<open>controls/presets.py\<close>\<close>

definition public_vndirect_dta_costs :: "date \<Rightarrow> instant \<Rightarrow> decimal \<Rightarrow> cost_policy res" where
  "public_vndirect_dta_costs trade_date checked_at extra_slippage_bps =
     CostPolicy \<lparr>cp_version = ''vndirect-dta-public-2026-09-22'', cp_effective_from = trade_date,
       cp_effective_to = None, cp_buy_fee_bps = 10, cp_sell_fee_bps = 10, cp_sell_tax_bps = 10,
       cp_extra_slippage_bps = extra_slippage_bps, cp_basis = PUBLIC_SCHEDULE_ASSUMPTION,
       cp_account_plan = Some ''VNDIRECT_DTA'',
       cp_fee_source = Some ''https://www.vndirect.com.vn/bieu-phi-tai-khoan-da/; https://support.vndirect.com.vn/hc/vi/articles/14623187438873'',
       cp_fee_checked_at = Some checked_at\<rparr>"

section \<open>Advance, selection and risk\<close>

record advance_policy =
  adv_settlement_date :: date
  adv_daily_interest_bps :: decimal
  adv_source :: string

definition AdvancePolicy :: "advance_policy \<Rightarrow> advance_policy res" where
  "AdvancePolicy p = (if bps_field (adv_daily_interest_bps p) \<and> adv_source p \<noteq> [] then Inr p
     else Inl (ValidationError ''AdvancePolicy''))"

record selection_evidence =
  sel_arbitration_sha256 :: string
  sel_selected_at :: instant
  sel_source :: string
  sel_source_sha256 :: string

definition SelectionEvidence :: "selection_evidence \<Rightarrow> selection_evidence res" where
  "SelectionEvidence e = (if is_sha256 (sel_arbitration_sha256 e) \<and> sel_source e \<noteq> [] \<and>
       is_sha256 (sel_source_sha256 e) then Inr e else Inl (ValidationError ''SelectionEvidence''))"

record risk_limits =
  rk_max_cycle_quantity :: int
  rk_max_order_notional_vnd :: decimal
  rk_max_cycles_per_day :: int
  rk_max_daily_loss_vnd :: decimal
  rk_cash_reserve_vnd :: decimal

definition RiskLimits :: "risk_limits \<Rightarrow> risk_limits res" where
  "RiskLimits r = (if 1 \<le> rk_max_cycle_quantity r \<and> 0 < rk_max_order_notional_vnd r \<and>
       1 \<le> rk_max_cycles_per_day r \<and> 0 < rk_max_daily_loss_vnd r \<and> 0 \<le> rk_cash_reserve_vnd r
     then Inr r else Inl (ValidationError ''RiskLimits''))"

section \<open>Account\<close>

record account_position =
  ap_symbol :: string
  ap_settled_qty :: int
  ap_t1_qty :: int
  ap_t2_qty :: int
  ap_core_min_qty :: int
  ap_start_price :: decimal

definition AccountPosition :: "account_position \<Rightarrow> account_position res" where
  "AccountPosition p =
     (if \<not> (0 \<le> ap_settled_qty p \<and> 0 \<le> ap_t1_qty p \<and> 0 \<le> ap_t2_qty p \<and> 0 \<le> ap_core_min_qty p \<and>
             0 < ap_start_price p)
      then Inl (ValidationError ''AccountPosition'')
      else if \<not> is_uppercase_identifier (ap_symbol p)
      then Inl (ValidationError ''symbol must be uppercase'')
      else if ap_core_min_qty p > ap_settled_qty p
      then Inl (ValidationError ''core quantity cannot exceed settled quantity'')
      else Inr p)"

definition total_qty :: "account_position \<Rightarrow> int" where
  "total_qty p = ap_settled_qty p + ap_t1_qty p + ap_t2_qty p"

record account_snapshot =
  ac_as_of :: instant
  ac_source :: string
  ac_cash_vnd :: decimal
  ac_positions :: "account_position list"

definition AccountSnapshot :: "account_snapshot \<Rightarrow> account_snapshot res" where
  "AccountSnapshot a =
     (if \<not> (ac_source a \<noteq> [] \<and> 0 \<le> ac_cash_vnd a)
      then Inl (ValidationError ''AccountSnapshot'')
      else rbind (map_res AccountPosition (ac_positions a)) (\<lambda>_.
        if ac_positions a = [] \<or> \<not> all_unique (map ap_symbol (ac_positions a))
        then Inl (ValidationError ''account positions must contain unique symbols'')
        else Inr a))"

text \<open>What a constructed snapshot guarantees to its consumers.\<close>

definition wf_account :: "account_snapshot \<Rightarrow> bool" where
  "wf_account a = (AccountSnapshot a = Inr a)"

lemma wf_accountD:
  assumes "wf_account a"
  shows "0 \<le> ac_cash_vnd a" "ac_positions a \<noteq> []" "distinct (map ap_symbol (ac_positions a))"
    "\<And>p. p \<in> set (ac_positions a) \<Longrightarrow> AccountPosition p = Inr p"
    "\<And>p. p \<in> set (ac_positions a) \<Longrightarrow> 0 \<le> ap_core_min_qty p \<and> ap_core_min_qty p \<le> ap_settled_qty p"
proof -
  from assms obtain ps where ps: "map_res AccountPosition (ac_positions a) = Inr ps"
    and rest: "0 \<le> ac_cash_vnd a" "ac_positions a \<noteq> []" "distinct (map ap_symbol (ac_positions a))"
    by (auto simp: wf_account_def AccountSnapshot_def rbind_eq_Inr split: if_splits)
  show "0 \<le> ac_cash_vnd a" "ac_positions a \<noteq> []" "distinct (map ap_symbol (ac_positions a))"
    by (fact rest)+
  fix p assume "p \<in> set (ac_positions a)"
  then obtain q where "AccountPosition p = Inr q"
    using ps by (auto simp: map_res_Inr_iff list_all2_conv_all_nth in_set_conv_nth)
  then show "AccountPosition p = Inr p" "0 \<le> ap_core_min_qty p \<and> ap_core_min_qty p \<le> ap_settled_qty p"
    by (auto simp: AccountPosition_def split: if_splits)
qed

end
