(* ===== verification/Configuration.thy ===== *)
theory Configuration
  imports Controls
begin

text \<open>
  \<^verbatim>\<open>t0_trading/configuration.py\<close>: effective-dated policy versions, their validators, the cross-policy
  validation of \<^verbatim>\<open>TradingConfiguration\<close> and the resolution of the policy of a date.

  The class hierarchy is a record hierarchy: every versioned policy extends \<open>effective_version\<close>, and
  \<open>contains\<close> and the resolvers work on any extension. The timezone database is a parameter
  (\<open>known_timezone\<close>); content hashes of versions are parameters of the theories that use them.
\<close>

section \<open>Effective versions\<close>

record effective_version =
  version :: string
  effective_from :: date
  effective_to :: "date option"

definition valid_interval :: "'a effective_version_scheme \<Rightarrow> bool" where
  "valid_interval v = (case effective_to v of None \<Rightarrow> True | Some t \<Rightarrow> effective_from v \<le> t)"

definition valid_effective_version :: "'a effective_version_scheme \<Rightarrow> bool" where
  "valid_effective_version v = (is_version (version v) \<and> valid_interval v)"

definition contains :: "'a effective_version_scheme \<Rightarrow> date \<Rightarrow> bool" where
  "contains v d = (effective_from v \<le> d \<and> (case effective_to v of None \<Rightarrow> True | Some t \<Rightarrow> d \<le> t))"

definition require_identifiers :: "string \<Rightarrow> string list \<Rightarrow> unit res" where
  "require_identifiers name values =
     (if values = [] \<or> \<not> all_unique values \<or> list_ex (\<lambda>v. \<not> is_uppercase_identifier v) values
      then Inl (ValueError name) else Inr ())"

definition intervals_overlap :: "'a effective_version_scheme \<Rightarrow> 'b effective_version_scheme \<Rightarrow> bool" where
  "intervals_overlap left right =
     ((case effective_to left of None \<Rightarrow> True | Some t \<Rightarrow> effective_from right \<le> t) \<and>
      (case effective_to right of None \<Rightarrow> True | Some t \<Rightarrow> effective_from left \<le> t))"

text \<open>\<^verbatim>\<open>itertools.pairwise\<close> with the gap test of \<^verbatim>\<open>_validate_effective_versions\<close>.\<close>

fun adjacent_overlap :: "'a effective_version_scheme list \<Rightarrow> bool" where
  "adjacent_overlap (previous # current # rest) =
     ((case effective_to previous of None \<Rightarrow> True | Some t \<Rightarrow> effective_from current \<le> t) \<or>
      adjacent_overlap (current # rest))"
| "adjacent_overlap _ = False"

definition validate_effective_versions :: "'a effective_version_scheme list \<Rightarrow> string \<Rightarrow> unit res" where
  "validate_effective_versions values label =
     (let ordered = sort_key effective_from values in
      if ordered = [] \<or> ordered \<noteq> values then Inl (ValueError (label @ '' versions must be non-empty and ordered by effective_from''))
      else if \<not> all_unique (map version ordered) then Inl (ValueError (label @ '' version names must be unique''))
      else if adjacent_overlap ordered then Inl (ValueError (label @ '' effective intervals must not overlap''))
      else Inr ())"

definition resolve_effective :: "'a effective_version_scheme list \<Rightarrow> date \<Rightarrow> string \<Rightarrow> 'a effective_version_scheme res" where
  "resolve_effective values d label =
     (case filter (\<lambda>v. contains v d) values of [v] \<Rightarrow> Inr v | _ \<Rightarrow> Inl (ConfigurationError label))"

definition resolve_optional :: "'a effective_version_scheme list \<Rightarrow> date \<Rightarrow> string \<Rightarrow> 'a effective_version_scheme option res" where
  "resolve_optional values d label =
     (case filter (\<lambda>v. contains v d) values of
        _ # _ # _ \<Rightarrow> Inl (ConfigurationError label)
      | [v] \<Rightarrow> Inr (Some v)
      | [] \<Rightarrow> (case values of [] \<Rightarrow> Inl IndexError
              | v # _ \<Rightarrow> if d < effective_from v then Inr None else Inl (ConfigurationError label)))"

section \<open>Market and capture configuration\<close>

record pytime =
  tm_us :: int
  tm_aware :: bool

record session_schedule =
  opening_auction :: "pytime \<times> pytime"
  continuous_am :: "pytime \<times> pytime"
  continuous_pm :: "pytime \<times> pytime"
  closing_auction :: "pytime \<times> pytime"

definition schedule_windows :: "session_schedule \<Rightarrow> (pytime \<times> pytime) list" where
  "schedule_windows s = [opening_auction s, continuous_am s, continuous_pm s, closing_auction s]"

definition SessionScheduleConfiguration :: "session_schedule \<Rightarrow> session_schedule res" where
  "SessionScheduleConfiguration s =
     (if list_ex (\<lambda>(a, b). tm_aware a \<or> tm_aware b) (schedule_windows s)
      then Inl (ValidationError ''market session times must be timezone-naive'')
      else if list_ex (\<lambda>(a, b). tm_us a \<ge> tm_us b) (schedule_windows s)
      then Inl (ValidationError ''market session windows must have positive duration'')
      else if tm_us (snd (opening_auction s)) \<noteq> tm_us (fst (continuous_am s)) \<or>
              tm_us (snd (continuous_am s)) \<ge> tm_us (fst (continuous_pm s)) \<or>
              tm_us (snd (continuous_pm s)) \<noteq> tm_us (fst (closing_auction s))
      then Inl (ValidationError ''market session windows must be ordered and non-overlapping'')
      else Inr s)"

record market_configuration =
  mc_timezone :: string
  mc_symbols :: "string list"
  mc_indices :: "string list"
  mc_status_markets :: "string list"
  mc_quote_depth :: int
  mc_bar_interval_seconds :: int
  mc_sessions :: session_schedule

definition MarketConfiguration :: "(string \<Rightarrow> bool) \<Rightarrow> market_configuration \<Rightarrow> market_configuration res" where
  "MarketConfiguration known_timezone m =
     (if \<not> (1 \<le> mc_quote_depth m \<and> mc_quote_depth m \<le> 10 \<and> 1 \<le> mc_bar_interval_seconds m)
      then Inl (ValidationError ''MarketConfiguration'')
      else rbind (SessionScheduleConfiguration (mc_sessions m)) (\<lambda>_.
      if \<not> known_timezone (mc_timezone m) then Inl (ValidationError ''unknown market timezone'')
      else rbind (require_identifiers ''symbols'' (mc_symbols m)) (\<lambda>_.
      rbind (require_identifiers ''indices'' (mc_indices m)) (\<lambda>_.
      rbind (require_identifiers ''status_markets'' (mc_status_markets m)) (\<lambda>_.
      if 60 mod mc_bar_interval_seconds m \<noteq> 0 \<and> mc_bar_interval_seconds m mod 60 \<noteq> 0
      then Inl (ValidationError ''bar_interval_seconds must align to a minute boundary'')
      else if list_ex (\<lambda>(a, b). (tm_us a div second_us) mod mc_bar_interval_seconds m \<noteq> 0 \<or>
                                 (tm_us b div second_us) mod mc_bar_interval_seconds m \<noteq> 0)
                (schedule_windows (mc_sessions m))
      then Inl (ValidationError ''market session boundaries must align to bar_interval_seconds'')
      else Inr m)))))"

record data_quality_configuration =
  dq_trade_stale_after_seconds :: int
  dq_quote_stale_after_seconds :: int

record capture_configuration =
  cc_symbols :: "string list"
  cc_indices :: "string list"
  cc_membership_indices :: "string list"
  cc_markets :: "string list"

definition CaptureConfiguration :: "capture_configuration \<Rightarrow> capture_configuration res" where
  "CaptureConfiguration c =
     rbind (require_identifiers ''capture symbols'' (cc_symbols c)) (\<lambda>_.
     rbind (require_identifiers ''capture indices'' (cc_indices c)) (\<lambda>_.
     rbind (require_identifiers ''capture membership_indices'' (cc_membership_indices c)) (\<lambda>_.
     rbind (require_identifiers ''capture markets'' (cc_markets c)) (\<lambda>_.
     if list_ex (\<lambda>s. s \<in> set (cc_indices c)) (cc_symbols c)
     then Inl (ValidationError ''capture symbols and indices must be disjoint'')
     else if \<not> list_all (\<lambda>s. s \<in> set (cc_indices c)) (cc_membership_indices c)
     then Inl (ValidationError ''capture membership indices must be captured indices'')
     else Inr c))))"

datatype decision_session = OPENING_AUCTION | CONTINUOUS_AM | CONTINUOUS_PM | CLOSING_AUCTION

fun session_order :: "decision_session \<Rightarrow> nat" where
  "session_order OPENING_AUCTION = 0"
| "session_order CONTINUOUS_AM = 1"
| "session_order CONTINUOUS_PM = 2"
| "session_order CLOSING_AUCTION = 3"

record feature_configuration =
  fc_version :: string
  fc_cadence_seconds :: int
  fc_windows_seconds :: "int list"
  fc_warmup_seconds :: int
  fc_decision_sessions :: "decision_session list"

definition FeatureConfiguration :: "feature_configuration \<Rightarrow> feature_configuration res" where
  "FeatureConfiguration f =
     (if \<not> (is_version (fc_version f) \<and> 1 \<le> fc_cadence_seconds f \<and> fc_cadence_seconds f \<le> 60 \<and>
             1 \<le> fc_warmup_seconds f \<and> fc_warmup_seconds f \<le> 86400)
      then Inl (ValidationError ''FeatureConfiguration'')
      else if 60 mod fc_cadence_seconds f \<noteq> 0 then Inl (ValidationError ''feature cadence must divide one minute'')
      else if fc_windows_seconds f = [] \<or> sorted_set (fc_windows_seconds f) \<noteq> fc_windows_seconds f \<or>
              list_ex (\<lambda>w. w < fc_cadence_seconds f \<or> w > 86400 \<or> w mod fc_cadence_seconds f \<noteq> 0)
                (fc_windows_seconds f)
      then Inl (ValidationError ''feature windows must be unique ascending cadence multiples'')
      else if fc_warmup_seconds f < last (fc_windows_seconds f) \<or> fc_warmup_seconds f mod fc_cadence_seconds f \<noteq> 0
      then Inl (ValidationError ''feature warmup must cover every window and align to cadence'')
      else if fc_decision_sessions f = [] \<or> \<not> all_unique (fc_decision_sessions f)
      then Inl (ValidationError ''feature decision sessions must be unique and non-empty'')
      else if sort_key session_order (fc_decision_sessions f) \<noteq> fc_decision_sessions f
      then Inl (ValidationError ''feature decision sessions must follow market-session order'')
      else Inr f)"

section \<open>Versioned policies\<close>

text \<open>
  The identity of a version ignores its closing date: \<^verbatim>\<open>_EffectiveVersion.sha256\<close> hashes the record with
  \<^verbatim>\<open>effective_to\<close> reset. \<open>digest\<close> stands for the hash of the canonical JSON.
\<close>

definition version_sha256 :: "('a effective_version_scheme \<Rightarrow> string) \<Rightarrow> 'a effective_version_scheme \<Rightarrow> string" where
  "version_sha256 digest v = digest (v\<lparr>effective_to := None\<rparr>)"

record outcome_version = effective_version +
  ov_horizons_seconds :: "int list"
  ov_order_quantity :: int
  ov_execution_latency_milliseconds :: int

definition OutcomeVersion :: "outcome_version \<Rightarrow> outcome_version res" where
  "OutcomeVersion v =
     (if \<not> (valid_effective_version v \<and> 1 \<le> ov_order_quantity v \<and>
             0 \<le> ov_execution_latency_milliseconds v \<and> ov_execution_latency_milliseconds v \<le> 60000)
      then Inl (ValidationError ''OutcomeVersion'')
      else if ov_horizons_seconds v = [] \<or> sorted_set (ov_horizons_seconds v) \<noteq> ov_horizons_seconds v \<or>
              list_ex (\<lambda>h. h < 1 \<or> h > 86400) (ov_horizons_seconds v)
      then Inl (ValidationError ''outcome horizons must be unique ascending positive seconds'')
      else if ov_execution_latency_milliseconds v \<ge> hd (ov_horizons_seconds v) * 1000
      then Inl (ValidationError ''execution latency must precede every outcome horizon'')
      else Inr v)"

datatype evaluation_tier = EXPLORATORY | PROMOTION

fun tier_order :: "evaluation_tier \<Rightarrow> nat" where
  "tier_order EXPLORATORY = 0"
| "tier_order PROMOTION = 1"

record baseline_evaluation_version = effective_version +
  be_tier :: evaluation_tier
  be_development_sessions :: nat
  be_holdout_sessions :: nat
  be_purge_sessions :: nat

definition BaselineEvaluationVersion :: "baseline_evaluation_version \<Rightarrow> baseline_evaluation_version res" where
  "BaselineEvaluationVersion v =
     (if valid_effective_version v \<and> 2 \<le> be_development_sessions v \<and> 1 \<le> be_holdout_sessions v \<and>
         1 \<le> be_purge_sessions v
      then Inr v else Inl (ValidationError ''BaselineEvaluationVersion''))"

record arbitration_rule =
  ar_strategy :: string
  ar_priority :: nat
  ar_minimum_strength :: decimal
  ar_horizon_seconds :: int

definition valid_arbitration_rule :: "arbitration_rule \<Rightarrow> bool" where
  "valid_arbitration_rule r = (is_strategy (ar_strategy r) \<and> 0 \<le> ar_minimum_strength r \<and>
     ar_minimum_strength r \<le> 1 \<and> 1 \<le> ar_horizon_seconds r \<and> ar_horizon_seconds r \<le> 86400)"

record arbitration_version = effective_version +
  av_candidate_version :: string
  av_cooldown_seconds :: int
  av_maximum_selections_per_clock :: nat
  av_rules :: "arbitration_rule list"

definition CandidateArbitrationVersion :: "arbitration_version \<Rightarrow> arbitration_version res" where
  "CandidateArbitrationVersion v =
     (if \<not> (valid_effective_version v \<and> is_version (av_candidate_version v) \<and> 0 \<le> av_cooldown_seconds v \<and>
             av_cooldown_seconds v \<le> 86400 \<and> 1 \<le> av_maximum_selections_per_clock v \<and>
             list_all valid_arbitration_rule (av_rules v))
      then Inl (ValidationError ''CandidateArbitrationVersion'')
      else if av_rules v = [] \<or> \<not> all_unique (map ar_strategy (av_rules v))
      then Inl (ValidationError ''candidate arbitration strategies must be unique and non-empty'')
      else if sort (map ar_priority (av_rules v)) \<noteq> [0..<length (av_rules v)]
      then Inl (ValidationError ''candidate arbitration priorities must be contiguous from zero'')
      else if av_cooldown_seconds v < Max (set (map ar_horizon_seconds (av_rules v)))
      then Inl (ValidationError ''candidate arbitration cooldown must cover every selected horizon'')
      else Inr v)"

type_synonym target_key = "string \<times> string \<times> int"

record promotion_target =
  pt_strategy :: string
  pt_symbol :: string
  pt_horizon_seconds :: int

definition target_key :: "promotion_target \<Rightarrow> target_key" where
  "target_key t = (pt_strategy t, pt_symbol t, pt_horizon_seconds t)"

record promotion_gate_version = effective_version +
  pg_evaluation_version :: string
  pg_arbitration_version :: string
  pg_minimum_selected_count :: int
  pg_minimum_outcome_coverage_rate :: decimal
  pg_minimum_positive_net_rate :: decimal
  pg_minimum_average_net_return_bps :: decimal
  pg_minimum_worst_fold_net_return_bps :: decimal
  pg_maximum_capture_gap_count :: int
  pg_targets :: "promotion_target list"

definition PromotionGateVersion :: "promotion_gate_version \<Rightarrow> promotion_gate_version res" where
  "PromotionGateVersion v =
     (let keys = map target_key (pg_targets v) in
      if \<not> (valid_effective_version v \<and> is_version (pg_evaluation_version v) \<and>
             is_version (pg_arbitration_version v) \<and> 1 \<le> pg_minimum_selected_count v \<and>
             0 \<le> pg_minimum_outcome_coverage_rate v \<and> pg_minimum_outcome_coverage_rate v \<le> 1 \<and>
             0 \<le> pg_minimum_positive_net_rate v \<and> pg_minimum_positive_net_rate v \<le> 1 \<and>
             0 \<le> pg_maximum_capture_gap_count v \<and>
             list_all (\<lambda>t. is_strategy (pt_strategy t) \<and> is_ticker (pt_symbol t) \<and>
                           1 \<le> pt_horizon_seconds t \<and> pt_horizon_seconds t \<le> 86400) (pg_targets v))
      then Inl (ValidationError ''PromotionGateVersion'')
      else if keys = [] \<or> \<not> all_unique keys \<or> sort keys \<noteq> keys
      then Inl (ValidationError ''promotion targets must be unique, non-empty, and ordered'')
      else if pg_minimum_worst_fold_net_return_bps v > pg_minimum_average_net_return_bps v
      then Inl (ValidationError ''worst-fold threshold cannot exceed the aggregate threshold'')
      else Inr v)"

record paper_execution_version = effective_version +
  px_arbitration_version :: string
  px_promotion_gate_version :: string
  px_context_version :: string
  px_order_quantity :: int
  px_lot_size :: int
  px_maximum_quote_age_seconds :: int
  px_limit_offset_ticks :: int
  px_time_in_force_seconds :: int

definition PaperExecutionVersion :: "paper_execution_version \<Rightarrow> paper_execution_version res" where
  "PaperExecutionVersion v =
     (if \<not> (valid_effective_version v \<and> is_version (px_arbitration_version v) \<and>
             is_version (px_promotion_gate_version v) \<and> is_version (px_context_version v) \<and>
             1 \<le> px_order_quantity v \<and> 1 \<le> px_lot_size v \<and>
             1 \<le> px_maximum_quote_age_seconds v \<and> px_maximum_quote_age_seconds v \<le> 300 \<and>
             0 \<le> px_limit_offset_ticks v \<and> px_limit_offset_ticks v \<le> 100 \<and>
             1 \<le> px_time_in_force_seconds v \<and> px_time_in_force_seconds v \<le> 300)
      then Inl (ValidationError ''PaperExecutionVersion'')
      else if px_order_quantity v mod px_lot_size v \<noteq> 0
      then Inl (ValidationError ''paper order quantity must align to lot size'')
      else Inr v)"

record context_version = effective_version +
  cx_zone_lookback_seconds :: int
  cx_zone_minimum_observations :: int
  cx_zone_tolerance_bps :: decimal
  cx_market_windows_seconds :: "int list"
  cx_index_stale_after_seconds :: int
  cx_historical_proxy_interval_seconds :: int
  cx_historical_proxy_stale_after_seconds :: int
  cx_tradable_market_statuses :: "string list"
  cx_trend_threshold_bps :: decimal
  cx_high_volatility_threshold_bps :: decimal

definition ContextVersion :: "context_version \<Rightarrow> context_version res" where
  "ContextVersion v =
     (if \<not> (valid_effective_version v \<and> 60 \<le> cx_zone_lookback_seconds v \<and> cx_zone_lookback_seconds v \<le> 86400 \<and>
             2 \<le> cx_zone_minimum_observations v \<and> 0 < cx_zone_tolerance_bps v \<and>
             length (cx_market_windows_seconds v) = 2 \<and>
             1 \<le> cx_index_stale_after_seconds v \<and> cx_index_stale_after_seconds v \<le> 900 \<and>
             1 \<le> cx_historical_proxy_interval_seconds v \<and> cx_historical_proxy_interval_seconds v \<le> 900 \<and>
             1 \<le> cx_historical_proxy_stale_after_seconds v \<and> cx_historical_proxy_stale_after_seconds v \<le> 900 \<and>
             0 < cx_trend_threshold_bps v \<and> 0 < cx_high_volatility_threshold_bps v)
      then Inl (ValidationError ''ContextVersion'')
      else if sorted_set (cx_market_windows_seconds v) \<noteq> cx_market_windows_seconds v \<or>
              list_ex (\<lambda>w. w < 1 \<or> w > cx_zone_lookback_seconds v) (cx_market_windows_seconds v)
      then Inl (ValidationError ''context market windows must be unique ascending lookback bounds'')
      else if cx_historical_proxy_stale_after_seconds v < cx_historical_proxy_interval_seconds v
      then Inl (ValidationError ''historical proxy staleness must cover its conservative availability delay'')
      else rbind (require_identifiers ''tradable_market_statuses'' (cx_tradable_market_statuses v)) (\<lambda>_. Inr v))"

record breadth_version = effective_version +
  bv_indices :: "string list"
  bv_lookback_seconds :: int
  bv_stale_after_seconds :: int
  bv_minimum_participation :: decimal
  bv_confirmation_advance_ratio :: decimal

definition BreadthVersion :: "breadth_version \<Rightarrow> breadth_version res" where
  "BreadthVersion v =
     (if \<not> (valid_effective_version v \<and> 60 \<le> bv_lookback_seconds v \<and> bv_lookback_seconds v \<le> 3600 \<and>
             bv_lookback_seconds v mod 60 = 0 \<and> 60 \<le> bv_stale_after_seconds v \<and> bv_stale_after_seconds v \<le> 900 \<and>
             0 < bv_minimum_participation v \<and> bv_minimum_participation v \<le> 1 \<and>
             1 / 2 < bv_confirmation_advance_ratio v \<and> bv_confirmation_advance_ratio v \<le> 1)
      then Inl (ValidationError ''BreadthVersion'')
      else rbind (require_identifiers ''breadth indices'' (bv_indices v)) (\<lambda>_. Inr v))"

record trading_version = effective_version +
  tv_market :: market_configuration
  tv_data_quality :: data_quality_configuration
  tv_features :: feature_configuration

datatype regime_basis = OFFICIAL_INDEX | CONSTITUENT_BREADTH

record regime_version = effective_version +
  rg_basis :: regime_basis
  rg_reference_index :: "string option"
  rg_trend_threshold_bps :: "decimal option"
  rg_high_dispersion_threshold_bps :: "decimal option"

definition RegimeVersion :: "regime_version \<Rightarrow> regime_version res" where
  "RegimeVersion v =
     (if \<not> (valid_effective_version v \<and> (\<forall>x \<in> set_option (rg_trend_threshold_bps v). 0 < x) \<and>
             (\<forall>x \<in> set_option (rg_high_dispersion_threshold_bps v). 0 < x))
      then Inl (ValidationError ''RegimeVersion'')
      else (case rg_basis v of
        CONSTITUENT_BREADTH \<Rightarrow>
          (if rg_reference_index v = None \<or> rg_trend_threshold_bps v = None \<or> rg_high_dispersion_threshold_bps v = None
           then Inl (ValidationError ''breadth regime requires reference and explicit thresholds'')
           else rbind (require_identifiers ''regime reference''
                  [case rg_reference_index v of None \<Rightarrow> [] | Some i \<Rightarrow> i]) (\<lambda>_. Inr v))
      | OFFICIAL_INDEX \<Rightarrow>
          (if rg_reference_index v \<noteq> None \<or> rg_trend_threshold_bps v \<noteq> None \<or> rg_high_dispersion_threshold_bps v \<noteq> None
           then Inl (ValidationError ''official regime uses the context index thresholds'')
           else Inr v)))"

section \<open>The complete configuration\<close>

record trading_configuration =
  tc_capture :: capture_configuration
  tc_versions :: "trading_version list"
  tc_outcomes :: "outcome_version list"
  tc_baseline_evaluations :: "baseline_evaluation_version list"
  tc_candidate_arbitrations :: "arbitration_version list"
  tc_promotion_gates :: "promotion_gate_version list"
  tc_paper_executions :: "paper_execution_version list"
  tc_contexts :: "context_version list"
  tc_breadth :: "breadth_version list"
  tc_regimes :: "regime_version list"

definition resolve_configuration :: "trading_configuration \<Rightarrow> date \<Rightarrow> trading_version res" where
  "resolve_configuration c d = resolve_effective (tc_versions c) d ''configuration''"

definition resolve_outcomes :: "trading_configuration \<Rightarrow> date \<Rightarrow> outcome_version res" where
  "resolve_outcomes c d = resolve_effective (tc_outcomes c) d ''outcome''"

definition resolve_context :: "trading_configuration \<Rightarrow> date \<Rightarrow> context_version res" where
  "resolve_context c d = resolve_effective (tc_contexts c) d ''context''"

definition resolve_breadth :: "trading_configuration \<Rightarrow> date \<Rightarrow> breadth_version option res" where
  "resolve_breadth c d =
     (if tc_breadth c \<noteq> [] then resolve_optional (tc_breadth c) d ''breadth'' else Inr None)"

definition resolve_regime :: "trading_configuration \<Rightarrow> date \<Rightarrow> regime_version option res" where
  "resolve_regime c d =
     (if tc_regimes c \<noteq> [] then resolve_optional (tc_regimes c) d ''regime'' else Inr None)"

definition resolve_candidate_arbitration :: "trading_configuration \<Rightarrow> date \<Rightarrow> arbitration_version option res" where
  "resolve_candidate_arbitration c d = resolve_optional (tc_candidate_arbitrations c) d ''candidate arbitration''"

definition resolve_promotion_gate :: "trading_configuration \<Rightarrow> date \<Rightarrow> promotion_gate_version option res" where
  "resolve_promotion_gate c d = resolve_optional (tc_promotion_gates c) d ''promotion gate''"

definition resolve_paper_execution :: "trading_configuration \<Rightarrow> date \<Rightarrow> paper_execution_version option res" where
  "resolve_paper_execution c d = resolve_optional (tc_paper_executions c) d ''paper execution''"

definition evaluations_of_tier :: "trading_configuration \<Rightarrow> evaluation_tier \<Rightarrow> baseline_evaluation_version list" where
  "evaluations_of_tier c tier = filter (\<lambda>e. be_tier e = tier) (tc_baseline_evaluations c)"

definition resolve_baseline_evaluation :: "trading_configuration \<Rightarrow> date \<Rightarrow> evaluation_tier \<Rightarrow> baseline_evaluation_version res" where
  "resolve_baseline_evaluation c d tier = resolve_effective (evaluations_of_tier c tier) d ''baseline evaluation''"

definition capture_scope :: "trading_configuration \<Rightarrow> date \<Rightarrow> capture_configuration res" where
  "capture_scope c d =
     rbind (resolve_configuration c d) (\<lambda>v.
       let market = tv_market v; capture = tc_capture c in
       if \<not> list_all (\<lambda>s. s \<in> set (cc_symbols capture)) (mc_symbols market) \<or>
          \<not> list_all (\<lambda>s. s \<in> set (cc_indices capture)) (mc_indices market) \<or>
          \<not> list_all (\<lambda>s. s \<in> set (cc_markets capture)) (mc_status_markets market)
       then Inl (ConfigurationError ''capture scope does not cover the decision universe'')
       else Inr capture)"

text \<open>The loop bodies of \<^verbatim>\<open>TradingConfiguration.validate_versions\<close>.\<close>

definition reference_missing :: "regime_version \<Rightarrow> breadth_version \<Rightarrow> bool" where
  "reference_missing regime b =
     (case rg_reference_index regime of None \<Rightarrow> True | Some i \<Rightarrow> i \<notin> set (bv_indices b))"

definition regime_boundaries :: "trading_configuration \<Rightarrow> regime_version \<Rightarrow> date list" where
  "regime_boundaries c regime = sorted_set (effective_from regime #
     concat (map (\<lambda>b. case effective_to b of None \<Rightarrow> []
                    | Some t \<Rightarrow> if contains regime (t + 1) then [t + 1] else []) (tc_breadth c)))"

definition check_regime :: "trading_configuration \<Rightarrow> regime_version \<Rightarrow> unit res" where
  "check_regime c regime =
     (if rg_basis regime \<noteq> CONSTITUENT_BREADTH then Inr ()
      else rbind (check_all (\<lambda>boundary. rbind (resolve_breadth c boundary) (\<lambda>b. case b of
              None \<Rightarrow> Inl (ValueError ''breadth regime requires an effective captured reference'')
            | Some v \<Rightarrow> if reference_missing regime v
                then Inl (ValueError ''breadth regime requires an effective captured reference'')
                else Inr ())) (regime_boundaries c regime)) (\<lambda>_.
        if list_ex (\<lambda>b. intervals_overlap regime b \<and> reference_missing regime b) (tc_breadth c)
        then Inl (ValueError ''regime reference must remain covered by breadth policies'')
        else Inr ()))"

definition check_arbitration_horizons :: "trading_configuration \<Rightarrow> arbitration_version \<Rightarrow> unit res" where
  "check_arbitration_horizons c arbitration =
     (let overlapping = filter (intervals_overlap arbitration) (tc_outcomes c) in
      if overlapping = [] \<or>
         list_ex (\<lambda>o'. \<not> list_all (\<lambda>r. ar_horizon_seconds r \<in> set (ov_horizons_seconds o')) (av_rules arbitration))
           overlapping
      then Inl (ValueError ''candidate arbitration horizons require matching outcome labels'')
      else Inr ())"

definition covers_endpoints :: "'a effective_version_scheme \<Rightarrow> 'b effective_version_scheme \<Rightarrow> bool" where
  "covers_endpoints outer inner = (contains outer (effective_from inner) \<and>
     (case effective_to inner of None \<Rightarrow> True | Some t \<Rightarrow> contains outer t))"

definition check_gate :: "trading_configuration \<Rightarrow> promotion_gate_version \<Rightarrow> unit res" where
  "check_gate c gate =
     (case (keyed version (evaluations_of_tier c PROMOTION) (pg_evaluation_version gate),
            keyed version (tc_candidate_arbitrations c) (pg_arbitration_version gate)) of
        (Some evaluation, Some arbitration) \<Rightarrow>
          (if \<not> contains evaluation (effective_from gate) \<or> \<not> contains arbitration (effective_from gate)
           then Inl (ValueError ''promotion gate starts outside its referenced policies'')
           else if (case effective_to gate of None \<Rightarrow> False
                    | Some t \<Rightarrow> \<not> contains evaluation t \<or> \<not> contains arbitration t)
           then Inl (ValueError ''promotion gate ends outside its referenced policies'')
           else if list_ex (\<lambda>target. case keyed ar_strategy (av_rules arbitration) (pt_strategy target) of
                      None \<Rightarrow> True | Some rule \<Rightarrow> pt_horizon_seconds target \<noteq> ar_horizon_seconds rule) (pg_targets gate)
           then Inl (ValueError ''promotion targets do not match arbitration rules'')
           else let overlapping = filter (intervals_overlap gate) (tc_versions c) in
             if overlapping = [] \<or> list_ex (\<lambda>v. list_ex (\<lambda>target. pt_symbol target \<notin> set (mc_symbols (tv_market v)))
                  (pg_targets gate)) overlapping
             then Inl (ValueError ''promotion targets do not match the effective market universe'')
             else Inr ())
      | _ \<Rightarrow> Inl (ValueError ''promotion gate references an unknown policy version''))"

definition check_execution :: "trading_configuration \<Rightarrow> paper_execution_version \<Rightarrow> unit res" where
  "check_execution c execution =
     (case (keyed version (tc_candidate_arbitrations c) (px_arbitration_version execution),
            keyed version (tc_promotion_gates c) (px_promotion_gate_version execution),
            keyed version (tc_contexts c) (px_context_version execution)) of
        (Some arbitration, Some gate, Some context) \<Rightarrow>
          (if pg_arbitration_version gate \<noteq> version arbitration \<or> \<not> covers_endpoints arbitration execution \<or>
              \<not> covers_endpoints gate execution \<or> \<not> covers_endpoints context execution
           then Inl (ValueError ''paper execution falls outside its referenced policies'')
           else Inr ())
      | _ \<Rightarrow> Inl (ValueError ''paper execution references an unknown policy version''))"

definition validate_versions :: "trading_configuration \<Rightarrow> unit res" where
  "validate_versions c =
     rbind (validate_effective_versions (tc_versions c) ''configuration'') (\<lambda>_.
     rbind (validate_effective_versions (tc_outcomes c) ''outcome'') (\<lambda>_.
     rbind (check_all (\<lambda>tier. validate_effective_versions (evaluations_of_tier c tier) ''baseline evaluation'')
              [EXPLORATORY, PROMOTION]) (\<lambda>_.
     if sort_key (\<lambda>e. (tier_order (be_tier e), effective_from e)) (tc_baseline_evaluations c) \<noteq> tc_baseline_evaluations c \<or>
        \<not> all_unique (map version (tc_baseline_evaluations c))
     then Inl (ValueError ''baseline evaluation versions must be unique and canonically ordered'')
     else
     rbind (validate_effective_versions (tc_candidate_arbitrations c) ''candidate arbitration'') (\<lambda>_.
     rbind (validate_effective_versions (tc_promotion_gates c) ''promotion gate'') (\<lambda>_.
     rbind (validate_effective_versions (tc_paper_executions c) ''paper execution'') (\<lambda>_.
     rbind (validate_effective_versions (tc_contexts c) ''context'') (\<lambda>_.
     rbind (if tc_breadth c = [] then Inr ()
            else rbind (validate_effective_versions (tc_breadth c) ''breadth'') (\<lambda>_.
              if list_ex (\<lambda>b. \<not> list_all (\<lambda>i. i \<in> set (cc_membership_indices (tc_capture c))) (bv_indices b)) (tc_breadth c)
              then Inl (ValueError ''breadth indices require captured membership'') else Inr ())) (\<lambda>_.
     rbind (if tc_regimes c = [] then Inr ()
            else rbind (validate_effective_versions (tc_regimes c) ''regime'') (\<lambda>_.
              check_all (check_regime c) (tc_regimes c))) (\<lambda>_.
     rbind (check_all (check_arbitration_horizons c) (tc_candidate_arbitrations c)) (\<lambda>_.
     rbind (check_all (check_gate c) (tc_promotion_gates c)) (\<lambda>_.
     check_all (check_execution c) (tc_paper_executions c))))))))))))"

section \<open>Resolution is deterministic on validated versions\<close>

lemma no_overlap_tail:
  assumes "sorted (map effective_from (v # vs))" "\<not> adjacent_overlap (v # vs)" "w \<in> set vs"
  shows "\<exists>t. effective_to v = Some t \<and> t < effective_from w"
proof -
  obtain u us where vs: "vs = u # us" using assms(3) by (cases vs) auto
  then obtain t where t: "effective_to v = Some t" "t < effective_from u"
    using assms(2) by (auto split: option.splits)
  moreover have "effective_from u \<le> effective_from w" using assms(1,3) vs by auto
  ultimately show ?thesis by force
qed

lemma no_overlap_unique:
  assumes "sorted (map effective_from vs)" "\<not> adjacent_overlap vs"
  shows "length (filter (\<lambda>v. contains v d) vs) \<le> 1"
  using assms
proof (induction vs)
  case (Cons v vs)
  have ih: "length (filter (\<lambda>v. contains v d) vs) \<le> 1"
    using Cons by (cases vs) auto
  show ?case
  proof (cases "contains v d")
    case True
    have "\<not> contains w d" if "w \<in> set vs" for w
      using no_overlap_tail [OF Cons.prems that] True by (auto simp: contains_def)
    then have "filter (\<lambda>v. contains v d) vs = []" by (simp add: filter_empty_conv)
    then show ?thesis by simp
  next
    case False
    with ih show ?thesis by simp
  qed
qed simp

lemma validated_versions:
  assumes "validate_effective_versions vs label = Inr ()"
  shows "vs \<noteq> []" "sorted (map effective_from vs)" "\<not> adjacent_overlap vs" "distinct (map version vs)"
proof -
  have ordered: "sort_key effective_from vs = vs" and rest: "vs \<noteq> []" "\<not> adjacent_overlap vs" "distinct (map version vs)"
    using assms by (auto simp: validate_effective_versions_def Let_def split: if_splits)
  show "vs \<noteq> []" "\<not> adjacent_overlap vs" "distinct (map version vs)" by (fact rest)+
  show "sorted (map effective_from vs)" using sorted_sort_key [of effective_from vs] ordered by simp
qed

lemma validated_filter_cases:
  assumes "validate_effective_versions vs label = Inr ()"
  obtains "filter (\<lambda>v. contains v d) vs = []" | v where "filter (\<lambda>v. contains v d) vs = [v]"
proof -
  have "length (filter (\<lambda>v. contains v d) vs) \<le> 1"
    using validated_versions [OF assms] by (intro no_overlap_unique)
  then show ?thesis using that
    by (cases "filter (\<lambda>v. contains v d) vs" rule: list.exhaust)
       (auto simp: le_Suc_eq length_Suc_conv)
qed

lemma filter_singleton_iff:
  "filter P xs = [x] \<Longrightarrow> (y \<in> set xs \<and> P y) \<longleftrightarrow> y = x"
  by (drule arg_cong [where f = set]) auto

lemma resolve_effective_iff:
  assumes "validate_effective_versions vs label = Inr ()"
  shows "resolve_effective vs d l = Inr v \<longleftrightarrow> v \<in> set vs \<and> contains v d"
proof (rule validated_filter_cases [OF assms, of d])
  assume "filter (\<lambda>v. contains v d) vs = []"
  then show ?thesis by (auto simp: resolve_effective_def filter_empty_conv)
next
  fix w assume f: "filter (\<lambda>v. contains v d) vs = [w]"
  then show ?thesis using filter_singleton_iff [OF f, of v] by (auto simp: resolve_effective_def)
qed

lemma resolve_optional_iff:
  assumes "validate_effective_versions vs label = Inr ()"
  shows "resolve_optional vs d l = Inr (Some v) \<longleftrightarrow> v \<in> set vs \<and> contains v d"
    and "resolve_optional vs d l = Inr None \<longleftrightarrow> d < effective_from (hd vs)"
proof -
  have ne: "vs \<noteq> []" and so: "sorted (map effective_from vs)" using validated_versions [OF assms] by auto
  obtain u us where vs: "vs = u # us" using ne by (cases vs) auto
  have before: "\<not> contains w d" if "d < effective_from u" "w \<in> set vs" for w
    using so that by (auto simp: vs contains_def)
  show "resolve_optional vs d l = Inr (Some v) \<longleftrightarrow> v \<in> set vs \<and> contains v d"
  proof (rule validated_filter_cases [OF assms, of d])
    assume "filter (\<lambda>v. contains v d) vs = []"
    then show ?thesis by (auto simp: resolve_optional_def vs filter_empty_conv split: if_splits)
  next
    fix w assume f: "filter (\<lambda>v. contains v d) vs = [w]"
    then show ?thesis using filter_singleton_iff [OF f, of v] by (auto simp: resolve_optional_def)
  qed
  show "resolve_optional vs d l = Inr None \<longleftrightarrow> d < effective_from (hd vs)"
  proof (rule validated_filter_cases [OF assms, of d])
    assume "filter (\<lambda>v. contains v d) vs = []"
    then show ?thesis unfolding resolve_optional_def by (simp add: vs)
  next
    fix w assume f: "filter (\<lambda>v. contains v d) vs = [w]"
    then have "w \<in> set vs" "contains w d" using filter_singleton_iff [OF f, of w] by auto
    then have "\<not> d < effective_from (hd vs)" using before by (auto simp: vs)
    then show ?thesis using f by (simp add: resolve_optional_def)
  qed
qed

lemma covers_endpoints_closed:
  assumes "covers_endpoints outer inner" "effective_to inner = Some t" "contains inner d"
  shows "contains outer d"
  using assms by (auto simp: covers_endpoints_def contains_def split: option.splits)

lemma validate_versions_parts:
  assumes "validate_versions c = Inr ()"
  shows "validate_effective_versions (tc_candidate_arbitrations c) ''candidate arbitration'' = Inr ()"
    "validate_effective_versions (tc_promotion_gates c) ''promotion gate'' = Inr ()"
    "validate_effective_versions (tc_paper_executions c) ''paper execution'' = Inr ()"
    "validate_effective_versions (tc_contexts c) ''context'' = Inr ()"
    "\<And>e. e \<in> set (tc_paper_executions c) \<Longrightarrow> check_execution c e = Inr ()"
    "\<And>g. g \<in> set (tc_promotion_gates c) \<Longrightarrow> check_gate c g = Inr ()"
  using assms unfolding validate_versions_def
  by (auto simp: rbind_eq_Inr check_all_Inr if_Inl_eq_Inr)

text \<open>In a validated configuration every date has at most one effective version per policy list, so
  \<^verbatim>\<open>_resolve_effective\<close> and \<^verbatim>\<open>_resolve_optional\<close> are deterministic: they return the version whose interval
  contains the date, \<^verbatim>\<open>None\<close> exactly before the first version, and raise only inside a gap.\<close>

theorem resolution_correct:
  assumes "validate_effective_versions vs label = Inr ()"
  shows "(resolve_effective vs d l = Inr v \<longleftrightarrow> v \<in> set vs \<and> contains v d) \<and>
    (resolve_optional vs d l = Inr (Some v) \<longleftrightarrow> v \<in> set vs \<and> contains v d) \<and>
    (resolve_optional vs d l = Inr None \<longleftrightarrow> d < effective_from (hd vs)) \<and>
    length (filter (\<lambda>v. contains v d) vs) \<le> 1"
  using resolve_effective_iff [OF assms] resolve_optional_iff [OF assms]
    no_overlap_unique [OF validated_versions(2,3) [OF assms]] by simp

theorem resolution_correct_witness:
  "let a = \<lparr>version = ''v1'', effective_from = 10, effective_to = Some 20\<rparr>;
       b = \<lparr>version = ''v2'', effective_from = 21, effective_to = None\<rparr>
   in validate_effective_versions [a, b] ''demo'' = Inr () \<and> resolve_effective [a, b] 21 ''demo'' = Inr b"
proof -
  have v: "validate_effective_versions
      [\<lparr>version = ''v1'', effective_from = 10, effective_to = Some 20\<rparr>,
       \<lparr>version = ''v2'', effective_from = 21, effective_to = None\<rparr>] ''demo'' = Inr ()"
    by (simp add: validate_effective_versions_def)
  then show ?thesis using resolution_correct [OF v] by (auto simp: Let_def contains_def)
qed

text \<open>In a validated configuration, a paper-execution policy with a closing date agrees with the other
  policies on every date it covers: the arbitration policy, the promotion gate and the context that
  \<^verbatim>\<open>resolve_*\<close> return for that date are the ones the execution policy references.\<close>

theorem execution_policies_agree:
  assumes valid: "validate_versions c = Inr ()"
    and res: "resolve_paper_execution c d = Inr (Some e)" and closed: "effective_to e = Some t"
  shows "\<exists>a g x. resolve_candidate_arbitration c d = Inr (Some a) \<and> version a = px_arbitration_version e \<and>
     resolve_promotion_gate c d = Inr (Some g) \<and> version g = px_promotion_gate_version e \<and>
     resolve_context c d = Inr x \<and> version x = px_context_version e \<and> pg_arbitration_version g = version a"
proof -
  note parts = validate_versions_parts [OF valid]
  have e: "e \<in> set (tc_paper_executions c)" "contains e d"
    using res parts(3) by (auto simp: resolve_paper_execution_def resolve_optional_iff)
  obtain a g x where agx: "keyed version (tc_candidate_arbitrations c) (px_arbitration_version e) = Some a"
      "keyed version (tc_promotion_gates c) (px_promotion_gate_version e) = Some g"
      "keyed version (tc_contexts c) (px_context_version e) = Some x"
      "pg_arbitration_version g = version a"
    and cov: "covers_endpoints a e" "covers_endpoints g e" "covers_endpoints x e"
    using parts(5) [OF e(1)] by (auto simp: check_execution_def split: option.splits if_splits)
  have "contains a d" "contains g d" "contains x d"
    using cov closed e(2) by (auto intro: covers_endpoints_closed)
  then show ?thesis
    using agx parts(1,2,4)
    by (auto simp: resolve_candidate_arbitration_def resolve_promotion_gate_def resolve_context_def
        resolve_optional_iff resolve_effective_iff dest!: keyed_Some)
qed

text \<open>A small configuration for the witnesses; its arbitration and execution closing dates vary.\<close>

definition sample_time :: "int \<Rightarrow> pytime" where
  "sample_time minutes = \<lparr>tm_us = minutes * 60 * second_us, tm_aware = False\<rparr>"

definition sample_schedule :: session_schedule where
  "sample_schedule = \<lparr>opening_auction = (sample_time 540, sample_time 555),
     continuous_am = (sample_time 555, sample_time 690), continuous_pm = (sample_time 780, sample_time 870),
     closing_auction = (sample_time 870, sample_time 885)\<rparr>"

definition sample_market :: market_configuration where
  "sample_market = \<lparr>mc_timezone = ''Asia/Ho_Chi_Minh'', mc_symbols = [''VHM'', ''VIC''], mc_indices = [''VN30''],
     mc_status_markets = [''HOSE''], mc_quote_depth = 3, mc_bar_interval_seconds = 60, mc_sessions = sample_schedule\<rparr>"

definition sample_evaluation :: "string \<Rightarrow> evaluation_tier \<Rightarrow> baseline_evaluation_version" where
  "sample_evaluation name tier = \<lparr>version = name, effective_from = 0, effective_to = None, be_tier = tier,
     be_development_sessions = 2, be_holdout_sessions = 1, be_purge_sessions = 1\<rparr>"

definition sample_arbitration :: "date option \<Rightarrow> arbitration_version" where
  "sample_arbitration closing = \<lparr>version = ''arb-v1'', effective_from = 0, effective_to = closing,
     av_candidate_version = ''buy-first-baselines-v3'', av_cooldown_seconds = 600, av_maximum_selections_per_clock = 1,
     av_rules = [\<lparr>ar_strategy = ''mean_reversion'', ar_priority = 0, ar_minimum_strength = 0, ar_horizon_seconds = 300\<rparr>]\<rparr>"

definition sample_gate :: promotion_gate_version where
  "sample_gate = \<lparr>version = ''gate-v1'', effective_from = 0, effective_to = None, pg_evaluation_version = ''promo-v1'',
     pg_arbitration_version = ''arb-v1'', pg_minimum_selected_count = 1, pg_minimum_outcome_coverage_rate = 0,
     pg_minimum_positive_net_rate = 0, pg_minimum_average_net_return_bps = 0, pg_minimum_worst_fold_net_return_bps = 0,
     pg_maximum_capture_gap_count = 0,
     pg_targets = [\<lparr>pt_strategy = ''mean_reversion'', pt_symbol = ''VIC'', pt_horizon_seconds = 300\<rparr>]\<rparr>"

definition sample_execution :: "date option \<Rightarrow> paper_execution_version" where
  "sample_execution closing = \<lparr>version = ''paper-v1'', effective_from = 5, effective_to = closing,
     px_arbitration_version = ''arb-v1'', px_promotion_gate_version = ''gate-v1'', px_context_version = ''ctx-v1'',
     px_order_quantity = 200, px_lot_size = 100, px_maximum_quote_age_seconds = 5, px_limit_offset_ticks = 1,
     px_time_in_force_seconds = 30\<rparr>"

definition sample_context :: context_version where
  "sample_context = \<lparr>version = ''ctx-v1'', effective_from = 0, effective_to = None, cx_zone_lookback_seconds = 600,
     cx_zone_minimum_observations = 2, cx_zone_tolerance_bps = 10, cx_market_windows_seconds = [60, 300],
     cx_index_stale_after_seconds = 60, cx_historical_proxy_interval_seconds = 60,
     cx_historical_proxy_stale_after_seconds = 60, cx_tradable_market_statuses = [''OPEN''],
     cx_trend_threshold_bps = 10, cx_high_volatility_threshold_bps = 50\<rparr>"

definition sample_configuration :: "date option \<Rightarrow> date option \<Rightarrow> trading_configuration" where
  "sample_configuration arbitration_closing execution_closing =
     \<lparr>tc_capture = \<lparr>cc_symbols = [''VHM'', ''VIC''], cc_indices = [''VN30''], cc_membership_indices = [''VN30''], cc_markets = [''HOSE'']\<rparr>,
      tc_versions = [\<lparr>version = ''core-v1'', effective_from = 0, effective_to = None, tv_market = sample_market,
        tv_data_quality = \<lparr>dq_trade_stale_after_seconds = 60, dq_quote_stale_after_seconds = 10\<rparr>,
        tv_features = \<lparr>fc_version = ''f-v1'', fc_cadence_seconds = 5, fc_windows_seconds = [30, 60, 300],
          fc_warmup_seconds = 300, fc_decision_sessions = [CONTINUOUS_AM, CONTINUOUS_PM]\<rparr>\<rparr>],
      tc_outcomes = [\<lparr>version = ''out-v1'', effective_from = 0, effective_to = None, ov_horizons_seconds = [300],
        ov_order_quantity = 200, ov_execution_latency_milliseconds = 500\<rparr>],
      tc_baseline_evaluations = [sample_evaluation ''explore-v1'' EXPLORATORY, sample_evaluation ''promo-v1'' PROMOTION],
      tc_candidate_arbitrations = [sample_arbitration arbitration_closing], tc_promotion_gates = [sample_gate],
      tc_paper_executions = [sample_execution execution_closing], tc_contexts = [sample_context],
      tc_breadth = [], tc_regimes = []\<rparr>"

lemmas sample_defs = sample_configuration_def sample_execution_def sample_arbitration_def sample_gate_def
  sample_context_def sample_evaluation_def sample_market_def sample_schedule_def sample_time_def

lemmas validation_defs = validate_versions_def validate_effective_versions_def check_gate_def
  check_execution_def check_arbitration_horizons_def check_regime_def evaluations_of_tier_def keyed_def
  covers_endpoints_def contains_def intervals_overlap_def

lemma sample_configuration_valid:
  "validate_versions (sample_configuration (Some 30) (Some 20)) = Inr ()"
  by (simp add: sample_defs validation_defs)

theorem execution_policies_agree_witness:
  "resolve_candidate_arbitration (sample_configuration (Some 30) (Some 20)) 7 = Inr (Some (sample_arbitration (Some 30)))"
proof -
  have "resolve_paper_execution (sample_configuration (Some 30) (Some 20)) 7 = Inr (Some (sample_execution (Some 20)))"
    by (simp add: resolve_paper_execution_def resolve_optional_def sample_defs contains_def)
  from execution_policies_agree [OF sample_configuration_valid this, of 20]
  show ?thesis by (auto simp: sample_execution_def)
     (auto simp: resolve_candidate_arbitration_def resolve_optional_def sample_defs contains_def)
qed

text \<open>C40: An open-ended paper-execution policy escapes that agreement: \<^verbatim>\<open>validate_versions\<close> compares a
  closing date only when the execution policy has one, so it accepts an open-ended execution policy over
  an arbitration policy that closes, although it then covers dates its arbitration policy does not.\<close>

theorem open_execution_outlives_arbitration:
  "\<exists>c e d. validate_versions c = Inr () \<and> resolve_paper_execution c d = Inr (Some e) \<and>
     resolve_candidate_arbitration c d = Inl (ConfigurationError ''candidate arbitration'')"
proof -
  let ?c = "sample_configuration (Some 30) None"
  have "validate_versions ?c = Inr ()"
    by (simp add: sample_defs validation_defs)
  moreover have "resolve_paper_execution ?c 31 = Inr (Some (sample_execution None))"
    "resolve_candidate_arbitration ?c 31 = Inl (ConfigurationError ''candidate arbitration'')"
    by (simp_all add: sample_defs contains_def resolve_paper_execution_def resolve_candidate_arbitration_def
        resolve_optional_def)
  ultimately show ?thesis by blast
qed

end
