(* ===== verification/Candidates.thy ===== *)
theory Candidates
  imports Configuration
begin

text \<open>
  The candidate contract of \<^verbatim>\<open>t0_trading/strategy/baselines.py\<close>: evidence groups, the
  \<^verbatim>\<open>BaselineCandidate\<close> record with its validator, and \<^verbatim>\<open>_build\<close>, which turns three group strengths into a
  candidate or an abstention. Feature snapshots and decision contexts enter through the fields that
  \<^verbatim>\<open>_build\<close> reads.
\<close>

section \<open>Evidence groups\<close>

record group_evidence =
  ge_name :: string
  ge_strength :: "decimal option"

datatype group_status = UNAVAILABLE | FAIL_GROUP | MATCH

definition GroupEvidence :: "string \<Rightarrow> decimal option \<Rightarrow> group_evidence res" where
  "GroupEvidence name strength =
     (if (case strength of None \<Rightarrow> True | Some s \<Rightarrow> 0 \<le> s \<and> s \<le> 1)
      then Inr \<lparr>ge_name = name, ge_strength = strength\<rparr> else Inl (ValidationError ''GroupEvidence''))"

definition group_status :: "group_evidence \<Rightarrow> group_status" where
  "group_status g = (case ge_strength g of None \<Rightarrow> UNAVAILABLE | Some s \<Rightarrow> if s > 0 then MATCH else FAIL_GROUP)"

section \<open>Candidates\<close>

datatype context_data_mode = LIVE | HISTORICAL_PROXY

datatype market_regime = TREND_UP | TREND_DOWN | RANGE | HIGH_VOLATILITY | HIGH_DISPERSION | UNKNOWN

abbreviation BASELINE_VERSION :: string where "BASELINE_VERSION \<equiv> ''buy-first-baselines-v3''"

definition BASELINE_NAMES :: "string list" where
  "BASELINE_NAMES = [''mean_reversion'', ''momentum_pullback'', ''vic_vhm_relative'']"

definition BASELINE_GROUP_NAMES :: "string \<Rightarrow> string list option" where
  "BASELINE_GROUP_NAMES = map_of
     [(''mean_reversion'', [''price_stretch'', ''zone'', ''reversal_confirmation'']),
      (''momentum_pullback'', [''trend_strength'', ''pullback_quality'', ''reacceleration_confirmation'']),
      (''vic_vhm_relative'', [''relative_divergence'', ''lagged_peer_confirmation'', ''market_confirmation''])]"

record baseline_candidate =
  bc_baseline_version :: string
  bc_strategy :: string
  bc_symbol :: string
  bc_trade_date :: date
  bc_decision_at :: instant
  bc_feature_snapshot_sha256 :: string
  bc_peer_feature_snapshot_sha256 :: "string option"
  bc_context_snapshot_sha256 :: "string option"
  bc_context_version :: "string option"
  bc_context_configuration_sha256 :: "string option"
  bc_context_data_mode :: "context_data_mode option"
  bc_market_regime :: market_regime
  bc_groups :: "group_evidence list"
  bc_strength :: decimal
  bc_block_reasons :: "string list"

definition is_candidate :: "baseline_candidate \<Rightarrow> bool" where
  "is_candidate c = (bc_block_reasons c = [])"

definition optional_sha256 :: "string option \<Rightarrow> bool" where
  "optional_sha256 v = (case v of None \<Rightarrow> True | Some s \<Rightarrow> is_sha256 s)"

definition BaselineCandidate :: "baseline_candidate \<Rightarrow> baseline_candidate res" where
  "BaselineCandidate c =
     (let groups = bc_groups c in
      if \<not> (bc_baseline_version c = BASELINE_VERSION \<and> bc_strategy c \<in> set BASELINE_NAMES \<and>
             is_sha256 (bc_feature_snapshot_sha256 c) \<and> optional_sha256 (bc_peer_feature_snapshot_sha256 c) \<and>
             optional_sha256 (bc_context_snapshot_sha256 c) \<and> optional_sha256 (bc_context_configuration_sha256 c) \<and>
             (case bc_context_version c of None \<Rightarrow> True | Some v \<Rightarrow> is_version v) \<and>
             length groups = 3 \<and> 0 \<le> bc_strength c \<and> bc_strength c \<le> 1)
      then Inl (ValidationError ''BaselineCandidate'')
      else if Some (map ge_name groups) \<noteq> BASELINE_GROUP_NAMES (bc_strategy c)
      then Inl (ValidationError ''baseline group contract is inconsistent'')
      else if bc_symbol c \<noteq> map to_upper (strip (bc_symbol c))
      then Inl (ValidationError ''baseline symbol must be uppercase'')
      else if bc_strategy c \<noteq> ''vic_vhm_relative'' \<and> bc_peer_feature_snapshot_sha256 c \<noteq> None
      then Inl (ValidationError ''only relative baselines may carry peer lineage'')
      else if bc_strategy c = ''vic_vhm_relative'' \<and> bc_peer_feature_snapshot_sha256 c = None \<and> bc_block_reasons c = []
      then Inl (ValidationError ''active relative baseline requires peer lineage'')
      else if bc_context_snapshot_sha256 c = None \<and> bc_market_regime c \<noteq> UNKNOWN
      then Inl (ValidationError ''classified market regime requires context lineage'')
      else if (bc_context_snapshot_sha256 c = None \<or> bc_context_version c = None \<or>
               bc_context_configuration_sha256 c = None \<or> bc_context_data_mode c = None) \<and>
              (bc_context_snapshot_sha256 c \<noteq> None \<or> bc_context_version c \<noteq> None \<or>
               bc_context_configuration_sha256 c \<noteq> None \<or> bc_context_data_mode c \<noteq> None)
      then Inl (ValidationError ''context lineage must be wholly present or absent'')
      else if fromkeys (bc_block_reasons c) \<noteq> bc_block_reasons c
      then Inl (ValidationError ''baseline block reasons must be unique'')
      else if bc_block_reasons c = [] \<and> bc_strategy c \<in> {''mean_reversion'', ''vic_vhm_relative''} \<and>
              list_ex (\<lambda>g. group_status g \<noteq> MATCH) groups
      then Inl (ValidationError ''context-dependent candidate must match every group'')
      else if bc_block_reasons c = [] \<and> (group_status (hd groups) \<noteq> MATCH \<or>
              \<not> list_ex (\<lambda>g. group_status g = MATCH) (tl groups) \<or> bc_strength c = 0)
      then Inl (ValidationError ''candidate must match its required and confirming groups'')
      else if bc_block_reasons c \<noteq> [] \<and> bc_strength c \<noteq> 0
      then Inl (ValidationError ''blocked baseline cannot carry actionable strength'')
      else Inr c)"

lemma BaselineCandidate_Inr: "BaselineCandidate c = Inr d \<Longrightarrow> d = c"
  by (auto simp: BaselineCandidate_def Let_def split: if_splits)

lemma BaselineCandidate_strength:
  assumes "BaselineCandidate c = Inr c"
  shows "0 \<le> bc_strength c" "bc_strength c \<le> 1" "is_candidate c \<longleftrightarrow> 0 < bc_strength c"
  using assms by (auto simp: BaselineCandidate_def Let_def is_candidate_def split: if_splits)

section \<open>Building a candidate from group strengths\<close>

text \<open>The snapshot and context fields that \<^verbatim>\<open>_build\<close> copies.\<close>

record snapshot_lineage =
  sl_symbol :: string
  sl_trade_date :: date
  sl_decision_at :: instant
  sl_sha256 :: string

record context_lineage =
  cl_sha256 :: string
  cl_context_version :: string
  cl_configuration_sha256 :: string
  cl_data_mode :: context_data_mode
  cl_regime :: market_regime

definition block_reasons_of :: "string \<Rightarrow> group_evidence list \<Rightarrow> string option \<Rightarrow> string list" where
  "block_reasons_of strategy groups block =
     (case block of Some b \<Rightarrow> [b]
      | None \<Rightarrow>
        if strategy \<in> {''mean_reversion'', ''vic_vhm_relative''}
        then (if list_ex (\<lambda>g. group_status g = UNAVAILABLE) groups then [''required_group_unavailable'']
              else if list_ex (\<lambda>g. group_status g = FAIL_GROUP) groups then [''required_group_failed''] else [])
        else (if group_status (hd groups) = UNAVAILABLE then [''required_group_unavailable'']
              else if group_status (hd groups) = FAIL_GROUP then [''required_group_failed'']
              else if list_all (\<lambda>g. group_status g = UNAVAILABLE) (tl groups) then [''confirming_group_unavailable'']
              else if \<not> list_ex (\<lambda>g. group_status g = MATCH) (tl groups) then [''confirming_group_failed''] else []))"

definition matched_strengths :: "group_evidence list \<Rightarrow> decimal list" where
  "matched_strengths groups = concat (map (\<lambda>g. case ge_strength g of None \<Rightarrow> [] | Some s \<Rightarrow> if s > 0 then [s] else []) groups)"

definition build_candidate ::
  "string \<Rightarrow> snapshot_lineage \<Rightarrow> decimal option list \<Rightarrow> snapshot_lineage option \<Rightarrow> context_lineage option \<Rightarrow>
   string option \<Rightarrow> baseline_candidate res" where
  "build_candidate strategy snapshot strengths peer context block =
     (case BASELINE_GROUP_NAMES strategy of None \<Rightarrow> Inl KeyError
      | Some names \<Rightarrow>
        if length names \<noteq> length strengths then Inl (ValueError ''zip() arguments have different lengths'')
        else rbind (map_res (\<lambda>(n, s). GroupEvidence n s) (zip names strengths)) (\<lambda>groups.
          let reasons = block_reasons_of strategy groups block;
              matched = matched_strengths groups
          in rbind (if reasons \<noteq> [] then Inr 0 else ratio RATIO_QUANTUM (dsum matched) (of_nat (length matched))) (\<lambda>strength.
            BaselineCandidate \<lparr>bc_baseline_version = BASELINE_VERSION, bc_strategy = strategy,
              bc_symbol = sl_symbol snapshot, bc_trade_date = sl_trade_date snapshot,
              bc_decision_at = sl_decision_at snapshot, bc_feature_snapshot_sha256 = sl_sha256 snapshot,
              bc_peer_feature_snapshot_sha256 = map_option sl_sha256 peer,
              bc_context_snapshot_sha256 = map_option cl_sha256 context,
              bc_context_version = map_option cl_context_version context,
              bc_context_configuration_sha256 = map_option cl_configuration_sha256 context,
              bc_context_data_mode = map_option cl_data_mode context,
              bc_market_regime = (case context of None \<Rightarrow> UNKNOWN | Some c \<Rightarrow> cl_regime c),
              bc_groups = groups, bc_strength = strength, bc_block_reasons = reasons\<rparr>)))"

end
