(* ===== verification/Arbitration.thy ===== *)
theory Arbitration
  imports Candidates
begin

text \<open>
  \<^verbatim>\<open>t0_trading/arbitration/model.py\<close> and \<^verbatim>\<open>engine.py\<close>: the \<^verbatim>\<open>CandidateArbitration\<close> record, the
  selection lineage check shared by simulation and paper execution, and the stateful
  \<^verbatim>\<open>CandidateArbitrator\<close>. Content hashes are parameters: \<open>sha\<close> of a candidate, \<open>policy_sha\<close> of the policy.
  An arbitrator that raised is not used again, so a failing call returns no state.
\<close>

section \<open>Arbitration records\<close>

datatype arbitration_status = SELECTED | REJECTED_ARBITRATION

datatype rejection_reason =
  UPSTREAM_BLOCKED | BELOW_MINIMUM_STRENGTH | LOWER_STRATEGY_PRIORITY | SYMBOL_COOLDOWN | CLOCK_CAPACITY

record candidate_arbitration =
  ca_arbitration_version :: string
  ca_arbitration_configuration_sha256 :: string
  ca_candidate_version :: string
  ca_candidate_sha256 :: string
  ca_strategy :: string
  ca_symbol :: string
  ca_trade_date :: date
  ca_decision_at :: instant
  ca_horizon_seconds :: int
  ca_strength :: decimal
  ca_status :: arbitration_status
  ca_rejection_reason :: "rejection_reason option"
  ca_priority :: "nat option"
  ca_selected_candidate_sha256 :: "string option"

definition CandidateArbitration :: "candidate_arbitration \<Rightarrow> candidate_arbitration res" where
  "CandidateArbitration a =
     (if \<not> (is_version (ca_arbitration_version a) \<and> is_sha256 (ca_arbitration_configuration_sha256 a) \<and>
             is_version (ca_candidate_version a) \<and> is_sha256 (ca_candidate_sha256 a) \<and> is_strategy (ca_strategy a) \<and>
             1 \<le> ca_horizon_seconds a \<and> ca_horizon_seconds a \<le> 86400 \<and> 0 \<le> ca_strength a \<and> ca_strength a \<le> 1 \<and>
             optional_sha256 (ca_selected_candidate_sha256 a))
      then Inl (ValidationError ''CandidateArbitration'')
      else if \<not> is_uppercase_identifier (ca_symbol a)
      then Inl (ValidationError ''arbitration symbol must be uppercase'')
      else if ca_status a = SELECTED \<and> (ca_rejection_reason a \<noteq> None \<or> ca_priority a = None \<or>
              ca_selected_candidate_sha256 a \<noteq> Some (ca_candidate_sha256 a))
      then Inl (ValidationError ''selected arbitration result is inconsistent'')
      else if ca_status a \<noteq> SELECTED \<and> (ca_rejection_reason a = None \<or> ca_priority a \<noteq> None)
      then Inl (ValidationError ''rejected arbitration result is inconsistent'')
      else if ca_rejection_reason a \<in> {Some LOWER_STRATEGY_PRIORITY, Some SYMBOL_COOLDOWN} \<and>
              ca_selected_candidate_sha256 a = None
      then Inl (ValidationError ''conflict rejection requires selected-candidate lineage'')
      else if ca_rejection_reason a \<in> {Some UPSTREAM_BLOCKED, Some BELOW_MINIMUM_STRENGTH, Some CLOCK_CAPACITY} \<and>
              ca_selected_candidate_sha256 a \<noteq> None
      then Inl (ValidationError ''non-conflict rejection cannot reference a selected candidate'')
      else Inr a)"

lemma CandidateArbitration_Inr: "CandidateArbitration a = Inr d \<Longrightarrow> d = a"
  unfolding CandidateArbitration_def if_Inl_eq_Inr by simp

definition require_selected_candidate ::
  "(baseline_candidate \<Rightarrow> string) \<Rightarrow> baseline_candidate \<Rightarrow> candidate_arbitration \<Rightarrow> unit res" where
  "require_selected_candidate sha c a =
     (if \<not> is_candidate c \<or> ca_status a \<noteq> SELECTED \<or> ca_candidate_version a \<noteq> bc_baseline_version c \<or>
         ca_candidate_sha256 a \<noteq> sha c \<or> ca_strategy a \<noteq> bc_strategy c \<or> ca_symbol a \<noteq> bc_symbol c \<or>
         ca_trade_date a \<noteq> bc_trade_date c \<or> ca_decision_at a \<noteq> bc_decision_at c \<or>
         ca_strength a \<noteq> bc_strength c \<or> ca_selected_candidate_sha256 a \<noteq> Some (sha c)
      then Inl (ValueError ''candidate and selected arbitration lineage do not match'')
      else Inr ())"

section \<open>The arbitrator\<close>

type_synonym clock = "date \<times> instant"

record arbitrator =
  az_policy :: arbitration_version
  az_last_selected :: "string \<rightharpoonup> instant \<times> string"
  az_last_clock :: "clock option"

definition new_arbitrator :: "arbitration_version \<Rightarrow> arbitrator" where
  "new_arbitrator policy = \<lparr>az_policy = policy, az_last_selected = Map.empty, az_last_clock = None\<rparr>"

text \<open>
  \<open>rule_of\<close> is \<^verbatim>\<open>self._rules[strategy]\<close>; the matrix check at the head of \<^verbatim>\<open>decide\<close> makes every later
  lookup succeed (\<open>matrix_rule_exists\<close>), which is where the total \<open>rule_of\<close> is used.
\<close>

definition find_rule :: "arbitration_version \<Rightarrow> string \<Rightarrow> arbitration_rule option" where
  "find_rule policy strategy = keyed ar_strategy (av_rules policy) strategy"

definition rule_of :: "arbitration_version \<Rightarrow> string \<Rightarrow> arbitration_rule" where
  "rule_of policy strategy = the (find_rule policy strategy)"

record verdict =
  vd_candidate :: baseline_candidate
  vd_reason :: "rejection_reason option"
  vd_priority :: "nat option"
  vd_selected :: "string option"

definition arbitration_result ::
  "(baseline_candidate \<Rightarrow> string) \<Rightarrow> string \<Rightarrow> arbitration_version \<Rightarrow> verdict \<Rightarrow> candidate_arbitration res" where
  "arbitration_result sha policy_sha policy v =
     (let c = vd_candidate v; selected = (vd_reason v = None) in
      case find_rule policy (bc_strategy c) of None \<Rightarrow> Inl KeyError
      | Some rule \<Rightarrow> CandidateArbitration \<lparr>ca_arbitration_version = version policy,
          ca_arbitration_configuration_sha256 = policy_sha, ca_candidate_version = bc_baseline_version c,
          ca_candidate_sha256 = sha c, ca_strategy = bc_strategy c, ca_symbol = bc_symbol c,
          ca_trade_date = bc_trade_date c, ca_decision_at = bc_decision_at c,
          ca_horizon_seconds = ar_horizon_seconds rule, ca_strength = bc_strength c,
          ca_status = (if selected then SELECTED else REJECTED_ARBITRATION), ca_rejection_reason = vd_reason v,
          ca_priority = vd_priority v,
          ca_selected_candidate_sha256 = (if selected then Some (sha c) else vd_selected v)\<rparr>)"

text \<open>Eligibility and ranking inside one symbol.\<close>

definition eligible :: "arbitration_version \<Rightarrow> baseline_candidate \<Rightarrow> bool" where
  "eligible policy c = (is_candidate c \<and> \<not> bc_strength c < ar_minimum_strength (rule_of policy (bc_strategy c)))"

definition ineligible_verdict :: "baseline_candidate \<Rightarrow> verdict" where
  "ineligible_verdict c = \<lparr>vd_candidate = c,
     vd_reason = Some (if \<not> is_candidate c then UPSTREAM_BLOCKED else BELOW_MINIMUM_STRENGTH),
     vd_priority = None, vd_selected = None\<rparr>"

definition rejected :: "rejection_reason \<Rightarrow> string option \<Rightarrow> baseline_candidate \<Rightarrow> verdict" where
  "rejected reason selected c = \<lparr>vd_candidate = c, vd_reason = Some reason, vd_priority = None, vd_selected = selected\<rparr>"

definition selected_verdict :: "nat \<Rightarrow> baseline_candidate \<Rightarrow> verdict" where
  "selected_verdict priority c = \<lparr>vd_candidate = c, vd_reason = None, vd_priority = Some priority, vd_selected = None\<rparr>"

definition contender_key ::
  "(baseline_candidate \<Rightarrow> string) \<Rightarrow> arbitration_version \<Rightarrow> baseline_candidate \<Rightarrow> nat \<times> decimal \<times> string" where
  "contender_key sha policy c = (ar_priority (rule_of policy (bc_strategy c)), dneg (bc_strength c), sha c)"

definition winner_key ::
  "(baseline_candidate \<Rightarrow> string) \<Rightarrow> arbitration_version \<Rightarrow> baseline_candidate \<Rightarrow> nat \<times> decimal \<times> string \<times> string" where
  "winner_key sha policy c = (ar_priority (rule_of policy (bc_strategy c)), dneg (bc_strength c), bc_symbol c, sha c)"

definition output_key ::
  "(baseline_candidate \<Rightarrow> string) \<Rightarrow> arbitration_version \<Rightarrow> baseline_candidate \<Rightarrow> string \<times> nat \<times> string" where
  "output_key sha policy c = (bc_symbol c, ar_priority (rule_of policy (bc_strategy c)), sha c)"

definition cooling :: "arbitration_version \<Rightarrow> instant \<Rightarrow> (instant \<times> string) option \<Rightarrow> bool" where
  "cooling policy decision_at previous = (case previous of None \<Rightarrow> False
     | Some (t, _) \<Rightarrow> decision_at < t + av_cooldown_seconds policy * second_us)"

text \<open>
  One round of the loop over symbols: the verdicts it records, and the winner with the contenders
  it beat, if the symbol has one.
\<close>

definition symbol_round ::
  "(baseline_candidate \<Rightarrow> string) \<Rightarrow> arbitration_version \<Rightarrow> (string \<rightharpoonup> instant \<times> string) \<Rightarrow> instant \<Rightarrow>
   baseline_candidate list \<Rightarrow> string \<Rightarrow> verdict list \<times> (baseline_candidate \<times> baseline_candidate list) list" where
  "symbol_round sha policy last_selected decision_at candidates symbol =
     (let items = filter (\<lambda>c. bc_symbol c = symbol) candidates;
          blocked = map ineligible_verdict (filter (\<lambda>c. \<not> eligible policy c) items);
          contenders = filter (eligible policy) items
      in if contenders = [] then (blocked, [])
         else case last_selected symbol of
           Some (t, previous) \<Rightarrow>
             if cooling policy decision_at (Some (t, previous))
             then (blocked @ map (rejected SYMBOL_COOLDOWN (Some previous)) contenders, [])
             else (let ranked = sort_key (contender_key sha policy) contenders in (blocked, [(hd ranked, tl ranked)]))
         | None \<Rightarrow> (let ranked = sort_key (contender_key sha policy) contenders in (blocked, [(hd ranked, tl ranked)])))"

definition clock_rounds ::
  "(baseline_candidate \<Rightarrow> string) \<Rightarrow> arbitration_version \<Rightarrow> (string \<rightharpoonup> instant \<times> string) \<Rightarrow> instant \<Rightarrow>
   baseline_candidate list \<Rightarrow> (verdict list \<times> (baseline_candidate \<times> baseline_candidate list) list) list" where
  "clock_rounds sha policy last_selected decision_at candidates =
     map (symbol_round sha policy last_selected decision_at candidates) (sorted_set (map bc_symbol candidates))"

definition ordered_winners ::
  "(baseline_candidate \<Rightarrow> string) \<Rightarrow> arbitration_version \<Rightarrow> (string \<rightharpoonup> instant \<times> string) \<Rightarrow> instant \<Rightarrow>
   baseline_candidate list \<Rightarrow> (baseline_candidate \<times> baseline_candidate list) list" where
  "ordered_winners sha policy last_selected decision_at candidates =
     sort_key (\<lambda>w. winner_key sha policy (fst w)) (concat (map snd (clock_rounds sha policy last_selected decision_at candidates)))"

definition chosen ::
  "(baseline_candidate \<Rightarrow> string) \<Rightarrow> arbitration_version \<Rightarrow> (string \<rightharpoonup> instant \<times> string) \<Rightarrow> instant \<Rightarrow>
   baseline_candidate list \<Rightarrow> (baseline_candidate \<times> baseline_candidate list) list" where
  "chosen sha policy last_selected decision_at candidates =
     take (av_maximum_selections_per_clock policy) (ordered_winners sha policy last_selected decision_at candidates)"

definition winner_verdicts ::
  "(baseline_candidate \<Rightarrow> string) \<Rightarrow> nat \<Rightarrow> baseline_candidate \<times> baseline_candidate list \<Rightarrow> verdict list" where
  "winner_verdicts sha priority w =
     selected_verdict priority (fst w) # map (rejected LOWER_STRATEGY_PRIORITY (Some (sha (fst w)))) (snd w)"

definition capacity_verdicts :: "baseline_candidate \<times> baseline_candidate list \<Rightarrow> verdict list" where
  "capacity_verdicts w = map (rejected CLOCK_CAPACITY None) (fst w # snd w)"

definition clock_verdicts ::
  "(baseline_candidate \<Rightarrow> string) \<Rightarrow> arbitration_version \<Rightarrow> (string \<rightharpoonup> instant \<times> string) \<Rightarrow> instant \<Rightarrow>
   baseline_candidate list \<Rightarrow> verdict list" where
  "clock_verdicts sha policy last_selected decision_at candidates =
     concat (map fst (clock_rounds sha policy last_selected decision_at candidates)) @
     (let winners = ordered_winners sha policy last_selected decision_at candidates;
          n = av_maximum_selections_per_clock policy
      in concat (map (\<lambda>(i, w). winner_verdicts sha i w) (enumerate 0 (take n winners))) @
         concat (map capacity_verdicts (drop n winners)))"

definition record_selected ::
  "(baseline_candidate \<Rightarrow> string) \<Rightarrow> instant \<Rightarrow> (baseline_candidate \<times> baseline_candidate list) list \<Rightarrow>
   (string \<rightharpoonup> instant \<times> string) \<Rightarrow> (string \<rightharpoonup> instant \<times> string)" where
  "record_selected sha decision_at winners last_selected =
     foldl (\<lambda>m w. m(bc_symbol (fst w) \<mapsto> (decision_at, sha (fst w)))) last_selected winners"

definition complete_matrix :: "arbitration_version \<Rightarrow> baseline_candidate list \<Rightarrow> bool" where
  "complete_matrix policy candidates =
     list_all (\<lambda>symbol. let items = filter (\<lambda>c. bc_symbol c = symbol) candidates in
        length items = length (remdups (map ar_strategy (av_rules policy))) \<and> set (map bc_strategy items) = set (map ar_strategy (av_rules policy)))
       (map bc_symbol candidates)"

definition decide ::
  "(baseline_candidate \<Rightarrow> string) \<Rightarrow> (arbitration_version \<Rightarrow> string) \<Rightarrow> arbitrator \<Rightarrow> baseline_candidate list \<Rightarrow>
   (arbitrator \<times> candidate_arbitration list) res" where
  "decide sha policy_sha az candidates =
     (case candidates of [] \<Rightarrow> Inl (ValueError ''candidate arbitration requires a complete decision clock'')
      | first # _ \<Rightarrow>
        let policy = az_policy az; trade_date = bc_trade_date first; decision_at = bc_decision_at first in
        if list_ex (\<lambda>c. (bc_trade_date c, bc_decision_at c) \<noteq> (trade_date, decision_at)) candidates
        then Inl (ValueError ''candidate arbitration call must contain exactly one decision clock'')
        else if (case az_last_clock az of None \<Rightarrow> False | Some l \<Rightarrow> (trade_date, decision_at) \<le> l)
        then Inl (ValueError ''candidate arbitration clocks must be strictly increasing'')
        else if \<not> contains policy trade_date
        then Inl (ValueError ''candidate arbitration policy does not cover the trade date'')
        else if list_ex (\<lambda>c. bc_baseline_version c \<noteq> av_candidate_version policy) candidates
        then Inl (ValueError ''candidate arbitration policy and candidate versions differ'')
        else if \<not> all_unique (map sha candidates)
        then Inl (ValueError ''candidate arbitration inputs must be unique'')
        else if \<not> complete_matrix policy candidates
        then Inl (ValueError ''candidate arbitration requires a complete configured strategy matrix'')
        else rbind (map_res (arbitration_result sha (policy_sha policy) policy)
                      (clock_verdicts sha policy (az_last_selected az) decision_at candidates)) (\<lambda>decisions.
             rbind (map_res (\<lambda>c. case keyed ca_candidate_sha256 decisions (sha c) of None \<Rightarrow> Inl KeyError | Some d \<Rightarrow> Inr d)
                      (sort_key (output_key sha policy) candidates)) (\<lambda>output.
             Inr (az\<lparr>az_last_clock := Some (trade_date, decision_at),
                     az_last_selected := record_selected sha decision_at
                       (chosen sha policy (az_last_selected az) decision_at candidates) (az_last_selected az)\<rparr>, output))))"

text \<open>\<^verbatim>\<open>arbitrate_candidates\<close>: group by clock, decide the clocks in ascending order.\<close>

definition candidate_clock :: "baseline_candidate \<Rightarrow> clock" where
  "candidate_clock c = (bc_trade_date c, bc_decision_at c)"

fun decide_clocks ::
  "(baseline_candidate \<Rightarrow> string) \<Rightarrow> (arbitration_version \<Rightarrow> string) \<Rightarrow> baseline_candidate list \<Rightarrow> arbitrator \<Rightarrow>
   clock list \<Rightarrow> (arbitrator \<times> candidate_arbitration list) res" where
  "decide_clocks sha policy_sha candidates az [] = Inr (az, [])"
| "decide_clocks sha policy_sha candidates az (k # ks) =
     rbind (decide sha policy_sha az (filter (\<lambda>c. candidate_clock c = k) candidates)) (\<lambda>(az', ds).
     rbind (decide_clocks sha policy_sha candidates az' ks) (\<lambda>(az'', rest). Inr (az'', ds @ rest)))"

definition arbitrate_candidates ::
  "(baseline_candidate \<Rightarrow> string) \<Rightarrow> (arbitration_version \<Rightarrow> string) \<Rightarrow> baseline_candidate list \<Rightarrow>
   arbitration_version \<Rightarrow> candidate_arbitration list res" where
  "arbitrate_candidates sha policy_sha candidates policy =
     (if candidates = [] then Inl (ValueError ''candidate arbitration requires candidates'')
      else rbind (decide_clocks sha policy_sha candidates (new_arbitrator policy)
                    (sorted_set (map candidate_clock candidates))) (\<lambda>(_, ds). Inr ds))"

section \<open>Every candidate gets exactly one verdict\<close>

definition flatten_winner :: "baseline_candidate \<times> baseline_candidate list \<Rightarrow> baseline_candidate list" where
  "flatten_winner w = fst w # snd w"

lemma sort_key_hd_tl: "xs \<noteq> [] \<Longrightarrow> hd (sort_key f xs) # tl (sort_key f xs) = sort_key f xs"
  by (metis list.collapse set_empty set_sort)

lemma hd_sort_key_le: "x \<in> set xs \<Longrightarrow> f (hd (sort_key f xs)) \<le> f x"
proof -
  assume "x \<in> set xs"
  then have "x \<in> set (sort_key f xs)" by simp
  moreover have "sorted (map f (sort_key f xs))" by simp
  ultimately show ?thesis by (cases "sort_key f xs") auto
qed

lemma map_enumerate:
  "map (\<lambda>p. f (snd p)) (enumerate n xs) = map f xs"
  "map (\<lambda>p. g (fst p)) (enumerate n xs) = map g [n..<n + length xs]"
proof -
  show "map (\<lambda>p. f (snd p)) (enumerate n xs) = map f xs"
    by (induction xs arbitrary: n) simp_all
  have "map g (map fst (enumerate n xs)) = map g [n..<n + length xs]"
    by (simp only: map_fst_enumerate)
  then show "map (\<lambda>p. g (fst p)) (enumerate n xs) = map g [n..<n + length xs]" by (simp only: map_map o_def)
qed

lemma vd_candidate_simps [simp]:
  "vd_candidate (ineligible_verdict c) = c" "vd_candidate (rejected r s c) = c"
  "vd_candidate (selected_verdict i c) = c"
  "vd_reason (ineligible_verdict c) = Some (if \<not> is_candidate c then UPSTREAM_BLOCKED else BELOW_MINIMUM_STRENGTH)"
  "vd_reason (rejected r s c) = Some r"
  "vd_reason (selected_verdict i c) = None"
  by (simp_all add: ineligible_verdict_def rejected_def selected_verdict_def)

lemma symbol_round_mset:
  "mset (map vd_candidate (fst (symbol_round sha policy ls t cs s))) +
   mset (concat (map flatten_winner (snd (symbol_round sha policy ls t cs s)))) =
   mset (filter (\<lambda>c. bc_symbol c = s) cs)"
proof -
  let ?items = "filter (\<lambda>c. bc_symbol c = s) cs"
  have split: "mset ?items = mset (filter (\<lambda>c. \<not> eligible policy c) ?items) + mset (filter (eligible policy) ?items)"
    by (metis add.commute mset_filter multiset_partition)
  have ranked: "mset (flatten_winner (hd (sort_key k xs), tl (sort_key k xs))) = mset xs" if "xs \<noteq> []"
    for k :: "baseline_candidate \<Rightarrow> nat \<times> decimal \<times> string" and xs
    using sort_key_hd_tl [OF that, of k] by (simp add: flatten_winner_def)
  have triv: "image_mset vd_candidate (image_mset ineligible_verdict m) = m"
      "image_mset vd_candidate (image_mset (rejected r v) m) = m" for m r v
    by (simp_all add: multiset.map_comp o_def)
  show ?thesis
    unfolding split
    by (auto simp: symbol_round_def Let_def triv ranked split: option.splits simp del: mset_filter)
qed

lemma clock_rounds_mset:
  "mset (map vd_candidate (concat (map fst (clock_rounds sha policy ls t cs)))) +
   mset (concat (map flatten_winner (concat (map snd (clock_rounds sha policy ls t cs))))) = mset cs"
proof -
  have gen: "mset (map vd_candidate (concat (map fst (map (symbol_round sha policy ls t cs) ks)))) +
      mset (concat (map flatten_winner (concat (map snd (map (symbol_round sha policy ls t cs) ks))))) =
      mset (concat (map (\<lambda>s. filter (\<lambda>c. bc_symbol c = s) cs) ks))" for ks
  proof (induction ks)
    case (Cons k ks)
    then show ?case using symbol_round_mset [of sha policy ls t cs k]
      by (simp add: algebra_simps del: mset_filter)
  qed simp
  have "mset (concat (map (\<lambda>s. filter (\<lambda>c. bc_symbol c = s) cs) (sorted_set (map bc_symbol cs)))) = mset cs"
    by (rule mset_concat_groups) (auto simp: sorted_set_def)
  with gen show ?thesis by (simp add: clock_rounds_def)
qed

lemma mset_concat_sort_key:
  "mset (concat (map g (sort_key k xs))) = mset (concat (map g xs))"
  by (simp add: mset_concat sum_list_map_sort_key [of "\<lambda>x. mset (g x)"] o_def)

lemma winner_verdicts_candidates:
  "map vd_candidate (concat (map (\<lambda>(i, w). winner_verdicts sha i w) (enumerate n ws))) = concat (map flatten_winner ws)"
  by (induction ws arbitrary: n) (auto simp: winner_verdicts_def flatten_winner_def o_def)

lemma capacity_verdicts_candidates:
  "map vd_candidate (concat (map capacity_verdicts ws)) = concat (map flatten_winner ws)"
  by (induction ws) (auto simp: capacity_verdicts_def flatten_winner_def o_def)

lemma clock_verdicts_mset: "mset (map vd_candidate (clock_verdicts sha policy ls t cs)) = mset cs"
proof -
  let ?ws = "ordered_winners sha policy ls t cs" and ?n = "av_maximum_selections_per_clock policy"
  have "mset (map vd_candidate (clock_verdicts sha policy ls t cs)) =
      mset (map vd_candidate (concat (map fst (clock_rounds sha policy ls t cs)))) +
      mset (concat (map flatten_winner (take ?n ?ws @ drop ?n ?ws)))"
    unfolding clock_verdicts_def Let_def map_append mset_append winner_verdicts_candidates
      capacity_verdicts_candidates concat_append ..
  also have "concat (map flatten_winner (take ?n ?ws @ drop ?n ?ws)) = concat (map flatten_winner ?ws)"
    by (simp only: append_take_drop_id)
  also have "mset (concat (map flatten_winner ?ws)) =
      mset (concat (map flatten_winner (concat (map snd (clock_rounds sha policy ls t cs)))))"
    unfolding ordered_winners_def by (rule mset_concat_sort_key)
  finally show ?thesis by (simp only: clock_rounds_mset)
qed

section \<open>Winners\<close>

lemma symbol_round_winner:
  assumes "w \<in> set (snd (symbol_round sha policy ls t cs s))"
  shows "bc_symbol (fst w) = s" "fst w \<in> set cs" "eligible policy (fst w)" "\<not> cooling policy t (ls s)"
    "\<And>c. c \<in> set cs \<Longrightarrow> bc_symbol c = s \<Longrightarrow> eligible policy c \<Longrightarrow> contender_key sha policy (fst w) \<le> contender_key sha policy c"
proof -
  let ?con = "filter (eligible policy) (filter (\<lambda>c. bc_symbol c = s) cs)"
  let ?ranked = "sort_key (contender_key sha policy) ?con"
  have ne: "?con \<noteq> []" and w: "w = (hd ?ranked, tl ?ranked)" and cool: "\<not> cooling policy t (ls s)"
    using assms by (auto simp: symbol_round_def Let_def cooling_def split: option.splits if_splits)
  have "?ranked \<noteq> []" using ne by (metis set_empty set_sort)
  then have "fst w \<in> set ?ranked" unfolding w fst_conv by (rule hd_in_set)
  then have "fst w \<in> set ?con" by (simp only: set_sort)
  then show "bc_symbol (fst w) = s" "fst w \<in> set cs" "eligible policy (fst w)" by auto
  show "\<not> cooling policy t (ls s)" by (fact cool)
  fix c assume "c \<in> set cs" "bc_symbol c = s" "eligible policy c"
  then have "c \<in> set ?con" by simp
  then show "contender_key sha policy (fst w) \<le> contender_key sha policy c"
    unfolding w fst_conv by (rule hd_sort_key_le)
qed

lemma symbol_round_single: "length (snd (symbol_round sha policy ls t cs s)) \<le> 1"
  by (auto simp: symbol_round_def Let_def split: option.splits)

lemma winners_distinct_symbols:
  "distinct (map (bc_symbol \<circ> fst) (concat (map snd (clock_rounds sha policy ls t cs))))"
proof -
  have "distinct (map (bc_symbol \<circ> fst) (concat (map snd (map (symbol_round sha policy ls t cs) ks)))) \<and>
      (\<forall>w \<in> set (concat (map snd (map (symbol_round sha policy ls t cs) ks))). bc_symbol (fst w) \<in> set ks)"
    if "distinct ks" for ks
    using that
  proof (induction ks)
    case (Cons k ks)
    have one: "length (snd (symbol_round sha policy ls t cs k)) \<le> 1" by (rule symbol_round_single)
    have "\<forall>w \<in> set (snd (symbol_round sha policy ls t cs k)). bc_symbol (fst w) = k"
      using symbol_round_winner(1) by blast
    then show ?case using Cons one
      by (cases "snd (symbol_round sha policy ls t cs k)") (fastforce simp: o_def)+
  qed simp
  from this [of "sorted_set (map bc_symbol cs)"] show ?thesis
    by (simp add: clock_rounds_def sorted_set_def)
qed

lemma ordered_winners_distinct: "distinct (map (bc_symbol \<circ> fst) (ordered_winners sha policy ls t cs))"
  unfolding ordered_winners_def using winners_distinct_symbols by simp

lemma ordered_winner:
  assumes "w \<in> set (ordered_winners sha policy ls t cs)"
  shows "fst w \<in> set cs" "eligible policy (fst w)" "\<not> cooling policy t (ls (bc_symbol (fst w)))"
    "\<And>c. c \<in> set cs \<Longrightarrow> bc_symbol c = bc_symbol (fst w) \<Longrightarrow> eligible policy c \<Longrightarrow>
       contender_key sha policy (fst w) \<le> contender_key sha policy c"
proof -
  obtain s where s: "w \<in> set (snd (symbol_round sha policy ls t cs s))"
    using assms by (auto simp: ordered_winners_def clock_rounds_def)
  note win = symbol_round_winner [OF s]
  show "fst w \<in> set cs" "eligible policy (fst w)" "\<not> cooling policy t (ls (bc_symbol (fst w)))"
    using win by auto
  show "contender_key sha policy (fst w) \<le> contender_key sha policy c"
    if "c \<in> set cs" "bc_symbol c = bc_symbol (fst w)" "eligible policy c" for c
    using win that by simp
qed


section \<open>The shape of a successful decision\<close>

lemma find_rule_ex: "st \<in> ar_strategy ` set (av_rules p) \<Longrightarrow> \<exists>r. find_rule p st = Some r"
  unfolding find_rule_def using keyed_None by (metis not_None_eq)

lemma find_rule_SomeD: "find_rule p st = Some r \<Longrightarrow> r \<in> set (av_rules p) \<and> ar_strategy r = st \<and> rule_of p st = r"
  by (auto simp: find_rule_def rule_of_def dest: keyed_Some)

lemma matrix_rule_exists: "complete_matrix p cs \<Longrightarrow> c \<in> set cs \<Longrightarrow> \<exists>r. find_rule p (bc_strategy c) = Some r"
proof (rule find_rule_ex)
  assume "complete_matrix p cs" "c \<in> set cs"
  then have "set (map bc_strategy (filter (\<lambda>d. bc_symbol d = bc_symbol c) cs)) = set (map ar_strategy (av_rules p))"
    by (auto simp: complete_matrix_def list_all_iff Let_def)
  moreover have "bc_strategy c \<in> set (map bc_strategy (filter (\<lambda>d. bc_symbol d = bc_symbol c) cs))"
    using \<open>c \<in> set cs\<close> by auto
  ultimately show "bc_strategy c \<in> ar_strategy ` set (av_rules p)" by simp
qed

text \<open>What one entry of the output says about the verdict it was built from.\<close>

lemma arbitration_result_fields:
  assumes "arbitration_result sha psha p v = Inr d"
  shows "ca_candidate_sha256 d = sha (vd_candidate v)" "ca_symbol d = bc_symbol (vd_candidate v)"
    "ca_status d = SELECTED \<longleftrightarrow> vd_reason v = None" "ca_rejection_reason d = vd_reason v"
    "ca_priority d = vd_priority v" "ca_decision_at d = bc_decision_at (vd_candidate v)"
    "ca_horizon_seconds d = ar_horizon_seconds (rule_of p (bc_strategy (vd_candidate v)))"
    "ca_selected_candidate_sha256 d = (if vd_reason v = None then Some (sha (vd_candidate v)) else vd_selected v)"
    "ca_candidate_version d = bc_baseline_version (vd_candidate v)" "ca_strategy d = bc_strategy (vd_candidate v)"
    "ca_trade_date d = bc_trade_date (vd_candidate v)" "ca_strength d = bc_strength (vd_candidate v)"
    "find_rule p (bc_strategy (vd_candidate v)) \<noteq> None" "CandidateArbitration d = Inr d"
proof -
  let ?c = "vd_candidate v"
  obtain rule where r: "find_rule p (bc_strategy ?c) = Some rule"
    using assms by (cases "find_rule p (bc_strategy ?c)") (simp_all add: arbitration_result_def Let_def)
  then have "rule_of p (bc_strategy ?c) = rule" by (simp add: rule_of_def)
  moreover note d = assms [unfolded arbitration_result_def Let_def r option.case, THEN CandidateArbitration_Inr]
  ultimately show "ca_candidate_sha256 d = sha ?c" "ca_symbol d = bc_symbol ?c"
    "ca_status d = SELECTED \<longleftrightarrow> vd_reason v = None" "ca_rejection_reason d = vd_reason v"
    "ca_priority d = vd_priority v" "ca_decision_at d = bc_decision_at ?c"
    "ca_horizon_seconds d = ar_horizon_seconds (rule_of p (bc_strategy ?c))"
    "ca_selected_candidate_sha256 d = (if vd_reason v = None then Some (sha ?c) else vd_selected v)"
    "ca_candidate_version d = bc_baseline_version ?c" "ca_strategy d = bc_strategy ?c"
    "ca_trade_date d = bc_trade_date ?c" "ca_strength d = bc_strength ?c"
    "find_rule p (bc_strategy ?c) \<noteq> None"
    using r by simp_all
  show "CandidateArbitration d = Inr d"
    using assms [unfolded arbitration_result_def Let_def r option.case] d by simp
qed

definition verdicts_of ::
  "(baseline_candidate \<Rightarrow> string) \<Rightarrow> arbitrator \<Rightarrow> baseline_candidate list \<Rightarrow> verdict list" where
  "verdicts_of sha az cs = clock_verdicts sha (az_policy az) (az_last_selected az) (bc_decision_at (hd cs)) cs"

definition decide_guard :: "(baseline_candidate \<Rightarrow> string) \<Rightarrow> arbitrator \<Rightarrow> baseline_candidate list \<Rightarrow> bool" where
  "decide_guard sha az cs \<longleftrightarrow> cs \<noteq> [] \<and> (\<forall>c \<in> set cs. candidate_clock c = candidate_clock (hd cs)) \<and>
     (\<forall>l. az_last_clock az = Some l \<longrightarrow> l < candidate_clock (hd cs)) \<and>
     contains (az_policy az) (bc_trade_date (hd cs)) \<and>
     (\<forall>c \<in> set cs. bc_baseline_version c = av_candidate_version (az_policy az)) \<and>
     distinct (map sha cs) \<and> complete_matrix (az_policy az) cs"

definition decide_body ::
  "(baseline_candidate \<Rightarrow> string) \<Rightarrow> (arbitration_version \<Rightarrow> string) \<Rightarrow> arbitrator \<Rightarrow> baseline_candidate list \<Rightarrow>
   (arbitrator \<times> candidate_arbitration list) res" where
  "decide_body sha psha az cs =
     rbind (map_res (arbitration_result sha (psha (az_policy az)) (az_policy az)) (verdicts_of sha az cs)) (\<lambda>ds.
     rbind (map_res (\<lambda>c. case keyed ca_candidate_sha256 ds (sha c) of None \<Rightarrow> Inl KeyError | Some d \<Rightarrow> Inr d)
              (sort_key (output_key sha (az_policy az)) cs)) (\<lambda>out.
     Inr (az\<lparr>az_last_clock := Some (candidate_clock (hd cs)),
             az_last_selected := record_selected sha (bc_decision_at (hd cs))
               (chosen sha (az_policy az) (az_last_selected az) (bc_decision_at (hd cs)) cs) (az_last_selected az)\<rparr>, out)))"

lemma decide_split: "decide sha psha az cs = Inr r \<longleftrightarrow> decide_guard sha az cs \<and> decide_body sha psha az cs = Inr r"
proof (cases cs)
  case Nil
  then show ?thesis by (simp add: decide_def decide_guard_def)
next
  case (Cons c cs')
  have clk: "(case az_last_clock az of None \<Rightarrow> False | Some l \<Rightarrow> k \<le> l) \<longleftrightarrow>
      \<not> (\<forall>l. az_last_clock az = Some l \<longrightarrow> l < k)" for k
    by (cases "az_last_clock az") auto
  show ?thesis unfolding decide_def decide_body_def decide_guard_def verdicts_of_def Cons list.case Let_def list.sel
      if_Inl_eq_Inr clk list_ex_iff all_unique_iff candidate_clock_def not_not
    by blast
qed

lemma option_KeyError_Inr: "(case x of None \<Rightarrow> Inl KeyError | Some d \<Rightarrow> Inr d) = Inr y \<longleftrightarrow> x = Some y"
  by (cases x) auto

lemma decide_InrE:
  assumes "decide sha psha az cs = Inr (az', out)"
  obtains ds where "decide_guard sha az cs"
    "list_all2 (\<lambda>v d. arbitration_result sha (psha (az_policy az)) (az_policy az) v = Inr d) (verdicts_of sha az cs) ds"
    "list_all2 (\<lambda>c d. keyed ca_candidate_sha256 ds (sha c) = Some d) (sort_key (output_key sha (az_policy az)) cs) out"
    "az' = az\<lparr>az_last_clock := Some (candidate_clock (hd cs)),
              az_last_selected := record_selected sha (bc_decision_at (hd cs))
                (chosen sha (az_policy az) (az_last_selected az) (bc_decision_at (hd cs)) cs) (az_last_selected az)\<rparr>"
proof -
  from assms have "decide_guard sha az cs" "decide_body sha psha az cs = Inr (az', out)"
    by (simp_all only: decide_split)
  then show thesis using that unfolding decide_body_def rbind_eq_Inr map_res_Inr_iff option_KeyError_Inr by blast
qed

lemma decide_permutation:
  assumes guard: "distinct (map sha cs)"
    and results: "list_all2 (\<lambda>v d. arbitration_result sha ps p v = Inr d) vs ds"
    and verdicts: "mset (map vd_candidate vs) = mset cs"
    and out: "list_all2 (\<lambda>c d. keyed ca_candidate_sha256 ds (sha c) = Some d) ocs out" "mset ocs = mset cs"
  shows "mset out = mset ds" "map ca_candidate_sha256 out = map sha ocs"
proof -
  let ?f = "\<lambda>c. the (keyed ca_candidate_sha256 ds (sha c))"
  have shas: "map ca_candidate_sha256 ds = map (sha \<circ> vd_candidate) vs"
    using results by (induction rule: list_all2_induct) (simp_all add: arbitration_result_fields)
  have "mset (map sha (map vd_candidate vs)) = mset (map sha cs)"
    using verdicts by (simp only: mset_map)
  then have "distinct (map ca_candidate_sha256 ds)"
    unfolding shas using guard by (metis map_map mset_eq_imp_distinct_iff)
  then have "keyed ca_candidate_sha256 ds (ca_candidate_sha256 d) = Some d" if "d \<in> set ds" for d
    using that by (rule keyed_distinct)
  then have "ds = map (\<lambda>d. the (keyed ca_candidate_sha256 ds (ca_candidate_sha256 d))) ds"
    by (simp add: map_idI)
  also have "\<dots> = map (\<lambda>k. the (keyed ca_candidate_sha256 ds k)) (map ca_candidate_sha256 ds)" by simp
  also have "\<dots> = map ?f (map vd_candidate vs)" by (simp only: shas map_map o_def)
  finally have "mset ds = image_mset ?f (mset cs)" using verdicts by (metis mset_map)
  moreover have outs: "out = map ?f ocs"
    using out(1) by (induction rule: list_all2_induct) auto
  ultimately show "mset out = mset ds" using out(2) by simp
  show "map ca_candidate_sha256 out = map sha ocs"
    using out(1) by (induction rule: list_all2_induct) (auto dest: keyed_Some)
qed

lemma decide_shape:
  assumes "decide sha psha az cs = Inr (az', out)"
  obtains ds where "decide_guard sha az cs"
    "list_all2 (\<lambda>v d. arbitration_result sha (psha (az_policy az)) (az_policy az) v = Inr d) (verdicts_of sha az cs) ds"
    "mset out = mset ds" "map ca_candidate_sha256 out = map sha (sort_key (output_key sha (az_policy az)) cs)"
    "az_policy az' = az_policy az" "az_last_clock az' = Some (candidate_clock (hd cs))"
    "az_last_selected az' = record_selected sha (bc_decision_at (hd cs))
       (chosen sha (az_policy az) (az_last_selected az) (bc_decision_at (hd cs)) cs) (az_last_selected az)"
proof -
  obtain ds where g: "decide_guard sha az cs"
    and r: "list_all2 (\<lambda>v d. arbitration_result sha (psha (az_policy az)) (az_policy az) v = Inr d) (verdicts_of sha az cs) ds"
    and o: "list_all2 (\<lambda>c d. keyed ca_candidate_sha256 ds (sha c) = Some d) (sort_key (output_key sha (az_policy az)) cs) out"
    and az: "az' = az\<lparr>az_last_clock := Some (candidate_clock (hd cs)),
              az_last_selected := record_selected sha (bc_decision_at (hd cs))
                (chosen sha (az_policy az) (az_last_selected az) (bc_decision_at (hd cs)) cs) (az_last_selected az)\<rparr>"
    using assms by (rule decide_InrE)
  have "distinct (map sha cs)" using g by (simp add: decide_guard_def)
  from decide_permutation [OF this r _ o] have "mset out = mset ds"
      "map ca_candidate_sha256 out = map sha (sort_key (output_key sha (az_policy az)) cs)"
    by (simp_all only: verdicts_of_def clock_verdicts_mset mset_sort)
  with g r az that show thesis by simp
qed

lemma list_all2_members:
  assumes "list_all2 R xs ys"
  shows "y \<in> set ys \<Longrightarrow> \<exists>x \<in> set xs. R x y" "x \<in> set xs \<Longrightarrow> \<exists>y \<in> set ys. R x y"
  using assms by (induction rule: list_all2_induct) auto

text \<open>Every entry of the output comes from one verdict, and every verdict reaches the output.\<close>

lemma decide_entry:
  assumes "decide sha psha az cs = Inr (az', out)"
  shows "d \<in> set out \<Longrightarrow> \<exists>v \<in> set (verdicts_of sha az cs). arbitration_result sha (psha (az_policy az)) (az_policy az) v = Inr d"
    and "v \<in> set (verdicts_of sha az cs) \<Longrightarrow> \<exists>d \<in> set out. arbitration_result sha (psha (az_policy az)) (az_policy az) v = Inr d"
proof -
  obtain ds where r: "list_all2 (\<lambda>v d. arbitration_result sha (psha (az_policy az)) (az_policy az) v = Inr d) (verdicts_of sha az cs) ds"
    and "mset out = mset ds"
    using assms by (rule decide_shape)
  then have "set out = set ds" by (metis set_mset_mset)
  then show "d \<in> set out \<Longrightarrow> \<exists>v \<in> set (verdicts_of sha az cs). arbitration_result sha (psha (az_policy az)) (az_policy az) v = Inr d"
    "v \<in> set (verdicts_of sha az cs) \<Longrightarrow> \<exists>d \<in> set out. arbitration_result sha (psha (az_policy az)) (az_policy az) v = Inr d"
    using list_all2_members [OF r] by auto
qed

text \<open>The selected verdicts are the chosen winners, numbered in order.\<close>

lemma filter_selected_none:
  "filter (\<lambda>v. vd_reason v = None) (concat (map capacity_verdicts ws)) = []"
  "filter (\<lambda>v. vd_reason v = None) (fst (symbol_round sha p ls t cs s)) = []"
  by (auto simp: filter_empty_conv capacity_verdicts_def symbol_round_def Let_def split: option.splits if_splits)

lemma filter_selected_winners:
  "filter (\<lambda>v. vd_reason v = None) (concat (map (\<lambda>(i, w). winner_verdicts sha i w) (enumerate n ws))) =
   map (\<lambda>(i, w). selected_verdict i (fst w)) (enumerate n ws)"
  by (induction ws arbitrary: n) (auto simp: winner_verdicts_def filter_empty_conv)

lemma filter_selected_verdicts:
  "filter (\<lambda>v. vd_reason v = None) (clock_verdicts sha p ls t cs) =
   map (\<lambda>(i, w). selected_verdict i (fst w)) (enumerate 0 (chosen sha p ls t cs))"
proof -
  have "filter (\<lambda>v. vd_reason v = None) (concat (map fst (clock_rounds sha p ls t cs))) = []"
    by (simp add: filter_concat clock_rounds_def filter_selected_none)
  then show ?thesis
    by (simp add: clock_verdicts_def Let_def filter_selected_none filter_selected_winners chosen_def)
qed

lemma list_all2_filter_map:
  assumes "list_all2 R xs ys" "\<And>x y. R x y \<Longrightarrow> P x = Q y" "\<And>x y. R x y \<Longrightarrow> f x = g y"
  shows "map g (filter Q ys) = map f (filter P xs)"
  using assms(1) by (induction rule: list_all2_induct) (simp_all add: assms(2,3))

lemma decide_selected:
  assumes "decide sha psha az cs = Inr (az', out)"
  shows "image_mset (\<lambda>d. (ca_symbol d, ca_priority d)) (mset (filter (\<lambda>d. ca_status d = SELECTED) out)) =
    mset (map (\<lambda>(i, w). (bc_symbol (fst w), Some i))
      (enumerate 0 (chosen sha (az_policy az) (az_last_selected az) (bc_decision_at (hd cs)) cs)))"
proof -
  obtain ds where r: "list_all2 (\<lambda>v d. arbitration_result sha (psha (az_policy az)) (az_policy az) v = Inr d) (verdicts_of sha az cs) ds"
    and perm: "mset out = mset ds"
    using assms by (rule decide_shape)
  have "map (\<lambda>d. (ca_symbol d, ca_priority d)) (filter (\<lambda>d. ca_status d = SELECTED) ds) =
      map (\<lambda>v. (bc_symbol (vd_candidate v), vd_priority v)) (filter (\<lambda>v. vd_reason v = None) (verdicts_of sha az cs))"
    using r by (rule list_all2_filter_map) (simp_all add: arbitration_result_fields)
  also have "\<dots> = map (\<lambda>(i, w). (bc_symbol (fst w), Some i))
      (enumerate 0 (chosen sha (az_policy az) (az_last_selected az) (bc_decision_at (hd cs)) cs))"
    unfolding verdicts_of_def filter_selected_verdicts map_map
    by (intro map_cong refl) (auto simp: selected_verdict_def)
  finally have "mset (map (\<lambda>d. (ca_symbol d, ca_priority d)) (filter (\<lambda>d. ca_status d = SELECTED) ds)) =
      mset (map (\<lambda>(i, w). (bc_symbol (fst w), Some i))
        (enumerate 0 (chosen sha (az_policy az) (az_last_selected az) (bc_decision_at (hd cs)) cs)))"
    by (rule arg_cong)
  then show ?thesis unfolding mset_map mset_filter perm .
qed

section \<open>What one decision clock guarantees\<close>

definition sample_sha :: "baseline_candidate \<Rightarrow> string" where
  "sample_sha c = replicate 63 (CHR ''0'') @ (if bc_symbol c = ''VIC'' then ''a'' else ''b'')"

definition sample_candidate :: "string \<Rightarrow> instant \<Rightarrow> decimal \<Rightarrow> baseline_candidate" where
  "sample_candidate symbol t strength = \<lparr>bc_baseline_version = BASELINE_VERSION, bc_strategy = ''mean_reversion'',
     bc_symbol = symbol, bc_trade_date = 7, bc_decision_at = t, bc_feature_snapshot_sha256 = replicate 64 (CHR ''1''),
     bc_peer_feature_snapshot_sha256 = None, bc_context_snapshot_sha256 = None, bc_context_version = None,
     bc_context_configuration_sha256 = None, bc_context_data_mode = None, bc_market_regime = UNKNOWN,
     bc_groups = map (\<lambda>n. \<lparr>ge_name = n, ge_strength = Some strength\<rparr>) [''price_stretch'', ''zone'', ''reversal_confirmation''],
     bc_strength = strength, bc_block_reasons = []\<rparr>"

abbreviation sample_clock :: "baseline_candidate list" where
  "sample_clock \<equiv> [sample_candidate ''VIC'' 0 (1/2), sample_candidate ''VHM'' 0 (3/4)]"

abbreviation sample_az :: arbitrator where
  "sample_az \<equiv> new_arbitrator (sample_arbitration None)"

abbreviation sample_policy_sha :: "arbitration_version \<Rightarrow> string" where
  "sample_policy_sha \<equiv> \<lambda>_. replicate 64 (CHR ''2'')"

lemma sample_decision:
  "case decide sample_sha sample_policy_sha sample_az sample_clock of Inl _ \<Rightarrow> False
   | Inr (az, out) \<Rightarrow> map (\<lambda>d. (ca_symbol d, ca_status d, ca_rejection_reason d, ca_priority d)) out =
       [(''VHM'', SELECTED, None, Some 0), (''VIC'', REJECTED_ARBITRATION, Some CLOCK_CAPACITY, None)]"
  by code_simp

text \<open>A decision clock returns exactly one arbitration record per candidate, in the order of symbol, rule
  priority and candidate hash, and each record passed the validator of \<^verbatim>\<open>CandidateArbitration\<close>.\<close>

theorem one_decision_per_candidate:
  assumes "decide sha psha az cs = Inr (az', out)"
  shows "map ca_candidate_sha256 out = map sha (sort_key (output_key sha (az_policy az)) cs) \<and>
    length out = length cs \<and> list_all (\<lambda>d. CandidateArbitration d = Inr d) out"
proof -
  from assms have keys: "map ca_candidate_sha256 out = map sha (sort_key (output_key sha (az_policy az)) cs)"
    by (rule decide_shape)
  then have "length out = length cs" by (metis length_map length_sort)
  moreover have "CandidateArbitration d = Inr d" if "d \<in> set out" for d
    using decide_entry(1) [OF assms that] by (auto dest: arbitration_result_fields)
  ultimately show ?thesis using keys by (simp add: list_all_iff)
qed

theorem one_decision_per_candidate_witness:
  "\<exists>az' out. decide sample_sha sample_policy_sha sample_az sample_clock = Inr (az', out) \<and> length out = 2 \<and>
     list_all (\<lambda>d. CandidateArbitration d = Inr d) out"
proof -
  obtain az' out where d: "decide sample_sha sample_policy_sha sample_az sample_clock = Inr (az', out)"
    using sample_decision by (auto split: sum.splits)
  from one_decision_per_candidate [OF d] d show ?thesis by auto
qed

section \<open>What a verdict implies\<close>

definition justified ::
  "(baseline_candidate \<Rightarrow> string) \<Rightarrow> arbitration_version \<Rightarrow> (string \<rightharpoonup> instant \<times> string) \<Rightarrow> instant \<Rightarrow>
   baseline_candidate list \<Rightarrow> verdict \<Rightarrow> bool" where
  "justified sha p ls t cs v = (let c = vd_candidate v in
     case vd_reason v of
       None \<Rightarrow> eligible p c \<and> \<not> cooling p t (ls (bc_symbol c)) \<and>
         (\<forall>c' \<in> set cs. bc_symbol c' = bc_symbol c \<longrightarrow> eligible p c' \<longrightarrow> contender_key sha p c \<le> contender_key sha p c')
     | Some UPSTREAM_BLOCKED \<Rightarrow> \<not> is_candidate c
     | Some BELOW_MINIMUM_STRENGTH \<Rightarrow> is_candidate c \<and> bc_strength c < ar_minimum_strength (rule_of p (bc_strategy c))
     | Some SYMBOL_COOLDOWN \<Rightarrow> eligible p c \<and> cooling p t (ls (bc_symbol c)) \<and>
         vd_selected v = map_option snd (ls (bc_symbol c))
     | Some LOWER_STRATEGY_PRIORITY \<Rightarrow> eligible p c \<and> \<not> cooling p t (ls (bc_symbol c)) \<and>
         (\<exists>w \<in> set (chosen sha p ls t cs). bc_symbol (fst w) = bc_symbol c \<and> vd_selected v = Some (sha (fst w)) \<and>
            contender_key sha p (fst w) \<le> contender_key sha p c)
     | Some CLOCK_CAPACITY \<Rightarrow> eligible p c \<and> \<not> cooling p t (ls (bc_symbol c)) \<and>
         length (chosen sha p ls t cs) = av_maximum_selections_per_clock p)"

lemma symbol_round_justified:
  "v \<in> set (fst (symbol_round sha p ls t cs s)) \<Longrightarrow> justified sha p ls t cs v"
  by (auto simp: symbol_round_def justified_def Let_def rejected_def ineligible_verdict_def eligible_def
      split: option.splits if_splits)

lemma in_set_tlD: "x \<in> set (tl xs) \<Longrightarrow> x \<in> set xs"
  by (cases xs) auto

lemma symbol_round_losers:
  assumes "w \<in> set (snd (symbol_round sha p ls t cs s))" "c \<in> set (snd w)"
  shows "c \<in> set cs" "bc_symbol c = s" "eligible p c"
proof -
  let ?con = "filter (eligible p) (filter (\<lambda>c. bc_symbol c = s) cs)"
  let ?ranked = "sort_key (contender_key sha p) ?con"
  have "w = (hd ?ranked, tl ?ranked)"
    using assms(1) by (auto simp: symbol_round_def Let_def split: option.splits if_splits)
  with assms(2) have "c \<in> set (tl ?ranked)" by simp
  then have "c \<in> set ?ranked" by (rule in_set_tlD)
  then have "c \<in> set ?con" by (simp only: set_sort)
  then show "c \<in> set cs" "bc_symbol c = s" "eligible p c" by auto
qed

lemma ordered_losers:
  assumes "w \<in> set (ordered_winners sha p ls t cs)" "c \<in> set (snd w)"
  shows "c \<in> set cs" "bc_symbol c = bc_symbol (fst w)" "eligible p c"
proof -
  obtain s where s: "w \<in> set (snd (symbol_round sha p ls t cs s))"
    using assms by (auto simp: ordered_winners_def clock_rounds_def)
  show "c \<in> set cs" "bc_symbol c = bc_symbol (fst w)" "eligible p c"
    using symbol_round_losers [OF s assms(2)] symbol_round_winner(1) [OF s] by auto
qed

text \<open>The contenders of a symbol, winner first, are distinct.\<close>

lemma ordered_winner_distinct:
  assumes "distinct (map sha cs)" "w \<in> set (ordered_winners sha p ls t cs)"
  shows "distinct (fst w # snd w)"
proof -
  obtain s where s: "w \<in> set (snd (symbol_round sha p ls t cs s))"
    using assms(2) by (auto simp: ordered_winners_def clock_rounds_def)
  let ?con = "filter (eligible p) (filter (\<lambda>c. bc_symbol c = s) cs)"
  let ?ranked = "sort_key (contender_key sha p) ?con"
  have w: "w = (hd ?ranked, tl ?ranked)" and ne: "?con \<noteq> []"
    using s by (auto simp: symbol_round_def Let_def split: option.splits if_splits)
  have "distinct cs" using assms(1) by (simp add: distinct_map)
  then have "distinct ?ranked" by simp
  then show ?thesis unfolding w fst_conv snd_conv sort_key_hd_tl [OF ne] .
qed

lemma enumerate_member: "(i, w) \<in> set (enumerate n ws) \<Longrightarrow> w \<in> set ws"
  by (metis image_eqI map_snd_enumerate set_map snd_conv)

lemma clock_verdict_cases:
  assumes "v \<in> set (clock_verdicts sha p ls t cs)"
  obtains (round) s where "v \<in> set (fst (symbol_round sha p ls t cs s))"
  | (chosen) i w where "w \<in> set (chosen sha p ls t cs)" "v \<in> set (winner_verdicts sha i w)"
  | (capacity) w where "w \<in> set (drop (av_maximum_selections_per_clock p) (ordered_winners sha p ls t cs))"
      "v \<in> set (capacity_verdicts w)"
proof -
  let ?ws = "ordered_winners sha p ls t cs" and ?n = "av_maximum_selections_per_clock p"
  from assms consider "v \<in> set (concat (map fst (clock_rounds sha p ls t cs)))"
    | "v \<in> set (concat (map (\<lambda>(i, w). winner_verdicts sha i w) (enumerate 0 (take ?n ?ws))))"
    | "v \<in> set (concat (map capacity_verdicts (drop ?n ?ws)))"
    unfolding clock_verdicts_def Let_def set_append by blast
  then show thesis
  proof cases
    case 1
    then show thesis by (auto simp: clock_rounds_def intro: round)
  next
    case 2
    then obtain i w where "(i, w) \<in> set (enumerate 0 (take ?n ?ws))" "v \<in> set (winner_verdicts sha i w)"
      by auto
    then show thesis using enumerate_member by (metis chosen chosen_def)
  next
    case 3
    then show thesis using capacity by auto
  qed
qed

lemma clock_verdict_justified:
  assumes "v \<in> set (clock_verdicts sha p ls t cs)"
  shows "justified sha p ls t cs v"
proof -
  let ?ws = "ordered_winners sha p ls t cs" and ?n = "av_maximum_selections_per_clock p"
  from assms show ?thesis
  proof (cases rule: clock_verdict_cases)
    case round
    then show ?thesis by (rule symbol_round_justified)
  next
    case (chosen i w)
    then have w: "w \<in> set ?ws" by (metis chosen_def in_set_takeD)
    from chosen(2) consider "v = selected_verdict i (fst w)"
      | c where "c \<in> set (snd w)" "v = rejected LOWER_STRATEGY_PRIORITY (Some (sha (fst w))) c"
      by (auto simp: winner_verdicts_def)
    then show ?thesis
    proof cases
      case 1
      with ordered_winner [OF w] show ?thesis by (simp add: justified_def selected_verdict_def Let_def)
    next
      case 2
      with chosen(1) ordered_winner [OF w] ordered_losers [OF w 2(1)] show ?thesis
        by (auto simp: justified_def rejected_def Let_def intro!: bexI [of _ w])
    qed
  next
    case (capacity w)
    then have w: "w \<in> set ?ws" by (meson in_set_dropD)
    obtain c where c: "c = fst w \<or> c \<in> set (snd w)" "v = rejected CLOCK_CAPACITY None c"
      using capacity(2) by (auto simp: capacity_verdicts_def)
    have "length (take ?n ?ws) = ?n" using capacity(1) by (cases "?n \<le> length ?ws") auto
    moreover have "eligible p c" "bc_symbol c = bc_symbol (fst w)"
      using c(1) ordered_winner(2) [OF w] ordered_losers(2,3) [OF w] by auto
    ultimately show ?thesis using c(2) ordered_winner(3) [OF w]
      by (simp add: justified_def rejected_def Let_def chosen_def)
  qed
qed

lemma verdicts_of_members:
  assumes "v \<in> set (verdicts_of sha az cs)"
  shows "vd_candidate v \<in> set cs"
    "justified sha (az_policy az) (az_last_selected az) (bc_decision_at (hd cs)) cs v"
proof -
  have "vd_candidate v \<in> set (map vd_candidate (verdicts_of sha az cs))" using assms by simp
  then show "vd_candidate v \<in> set cs" by (metis clock_verdicts_mset set_mset_mset verdicts_of_def)
  show "justified sha (az_policy az) (az_last_selected az) (bc_decision_at (hd cs)) cs v"
    using assms unfolding verdicts_of_def by (rule clock_verdict_justified)
qed

section \<open>The prescribed verdicts\<close>

text \<open>
  What the policy prescribes for a candidate, without sorting: a candidate leads when it is the best contender of its symbol
  outside cooldown, its rank among the leaders of the clock is the number of leaders before it, and the first leaders up to
  the capacity of the clock are selected, numbered by rank.
\<close>

definition prefers :: "(baseline_candidate \<Rightarrow> string) \<Rightarrow> arbitration_version \<Rightarrow> baseline_candidate \<Rightarrow> baseline_candidate \<Rightarrow> bool" where
  "prefers sha p c c' \<longleftrightarrow> (let n = ar_priority (rule_of p (bc_strategy c)); n' = ar_priority (rule_of p (bc_strategy c'));
       s = dneg (bc_strength c); s' = dneg (bc_strength c')
     in n < n' \<or> n = n' \<and> (s < s' \<or> s = s' \<and> sha c \<le> sha c'))"

definition outranks :: "(baseline_candidate \<Rightarrow> string) \<Rightarrow> arbitration_version \<Rightarrow> baseline_candidate \<Rightarrow> baseline_candidate \<Rightarrow> bool" where
  "outranks sha p c c' \<longleftrightarrow> (let n = ar_priority (rule_of p (bc_strategy c)); n' = ar_priority (rule_of p (bc_strategy c'));
       s = dneg (bc_strength c); s' = dneg (bc_strength c')
     in n < n' \<or> n = n' \<and> (s < s' \<or> s = s' \<and> (bc_symbol c < bc_symbol c' \<or> bc_symbol c = bc_symbol c' \<and> sha c < sha c')))"

definition acceptable :: "arbitration_version \<Rightarrow> baseline_candidate \<Rightarrow> bool" where
  "acceptable p c \<longleftrightarrow> is_candidate c \<and> ar_minimum_strength (rule_of p (bc_strategy c)) \<le> bc_strength c"

definition cools :: "arbitration_version \<Rightarrow> (string \<rightharpoonup> instant \<times> string) \<Rightarrow> instant \<Rightarrow> string \<Rightarrow> bool" where
  "cools p ls t symbol \<longleftrightarrow> (\<exists>s h. ls symbol = Some (s, h) \<and> t < s + av_cooldown_seconds p * second_us)"

definition leads ::
  "(baseline_candidate \<Rightarrow> string) \<Rightarrow> arbitration_version \<Rightarrow> (string \<rightharpoonup> instant \<times> string) \<Rightarrow> instant \<Rightarrow>
   baseline_candidate list \<Rightarrow> baseline_candidate \<Rightarrow> bool" where
  "leads sha p ls t cs c \<longleftrightarrow> acceptable p c \<and> \<not> cools p ls t (bc_symbol c) \<and>
     list_all (\<lambda>c'. bc_symbol c' = bc_symbol c \<and> acceptable p c' \<longrightarrow> prefers sha p c c') cs"

definition clock_rank ::
  "(baseline_candidate \<Rightarrow> string) \<Rightarrow> arbitration_version \<Rightarrow> (string \<rightharpoonup> instant \<times> string) \<Rightarrow> instant \<Rightarrow>
   baseline_candidate list \<Rightarrow> baseline_candidate \<Rightarrow> nat" where
  "clock_rank sha p ls t cs c = length (filter (\<lambda>c'. leads sha p ls t cs c' \<and> outranks sha p c' c) cs)"

text \<open>The prescribed reason, priority and selected hash of a candidate; no reason is a selection.\<close>

definition prescribed ::
  "(baseline_candidate \<Rightarrow> string) \<Rightarrow> arbitration_version \<Rightarrow> (string \<rightharpoonup> instant \<times> string) \<Rightarrow> instant \<Rightarrow>
   baseline_candidate list \<Rightarrow> baseline_candidate \<Rightarrow> rejection_reason option \<times> nat option \<times> string option" where
  "prescribed sha p ls t cs c =
     (if \<not> is_candidate c then (Some UPSTREAM_BLOCKED, None, None)
      else if \<not> acceptable p c then (Some BELOW_MINIMUM_STRENGTH, None, None)
      else if cools p ls t (bc_symbol c) then (Some SYMBOL_COOLDOWN, None, map_option snd (ls (bc_symbol c)))
      else (case find (\<lambda>w. bc_symbol w = bc_symbol c \<and> leads sha p ls t cs w) cs of
          None \<Rightarrow> (Some CLOCK_CAPACITY, None, None)
        | Some w \<Rightarrow>
            if av_maximum_selections_per_clock p \<le> clock_rank sha p ls t cs w then (Some CLOCK_CAPACITY, None, None)
            else if c = w then (None, Some (clock_rank sha p ls t cs w), Some (sha c))
            else (Some LOWER_STRATEGY_PRIORITY, None, Some (sha w))))"

text \<open>The sort keys of the code compute these orders.\<close>

lemma prefers_key: "prefers sha p c c' \<longleftrightarrow> contender_key sha p c \<le> contender_key sha p c'"
  by (auto simp: prefers_def contender_key_def Let_def less_eq_prod_def less_prod_def)

lemma outranks_key: "outranks sha p c c' \<longleftrightarrow> winner_key sha p c < winner_key sha p c'"
  by (auto simp: outranks_def winner_key_def Let_def less_eq_prod_def less_prod_def)

lemma acceptable_eligible: "acceptable p c \<longleftrightarrow> eligible p c"
  by (auto simp: acceptable_def eligible_def)

lemma cools_cooling: "cools p ls t symbol \<longleftrightarrow> cooling p t (ls symbol)"
  by (auto simp: cools_def cooling_def split: option.splits)

lemma leads_key: "leads sha p ls t cs c \<longleftrightarrow> eligible p c \<and> \<not> cooling p t (ls (bc_symbol c)) \<and>
     list_all (\<lambda>c'. bc_symbol c' = bc_symbol c \<and> eligible p c' \<longrightarrow> contender_key sha p c \<le> contender_key sha p c') cs"
  by (simp add: leads_def prefers_key acceptable_eligible cools_cooling)

lemma clock_rank_key: "clock_rank sha p ls t cs c =
    length (filter (\<lambda>c'. leads sha p ls t cs c' \<and> winner_key sha p c' < winner_key sha p c) cs)"
  by (simp add: clock_rank_def outranks_key)

definition prescribed_verdict ::
  "(baseline_candidate \<Rightarrow> string) \<Rightarrow> arbitration_version \<Rightarrow> (string \<rightharpoonup> instant \<times> string) \<Rightarrow> instant \<Rightarrow>
   baseline_candidate list \<Rightarrow> baseline_candidate \<Rightarrow> verdict" where
  "prescribed_verdict sha p ls t cs c =
     (if \<not> is_candidate c then rejected UPSTREAM_BLOCKED None c
      else if bc_strength c < ar_minimum_strength (rule_of p (bc_strategy c)) then rejected BELOW_MINIMUM_STRENGTH None c
      else if cooling p t (ls (bc_symbol c)) then rejected SYMBOL_COOLDOWN (map_option snd (ls (bc_symbol c))) c
      else (case find (\<lambda>w. bc_symbol w = bc_symbol c \<and> leads sha p ls t cs w) cs of
          None \<Rightarrow> rejected CLOCK_CAPACITY None c
        | Some w \<Rightarrow>
            if av_maximum_selections_per_clock p \<le> clock_rank sha p ls t cs w then rejected CLOCK_CAPACITY None c
            else if c = w then selected_verdict (clock_rank sha p ls t cs w) c
            else rejected LOWER_STRATEGY_PRIORITY (Some (sha w)) c))"

lemma leads_unique:
  assumes "inj_on sha (set cs)" "leads sha p ls t cs c" "leads sha p ls t cs c'" "c \<in> set cs" "c' \<in> set cs" "bc_symbol c = bc_symbol c'"
  shows "c = c'"
proof -
  have "contender_key sha p c = contender_key sha p c'"
    using assms by (intro antisym) (auto simp: leads_key list_all_iff)
  then have "sha c = sha c'" by (simp add: contender_key_def)
  then show ?thesis using assms(1,4,5) by (auto dest: inj_onD)
qed

lemma leads_found:
  assumes "inj_on sha (set cs)" "leads sha p ls t cs w" "w \<in> set cs" "bc_symbol w = symbol"
  shows "find (\<lambda>w. bc_symbol w = symbol \<and> leads sha p ls t cs w) cs = Some w"
proof (cases "find (\<lambda>w. bc_symbol w = symbol \<and> leads sha p ls t cs w) cs")
  case None
  then show ?thesis using assms(2-4) by (auto simp: find_None_iff)
next
  case (Some w')
  then have "w' \<in> set cs" "bc_symbol w' = symbol" "leads sha p ls t cs w'"
    by (auto simp: find_Some_iff) 
  then have "w' = w" using leads_unique [OF assms(1) _ assms(2) _ assms(3)] assms(4) by simp
  then show ?thesis using Some by simp
qed

lemma ordered_winner_leads: "w \<in> set (ordered_winners sha p ls t cs) \<Longrightarrow> leads sha p ls t cs (fst w) \<and> fst w \<in> set cs"
  by (auto simp: leads_key list_all_iff ordered_winner)

lemma leads_ordered_winner:
  assumes "inj_on sha (set cs)" "leads sha p ls t cs c" "c \<in> set cs"
  shows "c \<in> fst ` set (ordered_winners sha p ls t cs)"
proof -
  let ?s = "bc_symbol c"
  let ?con = "filter (eligible p) (filter (\<lambda>c. bc_symbol c = ?s) cs)"
  have "c \<in> set ?con" using assms(2,3) by (auto simp: leads_key)
  then have ne: "?con \<noteq> []" by (metis empty_iff list.set(1))
  moreover have "\<not> cooling p t (ls ?s)" using assms(2) by (simp add: leads_key)
  ultimately have "\<exists>w. w \<in> set (snd (symbol_round sha p ls t cs ?s))"
    by (auto simp: symbol_round_def Let_def cooling_def split: option.splits)
  then obtain w where w: "w \<in> set (snd (symbol_round sha p ls t cs ?s))" by blast
  have "?s \<in> set (sorted_set (map bc_symbol cs))" using assms(3) by (simp add: sorted_set_def)
  then have member: "w \<in> set (ordered_winners sha p ls t cs)"
    using w by (force simp: ordered_winners_def clock_rounds_def)
  have "fst w = c"
    using ordered_winner_leads [OF member] symbol_round_winner(1) [OF w] assms by (intro leads_unique [OF assms(1)]) auto
  then show ?thesis using member by force
qed

lemma count_below:
  fixes ks :: "'a :: linorder list"
  assumes "sorted_wrt (<) ks" "i < length ks"
  shows "card {k \<in> set ks. k < ks ! i} = i"
proof -
  have "ks ! j < ks ! i \<longleftrightarrow> j < i" if "j < length ks" for j
    using sorted_wrt_nth_less [OF assms(1), of j i] sorted_wrt_nth_less [OF assms(1), of i j] that assms(2)
    by (metis linorder_less_linear order_less_asym order_less_irrefl)
  then have "{k \<in> set ks. k < ks ! i} = (\<lambda>j. ks ! j) ` {..<i}"
    using assms(2) by (auto simp: set_conv_nth)
  moreover have "inj_on (\<lambda>j. ks ! j) {..<i}"
    using assms by (auto simp: inj_on_def) (metis (no_types, lifting) order_less_irrefl linorder_less_linear order_less_trans sorted_wrt_nth_less)
  ultimately show ?thesis by (simp add: card_image)
qed

lemma clock_rank_of_winner:
  assumes "distinct (map sha cs)" "i < length (ordered_winners sha p ls t cs)"
  shows "clock_rank sha p ls t cs (fst (ordered_winners sha p ls t cs ! i)) = i"
proof -
  let ?ws = "ordered_winners sha p ls t cs" and ?key = "winner_key sha p"
  let ?ks = "map (?key \<circ> fst) ?ws"
  have inj: "inj_on sha (set cs)" and distinct: "distinct cs" using assms(1) by (auto simp: distinct_map)
  have "sorted ?ks" by (simp add: ordered_winners_def comp_def)
  moreover have "distinct ?ks"
  proof -
    have "inj_on (bc_symbol \<circ> fst) (set ?ws)" using ordered_winners_distinct by (simp add: distinct_map)
    then have "inj_on (?key \<circ> fst) (set ?ws)" by (auto simp: inj_on_def winner_key_def)
    moreover have "distinct ?ws" using ordered_winners_distinct by (auto simp: distinct_map)
    ultimately show ?thesis by (simp add: distinct_map)
  qed
  ultimately have strict: "sorted_wrt (<) ?ks" by (simp add: strict_sorted_iff)
  have leaders: "{c \<in> set cs. leads sha p ls t cs c} = fst ` set ?ws"
    using leads_ordered_winner [OF inj] ordered_winner_leads by fast
  have "clock_rank sha p ls t cs (fst (?ws ! i)) = card {c \<in> set cs. leads sha p ls t cs c \<and> ?key c < ?key (fst (?ws ! i))}"
    using distinct by (simp add: clock_rank_key distinct_length_filter Int_def conj_commute)
  also have "{c \<in> set cs. leads sha p ls t cs c \<and> ?key c < ?key (fst (?ws ! i))} = {c \<in> fst ` set ?ws. ?key c < ?key (fst (?ws ! i))}"
    unfolding leaders [symmetric] by auto
  also have "card \<dots> = card (?key ` {c \<in> fst ` set ?ws. ?key c < ?key (fst (?ws ! i))})"
  proof (rule card_image [symmetric])
    have "inj_on ?key (set cs)" using inj by (auto simp: inj_on_def winner_key_def)
    then show "inj_on ?key {c \<in> fst ` set ?ws. ?key c < ?key (fst (?ws ! i))}"
      unfolding leaders [symmetric] by (rule inj_on_subset) auto
  qed
  also have "?key ` {c \<in> fst ` set ?ws. ?key c < ?key (fst (?ws ! i))} = {k \<in> set ?ks. k < ?ks ! i}"
    using assms(2) by force
  also have "card \<dots> = i" using count_below [OF strict] assms(2) by simp
  finally show ?thesis .
qed

lemma symbol_round_prescribed:
  assumes "v \<in> set (fst (symbol_round sha p ls t cs s))"
  shows "v = prescribed_verdict sha p ls t cs (vd_candidate v)"
  using assms
  by (auto simp: symbol_round_def prescribed_verdict_def Let_def ineligible_verdict_def rejected_def eligible_def
      split: option.splits if_splits)

lemma enumerate_nth: "(i, w) \<in> set (enumerate 0 ws) \<longleftrightarrow> i < length ws \<and> w = ws ! i"
  by (auto simp: in_set_enumerate_eq)

lemma clock_verdict_prescribed:
  assumes "distinct (map sha cs)" "v \<in> set (clock_verdicts sha p ls t cs)"
  shows "v = prescribed_verdict sha p ls t cs (vd_candidate v)"
proof -
  let ?ws = "ordered_winners sha p ls t cs" and ?n = "av_maximum_selections_per_clock p"
  have inj: "inj_on sha (set cs)" using assms(1) by (simp add: distinct_map)
  have winner: "prescribed_verdict sha p ls t cs c =
      (if ?n \<le> i then rejected CLOCK_CAPACITY None c else if c = fst (?ws ! i) then selected_verdict i c
       else rejected LOWER_STRATEGY_PRIORITY (Some (sha (fst (?ws ! i)))) c)"
    if i: "i < length ?ws" and c: "c \<in> set (fst (?ws ! i) # snd (?ws ! i))" for i c
  proof -
    have w: "?ws ! i \<in> set ?ws" using i by simp
    have leader: "leads sha p ls t cs (fst (?ws ! i))" "fst (?ws ! i) \<in> set cs" using ordered_winner_leads [OF w] by auto
    have "eligible p c" "bc_symbol c = bc_symbol (fst (?ws ! i))" using c ordered_winner(2) [OF w] ordered_losers(2,3) [OF w] by auto
    then have "is_candidate c" "\<not> bc_strength c < ar_minimum_strength (rule_of p (bc_strategy c))" "\<not> cooling p t (ls (bc_symbol c))"
        "find (\<lambda>w. bc_symbol w = bc_symbol c \<and> leads sha p ls t cs w) cs = Some (fst (?ws ! i))"
      using leader leads_found [OF inj leader] by (auto simp: eligible_def leads_key)
    then show ?thesis using clock_rank_of_winner [OF assms(1) i] by (simp add: prescribed_verdict_def)
  qed
  consider (round) "v \<in> set (concat (map fst (clock_rounds sha p ls t cs)))"
    | (chosen) i where "i < length (take ?n ?ws)" "v \<in> set (winner_verdicts sha i (take ?n ?ws ! i))"
    | (capacity) j where "j < length (drop ?n ?ws)" "v \<in> set (capacity_verdicts (drop ?n ?ws ! j))"
    using assms(2) unfolding clock_verdicts_def Let_def by (auto simp: enumerate_nth in_set_conv_nth [of _ "drop ?n ?ws"])
  then show ?thesis
  proof cases
    case round
    then show ?thesis using symbol_round_prescribed by (auto simp: clock_rounds_def)
  next
    case chosen
    then have i: "i < length ?ws" "i < ?n" "take ?n ?ws ! i = ?ws ! i" by auto
    have "distinct (fst (?ws ! i) # snd (?ws ! i))"
      using ordered_winner_distinct [OF assms(1), of "?ws ! i" p ls t] i(1) by (metis nth_mem)
    then show ?thesis using chosen(2) winner [OF i(1)] i(2,3) by (auto simp: winner_verdicts_def)
  next
    case capacity
    then have "?n + j < length ?ws" "drop ?n ?ws ! j = ?ws ! (?n + j)" by auto
    then show ?thesis using capacity(2) winner [of "?n + j"] by (auto simp: capacity_verdicts_def)
  qed
qed

lemma prescribed_verdict_fields:
  "prescribed sha p ls t cs c = (let v = prescribed_verdict sha p ls t cs c in
     (vd_reason v, vd_priority v, if vd_reason v = None then Some (sha c) else vd_selected v))"
  by (auto simp: prescribed_def prescribed_verdict_def Let_def rejected_def selected_verdict_def acceptable_def cools_cooling not_le
      split: option.split)

text \<open>C32: every record a decision clock returns is the one the policy prescribes for its candidate. The record names a candidate
  of the clock with its symbol, strategy, instant and the horizon of its rule; it is blocked or below the minimum strength when
  the candidate is not acceptable, in cooldown with the earlier selection while its symbol cools, and otherwise decided by the leader
  of its symbol, the contender preferred by rule priority, strength and hash. A leader is selected, with its rank as priority, exactly
  when its rank among all leaders of the clock, by rule priority, strength, symbol and hash, is below the capacity; the other contenders of
  its symbol are rejected naming it; all contenders of a later leader are rejected for capacity.\<close>

theorem decisions_justified:
  assumes "decide sha psha az cs = Inr (az', out)" and "d \<in> set out"
  shows "\<exists>c \<in> set cs. ca_candidate_sha256 d = sha c \<and> ca_symbol d = bc_symbol c \<and> ca_strategy d = bc_strategy c \<and>
    ca_decision_at d = bc_decision_at c \<and> ca_horizon_seconds d = ar_horizon_seconds (rule_of (az_policy az) (bc_strategy c)) \<and>
    (ca_status d = SELECTED \<longleftrightarrow> ca_rejection_reason d = None) \<and>
    (ca_rejection_reason d, ca_priority d, ca_selected_candidate_sha256 d) =
      prescribed sha (az_policy az) (az_last_selected az) (bc_decision_at (hd cs)) cs c"
proof -
  obtain v where v: "v \<in> set (verdicts_of sha az cs)" "arbitration_result sha (psha (az_policy az)) (az_policy az) v = Inr d"
    using decide_entry(1) [OF assms] by blast
  have "distinct (map sha cs)" using assms(1) by (simp add: decide_split decide_guard_def)
  then have prescribed: "v = prescribed_verdict sha (az_policy az) (az_last_selected az) (bc_decision_at (hd cs)) cs (vd_candidate v)"
    using v(1) unfolding verdicts_of_def by (rule clock_verdict_prescribed)
  show ?thesis using verdicts_of_members(1) [OF v(1)] arbitration_result_fields [OF v(2)]
    by (intro bexI [of _ "vd_candidate v"]) (simp_all add: prescribed_verdict_fields Let_def flip: prescribed)
qed

theorem decisions_justified_witness:
  "\<exists>az' d. decide sample_sha sample_policy_sha sample_az sample_clock = Inr (az', d) \<and>
     (\<exists>c \<in> set sample_clock. ca_candidate_sha256 (hd d) = sample_sha c \<and>
       (ca_rejection_reason (hd d), ca_priority (hd d), ca_selected_candidate_sha256 (hd d)) =
         prescribed sample_sha (sample_arbitration None) Map.empty 0 sample_clock c)"
proof -
  obtain az' out where d: "decide sample_sha sample_policy_sha sample_az sample_clock = Inr (az', out)"
    and m: "map (\<lambda>d. (ca_symbol d, ca_status d, ca_rejection_reason d, ca_priority d)) out =
       [(''VHM'', SELECTED, None, Some 0), (''VIC'', REJECTED_ARBITRATION, Some CLOCK_CAPACITY, None)]"
    using sample_decision by (auto split: sum.splits)
  from m have "hd out \<in> set out" by (cases out) auto
  from decisions_justified [OF d this]
  have "\<exists>c \<in> set sample_clock. ca_candidate_sha256 (hd out) = sample_sha c \<and>
       (ca_rejection_reason (hd out), ca_priority (hd out), ca_selected_candidate_sha256 (hd out)) =
         prescribed sample_sha (sample_arbitration None) Map.empty 0 sample_clock c"
    by (simp add: new_arbitrator_def sample_candidate_def) blast
  with d show ?thesis by blast
qed

text \<open>A selected record and the candidate it names pass the lineage check that simulation and paper execution
  repeat before they act on the selection.\<close>

theorem selected_passes_lineage_check:
  assumes "decide sha psha az cs = Inr (az', out)" and "d \<in> set out" and "ca_status d = SELECTED"
  shows "\<exists>c \<in> set cs. require_selected_candidate sha c d = Inr ()"
proof -
  obtain v where v: "v \<in> set (verdicts_of sha az cs)"
    and r: "arbitration_result sha (psha (az_policy az)) (az_policy az) v = Inr d"
    using decide_entry(1) [OF assms(1,2)] by blast
  note f = arbitration_result_fields [OF r]
  have "is_candidate (vd_candidate v)"
    using verdicts_of_members(2) [OF v] assms(3) f(3) by (auto simp: justified_def Let_def eligible_def)
  then have "require_selected_candidate sha (vd_candidate v) d = Inr ()"
    using assms(3) f by (simp add: require_selected_candidate_def)
  with verdicts_of_members(1) [OF v] show ?thesis by blast
qed

theorem selected_passes_lineage_check_witness:
  "\<exists>az' d. decide sample_sha sample_policy_sha sample_az sample_clock = Inr (az', d) \<and>
     (\<exists>c \<in> set sample_clock. require_selected_candidate sample_sha c (hd d) = Inr ())"
proof -
  obtain az' out where d: "decide sample_sha sample_policy_sha sample_az sample_clock = Inr (az', out)"
    and m: "map (\<lambda>d. (ca_symbol d, ca_status d, ca_rejection_reason d, ca_priority d)) out =
       [(''VHM'', SELECTED, None, Some 0), (''VIC'', REJECTED_ARBITRATION, Some CLOCK_CAPACITY, None)]"
    using sample_decision by (auto split: sum.splits)
  from m have "hd out \<in> set out" "ca_status (hd out) = SELECTED" by (cases out; auto)+
  from selected_passes_lineage_check [OF d this] d show ?thesis by blast
qed

section \<open>Cooldown across decision clocks\<close>

lemma record_selected_time:
  "map_option fst (record_selected sha t ws m s) =
   (if s \<in> bc_symbol ` fst ` set ws then Some t else map_option fst (m s))"
proof -
  have "map_option fst (foldl (\<lambda>m w. m(bc_symbol (fst w) \<mapsto> (t, sha (fst w)))) m ws s) =
      (if s \<in> bc_symbol ` fst ` set ws then Some t else map_option fst (m s))" for m
    by (induction ws arbitrary: m) auto
  then show ?thesis by (simp add: record_selected_def)
qed

definition spaced :: "int \<Rightarrow> candidate_arbitration \<Rightarrow> candidate_arbitration \<Rightarrow> bool" where
  "spaced cooldown d d' \<longleftrightarrow> (ca_symbol d = ca_symbol d' \<longrightarrow> ca_decision_at d + cooldown * second_us \<le> ca_decision_at d')"

abbreviation selections :: "candidate_arbitration list \<Rightarrow> candidate_arbitration list" where
  "selections out \<equiv> filter (\<lambda>d. ca_status d = SELECTED) out"

lemma decide_selection_count:
  assumes "decide sha psha az cs = Inr (az', out)"
  shows "length (selections out) \<le> av_maximum_selections_per_clock (az_policy az)"
    "mset (map ca_priority (selections out)) = mset (map Some [0..<length (selections out)])"
proof -
  let ?ch = "chosen sha (az_policy az) (az_last_selected az) (bc_decision_at (hd cs)) cs"
  let ?pairs = "map (\<lambda>(i, w). (bc_symbol (fst w), Some i)) (enumerate 0 ?ch)"
  have eq: "mset (map (\<lambda>d. (ca_symbol d, ca_priority d)) (selections out)) = mset ?pairs"
    using decide_selected [OF assms] by simp
  then have "length (map (\<lambda>d. (ca_symbol d, ca_priority d)) (selections out)) = length ?pairs" by (rule mset_eq_length)
  then have len: "length (selections out) = length ?ch" by (simp only: length_map length_enumerate)
  then show "length (selections out) \<le> av_maximum_selections_per_clock (az_policy az)" by (simp add: chosen_def)
  have "mset (map snd (map (\<lambda>d. (ca_symbol d, ca_priority d)) (selections out))) = mset (map snd ?pairs)"
    using eq by (simp only: mset_map)
  then show "mset (map ca_priority (selections out)) = mset (map Some [0..<length (selections out)])"
    by (simp add: case_prod_beta o_def len map_enumerate(2) [where g = Some])
qed

lemma decide_selections:
  assumes "decide sha psha az cs = Inr (az', out)"
  shows "distinct (map ca_symbol (selections out))"
    "d \<in> set (selections out) \<Longrightarrow> ca_decision_at d = bc_decision_at (hd cs)"
    "d \<in> set (selections out) \<Longrightarrow> \<not> cooling (az_policy az) (bc_decision_at (hd cs)) (az_last_selected az (ca_symbol d))"
    "map_option fst (az_last_selected az' s) =
       (if s \<in> ca_symbol ` set (selections out) then Some (bc_decision_at (hd cs)) else map_option fst (az_last_selected az s))"
    "az_policy az' = az_policy az"
proof -
  let ?ch = "chosen sha (az_policy az) (az_last_selected az) (bc_decision_at (hd cs)) cs"
  have eq: "mset (map (\<lambda>d. (ca_symbol d, ca_priority d)) (selections out)) =
      mset (map (\<lambda>(i, w). (bc_symbol (fst w), Some i)) (enumerate 0 ?ch))"
    using decide_selected [OF assms] by simp
  have "mset (map fst (map (\<lambda>d. (ca_symbol d, ca_priority d)) (selections out))) =
      mset (map fst (map (\<lambda>(i, w). (bc_symbol (fst w), Some i)) (enumerate 0 ?ch)))"
    using eq by (simp only: mset_map)
  then have syms: "mset (map ca_symbol (selections out)) = mset (map (bc_symbol \<circ> fst) ?ch)"
    by (simp add: case_prod_beta map_enumerate(1) [where f = "\<lambda>w. bc_symbol (fst w)"] o_def)
  have "distinct (map (bc_symbol \<circ> fst) ?ch)"
    unfolding chosen_def take_map [symmetric] by (intro distinct_take ordered_winners_distinct)
  with syms show "distinct (map ca_symbol (selections out))" by (metis mset_eq_imp_distinct_iff)
  from syms have img: "ca_symbol ` set (selections out) = bc_symbol ` fst ` set ?ch"
    by (metis image_comp set_map set_mset_mset)
  obtain ds where last: "az_last_selected az' = record_selected sha (bc_decision_at (hd cs)) ?ch (az_last_selected az)"
    and pol: "az_policy az' = az_policy az" and guard: "decide_guard sha az cs"
    using assms by (rule decide_shape)
  show "az_policy az' = az_policy az" by (fact pol)
  show "map_option fst (az_last_selected az' s) =
       (if s \<in> ca_symbol ` set (selections out) then Some (bc_decision_at (hd cs)) else map_option fst (az_last_selected az s))"
    unfolding last record_selected_time img ..
  assume "d \<in> set (selections out)"
  then have d: "d \<in> set out" "ca_status d = SELECTED" by auto
  obtain v where v: "v \<in> set (verdicts_of sha az cs)"
    and r: "arbitration_result sha (psha (az_policy az)) (az_policy az) v = Inr d"
    using decide_entry(1) [OF assms d(1)] by blast
  note f = arbitration_result_fields [OF r]
  have "candidate_clock (vd_candidate v) = candidate_clock (hd cs)"
    using guard verdicts_of_members(1) [OF v] unfolding decide_guard_def by blast
  then show "ca_decision_at d = bc_decision_at (hd cs)" using f(6) by (simp add: candidate_clock_def)
  show "\<not> cooling (az_policy az) (bc_decision_at (hd cs)) (az_last_selected az (ca_symbol d))"
    using verdicts_of_members(2) [OF v] d(2) f(2,3) by (auto simp: justified_def Let_def)
qed

text \<open>a decision clock selects at most \<^verbatim>\<open>maximum_selections_per_clock\<close> candidates, at most one per symbol,
  and numbers the selections from zero without a gap.\<close>

theorem selection_limits:
  assumes "decide sha psha az cs = Inr (az', out)"
  shows "length (selections out) \<le> av_maximum_selections_per_clock (az_policy az) \<and>
    distinct (map ca_symbol (selections out)) \<and>
    mset (map ca_priority (selections out)) = mset (map Some [0..<length (selections out)])"
  using decide_selections(1) [OF assms] decide_selection_count [OF assms] by blast

theorem selection_limits_witness:
  "\<exists>az' out. decide sample_sha sample_policy_sha sample_az sample_clock = Inr (az', out) \<and>
     length (selections out) \<le> 1"
proof -
  obtain az' out where d: "decide sample_sha sample_policy_sha sample_az sample_clock = Inr (az', out)"
    using sample_decision by (auto split: sum.splits)
  from selection_limits [OF d] d show ?thesis by (auto simp: new_arbitrator_def sample_arbitration_def)
qed

lemma decide_clocks_spaced:
  assumes "0 \<le> av_cooldown_seconds (az_policy az)"
  shows "decide_clocks sha psha cs az ks = Inr (az'', out) \<Longrightarrow>
     sorted_wrt (spaced (av_cooldown_seconds (az_policy az))) (selections out) \<and>
     (\<forall>d \<in> set (selections out). \<forall>u. map_option fst (az_last_selected az (ca_symbol d)) = Some u \<longrightarrow>
        u + av_cooldown_seconds (az_policy az) * second_us \<le> ca_decision_at d)"
  using assms
proof (induction ks arbitrary: az out)
  case (Cons k ks)
  let ?cs = "filter (\<lambda>c. candidate_clock c = k) cs" and ?cool = "av_cooldown_seconds (az_policy az)"
  obtain az' ds rest where d: "decide sha psha az ?cs = Inr (az', ds)"
    and rest: "decide_clocks sha psha cs az' ks = Inr (az'', rest)" and out: "out = ds @ rest"
    using Cons.prems(1) by (auto simp: rbind_eq_Inr)
  note sel = decide_selections [OF d]
  have IH: "sorted_wrt (spaced ?cool) (selections rest)"
    "\<And>e u. e \<in> set (selections rest) \<Longrightarrow> map_option fst (az_last_selected az' (ca_symbol e)) = Some u \<Longrightarrow>
        u + ?cool * second_us \<le> ca_decision_at e"
    using Cons.IH [OF rest] Cons.prems(2) sel(5) by auto
  have head: "sorted_wrt (spaced ?cool) (selections ds)"
    using sel(1) by (auto simp: spaced_def sorted_wrt_iff_nth_less distinct_conv_nth)
  have cross: "spaced ?cool e e'" if "e \<in> set (selections ds)" "e' \<in> set (selections rest)" for e e'
  proof -
    have "map_option fst (az_last_selected az' (ca_symbol e)) = Some (ca_decision_at e)"
      using sel(2,4) that(1) by simp
    then show ?thesis using IH(2) [OF that(2)] by (auto simp: spaced_def)
  qed
  have prev: "u + ?cool * second_us \<le> ca_decision_at e"
    if "e \<in> set (selections ds @ selections rest)" and u: "map_option fst (az_last_selected az (ca_symbol e)) = Some u" for e u
  proof (cases "ca_symbol e \<in> ca_symbol ` set (selections ds)")
    case True
    then obtain e0 where e0: "e0 \<in> set (selections ds)" "ca_symbol e0 = ca_symbol e" by auto
    have "u + ?cool * second_us \<le> ca_decision_at e0"
      using sel(2,3) [OF e0(1)] u e0(2) by (auto simp: map_option_case cooling_def split: option.splits)
    moreover have "ca_decision_at e0 + ?cool * second_us \<le> ca_decision_at e" if "e \<in> set (selections rest)"
      using cross [OF e0(1) that] e0(2) by (simp add: spaced_def)
    then have "ca_decision_at e0 \<le> ca_decision_at e"
      using that(1) sel(2) [OF e0(1)] sel(2) [of e] Cons.prems(2) by fastforce
    ultimately show ?thesis by simp
  next
    case False
    then show ?thesis using that IH(2) [of e u] sel(4) [of "ca_symbol e"] by auto
  qed
  show ?case unfolding out filter_append using head IH(1) cross prev by (auto simp: sorted_wrt_append)
qed simp

lemma decide_clocks_horizon:
  "decide_clocks sha psha cs az ks = Inr (az'', out) \<Longrightarrow> d \<in> set out \<Longrightarrow>
   \<exists>r \<in> set (av_rules (az_policy az)). ca_horizon_seconds d = ar_horizon_seconds r"
proof (induction ks arbitrary: az out)
  case (Cons k ks)
  obtain az' ds rest where de: "decide sha psha az (filter (\<lambda>c. candidate_clock c = k) cs) = Inr (az', ds)"
    and rest: "decide_clocks sha psha cs az' ks = Inr (az'', rest)" and out: "out = ds @ rest"
    using Cons.prems(1) by (auto simp: rbind_eq_Inr)
  show ?case
  proof (cases "d \<in> set ds")
    case True
    then obtain v where "arbitration_result sha (psha (az_policy az)) (az_policy az) v = Inr d"
      using decide_entry(1) [OF de] by blast
    from arbitration_result_fields(7,13) [OF this] show ?thesis by (auto dest!: find_rule_SomeD)
  next
    case False
    then show ?thesis using Cons.IH [OF rest] Cons.prems(2) out decide_selections(5) [OF de] by auto
  qed
qed simp

text \<open>C31: under a validated policy the outcome windows of two selections of the same symbol never overlap, over a whole
  replay: the later selection is made no earlier than the end of the horizon of the earlier one.\<close>

theorem selected_horizons_disjoint:
  assumes "CandidateArbitrationVersion policy = Inr policy"
    and "arbitrate_candidates sha psha cs policy = Inr out"
  shows "sorted_wrt (\<lambda>d d'. ca_symbol d = ca_symbol d' \<longrightarrow>
    ca_decision_at d + ca_horizon_seconds d * second_us \<le> ca_decision_at d') (selections out)"
proof -
  obtain az where run: "decide_clocks sha psha cs (new_arbitrator policy) (sorted_set (map candidate_clock cs)) = Inr (az, out)"
    using assms(2) by (auto simp: arbitrate_candidates_def rbind_eq_Inr split: if_splits)
  have pol: "0 \<le> av_cooldown_seconds policy" "\<forall>r \<in> set (av_rules policy). ar_horizon_seconds r \<le> av_cooldown_seconds policy"
    using assms(1) by (auto simp: CandidateArbitrationVersion_def not_less split: if_splits)
  have "sorted_wrt (spaced (av_cooldown_seconds policy)) (selections out)"
    using decide_clocks_spaced [OF _ run] pol(1) by (simp add: new_arbitrator_def)
  moreover have "ca_horizon_seconds d \<le> av_cooldown_seconds policy" if "d \<in> set out" for d
    using decide_clocks_horizon [OF run that] pol(2) by (auto simp: new_arbitrator_def)
  ultimately show ?thesis
    by (rule_tac sorted_wrt_mono_rel [of _ "spaced (av_cooldown_seconds policy)"]) (fastforce simp: spaced_def)+
qed

theorem selected_horizons_disjoint_witness:
  "\<exists>out. arbitrate_candidates sample_sha sample_policy_sha
       [sample_candidate ''VIC'' 0 1, sample_candidate ''VIC'' (300 * second_us) 1, sample_candidate ''VIC'' (700 * second_us) 1]
       (sample_arbitration None) = Inr out \<and>
     map ca_decision_at (selections out) = [0, 700 * second_us] \<and>
     sorted_wrt (\<lambda>d d'. ca_symbol d = ca_symbol d' \<longrightarrow>
       ca_decision_at d + ca_horizon_seconds d * second_us \<le> ca_decision_at d') (selections out)"
proof -
  have valid: "CandidateArbitrationVersion (sample_arbitration None) = Inr (sample_arbitration None)"
    by (simp add: sample_arbitration_def CandidateArbitrationVersion_def valid_effective_version_def valid_interval_def
        valid_arbitration_rule_def is_version_def is_strategy_def lower_or_digit_def)
  have run0: "case arbitrate_candidates sample_sha sample_policy_sha
       [sample_candidate ''VIC'' 0 1, sample_candidate ''VIC'' (300 * second_us) 1, sample_candidate ''VIC'' (700 * second_us) 1]
       (sample_arbitration None) of Inl _ \<Rightarrow> False
     | Inr out \<Rightarrow> map ca_decision_at (selections out) = [0, 700 * second_us]"
    by code_simp
  from case_res_True [OF run0] obtain out where run: "arbitrate_candidates sample_sha sample_policy_sha
       [sample_candidate ''VIC'' 0 1, sample_candidate ''VIC'' (300 * second_us) 1, sample_candidate ''VIC'' (700 * second_us) 1]
       (sample_arbitration None) = Inr out" "map ca_decision_at (selections out) = [0, 700 * second_us]"
    by (elim exE conjE)
  show ?thesis
    by (intro exI [of _ out] conjI) (rule run selected_horizons_disjoint [OF valid run(1)])+
qed

section \<open>A decision clock raises only on its guards\<close>

definition verdict_well_formed :: "verdict \<Rightarrow> bool" where
  "verdict_well_formed v = (case vd_reason v of None \<Rightarrow> vd_priority v \<noteq> None
     | Some r \<Rightarrow> vd_priority v = None \<and>
         (if r \<in> {LOWER_STRATEGY_PRIORITY, SYMBOL_COOLDOWN}
          then \<exists>h. vd_selected v = Some h \<and> is_sha256 h else vd_selected v = None))"

lemma clock_verdict_well_formed:
  assumes "v \<in> set (clock_verdicts sha p ls t cs)" "\<forall>c. is_sha256 (sha c)" "\<forall>s u h. ls s = Some (u, h) \<longrightarrow> is_sha256 h"
  shows "verdict_well_formed v"
  using assms(1)
proof (cases rule: clock_verdict_cases)
  case (round s)
  then show ?thesis using assms(3)
    by (auto simp: symbol_round_def Let_def verdict_well_formed_def rejected_def ineligible_verdict_def
        split: option.splits if_splits)
next
  case (chosen i w)
  then show ?thesis using assms(2)
    by (auto simp: winner_verdicts_def verdict_well_formed_def rejected_def selected_verdict_def)
next
  case (capacity w)
  then show ?thesis by (auto simp: capacity_verdicts_def verdict_well_formed_def rejected_def)
qed

lemma arbitration_result_total:
  assumes policy: "CandidateArbitrationVersion p = Inr p" and candidate: "BaselineCandidate (vd_candidate v) = Inr (vd_candidate v)"
    and sym: "bc_symbol (vd_candidate v) \<noteq> []" and sha: "is_sha256 (sha (vd_candidate v))" "is_sha256 ps"
    and v: "verdict_well_formed v" and rule: "find_rule p (bc_strategy (vd_candidate v)) = Some r"
    and ver: "bc_baseline_version (vd_candidate v) = av_candidate_version p"
  shows "\<exists>d. arbitration_result sha ps p v = Inr d"
proof -
  let ?c = "vd_candidate v"
  have r: "r \<in> set (av_rules p)" "ar_strategy r = bc_strategy ?c" using find_rule_SomeD [OF rule] by auto
  have "list_all valid_arbitration_rule (av_rules p)" "valid_effective_version p" "is_version (av_candidate_version p)"
    using policy by (auto simp: CandidateArbitrationVersion_def split: if_splits)
  then have pol: "valid_arbitration_rule r" "is_version (version p)" "is_version (av_candidate_version p)"
    using r by (auto simp: list_all_iff valid_effective_version_def)
  have "bc_symbol ?c = map to_upper (strip (bc_symbol ?c))"
    using candidate unfolding BaselineCandidate_def Let_def if_Inl_eq_Inr by blast
  with sym have upper: "is_uppercase_identifier (bc_symbol ?c)" by (simp add: is_uppercase_identifier_def)
  show ?thesis
    using BaselineCandidate_strength(1,2) [OF candidate] pol upper sha v r(2) ver
    by (cases "vd_reason v"; cases "the (vd_reason v)")
       (auto simp: arbitration_result_def rule Let_def CandidateArbitration_def valid_arbitration_rule_def
         optional_sha256_def verdict_well_formed_def)
qed

text \<open>for a validated policy and validated candidates with a non-empty symbol, \<^verbatim>\<open>decide\<close> returns exactly when its
  guards hold (one clock, later than the previous one, inside the policy's dates, matching candidate
  version, unique candidates, complete strategy matrix): no lookup or record construction behind the guards can raise.\<close>

theorem decide_total_iff_guards:
  assumes "CandidateArbitrationVersion (az_policy az) = Inr (az_policy az)"
    and "\<forall>c \<in> set cs. BaselineCandidate c = Inr c \<and> bc_symbol c \<noteq> []"
    and "\<forall>c. is_sha256 (sha c)" and "is_sha256 (psha (az_policy az))"
    and "\<forall>s u h. az_last_selected az s = Some (u, h) \<longrightarrow> is_sha256 h"
  shows "(\<exists>r. decide sha psha az cs = Inr r) \<longleftrightarrow> decide_guard sha az cs"
proof
  assume g: "decide_guard sha az cs"
  have entry: "\<exists>d. arbitration_result sha (psha (az_policy az)) (az_policy az) v = Inr d" if v: "v \<in> set (verdicts_of sha az cs)" for v
  proof -
    have c: "vd_candidate v \<in> set cs" by (rule verdicts_of_members(1) [OF v])
    obtain r where "find_rule (az_policy az) (bc_strategy (vd_candidate v)) = Some r"
      using matrix_rule_exists [OF _ c] g unfolding decide_guard_def by blast
    moreover have "verdict_well_formed v"
      using clock_verdict_well_formed v assms(3,5) unfolding verdicts_of_def by blast
    moreover have "bc_baseline_version (vd_candidate v) = av_candidate_version (az_policy az)"
      using g c unfolding decide_guard_def by blast
    ultimately show ?thesis using arbitration_result_total assms(1-4) c by blast
  qed
  have "\<exists>ds. map_res (arbitration_result sha (psha (az_policy az)) (az_policy az)) (verdicts_of sha az cs) = Inr ds"
    by (rule map_res_defined) (rule entry)
  then obtain ds where ds: "map_res (arbitration_result sha (psha (az_policy az)) (az_policy az)) (verdicts_of sha az cs) = Inr ds"
    by (elim exE)
  have "map ca_candidate_sha256 ds = map sha (map vd_candidate (verdicts_of sha az cs))"
    using ds unfolding map_res_Inr_iff
    by (induction rule: list_all2_induct) (simp_all add: arbitration_result_fields)
  then have "ca_candidate_sha256 ` set ds = sha ` set (map vd_candidate (verdicts_of sha az cs))"
    by (metis set_map)
  also have "set (map vd_candidate (verdicts_of sha az cs)) = set cs"
    unfolding verdicts_of_def by (rule mset_eq_setD) (rule clock_verdicts_mset)
  finally have shas: "ca_candidate_sha256 ` set ds = sha ` set cs" .
  have lookup: "\<exists>d. (case keyed ca_candidate_sha256 ds (sha c) of None \<Rightarrow> Inl KeyError | Some d \<Rightarrow> Inr d) = Inr d"
    if "c \<in> set (sort_key (output_key sha (az_policy az)) cs)" for c
    using that shas keyed_None [of ca_candidate_sha256 ds "sha c"] by (auto simp: option_KeyError_Inr)
  have "\<exists>out. map_res (\<lambda>c. case keyed ca_candidate_sha256 ds (sha c) of None \<Rightarrow> Inl KeyError | Some d \<Rightarrow> Inr d)
      (sort_key (output_key sha (az_policy az)) cs) = Inr out"
    by (rule map_res_defined) (rule lookup)
  then have "\<exists>r. decide_body sha psha az cs = Inr r" by (auto simp: decide_body_def ds simp del: sort_key_in_set)
  with g show "\<exists>r. decide sha psha az cs = Inr r" unfolding decide_split by blast
qed (use decide_split in blast)

theorem decide_total_iff_guards_witness:
  "(\<exists>r. decide sample_sha sample_policy_sha sample_az [sample_candidate ''VIC'' 0 1] = Inr r) \<longleftrightarrow>
   decide_guard sample_sha sample_az [sample_candidate ''VIC'' 0 1]"
proof (rule decide_total_iff_guards)
  have hex: "is_sha256 (replicate 64 (CHR ''1''))" "is_sha256 (replicate 64 (CHR ''2''))" by code_simp+
  show "CandidateArbitrationVersion (az_policy sample_az) = Inr (az_policy sample_az)"
    by (simp add: new_arbitrator_def sample_arbitration_def CandidateArbitrationVersion_def valid_effective_version_def
        valid_interval_def valid_arbitration_rule_def is_version_def is_strategy_def lower_or_digit_def)
  have "(case BaselineCandidate (sample_candidate ''VIC'' 0 1) of Inl _ \<Rightarrow> False | Inr c \<Rightarrow> c = sample_candidate ''VIC'' 0 1)"
    by code_simp
  then show "\<forall>c \<in> set [sample_candidate ''VIC'' 0 1]. BaselineCandidate c = Inr c \<and> bc_symbol c \<noteq> []"
    by (auto split: sum.splits simp: sample_candidate_def)
  show "\<forall>c. is_sha256 (sample_sha c)" by (simp add: sample_sha_def is_sha256_def digit_def less_eq_char_def list_all_iff)
  show "is_sha256 (sample_policy_sha (az_policy sample_az))" by (fact hex)
  show "\<forall>s u h. az_last_selected sample_az s = Some (u, h) \<longrightarrow> is_sha256 h" by (simp add: new_arbitrator_def)
qed

end
