(* ===== verification/Promotion.thy ===== *)
theory Promotion
  imports Arbitration
begin

text \<open>
  \<^verbatim>\<open>t0_trading/promotion/model.py\<close> and \<^verbatim>\<open>engine.py\<close>: walk-forward folds over the daily reports of the
  selected shadow population, and the gate that turns them into a shadow-to-paper decision. The digests of
  policies and reports are a record of functions. The session and holdout evaluations have the
  same fields, so they share one record with the two constructors of the code. The \<^verbatim>\<open>while\<close> loop that
  builds the folds is a partial function; it returns for every validated evaluation policy.
\<close>

section \<open>Records\<close>

datatype promotion_status = PENDING | PASS | FAIL

datatype promotion_reason =
  INSUFFICIENT_SESSIONS | CAPTURE_GAPS | INSUFFICIENT_SELECTIONS | MISSING_FOLD_OUTCOMES | OUTCOME_COVERAGE |
  POSITIVE_NET_RATE | AVERAGE_NET_RETURN | WORST_FOLD_NET_RETURN

record research_lineage =
  rl_baseline_version :: string
  rl_arbitration_configuration_sha256 :: string
  rl_feature_configuration_sha256 :: string
  rl_context_configuration_sha256 :: string
  rl_outcome_configuration_sha256 :: string
  rl_cost_policy_sha256 :: string

record promotion_target_result =
  ptr_strategy :: string
  ptr_symbol :: string
  ptr_horizon_seconds :: int
  ptr_status :: promotion_status
  ptr_reasons :: "promotion_reason list"
  ptr_selected_count :: int
  ptr_eligible_outcome_count :: int
  ptr_positive_net_count :: int
  ptr_outcome_coverage_rate :: decimal
  ptr_positive_net_rate :: decimal
  ptr_average_net_return_bps :: "decimal option"
  ptr_worst_fold_net_return_bps :: "decimal option"

definition PromotionTargetResult :: "promotion_target_result \<Rightarrow> promotion_target_result res" where
  "PromotionTargetResult r =
     (if \<not> (ptr_strategy r \<in> set BASELINE_NAMES \<and> is_ticker (ptr_symbol r) \<and> 1 \<le> ptr_horizon_seconds r \<and>
             0 \<le> ptr_selected_count r \<and> 0 \<le> ptr_eligible_outcome_count r \<and> 0 \<le> ptr_positive_net_count r \<and>
             0 \<le> ptr_outcome_coverage_rate r \<and> ptr_outcome_coverage_rate r \<le> 1 \<and>
             0 \<le> ptr_positive_net_rate r \<and> ptr_positive_net_rate r \<le> 1)
      then Inl (ValidationError ''PromotionTargetResult'')
      else if \<not> (ptr_positive_net_count r \<le> ptr_eligible_outcome_count r \<and>
                  ptr_eligible_outcome_count r \<le> ptr_selected_count r)
      then Inl (ValidationError ''promotion target counts are inconsistent'')
      else if fromkeys (ptr_reasons r) \<noteq> ptr_reasons r
      then Inl (ValidationError ''promotion target reasons must be unique and ordered'')
      else if (ptr_status r = PASS) \<noteq> (ptr_reasons r = [])
      then Inl (ValidationError ''promotion target status and reasons are inconsistent'')
      else Inr r)"

record target_evaluation =
  te_strategy :: string
  te_symbol :: string
  te_horizon_seconds :: int
  te_selected_count :: int
  te_eligible_outcome_count :: int
  te_positive_net_count :: int
  te_average_conditional_net_return_bps :: "decimal option"

definition evaluation_key :: "target_evaluation \<Rightarrow> target_key" where
  "evaluation_key e = (te_strategy e, te_symbol e, te_horizon_seconds e)"

definition validate_evaluation :: "string \<Rightarrow> string \<Rightarrow> string \<Rightarrow> target_evaluation \<Rightarrow> target_evaluation res" where
  "validate_evaluation cls counts average e =
     (if \<not> (te_strategy e \<in> set BASELINE_NAMES \<and> is_ticker (te_symbol e) \<and> 1 \<le> te_horizon_seconds e \<and>
             0 \<le> te_selected_count e \<and> 0 \<le> te_eligible_outcome_count e \<and> 0 \<le> te_positive_net_count e)
      then Inl (ValidationError cls)
      else if \<not> (te_positive_net_count e \<le> te_eligible_outcome_count e \<and> te_eligible_outcome_count e \<le> te_selected_count e)
      then Inl (ValidationError counts)
      else if (te_eligible_outcome_count e = 0) \<noteq> (te_average_conditional_net_return_bps e = None)
      then Inl (ValidationError average)
      else Inr e)"

definition ArbitratedSessionEvaluation :: "target_evaluation \<Rightarrow> target_evaluation res" where
  "ArbitratedSessionEvaluation = validate_evaluation ''ArbitratedSessionEvaluation''
     ''arbitrated session counts are inconsistent'' ''arbitrated session average requires eligible outcomes''"

definition ArbitratedHoldoutEvaluation :: "target_evaluation \<Rightarrow> target_evaluation res" where
  "ArbitratedHoldoutEvaluation = validate_evaluation ''ArbitratedHoldoutEvaluation''
     ''arbitrated holdout counts are inconsistent'' ''arbitrated holdout average requires eligible outcomes''"

record session_report =
  sr_trade_date :: date
  sr_baseline_version :: string
  sr_arbitration_version :: string
  sr_arbitration_configuration_sha256 :: string
  sr_feature_configuration_sha256 :: string
  sr_context_configuration_sha256 :: string
  sr_outcome_configuration_sha256 :: string
  sr_cost_policy_sha256 :: string
  sr_cost_assumptions_sha256 :: "string option"
  sr_capture_evidence_sha256 :: string
  sr_shadow_audit_sha256 :: string
  sr_capture_gap_count :: int
  sr_evaluations :: "target_evaluation list"

definition ArbitratedSessionReport :: "session_report \<Rightarrow> session_report res" where
  "ArbitratedSessionReport r =
     (let keys = map evaluation_key (sr_evaluations r) in
      if \<not> (is_version (sr_baseline_version r) \<and> is_version (sr_arbitration_version r) \<and>
             is_sha256 (sr_arbitration_configuration_sha256 r) \<and> is_sha256 (sr_feature_configuration_sha256 r) \<and>
             is_sha256 (sr_context_configuration_sha256 r) \<and> is_sha256 (sr_outcome_configuration_sha256 r) \<and>
             is_sha256 (sr_cost_policy_sha256 r) \<and> optional_sha256 (sr_cost_assumptions_sha256 r) \<and>
             is_sha256 (sr_capture_evidence_sha256 r) \<and> is_sha256 (sr_shadow_audit_sha256 r) \<and>
             0 \<le> sr_capture_gap_count r \<and> sr_evaluations r \<noteq> [] \<and>
             list_all (\<lambda>e. ArbitratedSessionEvaluation e = Inr e) (sr_evaluations r))
      then Inl (ValidationError ''ArbitratedSessionReport'')
      else if \<not> all_unique keys \<or> sort keys \<noteq> keys
      then Inl (ValidationError ''arbitrated session evaluations must be unique and ordered'')
      else Inr r)"

definition research_lineage :: "session_report \<Rightarrow> research_lineage" where
  "research_lineage r = \<lparr>rl_baseline_version = sr_baseline_version r,
     rl_arbitration_configuration_sha256 = sr_arbitration_configuration_sha256 r,
     rl_feature_configuration_sha256 = sr_feature_configuration_sha256 r,
     rl_context_configuration_sha256 = sr_context_configuration_sha256 r,
     rl_outcome_configuration_sha256 = sr_outcome_configuration_sha256 r,
     rl_cost_policy_sha256 = (case sr_cost_assumptions_sha256 r of
        Some s \<Rightarrow> if s \<noteq> [] then s else sr_cost_policy_sha256 r | None \<Rightarrow> sr_cost_policy_sha256 r)\<rparr>"

record walk_forward_fold =
  wf_fold :: nat
  wf_development_dates :: "date list"
  wf_purged_dates :: "date list"
  wf_holdout_dates :: "date list"
  wf_evaluations :: "target_evaluation list"

definition ArbitratedWalkForwardFold :: "walk_forward_fold \<Rightarrow> walk_forward_fold res" where
  "ArbitratedWalkForwardFold f =
     (let groups = [wf_development_dates f, wf_purged_dates f, wf_holdout_dates f] in
      if \<not> (1 \<le> wf_fold f \<and> wf_development_dates f \<noteq> [] \<and> wf_purged_dates f \<noteq> [] \<and> wf_holdout_dates f \<noteq> [] \<and>
             wf_evaluations f \<noteq> [])
      then Inl (ValidationError ''ArbitratedWalkForwardFold'')
      else if list_ex (\<lambda>values. sorted_set values \<noteq> values) groups \<or>
              \<not> (last (wf_development_dates f) < hd (wf_purged_dates f) \<and>
                  hd (wf_purged_dates f) \<le> last (wf_purged_dates f) \<and>
                  last (wf_purged_dates f) < hd (wf_holdout_dates f))
      then Inl (ValidationError ''arbitrated walk-forward dates must be ordered and disjoint'')
      else if \<not> all_unique (map evaluation_key (wf_evaluations f))
      then Inl (ValidationError ''arbitrated walk-forward targets must be unique'')
      else Inr f)"

record walk_forward_report =
  wr_evaluation_version :: string
  wr_evaluation_configuration_sha256 :: string
  wr_arbitration_version :: string
  wr_arbitration_configuration_sha256 :: string
  wr_session_sha256s :: "string list"
  wr_folds :: "walk_forward_fold list"
  wr_pending_dates :: "date list"

definition ArbitratedWalkForwardReport :: "walk_forward_report \<Rightarrow> walk_forward_report res" where
  "ArbitratedWalkForwardReport r =
     (if \<not> (is_version (wr_evaluation_version r) \<and> is_sha256 (wr_evaluation_configuration_sha256 r) \<and>
             is_version (wr_arbitration_version r) \<and> is_sha256 (wr_arbitration_configuration_sha256 r) \<and>
             wr_session_sha256s r \<noteq> [] \<and> wr_folds r \<noteq> [])
      then Inl (ValidationError ''ArbitratedWalkForwardReport'')
      else if map wf_fold (wr_folds r) \<noteq> [1..<length (wr_folds r) + 1]
      then Inl (ValidationError ''arbitrated walk-forward folds must be contiguous'')
      else if list_ex (\<lambda>f. map evaluation_key (wf_evaluations f) \<noteq> map evaluation_key (wf_evaluations (hd (wr_folds r)))) (wr_folds r)
      then Inl (ValidationError ''arbitrated walk-forward fold matrices must match'')
      else if wr_pending_dates r \<noteq> [] \<and> (sorted_set (wr_pending_dates r) \<noteq> wr_pending_dates r \<or>
              hd (wr_pending_dates r) \<le> last (wf_holdout_dates (last (wr_folds r))))
      then Inl (ValidationError ''arbitrated walk-forward pending dates are inconsistent'')
      else Inr r)"

record gate_report =
  gr_gate_version :: string
  gr_gate_configuration_sha256 :: string
  gr_evaluation_version :: string
  gr_evaluation_configuration_sha256 :: string
  gr_arbitration_version :: string
  gr_arbitration_configuration_sha256 :: string
  gr_required_session_count :: nat
  gr_observed_session_count :: nat
  gr_holdout_dates :: "date list"
  gr_capture_gap_count :: int
  gr_walk_forward_sha256 :: "string option"
  gr_shadow_audit_sha256s :: "string list"
  gr_status :: promotion_status
  gr_reasons :: "promotion_reason list"
  gr_targets :: "promotion_target_result list"

definition result_key :: "promotion_target_result \<Rightarrow> target_key" where
  "result_key r = (ptr_strategy r, ptr_symbol r, ptr_horizon_seconds r)"

definition expected_status :: "promotion_reason list \<Rightarrow> promotion_target_result list \<Rightarrow> promotion_status" where
  "expected_status reasons targets =
     (if list_ex (\<lambda>t. ptr_status t = FAIL) targets \<or> CAPTURE_GAPS \<in> set reasons then FAIL
      else if reasons \<noteq> [] \<or> list_ex (\<lambda>t. ptr_status t = PENDING) targets then PENDING else PASS)"

definition PromotionGateReport :: "gate_report \<Rightarrow> gate_report res" where
  "PromotionGateReport r =
     (if \<not> (is_version (gr_gate_version r) \<and> is_sha256 (gr_gate_configuration_sha256 r) \<and>
             is_version (gr_evaluation_version r) \<and> is_sha256 (gr_evaluation_configuration_sha256 r) \<and>
             is_version (gr_arbitration_version r) \<and> is_sha256 (gr_arbitration_configuration_sha256 r) \<and>
             1 \<le> gr_required_session_count r \<and> 0 \<le> gr_capture_gap_count r \<and>
             optional_sha256 (gr_walk_forward_sha256 r) \<and> gr_targets r \<noteq> [])
      then Inl (ValidationError ''PromotionGateReport'')
      else if sorted_set (gr_holdout_dates r) \<noteq> gr_holdout_dates r
      then Inl (ValidationError ''promotion holdout dates must be unique and ordered'')
      else if \<not> all_unique (map result_key (gr_targets r))
      then Inl (ValidationError ''promotion target results must be unique'')
      else if fromkeys (gr_reasons r) \<noteq> gr_reasons r
      then Inl (ValidationError ''promotion report reasons must be unique and ordered'')
      else if gr_status r \<noteq> expected_status (gr_reasons r) (gr_targets r)
      then Inl (ValidationError ''promotion report status is inconsistent'')
      else if gr_walk_forward_sha256 r = None \<and> gr_holdout_dates r \<noteq> []
      then Inl (ValidationError ''promotion holdouts require a walk-forward report'')
      else if gr_status r = PASS \<and> (gr_holdout_dates r = [] \<or> gr_walk_forward_sha256 r = None \<or>
              length (gr_shadow_audit_sha256s r) \<noteq> length (gr_holdout_dates r))
      then Inl (ValidationError ''passing promotion requires complete holdout and shadow evidence'')
      else Inr r)"

record promotion_digests =
  dg_evaluation :: "baseline_evaluation_version \<Rightarrow> string"
  dg_arbitration :: "arbitration_version \<Rightarrow> string"
  dg_gate :: "promotion_gate_version \<Rightarrow> string"
  dg_session :: "session_report \<Rightarrow> string"
  dg_walk_forward :: "walk_forward_report \<Rightarrow> string"

section \<open>Weighted averages and combined rows\<close>

definition eligible_total :: "target_evaluation list \<Rightarrow> int" where
  "eligible_total rows = sum_list (map te_eligible_outcome_count rows)"

definition weighted_terms :: "target_evaluation list \<Rightarrow> decimal list" where
  "weighted_terms rows = concat (map (\<lambda>e. case te_average_conditional_net_return_bps e of None \<Rightarrow> []
     | Some a \<Rightarrow> [dmul a (of_int (te_eligible_outcome_count e))]) rows)"

definition weighted_average :: "target_evaluation list \<Rightarrow> decimal option res" where
  "weighted_average rows =
     (if eligible_total rows = 0 then Inr None
      else rbind (ratio 4 (dsum (weighted_terms rows)) (of_int (eligible_total rows))) (\<lambda>a. Inr (Some a)))"

definition combine :: "target_evaluation list \<Rightarrow> target_evaluation res" where
  "combine rows =
     (case rows of [] \<Rightarrow> Inl (ValueError ''arbitrated holdout rows must share one target'')
      | first # _ \<Rightarrow>
        if list_ex (\<lambda>e. evaluation_key e \<noteq> evaluation_key first) rows
        then Inl (ValueError ''arbitrated holdout rows must share one target'')
        else rbind (weighted_average rows) (\<lambda>average.
          ArbitratedHoldoutEvaluation \<lparr>te_strategy = te_strategy first, te_symbol = te_symbol first,
            te_horizon_seconds = te_horizon_seconds first,
            te_selected_count = sum_list (map te_selected_count rows),
            te_eligible_outcome_count = eligible_total rows,
            te_positive_net_count = sum_list (map te_positive_net_count rows),
            te_average_conditional_net_return_bps = average\<rparr>))"

section \<open>Walk-forward folds\<close>

type_synonym sessions = "(date \<times> session_report) list"

definition session_dates :: "sessions \<Rightarrow> date list" where
  "session_dates sessions = sorted_set (map fst sessions)"

definition session_on :: "sessions \<Rightarrow> date \<Rightarrow> session_report res" where
  "session_on sessions d = (case map_of sessions d of None \<Rightarrow> Inl KeyError | Some r \<Rightarrow> Inr r)"

definition evaluation_on :: "sessions \<Rightarrow> date \<Rightarrow> target_key \<Rightarrow> target_evaluation res" where
  "evaluation_on sessions d key = rbind (session_on sessions d) (\<lambda>r.
     case keyed evaluation_key (sr_evaluations r) key of None \<Rightarrow> Inl KeyError | Some e \<Rightarrow> Inr e)"

definition build_fold ::
  "sessions \<Rightarrow> date list \<Rightarrow> target_key list \<Rightarrow> baseline_evaluation_version \<Rightarrow> nat \<Rightarrow> nat \<Rightarrow> walk_forward_fold res" where
  "build_fold sessions dates keys policy built holdout_start =
     (let development_end = holdout_start - be_purge_sessions policy;
          holdout = take (be_holdout_sessions policy) (drop holdout_start dates)
      in rbind (map_res (\<lambda>key. rbind (map_res (\<lambda>d. evaluation_on sessions d key) holdout) combine) keys) (\<lambda>evaluations.
         ArbitratedWalkForwardFold \<lparr>wf_fold = built + 1, wf_development_dates = take development_end dates,
           wf_purged_dates = take (holdout_start - development_end) (drop development_end dates),
           wf_holdout_dates = holdout, wf_evaluations = evaluations\<rparr>))"

partial_function (option) folds_from ::
  "sessions \<Rightarrow> date list \<Rightarrow> target_key list \<Rightarrow> baseline_evaluation_version \<Rightarrow> nat \<Rightarrow> walk_forward_fold list \<Rightarrow>
   walk_forward_fold list res option" where
  [code]: "folds_from sessions dates keys policy holdout_start folds =
     (if holdout_start + be_holdout_sessions policy \<le> length dates
      then (case build_fold sessions dates keys policy (length folds) holdout_start of
              Inl e \<Rightarrow> Some (Inl e)
            | Inr fold' \<Rightarrow> folds_from sessions dates keys policy (holdout_start + be_holdout_sessions policy) (folds @ [fold']))
      else Some (Inr folds))"

definition required_sessions :: "baseline_evaluation_version \<Rightarrow> nat" where
  "required_sessions policy = be_development_sessions policy + be_purge_sessions policy + be_holdout_sessions policy"

definition prospective_mismatch ::
  "promotion_digests \<Rightarrow> baseline_evaluation_version \<Rightarrow> arbitration_version \<Rightarrow> date \<times> session_report \<Rightarrow> bool" where
  "prospective_mismatch D policy arbitration v = (case v of (d, r) \<Rightarrow>
     sr_trade_date r \<noteq> d \<or> \<not> contains policy d \<or> \<not> contains arbitration d \<or>
     sr_arbitration_version r \<noteq> version arbitration \<or> sr_baseline_version r \<noteq> av_candidate_version arbitration \<or>
     sr_arbitration_configuration_sha256 r \<noteq> version_sha256 (dg_arbitration D) arbitration)"

definition evaluate_arbitrated_walk_forward ::
  "promotion_digests \<Rightarrow> sessions \<Rightarrow> baseline_evaluation_version \<Rightarrow> arbitration_version \<Rightarrow> walk_forward_report res option" where
  "evaluate_arbitrated_walk_forward D sessions policy arbitration =
     (let dates = session_dates sessions in
      if length dates < required_sessions policy
      then Some (Inl (ValueError ''arbitrated walk-forward requires at least the required sessions''))
      else case map_res (session_on sessions) dates of Inl e \<Rightarrow> Some (Inl e)
      | Inr reports \<Rightarrow>
        if list_ex (prospective_mismatch D policy arbitration) (zip dates reports)
        then Some (Inl (ValueError ''arbitrated sessions do not match prospective policies''))
        else if list_ex (\<lambda>r. research_lineage r \<noteq> research_lineage (hd reports)) (tl reports)
        then Some (Inl (ValueError ''arbitrated sessions must share complete research lineage''))
        else let keys = map evaluation_key (sr_evaluations (hd reports)) in
        if list_ex (\<lambda>r. map evaluation_key (sr_evaluations r) \<noteq> keys) reports
        then Some (Inl (ValueError ''arbitrated sessions must share one ordered target matrix''))
        else case folds_from sessions dates keys policy (be_development_sessions policy + be_purge_sessions policy) [] of
          None \<Rightarrow> None
        | Some (Inl e) \<Rightarrow> Some (Inl e)
        | Some (Inr folds) \<Rightarrow>
            if folds = [] then Some (Inl IndexError)
            else Some (ArbitratedWalkForwardReport \<lparr>wr_evaluation_version = version policy,
              wr_evaluation_configuration_sha256 = version_sha256 (dg_evaluation D) policy,
              wr_arbitration_version = version arbitration,
              wr_arbitration_configuration_sha256 = version_sha256 (dg_arbitration D) arbitration,
              wr_session_sha256s = map (dg_session D) reports, wr_folds = folds,
              wr_pending_dates = filter (\<lambda>d. d > last (wf_holdout_dates (last folds))) dates\<rparr>))"

section \<open>The gate\<close>

definition target_rows :: "promotion_target \<Rightarrow> walk_forward_report \<Rightarrow> target_evaluation list res" where
  "target_rows target report =
     map_res (\<lambda>f. case find (\<lambda>e. evaluation_key e = target_key target) (wf_evaluations f) of
                None \<Rightarrow> Inl (RuntimeError ''generator raised StopIteration'') | Some e \<Rightarrow> Inr e) (wr_folds report)"

definition fold_returns :: "target_evaluation list \<Rightarrow> decimal list" where
  "fold_returns rows = concat (map (\<lambda>e. case te_average_conditional_net_return_bps e of None \<Rightarrow> [] | Some a \<Rightarrow> [a]) rows)"

definition worst_fold :: "target_evaluation list \<Rightarrow> decimal option res" where
  "worst_fold rows = (if length (fold_returns rows) = length rows
     then (if rows = [] then Inl (ValueError ''min() iterable argument is empty'') else Inr (Some (Min (set (fold_returns rows)))))
     else Inr None)"

text \<open>The two reason lists of \<^verbatim>\<open>_target_result\<close>; \<open>coverage\<close> and \<open>positive_rate\<close> are the two \<^verbatim>\<open>rate\<close> calls.\<close>

definition pending_reasons :: "promotion_gate_version \<Rightarrow> int \<Rightarrow> decimal option \<Rightarrow> promotion_reason list" where
  "pending_reasons policy selected worst =
     (if selected < pg_minimum_selected_count policy then [INSUFFICIENT_SELECTIONS]
      else if worst = None then [MISSING_FOLD_OUTCOMES] else [])"

definition failed_reasons ::
  "promotion_gate_version \<Rightarrow> int \<Rightarrow> int \<Rightarrow> decimal \<Rightarrow> decimal \<Rightarrow> decimal option \<Rightarrow> decimal option \<Rightarrow> promotion_reason list" where
  "failed_reasons policy selected eligible' coverage positive_rate average worst =
     (if selected < pg_minimum_selected_count policy then []
      else (if coverage < pg_minimum_outcome_coverage_rate policy then [OUTCOME_COVERAGE] else []) @
           (if eligible' \<noteq> 0 \<and> positive_rate < pg_minimum_positive_net_rate policy then [POSITIVE_NET_RATE] else []) @
           (case average of Some a \<Rightarrow> if a < pg_minimum_average_net_return_bps policy then [AVERAGE_NET_RETURN] else [] | None \<Rightarrow> []) @
           (case worst of Some w \<Rightarrow> if w < pg_minimum_worst_fold_net_return_bps policy then [WORST_FOLD_NET_RETURN] else [] | None \<Rightarrow> []))"

definition target_result ::
  "walk_forward_report \<Rightarrow> promotion_gate_version \<Rightarrow> promotion_target \<Rightarrow> promotion_target_result res" where
  "target_result report policy target =
     rbind (target_rows target report) (\<lambda>rows.
     let selected = sum_list (map te_selected_count rows);
         eligible' = eligible_total rows;
         positive = sum_list (map te_positive_net_count rows)
     in rbind (weighted_average rows) (\<lambda>average.
        rbind (worst_fold rows) (\<lambda>worst.
        rbind (rate eligible' selected) (\<lambda>coverage.
        rbind (rate positive eligible') (\<lambda>positive_rate.
        let pending = pending_reasons policy selected worst;
            failed = failed_reasons policy selected eligible' coverage positive_rate average worst
        in rbind (index_res rows 0) (\<lambda>first.
           PromotionTargetResult \<lparr>ptr_strategy = te_strategy first, ptr_symbol = te_symbol first,
             ptr_horizon_seconds = pt_horizon_seconds target,
             ptr_status = (if failed \<noteq> [] then FAIL else if pending \<noteq> [] then PENDING else PASS),
             ptr_reasons = pending @ failed, ptr_selected_count = selected, ptr_eligible_outcome_count = eligible',
             ptr_positive_net_count = positive, ptr_outcome_coverage_rate = coverage,
             ptr_positive_net_rate = positive_rate, ptr_average_net_return_bps = average,
             ptr_worst_fold_net_return_bps = worst\<rparr>))))))"

definition pending_target :: "promotion_target \<Rightarrow> promotion_target_result res" where
  "pending_target target = PromotionTargetResult \<lparr>ptr_strategy = pt_strategy target, ptr_symbol = pt_symbol target,
     ptr_horizon_seconds = pt_horizon_seconds target, ptr_status = PENDING, ptr_reasons = [INSUFFICIENT_SELECTIONS],
     ptr_selected_count = 0, ptr_eligible_outcome_count = 0, ptr_positive_net_count = 0,
     ptr_outcome_coverage_rate = 0, ptr_positive_net_rate = 0, ptr_average_net_return_bps = None,
     ptr_worst_fold_net_return_bps = None\<rparr>"

definition gate_header ::
  "promotion_digests \<Rightarrow> baseline_evaluation_version \<Rightarrow> promotion_gate_version \<Rightarrow> arbitration_version \<Rightarrow> nat \<Rightarrow> gate_report" where
  "gate_header D evaluation gate arbitration observed = \<lparr>gr_gate_version = version gate,
     gr_gate_configuration_sha256 = version_sha256 (dg_gate D) gate, gr_evaluation_version = version evaluation,
     gr_evaluation_configuration_sha256 = version_sha256 (dg_evaluation D) evaluation,
     gr_arbitration_version = version arbitration,
     gr_arbitration_configuration_sha256 = version_sha256 (dg_arbitration D) arbitration,
     gr_required_session_count = required_sessions evaluation, gr_observed_session_count = observed,
     gr_holdout_dates = [], gr_capture_gap_count = 0, gr_walk_forward_sha256 = None, gr_shadow_audit_sha256s = [],
     gr_status = PENDING, gr_reasons = [INSUFFICIENT_SESSIONS], gr_targets = []\<rparr>"

definition gate_decision ::
  "promotion_digests \<Rightarrow> sessions \<Rightarrow> gate_report \<Rightarrow> promotion_gate_version \<Rightarrow> walk_forward_report \<Rightarrow> gate_report res" where
  "gate_decision D sessions header gate walk_forward =
     (let holdout_dates = sort (concat (map wf_holdout_dates (wr_folds walk_forward))) in
      rbind (map_res (session_on sessions) holdout_dates) (\<lambda>holdout_sessions.
      let gaps = sum_list (map sr_capture_gap_count holdout_sessions);
          reasons = (if gaps > pg_maximum_capture_gap_count gate then [CAPTURE_GAPS] else [])
      in rbind (map_res (target_result walk_forward gate) (pg_targets gate)) (\<lambda>targets.
         PromotionGateReport (header\<lparr>gr_holdout_dates := holdout_dates, gr_capture_gap_count := gaps,
           gr_walk_forward_sha256 := Some (dg_walk_forward D walk_forward),
           gr_shadow_audit_sha256s := map sr_shadow_audit_sha256 holdout_sessions,
           gr_status := (if reasons \<noteq> [] \<or> list_ex (\<lambda>t. ptr_status t = FAIL) targets then FAIL
                         else if list_ex (\<lambda>t. ptr_status t = PENDING) targets then PENDING else PASS),
           gr_reasons := reasons, gr_targets := targets\<rparr>))))"

definition evaluate_promotion_gate ::
  "promotion_digests \<Rightarrow> sessions \<Rightarrow> baseline_evaluation_version \<Rightarrow> promotion_gate_version \<Rightarrow> arbitration_version \<Rightarrow>
   gate_report res option" where
  "evaluate_promotion_gate D sessions evaluation gate arbitration =
     (if be_tier evaluation \<noteq> PROMOTION
      then Some (Inl (ValueError ''promotion gate requires a PROMOTION evaluation policy''))
      else if pg_evaluation_version gate \<noteq> version evaluation \<or> pg_arbitration_version gate \<noteq> version arbitration
      then Some (Inl (ValueError ''promotion gate policy lineage is inconsistent''))
      else let observed = length (session_dates sessions); header = gate_header D evaluation gate arbitration observed in
      if observed < required_sessions evaluation
      then Some (rbind (map_res pending_target (pg_targets gate)) (\<lambda>targets. PromotionGateReport (header\<lparr>gr_targets := targets\<rparr>)))
      else case evaluate_arbitrated_walk_forward D sessions evaluation arbitration of
        None \<Rightarrow> None
      | Some (Inl e) \<Rightarrow> Some (Inl e)
      | Some (Inr walk_forward) \<Rightarrow> Some (gate_decision D sessions header gate walk_forward))"


section \<open>The fold loop\<close>

lemma ArbitratedWalkForwardFold_Inr: "ArbitratedWalkForwardFold f = Inr g \<Longrightarrow> g = f"
  unfolding ArbitratedWalkForwardFold_def Let_def if_Inl_eq_Inr by simp

lemma build_fold_fields:
  assumes "build_fold sessions dates keys policy n start = Inr f"
  shows "wf_holdout_dates f = take (be_holdout_sessions policy) (drop start dates)"
    "wf_development_dates f = take (start - be_purge_sessions policy) dates"
    "be_purge_sessions policy \<le> start \<Longrightarrow>
       wf_purged_dates f = take (be_purge_sessions policy) (drop (start - be_purge_sessions policy) dates)"
    "wf_fold f = n + 1"
  using assms by (auto simp: build_fold_def Let_def rbind_eq_Inr dest!: ArbitratedWalkForwardFold_Inr)

lemma folds_from_total:
  assumes "1 \<le> be_holdout_sessions policy"
  shows "\<exists>r. folds_from sessions dates keys policy start folds = Some r"
proof (induction "length dates - start" arbitrary: start folds rule: less_induct)
  case less
  show ?case
  proof (cases "start + be_holdout_sessions policy \<le> length dates")
    case True
    then have "length dates - (start + be_holdout_sessions policy) < length dates - start" using assms by linarith
    from less [OF this] True show ?thesis
      by (cases "build_fold sessions dates keys policy (length folds) start") (simp_all add: folds_from.simps)
  qed (simp add: folds_from.simps)
qed

lemma folds_from_windows:
  assumes "1 \<le> be_holdout_sessions policy"
  shows "folds_from sessions dates keys policy start folds = Some (Inr out) \<Longrightarrow>
    \<exists>new. out = folds @ new \<and>
      list_all2 (\<lambda>i f. build_fold sessions dates keys policy (length folds + i) (start + i * be_holdout_sessions policy) = Inr f)
        [0..<(length dates - start) div be_holdout_sessions policy] new"
proof (induction "length dates - start" arbitrary: start folds rule: less_induct)
  case less
  let ?h = "be_holdout_sessions policy"
  show ?case
  proof (cases "start + ?h \<le> length dates")
    case False
    then have "(length dates - start) div ?h = 0" using assms by (simp add: div_eq_0_iff)
    with less.prems False show ?thesis by (simp add: folds_from.simps)
  next
    case True
    then have dec: "length dates - (start + ?h) < length dates - start" using assms by linarith
    obtain f where f: "build_fold sessions dates keys policy (length folds) start = Inr f"
      and rest: "folds_from sessions dates keys policy (start + ?h) (folds @ [f]) = Some (Inr out)"
      using less.prems True by (auto simp: folds_from.simps [of _ _ _ _ start] split: sum.splits)
    from less.hyps [OF dec rest] obtain new where out: "out = folds @ f # new"
      and new: "list_all2 (\<lambda>i f. build_fold sessions dates keys policy (Suc (length folds) + i) (start + ?h + i * ?h) = Inr f)
        [0..<(length dates - (start + ?h)) div ?h] new"
      by auto
    have len: "(length dates - start) div ?h = Suc ((length dates - (start + ?h)) div ?h)"
      using le_div_geq [of ?h "length dates - start"] True assms by simp
    have "list_all2 (\<lambda>i f. build_fold sessions dates keys policy (length folds + i) (start + i * ?h) = Inr f)
        (0 # map Suc [0..<(length dates - (start + ?h)) div ?h]) (f # new)"
      using f new by (simp add: list_all2_map1 algebra_simps)
    moreover have "[0..<Suc n] = 0 # map Suc [0..<n]" for n by (simp add: map_Suc_upt upt_conv_Cons del: upt_Suc)
    ultimately show ?thesis unfolding len out by simp
  qed
qed


lemma concat_windows:
  "concat (map (\<lambda>i. take h (drop (s + i * h) xs)) [0..<k]) = take (k * h) (drop s xs)"
proof (induction k)
  case (Suc k)
  have "take (Suc k * h) (drop s xs) = take (k * h) (drop s xs) @ take h (drop (k * h) (drop s xs))"
    by (metis add.commute mult_Suc take_add)
  then show ?case using Suc by (simp add: add.commute)
qed simp

lemma filter_after_prefix:
  fixes xs :: "date list"
  assumes "sorted xs" "distinct xs" "0 < m" "m \<le> length xs"
  shows "filter (\<lambda>d. d > xs ! (m - 1)) xs = drop m xs"
proof -
  have strict: "xs ! i < xs ! j" if "i < j" "j < length xs" for i j
    using that assms(1,2) strict_sorted_iff [of xs] by (intro sorted_wrt_nth_less [where P = "(<)"]) auto
  have "filter (\<lambda>d. d > xs ! (m - 1)) (take m xs) = []"
  proof -
    have "xs ! i \<le> xs ! (m - 1)" if "i < m" for i
      using assms(1,3,4) that by (intro sorted_nth_mono) auto
    then show ?thesis using assms(4) by (auto simp: filter_empty_conv in_set_conv_nth not_less)
  qed
  moreover have "filter (\<lambda>d. d > xs ! (m - 1)) (drop m xs) = drop m xs"
  proof -
    have "xs ! (m - 1) < xs ! (m + i)" if "m + i < length xs" for i
      using assms(3) that by (intro strict) auto
    then show ?thesis by (auto simp: filter_id_conv in_set_conv_nth)
  qed
  ultimately show ?thesis by (metis append_Nil append_take_drop_id filter_append)
qed

lemma ArbitratedWalkForwardReport_Inr: "ArbitratedWalkForwardReport f = Inr g \<Longrightarrow> g = f"
  unfolding ArbitratedWalkForwardReport_def if_Inl_eq_Inr by simp

lemma walk_forward_InrE:
  assumes "evaluate_arbitrated_walk_forward D sessions policy arbitration = Some (Inr rep)"
  obtains reports keys where "required_sessions policy \<le> length (session_dates sessions)"
    "map_res (session_on sessions) (session_dates sessions) = Inr reports"
    "\<not> list_ex (prospective_mismatch D policy arbitration) (zip (session_dates sessions) reports)"
    "folds_from sessions (session_dates sessions) keys policy (be_development_sessions policy + be_purge_sessions policy) []
       = Some (Inr (wr_folds rep))"
    "wr_folds rep \<noteq> []"
    "wr_pending_dates rep = filter (\<lambda>d. d > last (wf_holdout_dates (last (wr_folds rep)))) (session_dates sessions)"
    "ArbitratedWalkForwardReport rep = Inr rep"
    "wr_session_sha256s rep = map (dg_session D) reports"
proof -
  let ?dates = "session_dates sessions"
  note run = assms [unfolded evaluate_arbitrated_walk_forward_def Let_def]
  obtain reports where reports: "map_res (session_on sessions) ?dates = Inr reports"
    and req: "required_sessions policy \<le> length ?dates"
    using run by (auto split: if_splits sum.splits)
  let ?keys = "map evaluation_key (sr_evaluations (hd reports))"
  obtain folds where folds: "folds_from sessions ?dates ?keys policy (be_development_sessions policy + be_purge_sessions policy) []
      = Some (Inr folds)"
    using run reports by (auto split: if_splits sum.splits option.splits)
  have final: "\<not> list_ex (prospective_mismatch D policy arbitration) (zip ?dates reports)" "folds \<noteq> []"
    "ArbitratedWalkForwardReport \<lparr>wr_evaluation_version = version policy,
       wr_evaluation_configuration_sha256 = version_sha256 (dg_evaluation D) policy,
       wr_arbitration_version = version arbitration,
       wr_arbitration_configuration_sha256 = version_sha256 (dg_arbitration D) arbitration,
       wr_session_sha256s = map (dg_session D) reports, wr_folds = folds,
       wr_pending_dates = filter (\<lambda>d. d > last (wf_holdout_dates (last folds))) ?dates\<rparr> = Inr rep"
    using run reports folds by (simp_all split: if_splits)
  note rep = ArbitratedWalkForwardReport_Inr [OF final(3)]
  show thesis by (rule that [of reports ?keys]) (use req reports final folds in \<open>simp_all add: rep\<close>)
qed

lemma walk_forward_windows:
  assumes h: "1 \<le> be_holdout_sessions policy"
    and run: "evaluate_arbitrated_walk_forward D sessions policy arbitration = Some (Inr rep)"
  obtains k keys where "k \<noteq> 0" "length (wr_folds rep) = k"
    "be_development_sessions policy + be_purge_sessions policy + k * be_holdout_sessions policy \<le> length (session_dates sessions)"
    "\<And>i. i < k \<Longrightarrow> build_fold sessions (session_dates sessions) keys policy i
       (be_development_sessions policy + be_purge_sessions policy + i * be_holdout_sessions policy) = Inr (wr_folds rep ! i)"
    "wr_pending_dates rep = filter (\<lambda>d. d > last (wf_holdout_dates (last (wr_folds rep)))) (session_dates sessions)"
proof -
  let ?dates = "session_dates sessions" and ?h = "be_holdout_sessions policy"
  let ?s = "be_development_sessions policy + be_purge_sessions policy"
  let ?k = "(length ?dates - ?s) div ?h"
  obtain keys where req: "required_sessions policy \<le> length ?dates"
    and folds: "folds_from sessions ?dates keys policy ?s [] = Some (Inr (wr_folds rep))"
    and ne: "wr_folds rep \<noteq> []"
    and pend: "wr_pending_dates rep = filter (\<lambda>d. d > last (wf_holdout_dates (last (wr_folds rep)))) ?dates"
    using run by (rule walk_forward_InrE)
  have all: "list_all2 (\<lambda>i f. build_fold sessions ?dates keys policy i (?s + i * ?h) = Inr f) [0..<?k] (wr_folds rep)"
    using folds_from_windows [OF h folds] by auto
  have len: "length (wr_folds rep) = ?k" using list_all2_lengthD [OF all] by simp
  have "?k * ?h \<le> length ?dates - ?s" by (rule div_times_less_eq_dividend)
  then have "?s + ?k * ?h \<le> length ?dates" using req unfolding required_sessions_def by linarith
  moreover have "?k \<noteq> 0" using ne len by (metis length_0_conv)
  moreover have "build_fold sessions ?dates keys policy i (?s + i * ?h) = Inr (wr_folds rep ! i)" if "i < ?k" for i
    using all that by (simp add: list_all2_conv_all_nth)
  ultimately show thesis using that len pend by blast
qed

lemma three_windows: "p \<le> t \<Longrightarrow> take (t - p) xs @ take p (drop (t - p) xs) @ take h (drop t xs) = take (t + h) xs"
  by (metis append_assoc le_add_diff_inverse2 take_add)

lemma last_window:
  assumes "0 < k" "1 \<le> h" "s + k * h \<le> length xs"
  shows "last (take h (drop (s + (k - 1) * h) xs)) = xs ! (s + k * h - 1)"
proof -
  have m: "k * h = (k - 1) * h + h" using assms(1) by (cases k) simp_all
  have "last (take h (drop (s + (k - 1) * h) xs)) = take h (drop (s + (k - 1) * h) xs) ! (h - 1)"
    using assms m by (subst last_conv_nth) auto
  also have "\<dots> = xs ! (s + (k - 1) * h + (h - 1))" using assms m by simp
  also have "s + (k - 1) * h + (h - 1) = s + k * h - 1" using m assms(2) by linarith
  finally show ?thesis .
qed

text \<open>C33: the walk-forward folds partition the observed sessions without look-ahead: each fold is a prefix of
  the ordered session dates cut into development, purged and holdout dates, the holdouts of successive folds are
  contiguous and disjoint, and together with the pending dates they are exactly the sessions after the first
  development and purge windows.\<close>

theorem walk_forward_partition:
  assumes "BaselineEvaluationVersion policy = Inr policy"
    and "evaluate_arbitrated_walk_forward D sessions policy arbitration = Some (Inr rep)"
  shows "concat (map wf_holdout_dates (wr_folds rep)) @ wr_pending_dates rep =
      drop (be_development_sessions policy + be_purge_sessions policy) (session_dates sessions) \<and>
    list_all (\<lambda>f. \<exists>n. wf_development_dates f @ wf_purged_dates f @ wf_holdout_dates f = take n (session_dates sessions) \<and>
      be_development_sessions policy \<le> length (wf_development_dates f) \<and>
      length (wf_purged_dates f) = be_purge_sessions policy \<and>
      length (wf_holdout_dates f) = be_holdout_sessions policy) (wr_folds rep)"
proof -
  let ?dates = "session_dates sessions" and ?h = "be_holdout_sessions policy"
  let ?p = "be_purge_sessions policy" and ?s = "be_development_sessions policy + be_purge_sessions policy"
  have h: "1 \<le> ?h" using assms(1) by (simp add: BaselineEvaluationVersion_def split: if_splits)
  have dates: "sorted ?dates" "distinct ?dates" by (simp_all add: session_dates_def sorted_set_def)
  obtain k keys where k: "k \<noteq> 0" "length (wr_folds rep) = k" "?s + k * ?h \<le> length ?dates"
    and nth: "\<And>i. i < k \<Longrightarrow> build_fold sessions ?dates keys policy i (?s + i * ?h) = Inr (wr_folds rep ! i)"
    and pend: "wr_pending_dates rep = filter (\<lambda>d. d > last (wf_holdout_dates (last (wr_folds rep)))) ?dates"
    using h assms(2) by (rule walk_forward_windows) (rule that)
  have window: "wf_holdout_dates (wr_folds rep ! i) = take ?h (drop (?s + i * ?h) ?dates)" if "i < k" for i
    by (rule build_fold_fields(1)) (rule nth [OF that])
  have hold: "map wf_holdout_dates (wr_folds rep) = map (\<lambda>i. take ?h (drop (?s + i * ?h) ?dates)) [0..<k]"
    by (rule nth_equalityI) (simp_all add: k window)
  have "last (wr_folds rep) = wr_folds rep ! (k - 1)" using k by (subst last_conv_nth) auto
  then have "wr_pending_dates rep = filter (\<lambda>d. d > ?dates ! (?s + k * ?h - 1)) ?dates"
    using pend window [of "k - 1"] last_window [of k ?h ?s ?dates] k h by simp
  then have "wr_pending_dates rep = drop (?s + k * ?h) ?dates"
    using filter_after_prefix [OF dates, of "?s + k * ?h"] k h by simp
  then have part: "concat (map wf_holdout_dates (wr_folds rep)) @ wr_pending_dates rep = drop ?s ?dates"
    unfolding hold concat_windows by (metis add.commute append_take_drop_id drop_drop)
  have "\<exists>n. wf_development_dates f @ wf_purged_dates f @ wf_holdout_dates f = take n ?dates \<and>
      be_development_sessions policy \<le> length (wf_development_dates f) \<and>
      length (wf_purged_dates f) = ?p \<and> length (wf_holdout_dates f) = ?h" if "f \<in> set (wr_folds rep)" for f
  proof -
    obtain i where i: "i < k" "f = wr_folds rep ! i" using \<open>f \<in> _\<close> k by (auto simp: in_set_conv_nth)
    note f = build_fold_fields [OF nth [OF i(1)]]
    have "Suc i * ?h \<le> k * ?h" using i(1) by (intro mult_le_mono1) simp
    then have b: "?s + i * ?h + ?h \<le> length ?dates" using k(3) by simp
    have "wf_development_dates f @ wf_purged_dates f @ wf_holdout_dates f = take (?s + i * ?h + ?h) ?dates"
      using f three_windows [of ?p "?s + i * ?h" ?dates ?h] by (simp add: i(2))
    moreover have "be_development_sessions policy \<le> length (wf_development_dates f)"
        "length (wf_purged_dates f) = ?p" "length (wf_holdout_dates f) = ?h"
      using f b by (simp_all add: i(2))
    ultimately show ?thesis by blast
  qed
  with part show ?thesis by (simp add: list_all_iff)
qed

definition sample_digests :: promotion_digests where
  "sample_digests = \<lparr>dg_evaluation = \<lambda>_. replicate 64 (CHR ''3''), dg_arbitration = \<lambda>_. replicate 64 (CHR ''2''),
     dg_gate = \<lambda>_. replicate 64 (CHR ''4''), dg_session = \<lambda>_. replicate 64 (CHR ''5''),
     dg_walk_forward = \<lambda>_. replicate 64 (CHR ''6'')\<rparr>"

definition sample_session :: "date \<Rightarrow> decimal \<Rightarrow> date \<times> session_report" where
  "sample_session d average = (d, \<lparr>sr_trade_date = d, sr_baseline_version = BASELINE_VERSION, sr_arbitration_version = ''arb-v1'',
     sr_arbitration_configuration_sha256 = replicate 64 (CHR ''2''), sr_feature_configuration_sha256 = replicate 64 (CHR ''7''),
     sr_context_configuration_sha256 = replicate 64 (CHR ''7''), sr_outcome_configuration_sha256 = replicate 64 (CHR ''7''),
     sr_cost_policy_sha256 = replicate 64 (CHR ''7''), sr_cost_assumptions_sha256 = None,
     sr_capture_evidence_sha256 = replicate 64 (CHR ''7''), sr_shadow_audit_sha256 = replicate 64 (CHR ''7''),
     sr_capture_gap_count = 0, sr_evaluations = [\<lparr>te_strategy = ''mean_reversion'', te_symbol = ''VIC'',
       te_horizon_seconds = 300, te_selected_count = 2, te_eligible_outcome_count = 2, te_positive_net_count = 1,
       te_average_conditional_net_return_bps = Some average\<rparr>]\<rparr>)"

abbreviation sample_sessions :: sessions where
  "sample_sessions \<equiv> [sample_session 5 1, sample_session 1 1, sample_session 2 2, sample_session 3 3, sample_session 4 4, sample_session 6 1]"

theorem walk_forward_partition_witness:
  "\<exists>rep. evaluate_arbitrated_walk_forward sample_digests sample_sessions (sample_evaluation ''promo-v1'' PROMOTION)
       (sample_arbitration None) = Some (Inr rep) \<and>
     concat (map wf_holdout_dates (wr_folds rep)) @ wr_pending_dates rep = [4, 5, 6]"
proof -
  have valid: "BaselineEvaluationVersion (sample_evaluation ''promo-v1'' PROMOTION) = Inr (sample_evaluation ''promo-v1'' PROMOTION)"
    by (simp add: sample_evaluation_def BaselineEvaluationVersion_def valid_effective_version_def valid_interval_def
        is_version_def lower_or_digit_def)
  have "case evaluate_arbitrated_walk_forward sample_digests sample_sessions (sample_evaluation ''promo-v1'' PROMOTION)
       (sample_arbitration None) of Some (Inr rep) \<Rightarrow> True | _ \<Rightarrow> False"
    by code_simp
  then obtain rep where run: "evaluate_arbitrated_walk_forward sample_digests sample_sessions
       (sample_evaluation ''promo-v1'' PROMOTION) (sample_arbitration None) = Some (Inr rep)"
    by (auto split: option.splits sum.splits)
  have "drop (be_development_sessions (sample_evaluation ''promo-v1'' PROMOTION) + be_purge_sessions (sample_evaluation ''promo-v1'' PROMOTION))
      (session_dates sample_sessions) = [4, 5, 6]"
    by code_simp
  with walk_forward_partition [OF valid run] run show ?thesis by auto
qed

lemma promotion_gate_total:
  assumes "BaselineEvaluationVersion evaluation = Inr evaluation"
  shows "\<exists>r. evaluate_promotion_gate D sessions evaluation gate arbitration = Some r"
proof -
  have "1 \<le> be_holdout_sessions evaluation" using assms by (simp add: BaselineEvaluationVersion_def split: if_splits)
  then have "\<exists>r. folds_from sessions dates keys evaluation start folds = Some r" for dates keys start folds
    by (rule folds_from_total)
  then have "\<exists>r. evaluate_arbitrated_walk_forward D sessions evaluation arbitration = Some r"
    by (auto simp: evaluate_arbitrated_walk_forward_def Let_def split: option.split sum.split) (metis option.distinct(1))
  then show ?thesis
    by (auto simp: evaluate_promotion_gate_def Let_def split: option.split sum.split)
qed

text \<open>with a validated evaluation policy the fold loop terminates, so the gate always returns a report or raises;
  without the validated lower bound on the holdout size it would not.\<close>

theorem promotion_gate_terminates:
  assumes "BaselineEvaluationVersion evaluation = Inr evaluation"
  shows "\<exists>r. evaluate_promotion_gate D sessions evaluation gate arbitration = Some r"
  using assms by (rule promotion_gate_total)

theorem promotion_gate_terminates_witness:
  "\<exists>r. evaluate_promotion_gate sample_digests sample_sessions (sample_evaluation ''promo-v1'' PROMOTION) sample_gate
     (sample_arbitration None) = Some r"
  by (rule promotion_gate_terminates)
     (simp add: sample_evaluation_def BaselineEvaluationVersion_def valid_effective_version_def valid_interval_def
        is_version_def lower_or_digit_def)

section \<open>What a passing gate certifies\<close>

lemma validate_evaluation_Inr:
  assumes "validate_evaluation a b c e = Inr e'"
  shows "e' = e" "0 \<le> te_eligible_outcome_count e" "0 \<le> te_selected_count e" "0 \<le> te_positive_net_count e"
    "te_eligible_outcome_count e = 0 \<longleftrightarrow> te_average_conditional_net_return_bps e = None"
    "te_positive_net_count e \<le> te_eligible_outcome_count e" "te_eligible_outcome_count e \<le> te_selected_count e"
  using assms unfolding validate_evaluation_def if_Inl_eq_Inr by auto

lemma build_fold_rows:
  assumes "build_fold sessions dates keys policy n start = Inr f" "e \<in> set (wf_evaluations f)"
  shows "ArbitratedHoldoutEvaluation e = Inr e"
proof -
  obtain es where es: "list_all2 (\<lambda>key e. rbind (map_res (\<lambda>d. evaluation_on sessions d key)
      (take (be_holdout_sessions policy) (drop start dates))) combine = Inr e) keys es" and f: "wf_evaluations f = es"
    using assms(1) by (auto simp: build_fold_def Let_def rbind_eq_Inr map_res_Inr_iff dest!: ArbitratedWalkForwardFold_Inr)
  obtain rows where "combine rows = Inr e"
    using list_all2_members(1) [OF es] assms(2) f by (auto simp: rbind_eq_Inr)
  then obtain e0 where "ArbitratedHoldoutEvaluation e0 = Inr e"
    by (auto simp: combine_def rbind_eq_Inr split: list.splits if_splits)
  then show ?thesis unfolding ArbitratedHoldoutEvaluation_def using validate_evaluation_Inr(1) by metis
qed

lemma target_rows_members:
  assumes "target_rows target report = Inr rows"
  shows "length rows = length (wr_folds report)"
    "e \<in> set rows \<Longrightarrow> evaluation_key e = target_key target \<and> (\<exists>f \<in> set (wr_folds report). e \<in> set (wf_evaluations f))"
proof -
  have rows: "list_all2 (\<lambda>f e. find (\<lambda>e. evaluation_key e = target_key target) (wf_evaluations f) = Some e) (wr_folds report) rows"
    using assms unfolding target_rows_def map_res_Inr_iff
    by (rule list_all2_mono) (simp split: option.splits)
  then show "length rows = length (wr_folds report)" by (metis list_all2_lengthD)
  assume "e \<in> set rows"
  then obtain f where f: "f \<in> set (wr_folds report)"
      "find (\<lambda>e. evaluation_key e = target_key target) (wf_evaluations f) = Some e"
    using list_all2_members(1) [OF rows] by blast
  from f(2) have "e \<in> set (wf_evaluations f)" "evaluation_key e = target_key target"
    by (auto simp: find_Some_iff)
  with f(1) show "evaluation_key e = target_key target \<and> (\<exists>f \<in> set (wr_folds report). e \<in> set (wf_evaluations f))"
    by blast
qed

lemma fold_returns_complete:
  "length (fold_returns rows) = length rows \<longleftrightarrow> (\<forall>e \<in> set rows. te_average_conditional_net_return_bps e \<noteq> None)"
proof (induction rows)
  case (Cons e rows)
  have "length (fold_returns rows) \<le> length rows"
    by (induction rows) (auto simp: fold_returns_def split: option.splits)
  then show ?case using Cons by (auto simp: fold_returns_def split: option.splits)
qed (simp add: fold_returns_def)

definition meets_thresholds :: "promotion_gate_version \<Rightarrow> promotion_target_result \<Rightarrow> bool" where
  "meets_thresholds gate t = (pg_minimum_selected_count gate \<le> ptr_selected_count t \<and> 0 < ptr_eligible_outcome_count t \<and>
     pg_minimum_outcome_coverage_rate gate \<le> ptr_outcome_coverage_rate t \<and>
     pg_minimum_positive_net_rate gate \<le> ptr_positive_net_rate t \<and>
     (case ptr_average_net_return_bps t of None \<Rightarrow> False | Some a \<Rightarrow> pg_minimum_average_net_return_bps gate \<le> a) \<and>
     (case ptr_worst_fold_net_return_bps t of None \<Rightarrow> False | Some w \<Rightarrow> pg_minimum_worst_fold_net_return_bps gate \<le> w))"

lemma PromotionTargetResult_Inr: "PromotionTargetResult f = Inr g \<Longrightarrow> g = f"
  unfolding PromotionTargetResult_def if_Inl_eq_Inr by simp

lemma eligible_total_pos:
  assumes "rows \<noteq> []" "\<forall>e \<in> set rows. 0 < te_eligible_outcome_count e"
  shows "0 < eligible_total rows"
  using assms
proof (induction rows)
  case (Cons e rows)
  then show ?case by (cases rows) (auto simp: eligible_total_def)
qed simp

lemma target_result_pass:
  assumes "target_result report gate target = Inr t" "ptr_status t = PASS"
    and valid: "\<forall>f \<in> set (wr_folds report). \<forall>e \<in> set (wf_evaluations f). ArbitratedHoldoutEvaluation e = Inr e"
    and ne: "wr_folds report \<noteq> []"
  shows "meets_thresholds gate t"
proof -
  obtain rows average worst coverage positive_rate first where rows: "target_rows target report = Inr rows"
    and steps: "weighted_average rows = Inr average" "worst_fold rows = Inr worst"
    and t: "ptr_selected_count t = sum_list (map te_selected_count rows)" "ptr_eligible_outcome_count t = eligible_total rows"
      "ptr_outcome_coverage_rate t = coverage" "ptr_positive_net_rate t = positive_rate" "ptr_average_net_return_bps t = average"
      "ptr_worst_fold_net_return_bps t = worst"
      "ptr_status t = (let pending = pending_reasons gate (ptr_selected_count t) worst;
         failed = failed_reasons gate (ptr_selected_count t) (eligible_total rows) coverage positive_rate average worst
         in if failed \<noteq> [] then FAIL else if pending \<noteq> [] then PENDING else PASS)"
    using assms(1) by (auto simp: target_result_def Let_def rbind_eq_Inr dest!: PromotionTargetResult_Inr)
  from t(7) assms(2) have sel: "pg_minimum_selected_count gate \<le> ptr_selected_count t" and w: "worst \<noteq> None"
    and fails: "failed_reasons gate (ptr_selected_count t) (eligible_total rows) coverage positive_rate average worst = []"
    by (auto simp: Let_def pending_reasons_def split: if_splits)
  have "\<forall>e \<in> set rows. te_average_conditional_net_return_bps e \<noteq> None"
    using w steps(2) unfolding fold_returns_complete [symmetric] by (auto simp: worst_fold_def split: if_splits)
  moreover have "ArbitratedHoldoutEvaluation e = Inr e" if "e \<in> set rows" for e
    using target_rows_members(2) [OF rows that] valid by blast
  ultimately have "\<forall>e \<in> set rows. 0 < te_eligible_outcome_count e"
    unfolding ArbitratedHoldoutEvaluation_def using validate_evaluation_Inr(2,5) by (metis order_less_le)
  moreover have "rows \<noteq> []" using target_rows_members(1) [OF rows] ne by auto
  ultimately have elig: "0 < eligible_total rows" by (rule eligible_total_pos [rotated])
  then obtain a where a: "average = Some a" using steps(1) by (auto simp: weighted_average_def rbind_eq_Inr split: if_splits)
  show ?thesis using sel w fails a elig t
    by (auto simp: meets_thresholds_def failed_reasons_def split: option.splits if_splits)
qed

lemma PromotionGateReport_Inr: "PromotionGateReport f = Inr g \<Longrightarrow> g = f"
  unfolding PromotionGateReport_def if_Inl_eq_Inr by simp

lemma gate_decision_fields:
  assumes "gate_decision D sessions header gate wfr = Inr report"
  shows "\<exists>hs :: session_report list. gr_capture_gap_count report = sum_list (map sr_capture_gap_count hs)"
    "map_res (target_result wfr gate) (pg_targets gate) = Inr (gr_targets report)"
    "gr_observed_session_count report = gr_observed_session_count header"
    "gr_status report = (if gr_capture_gap_count report > pg_maximum_capture_gap_count gate \<or>
         list_ex (\<lambda>t. ptr_status t = FAIL) (gr_targets report) then FAIL
       else if list_ex (\<lambda>t. ptr_status t = PENDING) (gr_targets report) then PENDING else PASS)"
    "PromotionGateReport report = Inr report"
proof -
  let ?dates = "sort (concat (map wf_holdout_dates (wr_folds wfr)))"
  let ?reasons = "\<lambda>hs :: session_report list. if sum_list (map sr_capture_gap_count hs) > pg_maximum_capture_gap_count gate then [CAPTURE_GAPS] else []"
  obtain hs targets where targets: "map_res (target_result wfr gate) (pg_targets gate) = Inr targets"
    and con: "PromotionGateReport (header\<lparr>gr_holdout_dates := ?dates, gr_capture_gap_count := sum_list (map sr_capture_gap_count hs),
           gr_walk_forward_sha256 := Some (dg_walk_forward D wfr),
           gr_shadow_audit_sha256s := map sr_shadow_audit_sha256 hs,
           gr_status := (if ?reasons hs \<noteq> [] \<or> list_ex (\<lambda>t. ptr_status t = FAIL) targets then FAIL
                         else if list_ex (\<lambda>t. ptr_status t = PENDING) targets then PENDING else PASS),
           gr_reasons := ?reasons hs, gr_targets := targets\<rparr>) = Inr report"
    using assms unfolding gate_decision_def Let_def rbind_eq_Inr by (elim exE conjE) (rule that)
  note rep = PromotionGateReport_Inr [OF con]
  show "\<exists>hs :: session_report list. gr_capture_gap_count report = sum_list (map sr_capture_gap_count hs)"
    by (rule exI [of _ hs]) (simp add: rep)
  show "map_res (target_result wfr gate) (pg_targets gate) = Inr (gr_targets report)" using targets by (simp add: rep)
  show "gr_observed_session_count report = gr_observed_session_count header"
    "gr_status report = (if gr_capture_gap_count report > pg_maximum_capture_gap_count gate \<or>
         list_ex (\<lambda>t. ptr_status t = FAIL) (gr_targets report) then FAIL
       else if list_ex (\<lambda>t. ptr_status t = PENDING) (gr_targets report) then PENDING else PASS)"
    by (simp_all add: rep)
  show "PromotionGateReport report = Inr report" using con rep by simp
qed

lemma gate_header_observed: "gr_observed_session_count (gate_header D evaluation gate arbitration n) = n"
  by (simp add: gate_header_def)

lemma walk_forward_rows_valid:
  assumes "1 \<le> be_holdout_sessions policy"
    and "evaluate_arbitrated_walk_forward D sessions policy arbitration = Some (Inr rep)"
  shows "\<forall>f \<in> set (wr_folds rep). \<forall>e \<in> set (wf_evaluations f). ArbitratedHoldoutEvaluation e = Inr e"
    "wr_folds rep \<noteq> []"
proof -
  obtain k keys where k: "k \<noteq> 0" "length (wr_folds rep) = k"
    and nth: "\<And>i. i < k \<Longrightarrow> build_fold sessions (session_dates sessions) keys policy i
       (be_development_sessions policy + be_purge_sessions policy + i * be_holdout_sessions policy) = Inr (wr_folds rep ! i)"
    using assms by (rule walk_forward_windows) (rule that)
  then show "wr_folds rep \<noteq> []" by auto
  show "\<forall>f \<in> set (wr_folds rep). \<forall>e \<in> set (wf_evaluations f). ArbitratedHoldoutEvaluation e = Inr e"
    using nth k build_fold_rows by (metis in_set_conv_nth)
qed

text \<open>
  The evidence a passing target rests on. \<open>observed_holdout\<close> are the dates of the whole holdout windows after the first
  development and purge windows; \<open>evidence_rows\<close> are the rows of one target in the sessions of given dates, in order. A
  window's return is the average of the daily returns weighted by their eligible outcomes. A certified target carries the
  sums, the rates, the weighted average over the windows and the worst window return of exactly these rows.
\<close>


definition evidence_rows :: "sessions \<Rightarrow> promotion_target \<Rightarrow> date list \<Rightarrow> target_evaluation list \<Rightarrow> bool" where
  "evidence_rows sessions target dates rows \<longleftrightarrow> list_all2 (\<lambda>d e. \<exists>r. map_of sessions d = Some r \<and> e \<in> set (sr_evaluations r) \<and>
     te_strategy e = pt_strategy target \<and> te_symbol e = pt_symbol target \<and>
     te_horizon_seconds e = pt_horizon_seconds target) dates rows"

definition eligible_sum :: "target_evaluation list \<Rightarrow> int" where
  "eligible_sum rows = sum_list (map te_eligible_outcome_count rows)"

definition window_return :: "target_evaluation list \<Rightarrow> decimal \<Rightarrow> bool" where
  "window_return w a \<longleftrightarrow> 0 < eligible_sum w \<and>
     ratio BPS_QUANTUM (dsum (map (\<lambda>e. dmul (the (te_average_conditional_net_return_bps e)) (of_int (te_eligible_outcome_count e)))
        (filter (\<lambda>e. te_average_conditional_net_return_bps e \<noteq> None) w))) (of_int (eligible_sum w)) = Inr a"

definition target_certified ::
  "sessions \<Rightarrow> nat \<Rightarrow> date list \<Rightarrow> promotion_target \<Rightarrow> promotion_target_result \<Rightarrow> bool" where
  "target_certified sessions holdout dates target t \<longleftrightarrow>
     (\<exists>windows returns. evidence_rows sessions target dates (concat windows) \<and> list_all (\<lambda>w. length w = holdout) windows \<and>
        list_all2 window_return windows returns \<and>
        ptr_strategy t = pt_strategy target \<and> ptr_symbol t = pt_symbol target \<and>
        ptr_horizon_seconds t = pt_horizon_seconds target \<and>
        ptr_selected_count t = sum_list (map te_selected_count (concat windows)) \<and>
        ptr_eligible_outcome_count t = eligible_sum (concat windows) \<and>
        ptr_positive_net_count t = sum_list (map te_positive_net_count (concat windows)) \<and>
        ratio RATE_QUANTUM (of_int (ptr_eligible_outcome_count t)) (of_int (ptr_selected_count t)) = Inr (ptr_outcome_coverage_rate t) \<and>
        ratio RATE_QUANTUM (of_int (ptr_positive_net_count t)) (of_int (ptr_eligible_outcome_count t)) = Inr (ptr_positive_net_rate t) \<and>
        (\<exists>a. ptr_average_net_return_bps t = Some a \<and>
           ratio BPS_QUANTUM (dsum (map2 (\<lambda>w r. dmul r (of_int (eligible_sum w))) windows returns))
             (of_int (ptr_eligible_outcome_count t)) = Inr a) \<and>
        returns \<noteq> [] \<and> ptr_worst_fold_net_return_bps t = Some (Min (set returns)))"

lemma evidence_rows_concat:
  "list_all2 (evidence_rows sessions target) ds ws \<Longrightarrow> evidence_rows sessions target (concat ds) (concat ws)"
  by (induction rule: list_all2_induct) (auto simp: evidence_rows_def intro: list_all2_appendI)

lemma combine_Inr:
  assumes "combine rows = Inr e"
  shows "rows \<noteq> []" "te_selected_count e = sum_list (map te_selected_count rows)"
    "te_eligible_outcome_count e = eligible_sum rows" "te_positive_net_count e = sum_list (map te_positive_net_count rows)"
    "weighted_average rows = Inr (te_average_conditional_net_return_bps e)"
  using assms
  by (auto simp: combine_def rbind_eq_Inr ArbitratedHoldoutEvaluation_def eligible_sum_def eligible_total_def
      split: list.splits if_splits dest!: validate_evaluation_Inr(1))

lemma weighted_average_return:
  assumes "weighted_average rows = Inr (Some a)" "0 \<le> eligible_sum rows"
  shows "window_return rows a"
proof -
  have terms: "weighted_terms rows = map (\<lambda>e. dmul (the (te_average_conditional_net_return_bps e)) (of_int (te_eligible_outcome_count e)))
      (filter (\<lambda>e. te_average_conditional_net_return_bps e \<noteq> None) rows)"
    unfolding weighted_terms_def by (induction rows) (auto split: option.splits)
  show ?thesis using assms
    by (auto simp: weighted_average_def rbind_eq_Inr window_return_def terms eligible_total_def eligible_sum_def split: if_splits)
qed

lemma build_fold_evidence:
  assumes "build_fold sessions dates keys policy n start = Inr f" "e \<in> set (wf_evaluations f)" "evaluation_key e = target_key target"
  shows "\<exists>rows. evidence_rows sessions target (wf_holdout_dates f) rows \<and> combine rows = Inr e"
proof -
  obtain es where es: "list_all2 (\<lambda>key e. rbind (map_res (\<lambda>d. evaluation_on sessions d key)
      (take (be_holdout_sessions policy) (drop start dates))) combine = Inr e) keys es" and f: "wf_evaluations f = es"
      "wf_holdout_dates f = take (be_holdout_sessions policy) (drop start dates)"
    using assms(1) by (auto simp: build_fold_def Let_def rbind_eq_Inr map_res_Inr_iff dest!: ArbitratedWalkForwardFold_Inr)
  obtain key rows where rows: "list_all2 (\<lambda>d e. evaluation_on sessions d key = Inr e) (wf_holdout_dates f) rows" "combine rows = Inr e"
    using list_all2_members(1) [OF es, of e] assms(2) unfolding f rbind_eq_Inr map_res_Inr_iff by blast
  have on: "\<exists>r. map_of sessions d = Some r \<and> e \<in> set (sr_evaluations r) \<and> evaluation_key e = key"
    if "evaluation_on sessions d key = Inr e" for d e
    using that by (auto simp: evaluation_on_def session_on_def rbind_eq_Inr split: option.split_asm dest!: keyed_Some)
  have "evaluation_key e = key"
  proof -
    obtain r rs where r: "rows = r # rs" using combine_Inr(1) [OF rows(2)] by (cases rows) auto
    then have "evaluation_key r = key" using rows(1) on by (cases "wf_holdout_dates f") auto
    moreover have "evaluation_key e = evaluation_key r"
      using rows(2) by (auto simp: combine_def r rbind_eq_Inr ArbitratedHoldoutEvaluation_def evaluation_key_def split: if_splits
          dest!: validate_evaluation_Inr(1))
    ultimately show ?thesis by simp
  qed
  then have "key = target_key target" using assms(3) by simp
  then have "evidence_rows sessions target (wf_holdout_dates f) rows" unfolding evidence_rows_def
    by (intro list_all2_mono [OF rows(1)]) (use on in \<open>force simp: evaluation_key_def target_key_def\<close>)
  with rows(2) show ?thesis by blast
qed

lemma target_rows_find:
  assumes "target_rows target report = Inr rows"
  shows "list_all2 (\<lambda>f e. e \<in> set (wf_evaluations f) \<and> evaluation_key e = target_key target) (wr_folds report) rows"
  using assms unfolding target_rows_def map_res_Inr_iff
  by (rule list_all2_mono) (auto simp: find_Some_iff split: option.splits)

lemma fold_returns_all:
  "length (fold_returns rows) = length rows \<Longrightarrow> fold_returns rows = map (the \<circ> te_average_conditional_net_return_bps) rows"
proof (induction rows)
  case (Cons e rows)
  have "length (fold_returns rows) \<le> length rows"
    by (induction rows) (auto simp: fold_returns_def split: option.splits)
  then show ?case using Cons by (auto simp: fold_returns_def split: option.splits)
qed (simp add: fold_returns_def)

lemma row_windows:
  assumes "list_all2 (\<lambda>f e. \<exists>w. evidence_rows sessions target (wf_holdout_dates f) w \<and> combine w = Inr e) folds rows"
  obtains windows where "list_all2 (evidence_rows sessions target) (map wf_holdout_dates folds) windows"
    "list_all2 (\<lambda>w e. combine w = Inr e) windows rows"
proof -
  have "\<forall>i. \<exists>w. i < length folds \<longrightarrow> evidence_rows sessions target (wf_holdout_dates (folds ! i)) w \<and> combine w = Inr (rows ! i)"
    using assms by (auto simp: list_all2_conv_all_nth)
  then obtain W where W: "i < length folds \<Longrightarrow> evidence_rows sessions target (wf_holdout_dates (folds ! i)) (W i) \<and> combine (W i) = Inr (rows ! i)" for i
    by metis
  show thesis
    by (rule that [of "map W [0..<length folds]"]) (use W assms in \<open>auto simp: list_all2_conv_all_nth\<close>)
qed

lemma combined_sums:
  assumes "list_all2 (\<lambda>w e. combine w = Inr e) windows rows"
  shows "sum_list (map te_selected_count rows) = sum_list (map te_selected_count (concat windows))"
    "eligible_total rows = eligible_sum (concat windows)"
    "sum_list (map te_positive_net_count rows) = sum_list (map te_positive_net_count (concat windows))"
  using assms by (induction rule: list_all2_induct) (auto simp: combine_Inr eligible_total_def eligible_sum_def)

lemma combined_terms:
  assumes "list_all2 (\<lambda>w e. combine w = Inr e) windows rows" "\<forall>e \<in> set rows. te_average_conditional_net_return_bps e \<noteq> None"
  shows "weighted_terms rows = map2 (\<lambda>w r. dmul r (of_int (eligible_sum w))) windows (map (the \<circ> te_average_conditional_net_return_bps) rows)"
  using assms by (induction rule: list_all2_induct) (auto simp: weighted_terms_def combine_Inr)

lemma evaluation_fields:
  "evaluation_key e = target_key target \<longleftrightarrow>
     te_strategy e = pt_strategy target \<and> te_symbol e = pt_symbol target \<and> te_horizon_seconds e = pt_horizon_seconds target"
  by (simp add: evaluation_key_def target_key_def)

lemma target_result_certified:
  assumes result: "target_result report gate target = Inr t" and pass: "ptr_status t = PASS" and folds: "wr_folds report \<noteq> []"
    and evidence: "\<And>f e. f \<in> set (wr_folds report) \<Longrightarrow> e \<in> set (wf_evaluations f) \<Longrightarrow> evaluation_key e = target_key target \<Longrightarrow>
      \<exists>w. evidence_rows sessions target (wf_holdout_dates f) w \<and> combine w = Inr e"
    and valid: "\<forall>f \<in> set (wr_folds report). \<forall>e \<in> set (wf_evaluations f). ArbitratedHoldoutEvaluation e = Inr e"
    and sizes: "\<forall>f \<in> set (wr_folds report). length (wf_holdout_dates f) = h"
  shows "target_certified sessions h (concat (map wf_holdout_dates (wr_folds report))) target t"
proof -
  obtain rows average worst coverage positive_rate first where rows: "target_rows target report = Inr rows"
    and steps: "weighted_average rows = Inr average" "worst_fold rows = Inr worst"
      "rate (eligible_total rows) (sum_list (map te_selected_count rows)) = Inr coverage"
      "rate (sum_list (map te_positive_net_count rows)) (eligible_total rows) = Inr positive_rate"
      "index_res rows 0 = Inr first"
    and t: "t = \<lparr>ptr_strategy = te_strategy first, ptr_symbol = te_symbol first,
             ptr_horizon_seconds = pt_horizon_seconds target, ptr_status = ptr_status t, ptr_reasons = ptr_reasons t,
             ptr_selected_count = sum_list (map te_selected_count rows), ptr_eligible_outcome_count = eligible_total rows,
             ptr_positive_net_count = sum_list (map te_positive_net_count rows), ptr_outcome_coverage_rate = coverage,
             ptr_positive_net_rate = positive_rate, ptr_average_net_return_bps = average,
             ptr_worst_fold_net_return_bps = worst\<rparr>"
    using result by (auto simp: target_result_def Let_def rbind_eq_Inr dest!: PromotionTargetResult_Inr)
  have fields: "ptr_strategy t = te_strategy first" "ptr_symbol t = te_symbol first" "ptr_horizon_seconds t = pt_horizon_seconds target"
      "ptr_selected_count t = sum_list (map te_selected_count rows)" "ptr_eligible_outcome_count t = eligible_total rows"
      "ptr_positive_net_count t = sum_list (map te_positive_net_count rows)" "ptr_outcome_coverage_rate t = coverage"
      "ptr_positive_net_rate t = positive_rate" "ptr_average_net_return_bps t = average" "ptr_worst_fold_net_return_bps t = worst"
    by (subst t; simp)+
  have found: "list_all2 (\<lambda>f e. f \<in> set (wr_folds report) \<and> e \<in> set (wf_evaluations f) \<and> evaluation_key e = target_key target)
      (wr_folds report) rows"
    using target_rows_find [OF rows] by (auto simp: list_all2_conv_all_nth)
  then have "list_all2 (\<lambda>f e. \<exists>w. evidence_rows sessions target (wf_holdout_dates f) w \<and> combine w = Inr e) (wr_folds report) rows"
    by (rule list_all2_mono) (use evidence in blast)
  then obtain windows where w: "list_all2 (evidence_rows sessions target) (map wf_holdout_dates (wr_folds report)) windows"
      "list_all2 (\<lambda>w e. combine w = Inr e) windows rows"
    by (rule row_windows)
  have rows_valid: "ArbitratedHoldoutEvaluation e = Inr e" "evaluation_key e = target_key target" if "e \<in> set rows" for e
    using list_all2_members(1) [OF found that] valid by blast+
  have ne: "rows \<noteq> []" using found folds by auto
  then have first: "evaluation_key first = target_key target"
    using steps(5) rows_valid(2) by (auto simp: index_res_def)
  have sel: "worst \<noteq> None"
    using pass result rows steps by (auto simp: target_result_def Let_def rbind_eq_Inr pending_reasons_def failed_reasons_def
        dest!: PromotionTargetResult_Inr split: if_splits)
  then have complete: "length (fold_returns rows) = length rows" and worst: "worst = Some (Min (set (fold_returns rows)))"
    using steps(2) by (auto simp: worst_fold_def split: if_splits)
  note returns = fold_returns_all [OF complete]
  have some: "\<forall>e \<in> set rows. te_average_conditional_net_return_bps e \<noteq> None" using complete by (simp add: fold_returns_complete)
  have "window_return w (the (te_average_conditional_net_return_bps e))" if "combine w = Inr e" "e \<in> set rows" for w e
  proof (rule weighted_average_return)
    show "weighted_average w = Inr (Some (the (te_average_conditional_net_return_bps e)))"
      using combine_Inr(5) [OF that(1)] some that(2) by auto
    show "0 \<le> eligible_sum w" using combine_Inr(3) [OF that(1)] rows_valid(1) [OF that(2)]
      by (metis ArbitratedHoldoutEvaluation_def validate_evaluation_Inr(2))
  qed
  then have wr: "list_all2 window_return windows (fold_returns rows)"
    using w(2) unfolding returns by (auto simp: list_all2_conv_all_nth)
  have "0 < te_eligible_outcome_count e" if "e \<in> set rows" for e
    using some that rows_valid(1) [OF that] unfolding ArbitratedHoldoutEvaluation_def
    using validate_evaluation_Inr(2,5) by (metis order_less_le)
  then have elig: "0 < eligible_total rows" using ne by (intro eligible_total_pos) auto
  have sizes': "list_all (\<lambda>w. length w = h) windows"
  proof -
    have "list_all2 (\<lambda>ds w. length ds = length w) (map wf_holdout_dates (wr_folds report)) windows"
      using w(1) by (rule list_all2_mono) (auto simp: evidence_rows_def dest: list_all2_lengthD)
    then show ?thesis using sizes by (simp add: list_all2_conv_all_nth list_all_length)
  qed
  have rates: "ratio RATE_QUANTUM (of_int (eligible_total rows)) (of_int (sum_list (map te_selected_count rows))) = Inr coverage"
    "ratio RATE_QUANTUM (of_int (sum_list (map te_positive_net_count rows))) (of_int (eligible_total rows)) = Inr positive_rate"
    using steps(3,4) elig by (auto simp: rate_def split: if_splits)
  obtain a where a: "average = Some a" "ratio BPS_QUANTUM (dsum (weighted_terms rows)) (of_int (eligible_total rows)) = Inr a"
    using steps(1) elig by (auto simp: weighted_average_def rbind_eq_Inr)
  show ?thesis unfolding target_certified_def
  proof (intro exI conjI)
    show "evidence_rows sessions target (concat (map wf_holdout_dates (wr_folds report))) (concat windows)"
      using w(1) by (rule evidence_rows_concat)
    show "ratio BPS_QUANTUM (dsum (map2 (\<lambda>w r. dmul r (of_int (eligible_sum w))) windows (fold_returns rows)))
             (of_int (ptr_eligible_outcome_count t)) = Inr a"
      using a(2) unfolding fields(5) returns combined_terms [OF w(2) some] .
    show "fold_returns rows \<noteq> []" using complete ne by auto
  qed (use wr sizes' fields rates worst a first in \<open>simp_all add: combined_sums [OF w(2)] evaluation_fields\<close>)
qed

definition observed_holdout :: "baseline_evaluation_version \<Rightarrow> sessions \<Rightarrow> date list" where
  "observed_holdout policy sessions =
     (let s = be_development_sessions policy + be_purge_sessions policy; h = be_holdout_sessions policy
      in take ((length (session_dates sessions) - s) div h * h) (drop s (session_dates sessions)))"

lemma gate_decision_evidence:
  assumes "gate_decision D sessions header gate wfr = Inr report"
  obtains rs where "list_all2 (\<lambda>d r. map_of sessions d = Some r) (gr_holdout_dates report) rs"
    "gr_holdout_dates report = sort (concat (map wf_holdout_dates (wr_folds wfr)))"
    "gr_shadow_audit_sha256s report = map sr_shadow_audit_sha256 rs"
    "gr_capture_gap_count report = sum_list (map sr_capture_gap_count rs)"
proof -
  have on: "session_on sessions d = Inr r \<longleftrightarrow> map_of sessions d = Some r" for d r
    by (simp add: session_on_def split: option.split)
  show thesis
    using assms unfolding gate_decision_def Let_def rbind_eq_Inr map_res_Inr_iff on
    by (elim exE conjE, intro that) (drule PromotionGateReport_Inr, simp; fail)+
qed

lemma walk_forward_evidence:
  assumes h: "1 \<le> be_holdout_sessions policy"
    and run: "evaluate_arbitrated_walk_forward D sessions policy arbitration = Some (Inr rep)"
  shows "concat (map wf_holdout_dates (wr_folds rep)) = observed_holdout policy sessions"
    "\<forall>f \<in> set (wr_folds rep). length (wf_holdout_dates f) = be_holdout_sessions policy"
    "f \<in> set (wr_folds rep) \<Longrightarrow> e \<in> set (wf_evaluations f) \<Longrightarrow> evaluation_key e = target_key target \<Longrightarrow>
      \<exists>w. evidence_rows sessions target (wf_holdout_dates f) w \<and> combine w = Inr e"
proof -
  let ?dates = "session_dates sessions" and ?h = "be_holdout_sessions policy"
  let ?s = "be_development_sessions policy + be_purge_sessions policy"
  let ?k = "(length ?dates - ?s) div ?h"
  obtain keys where folds: "folds_from sessions ?dates keys policy ?s [] = Some (Inr (wr_folds rep))"
      and req: "required_sessions policy \<le> length ?dates"
    using run by (rule walk_forward_InrE)
  have all: "list_all2 (\<lambda>i f. build_fold sessions ?dates keys policy i (?s + i * ?h) = Inr f) [0..<?k] (wr_folds rep)"
    using folds_from_windows [OF h folds] by auto
  then have len: "length (wr_folds rep) = ?k" by (auto dest: list_all2_lengthD)
  have nth: "build_fold sessions ?dates keys policy i (?s + i * ?h) = Inr (wr_folds rep ! i)" if "i < ?k" for i
    using all that by (simp add: list_all2_conv_all_nth)
  have window: "wf_holdout_dates (wr_folds rep ! i) = take ?h (drop (?s + i * ?h) ?dates)" if "i < ?k" for i
    by (rule build_fold_fields(1)) (rule nth [OF that])
  have "map wf_holdout_dates (wr_folds rep) = map (\<lambda>i. take ?h (drop (?s + i * ?h) ?dates)) [0..<?k]"
    by (rule nth_equalityI) (simp_all add: len window)
  then show "concat (map wf_holdout_dates (wr_folds rep)) = observed_holdout policy sessions"
    by (simp add: concat_windows observed_holdout_def Let_def)
  have "length (wf_holdout_dates (wr_folds rep ! i)) = ?h" if "i < ?k" for i
  proof -
    have "?k * ?h \<le> length ?dates - ?s" by (rule div_times_less_eq_dividend)
    moreover have "Suc i * ?h \<le> ?k * ?h" using that by (intro mult_le_mono1) simp
    ultimately have "?s + i * ?h + ?h \<le> length ?dates" using req unfolding required_sessions_def mult_Suc by linarith
    then show ?thesis by (simp add: window [OF that])
  qed
  then show "\<forall>f \<in> set (wr_folds rep). length (wf_holdout_dates f) = ?h" by (metis in_set_conv_nth len)
  assume "f \<in> set (wr_folds rep)" "e \<in> set (wf_evaluations f)" "evaluation_key e = target_key target"
  then show "\<exists>w. evidence_rows sessions target (wf_holdout_dates f) w \<and> combine w = Inr e"
    using nth len build_fold_evidence by (metis in_set_conv_nth)
qed

text \<open>C34: a PASS report certifies its policy on the evidence: the sessions are enough; the holdout dates are exactly the dates of
  the whole holdout windows; the shadow audits and the sum of the capture gaps are those of the sessions on these
  dates, and the gaps are within the limit. For every target of the gate, in order, the counts, the outcome coverage, the
  positive rate, the average return and the worst window return are those of the rows that the sessions of the holdout
  dates hold for its strategy, symbol and horizon, and each reaches its threshold, on a non-empty population.\<close>

theorem gate_pass_certifies_thresholds:
  assumes "BaselineEvaluationVersion evaluation = Inr evaluation"
    and "evaluate_promotion_gate D sessions evaluation gate arbitration = Some (Inr report)"
    and "gr_status report = PASS"
  shows "required_sessions evaluation \<le> length (session_dates sessions) \<and>
    gr_holdout_dates report = observed_holdout evaluation sessions \<and> gr_holdout_dates report \<noteq> [] \<and>
    (\<exists>rs. list_all2 (\<lambda>d r. map_of sessions d = Some r) (gr_holdout_dates report) rs \<and>
       gr_shadow_audit_sha256s report = map sr_shadow_audit_sha256 rs \<and>
       gr_capture_gap_count report = sum_list (map sr_capture_gap_count rs)) \<and>
    gr_capture_gap_count report \<le> pg_maximum_capture_gap_count gate \<and>
    list_all2 (\<lambda>target t. ptr_status t = PASS \<and> meets_thresholds gate t \<and>
        target_certified sessions (be_holdout_sessions evaluation) (gr_holdout_dates report) target t)
      (pg_targets gate) (gr_targets report)"
proof -
  have h: "1 \<le> be_holdout_sessions evaluation" using assms(1) by (simp add: BaselineEvaluationVersion_def split: if_splits)
  have enough: "required_sessions evaluation \<le> length (session_dates sessions)"
    using assms(2,3)
    by (auto simp: evaluate_promotion_gate_def Let_def rbind_eq_Inr gate_header_def dest!: PromotionGateReport_Inr split: if_splits)
  then obtain wfr where wfr: "evaluate_arbitrated_walk_forward D sessions evaluation arbitration = Some (Inr wfr)"
    and dec: "gate_decision D sessions (gate_header D evaluation gate arbitration (length (session_dates sessions))) gate wfr = Inr report"
    using assms(2) by (auto simp: evaluate_promotion_gate_def Let_def split: if_splits option.splits sum.splits)
  note valid = walk_forward_rows_valid [OF h wfr] and fields = gate_decision_fields [OF dec]
  note evidence = walk_forward_evidence [OF h wfr]
  obtain rs where rs: "list_all2 (\<lambda>d r. map_of sessions d = Some r) (gr_holdout_dates report) rs"
    "gr_holdout_dates report = sort (concat (map wf_holdout_dates (wr_folds wfr)))"
    "gr_shadow_audit_sha256s report = map sr_shadow_audit_sha256 rs"
    "gr_capture_gap_count report = sum_list (map sr_capture_gap_count rs)"
    using dec by (rule gate_decision_evidence)
  have "sorted (observed_holdout evaluation sessions)"
    by (simp add: observed_holdout_def Let_def session_dates_def sorted_set_def sorted_wrt_take sorted_wrt_drop)
  then have dates: "gr_holdout_dates report = observed_holdout evaluation sessions"
    "concat (map wf_holdout_dates (wr_folds wfr)) = gr_holdout_dates report"
    using rs(2) evidence(1) by (simp_all add: sorted_sort_id)
  have gaps: "gr_capture_gap_count report \<le> pg_maximum_capture_gap_count gate"
    and pass: "\<forall>t \<in> set (gr_targets report). ptr_status t = PASS"
    using fields(4) assms(3) by (auto simp: list_ex_iff not_less split: if_splits) (metis promotion_status.exhaust)
  have "meets_thresholds gate t \<and> target_certified sessions (be_holdout_sessions evaluation) (gr_holdout_dates report) target t"
    if "target_result wfr gate target = Inr t" "ptr_status t = PASS" for target t
    using target_result_pass [OF that valid] unfolding dates(2) [symmetric]
    by (rule conjI) (rule target_result_certified [OF that valid(2) _ valid(1) evidence(2)], rule evidence(3))
  then have "list_all2 (\<lambda>target t. ptr_status t = PASS \<and> meets_thresholds gate t \<and>
      target_certified sessions (be_holdout_sessions evaluation) (gr_holdout_dates report) target t) (pg_targets gate) (gr_targets report)"
    using fields(2) pass unfolding map_res_Inr_iff by (auto simp: list_all2_conv_all_nth)
  moreover have "gr_holdout_dates report \<noteq> []"
    using fields(5) assms(3) unfolding PromotionGateReport_def if_Inl_eq_Inr by blast
  ultimately show ?thesis using gaps enough dates(1) rs(1,3,4) by (intro conjI exI [of _ rs])
qed

theorem gate_pass_certifies_thresholds_witness:
  "\<exists>report. evaluate_promotion_gate sample_digests sample_sessions (sample_evaluation ''promo-v1'' PROMOTION) sample_gate
     (sample_arbitration None) = Some (Inr report) \<and> gr_holdout_dates report \<noteq> [] \<and>
     list_all2 (\<lambda>target t. ptr_status t = PASS \<and> meets_thresholds sample_gate t \<and>
        target_certified sample_sessions (be_holdout_sessions (sample_evaluation ''promo-v1'' PROMOTION)) (gr_holdout_dates report) target t)
      (pg_targets sample_gate) (gr_targets report)"
proof -
  have valid: "BaselineEvaluationVersion (sample_evaluation ''promo-v1'' PROMOTION) = Inr (sample_evaluation ''promo-v1'' PROMOTION)"
    by (simp add: sample_evaluation_def BaselineEvaluationVersion_def valid_effective_version_def valid_interval_def
        is_version_def lower_or_digit_def)
  have "case evaluate_promotion_gate sample_digests sample_sessions (sample_evaluation ''promo-v1'' PROMOTION) sample_gate
       (sample_arbitration None) of Some (Inr report) \<Rightarrow> gr_status report = PASS | _ \<Rightarrow> False"
    by code_simp
  then obtain report where run: "evaluate_promotion_gate sample_digests sample_sessions (sample_evaluation ''promo-v1'' PROMOTION)
       sample_gate (sample_arbitration None) = Some (Inr report)" "gr_status report = PASS"
    by (auto split: option.splits sum.splits)
  from gate_pass_certifies_thresholds [OF valid run] show ?thesis
    by (elim conjE, intro exI [of _ report] conjI run(1))
qed

end
