(* ===== verification/PaperModel.thy ===== *)
theory PaperModel
  imports Promotion
begin

text \<open>
  \<^verbatim>\<open>t0_trading/execution/model.py\<close>: the broker-neutral records of paper execution, each with its pydantic
  constructor (field constraints, then the model validator). Timestamps are instants, that is, values the
  \<^verbatim>\<open>_utc\<close> normalisation accepted. Content hashes and the market's local date are the functions of a
  \<open>paper_env\<close>, the argument every operation of the paper runtime takes.
\<close>

section \<open>Market snapshots\<close>

datatype block_reason =
  MARKET_STATUS_INELIGIBLE | STALE_QUOTE | INSUFFICIENT_ASK_QUANTITY | INSUFFICIENT_BID_QUANTITY | PRICE_LIMIT |
  ENTRY_NOT_TERMINAL | ENTRY_UNFILLED | BEFORE_EXIT_HORIZON | POSITION_UNAVAILABLE |
  INSUFFICIENT_SETTLED_ABOVE_CORE | QUANTITY_LIMIT | ORDER_NOTIONAL_LIMIT | CYCLE_LIMIT | DAILY_LOSS_LIMIT | CASH_LIMIT

datatype paper_event_type = ACCEPTED_EVENT | PARTIALLY_FILLED_EVENT | FILLED_EVENT | REJECTED_EVENT | CANCELLED_EVENT | EXPIRED_EVENT

datatype paper_order_status = CREATED | ACCEPTED | PARTIALLY_FILLED | FILLED | REJECTED | CANCELLED | EXPIRED

datatype reservation_status = ENTRY_PENDING | OPEN | EXIT_PENDING

text \<open>
  \<^verbatim>\<open>price % tick\<close> for positive decimals is exact; it raises when the integer quotient does not fit the
  context precision.
\<close>

definition off_tick :: "decimal \<Rightarrow> decimal \<Rightarrow> bool res" where
  "off_tick price tick = (let q = \<lfloor>price / tick\<rfloor> in
     if 10 ^ 28 \<le> q then Inl InvalidOperation else Inr (price \<noteq> of_int q * tick))"

record market_snapshot =
  pm_symbol :: string
  pm_observed_at :: instant
  pm_quote_received_at :: instant
  pm_stream_session_id :: string
  pm_receive_sequence :: int
  pm_best_ask_price :: decimal
  pm_best_ask_quantity :: int
  pm_best_bid_price :: decimal
  pm_best_bid_quantity :: int
  pm_reference_price :: decimal
  pm_ceiling_price :: decimal
  pm_floor_price :: decimal
  pm_tick_size :: decimal
  pm_market_status :: string
  pm_source_sha256 :: string

definition PaperMarketSnapshot :: "market_snapshot \<Rightarrow> market_snapshot res" where
  "PaperMarketSnapshot m =
     (if \<not> (pm_stream_session_id m \<noteq> [] \<and> 1 \<le> pm_receive_sequence m \<and> 0 < pm_best_ask_price m \<and>
             1 \<le> pm_best_ask_quantity m \<and> 0 < pm_best_bid_price m \<and> 1 \<le> pm_best_bid_quantity m \<and>
             0 < pm_reference_price m \<and> 0 < pm_ceiling_price m \<and> 0 < pm_floor_price m \<and> 0 < pm_tick_size m \<and>
             pm_market_status m \<noteq> [] \<and> is_sha256 (pm_source_sha256 m))
      then Inl (ValidationError ''PaperMarketSnapshot'')
      else if \<not> (is_uppercase_identifier (pm_symbol m) \<and> is_uppercase_identifier (pm_market_status m))
      then Inl (ValidationError ''paper market identifiers must be uppercase'')
      else if pm_quote_received_at m > pm_observed_at m
      then Inl (ValidationError ''paper quote cannot be observed before receipt'')
      else if \<not> (pm_floor_price m \<le> pm_reference_price m \<and> pm_reference_price m \<le> pm_ceiling_price m)
      then Inl (ValidationError ''paper security price band is inconsistent'')
      else if \<not> (pm_floor_price m \<le> pm_best_ask_price m \<and> pm_best_ask_price m \<le> pm_ceiling_price m)
      then Inl (ValidationError ''paper ask price is outside the security price band'')
      else if \<not> (pm_floor_price m \<le> pm_best_bid_price m \<and> pm_best_bid_price m < pm_best_ask_price m)
      then Inl (ValidationError ''paper bid/ask prices are crossed or outside the security price band'')
      else rbind (off_tick (pm_best_ask_price m) (pm_tick_size m)) (\<lambda>ask_off.
        rbind (if ask_off then Inr True else off_tick (pm_best_bid_price m) (pm_tick_size m)) (\<lambda>off.
        if off then Inl (ValidationError ''paper quote prices must align to their current tick size'') else Inr m)))"

section \<open>Resource ledger\<close>

record resource_position =
  rp_symbol :: string
  rp_available_exit_quantity :: int

definition PaperResourcePosition :: "resource_position \<Rightarrow> resource_position res" where
  "PaperResourcePosition p = (if is_ticker (rp_symbol p) \<and> 0 \<le> rp_available_exit_quantity p then Inr p
     else Inl (ValidationError ''PaperResourcePosition''))"

record reservation =
  rv_entry_intent_sha256 :: string
  rv_exit_intent_sha256 :: "string option"
  rv_symbol :: string
  rv_status :: reservation_status
  rv_reserved_cash_vnd :: decimal
  rv_reserved_exit_quantity :: int
  rv_entry_filled_quantity :: int
  rv_entry_average_fill_price :: "decimal option"

definition optional_positive :: "decimal option \<Rightarrow> bool" where
  "optional_positive p = (case p of None \<Rightarrow> True | Some x \<Rightarrow> 0 < x)"

definition PaperReservation :: "reservation \<Rightarrow> reservation res" where
  "PaperReservation r =
     (if \<not> (is_sha256 (rv_entry_intent_sha256 r) \<and> optional_sha256 (rv_exit_intent_sha256 r) \<and> is_ticker (rv_symbol r) \<and>
             0 \<le> rv_reserved_cash_vnd r \<and> 0 \<le> rv_reserved_exit_quantity r \<and> 0 \<le> rv_entry_filled_quantity r \<and>
             optional_positive (rv_entry_average_fill_price r))
      then Inl (ValidationError ''PaperReservation'')
      else if (rv_entry_filled_quantity r = 0) \<noteq> (rv_entry_average_fill_price r = None)
      then Inl (ValidationError ''paper reservation entry fill is inconsistent'')
      else if rv_status r = ENTRY_PENDING \<and> (rv_exit_intent_sha256 r \<noteq> None \<or> rv_reserved_cash_vnd r \<le> 0 \<or>
              rv_entry_filled_quantity r \<noteq> 0)
      then Inl (ValidationError ''pending paper entry reservation is inconsistent'')
      else if rv_status r = OPEN \<and> (rv_exit_intent_sha256 r \<noteq> None \<or> rv_reserved_cash_vnd r \<noteq> 0 \<or>
              rv_entry_filled_quantity r = 0 \<or> rv_reserved_exit_quantity r \<noteq> rv_entry_filled_quantity r)
      then Inl (ValidationError ''open paper reservation is inconsistent'')
      else if rv_status r = EXIT_PENDING \<and> (rv_exit_intent_sha256 r = None \<or> rv_reserved_cash_vnd r \<noteq> 0 \<or>
              rv_entry_filled_quantity r = 0 \<or> rv_reserved_exit_quantity r \<noteq> rv_entry_filled_quantity r)
      then Inl (ValidationError ''pending paper exit reservation is inconsistent'')
      else Inr r)"

record resource_ledger =
  lg_trade_date :: date
  lg_account_snapshot_sha256 :: string
  lg_revision :: int
  lg_available_cash_vnd :: decimal
  lg_positions :: "resource_position list"
  lg_started_cycles :: int
  lg_realized_net_pnl_vnd :: decimal
  lg_reservations :: "reservation list"

definition PaperResourceLedger :: "resource_ledger \<Rightarrow> resource_ledger res" where
  "PaperResourceLedger l =
     (let symbols = map rp_symbol (lg_positions l); reservation_ids = map rv_entry_intent_sha256 (lg_reservations l) in
      if \<not> (is_sha256 (lg_account_snapshot_sha256 l) \<and> 0 \<le> lg_revision l \<and> 0 \<le> lg_available_cash_vnd l \<and>
             0 \<le> lg_started_cycles l)
      then Inl (ValidationError ''PaperResourceLedger'')
      else if sorted_set symbols \<noteq> symbols
      then Inl (ValidationError ''paper resource positions must be unique and ordered'')
      else if sorted_set reservation_ids \<noteq> reservation_ids
      then Inl (ValidationError ''paper reservations must be unique and ordered'')
      else if list_ex (\<lambda>r. rv_symbol r \<notin> set symbols) (lg_reservations l)
      then Inl (ValidationError ''paper reservation symbol is absent from account resources'')
      else Inr l)"

section \<open>Requests\<close>

record execution_request =
  rq_candidate :: baseline_candidate
  rq_arbitration :: candidate_arbitration
  rq_promotion :: gate_report
  rq_selection :: selection_evidence
  rq_market :: market_snapshot
  rq_account :: account_snapshot
  rq_costs :: cost_policy
  rq_risk :: risk_limits
  rq_resources :: resource_ledger

section \<open>Intents, plans, events and order states\<close>

datatype leg = ENTRY | EXIT

record order_intent =
  oi_execution_version :: string
  oi_execution_configuration_sha256 :: string
  oi_request_sha256 :: string
  oi_promotion_report_sha256 :: string
  oi_arbitration_sha256 :: string
  oi_candidate_sha256 :: string
  oi_strategy :: string
  oi_symbol :: string
  oi_trade_date :: date
  oi_decision_at :: instant
  oi_horizon_seconds :: int
  oi_leg :: leg
  oi_action :: action
  oi_quantity :: int
  oi_limit_price :: decimal
  oi_priority :: nat
  oi_created_at :: instant
  oi_expires_at :: instant
  oi_reserved_cash_vnd :: decimal
  oi_reserved_exit_quantity :: int
  oi_market_snapshot_sha256 :: string
  oi_selection_source_sha256 :: string
  oi_resource_ledger_sha256 :: string
  oi_parent_intent_sha256 :: "string option"

definition PaperOrderIntent :: "order_intent \<Rightarrow> order_intent res" where
  "PaperOrderIntent i =
     (if \<not> (is_version (oi_execution_version i) \<and> is_sha256 (oi_execution_configuration_sha256 i) \<and>
             is_sha256 (oi_request_sha256 i) \<and> is_sha256 (oi_promotion_report_sha256 i) \<and>
             is_sha256 (oi_arbitration_sha256 i) \<and> is_sha256 (oi_candidate_sha256 i) \<and> is_strategy (oi_strategy i) \<and>
             is_ticker (oi_symbol i) \<and> 1 \<le> oi_horizon_seconds i \<and> oi_horizon_seconds i \<le> 86400 \<and>
             1 \<le> oi_quantity i \<and> 0 < oi_limit_price i \<and> 0 \<le> oi_reserved_cash_vnd i \<and>
             1 \<le> oi_reserved_exit_quantity i \<and> is_sha256 (oi_market_snapshot_sha256 i) \<and>
             is_sha256 (oi_selection_source_sha256 i) \<and> is_sha256 (oi_resource_ledger_sha256 i) \<and>
             optional_sha256 (oi_parent_intent_sha256 i))
      then Inl (ValidationError ''PaperOrderIntent'')
      else if \<not> (oi_decision_at i \<le> oi_created_at i \<and> oi_created_at i < oi_expires_at i)
      then Inl (ValidationError ''paper intent timestamps are not ordered'')
      else if oi_reserved_exit_quantity i \<noteq> oi_quantity i
      then Inl (ValidationError ''paper intent exit reservation must equal order quantity'')
      else if oi_leg i = ENTRY \<and> (oi_action i \<noteq> BUY \<or> oi_parent_intent_sha256 i \<noteq> None \<or> oi_reserved_cash_vnd i \<le> 0)
      then Inl (ValidationError ''paper entry intent is inconsistent'')
      else if oi_leg i = EXIT \<and> (oi_action i \<noteq> SELL \<or> oi_parent_intent_sha256 i = None \<or> oi_reserved_cash_vnd i \<noteq> 0)
      then Inl (ValidationError ''paper exit intent is inconsistent'')
      else Inr i)"

datatype plan_status = READY | BLOCKED

record order_plan =
  pl_arbitration_sha256 :: string
  pl_status :: plan_status
  pl_reasons :: "block_reason list"
  pl_intent :: "order_intent option"

definition PaperOrderPlan :: "order_plan \<Rightarrow> order_plan res" where
  "PaperOrderPlan p =
     (if \<not> is_sha256 (pl_arbitration_sha256 p) then Inl (ValidationError ''PaperOrderPlan'')
      else if fromkeys (pl_reasons p) \<noteq> pl_reasons p
      then Inl (ValidationError ''paper block reasons must be unique and ordered'')
      else if (pl_status p = READY) \<noteq> (pl_intent p \<noteq> None \<and> pl_reasons p = [])
      then Inl (ValidationError ''paper order plan is inconsistent'')
      else Inr p)"

record fill_evidence =
  fe_symbol :: string
  fe_action :: action
  fe_observed_at :: instant
  fe_stream_session_id :: string
  fe_receive_sequence :: int
  fe_filled_quantity :: int
  fe_available_quantity :: int
  fe_fill_price :: decimal
  fe_source_sha256 :: string

definition PaperFillEvidence :: "fill_evidence \<Rightarrow> fill_evidence res" where
  "PaperFillEvidence e =
     (if \<not> (is_ticker (fe_symbol e) \<and> fe_stream_session_id e \<noteq> [] \<and> 1 \<le> fe_receive_sequence e \<and>
             1 \<le> fe_filled_quantity e \<and> 1 \<le> fe_available_quantity e \<and> 0 < fe_fill_price e \<and> is_sha256 (fe_source_sha256 e))
      then Inl (ValidationError ''PaperFillEvidence'')
      else if fe_filled_quantity e > fe_available_quantity e
      then Inl (ValidationError ''paper fill cannot exceed evidenced liquidity'')
      else Inr e)"

record order_event =
  ev_intent_sha256 :: string
  ev_sequence :: int
  ev_event_type :: paper_event_type
  ev_occurred_at :: instant
  ev_cumulative_filled_quantity :: int
  ev_average_fill_price :: "decimal option"
  ev_reason :: "string option"
  ev_adapter_event_id :: string
  ev_adapter_evidence_sha256 :: string
  ev_fill_evidence :: "fill_evidence option"

definition PaperOrderEvent :: "order_event \<Rightarrow> order_event res" where
  "PaperOrderEvent e =
     (if \<not> (is_sha256 (ev_intent_sha256 e) \<and> 1 \<le> ev_sequence e \<and> 0 \<le> ev_cumulative_filled_quantity e \<and>
             optional_positive (ev_average_fill_price e) \<and> ev_adapter_event_id e \<noteq> [] \<and>
             is_sha256 (ev_adapter_evidence_sha256 e))
      then Inl (ValidationError ''PaperOrderEvent'')
      else if (ev_cumulative_filled_quantity e = 0) \<noteq> (ev_average_fill_price e = None)
      then Inl (ValidationError ''paper fill quantity and average price must appear together'')
      else if ev_event_type e \<in> {REJECTED_EVENT, CANCELLED_EVENT, EXPIRED_EVENT} \<and>
              (case ev_reason e of None \<Rightarrow> True | Some r \<Rightarrow> strip r = [])
      then Inl (ValidationError ''terminal paper event requires a reason'')
      else if ev_event_type e \<notin> {REJECTED_EVENT, CANCELLED_EVENT, EXPIRED_EVENT} \<and> ev_reason e \<noteq> None
      then Inl (ValidationError ''non-terminal paper event cannot carry a reason'')
      else if (ev_event_type e \<in> {PARTIALLY_FILLED_EVENT, FILLED_EVENT}) \<noteq> (ev_fill_evidence e \<noteq> None)
      then Inl (ValidationError ''paper fill events require exact market evidence'')
      else Inr e)"

record order_state =
  os_intent_sha256 :: string
  os_status :: paper_order_status
  os_cumulative_filled_quantity :: int
  os_average_fill_price :: "decimal option"
  os_event_count :: nat
  os_last_event_sha256 :: "string option"

definition PaperOrderState :: "order_state \<Rightarrow> order_state res" where
  "PaperOrderState s =
     (if \<not> (is_sha256 (os_intent_sha256 s) \<and> 0 \<le> os_cumulative_filled_quantity s \<and>
             optional_positive (os_average_fill_price s) \<and> optional_sha256 (os_last_event_sha256 s))
      then Inl (ValidationError ''PaperOrderState'')
      else if (os_cumulative_filled_quantity s = 0) \<noteq> (os_average_fill_price s = None)
      then Inl (ValidationError ''paper order state fill quantity and price are inconsistent'')
      else if os_event_count s = 0 \<and> (os_status s \<noteq> CREATED \<or> os_last_event_sha256 s \<noteq> None)
      then Inl (ValidationError ''paper order state without events must remain CREATED'')
      else if os_event_count s > 0 \<and> (os_status s = CREATED \<or> os_last_event_sha256 s = None)
      then Inl (ValidationError ''paper order state with events requires event lineage'')
      else Inr s)"

record exit_request =
  xr_entry_intent :: order_intent
  xr_entry_state :: order_state
  xr_market :: market_snapshot
  xr_resources :: resource_ledger

section \<open>Hashes and the market calendar\<close>

record paper_env =
  pe_market_date :: "instant \<Rightarrow> date"
  pe_candidate_sha :: "baseline_candidate \<Rightarrow> string"
  pe_arbitration_sha :: "candidate_arbitration \<Rightarrow> string"
  pe_promotion_sha :: "gate_report \<Rightarrow> string"
  pe_account_sha :: "account_snapshot \<Rightarrow> string"
  pe_market_sha :: "market_snapshot \<Rightarrow> string"
  pe_ledger_sha :: "resource_ledger \<Rightarrow> string"
  pe_request_sha :: "execution_request \<Rightarrow> string"
  pe_exit_request_sha :: "exit_request \<Rightarrow> string"
  pe_intent_sha :: "order_intent \<Rightarrow> string"
  pe_event_sha :: "order_event \<Rightarrow> string"
  pe_evidence_sha :: "string \<times> string option \<times> paper_event_type \<times> instant \<times> string option \<times> fill_evidence option \<Rightarrow> string"
  pe_execution_sha :: "paper_execution_version \<Rightarrow> string"

definition promoted_targets :: "execution_request \<Rightarrow> promotion_target_result list" where
  "promoted_targets r = filter (\<lambda>t. result_key t =
     (bc_strategy (rq_candidate r), bc_symbol (rq_candidate r), ca_horizon_seconds (rq_arbitration r))) (gr_targets (rq_promotion r))"

definition PaperExecutionRequest :: "paper_env \<Rightarrow> execution_request \<Rightarrow> execution_request res" where
  "PaperExecutionRequest E r =
     (let candidate = rq_candidate r; arbitration = rq_arbitration r; promotion = rq_promotion r; market = rq_market r;
          promoted = promoted_targets r in
      if require_selected_candidate (pe_candidate_sha E) candidate arbitration \<noteq> Inr ()
      then Inl (ValidationError ''candidate and selected arbitration lineage do not match'')
      else if gr_status promotion \<noteq> PASS \<or> gr_arbitration_version promotion \<noteq> ca_arbitration_version arbitration \<or>
              gr_arbitration_configuration_sha256 promotion \<noteq> ca_arbitration_configuration_sha256 arbitration \<or>
              length promoted \<noteq> 1 \<or> ptr_status (hd promoted) \<noteq> PASS \<or> gr_holdout_dates promotion = [] \<or>
              last (gr_holdout_dates promotion) \<ge> bc_trade_date candidate
      then Inl (ValidationError ''paper candidate lacks prior matching promotion evidence'')
      else if sel_arbitration_sha256 (rq_selection r) \<noteq> pe_arbitration_sha E arbitration \<or>
              sel_selected_at (rq_selection r) < bc_decision_at candidate \<or>
              sel_selected_at (rq_selection r) > pm_observed_at market
      then Inl (ValidationError ''paper selection evidence does not match arbitration timing'')
      else if pm_symbol market \<noteq> bc_symbol candidate \<or> pm_observed_at market < bc_decision_at candidate \<or>
              pe_market_date E (pm_observed_at market) \<noteq> bc_trade_date candidate
      then Inl (ValidationError ''paper market snapshot does not match candidate lineage'')
      else if ac_as_of (rq_account r) > pm_observed_at market \<or>
              pe_market_date E (ac_as_of (rq_account r)) \<noteq> bc_trade_date candidate
      then Inl (ValidationError ''paper account snapshot does not precede same-day planning'')
      else if \<not> cost_contains (rq_costs r) (bc_trade_date candidate)
      then Inl (ValidationError ''paper cost policy is not effective for candidate date'')
      else if lg_trade_date (rq_resources r) \<noteq> bc_trade_date candidate \<or>
              lg_account_snapshot_sha256 (rq_resources r) \<noteq> pe_account_sha E (rq_account r)
      then Inl (ValidationError ''paper resource ledger does not match account snapshot'')
      else Inr r)"

definition PaperExitRequest :: "paper_env \<Rightarrow> exit_request \<Rightarrow> exit_request res" where
  "PaperExitRequest E r =
     (let intent = xr_entry_intent r; state = xr_entry_state r; filled = os_cumulative_filled_quantity state in
      if oi_leg intent \<noteq> ENTRY \<or> os_intent_sha256 state \<noteq> pe_intent_sha E intent \<or>
         pm_symbol (xr_market r) \<noteq> oi_symbol intent \<or>
         pe_market_date E (pm_observed_at (xr_market r)) \<noteq> oi_trade_date intent \<or>
         filled > oi_quantity intent \<or> (os_status state = FILLED \<and> filled \<noteq> oi_quantity intent) \<or>
         \<not> list_ex (\<lambda>v. rv_entry_intent_sha256 v = pe_intent_sha E intent \<and> rv_status v = OPEN \<and>
               0 < rv_reserved_exit_quantity v \<and> rv_reserved_exit_quantity v \<le> filled) (lg_reservations (xr_resources r))
      then Inl (ValidationError ''paper exit does not match its entry lineage'')
      else Inr r)"

section \<open>What a constructor guarantees\<close>

lemma PaperReservation_Inr: "PaperReservation r = Inr s \<Longrightarrow> s = r"
  and PaperResourceLedger_Inr: "PaperResourceLedger l = Inr k \<Longrightarrow> k = l"
  and PaperOrderIntent_Inr: "PaperOrderIntent i = Inr j \<Longrightarrow> j = i"
  and PaperOrderState_Inr: "PaperOrderState st = Inr st' \<Longrightarrow> st' = st"
  and PaperOrderEvent_Inr: "PaperOrderEvent e = Inr e' \<Longrightarrow> e' = e"
  and PaperFillEvidence_Inr: "PaperFillEvidence f = Inr f' \<Longrightarrow> f' = f"
  and PaperOrderPlan_Inr: "PaperOrderPlan p = Inr p' \<Longrightarrow> p' = p"
  and PaperResourcePosition_Inr: "PaperResourcePosition q = Inr q' \<Longrightarrow> q' = q"
  by (simp_all only: PaperReservation_def PaperResourceLedger_def PaperOrderIntent_def PaperOrderState_def PaperOrderEvent_def
      PaperFillEvidence_def PaperOrderPlan_def PaperResourcePosition_def Let_def if_Inl_eq_Inr split: if_splits) simp_all

lemma PaperResourceLedger_ok:
  assumes "PaperResourceLedger l = Inr k"
  shows "0 \<le> lg_revision l" "0 \<le> lg_available_cash_vnd l" "0 \<le> lg_started_cycles l"
    "sorted (map rp_symbol (lg_positions l))" "distinct (map rp_symbol (lg_positions l))"
    "sorted (map rv_entry_intent_sha256 (lg_reservations l))" "distinct (map rv_entry_intent_sha256 (lg_reservations l))"
    "\<forall>r \<in> set (lg_reservations l). rv_symbol r \<in> rp_symbol ` set (lg_positions l)"
  using assms unfolding PaperResourceLedger_def Let_def if_Inl_eq_Inr sorted_set_fix
  by (auto simp: list_ex_iff)

lemma PaperReservation_ok:
  assumes "PaperReservation r = Inr s"
  shows "0 \<le> rv_reserved_cash_vnd r" "0 \<le> rv_reserved_exit_quantity r" "0 \<le> rv_entry_filled_quantity r"
    "rv_entry_filled_quantity r = 0 \<longleftrightarrow> rv_entry_average_fill_price r = None"
    "optional_positive (rv_entry_average_fill_price r)"
    "rv_status r = ENTRY_PENDING \<Longrightarrow> rv_exit_intent_sha256 r = None \<and> 0 < rv_reserved_cash_vnd r \<and> rv_entry_filled_quantity r = 0"
    "rv_status r = OPEN \<Longrightarrow> rv_exit_intent_sha256 r = None \<and> rv_reserved_cash_vnd r = 0 \<and> rv_entry_filled_quantity r \<noteq> 0 \<and>
       rv_reserved_exit_quantity r = rv_entry_filled_quantity r"
    "rv_status r = EXIT_PENDING \<Longrightarrow> rv_exit_intent_sha256 r \<noteq> None \<and> rv_reserved_cash_vnd r = 0 \<and>
       rv_entry_filled_quantity r \<noteq> 0 \<and> rv_reserved_exit_quantity r = rv_entry_filled_quantity r"
  using assms unfolding PaperReservation_def if_Inl_eq_Inr by auto

lemma PaperOrderIntent_ok:
  assumes "PaperOrderIntent i = Inr j"
  shows "1 \<le> oi_quantity i" "0 < oi_limit_price i" "0 \<le> oi_reserved_cash_vnd i" "oi_reserved_exit_quantity i = oi_quantity i"
    "oi_decision_at i \<le> oi_created_at i" "oi_created_at i < oi_expires_at i" "is_ticker (oi_symbol i)"
    "oi_leg i = ENTRY \<Longrightarrow> oi_action i = BUY \<and> oi_parent_intent_sha256 i = None \<and> 0 < oi_reserved_cash_vnd i"
    "oi_leg i = EXIT \<Longrightarrow> oi_action i = SELL \<and> oi_parent_intent_sha256 i \<noteq> None \<and> oi_reserved_cash_vnd i = 0"
  using assms unfolding PaperOrderIntent_def if_Inl_eq_Inr by auto

end
