(* ===== verification/PaperLedger.thy ===== *)
theory PaperLedger
  imports PaperModel
begin

text \<open>
  \<^verbatim>\<open>t0_trading/execution/ledger.py\<close>: the pure compare-and-swap transitions of paper cash and settled
  inventory, one definition per function, and the ledger as a machine over its four operations. Every
  transition ends in the constructor of \<^verbatim>\<open>PaperResourceLedger\<close>, so a ledger that exists has passed its
  validator. The inventory of a symbol (available plus reserved exit quantity) is metered by what exits sell.
\<close>

section \<open>Transitions\<close>

definition initialize_paper_ledger :: "paper_env \<Rightarrow> account_snapshot \<Rightarrow> date \<Rightarrow> resource_ledger res" where
  "initialize_paper_ledger E account trade_date =
     (if pe_market_date E (ac_as_of account) \<noteq> trade_date
      then Inl (ValueError ''paper ledger account snapshot must belong to its trade date'')
      else rbind (map_res (\<lambda>p. PaperResourcePosition \<lparr>rp_symbol = ap_symbol p,
                     rp_available_exit_quantity = ap_settled_qty p - ap_core_min_qty p\<rparr>)
                   (sort_key ap_symbol (ac_positions account))) (\<lambda>positions.
        PaperResourceLedger \<lparr>lg_trade_date = trade_date, lg_account_snapshot_sha256 = pe_account_sha E account,
          lg_revision = 0, lg_available_cash_vnd = ac_cash_vnd account, lg_positions = positions, lg_started_cycles = 0,
          lg_realized_net_pnl_vnd = 0, lg_reservations = []\<rparr>))"

text \<open>\<^verbatim>\<open>_next\<close>: the changed fields, one revision later.\<close>

definition next_ledger :: "resource_ledger \<Rightarrow> resource_ledger res" where
  "next_ledger changed = PaperResourceLedger (changed\<lparr>lg_revision := lg_revision changed + 1\<rparr>)"

definition move_position :: "string \<Rightarrow> int \<Rightarrow> resource_position \<Rightarrow> resource_position res" where
  "move_position symbol delta p =
     (let quantity = (if rp_symbol p = symbol then rp_available_exit_quantity p + delta else rp_available_exit_quantity p) in
      if quantity < 0 then Inl (ValueError ''paper reservation exceeds available settled inventory'')
      else PaperResourcePosition \<lparr>rp_symbol = rp_symbol p, rp_available_exit_quantity = quantity\<rparr>)"

definition move_positions :: "resource_ledger \<Rightarrow> string \<Rightarrow> int \<Rightarrow> resource_position list res" where
  "move_positions l symbol delta =
     rbind (map_res (move_position symbol delta) (lg_positions l)) (\<lambda>positions.
       if symbol \<notin> set (map rp_symbol (lg_positions l))
       then Inl (ValueError ''paper reservation symbol is absent from the resource ledger'')
       else Inr positions)"

definition reserve_paper_entry :: "paper_env \<Rightarrow> resource_ledger \<Rightarrow> order_intent \<Rightarrow> resource_ledger res" where
  "reserve_paper_entry E l intent =
     (if oi_leg intent \<noteq> ENTRY \<or> oi_trade_date intent \<noteq> lg_trade_date l \<or>
         oi_resource_ledger_sha256 intent \<noteq> pe_ledger_sha E l \<or>
         list_ex (\<lambda>r. rv_entry_intent_sha256 r = pe_intent_sha E intent) (lg_reservations l) \<or>
         oi_reserved_cash_vnd intent > lg_available_cash_vnd l
      then Inl (ValueError ''paper entry cannot reserve the supplied ledger revision'')
      else rbind (PaperReservation \<lparr>rv_entry_intent_sha256 = pe_intent_sha E intent, rv_exit_intent_sha256 = None,
               rv_symbol = oi_symbol intent, rv_status = ENTRY_PENDING,
               rv_reserved_cash_vnd = oi_reserved_cash_vnd intent,
               rv_reserved_exit_quantity = oi_reserved_exit_quantity intent,
               rv_entry_filled_quantity = 0, rv_entry_average_fill_price = None\<rparr>) (\<lambda>reservation.
        rbind (move_positions l (oi_symbol intent) (- oi_reserved_exit_quantity intent)) (\<lambda>positions.
        next_ledger (l\<lparr>lg_available_cash_vnd := dsub (lg_available_cash_vnd l) (oi_reserved_cash_vnd intent),
          lg_positions := positions, lg_started_cycles := lg_started_cycles l + 1,
          lg_reservations := sort_key rv_entry_intent_sha256 (lg_reservations l @ [reservation])\<rparr>))))"

definition terminal :: "paper_order_status \<Rightarrow> bool" where
  "terminal s = (s \<in> {FILLED, REJECTED, CANCELLED, EXPIRED})"

definition buy_factor :: "cost_policy \<Rightarrow> decimal" where
  "buy_factor costs = dadd 1 (ddiv (cp_buy_fee_bps costs) 10000)"

definition sell_factor :: "cost_policy \<Rightarrow> decimal" where
  "sell_factor costs = dsub 1 (ddiv (dadd (cp_sell_fee_bps costs) (cp_sell_tax_bps costs)) 10000)"

definition entry_spent :: "cost_policy \<Rightarrow> order_state \<Rightarrow> decimal" where
  "entry_spent costs state = (case os_average_fill_price state of None \<Rightarrow> 0
     | Some average \<Rightarrow> dmul (dmul average (of_int (os_cumulative_filled_quantity state))) (buy_factor costs))"

definition open_reservation :: "string \<Rightarrow> string \<Rightarrow> int \<Rightarrow> decimal option \<Rightarrow> reservation res" where
  "open_reservation entry_sha symbol quantity average =
     PaperReservation \<lparr>rv_entry_intent_sha256 = entry_sha, rv_exit_intent_sha256 = None, rv_symbol = symbol,
       rv_status = OPEN, rv_reserved_cash_vnd = 0, rv_reserved_exit_quantity = quantity,
       rv_entry_filled_quantity = quantity, rv_entry_average_fill_price = average\<rparr>"

definition settle_paper_entry ::
  "paper_env \<Rightarrow> resource_ledger \<Rightarrow> order_intent \<Rightarrow> order_state \<Rightarrow> cost_policy \<Rightarrow> resource_ledger res" where
  "settle_paper_entry E l intent state costs =
     (let sha = pe_intent_sha E intent;
          matches = filter (\<lambda>r. rv_entry_intent_sha256 r = sha \<and> rv_status r = ENTRY_PENDING) (lg_reservations l) in
      if oi_leg intent \<noteq> ENTRY \<or> os_intent_sha256 state \<noteq> sha \<or> \<not> terminal (os_status state) \<or> length matches \<noteq> 1 \<or>
         \<not> cost_contains costs (oi_trade_date intent)
      then Inl (ValueError ''paper entry settlement does not match an active reservation'')
      else let reservation = hd matches; filled = os_cumulative_filled_quantity state; spent = entry_spent costs state in
      if spent > rv_reserved_cash_vnd reservation then Inl (ValueError ''paper entry fill exceeds reserved cash'')
      else let remaining = filter (\<lambda>r. rv_entry_intent_sha256 r \<noteq> sha) (lg_reservations l) in
      rbind (if filled \<noteq> 0
             then rbind (open_reservation sha (oi_symbol intent) filled (os_average_fill_price state))
                    (\<lambda>r. Inr (sort_key rv_entry_intent_sha256 (remaining @ [r])))
             else Inr remaining) (\<lambda>reservations.
      rbind (move_positions l (oi_symbol intent) (rv_reserved_exit_quantity reservation - filled)) (\<lambda>positions.
      next_ledger (l\<lparr>lg_available_cash_vnd :=
          dsub (dadd (lg_available_cash_vnd l) (rv_reserved_cash_vnd reservation)) spent,
        lg_positions := positions, lg_reservations := reservations\<rparr>))))"

definition reserve_paper_exit :: "paper_env \<Rightarrow> resource_ledger \<Rightarrow> order_intent \<Rightarrow> resource_ledger res" where
  "reserve_paper_exit E l intent =
     (let matches = filter (\<lambda>r. Some (rv_entry_intent_sha256 r) = oi_parent_intent_sha256 intent \<and> rv_status r = OPEN) (lg_reservations l) in
      if oi_leg intent \<noteq> EXIT \<or> oi_resource_ledger_sha256 intent \<noteq> pe_ledger_sha E l \<or> length matches \<noteq> 1 \<or>
         rv_reserved_exit_quantity (hd matches) \<noteq> oi_quantity intent
      then Inl (ValueError ''paper exit cannot reserve the supplied open cycle'')
      else let selected = hd matches in
      rbind (PaperReservation (selected\<lparr>rv_exit_intent_sha256 := Some (pe_intent_sha E intent), rv_status := EXIT_PENDING\<rparr>)) (\<lambda>replacement.
      next_ledger (l\<lparr>lg_reservations := map (\<lambda>r. if rv_entry_intent_sha256 r = rv_entry_intent_sha256 selected
                                               then replacement else r) (lg_reservations l)\<rparr>)))"

definition exit_realized :: "cost_policy \<Rightarrow> reservation \<Rightarrow> order_state \<Rightarrow> decimal res" where
  "exit_realized costs reservation state =
     (let sold = os_cumulative_filled_quantity state in
      if sold = 0 then Inr 0
      else case (os_average_fill_price state, rv_entry_average_fill_price reservation) of
        (Some average, Some entry_average) \<Rightarrow>
          Inr (dsub (dmul (dmul average (of_int sold)) (sell_factor costs))
                    (dmul (dmul entry_average (of_int sold)) (buy_factor costs)))
      | _ \<Rightarrow> Inl (ValueError ''paper exit settlement requires priced entry and exit fills''))"

definition settle_paper_exit ::
  "paper_env \<Rightarrow> resource_ledger \<Rightarrow> order_intent \<Rightarrow> order_state \<Rightarrow> cost_policy \<Rightarrow> resource_ledger res" where
  "settle_paper_exit E l intent state costs =
     (let sha = pe_intent_sha E intent;
          matches = filter (\<lambda>r. rv_exit_intent_sha256 r = Some sha \<and> rv_status r = EXIT_PENDING) (lg_reservations l) in
      if oi_leg intent \<noteq> EXIT \<or> os_intent_sha256 state \<noteq> sha \<or> \<not> terminal (os_status state) \<or> length matches \<noteq> 1 \<or>
         \<not> cost_contains costs (oi_trade_date intent)
      then Inl (ValueError ''paper exit settlement does not match an active reservation'')
      else let reservation = hd matches; sold = os_cumulative_filled_quantity state in
      if sold > rv_reserved_exit_quantity reservation then Inl (ValueError ''paper exit exceeds its reserved quantity'')
      else rbind (exit_realized costs reservation state) (\<lambda>realized.
      let outstanding = rv_reserved_exit_quantity reservation - sold;
          remaining = filter (\<lambda>r. rv_entry_intent_sha256 r \<noteq> rv_entry_intent_sha256 reservation) (lg_reservations l) in
      rbind (if outstanding \<noteq> 0
             then rbind (open_reservation (rv_entry_intent_sha256 reservation) (rv_symbol reservation) outstanding
                          (rv_entry_average_fill_price reservation))
                    (\<lambda>r. Inr (sort_key rv_entry_intent_sha256 (remaining @ [r])))
             else Inr remaining) (\<lambda>reservations.
      next_ledger (l\<lparr>lg_realized_net_pnl_vnd := dadd (lg_realized_net_pnl_vnd l) realized, lg_reservations := reservations\<rparr>))))"

section \<open>The ledger as a machine\<close>

datatype ledger_op =
    ReserveEntry order_intent
  | SettleEntry order_intent order_state cost_policy
  | ReserveExit order_intent
  | SettleExit order_intent order_state cost_policy

fun ledger_step :: "paper_env \<Rightarrow> resource_ledger \<Rightarrow> ledger_op \<Rightarrow> resource_ledger res" where
  "ledger_step E l (ReserveEntry i) = reserve_paper_entry E l i"
| "ledger_step E l (SettleEntry i s c) = settle_paper_entry E l i s c"
| "ledger_step E l (ReserveExit i) = reserve_paper_exit E l i"
| "ledger_step E l (SettleExit i s c) = settle_paper_exit E l i s c"

fun op_intent :: "ledger_op \<Rightarrow> order_intent" where
  "op_intent (ReserveEntry i) = i"
| "op_intent (SettleEntry i s c) = i"
| "op_intent (ReserveExit i) = i"
| "op_intent (SettleExit i s c) = i"

text \<open>Inventory of one symbol, and what one operation sells of it.\<close>

definition available_quantity :: "string \<Rightarrow> resource_ledger \<Rightarrow> int" where
  "available_quantity s l = sum_list (map (\<lambda>p. if rp_symbol p = s then rp_available_exit_quantity p else 0) (lg_positions l))"

definition reserved_of :: "string \<Rightarrow> reservation \<Rightarrow> int" where
  "reserved_of s r = (if rv_symbol r = s then rv_reserved_exit_quantity r else 0)"

definition inventory :: "string \<Rightarrow> resource_ledger \<Rightarrow> int" where
  "inventory s l = available_quantity s l + sum_list (map (reserved_of s) (lg_reservations l))"

definition sold_quantity :: "paper_env \<Rightarrow> string \<Rightarrow> resource_ledger \<Rightarrow> ledger_op \<Rightarrow> int" where
  "sold_quantity E s l op = (case op of
     SettleExit i st c \<Rightarrow>
       if list_ex (\<lambda>r. rv_exit_intent_sha256 r = Some (pe_intent_sha E i) \<and> rv_status r = EXIT_PENDING \<and> rv_symbol r = s) (lg_reservations l)
       then os_cumulative_filled_quantity st else 0
   | _ \<Rightarrow> 0)"

text \<open>Well-formed ledgers: the validator's facts plus validated positions and reservations.\<close>

definition wf_ledger :: "resource_ledger \<Rightarrow> bool" where
  "wf_ledger l = (PaperResourceLedger l = Inr l \<and> list_all (\<lambda>p. PaperResourcePosition p = Inr p) (lg_positions l) \<and>
     list_all (\<lambda>r. PaperReservation r = Inr r) (lg_reservations l))"

lemma wf_ledger_facts:
  assumes "wf_ledger l"
  shows "distinct (map rp_symbol (lg_positions l))" "sorted (map rp_symbol (lg_positions l))"
    "distinct (map rv_entry_intent_sha256 (lg_reservations l))" "0 \<le> lg_available_cash_vnd l"
    "r \<in> set (lg_reservations l) \<Longrightarrow> PaperReservation r = Inr r"
    "p \<in> set (lg_positions l) \<Longrightarrow> 0 \<le> rp_available_exit_quantity p"
    "r \<in> set (lg_reservations l) \<Longrightarrow> rv_symbol r \<in> rp_symbol ` set (lg_positions l)"
proof -
  have l: "PaperResourceLedger l = Inr l" using assms by (simp add: wf_ledger_def)
  note ok = PaperResourceLedger_ok [OF l]
  show "distinct (map rp_symbol (lg_positions l))" "sorted (map rp_symbol (lg_positions l))"
    "distinct (map rv_entry_intent_sha256 (lg_reservations l))" "0 \<le> lg_available_cash_vnd l"
    by (fact ok)+
  show "r \<in> set (lg_reservations l) \<Longrightarrow> PaperReservation r = Inr r"
    using assms by (auto simp: wf_ledger_def list_all_iff)
  show "r \<in> set (lg_reservations l) \<Longrightarrow> rv_symbol r \<in> rp_symbol ` set (lg_positions l)" using ok(8) by blast
  assume "p \<in> set (lg_positions l)"
  then have "PaperResourcePosition p = Inr p" using assms by (auto simp: wf_ledger_def list_all_iff)
  then show "0 \<le> rp_available_exit_quantity p" by (simp add: PaperResourcePosition_def split: if_splits)
qed

section \<open>The parts of a transition\<close>

lemma next_ledger_Inr:
  assumes "next_ledger l = Inr l'"
  shows "l' = l\<lparr>lg_revision := lg_revision l + 1\<rparr>" "PaperResourceLedger l' = Inr l'"
  using assms PaperResourceLedger_Inr unfolding next_ledger_def by metis+

lemma move_position_Inr:
  assumes "move_position s d p = Inr q"
  shows "rp_symbol q = rp_symbol p" "rp_available_exit_quantity q = rp_available_exit_quantity p + (if rp_symbol p = s then d else 0)"
    "PaperResourcePosition q = Inr q"
proof -
  have con: "PaperResourcePosition \<lparr>rp_symbol = rp_symbol p, rp_available_exit_quantity =
      if rp_symbol p = s then rp_available_exit_quantity p + d else rp_available_exit_quantity p\<rparr> = Inr q"
    using assms by (simp add: move_position_def Let_def if_Inl_eq_Inr)
  note q = PaperResourcePosition_Inr [OF con]
  show "rp_symbol q = rp_symbol p" "rp_available_exit_quantity q = rp_available_exit_quantity p + (if rp_symbol p = s then d else 0)"
    "PaperResourcePosition q = Inr q"
    using con by (simp_all add: q)
qed

lemma move_positions_Inr:
  assumes "move_positions l s d = Inr ps"
  shows "list_all2 (\<lambda>p q. rp_symbol q = rp_symbol p \<and>
      rp_available_exit_quantity q = rp_available_exit_quantity p + (if rp_symbol p = s then d else 0)) (lg_positions l) ps"
    "list_all (\<lambda>q. PaperResourcePosition q = Inr q) ps" "s \<in> rp_symbol ` set (lg_positions l)"
proof -
  have ps: "list_all2 (\<lambda>p q. move_position s d p = Inr q) (lg_positions l) ps" and "s \<in> rp_symbol ` set (lg_positions l)"
    using assms by (auto simp: move_positions_def rbind_eq_Inr map_res_Inr_iff split: if_splits)
  then show "s \<in> rp_symbol ` set (lg_positions l)" by simp
  show "list_all2 (\<lambda>p q. rp_symbol q = rp_symbol p \<and>
      rp_available_exit_quantity q = rp_available_exit_quantity p + (if rp_symbol p = s then d else 0)) (lg_positions l) ps"
    using ps by (rule list_all2_mono) (auto dest: move_position_Inr)
  show "list_all (\<lambda>q. PaperResourcePosition q = Inr q) ps"
    using list_all2_members(1) [OF ps] move_position_Inr(3) by (force simp: list_all_iff)
qed

lemma move_positions_available:
  assumes "move_positions l s d = Inr ps" "distinct (map rp_symbol (lg_positions l))"
  shows "sum_list (map (\<lambda>p. if rp_symbol p = t then rp_available_exit_quantity p else 0) ps) =
    available_quantity t l + (if t = s then d else 0)"
proof -
  have "sum_list (map (\<lambda>p. if rp_symbol p = t then rp_available_exit_quantity p else 0) qs) =
      sum_list (map (\<lambda>p. if rp_symbol p = t then rp_available_exit_quantity p else 0) ps) +
      (if t = s \<and> s \<in> rp_symbol ` set ps then d else 0)"
    if "list_all2 (\<lambda>p q. rp_symbol q = rp_symbol p \<and>
      rp_available_exit_quantity q = rp_available_exit_quantity p + (if rp_symbol p = s then d else 0)) ps qs"
      "distinct (map rp_symbol ps)" for ps qs :: "resource_position list"
    using that by (induction rule: list_all2_induct) auto
  from this [OF move_positions_Inr(1) [OF assms(1)] assms(2)] move_positions_Inr(3) [OF assms(1)]
  show ?thesis by (simp add: available_quantity_def)
qed

text \<open>What every accepted operation has in common.\<close>

lemma open_reservation_Inr:
  assumes "open_reservation sha s q avg = Inr r"
  shows "rv_entry_intent_sha256 r = sha" "rv_symbol r = s" "rv_reserved_exit_quantity r = q" "rv_reserved_cash_vnd r = 0"
    "rv_status r = OPEN" "PaperReservation r = Inr r" "rv_exit_intent_sha256 r = None"
    "rv_entry_average_fill_price r = avg" "rv_entry_filled_quantity r = q"
  using assms PaperReservation_Inr [OF assms [unfolded open_reservation_def]] by (simp_all add: open_reservation_def)

text \<open>The reservation list after replacing the entry of one key by at most one new entry.\<close>

definition replaced :: "reservation list \<Rightarrow> reservation \<Rightarrow> reservation list \<Rightarrow> reservation list \<Rightarrow> bool" where
  "replaced old r new result \<longleftrightarrow> length new \<le> 1 \<and>
     mset result = mset (filter (\<lambda>x. rv_entry_intent_sha256 x \<noteq> rv_entry_intent_sha256 r) old @ new) \<and>
     (\<forall>x \<in> set new. rv_entry_intent_sha256 x = rv_entry_intent_sha256 r \<and> PaperReservation x = Inr x)"

lemma replaced_sum:
  fixes g :: "reservation \<Rightarrow> 'b::comm_monoid_add"
  assumes "replaced old r new result" "distinct (map rv_entry_intent_sha256 old)" "r \<in> set old"
  shows "sum_list (map g result) + g r = sum_list (map g old) + sum_list (map g new)"
proof -
  let ?rest = "filter (\<lambda>x. rv_entry_intent_sha256 x \<noteq> rv_entry_intent_sha256 r) old"
  have "mset result = mset (?rest @ new)" using assms(1) unfolding replaced_def by blast
  then have "image_mset g (mset result) = image_mset g (mset (?rest @ new))" by (rule arg_cong)
  then have "sum_list (map g result) = sum_list (map g (?rest @ new))"
    unfolding mset_map [symmetric] by (rule sum_list_mset_eq)
  then show ?thesis using sum_list_remove_key [OF assms(2,3), of g] by (simp add: ac_simps)
qed

lemma replaced_members:
  assumes "replaced old r new result"
  shows "set result = {x \<in> set old. rv_entry_intent_sha256 x \<noteq> rv_entry_intent_sha256 r} \<union> set new"
proof -
  have "set result = set (filter (\<lambda>x. rv_entry_intent_sha256 x \<noteq> rv_entry_intent_sha256 r) old @ new)"
    using assms by (metis mset_eq_setD replaced_def)
  then show ?thesis by auto
qed

section \<open>The shape of each accepted operation\<close>

lemma reserve_entry_shape:
  assumes "reserve_paper_entry E l i = Inr l'"
  obtains r ps where "oi_leg i = ENTRY" "oi_trade_date i = lg_trade_date l" "oi_resource_ledger_sha256 i = pe_ledger_sha E l"
    "\<forall>r \<in> set (lg_reservations l). rv_entry_intent_sha256 r \<noteq> pe_intent_sha E i" "oi_reserved_cash_vnd i \<le> lg_available_cash_vnd l"
    "PaperReservation r = Inr r" "rv_entry_intent_sha256 r = pe_intent_sha E i" "rv_symbol r = oi_symbol i"
    "rv_status r = ENTRY_PENDING" "rv_reserved_cash_vnd r = oi_reserved_cash_vnd i"
    "rv_reserved_exit_quantity r = oi_reserved_exit_quantity i"
    "move_positions l (oi_symbol i) (- oi_reserved_exit_quantity i) = Inr ps"
    "l' = l\<lparr>lg_available_cash_vnd := dsub (lg_available_cash_vnd l) (oi_reserved_cash_vnd i), lg_positions := ps,
       lg_started_cycles := lg_started_cycles l + 1,
       lg_reservations := sort_key rv_entry_intent_sha256 (lg_reservations l @ [r]), lg_revision := lg_revision l + 1\<rparr>"
    "PaperResourceLedger l' = Inr l'"
proof -
  let ?new = "\<lparr>rv_entry_intent_sha256 = pe_intent_sha E i, rv_exit_intent_sha256 = None,
      rv_symbol = oi_symbol i, rv_status = ENTRY_PENDING, rv_reserved_cash_vnd = oi_reserved_cash_vnd i,
      rv_reserved_exit_quantity = oi_reserved_exit_quantity i, rv_entry_filled_quantity = 0, rv_entry_average_fill_price = None\<rparr>"
  obtain r ps where guard: "oi_leg i = ENTRY" "oi_trade_date i = lg_trade_date l" "oi_resource_ledger_sha256 i = pe_ledger_sha E l"
      "\<forall>r \<in> set (lg_reservations l). rv_entry_intent_sha256 r \<noteq> pe_intent_sha E i" "oi_reserved_cash_vnd i \<le> lg_available_cash_vnd l"
    and r: "PaperReservation ?new = Inr r" and ps: "move_positions l (oi_symbol i) (- oi_reserved_exit_quantity i) = Inr ps"
    and n: "next_ledger (l\<lparr>lg_available_cash_vnd := dsub (lg_available_cash_vnd l) (oi_reserved_cash_vnd i),
          lg_positions := ps, lg_started_cycles := lg_started_cycles l + 1,
          lg_reservations := sort_key rv_entry_intent_sha256 (lg_reservations l @ [r])\<rparr>) = Inr l'"
    using assms unfolding reserve_paper_entry_def if_Inl_eq_Inr rbind_eq_Inr by (auto simp: list_ex_iff)
  note r' = PaperReservation_Inr [OF r]
  show thesis
    by (rule that [of r ps]) (use guard r ps next_ledger_Inr [OF n] in \<open>simp_all add: r'\<close>)
qed

lemma settle_entry_shape:
  assumes "settle_paper_entry E l i st c = Inr l'"
  obtains r new ps where "oi_leg i = ENTRY" "os_intent_sha256 st = pe_intent_sha E i" "terminal (os_status st)"
    "r \<in> set (lg_reservations l)" "rv_entry_intent_sha256 r = pe_intent_sha E i" "rv_status r = ENTRY_PENDING"
    "entry_spent c st \<le> rv_reserved_cash_vnd r"
    "replaced (lg_reservations l) r new (lg_reservations l')"
    "os_cumulative_filled_quantity st = 0 \<Longrightarrow> new = []"
    "os_cumulative_filled_quantity st \<noteq> 0 \<Longrightarrow> \<exists>o'. new = [o'] \<and>
       open_reservation (pe_intent_sha E i) (oi_symbol i) (os_cumulative_filled_quantity st) (os_average_fill_price st) = Inr o'"
    "move_positions l (oi_symbol i) (rv_reserved_exit_quantity r - os_cumulative_filled_quantity st) = Inr ps"
    "l' = l\<lparr>lg_available_cash_vnd := dsub (dadd (lg_available_cash_vnd l) (rv_reserved_cash_vnd r)) (entry_spent c st),
       lg_positions := ps, lg_reservations := lg_reservations l', lg_revision := lg_revision l + 1\<rparr>"
    "PaperResourceLedger l' = Inr l'"
proof -
  let ?sha = "pe_intent_sha E i" and ?filled = "os_cumulative_filled_quantity st"
  let ?P = "\<lambda>r. rv_entry_intent_sha256 r = pe_intent_sha E i \<and> rv_status r = ENTRY_PENDING"
  let ?r = "hd (filter ?P (lg_reservations l))"
  let ?rest = "filter (\<lambda>r. rv_entry_intent_sha256 r \<noteq> pe_intent_sha E i) (lg_reservations l)"
  from assms obtain rs ps where guard: "oi_leg i = ENTRY" "os_intent_sha256 st = ?sha" "terminal (os_status st)"
      "length (filter ?P (lg_reservations l)) = 1" "entry_spent c st \<le> rv_reserved_cash_vnd ?r"
    and rs: "(if ?filled \<noteq> 0 then rbind (open_reservation ?sha (oi_symbol i) ?filled (os_average_fill_price st))
                    (\<lambda>r. Inr (sort_key rv_entry_intent_sha256 (?rest @ [r]))) else Inr ?rest) = Inr rs"
    and ps: "move_positions l (oi_symbol i) (rv_reserved_exit_quantity ?r - ?filled) = Inr ps"
    and n: "next_ledger (l\<lparr>lg_available_cash_vnd := dsub (dadd (lg_available_cash_vnd l) (rv_reserved_cash_vnd ?r)) (entry_spent c st),
        lg_positions := ps, lg_reservations := rs\<rparr>) = Inr l'"
    unfolding settle_paper_entry_def Let_def if_Inl_eq_Inr rbind_eq_Inr by auto
  note r = singleton_filter [OF guard(4)]
  from rs obtain new where new: "mset rs = mset (?rest @ new)" "?filled = 0 \<Longrightarrow> new = []"
      "?filled \<noteq> 0 \<Longrightarrow> \<exists>o'. new = [o'] \<and> open_reservation ?sha (oi_symbol i) ?filled (os_average_fill_price st) = Inr o'"
  proof (cases "?filled = 0")
    case False
    with rs obtain o' where "open_reservation ?sha (oi_symbol i) ?filled (os_average_fill_price st) = Inr o'"
        "rs = sort_key rv_entry_intent_sha256 (?rest @ [o'])" by (auto simp: rbind_eq_Inr)
    with False that [of "[o']"] show thesis by simp
  qed (use that [of "[]"] in simp)
  have rep: "replaced (lg_reservations l) ?r new rs"
    using new r(2) by (cases "?filled = 0") (auto simp: replaced_def dest: open_reservation_Inr(1,6))
  note l' = next_ledger_Inr [OF n]
  show thesis
    by (rule that [of ?r new ps]) (use guard r new rep ps l'(2) in \<open>simp_all add: l'(1)\<close>)
qed

lemma reserve_exit_shape:
  assumes "reserve_paper_exit E l i = Inr l'"
  obtains r r' where "oi_leg i = EXIT" "oi_resource_ledger_sha256 i = pe_ledger_sha E l" "r \<in> set (lg_reservations l)"
    "oi_parent_intent_sha256 i = Some (rv_entry_intent_sha256 r)" "rv_status r = OPEN" "rv_reserved_exit_quantity r = oi_quantity i"
    "r' = r\<lparr>rv_exit_intent_sha256 := Some (pe_intent_sha E i), rv_status := EXIT_PENDING\<rparr>" "PaperReservation r' = Inr r'"
    "l' = l\<lparr>lg_reservations := map (\<lambda>x. if rv_entry_intent_sha256 x = rv_entry_intent_sha256 r then r' else x) (lg_reservations l),
       lg_revision := lg_revision l + 1\<rparr>"
    "PaperResourceLedger l' = Inr l'"
proof -
  let ?P = "\<lambda>r. Some (rv_entry_intent_sha256 r) = oi_parent_intent_sha256 i \<and> rv_status r = OPEN"
  let ?r = "hd (filter ?P (lg_reservations l))"
  let ?r' = "?r\<lparr>rv_exit_intent_sha256 := Some (pe_intent_sha E i), rv_status := EXIT_PENDING\<rparr>"
  from assms obtain r' where guard: "oi_leg i = EXIT" "oi_resource_ledger_sha256 i = pe_ledger_sha E l"
      "length (filter ?P (lg_reservations l)) = 1" "rv_reserved_exit_quantity ?r = oi_quantity i"
    and r': "PaperReservation ?r' = Inr r'"
    and n: "next_ledger (l\<lparr>lg_reservations := map (\<lambda>x. if rv_entry_intent_sha256 x = rv_entry_intent_sha256 ?r then r' else x) (lg_reservations l)\<rparr>) = Inr l'"
    unfolding reserve_paper_exit_def Let_def if_Inl_eq_Inr rbind_eq_Inr by auto
  note r = singleton_filter [OF guard(3)] and eq = PaperReservation_Inr [OF r']
  show thesis
    by (rule that [of ?r r']) (use guard r r' next_ledger_Inr [OF n] in \<open>simp_all add: eq\<close>)
qed

lemma settle_exit_shape:
  assumes "settle_paper_exit E l i st c = Inr l'"
  obtains r new realized where "oi_leg i = EXIT" "os_intent_sha256 st = pe_intent_sha E i" "terminal (os_status st)"
    "r \<in> set (lg_reservations l)" "rv_exit_intent_sha256 r = Some (pe_intent_sha E i)" "rv_status r = EXIT_PENDING"
    "filter (\<lambda>r. rv_exit_intent_sha256 r = Some (pe_intent_sha E i) \<and> rv_status r = EXIT_PENDING) (lg_reservations l) = [r]"
    "os_cumulative_filled_quantity st \<le> rv_reserved_exit_quantity r" "exit_realized c r st = Inr realized"
    "replaced (lg_reservations l) r new (lg_reservations l')"
    "rv_reserved_exit_quantity r = os_cumulative_filled_quantity st \<Longrightarrow> new = []"
    "rv_reserved_exit_quantity r \<noteq> os_cumulative_filled_quantity st \<Longrightarrow> \<exists>o'. new = [o'] \<and>
       open_reservation (rv_entry_intent_sha256 r) (rv_symbol r)
         (rv_reserved_exit_quantity r - os_cumulative_filled_quantity st) (rv_entry_average_fill_price r) = Inr o'"
    "l' = l\<lparr>lg_realized_net_pnl_vnd := dadd (lg_realized_net_pnl_vnd l) realized, lg_reservations := lg_reservations l',
       lg_revision := lg_revision l + 1\<rparr>"
    "PaperResourceLedger l' = Inr l'"
proof -
  let ?P = "\<lambda>r. rv_exit_intent_sha256 r = Some (pe_intent_sha E i) \<and> rv_status r = EXIT_PENDING"
  let ?r = "hd (filter ?P (lg_reservations l))" and ?sold = "os_cumulative_filled_quantity st"
  let ?rest = "filter (\<lambda>x. rv_entry_intent_sha256 x \<noteq> rv_entry_intent_sha256 ?r) (lg_reservations l)"
  let ?out = "rv_reserved_exit_quantity ?r - ?sold"
  from assms obtain realized rs where guard: "oi_leg i = EXIT" "os_intent_sha256 st = pe_intent_sha E i" "terminal (os_status st)"
      "length (filter ?P (lg_reservations l)) = 1" "?sold \<le> rv_reserved_exit_quantity ?r" "exit_realized c ?r st = Inr realized"
    and rs: "(if ?out \<noteq> 0 then rbind (open_reservation (rv_entry_intent_sha256 ?r) (rv_symbol ?r) ?out (rv_entry_average_fill_price ?r))
                    (\<lambda>r. Inr (sort_key rv_entry_intent_sha256 (?rest @ [r]))) else Inr ?rest) = Inr rs"
    and n: "next_ledger (l\<lparr>lg_realized_net_pnl_vnd := dadd (lg_realized_net_pnl_vnd l) realized, lg_reservations := rs\<rparr>) = Inr l'"
    unfolding settle_paper_exit_def Let_def if_Inl_eq_Inr rbind_eq_Inr by auto
  note r = singleton_filter [OF guard(4)]
  have single: "filter ?P (lg_reservations l) = [?r]"
    using guard(4) by (cases "filter ?P (lg_reservations l)") auto
  from rs obtain new where new: "mset rs = mset (?rest @ new)" "?out = 0 \<Longrightarrow> new = []"
      "?out \<noteq> 0 \<Longrightarrow> \<exists>o'. new = [o'] \<and> open_reservation (rv_entry_intent_sha256 ?r) (rv_symbol ?r) ?out (rv_entry_average_fill_price ?r) = Inr o'"
  proof (cases "?out = 0")
    case False
    with rs obtain o' where "open_reservation (rv_entry_intent_sha256 ?r) (rv_symbol ?r) ?out (rv_entry_average_fill_price ?r) = Inr o'"
        "rs = sort_key rv_entry_intent_sha256 (?rest @ [o'])" by (auto simp: rbind_eq_Inr)
    with False that [of "[o']"] show thesis by simp
  qed (use that [of "[]"] in simp)
  have rep: "replaced (lg_reservations l) ?r new rs"
    using new by (cases "?out = 0") (auto simp: replaced_def dest: open_reservation_Inr(1,6))
  note l' = next_ledger_Inr [OF n]
  show thesis
    by (rule that [of ?r realized new]) (use guard r single new rep l'(2) in \<open>simp_all add: l'(1)\<close>)
qed

section \<open>Every accepted operation keeps the ledger well formed\<close>

lemma wf_ledgerI:
  assumes "PaperResourceLedger l = Inr l" "list_all (\<lambda>p. PaperResourcePosition p = Inr p) (lg_positions l)"
    "\<And>r. r \<in> set (lg_reservations l) \<Longrightarrow> PaperReservation r = Inr r"
  shows "wf_ledger l"
  using assms by (simp add: wf_ledger_def list_all_iff)

lemma replaced_valid:
  assumes "wf_ledger l" "replaced (lg_reservations l) r new rs" "x \<in> set rs"
  shows "PaperReservation x = Inr x"
  using replaced_members [OF assms(2)] assms wf_ledger_facts(5) [OF assms(1)] by (auto simp: replaced_def)

lemma ledger_step_wf:
  assumes "wf_ledger l" "ledger_step E l op = Inr l'"
  shows "wf_ledger l'"
proof (cases op)
  case (ReserveEntry i)
  with assms(2) have "reserve_paper_entry E l i = Inr l'" by simp
  then show ?thesis
  proof (rule reserve_entry_shape)
    fix r ps
    assume "PaperReservation r = Inr r" "move_positions l (oi_symbol i) (- oi_reserved_exit_quantity i) = Inr ps"
      "PaperResourceLedger l' = Inr l'"
      "l' = l\<lparr>lg_available_cash_vnd := dsub (lg_available_cash_vnd l) (oi_reserved_cash_vnd i), lg_positions := ps,
       lg_started_cycles := lg_started_cycles l + 1,
       lg_reservations := sort_key rv_entry_intent_sha256 (lg_reservations l @ [r]), lg_revision := lg_revision l + 1\<rparr>"
    then show ?thesis using move_positions_Inr(2) wf_ledger_facts(5) [OF assms(1)] by (intro wf_ledgerI) auto
  qed
next
  case (SettleEntry i st c)
  with assms(2) have "settle_paper_entry E l i st c = Inr l'" by simp
  then obtain r new ps where rep: "replaced (lg_reservations l) r new (lg_reservations l')"
    and ps: "move_positions l (oi_symbol i) (rv_reserved_exit_quantity r - os_cumulative_filled_quantity st) = Inr ps"
    and l': "l' = l\<lparr>lg_available_cash_vnd := dsub (dadd (lg_available_cash_vnd l) (rv_reserved_cash_vnd r)) (entry_spent c st),
       lg_positions := ps, lg_reservations := lg_reservations l', lg_revision := lg_revision l + 1\<rparr>"
    and v: "PaperResourceLedger l' = Inr l'"
    by (rule settle_entry_shape)
  have "lg_positions l' = ps" by (subst l') simp
  then show ?thesis using v move_positions_Inr(2) [OF ps] replaced_valid [OF assms(1) rep] by (intro wf_ledgerI) auto
next
  case (ReserveExit i)
  with assms(2) have "reserve_paper_exit E l i = Inr l'" by simp
  then show ?thesis
  proof (rule reserve_exit_shape)
    fix r r'
    assume "PaperReservation r' = Inr r'" "PaperResourceLedger l' = Inr l'"
      "l' = l\<lparr>lg_reservations := map (\<lambda>x. if rv_entry_intent_sha256 x = rv_entry_intent_sha256 r then r' else x) (lg_reservations l),
       lg_revision := lg_revision l + 1\<rparr>"
    then show ?thesis using assms(1) wf_ledger_facts(5) [OF assms(1)]
      by (intro wf_ledgerI) (auto simp: wf_ledger_def)
  qed
next
  case (SettleExit i st c)
  with assms(2) have "settle_paper_exit E l i st c = Inr l'" by simp
  then obtain r new realized where rep: "replaced (lg_reservations l) r new (lg_reservations l')"
    and l': "l' = l\<lparr>lg_realized_net_pnl_vnd := dadd (lg_realized_net_pnl_vnd l) realized, lg_reservations := lg_reservations l',
       lg_revision := lg_revision l + 1\<rparr>" and v: "PaperResourceLedger l' = Inr l'"
    by (rule settle_exit_shape)
  have "lg_positions l' = lg_positions l" by (subst l') simp
  then show ?thesis using assms(1) v replaced_valid [OF assms(1) rep] by (intro wf_ledgerI) (auto simp: wf_ledger_def)
qed

lemma initialize_Inr:
  assumes "initialize_paper_ledger E account d = Inr l"
  shows "wf_ledger l" "lg_reservations l = []" "lg_available_cash_vnd l = ac_cash_vnd account" "lg_revision l = 0"
    "list_all2 (\<lambda>p q. rp_symbol q = ap_symbol p \<and> rp_available_exit_quantity q = ap_settled_qty p - ap_core_min_qty p)
       (sort_key ap_symbol (ac_positions account)) (lg_positions l)" "lg_trade_date l = d"
    "lg_account_snapshot_sha256 l = pe_account_sha E account"
proof -
  obtain ps where ps: "list_all2 (\<lambda>p q. PaperResourcePosition \<lparr>rp_symbol = ap_symbol p,
        rp_available_exit_quantity = ap_settled_qty p - ap_core_min_qty p\<rparr> = Inr q) (sort_key ap_symbol (ac_positions account)) ps"
    and l: "PaperResourceLedger \<lparr>lg_trade_date = d, lg_account_snapshot_sha256 = pe_account_sha E account,
          lg_revision = 0, lg_available_cash_vnd = ac_cash_vnd account, lg_positions = ps, lg_started_cycles = 0,
          lg_realized_net_pnl_vnd = 0, lg_reservations = []\<rparr> = Inr l"
    using assms unfolding initialize_paper_ledger_def if_Inl_eq_Inr rbind_eq_Inr map_res_Inr_iff by auto
  note l' = PaperResourceLedger_Inr [OF l]
  have q: "PaperResourcePosition q = Inr q" if "q \<in> set ps" for q
    using list_all2_members(1) [OF ps that] PaperResourcePosition_Inr by metis
  show "wf_ledger l" using l q by (intro wf_ledgerI) (simp_all add: l' list_all_iff)
  show "lg_reservations l = []" "lg_available_cash_vnd l = ac_cash_vnd account" "lg_revision l = 0" "lg_trade_date l = d"
    "lg_account_snapshot_sha256 l = pe_account_sha E account"
    by (simp_all add: l')
  show "list_all2 (\<lambda>p q. rp_symbol q = ap_symbol p \<and> rp_available_exit_quantity q = ap_settled_qty p - ap_core_min_qty p)
       (sort_key ap_symbol (ac_positions account)) (lg_positions l)"
    unfolding l' resource_ledger.simps using ps by (rule list_all2_mono) (auto dest!: PaperResourcePosition_Inr)
qed

section \<open>Inventory\<close>

text \<open>
  \<open>traced E I\<close>: every reservation belongs to an intent of \<open>I\<close>, on which the content hash is injective. It is what
  lets a settlement, which only carries the intent, find the reservation of the same symbol.
\<close>

definition traced :: "paper_env \<Rightarrow> order_intent set \<Rightarrow> resource_ledger \<Rightarrow> bool" where
  "traced E I l \<longleftrightarrow> wf_ledger l \<and> inj_on (pe_intent_sha E) I \<and>
     (\<forall>r \<in> set (lg_reservations l). \<exists>i \<in> I. pe_intent_sha E i = rv_entry_intent_sha256 r \<and> oi_symbol i = rv_symbol r)"

lemma traced_symbol:
  "traced E I l \<Longrightarrow> i \<in> I \<Longrightarrow> r \<in> set (lg_reservations l) \<Longrightarrow> rv_entry_intent_sha256 r = pe_intent_sha E i \<Longrightarrow>
   rv_symbol r = oi_symbol i"
  unfolding traced_def by (metis inj_onD)

lemma replaced_traced:
  assumes "traced E I l" "replaced (lg_reservations l) r new rs" "x \<in> set rs"
    "\<And>y. y \<in> set new \<Longrightarrow> \<exists>i \<in> I. pe_intent_sha E i = rv_entry_intent_sha256 y \<and> oi_symbol i = rv_symbol y"
  shows "\<exists>i \<in> I. pe_intent_sha E i = rv_entry_intent_sha256 x \<and> oi_symbol i = rv_symbol x"
  using replaced_members [OF assms(2)] assms(1,3,4) by (auto simp: traced_def)

lemma ledger_step_traced:
  assumes "traced E I l" "op_intent op \<in> I" "ledger_step E l op = Inr l'"
  shows "traced E I l'"
proof -
  have wf: "wf_ledger l'" using assms ledger_step_wf by (auto simp: traced_def)
  have inj: "inj_on (pe_intent_sha E) I" using assms(1) by (simp add: traced_def)
  have "\<exists>i \<in> I. pe_intent_sha E i = rv_entry_intent_sha256 x \<and> oi_symbol i = rv_symbol x" if x: "x \<in> set (lg_reservations l')" for x
  proof (cases op)
    case (ReserveEntry i)
    with assms(3) have "reserve_paper_entry E l i = Inr l'" by simp
    then show ?thesis using assms(1,2) x ReserveEntry
      by (elim reserve_entry_shape) (auto simp: traced_def)
  next
    case (SettleEntry i st c)
    with assms(3) have "settle_paper_entry E l i st c = Inr l'" by simp
    then obtain r new where rep: "replaced (lg_reservations l) r new (lg_reservations l')"
      and n0: "os_cumulative_filled_quantity st = 0 \<Longrightarrow> new = []"
      and n1: "os_cumulative_filled_quantity st \<noteq> 0 \<Longrightarrow> \<exists>o'. new = [o'] \<and>
       open_reservation (pe_intent_sha E i) (oi_symbol i) (os_cumulative_filled_quantity st) (os_average_fill_price st) = Inr o'"
      by (rule settle_entry_shape) (rule that)
    have "\<exists>j \<in> I. pe_intent_sha E j = rv_entry_intent_sha256 y \<and> oi_symbol j = rv_symbol y" if "y \<in> set new" for y
    proof -
      have "open_reservation (pe_intent_sha E i) (oi_symbol i) (os_cumulative_filled_quantity st) (os_average_fill_price st) = Inr y"
        using n0 n1 that by (cases "os_cumulative_filled_quantity st = 0") auto
      with open_reservation_Inr(1,2) assms(2) SettleEntry show ?thesis by (intro bexI [of _ i]) fastforce+
    qed
    then show ?thesis by (rule replaced_traced [OF assms(1) rep x])
  next
    case (ReserveExit i)
    with assms(3) have "reserve_paper_exit E l i = Inr l'" by simp
    then show ?thesis using assms(1) x
      by (elim reserve_exit_shape) (auto simp: traced_def split: if_splits)
  next
    case (SettleExit i st c)
    with assms(3) have "settle_paper_exit E l i st c = Inr l'" by simp
    then obtain r new where rep: "replaced (lg_reservations l) r new (lg_reservations l')" and r: "r \<in> set (lg_reservations l)"
      and n0: "rv_reserved_exit_quantity r = os_cumulative_filled_quantity st \<Longrightarrow> new = []"
      and n1: "rv_reserved_exit_quantity r \<noteq> os_cumulative_filled_quantity st \<Longrightarrow> \<exists>o'. new = [o'] \<and>
       open_reservation (rv_entry_intent_sha256 r) (rv_symbol r)
         (rv_reserved_exit_quantity r - os_cumulative_filled_quantity st) (rv_entry_average_fill_price r) = Inr o'"
      by (rule settle_exit_shape) (rule that)
    have "\<exists>j \<in> I. pe_intent_sha E j = rv_entry_intent_sha256 y \<and> oi_symbol j = rv_symbol y" if "y \<in> set new" for y
    proof -
      have o: "open_reservation (rv_entry_intent_sha256 r) (rv_symbol r)
          (rv_reserved_exit_quantity r - os_cumulative_filled_quantity st) (rv_entry_average_fill_price r) = Inr y"
        using n0 n1 that by (cases "rv_reserved_exit_quantity r = os_cumulative_filled_quantity st") auto
      show ?thesis using open_reservation_Inr(1,2) [OF o] assms(1) r by (auto simp: traced_def)
    qed
    then show ?thesis by (rule replaced_traced [OF assms(1) rep x])
  qed
  then show ?thesis using wf inj by (simp add: traced_def)
qed

lemma sum_list_reserved_map:
  assumes "distinct (map rv_entry_intent_sha256 rs)" "r \<in> set rs" "g r' = g r"
  shows "sum_list (map g (map (\<lambda>x. if rv_entry_intent_sha256 x = rv_entry_intent_sha256 r then r' else x) rs)) = sum_list (map g rs)"
proof -
  have "g (if rv_entry_intent_sha256 x = rv_entry_intent_sha256 r then r' else x) = g x" if "x \<in> set rs" for x
    using assms that sorted_distinct_key_unique [of rv_entry_intent_sha256 rs x r] by auto
  then show ?thesis by (simp add: o_def cong: map_cong)
qed

lemma single_list_ex:
  assumes "filter P xs = [x]"
  shows "list_ex (\<lambda>y. P y \<and> Q y) xs \<longleftrightarrow> Q x"
proof -
  have "\<And>y. y \<in> set xs \<and> P y \<longleftrightarrow> y = x" using arg_cong [OF assms, of set] by auto
  then show ?thesis unfolding list_ex_iff by metis
qed

lemma reserve_entry_inventory:
  assumes tr: "traced E I l" and I: "i \<in> I" and step: "reserve_paper_entry E l i = Inr l'"
  shows "inventory s l' + sold_quantity E s l (ReserveEntry i) = inventory s l"
proof -
  note facts = wf_ledger_facts [OF tr [unfolded traced_def, THEN conjunct1]]
  from step show ?thesis
  proof (rule reserve_entry_shape)
    fix r ps
    assume r: "rv_symbol r = oi_symbol i" "rv_reserved_exit_quantity r = oi_reserved_exit_quantity i"
      and ps: "move_positions l (oi_symbol i) (- oi_reserved_exit_quantity i) = Inr ps"
      and l': "l' = l\<lparr>lg_available_cash_vnd := dsub (lg_available_cash_vnd l) (oi_reserved_cash_vnd i), lg_positions := ps,
     lg_started_cycles := lg_started_cycles l + 1,
     lg_reservations := sort_key rv_entry_intent_sha256 (lg_reservations l @ [r]), lg_revision := lg_revision l + 1\<rparr>"
    show ?thesis using move_positions_available [OF ps facts(1), of s] r
      by (simp add: l' inventory_def available_quantity_def sold_quantity_def reserved_of_def)
  qed
qed

lemma settle_entry_inventory:
  assumes tr: "traced E I l" and I: "i \<in> I" and step: "settle_paper_entry E l i st c = Inr l'"
  shows "inventory s l' + sold_quantity E s l (SettleEntry i st c) = inventory s l"
proof -
  note facts = wf_ledger_facts [OF tr [unfolded traced_def, THEN conjunct1]]
  from step obtain r new ps where r: "r \<in> set (lg_reservations l)" "rv_entry_intent_sha256 r = pe_intent_sha E i"
    and rep: "replaced (lg_reservations l) r new (lg_reservations l')"
    and n0: "os_cumulative_filled_quantity st = 0 \<Longrightarrow> new = []"
    and n1: "os_cumulative_filled_quantity st \<noteq> 0 \<Longrightarrow> \<exists>o'. new = [o'] \<and>
     open_reservation (pe_intent_sha E i) (oi_symbol i) (os_cumulative_filled_quantity st) (os_average_fill_price st) = Inr o'"
    and ps: "move_positions l (oi_symbol i) (rv_reserved_exit_quantity r - os_cumulative_filled_quantity st) = Inr ps"
    and l': "l' = l\<lparr>lg_available_cash_vnd := dsub (dadd (lg_available_cash_vnd l) (rv_reserved_cash_vnd r)) (entry_spent c st),
     lg_positions := ps, lg_reservations := lg_reservations l', lg_revision := lg_revision l + 1\<rparr>"
    by (rule settle_entry_shape) (rule that)
  have sym: "rv_symbol r = oi_symbol i" using traced_symbol [OF tr _ r] I by simp
  have new: "sum_list (map (reserved_of s) new) = (if oi_symbol i = s then os_cumulative_filled_quantity st else 0)"
    using n0 n1 by (cases "os_cumulative_filled_quantity st = 0") (auto simp: reserved_of_def dest: open_reservation_Inr)
  have "lg_positions l' = ps" by (subst l') simp
  then show ?thesis using move_positions_available [OF ps facts(1), of s] replaced_sum [OF rep facts(3) r(1), of "reserved_of s"] new sym
    by (auto simp: inventory_def available_quantity_def sold_quantity_def reserved_of_def)
qed

lemma reserve_exit_inventory:
  assumes tr: "traced E I l" and I: "i \<in> I" and step: "reserve_paper_exit E l i = Inr l'"
  shows "inventory s l' + sold_quantity E s l (ReserveExit i) = inventory s l"
proof -
  note facts = wf_ledger_facts [OF tr [unfolded traced_def, THEN conjunct1]]
  from step show ?thesis
  proof (rule reserve_exit_shape)
    fix r r'
    assume r: "r \<in> set (lg_reservations l)" and r': "r' = r\<lparr>rv_exit_intent_sha256 := Some (pe_intent_sha E i), rv_status := EXIT_PENDING\<rparr>"
      and l': "l' = l\<lparr>lg_reservations := map (\<lambda>x. if rv_entry_intent_sha256 x = rv_entry_intent_sha256 r then r' else x) (lg_reservations l),
     lg_revision := lg_revision l + 1\<rparr>"
    have "reserved_of s r' = reserved_of s r" by (simp add: r' reserved_of_def)
    from sum_list_reserved_map [OF facts(3) r this]
    show ?thesis by (simp add: l' inventory_def available_quantity_def sold_quantity_def)
  qed
qed

lemma settle_exit_inventory:
  assumes tr: "traced E I l" and I: "i \<in> I" and step: "settle_paper_exit E l i st c = Inr l'"
  shows "inventory s l' + sold_quantity E s l (SettleExit i st c) = inventory s l"
proof -
  note facts = wf_ledger_facts [OF tr [unfolded traced_def, THEN conjunct1]]
  from step obtain r new realized where r: "r \<in> set (lg_reservations l)"
    and single: "filter (\<lambda>r. rv_exit_intent_sha256 r = Some (pe_intent_sha E i) \<and> rv_status r = EXIT_PENDING) (lg_reservations l) = [r]"
    and rep: "replaced (lg_reservations l) r new (lg_reservations l')"
    and n0: "rv_reserved_exit_quantity r = os_cumulative_filled_quantity st \<Longrightarrow> new = []"
    and n1: "rv_reserved_exit_quantity r \<noteq> os_cumulative_filled_quantity st \<Longrightarrow> \<exists>o'. new = [o'] \<and>
     open_reservation (rv_entry_intent_sha256 r) (rv_symbol r)
       (rv_reserved_exit_quantity r - os_cumulative_filled_quantity st) (rv_entry_average_fill_price r) = Inr o'"
    and l': "l' = l\<lparr>lg_realized_net_pnl_vnd := dadd (lg_realized_net_pnl_vnd l) realized, lg_reservations := lg_reservations l',
     lg_revision := lg_revision l + 1\<rparr>"
    by (rule settle_exit_shape) (rule that)
  have new: "sum_list (map (reserved_of s) new) =
      (if rv_symbol r = s then rv_reserved_exit_quantity r - os_cumulative_filled_quantity st else 0)"
    using n0 n1 by (cases "rv_reserved_exit_quantity r = os_cumulative_filled_quantity st")
      (auto simp: reserved_of_def dest: open_reservation_Inr)
  have sold: "sold_quantity E s l (SettleExit i st c) = (if rv_symbol r = s then os_cumulative_filled_quantity st else 0)"
    using single_list_ex [OF single, of "\<lambda>r. rv_symbol r = s"] by (simp add: sold_quantity_def)
  have "lg_positions l' = lg_positions l" by (subst l') simp
  then show ?thesis using replaced_sum [OF rep facts(3) r, of "reserved_of s"] new sold
    by (auto simp: inventory_def available_quantity_def reserved_of_def)
qed

lemma ledger_step_inventory:
  assumes "traced E I l" and "op_intent op \<in> I" and "ledger_step E l op = Inr l'"
  shows "inventory s l' + sold_quantity E s l op = inventory s l"
  using assms reserve_entry_inventory settle_entry_inventory reserve_exit_inventory settle_exit_inventory
  by (cases op) simp_all

interpretation ledger_inventory: metered_machine "ledger_step E" "traced E I" "\<lambda>op. op_intent op \<in> I" "inventory s" "sold_quantity E s"
  by unfold_locales (fact ledger_step_traced, fact ledger_step_inventory)

section \<open>A sample cycle\<close>

definition sample_env :: paper_env where
  "sample_env = \<lparr>pe_market_date = \<lambda>t. t div (86400 * second_us), pe_candidate_sha = sample_sha,
     pe_arbitration_sha = \<lambda>_. replicate 64 (CHR ''1''), pe_promotion_sha = \<lambda>_. replicate 64 (CHR ''2''),
     pe_account_sha = \<lambda>_. replicate 64 (CHR ''3''), pe_market_sha = \<lambda>_. replicate 64 (CHR ''4''),
     pe_ledger_sha = \<lambda>l. replicate 63 (CHR ''5'') @ (if lg_revision l = 0 then ''0'' else ''1''),
     pe_request_sha = \<lambda>_. replicate 64 (CHR ''6''), pe_exit_request_sha = \<lambda>_. replicate 64 (CHR ''7''),
     pe_intent_sha = \<lambda>i. replicate 63 (CHR ''8'') @ (case oi_leg i of ENTRY \<Rightarrow> ''a'' | EXIT \<Rightarrow> ''b''),
     pe_event_sha = \<lambda>e. replicate 63 (CHR ''9'') @ (if ev_sequence e = 1 then ''1'' else if ev_sequence e = 2 then ''2'' else ''3''),
     pe_evidence_sha = \<lambda>(i, previous, _). replicate 63 (CHR ''e'') @ (case previous of None \<Rightarrow> ''0'' | Some h \<Rightarrow> [last h]),
     pe_execution_sha = \<lambda>_. replicate 64 (CHR ''0'')\<rparr>"

definition sample_account :: account_snapshot where
  "sample_account = \<lparr>ac_as_of = 7 * 86400 * second_us, ac_source = ''broker'', ac_cash_vnd = 100000000,
     ac_positions = [\<lparr>ap_symbol = ''VIC'', ap_settled_qty = 1000, ap_t1_qty = 0, ap_t2_qty = 0, ap_core_min_qty = 200,
       ap_start_price = 50000\<rparr>]\<rparr>"

definition sample_costs :: cost_policy where
  "sample_costs = \<lparr>cp_version = ''cost-v1'', cp_effective_from = 0, cp_effective_to = None, cp_buy_fee_bps = 10,
     cp_sell_fee_bps = 10, cp_sell_tax_bps = 10, cp_extra_slippage_bps = 0, cp_basis = USER_SUPPLIED,
     cp_account_plan = None, cp_fee_source = None, cp_fee_checked_at = None\<rparr>"

definition sample_intent :: "leg \<Rightarrow> order_intent" where
  "sample_intent leg = \<lparr>oi_execution_version = ''paper-v1'', oi_execution_configuration_sha256 = replicate 64 (CHR ''0''),
     oi_request_sha256 = replicate 64 (CHR ''6''), oi_promotion_report_sha256 = replicate 64 (CHR ''2''),
     oi_arbitration_sha256 = replicate 64 (CHR ''1''), oi_candidate_sha256 = replicate 64 (CHR ''1''),
     oi_strategy = ''mean_reversion'', oi_symbol = ''VIC'', oi_trade_date = 7, oi_decision_at = 0, oi_horizon_seconds = 300,
     oi_leg = leg, oi_action = (case leg of ENTRY \<Rightarrow> BUY | EXIT \<Rightarrow> SELL), oi_quantity = 100,
     oi_limit_price = (case leg of ENTRY \<Rightarrow> 50000 | EXIT \<Rightarrow> 50500), oi_priority = 0, oi_created_at = 1, oi_expires_at = 1000,
     oi_reserved_cash_vnd = (case leg of ENTRY \<Rightarrow> 5005000 | EXIT \<Rightarrow> 0), oi_reserved_exit_quantity = 100,
     oi_market_snapshot_sha256 = replicate 64 (CHR ''4''), oi_selection_source_sha256 = replicate 64 (CHR ''4''),
     oi_resource_ledger_sha256 = replicate 63 (CHR ''5'') @ (case leg of ENTRY \<Rightarrow> ''0'' | EXIT \<Rightarrow> ''1''),
     oi_parent_intent_sha256 = (case leg of ENTRY \<Rightarrow> None | EXIT \<Rightarrow> Some (replicate 63 (CHR ''8'') @ ''a''))\<rparr>"

definition sample_state :: "leg \<Rightarrow> int \<Rightarrow> order_state" where
  "sample_state leg filled = \<lparr>os_intent_sha256 = pe_intent_sha sample_env (sample_intent leg), os_status = EXPIRED,
     os_cumulative_filled_quantity = filled, os_average_fill_price = Some (oi_limit_price (sample_intent leg)),
     os_event_count = 2, os_last_event_sha256 = Some (replicate 64 (CHR ''9''))\<rparr>"

abbreviation sample_ops :: "ledger_op list" where
  "sample_ops \<equiv> [ReserveEntry (sample_intent ENTRY), SettleEntry (sample_intent ENTRY) (sample_state ENTRY 100) sample_costs,
     ReserveExit (sample_intent EXIT), SettleExit (sample_intent EXIT) (sample_state EXIT 60) sample_costs]"

lemma sample_run_computed:
  "case initialize_paper_ledger sample_env sample_account 7 of Inl _ \<Rightarrow> False
   | Inr l0 \<Rightarrow> (case run_res (ledger_step sample_env) l0 sample_ops of Inl _ \<Rightarrow> False
     | Inr l \<Rightarrow> lg_revision l = 4 \<and> lg_available_cash_vnd l = 94995000 \<and> lg_realized_net_pnl_vnd l = 20940 \<and>
         map rv_status (lg_reservations l) = [OPEN] \<and> map rv_reserved_exit_quantity (lg_reservations l) = [40] \<and>
         inventory ''VIC'' l = 740 \<and> run_cost (ledger_step sample_env) (sold_quantity sample_env ''VIC'') l0 sample_ops = 60)"
  by code_simp

lemma sample_run:
  obtains l0 l where "initialize_paper_ledger sample_env sample_account 7 = Inr l0"
    "run_res (ledger_step sample_env) l0 sample_ops = Inr l" "lg_revision l = 4" "lg_available_cash_vnd l = 94995000"
    "inventory ''VIC'' l = 740" "run_cost (ledger_step sample_env) (sold_quantity sample_env ''VIC'') l0 sample_ops = 60"
proof -
  obtain l0 where l0: "initialize_paper_ledger sample_env sample_account 7 = Inr l0"
    and rest: "case run_res (ledger_step sample_env) l0 sample_ops of Inl _ \<Rightarrow> False
     | Inr l \<Rightarrow> lg_revision l = 4 \<and> lg_available_cash_vnd l = 94995000 \<and> lg_realized_net_pnl_vnd l = 20940 \<and>
         map rv_status (lg_reservations l) = [OPEN] \<and> map rv_reserved_exit_quantity (lg_reservations l) = [40] \<and>
         inventory ''VIC'' l = 740 \<and> run_cost (ledger_step sample_env) (sold_quantity sample_env ''VIC'') l0 sample_ops = 60"
    using case_res_True [OF sample_run_computed] by (elim exE conjE)
  from case_res_True [OF rest] obtain l where "run_res (ledger_step sample_env) l0 sample_ops = Inr l" "lg_revision l = 4"
    "lg_available_cash_vnd l = 94995000" "inventory ''VIC'' l = 740"
    "run_cost (ledger_step sample_env) (sold_quantity sample_env ''VIC'') l0 sample_ops = 60"
    by (elim exE conjE)
  with l0 show thesis by (rule that)
qed

lemma sample_inj: "inj_on (pe_intent_sha sample_env) (op_intent ` set sample_ops)"
  by (auto simp: inj_on_def sample_env_def sample_intent_def)

lemma sample_account_valid: "wf_account sample_account"
  by (simp add: wf_account_def AccountSnapshot_def AccountPosition_def sample_account_def is_uppercase_identifier_def strip_def
      is_space_def to_upper_def)

section \<open>What a ledger run guarantees\<close>

lemma inventory_nonneg: "wf_ledger l \<Longrightarrow> 0 \<le> inventory s l"
  unfolding inventory_def available_quantity_def
  by (intro add_nonneg_nonneg sum_list_nonneg)
     (auto simp: reserved_of_def dest: wf_ledger_facts(6) wf_ledger_facts(5) [THEN PaperReservation_ok(2)])

lemma initial_inventory:
  assumes "initialize_paper_ledger E account d = Inr l" "p \<in> set (ac_positions account)"
    "distinct (map ap_symbol (ac_positions account))"
  shows "inventory (ap_symbol p) l = ap_settled_qty p - ap_core_min_qty p"
proof -
  let ?g = "\<lambda>p'. if ap_symbol p' = ap_symbol p then ap_settled_qty p' - ap_core_min_qty p' else 0"
  have "available_quantity (ap_symbol p) l = sum_list (map ?g (sort_key ap_symbol (ac_positions account)))"
    unfolding available_quantity_def using initialize_Inr(5) [OF assms(1)]
    by (induction rule: list_all2_induct) auto
  also have "\<dots> = sum_list (map ?g (ac_positions account))" by (rule sum_list_map_sort_key)
  also have "\<dots> = ?g p + sum_list (map ?g (filter (\<lambda>y. ap_symbol y \<noteq> ap_symbol p) (ac_positions account)))"
    by (rule sum_list_remove_key) (use assms in auto)
  also have "sum_list (map ?g (filter (\<lambda>y. ap_symbol y \<noteq> ap_symbol p) (ac_positions account))) = 0"
    by (rule sum_list_map_zero) auto
  finally show ?thesis by (simp add: inventory_def initialize_Inr(2) [OF assms(1)])
qed

text \<open>C24: core holdings are never sold. Starting from an account snapshot and over any sequence of accepted operations,
  the available and reserved exit quantity of a symbol plus everything exits sold of it is exactly the settled
  quantity above the core minimum, and the sales never exceed it.\<close>

theorem core_holdings_never_sold:
  assumes "wf_account account" and "p \<in> set (ac_positions account)"
    and "initialize_paper_ledger E account d = Inr l0" and "run_res (ledger_step E) l0 ops = Inr l"
    and "inj_on (pe_intent_sha E) (op_intent ` set ops)"
  shows "inventory (ap_symbol p) l + run_cost (ledger_step E) (sold_quantity E (ap_symbol p)) l0 ops =
      ap_settled_qty p - ap_core_min_qty p \<and>
    run_cost (ledger_step E) (sold_quantity E (ap_symbol p)) l0 ops \<le> ap_settled_qty p - ap_core_min_qty p"
proof -
  let ?I = "op_intent ` set ops"
  have l0: "traced E ?I l0"
    using initialize_Inr(1,2) [OF assms(3)] assms(5) by (simp add: traced_def)
  have ok: "list_all (\<lambda>op. op_intent op \<in> ?I) ops" by (simp add: list_all_iff)
  have "inventory (ap_symbol p) l + run_cost (ledger_step E) (sold_quantity E (ap_symbol p)) l0 ops = inventory (ap_symbol p) l0"
    by (rule ledger_inventory.run_total [OF l0 ok assms(4)])
  moreover have "0 \<le> inventory (ap_symbol p) l"
    using ledger_inventory.run_inv [OF l0 ok assms(4)] by (simp add: traced_def inventory_nonneg)
  ultimately show ?thesis
    using initial_inventory [OF assms(3,2) wf_accountD(3) [OF assms(1)]] by simp
qed

theorem core_holdings_never_sold_witness:
  "\<exists>l0 l. initialize_paper_ledger sample_env sample_account 7 = Inr l0 \<and>
     run_res (ledger_step sample_env) l0 sample_ops = Inr l \<and>
     inventory ''VIC'' l + run_cost (ledger_step sample_env) (sold_quantity sample_env ''VIC'') l0 sample_ops = 800 \<and>
     run_cost (ledger_step sample_env) (sold_quantity sample_env ''VIC'') l0 sample_ops = 60"
proof (rule sample_run)
  fix l0 l
  assume run: "initialize_paper_ledger sample_env sample_account 7 = Inr l0" "run_res (ledger_step sample_env) l0 sample_ops = Inr l"
    "run_cost (ledger_step sample_env) (sold_quantity sample_env ''VIC'') l0 sample_ops = 60"
  have p: "hd (ac_positions sample_account) \<in> set (ac_positions sample_account)" by (simp add: sample_account_def)
  have f: "ap_symbol (hd (ac_positions sample_account)) = ''VIC''" "ap_settled_qty (hd (ac_positions sample_account)) = 1000"
    "ap_core_min_qty (hd (ac_positions sample_account)) = 200" by (simp_all add: sample_account_def)
  from core_holdings_never_sold [OF sample_account_valid p run(1,2) sample_inj] f run show ?thesis
    by (intro exI [of _ l0] exI [of _ l]) simp
qed

section \<open>Cash\<close>

definition cash_total :: "resource_ledger \<Rightarrow> decimal" where
  "cash_total l = lg_available_cash_vnd l + sum_list (map rv_reserved_cash_vnd (lg_reservations l))"

fun spent_cash :: "resource_ledger \<Rightarrow> ledger_op \<Rightarrow> decimal" where
  "spent_cash l (SettleEntry i st c) = entry_spent c st"
| "spent_cash l _ = 0"

text \<open>
  Amounts on the grid of \<open>10\<^sup>-\<^sup>8\<close> and a total of at most \<open>10\<^sup>20\<close> make every addition and subtraction exact in the
  28-digit context; outside that range the context rounds and conservation is only approximate.
\<close>

definition exact_ledger :: "resource_ledger \<Rightarrow> bool" where
  "exact_ledger l \<longleftrightarrow> wf_ledger l \<and> on_grid (lg_available_cash_vnd l) \<and>
     (\<forall>r \<in> set (lg_reservations l). on_grid (rv_reserved_cash_vnd r)) \<and> cash_total l \<le> 10 ^ 20"

fun exact_op :: "ledger_op \<Rightarrow> bool" where
  "exact_op (ReserveEntry i) = on_grid (oi_reserved_cash_vnd i)"
| "exact_op (SettleEntry i st c) = (on_grid (entry_spent c st) \<and> 0 \<le> entry_spent c st)"
| "exact_op _ = True"

lemma reserved_cash_nonneg: "wf_ledger l \<Longrightarrow> 0 \<le> sum_list (map rv_reserved_cash_vnd (lg_reservations l))"
  by (intro sum_list_nonneg) (auto dest: wf_ledger_facts(5) [THEN PaperReservation_ok(1)])

lemma reserved_cash_member:
  assumes "wf_ledger l" "r \<in> set (lg_reservations l)"
  shows "rv_reserved_cash_vnd r \<le> sum_list (map rv_reserved_cash_vnd (lg_reservations l))"
proof -
  have "0 \<le> sum_list (map rv_reserved_cash_vnd (filter (\<lambda>y. rv_entry_intent_sha256 y \<noteq> rv_entry_intent_sha256 r) (lg_reservations l)))"
    by (intro sum_list_nonneg) (auto dest: wf_ledger_facts(5) [OF assms(1), THEN PaperReservation_ok(1)])
  then show ?thesis using sum_list_remove_key [OF wf_ledger_facts(3) [OF assms(1)] assms(2), of rv_reserved_cash_vnd] by simp
qed

lemma exact_value: "on_grid x \<Longrightarrow> 0 \<le> x \<Longrightarrow> x \<le> 10 ^ 20 \<Longrightarrow> dec_ctx x = x"
  using on_grid_fits [of x] by (simp add: fits_def)

definition cash_moves :: "resource_ledger \<Rightarrow> decimal \<Rightarrow> resource_ledger \<Rightarrow> bool" where
  "cash_moves l spent l' \<longleftrightarrow> cash_total l' + spent = cash_total l \<and> on_grid (lg_available_cash_vnd l') \<and>
     (\<forall>r \<in> set (lg_reservations l'). on_grid (rv_reserved_cash_vnd r))"

lemma exact_ledgerD:
  assumes "exact_ledger l"
  shows "wf_ledger l" "on_grid (lg_available_cash_vnd l)" "\<forall>r \<in> set (lg_reservations l). on_grid (rv_reserved_cash_vnd r)"
    "cash_total l \<le> 10 ^ 20" "lg_available_cash_vnd l \<le> 10 ^ 20"
  using assms reserved_cash_nonneg [of l] by (auto simp: exact_ledger_def cash_total_def)

lemma reserve_entry_cash:
  assumes ex: "exact_ledger l" and step: "reserve_paper_entry E l i = Inr l'" and g: "on_grid (oi_reserved_cash_vnd i)"
  shows "cash_moves l 0 l'"
proof -
  note wf = exact_ledgerD(1) [OF ex] and grid = exact_ledgerD(2,3) [OF ex] and small = exact_ledgerD(4) [OF ex]
    and avail = exact_ledgerD(5) [OF ex]
  note facts = wf_ledger_facts [OF wf]
  from step show ?thesis
  proof (rule reserve_entry_shape)
    fix r ps
    assume a: "oi_reserved_cash_vnd i \<le> lg_available_cash_vnd l" "rv_reserved_cash_vnd r = oi_reserved_cash_vnd i"
      "PaperReservation r = Inr r"
      and l': "l' = l\<lparr>lg_available_cash_vnd := dsub (lg_available_cash_vnd l) (oi_reserved_cash_vnd i), lg_positions := ps,
     lg_started_cycles := lg_started_cycles l + 1,
     lg_reservations := sort_key rv_entry_intent_sha256 (lg_reservations l @ [r]), lg_revision := lg_revision l + 1\<rparr>"
    have "dsub (lg_available_cash_vnd l) (oi_reserved_cash_vnd i) = lg_available_cash_vnd l - oi_reserved_cash_vnd i"
      unfolding dsub_def using a PaperReservation_ok(1) [OF a(3)] avail grid(1) g by (intro exact_value on_grid_diff) auto
    then show ?thesis using a(2) grid g on_grid_diff [OF grid(1) g] by (simp add: l' cash_total_def cash_moves_def)
  qed
qed

lemma settle_entry_cash:
  assumes ex: "exact_ledger l" and step: "settle_paper_entry E l i st c = Inr l'" and ok: "on_grid (entry_spent c st)" "0 \<le> entry_spent c st"
  shows "cash_moves l (entry_spent c st) l'"
proof -
  note wf = exact_ledgerD(1) [OF ex] and grid = exact_ledgerD(2,3) [OF ex] and small = exact_ledgerD(4) [OF ex]
    and avail = exact_ledgerD(5) [OF ex]
  note facts = wf_ledger_facts [OF wf]
  from step obtain r new ps where r: "r \<in> set (lg_reservations l)" "entry_spent c st \<le> rv_reserved_cash_vnd r"
    and rep: "replaced (lg_reservations l) r new (lg_reservations l')"
    and n0: "os_cumulative_filled_quantity st = 0 \<Longrightarrow> new = []"
    and n1: "os_cumulative_filled_quantity st \<noteq> 0 \<Longrightarrow> \<exists>o'. new = [o'] \<and>
     open_reservation (pe_intent_sha E i) (oi_symbol i) (os_cumulative_filled_quantity st) (os_average_fill_price st) = Inr o'"
    and l': "l' = l\<lparr>lg_available_cash_vnd := dsub (dadd (lg_available_cash_vnd l) (rv_reserved_cash_vnd r)) (entry_spent c st),
     lg_positions := ps, lg_reservations := lg_reservations l', lg_revision := lg_revision l + 1\<rparr>"
    by (rule settle_entry_shape) (rule that)
  have new: "x \<in> set new \<Longrightarrow> rv_reserved_cash_vnd x = 0" for x
    using n0 n1 by (cases "os_cumulative_filled_quantity st = 0") (auto dest: open_reservation_Inr(4))
  then have new0: "sum_list (map rv_reserved_cash_vnd new) = 0" by (rule sum_list_map_zero)
  have g: "on_grid (rv_reserved_cash_vnd r)" "on_grid (entry_spent c st)" "0 \<le> entry_spent c st"
    using grid(2) r(1) ok by auto
  have sum: "lg_available_cash_vnd l + rv_reserved_cash_vnd r \<le> 10 ^ 20"
    using small reserved_cash_member [OF wf r(1)] by (simp add: cash_total_def)
  have "dadd (lg_available_cash_vnd l) (rv_reserved_cash_vnd r) = lg_available_cash_vnd l + rv_reserved_cash_vnd r"
    unfolding dadd_def using sum facts(4) g r(2) grid(1) by (intro exact_value on_grid_add) auto
  moreover have "dsub (lg_available_cash_vnd l + rv_reserved_cash_vnd r) (entry_spent c st) =
      lg_available_cash_vnd l + rv_reserved_cash_vnd r - entry_spent c st"
    unfolding dsub_def using sum facts(4) g r(2) grid(1) by (intro exact_value on_grid_diff on_grid_add) auto
  ultimately have cash: "lg_available_cash_vnd l' = lg_available_cash_vnd l + rv_reserved_cash_vnd r - entry_spent c st"
    by (subst l') simp
  have "on_grid (lg_available_cash_vnd l')" unfolding cash using g grid(1) by (intro on_grid_diff on_grid_add)
  moreover have "\<forall>x \<in> set (lg_reservations l'). on_grid (rv_reserved_cash_vnd x)"
    using replaced_members [OF rep] grid(2) new by auto
  moreover have "cash_total l' + entry_spent c st = cash_total l"
    using replaced_sum [OF rep facts(3) r(1), of rv_reserved_cash_vnd] new0 cash by (simp add: cash_total_def)
  ultimately show ?thesis unfolding cash_moves_def by blast
qed

lemma reserve_exit_cash:
  assumes ex: "exact_ledger l" and step: "reserve_paper_exit E l i = Inr l'"
  shows "cash_moves l 0 l'"
proof -
  note wf = exact_ledgerD(1) [OF ex] and grid = exact_ledgerD(2,3) [OF ex] and small = exact_ledgerD(4) [OF ex]
    and avail = exact_ledgerD(5) [OF ex]
  note facts = wf_ledger_facts [OF wf]
  from step show ?thesis
  proof (rule reserve_exit_shape)
    fix r r'
    assume r: "r \<in> set (lg_reservations l)" and r': "r' = r\<lparr>rv_exit_intent_sha256 := Some (pe_intent_sha E i), rv_status := EXIT_PENDING\<rparr>"
      and l': "l' = l\<lparr>lg_reservations := map (\<lambda>x. if rv_entry_intent_sha256 x = rv_entry_intent_sha256 r then r' else x) (lg_reservations l),
     lg_revision := lg_revision l + 1\<rparr>"
    have "rv_reserved_cash_vnd r' = rv_reserved_cash_vnd r" by (simp add: r')
    from sum_list_reserved_map [of _ _ rv_reserved_cash_vnd, OF facts(3) r this] grid r
    show ?thesis by (auto simp: l' cash_total_def cash_moves_def r')
  qed
qed

lemma settle_exit_cash:
  assumes ex: "exact_ledger l" and step: "settle_paper_exit E l i st c = Inr l'"
  shows "cash_moves l 0 l'"
proof -
  note wf = exact_ledgerD(1) [OF ex] and grid = exact_ledgerD(2,3) [OF ex] and small = exact_ledgerD(4) [OF ex]
    and avail = exact_ledgerD(5) [OF ex]
  note facts = wf_ledger_facts [OF wf]
  from step obtain r new realized where r: "r \<in> set (lg_reservations l)" "rv_status r = EXIT_PENDING"
    and rep: "replaced (lg_reservations l) r new (lg_reservations l')"
    and n0: "rv_reserved_exit_quantity r = os_cumulative_filled_quantity st \<Longrightarrow> new = []"
    and n1: "rv_reserved_exit_quantity r \<noteq> os_cumulative_filled_quantity st \<Longrightarrow> \<exists>o'. new = [o'] \<and>
     open_reservation (rv_entry_intent_sha256 r) (rv_symbol r)
       (rv_reserved_exit_quantity r - os_cumulative_filled_quantity st) (rv_entry_average_fill_price r) = Inr o'"
    and l': "l' = l\<lparr>lg_realized_net_pnl_vnd := dadd (lg_realized_net_pnl_vnd l) realized, lg_reservations := lg_reservations l',
     lg_revision := lg_revision l + 1\<rparr>"
    by (rule settle_exit_shape) (rule that)
  have new: "x \<in> set new \<Longrightarrow> rv_reserved_cash_vnd x = 0" for x
    using n0 n1 by (cases "rv_reserved_exit_quantity r = os_cumulative_filled_quantity st") (auto dest: open_reservation_Inr(4))
  then have new0: "sum_list (map rv_reserved_cash_vnd new) = 0" by (rule sum_list_map_zero)
  have r0: "rv_reserved_cash_vnd r = 0" using PaperReservation_ok(8) [OF facts(5) [OF r(1)] r(2)] by simp
  have cash: "lg_available_cash_vnd l' = lg_available_cash_vnd l" by (subst l') simp
  show ?thesis using replaced_sum [OF rep facts(3) r(1), of rv_reserved_cash_vnd] new0 r0 cash grid replaced_members [OF rep] new
    by (auto simp: cash_total_def cash_moves_def)
qed

lemma ledger_step_cash:
  assumes "exact_ledger l" and "exact_op op" and "ledger_step E l op = Inr l'"
  shows "cash_moves l (spent_cash l op) l'"
  using assms reserve_entry_cash settle_entry_cash reserve_exit_cash settle_exit_cash by (cases op) simp_all

lemma entry_spent_nonneg: "exact_op op \<Longrightarrow> 0 \<le> spent_cash l op"
  by (cases op) simp_all

lemma ledger_step_exact:
  assumes "exact_ledger l" "exact_op op" "ledger_step E l op = Inr l'"
  shows "exact_ledger l'"
  using ledger_step_cash [OF assms] entry_spent_nonneg [OF assms(2), of l] ledger_step_wf [OF exact_ledgerD(1) assms(3)] assms(1)
  by (auto simp: exact_ledger_def cash_moves_def)

interpretation ledger_cash: metered_machine "ledger_step E" exact_ledger exact_op cash_total spent_cash
  by unfold_locales (fact ledger_step_exact, use ledger_step_cash cash_moves_def in blast)

lemma run_spent_nonneg:
  "list_all exact_op ops \<Longrightarrow> 0 \<le> run_cost (ledger_step E) spent_cash l ops"
proof (induction ops arbitrary: l)
  case (Cons op ops)
  then show ?case using entry_spent_nonneg [of op l] by (auto split: sum.split)
qed simp

text \<open>Cash is conserved. Starting from an account whose cash is on the grid and over any sequence of accepted
  operations with grid amounts, the available cash plus the cash reserved by pending entries plus the cash spent on
  entry fills is exactly the cash of the account; the available cash is never negative and never exceeds it.
  In particular an exit never credits cash.\<close>

theorem cash_conserved:
  assumes "initialize_paper_ledger E account d = Inr l0" and "run_res (ledger_step E) l0 ops = Inr l"
    and "on_grid (ac_cash_vnd account)" and "ac_cash_vnd account \<le> 10 ^ 20" and "list_all exact_op ops"
  shows "cash_total l + run_cost (ledger_step E) spent_cash l0 ops = ac_cash_vnd account \<and>
    0 \<le> lg_available_cash_vnd l \<and> lg_available_cash_vnd l \<le> ac_cash_vnd account"
proof -
  have l0: "exact_ledger l0" "cash_total l0 = ac_cash_vnd account"
    using initialize_Inr [OF assms(1)] assms(3,4) by (simp_all add: exact_ledger_def cash_total_def)
  have total: "cash_total l + run_cost (ledger_step E) spent_cash l0 ops = ac_cash_vnd account"
    using ledger_cash.run_total [OF l0(1) assms(5,2)] l0(2) by simp
  have wf: "wf_ledger l" using ledger_cash.run_inv [OF l0(1) assms(5,2)] by (rule exact_ledgerD(1))
  have "lg_available_cash_vnd l \<le> cash_total l" using reserved_cash_nonneg [OF wf] by (simp add: cash_total_def)
  then show ?thesis using total run_spent_nonneg [OF assms(5), of E l0] wf_ledger_facts(4) [OF wf] by simp
qed

lemma sample_exact: "list_all exact_op sample_ops" "on_grid (ac_cash_vnd sample_account)" "ac_cash_vnd sample_account \<le> 10 ^ 20"
  by code_simp+

theorem cash_conserved_witness:
  "\<exists>l0 l. initialize_paper_ledger sample_env sample_account 7 = Inr l0 \<and>
     run_res (ledger_step sample_env) l0 sample_ops = Inr l \<and>
     cash_total l + run_cost (ledger_step sample_env) spent_cash l0 sample_ops = 100000000"
proof (rule sample_run)
  fix l0 l
  assume run: "initialize_paper_ledger sample_env sample_account 7 = Inr l0" "run_res (ledger_step sample_env) l0 sample_ops = Inr l"
  have "ac_cash_vnd sample_account = 100000000" by (simp add: sample_account_def)
  with cash_conserved [OF run sample_exact(2,3,1)] run show ?thesis
    by (intro exI [of _ l0] exI [of _ l]) simp
qed

section \<open>Compare and swap\<close>

lemma ledger_step_revision: "ledger_step E l op = Inr l' \<Longrightarrow> lg_revision l' = lg_revision l + 1"
  by (cases op) (auto simp: Let_def if_Inl_eq_Inr rbind_eq_Inr reserve_paper_entry_def settle_paper_entry_def
      reserve_paper_exit_def settle_paper_exit_def dest!: next_ledger_Inr(1))

lemma run_revision: "run_res (ledger_step E) l ops = Inr l' \<Longrightarrow> lg_revision l' = lg_revision l + int (length ops)"
  by (induction ops arbitrary: l) (auto simp: rbind_eq_Inr dest!: ledger_step_revision)

text \<open>A plan made against one ledger revision is refused by every later one: once any operation was accepted after the
  plan, reserving its entry or exit raises (for content hashes that tell the two ledgers apart).\<close>

theorem stale_plan_refused:
  assumes "run_res (ledger_step E) l ops = Inr l'" and "ops \<noteq> []" and "inj_on (pe_ledger_sha E) {l, l'}"
    and "oi_resource_ledger_sha256 i = pe_ledger_sha E l"
  shows "reserve_paper_entry E l' i = Inl (ValueError ''paper entry cannot reserve the supplied ledger revision'') \<and>
    reserve_paper_exit E l' i = Inl (ValueError ''paper exit cannot reserve the supplied open cycle'')"
proof -
  have "lg_revision l' \<noteq> lg_revision l" using run_revision [OF assms(1)] assms(2) by simp
  then have "l' \<noteq> l" by auto
  then have "pe_ledger_sha E l' \<noteq> pe_ledger_sha E l" using assms(3) by (auto dest: inj_onD)
  then show ?thesis using assms(4) by (simp add: reserve_paper_entry_def reserve_paper_exit_def Let_def)
qed

theorem stale_plan_refused_witness:
  "\<exists>l0 l. initialize_paper_ledger sample_env sample_account 7 = Inr l0 \<and>
     run_res (ledger_step sample_env) l0 sample_ops = Inr l \<and>
     reserve_paper_entry sample_env l (sample_intent ENTRY) =
       Inl (ValueError ''paper entry cannot reserve the supplied ledger revision'')"
proof (rule sample_run)
  fix l0 l
  assume run: "initialize_paper_ledger sample_env sample_account 7 = Inr l0" "run_res (ledger_step sample_env) l0 sample_ops = Inr l"
    "lg_revision l = 4"
  have rev: "lg_revision l0 = 0" by (rule initialize_Inr(4) [OF run(1)])
  have "inj_on (pe_ledger_sha sample_env) {l0, l}" using rev run(3) by (auto simp: inj_on_def sample_env_def)
  moreover have "oi_resource_ledger_sha256 (sample_intent ENTRY) = pe_ledger_sha sample_env l0"
    using rev by (simp add: sample_env_def sample_intent_def)
  ultimately have "reserve_paper_entry sample_env l (sample_intent ENTRY) =
       Inl (ValueError ''paper entry cannot reserve the supplied ledger revision'')"
    using stale_plan_refused [OF run(2)] by blast
  with run show ?thesis by blast
qed

end
