(* ===== verification/PaperEngine.thy ===== *)
theory PaperEngine
  imports PaperLedger
begin

text \<open>
  \<^verbatim>\<open>t0_trading/execution/engine.py\<close>: the planners of the entry and exit legs and the append-only reducer of order
  events. The reducer is a machine over events (\<open>reduce_step\<close>), folded by \<open>run_res\<close>; its loop variables are the
  fields of \<open>reducer\<close>.
\<close>

section \<open>Planning\<close>

definition stale_quote :: "paper_execution_version \<Rightarrow> market_snapshot \<Rightarrow> bool" where
  "stale_quote policy market = (pm_observed_at market - pm_quote_received_at market > px_maximum_quote_age_seconds policy * second_us)"

definition entry_limit_price :: "market_snapshot \<Rightarrow> paper_execution_version \<Rightarrow> decimal" where
  "entry_limit_price market policy = dadd (pm_best_ask_price market) (dmul (pm_tick_size market) (of_int (px_limit_offset_ticks policy)))"

definition entry_notional :: "market_snapshot \<Rightarrow> paper_execution_version \<Rightarrow> decimal" where
  "entry_notional market policy = dmul (entry_limit_price market policy) (of_int (px_order_quantity policy))"

definition entry_reserved_cash :: "execution_request \<Rightarrow> paper_execution_version \<Rightarrow> decimal" where
  "entry_reserved_cash request policy = dmul (entry_notional (rq_market request) policy) (buy_factor (rq_costs request))"

definition entry_block_reasons :: "execution_request \<Rightarrow> paper_execution_version \<Rightarrow> context_version \<Rightarrow> block_reason list" where
  "entry_block_reasons request policy context =
     (let market = rq_market request; resources = rq_resources request; risk = rq_risk request;
          quantity = px_order_quantity policy; limit_price = entry_limit_price market policy;
          notional = entry_notional market policy; reserved_cash = entry_reserved_cash request policy in
      (if pm_market_status market \<notin> set (cx_tradable_market_statuses context) then [MARKET_STATUS_INELIGIBLE] else []) @
      (if stale_quote policy market then [STALE_QUOTE] else []) @
      (if pm_best_ask_quantity market < quantity then [INSUFFICIENT_ASK_QUANTITY] else []) @
      (if limit_price > pm_ceiling_price market \<or> limit_price < pm_floor_price market then [PRICE_LIMIT] else []) @
      (case find (\<lambda>p. rp_symbol p = bc_symbol (rq_candidate request)) (lg_positions resources) of
         None \<Rightarrow> [POSITION_UNAVAILABLE]
       | Some p \<Rightarrow> if rp_available_exit_quantity p < quantity then [INSUFFICIENT_SETTLED_ABOVE_CORE] else []) @
      (if quantity > rk_max_cycle_quantity risk then [QUANTITY_LIMIT] else []) @
      (if notional > rk_max_order_notional_vnd risk then [ORDER_NOTIONAL_LIMIT] else []) @
      (if lg_started_cycles resources \<ge> rk_max_cycles_per_day risk then [CYCLE_LIMIT] else []) @
      (if lg_realized_net_pnl_vnd resources \<le> dneg (rk_max_daily_loss_vnd risk) then [DAILY_LOSS_LIMIT] else []) @
      (if dsub (lg_available_cash_vnd resources) reserved_cash < rk_cash_reserve_vnd risk then [CASH_LIMIT] else []))"

definition blocked_plan :: "string \<Rightarrow> block_reason list \<Rightarrow> order_plan res" where
  "blocked_plan arbitration_sha reasons =
     PaperOrderPlan \<lparr>pl_arbitration_sha256 = arbitration_sha, pl_status = BLOCKED, pl_reasons = reasons, pl_intent = None\<rparr>"

definition ready_plan :: "string \<Rightarrow> order_intent \<Rightarrow> order_plan res" where
  "ready_plan arbitration_sha intent = rbind (PaperOrderIntent intent) (\<lambda>i.
     PaperOrderPlan \<lparr>pl_arbitration_sha256 = arbitration_sha, pl_status = READY, pl_reasons = [], pl_intent = Some i\<rparr>)"

definition entry_intent :: "paper_env \<Rightarrow> execution_request \<Rightarrow> paper_execution_version \<Rightarrow> nat \<Rightarrow> order_intent" where
  "entry_intent E request policy priority =
     (let candidate = rq_candidate request; arbitration = rq_arbitration request; market = rq_market request in
      \<lparr>oi_execution_version = version policy, oi_execution_configuration_sha256 = version_sha256 (pe_execution_sha E) policy,
       oi_request_sha256 = pe_request_sha E request, oi_promotion_report_sha256 = pe_promotion_sha E (rq_promotion request),
       oi_arbitration_sha256 = pe_arbitration_sha E arbitration, oi_candidate_sha256 = pe_candidate_sha E candidate,
       oi_strategy = bc_strategy candidate, oi_symbol = bc_symbol candidate, oi_trade_date = bc_trade_date candidate,
       oi_decision_at = bc_decision_at candidate, oi_horizon_seconds = ca_horizon_seconds arbitration,
       oi_leg = ENTRY, oi_action = BUY, oi_quantity = px_order_quantity policy,
       oi_limit_price = entry_limit_price market policy, oi_priority = priority, oi_created_at = pm_observed_at market,
       oi_expires_at = pm_observed_at market + px_time_in_force_seconds policy * second_us,
       oi_reserved_cash_vnd = entry_reserved_cash request policy, oi_reserved_exit_quantity = px_order_quantity policy,
       oi_market_snapshot_sha256 = pe_market_sha E market, oi_selection_source_sha256 = sel_source_sha256 (rq_selection request),
       oi_resource_ledger_sha256 = pe_ledger_sha E (rq_resources request), oi_parent_intent_sha256 = None\<rparr>)"

text \<open>The policy digests of \<^verbatim>\<open>arbitration_policy\<close> and \<^verbatim>\<open>promotion_policy\<close> are those of the promotion engine.\<close>

definition plan_paper_order ::
  "paper_env \<Rightarrow> promotion_digests \<Rightarrow> execution_request \<Rightarrow> paper_execution_version \<Rightarrow> arbitration_version \<Rightarrow> context_version \<Rightarrow>
   promotion_gate_version \<Rightarrow> order_plan res" where
  "plan_paper_order E D request policy arbitration_policy context promotion_policy =
     (let candidate = rq_candidate request; arbitration = rq_arbitration request; promotion = rq_promotion request in
      if \<not> contains policy (bc_trade_date candidate) \<or> \<not> contains context (bc_trade_date candidate) \<or>
         px_arbitration_version policy \<noteq> version arbitration_policy \<or>
         px_promotion_gate_version policy \<noteq> version promotion_policy \<or>
         px_context_version policy \<noteq> version context \<or>
         ca_arbitration_version arbitration \<noteq> version arbitration_policy \<or>
         ca_arbitration_configuration_sha256 arbitration \<noteq> version_sha256 (dg_arbitration D) arbitration_policy \<or>
         gr_gate_version promotion \<noteq> version promotion_policy \<or>
         gr_gate_configuration_sha256 promotion \<noteq> version_sha256 (dg_gate D) promotion_policy \<or>
         gr_evaluation_version promotion \<noteq> pg_evaluation_version promotion_policy \<or>
         gr_arbitration_version promotion \<noteq> pg_arbitration_version promotion_policy
      then Inl (ValueError ''paper execution policy does not match selected arbitration'')
      else let reasons = entry_block_reasons request policy context in
      if reasons \<noteq> [] then blocked_plan (pe_arbitration_sha E arbitration) reasons
      else case ca_priority arbitration of
        None \<Rightarrow> Inl (ValueError ''selected arbitration is missing paper execution priority'')
      | Some priority \<Rightarrow> ready_plan (pe_arbitration_sha E arbitration) (entry_intent E request policy priority))"

definition exit_limit_price :: "market_snapshot \<Rightarrow> paper_execution_version \<Rightarrow> decimal" where
  "exit_limit_price market policy = dsub (pm_best_bid_price market) (dmul (pm_tick_size market) (of_int (px_limit_offset_ticks policy)))"

definition exit_block_reasons :: "exit_request \<Rightarrow> paper_execution_version \<Rightarrow> context_version \<Rightarrow> int \<Rightarrow> block_reason list" where
  "exit_block_reasons request policy context quantity =
     (let market = xr_market request; entry = xr_entry_intent request; limit_price = exit_limit_price market policy in
      (if \<not> terminal (os_status (xr_entry_state request)) then [ENTRY_NOT_TERMINAL] else []) @
      (if quantity = 0 then [ENTRY_UNFILLED] else []) @
      (if pm_observed_at market < oi_decision_at entry + oi_horizon_seconds entry * second_us then [BEFORE_EXIT_HORIZON] else []) @
      (if pm_market_status market \<notin> set (cx_tradable_market_statuses context) then [MARKET_STATUS_INELIGIBLE] else []) @
      (if stale_quote policy market then [STALE_QUOTE] else []) @
      (if pm_best_bid_quantity market < quantity then [INSUFFICIENT_BID_QUANTITY] else []) @
      (if limit_price < pm_floor_price market \<or> limit_price > pm_ceiling_price market then [PRICE_LIMIT] else []))"

definition exit_intent :: "paper_env \<Rightarrow> exit_request \<Rightarrow> paper_execution_version \<Rightarrow> int \<Rightarrow> order_intent" where
  "exit_intent E request policy quantity =
     (let entry = xr_entry_intent request; market = xr_market request in
      entry\<lparr>oi_request_sha256 := pe_exit_request_sha E request, oi_leg := EXIT, oi_action := SELL, oi_quantity := quantity,
        oi_limit_price := exit_limit_price market policy, oi_created_at := pm_observed_at market,
        oi_expires_at := pm_observed_at market + px_time_in_force_seconds policy * second_us,
        oi_reserved_cash_vnd := 0, oi_reserved_exit_quantity := quantity,
        oi_market_snapshot_sha256 := pe_market_sha E market,
        oi_resource_ledger_sha256 := pe_ledger_sha E (xr_resources request),
        oi_parent_intent_sha256 := Some (pe_intent_sha E entry)\<rparr>)"

definition plan_paper_exit ::
  "paper_env \<Rightarrow> exit_request \<Rightarrow> paper_execution_version \<Rightarrow> context_version \<Rightarrow> order_plan res" where
  "plan_paper_exit E request policy context =
     (let entry = xr_entry_intent request in
      rbind (next_match (\<lambda>r. rv_entry_intent_sha256 r = pe_intent_sha E entry \<and> rv_status r = OPEN) (lg_reservations (xr_resources request))) (\<lambda>reservation.
      if \<not> contains policy (oi_trade_date entry) \<or> \<not> contains context (oi_trade_date entry) \<or>
         oi_execution_version entry \<noteq> version policy \<or>
         oi_execution_configuration_sha256 entry \<noteq> version_sha256 (pe_execution_sha E) policy
      then Inl (ValueError ''paper exit policy does not match its entry intent'')
      else let quantity = rv_reserved_exit_quantity reservation; reasons = exit_block_reasons request policy context quantity in
      if reasons \<noteq> [] then blocked_plan (oi_arbitration_sha256 entry) reasons
      else ready_plan (oi_arbitration_sha256 entry) (exit_intent E request policy quantity)))"

section \<open>Reducing events\<close>

record reducer =
  rd_status :: paper_order_status
  rd_filled :: int
  rd_average :: "decimal option"
  rd_last_at :: instant
  rd_last_sequence :: int
  rd_hashes :: "string list"
  rd_adapter_ids :: "string list"
  rd_fill_positions :: "(string \<times> int \<times> string) list"
  rd_last_fill_position :: "(instant \<times> string \<times> int) option"
  rd_last_hash :: "string option"

definition initial_reducer :: "order_intent \<Rightarrow> reducer" where
  "initial_reducer intent = \<lparr>rd_status = CREATED, rd_filled = 0, rd_average = None, rd_last_at = oi_created_at intent,
     rd_last_sequence = 0, rd_hashes = [], rd_adapter_ids = [], rd_fill_positions = [], rd_last_fill_position = None, rd_last_hash = None\<rparr>"

fun event_status :: "paper_event_type \<Rightarrow> paper_order_status" where
  "event_status ACCEPTED_EVENT = ACCEPTED"
| "event_status PARTIALLY_FILLED_EVENT = PARTIALLY_FILLED"
| "event_status FILLED_EVENT = FILLED"
| "event_status REJECTED_EVENT = REJECTED"
| "event_status CANCELLED_EVENT = CANCELLED"
| "event_status EXPIRED_EVENT = EXPIRED"

fun allowed :: "paper_order_status \<Rightarrow> paper_event_type list" where
  "allowed CREATED = [ACCEPTED_EVENT, REJECTED_EVENT, EXPIRED_EVENT]"
| "allowed ACCEPTED = [PARTIALLY_FILLED_EVENT, FILLED_EVENT, CANCELLED_EVENT, EXPIRED_EVENT]"
| "allowed PARTIALLY_FILLED = [PARTIALLY_FILLED_EVENT, FILLED_EVENT, CANCELLED_EVENT, EXPIRED_EVENT]"
| "allowed _ = []"

definition violates_limit :: "order_intent \<Rightarrow> decimal \<Rightarrow> bool" where
  "violates_limit intent price =
     ((oi_action intent = BUY \<and> price > oi_limit_price intent) \<or> (oi_action intent = SELL \<and> price < oi_limit_price intent))"

definition expected_average :: "reducer \<Rightarrow> order_event \<Rightarrow> fill_evidence \<Rightarrow> decimal res" where
  "expected_average st event evidence =
     (if rd_filled st = 0 then Inr (fe_fill_price evidence)
      else case rd_average st of None \<Rightarrow> Inl (ValueError ''existing paper fill is missing its average price'')
      | Some average \<Rightarrow> ddiv_res
          (dadd (dmul average (of_int (rd_filled st)))
                (dmul (fe_fill_price evidence) (of_int (ev_cumulative_filled_quantity event - rd_filled st))))
          (of_int (ev_cumulative_filled_quantity event)))"

definition fill_position :: "fill_evidence \<Rightarrow> instant \<times> string \<times> int" where
  "fill_position e = (fe_observed_at e, fe_stream_session_id e, fe_receive_sequence e)"

definition fill_identity :: "fill_evidence \<Rightarrow> string \<times> int \<times> string" where
  "fill_identity e = (fe_stream_session_id e, fe_receive_sequence e, fe_source_sha256 e)"

definition check_evidence :: "order_intent \<Rightarrow> reducer \<Rightarrow> order_event \<Rightarrow> fill_evidence \<Rightarrow> unit res" where
  "check_evidence intent st event evidence =
     rbind (expected_average st event evidence) (\<lambda>expected.
     if fe_symbol evidence \<noteq> oi_symbol intent \<or> fe_action evidence \<noteq> oi_action intent \<or>
        fe_filled_quantity evidence \<noteq> ev_cumulative_filled_quantity event - rd_filled st \<or>
        fe_observed_at evidence < oi_created_at intent \<or> fe_observed_at evidence > ev_occurred_at event \<or>
        ev_average_fill_price event \<noteq> Some expected \<or> fill_identity evidence \<in> set (rd_fill_positions st) \<or>
        (case rd_last_fill_position st of None \<Rightarrow> False | Some p \<Rightarrow> fill_position evidence \<le> p)
     then Inl (ValueError ''paper fill evidence does not reconcile with the order event'')
     else if violates_limit intent (fe_fill_price evidence) then Inl (ValueError ''paper fill violates its limit price'')
     else Inr ())"

definition check_history :: "paper_env \<Rightarrow> order_intent \<Rightarrow> reducer \<Rightarrow> order_event \<Rightarrow> bool" where
  "check_history E intent st event =
     (ev_intent_sha256 event \<noteq> pe_intent_sha E intent \<or> pe_event_sha E event \<in> set (rd_hashes st) \<or>
      ev_adapter_event_id event \<in> set (rd_adapter_ids st) \<or> ev_sequence event \<le> rd_last_sequence st \<or>
      ev_occurred_at event < rd_last_at st \<or> terminal (rd_status st) \<or> ev_event_type event \<notin> set (allowed (rd_status st)) \<or>
      ev_cumulative_filled_quantity event < rd_filled st \<or> ev_cumulative_filled_quantity event > oi_quantity intent)"

definition reduce_step :: "paper_env \<Rightarrow> order_intent \<Rightarrow> reducer \<Rightarrow> order_event \<Rightarrow> reducer res" where
  "reduce_step E intent st event =
     (let cumulative = ev_cumulative_filled_quantity event; kind = ev_event_type event in
      if check_history E intent st event then Inl (ValueError ''paper order event history is inconsistent'')
      else if kind = ACCEPTED_EVENT \<and> cumulative \<noteq> 0 then Inl (ValueError ''accepted paper order cannot already contain a fill'')
      else if kind = REJECTED_EVENT \<and> cumulative \<noteq> 0 then Inl (ValueError ''rejected paper order cannot contain a fill'')
      else if kind = PARTIALLY_FILLED_EVENT \<and> \<not> (rd_filled st < cumulative \<and> cumulative < oi_quantity intent)
      then Inl (ValueError ''partial paper fill quantity is inconsistent'')
      else if kind = FILLED_EVENT \<and> cumulative \<noteq> oi_quantity intent
      then Inl (ValueError ''filled paper order must reach its complete quantity'')
      else if cumulative = rd_filled st \<and> ev_average_fill_price event \<noteq> rd_average st
      then Inl (ValueError ''paper fill average changed without additional quantity'')
      else if (cumulative - rd_filled st > 0) \<noteq> (ev_fill_evidence event \<noteq> None)
      then Inl (ValueError ''paper quantity changes require fill evidence'')
      else rbind (case ev_fill_evidence event of None \<Rightarrow> Inr () | Some evidence \<Rightarrow> check_evidence intent st event evidence) (\<lambda>_.
      if (case ev_average_fill_price event of None \<Rightarrow> False | Some a \<Rightarrow> violates_limit intent a)
      then Inl (ValueError ''paper fill violates its limit price'')
      else if kind \<in> {ACCEPTED_EVENT, PARTIALLY_FILLED_EVENT, FILLED_EVENT} \<and> ev_occurred_at event > oi_expires_at intent
      then Inl (ValueError ''paper order activity cannot occur after expiry'')
      else if kind = EXPIRED_EVENT \<and> ev_occurred_at event < oi_expires_at intent
      then Inl (ValueError ''paper order cannot expire before its deadline'')
      else Inr \<lparr>rd_status = event_status kind, rd_filled = cumulative, rd_average = ev_average_fill_price event,
        rd_last_at = ev_occurred_at event, rd_last_sequence = ev_sequence event,
        rd_hashes = rd_hashes st @ [pe_event_sha E event], rd_adapter_ids = rd_adapter_ids st @ [ev_adapter_event_id event],
        rd_fill_positions = rd_fill_positions st @ (case ev_fill_evidence event of None \<Rightarrow> [] | Some e \<Rightarrow> [fill_identity e]),
        rd_last_fill_position = (case ev_fill_evidence event of None \<Rightarrow> rd_last_fill_position st | Some e \<Rightarrow> Some (fill_position e)),
        rd_last_hash = Some (pe_event_sha E event)\<rparr>))"

definition reduce_paper_order :: "paper_env \<Rightarrow> order_intent \<Rightarrow> order_event list \<Rightarrow> order_state res" where
  "reduce_paper_order E intent events =
     rbind (run_res (reduce_step E intent) (initial_reducer intent) events) (\<lambda>st.
     PaperOrderState \<lparr>os_intent_sha256 = pe_intent_sha E intent, os_status = rd_status st,
       os_cumulative_filled_quantity = rd_filled st, os_average_fill_price = rd_average st,
       os_event_count = length events, os_last_event_sha256 = rd_last_hash st\<rparr>)"

section \<open>What an accepted event history looks like\<close>

lemma reduce_step_Inr:
  assumes "reduce_step E i st e = Inr st'"
  shows "\<not> check_history E i st e"
    "ev_event_type e = FILLED_EVENT \<Longrightarrow> ev_cumulative_filled_quantity e = oi_quantity i"
    "ev_fill_evidence e = None \<Longrightarrow> ev_cumulative_filled_quantity e = rd_filled st \<and> ev_average_fill_price e = rd_average st"
    "ev_fill_evidence e = Some f \<Longrightarrow> rd_filled st < ev_cumulative_filled_quantity e \<and> check_evidence i st e f = Inr ()"
    "ev_average_fill_price e = Some a \<Longrightarrow> \<not> violates_limit i a"
    "st' = \<lparr>rd_status = event_status (ev_event_type e), rd_filled = ev_cumulative_filled_quantity e, rd_average = ev_average_fill_price e,
        rd_last_at = ev_occurred_at e, rd_last_sequence = ev_sequence e,
        rd_hashes = rd_hashes st @ [pe_event_sha E e], rd_adapter_ids = rd_adapter_ids st @ [ev_adapter_event_id e],
        rd_fill_positions = rd_fill_positions st @ (case ev_fill_evidence e of None \<Rightarrow> [] | Some e \<Rightarrow> [fill_identity e]),
        rd_last_fill_position = (case ev_fill_evidence e of None \<Rightarrow> rd_last_fill_position st | Some e \<Rightarrow> Some (fill_position e)),
        rd_last_hash = Some (pe_event_sha E e)\<rparr>"
proof -
  note step = assms [unfolded reduce_step_def Let_def if_Inl_eq_Inr rbind_eq_Inr]
  show hist: "\<not> check_history E i st e" using step by blast
  show "ev_event_type e = FILLED_EVENT \<Longrightarrow> ev_cumulative_filled_quantity e = oi_quantity i" using step by blast
  show "ev_average_fill_price e = Some a \<Longrightarrow> \<not> violates_limit i a" using step by auto
  show "ev_fill_evidence e = Some f \<Longrightarrow> rd_filled st < ev_cumulative_filled_quantity e \<and> check_evidence i st e f = Inr ()"
    using step by auto
  show "ev_fill_evidence e = None \<Longrightarrow> ev_cumulative_filled_quantity e = rd_filled st \<and> ev_average_fill_price e = rd_average st"
    using step hist by (force simp: check_history_def)
  show "st' = \<lparr>rd_status = event_status (ev_event_type e), rd_filled = ev_cumulative_filled_quantity e, rd_average = ev_average_fill_price e,
        rd_last_at = ev_occurred_at e, rd_last_sequence = ev_sequence e,
        rd_hashes = rd_hashes st @ [pe_event_sha E e], rd_adapter_ids = rd_adapter_ids st @ [ev_adapter_event_id e],
        rd_fill_positions = rd_fill_positions st @ (case ev_fill_evidence e of None \<Rightarrow> [] | Some e \<Rightarrow> [fill_identity e]),
        rd_last_fill_position = (case ev_fill_evidence e of None \<Rightarrow> rd_last_fill_position st | Some e \<Rightarrow> Some (fill_position e)),
        rd_last_hash = Some (pe_event_sha E e)\<rparr>"
    using step by auto
qed

lemma check_history_False:
  assumes "\<not> check_history E i st e"
  shows "ev_intent_sha256 e = pe_intent_sha E i" "pe_event_sha E e \<notin> set (rd_hashes st)"
    "ev_adapter_event_id e \<notin> set (rd_adapter_ids st)" "rd_last_sequence st < ev_sequence e"
    "rd_last_at st \<le> ev_occurred_at e" "\<not> terminal (rd_status st)" "ev_event_type e \<in> set (allowed (rd_status st))"
    "rd_filled st \<le> ev_cumulative_filled_quantity e" "ev_cumulative_filled_quantity e \<le> oi_quantity i"
  using assms by (auto simp: check_history_def)

lemma check_evidence_Inr:
  assumes "check_evidence i st e f = Inr ()"
  obtains a where "expected_average st e f = Inr a" "ev_average_fill_price e = Some a"
    "fe_filled_quantity f = ev_cumulative_filled_quantity e - rd_filled st" "\<not> violates_limit i (fe_fill_price f)"
    "fe_symbol f = oi_symbol i" "fe_action f = oi_action i" "oi_created_at i \<le> fe_observed_at f"
    "fe_observed_at f \<le> ev_occurred_at e"
  using assms unfolding check_evidence_def rbind_eq_Inr if_Inl_eq_Inr by auto

definition filled_by :: "order_event \<Rightarrow> int" where
  "filled_by e = (case ev_fill_evidence e of None \<Rightarrow> 0 | Some f \<Rightarrow> fe_filled_quantity f)"

definition history_facts :: "paper_env \<Rightarrow> order_intent \<Rightarrow> order_event list \<Rightarrow> reducer \<Rightarrow> bool" where
  "history_facts E i es st \<longleftrightarrow>
     rd_hashes st = map (pe_event_sha E) es \<and> rd_adapter_ids st = map ev_adapter_event_id es \<and>
     distinct (map (pe_event_sha E) es) \<and> distinct (map ev_adapter_event_id es) \<and>
     sorted_wrt (<) (map ev_sequence es) \<and> (\<forall>e \<in> set es. ev_sequence e \<le> rd_last_sequence st) \<and>
     sorted (oi_created_at i # map ev_occurred_at es) \<and> (\<forall>e \<in> set es. ev_occurred_at e \<le> rd_last_at st) \<and> oi_created_at i \<le> rd_last_at st \<and>
     rd_filled st = sum_list (map filled_by es) \<and> 0 \<le> rd_filled st \<and> (rd_filled st \<noteq> 0 \<longrightarrow> rd_filled st \<le> oi_quantity i) \<and>
     (rd_status st = FILLED \<longrightarrow> rd_filled st = oi_quantity i) \<and>
     (\<forall>a. rd_average st = Some a \<longrightarrow> \<not> violates_limit i a) \<and>
     list_all (\<lambda>e. \<not> terminal (event_status (ev_event_type e))) (butlast es) \<and>
     rd_status st = (if es = [] then CREATED else event_status (ev_event_type (last es))) \<and>
     list_all (\<lambda>e. ev_intent_sha256 e = pe_intent_sha E i) es \<and>
     rd_last_hash st = (if es = [] then None else Some (pe_event_sha E (last es)))"

lemma reduce_history:
  "run_res (reduce_step E i) (initial_reducer i) es = Inr st \<Longrightarrow> history_facts E i es st"
proof (induction es arbitrary: st rule: rev_induct)
  case Nil
  then show ?case by (auto simp: history_facts_def initial_reducer_def)
next
  case (snoc e es)
  then obtain s0 where s0: "run_res (reduce_step E i) (initial_reducer i) es = Inr s0"
    and step: "reduce_step E i s0 e = Inr st"
    by (auto simp: run_res_append rbind_eq_Inr)
  note IH = snoc.IH [OF s0, unfolded history_facts_def]
  note r = reduce_step_Inr [OF step] and h = check_history_False [OF reduce_step_Inr(1) [OF step]]
  have filled: "ev_cumulative_filled_quantity e = rd_filled s0 + filled_by e"
    using r(3,4) check_evidence_Inr by (cases "ev_fill_evidence e") (auto simp: filled_by_def elim!: check_evidence_Inr)
  have "list_all (\<lambda>e. \<not> terminal (event_status (ev_event_type e))) es"
    using IH h(6) by (cases es rule: rev_cases) (auto simp: list_all_iff)
  moreover have "sorted_wrt (<) (map ev_sequence (es @ [e]))" "\<forall>x \<in> set (es @ [e]). ev_sequence x \<le> ev_sequence e"
    using IH h(4) by (auto simp: sorted_wrt_append order.strict_trans1 intro: order.trans less_imp_le dest: order.strict_trans1)
  moreover have "sorted (oi_created_at i # map ev_occurred_at (es @ [e]))" "\<forall>x \<in> set (es @ [e]). ev_occurred_at x \<le> ev_occurred_at e"
      "oi_created_at i \<le> ev_occurred_at e"
    using IH h(5) by (auto simp: sorted_append intro: order.trans)
  moreover have "event_status (ev_event_type e) = FILLED \<longrightarrow> ev_cumulative_filled_quantity e = oi_quantity i"
    using r(2) by (cases "ev_event_type e") auto
  ultimately show ?case unfolding history_facts_def r(6)
    using IH h r(5) filled by (auto simp: list_all_iff)
qed

section \<open>Averages stay inside the fill prices\<close>

text \<open>
  The running average is rounded three times per fill. For prices on the grid and notionals the context
  represents exactly, the rounding never moves it outside the interval of the prices it averages.
\<close>

definition exact_price :: "order_intent \<Rightarrow> decimal \<Rightarrow> bool" where
  "exact_price i h \<longleftrightarrow> on_grid h \<and> 0 \<le> h \<and> h * of_int (oi_quantity i) \<le> 10 ^ 20"

definition price_band :: "order_intent \<Rightarrow> decimal \<Rightarrow> decimal \<Rightarrow> bool" where
  "price_band i lo hi \<longleftrightarrow> exact_price i lo \<and> exact_price i hi"

definition fills_within :: "decimal \<Rightarrow> decimal \<Rightarrow> order_event \<Rightarrow> bool" where
  "fills_within lo hi e = (case ev_fill_evidence e of None \<Rightarrow> True | Some f \<Rightarrow> lo \<le> fe_fill_price f \<and> fe_fill_price f \<le> hi)"

definition average_within :: "order_intent \<Rightarrow> decimal \<Rightarrow> decimal \<Rightarrow> reducer \<Rightarrow> bool" where
  "average_within i lo hi st \<longleftrightarrow> price_band i lo hi \<and> 0 \<le> rd_filled st \<and>
     (case rd_average st of None \<Rightarrow> True | Some a \<Rightarrow> lo \<le> a \<and> a \<le> hi)"

abbreviation running_average :: "decimal \<Rightarrow> int \<Rightarrow> decimal \<Rightarrow> int \<Rightarrow> decimal" where
  "running_average a m p c \<equiv> ddiv (dadd (dmul a (of_int m)) (dmul p (of_int (c - m)))) (of_int c)"

lemma exact_price_scaled:
  assumes "exact_price i h" "0 \<le> m" "m < c" "c \<le> oi_quantity i"
  shows "dec_ctx (h * of_int m) = h * of_int m" "dec_ctx (h * of_int (c - m)) = h * of_int (c - m)"
    "dec_ctx (h * (of_int m + of_int (c - m))) = h * (of_int m + of_int (c - m))" "dec_ctx h = h"
proof -
  have exact: "dec_ctx (h * of_int n) = h * of_int n" if "0 \<le> n" "n \<le> oi_quantity i" for n
    using on_grid_scaled_exact [of h n "oi_quantity i"] that assms(1) by (simp add: exact_price_def)
  show "dec_ctx (h * of_int m) = h * of_int m" "dec_ctx (h * of_int (c - m)) = h * of_int (c - m)"
    "dec_ctx (h * (of_int m + of_int (c - m))) = h * (of_int m + of_int (c - m))" "dec_ctx h = h"
    using exact [of m] exact [of "c - m"] exact [of c] exact [of 1] assms(2-4) by simp_all
qed

lemma running_average_le:
  assumes "exact_price i h" "0 \<le> m" "m < c" "c \<le> oi_quantity i" "a \<le> h" "p \<le> h"
  shows "running_average a m p c \<le> h"
proof -
  have "of_int c = (of_int m + of_int (c - m) :: rat)" by simp
  moreover have "0 \<le> (of_int m :: rat)" "0 \<le> (of_int (c - m) :: rat)" "0 < (of_int m + of_int (c - m) :: rat)"
    using assms(2,3) by simp_all
  ultimately show ?thesis unfolding ddiv_def dadd_def dmul_def
    using context_rounding.weighted_average_le [OF _ _ _ assms(5,6) exact_price_scaled [OF assms(1-4)]] by simp
qed

lemma running_average_ge:
  assumes "exact_price i h" "0 \<le> m" "m < c" "c \<le> oi_quantity i" "h \<le> a" "h \<le> p"
  shows "h \<le> running_average a m p c"
proof -
  have "of_int c = (of_int m + of_int (c - m) :: rat)" by simp
  moreover have "0 \<le> (of_int m :: rat)" "0 \<le> (of_int (c - m) :: rat)" "0 < (of_int m + of_int (c - m) :: rat)"
    using assms(2,3) by simp_all
  ultimately show ?thesis unfolding ddiv_def dadd_def dmul_def
    using context_rounding.weighted_average_ge [OF _ _ _ assms(5,6) exact_price_scaled [OF assms(1-4)]] by simp
qed

lemma reduce_step_average_within:
  assumes "average_within i lo hi st" "fills_within lo hi e" "reduce_step E i st e = Inr st'"
  shows "average_within i lo hi st'"
proof (cases "ev_fill_evidence e")
  case None
  then show ?thesis using assms(1) reduce_step_Inr(3,6) [OF assms(3)] by (simp add: average_within_def)
next
  case (Some f)
  note r = reduce_step_Inr(4) [OF assms(3) Some] and h = check_history_False [OF reduce_step_Inr(1) [OF assms(3)]]
  obtain a where a: "expected_average st e f = Inr a" "ev_average_fill_price e = Some a"
    using check_evidence_Inr [OF r [THEN conjunct2]] by blast
  have p: "lo \<le> fe_fill_price f" "fe_fill_price f \<le> hi" and band: "exact_price i lo" "exact_price i hi" and pos: "0 \<le> rd_filled st"
    using assms(1,2) Some by (simp_all add: fills_within_def average_within_def price_band_def)
  have "lo \<le> a \<and> a \<le> hi"
  proof (cases "rd_filled st = 0")
    case True
    then show ?thesis using a(1) p by (simp add: expected_average_def)
  next
    case False
    then obtain b where b: "rd_average st = Some b"
      "a = ddiv (dadd (dmul b (of_int (rd_filled st))) (dmul (fe_fill_price f) (of_int (ev_cumulative_filled_quantity e - rd_filled st))))
             (of_int (ev_cumulative_filled_quantity e))"
      using a(1) by (auto simp: expected_average_def ddiv_res_def split: option.splits if_splits)
    then have "lo \<le> b" "b \<le> hi" using assms(1) by (simp_all add: average_within_def)
    then show ?thesis unfolding b(2)
      using running_average_le [OF band(2) pos r [THEN conjunct1] h(9)] running_average_ge [OF band(1) pos r [THEN conjunct1] h(9)] p
      by blast
  qed
  then show ?thesis using band pos r h(8) a(2) by (simp add: reduce_step_Inr(6) [OF assms(3)] average_within_def price_band_def)
qed

interpretation reducer_average: guarded_machine "reduce_step E i" "average_within i lo hi" "fills_within lo hi"
  by unfold_locales (fact reduce_step_average_within)

section \<open>What the reducer guarantees\<close>

lemma reduce_paper_order_Inr:
  assumes "reduce_paper_order E i es = Inr st"
  obtains rd where "run_res (reduce_step E i) (initial_reducer i) es = Inr rd"
    "os_intent_sha256 st = pe_intent_sha E i" "os_status st = rd_status rd" "os_cumulative_filled_quantity st = rd_filled rd"
    "os_average_fill_price st = rd_average rd" "os_event_count st = length es" "os_last_event_sha256 st = rd_last_hash rd"
    "PaperOrderState st = Inr st"
proof -
  obtain rd where rd: "run_res (reduce_step E i) (initial_reducer i) es = Inr rd"
    and con: "PaperOrderState \<lparr>os_intent_sha256 = pe_intent_sha E i, os_status = rd_status rd,
       os_cumulative_filled_quantity = rd_filled rd, os_average_fill_price = rd_average rd,
       os_event_count = length es, os_last_event_sha256 = rd_last_hash rd\<rparr> = Inr st"
    using assms by (auto simp: reduce_paper_order_def rbind_eq_Inr)
  show thesis by (rule that [OF rd]) (use con in \<open>simp_all add: PaperOrderState_Inr [OF con]\<close>)
qed

definition sample_fill :: "instant \<Rightarrow> int \<Rightarrow> int \<Rightarrow> decimal \<Rightarrow> fill_evidence" where
  "sample_fill start n quantity price = \<lparr>fe_symbol = ''VIC'', fe_action = BUY, fe_observed_at = start + 10 * n, fe_stream_session_id = ''s'',
     fe_receive_sequence = n, fe_filled_quantity = quantity, fe_available_quantity = 500, fe_fill_price = price,
     fe_source_sha256 = replicate 64 (CHR ''4'')\<rparr>"

definition sample_event :: "instant \<Rightarrow> int \<Rightarrow> paper_event_type \<Rightarrow> int \<Rightarrow> decimal option \<Rightarrow> fill_evidence option \<Rightarrow> order_event" where
  "sample_event start n kind filled average fill = \<lparr>ev_intent_sha256 = pe_intent_sha sample_env (sample_intent ENTRY), ev_sequence = n,
     ev_event_type = kind, ev_occurred_at = start + 10 * n, ev_cumulative_filled_quantity = filled, ev_average_fill_price = average,
     ev_reason = None, ev_adapter_event_id = replicate (nat n) (CHR ''e''), ev_adapter_evidence_sha256 = replicate 64 (CHR ''9''),
     ev_fill_evidence = fill\<rparr>"

text \<open>An order of 100 shares filled 30 at 49900 and 70 at 50000.\<close>

abbreviation sample_events :: "order_event list" where
  "sample_events \<equiv> [sample_event 0 1 ACCEPTED_EVENT 0 None None,
     sample_event 0 2 PARTIALLY_FILLED_EVENT 30 (Some 49900) (Some (sample_fill 0 2 30 49900)),
     sample_event 0 3 FILLED_EVENT 100 (Some 49970) (Some (sample_fill 0 3 70 50000))]"

lemma sample_reduction_computed:
  "case reduce_paper_order sample_env (sample_intent ENTRY) sample_events of Inl _ \<Rightarrow> False
   | Inr st \<Rightarrow> os_status st = FILLED \<and> os_cumulative_filled_quantity st = 100 \<and> os_average_fill_price st = Some 49970"
  by code_simp

lemma sample_reduction:
  obtains st where "reduce_paper_order sample_env (sample_intent ENTRY) sample_events = Inr st" "os_status st = FILLED"
    "os_cumulative_filled_quantity st = 100" "os_average_fill_price st = Some 49970"
  using case_res_True [OF sample_reduction_computed] by (elim exE conjE)

text \<open>C25: an accepted event history is sound. Whenever the reducer returns a state, every event belongs to the intent, no event
  or adapter identifier is repeated, sequence numbers increase strictly, time never runs backwards from the creation of
  the intent, nothing follows a terminal event, the filled quantity is the sum of the evidenced fills and lies between 0
  and the ordered quantity, a FILLED order is complete, and the average respects the limit price.\<close>

theorem accepted_history_sound:
  assumes "reduce_paper_order E i es = Inr st" and "0 \<le> oi_quantity i"
  shows "(\<forall>e \<in> set es. ev_intent_sha256 e = pe_intent_sha E i) \<and>
    distinct (map (pe_event_sha E) es) \<and> distinct (map ev_adapter_event_id es) \<and>
    sorted_wrt (<) (map ev_sequence es) \<and> sorted (oi_created_at i # map ev_occurred_at es) \<and>
    (\<forall>e \<in> set (butlast es). \<not> terminal (event_status (ev_event_type e))) \<and>
    os_status st = (if es = [] then CREATED else event_status (ev_event_type (last es))) \<and>
    os_cumulative_filled_quantity st = sum_list (map filled_by es) \<and>
    0 \<le> os_cumulative_filled_quantity st \<and> os_cumulative_filled_quantity st \<le> oi_quantity i \<and>
    (os_status st = FILLED \<longrightarrow> os_cumulative_filled_quantity st = oi_quantity i) \<and>
    (\<forall>a. os_average_fill_price st = Some a \<longrightarrow> \<not> violates_limit i a)"
proof -
  obtain rd where rd: "run_res (reduce_step E i) (initial_reducer i) es = Inr rd" "os_status st = rd_status rd"
    "os_cumulative_filled_quantity st = rd_filled rd" "os_average_fill_price st = rd_average rd"
    using assms(1) by (rule reduce_paper_order_Inr)
  note facts = reduce_history [OF rd(1), unfolded history_facts_def]
  then have "rd_filled rd \<le> oi_quantity i" using assms(2) by (cases "rd_filled rd = 0") simp_all
  then show ?thesis unfolding rd(2-4) using facts unfolding list_all_iff by blast
qed

theorem accepted_history_sound_witness:
  "\<exists>st. reduce_paper_order sample_env (sample_intent ENTRY) sample_events = Inr st \<and> os_status st = FILLED \<and>
     os_cumulative_filled_quantity st = sum_list (map filled_by sample_events) \<and>
     \<not> violates_limit (sample_intent ENTRY) 49970"
proof (rule sample_reduction)
  fix st
  assume st: "reduce_paper_order sample_env (sample_intent ENTRY) sample_events = Inr st" "os_status st = FILLED"
    "os_average_fill_price st = Some 49970"
  have "0 \<le> oi_quantity (sample_intent ENTRY)" by (simp add: sample_intent_def)
  from accepted_history_sound [OF st(1) this] st show ?thesis by blast
qed

text \<open>C26: rounding never moves the running average out of the fill prices. For bounds on the decimal grid that enclose every
  evidenced fill price, and whose notional has at most 28 digits, the reported average lies between them; it is rounded
  three times for every fill.\<close>

theorem average_between_fill_prices:
  assumes "reduce_paper_order E i es = Inr st" and "price_band i lo hi" and "list_all (fills_within lo hi) es"
    and "os_average_fill_price st = Some a"
  shows "lo \<le> a \<and> a \<le> hi"
proof -
  obtain rd where rd: "run_res (reduce_step E i) (initial_reducer i) es = Inr rd" "os_average_fill_price st = rd_average rd"
    using assms(1) by (rule reduce_paper_order_Inr)
  have "average_within i lo hi (initial_reducer i)"
    using assms(2) by (simp add: average_within_def initial_reducer_def)
  then have "average_within i lo hi rd" using assms(3) rd(1) by (rule reducer_average.run_inv)
  then show ?thesis using assms(4) rd(2) by (simp add: average_within_def)
qed

theorem average_between_fill_prices_witness:
  "\<exists>st. reduce_paper_order sample_env (sample_intent ENTRY) sample_events = Inr st \<and>
     os_average_fill_price st = Some 49970 \<and> (49900 :: decimal) \<le> 49970 \<and> (49970 :: decimal) \<le> 50000"
proof (rule sample_reduction)
  fix st
  assume st: "reduce_paper_order sample_env (sample_intent ENTRY) sample_events = Inr st" "os_average_fill_price st = Some 49970"
  have "price_band (sample_intent ENTRY) 49900 50000"
    using on_grid_of_int [of 49900] on_grid_of_int [of 50000] by (simp add: price_band_def exact_price_def sample_intent_def)
  moreover have "list_all (fills_within 49900 50000) sample_events"
    by (simp add: fills_within_def sample_event_def sample_fill_def)
  ultimately have "(49900 :: decimal) \<le> 49970 \<and> (49970 :: decimal) \<le> 50000"
    using average_between_fill_prices [OF st(1) _ _ st(2)] by blast
  with st show ?thesis by blast
qed

section \<open>What a ready plan guarantees\<close>

lemma ready_plan_Inr:
  assumes "ready_plan sha i = Inr plan"
  shows "PaperOrderIntent i = Inr i" "pl_status plan = READY" "pl_intent plan = Some i" "pl_reasons plan = []"
    "pl_arbitration_sha256 plan = sha"
proof -
  from assms obtain j where j: "PaperOrderIntent i = Inr j"
    and con: "PaperOrderPlan \<lparr>pl_arbitration_sha256 = sha, pl_status = READY, pl_reasons = [], pl_intent = Some j\<rparr> = Inr plan"
    by (auto simp: ready_plan_def rbind_eq_Inr)
  note eqs = PaperOrderIntent_Inr [OF j] PaperOrderPlan_Inr [OF con]
  show "PaperOrderIntent i = Inr i" "pl_status plan = READY" "pl_intent plan = Some i" "pl_reasons plan = []"
    "pl_arbitration_sha256 plan = sha"
    using j by (simp_all add: eqs)
qed

lemma blocked_plan_Inr:
  assumes "blocked_plan sha reasons = Inr plan"
  shows "plan = \<lparr>pl_arbitration_sha256 = sha, pl_status = BLOCKED, pl_reasons = reasons, pl_intent = None\<rparr>"
  using assms PaperOrderPlan_Inr unfolding blocked_plan_def by blast

lemma plan_entry_ready:
  assumes "plan_paper_order E D request policy ap cx pg = Inr plan" "pl_intent plan = Some i"
  obtains priority where "entry_block_reasons request policy cx = []" "ca_priority (rq_arbitration request) = Some priority"
    "i = entry_intent E request policy priority" "PaperOrderIntent i = Inr i" "pl_status plan = READY"
proof -
  note plan = assms(1) [unfolded plan_paper_order_def Let_def if_Inl_eq_Inr]
  have none: "entry_block_reasons request policy cx = []"
    using plan assms(2) by (auto dest: blocked_plan_Inr split: if_splits)
  then obtain priority where p: "ca_priority (rq_arbitration request) = Some priority"
    and r: "ready_plan (pe_arbitration_sha E (rq_arbitration request)) (entry_intent E request policy priority) = Inr plan"
    using plan by (auto split: option.splits)
  note ready = ready_plan_Inr [OF r]
  have "i = entry_intent E request policy priority" using ready(3) assms(2) by simp
  with none p ready show thesis by (intro that) simp_all
qed



text \<open>A request that passes every check of the planner.\<close>

abbreviation sample_open :: instant where
  "sample_open \<equiv> 7 * 86400 * second_us"

definition sample_snapshot :: "instant \<Rightarrow> int \<Rightarrow> market_snapshot" where
  "sample_snapshot observed n = \<lparr>pm_symbol = ''VIC'', pm_observed_at = observed, pm_quote_received_at = observed,
     pm_stream_session_id = ''s'', pm_receive_sequence = n, pm_best_ask_price = 50000, pm_best_ask_quantity = 300,
     pm_best_bid_price = 49900, pm_best_bid_quantity = 300, pm_reference_price = 50000, pm_ceiling_price = 53500,
     pm_floor_price = 46500, pm_tick_size = 100, pm_market_status = ''OPEN'', pm_source_sha256 = replicate 64 (CHR ''4'')\<rparr>"

definition sample_selected :: candidate_arbitration where
  "sample_selected = \<lparr>ca_arbitration_version = ''arb-v1'', ca_arbitration_configuration_sha256 = replicate 64 (CHR ''2''),
     ca_candidate_version = BASELINE_VERSION, ca_candidate_sha256 = sample_sha (sample_candidate ''VIC'' sample_open (1/2)),
     ca_strategy = ''mean_reversion'', ca_symbol = ''VIC'', ca_trade_date = 7, ca_decision_at = sample_open,
     ca_horizon_seconds = 300, ca_strength = 1/2, ca_status = SELECTED, ca_rejection_reason = None, ca_priority = Some 0,
     ca_selected_candidate_sha256 = Some (sample_sha (sample_candidate ''VIC'' sample_open (1/2)))\<rparr>"

definition sample_report :: gate_report where
  "sample_report = \<lparr>gr_gate_version = ''gate-v1'', gr_gate_configuration_sha256 = replicate 64 (CHR ''4''),
     gr_evaluation_version = ''promo-v1'', gr_evaluation_configuration_sha256 = replicate 64 (CHR ''3''),
     gr_arbitration_version = ''arb-v1'', gr_arbitration_configuration_sha256 = replicate 64 (CHR ''2''),
     gr_required_session_count = 4, gr_observed_session_count = 4, gr_holdout_dates = [6], gr_capture_gap_count = 0,
     gr_walk_forward_sha256 = Some (replicate 64 (CHR ''6'')), gr_shadow_audit_sha256s = [replicate 64 (CHR ''7'')],
     gr_status = PASS, gr_reasons = [], gr_targets = [\<lparr>ptr_strategy = ''mean_reversion'', ptr_symbol = ''VIC'',
       ptr_horizon_seconds = 300, ptr_status = PASS, ptr_reasons = [], ptr_selected_count = 2, ptr_eligible_outcome_count = 2,
       ptr_positive_net_count = 1, ptr_outcome_coverage_rate = 1, ptr_positive_net_rate = 1/2,
       ptr_average_net_return_bps = Some 5, ptr_worst_fold_net_return_bps = Some 5\<rparr>]\<rparr>"

definition sample_ledger :: resource_ledger where
  "sample_ledger = \<lparr>lg_trade_date = 7, lg_account_snapshot_sha256 = replicate 64 (CHR ''3''), lg_revision = 0,
     lg_available_cash_vnd = 100000000, lg_positions = [\<lparr>rp_symbol = ''VIC'', rp_available_exit_quantity = 800\<rparr>],
     lg_started_cycles = 0, lg_realized_net_pnl_vnd = 0, lg_reservations = []\<rparr>"

definition sample_request :: execution_request where
  "sample_request = \<lparr>rq_candidate = sample_candidate ''VIC'' sample_open (1/2), rq_arbitration = sample_selected,
     rq_promotion = sample_report, rq_selection = \<lparr>sel_arbitration_sha256 = replicate 64 (CHR ''1''), sel_selected_at = sample_open,
       sel_source = ''cli'', sel_source_sha256 = replicate 64 (CHR ''4'')\<rparr>,
     rq_market = sample_snapshot sample_open 1, rq_account = sample_account, rq_costs = sample_costs,
     rq_risk = \<lparr>rk_max_cycle_quantity = 200, rk_max_order_notional_vnd = 20000000, rk_max_cycles_per_day = 2,
       rk_max_daily_loss_vnd = 1000000, rk_cash_reserve_vnd = 1000000\<rparr>, rq_resources = sample_ledger\<rparr>"



lemma sample_request_valid: "case PaperExecutionRequest sample_env sample_request of Inl _ \<Rightarrow> False | Inr _ \<Rightarrow> True"
  by code_simp




text \<open>C28: the cash reserved by a planned entry always covers its fills. Whatever event history the reducer accepts for the
  intent, the settled cost (average price times filled quantity, plus the buy fee, rounded as the ledger rounds it) is at
  most the reservation, so settlement never refuses an order for exceeding its reserved cash.\<close>

theorem reserved_cash_covers_fills:
  assumes "plan_paper_order E D request policy ap cx pg = Inr plan" and "pl_intent plan = Some i"
    and "reduce_paper_order E i es = Inr st" and "0 \<le> cp_buy_fee_bps (rq_costs request)"
  shows "entry_spent (rq_costs request) st \<le> oi_reserved_cash_vnd i"
proof -
  obtain priority where i: "i = entry_intent E request policy priority" and valid: "PaperOrderIntent i = Inr i"
    using assms(1,2) by (rule plan_entry_ready)
  obtain rd where rd: "run_res (reduce_step E i) (initial_reducer i) es = Inr rd"
    "os_cumulative_filled_quantity st = rd_filled rd" "os_average_fill_price st = rd_average rd" "PaperOrderState st = Inr st"
    using assms(3) by (rule reduce_paper_order_Inr)
  have factor: "0 \<le> buy_factor (rq_costs request)" using assms(4) by (simp add: buy_factor_def dadd_def ddiv_def)
  note ok = PaperOrderIntent_ok [OF valid]
  have res: "oi_reserved_cash_vnd i = dmul (dmul (oi_limit_price i) (of_int (oi_quantity i))) (buy_factor (rq_costs request))"
    and buy: "oi_action i = BUY"
    by (simp_all add: i entry_intent_def Let_def entry_reserved_cash_def entry_notional_def)
  show ?thesis
  proof (cases "rd_average rd")
    case None
    then show ?thesis using ok(3) rd(3) by (simp add: entry_spent_def)
  next
    case (Some a)
    have h: "0 \<le> rd_filled rd" "rd_filled rd \<le> oi_quantity i" "a \<le> oi_limit_price i"
      using reduce_history [OF rd(1)] Some ok(1) buy by (auto simp: history_facts_def violates_limit_def)
    have "a * of_int (rd_filled rd) \<le> oi_limit_price i * of_int (rd_filled rd)" using h by (intro mult_right_mono) auto
    also have "\<dots> \<le> oi_limit_price i * of_int (oi_quantity i)" using h ok(2) by (intro mult_left_mono) auto
    finally have "dmul a (of_int (rd_filled rd)) \<le> dmul (oi_limit_price i) (of_int (oi_quantity i))"
      unfolding dmul_def by (rule dec_ctx_mono)
    then have "dmul a (of_int (rd_filled rd)) * buy_factor (rq_costs request) \<le>
        dmul (oi_limit_price i) (of_int (oi_quantity i)) * buy_factor (rq_costs request)" using factor by (rule mult_right_mono)
    then show ?thesis unfolding res using Some rd(2,3) by (simp add: entry_spent_def dmul_def dec_ctx_mono)
  qed
qed

abbreviation sample_fills :: "order_event list" where
  "sample_fills \<equiv> [sample_event sample_open 1 ACCEPTED_EVENT 0 None None,
     sample_event sample_open 2 FILLED_EVENT 200 (Some 50000) (Some (sample_fill sample_open 2 200 50000))]"

lemma sample_fills_computed:
  "case plan_paper_order sample_env sample_digests sample_request (sample_execution None) (sample_arbitration None) sample_context
     sample_gate of Inl _ \<Rightarrow> False
   | Inr plan \<Rightarrow> (case pl_intent plan of None \<Rightarrow> False
     | Some i \<Rightarrow> (case reduce_paper_order sample_env i sample_fills of Inl _ \<Rightarrow> False
       | Inr st \<Rightarrow> os_status st = FILLED \<and> entry_spent sample_costs st = 10010000 \<and> oi_reserved_cash_vnd i = 10030020))"
  by code_simp

theorem reserved_cash_covers_fills_witness:
  "\<exists>plan i st. plan_paper_order sample_env sample_digests sample_request (sample_execution None)
      (sample_arbitration None) sample_context sample_gate = Inr plan \<and> pl_intent plan = Some i \<and>
     reduce_paper_order sample_env i sample_fills = Inr st \<and> os_status st = FILLED \<and>
     entry_spent sample_costs st \<le> oi_reserved_cash_vnd i"
proof -
  from case_res_True [OF sample_fills_computed] obtain plan where plan: "plan_paper_order sample_env sample_digests
      sample_request (sample_execution None) (sample_arbitration None) sample_context sample_gate = Inr plan"
    and rest: "case pl_intent plan of None \<Rightarrow> False
     | Some i \<Rightarrow> (case reduce_paper_order sample_env i sample_fills of Inl _ \<Rightarrow> False
       | Inr st \<Rightarrow> os_status st = FILLED \<and> entry_spent sample_costs st = 10010000 \<and> oi_reserved_cash_vnd i = 10030020)"
    by (elim exE conjE)
  from rest obtain i where i: "pl_intent plan = Some i" by (cases "pl_intent plan") simp_all
  from case_res_True [OF rest [unfolded i option.case]] obtain st where st: "reduce_paper_order sample_env i sample_fills = Inr st"
    "os_status st = FILLED" by (elim exE conjE)
  note run = plan i st
  have costs: "rq_costs sample_request = sample_costs" "0 \<le> cp_buy_fee_bps sample_costs"
    by (simp_all add: sample_request_def sample_costs_def)
  have "entry_spent sample_costs st \<le> oi_reserved_cash_vnd i"
    using reserved_cash_covers_fills [OF run(1-3)] costs by simp
  with run show ?thesis by blast
qed

end
