(* ===== verification/PaperMatching.thy ===== *)
theory PaperMatching
  imports PaperEngine
begin

text \<open>
  \<^verbatim>\<open>t0_trading/execution/matching.py\<close>: conservative top-of-book matching. \<open>lifecycle_event\<close> is the one constructor of
  order events and reduces the extended history before it returns; \<open>match_quote\<close> decides what one quote does to one
  order. The digest of the event's content is \<open>pe_evidence_sha\<close>.
\<close>

section \<open>The event constructor\<close>

definition fill_average :: "order_state \<Rightarrow> fill_evidence option \<Rightarrow> (int \<times> decimal option) res" where
  "fill_average state fill =
     (let filled = os_cumulative_filled_quantity state; average = os_average_fill_price state in
      case fill of None \<Rightarrow> Inr (filled, average)
      | Some f \<Rightarrow> rbind (ddiv_res
            (dadd (dmul (case average of None \<Rightarrow> 0 | Some a \<Rightarrow> a) (of_int filled)) (dmul (fe_fill_price f) (of_int (fe_filled_quantity f))))
            (of_int (filled + fe_filled_quantity f)))
          (\<lambda>a. Inr (filled + fe_filled_quantity f, Some a)))"

definition draft_event ::
  "paper_env \<Rightarrow> order_intent \<Rightarrow> order_state \<Rightarrow> paper_event_type \<Rightarrow> instant \<Rightarrow> string option \<Rightarrow> fill_evidence option \<Rightarrow>
   int \<Rightarrow> decimal option \<Rightarrow> order_event" where
  "draft_event E intent state event_type t reason fill filled average =
     (let evidence = pe_evidence_sha E (pe_intent_sha E intent, os_last_event_sha256 state, event_type, t, reason, fill) in
      \<lparr>ev_intent_sha256 = pe_intent_sha E intent, ev_sequence = int (os_event_count state) + 1,
       ev_event_type = event_type, ev_occurred_at = t, ev_cumulative_filled_quantity = filled,
       ev_average_fill_price = average, ev_reason = reason, ev_adapter_event_id = ''top-of-book-v1:'' @ evidence,
       ev_adapter_evidence_sha256 = evidence, ev_fill_evidence = fill\<rparr>)"

definition lifecycle_event ::
  "paper_env \<Rightarrow> order_intent \<Rightarrow> order_event list \<Rightarrow> paper_event_type \<Rightarrow> pydatetime \<Rightarrow> string option \<Rightarrow> fill_evidence option \<Rightarrow> order_event res" where
  "lifecycle_event E intent events event_type when reason fill =
     rbind (to_utc ''paper event time must be timezone-aware'' when) (\<lambda>t.
     rbind (reduce_paper_order E intent events) (\<lambda>state.
     rbind (fill_average state fill) (\<lambda>(filled, average).
     rbind (PaperOrderEvent (draft_event E intent state event_type t reason fill filled average)) (\<lambda>event.
     rbind (reduce_paper_order E intent (events @ [event])) (\<lambda>_. Inr event)))))"

section \<open>Matching one quote\<close>

definition quote_price :: "order_intent \<Rightarrow> market_snapshot \<Rightarrow> decimal" where
  "quote_price intent market = (if oi_action intent = BUY then pm_best_ask_price market else pm_best_bid_price market)"

definition displayed_quantity :: "order_intent \<Rightarrow> market_snapshot \<Rightarrow> int" where
  "displayed_quantity intent market = (if oi_action intent = BUY then pm_best_ask_quantity market else pm_best_bid_quantity market)"

definition lot_quantity :: "order_intent \<Rightarrow> order_state \<Rightarrow> paper_execution_version \<Rightarrow> int \<Rightarrow> int" where
  "lot_quantity intent state policy available =
     min (oi_quantity intent - os_cumulative_filled_quantity state) available div px_lot_size policy * px_lot_size policy"

definition quote_used :: "order_event list \<Rightarrow> market_snapshot \<Rightarrow> bool" where
  "quote_used events market = list_ex (\<lambda>e. case ev_fill_evidence e of None \<Rightarrow> False
     | Some f \<Rightarrow> (fe_stream_session_id f, fe_receive_sequence f) = (pm_stream_session_id market, pm_receive_sequence market)) events"

definition quote_fill :: "order_intent \<Rightarrow> market_snapshot \<Rightarrow> int \<Rightarrow> int \<Rightarrow> fill_evidence" where
  "quote_fill intent market quantity available =
     \<lparr>fe_symbol = oi_symbol intent, fe_action = oi_action intent, fe_observed_at = pm_quote_received_at market,
      fe_stream_session_id = pm_stream_session_id market, fe_receive_sequence = pm_receive_sequence market,
      fe_filled_quantity = quantity, fe_available_quantity = available, fe_fill_price = quote_price intent market,
      fe_source_sha256 = pm_source_sha256 market\<rparr>"

definition match_quote ::
  "paper_env \<Rightarrow> order_intent \<Rightarrow> order_event list \<Rightarrow> market_snapshot \<Rightarrow> paper_execution_version \<Rightarrow> context_version \<Rightarrow> int \<Rightarrow>
   order_event option res" where
  "match_quote E intent events market policy context available =
     (let now = pm_observed_at market in
      rbind (reduce_paper_order E intent events) (\<lambda>state.
      if terminal (os_status state) then Inr None
      else if oi_execution_configuration_sha256 intent \<noteq> version_sha256 (pe_execution_sha E) policy \<or> pm_symbol market \<noteq> oi_symbol intent
      then Inl (ValueError ''paper matching policy or symbol mismatch'')
      else if now < oi_created_at intent \<or> (events \<noteq> [] \<and> now < ev_occurred_at (last events))
      then Inl (ValueError ''paper matching cannot rewind order time'')
      else if now \<ge> oi_expires_at intent
      then rbind (lifecycle_event E intent events EXPIRED_EVENT (Aware now) (Some ''TIME_IN_FORCE'') None) (\<lambda>e. Inr (Some e))
      else if os_status state = CREATED then Inl (ValueError ''paper order must be accepted before matching'')
      else if pm_market_status market \<notin> set (cx_tradable_market_statuses context)
      then rbind (lifecycle_event E intent events CANCELLED_EVENT (Aware now) (Some ''MARKET_STATUS_INELIGIBLE'') None) (\<lambda>e. Inr (Some e))
      else if pm_quote_received_at market \<le> oi_created_at intent \<or> stale_quote policy market then Inr None
      else if available < 0 \<or> available > displayed_quantity intent market
      then Inl (ValueError ''paper quote budget exceeds displayed liquidity'')
      else if violates_limit intent (quote_price intent market) then Inr None
      else let quantity = lot_quantity intent state policy available in
      if quantity = 0 then Inr None
      else if quote_used events market then Inr None
      else rbind (PaperFillEvidence (quote_fill intent market quantity available)) (\<lambda>fill.
        rbind (lifecycle_event E intent events
            (if quantity + os_cumulative_filled_quantity state = oi_quantity intent then FILLED_EVENT else PARTIALLY_FILLED_EVENT)
            (Aware now) None (Some fill)) (\<lambda>e. Inr (Some e)))))"

section \<open>What an event guarantees\<close>

lemma draft_event_fields [simp]:
  "ev_intent_sha256 (draft_event E i st k t r f n a) = pe_intent_sha E i"
  "ev_sequence (draft_event E i st k t r f n a) = int (os_event_count st) + 1"
  "ev_event_type (draft_event E i st k t r f n a) = k" "ev_occurred_at (draft_event E i st k t r f n a) = t"
  "ev_cumulative_filled_quantity (draft_event E i st k t r f n a) = n" "ev_average_fill_price (draft_event E i st k t r f n a) = a"
  "ev_reason (draft_event E i st k t r f n a) = r" "ev_fill_evidence (draft_event E i st k t r f n a) = f"
  by (simp_all add: draft_event_def Let_def)

lemma lifecycle_event_Inr:
  assumes "lifecycle_event E i es k t reason fill = Inr e"
  obtains u state st' filled average where "t = Aware u" "reduce_paper_order E i es = Inr state" "fill_average state fill = Inr (filled, average)"
    "e = draft_event E i state k u reason fill filled average" "os_event_count state = length es" "PaperOrderEvent e = Inr e"
    "reduce_paper_order E i (es @ [e]) = Inr st'"
proof -
  obtain u state filled average st' where u: "t = Aware u" and st: "reduce_paper_order E i es = Inr state"
    and av: "fill_average state fill = Inr (filled, average)"
    and con: "PaperOrderEvent (draft_event E i state k u reason fill filled average) = Inr e"
    and st': "reduce_paper_order E i (es @ [e]) = Inr st'"
    using assms unfolding lifecycle_event_def by (cases t) (auto simp: rbind_eq_Inr)
  note eq = PaperOrderEvent_Inr [OF con]
  have "os_event_count state = length es" using st by (rule reduce_paper_order_Inr)
  with u st av eq st' con show thesis by (intro that) simp_all
qed

text \<open>Extending an accepted history by one event.\<close>

lemma reduce_extend:
  assumes "reduce_paper_order E i es = Inr st" "run_res (reduce_step E i) (initial_reducer i) es = Inr rd"
    "reduce_step E i rd e = Inr rd'" "PaperOrderEvent e = Inr e" "is_sha256 (pe_event_sha E e)"
  shows "\<exists>st'. reduce_paper_order E i (es @ [e]) = Inr st'"
proof -
  note rd' = reduce_step_Inr(6) [OF assms(3)]
  have run: "run_res (reduce_step E i) (initial_reducer i) (es @ [e]) = Inr rd'"
    using assms(2,3) by (simp add: run_res_append)
  have "is_sha256 (pe_intent_sha E i)"
  proof (rule reduce_paper_order_Inr [OF assms(1)])
    assume "os_intent_sha256 st = pe_intent_sha E i" "PaperOrderState st = Inr st"
    then show ?thesis by (auto simp: PaperOrderState_def split: if_splits)
  qed
  moreover have "0 \<le> ev_cumulative_filled_quantity e" "optional_positive (ev_average_fill_price e)"
    "(ev_cumulative_filled_quantity e = 0) = (ev_average_fill_price e = None)"
    using assms(4) by (auto simp: PaperOrderEvent_def split: if_splits)
  moreover have "event_status (ev_event_type e) \<noteq> CREATED" by (cases "ev_event_type e") simp_all
  ultimately show ?thesis using assms(5)
    by (simp add: reduce_paper_order_def run PaperOrderState_def rd' optional_sha256_def)
qed

lemma reducer_cursor:
  assumes "run_res (reduce_step E i) (initial_reducer i) es = Inr rd"
  shows "rd_last_sequence rd = (if es = [] then 0 else ev_sequence (last es))"
    "rd_last_at rd = (if es = [] then oi_created_at i else ev_occurred_at (last es))"
proof -
  have "rd_last_sequence rd = (if es = [] then 0 else ev_sequence (last es)) \<and>
      rd_last_at rd = (if es = [] then oi_created_at i else ev_occurred_at (last es))"
  proof (cases es rule: rev_cases)
    case Nil
    then show ?thesis using assms by (auto simp: initial_reducer_def)
  next
    case (snoc ys y)
    then show ?thesis using assms by (auto simp: run_res_append rbind_eq_Inr dest!: reduce_step_Inr(6))
  qed
  then show "rd_last_sequence rd = (if es = [] then 0 else ev_sequence (last es))"
    "rd_last_at rd = (if es = [] then oi_created_at i else ev_occurred_at (last es))" by auto
qed

text \<open>Histories numbered from one, which \<open>lifecycle_event\<close> extends.\<close>

definition numbered :: "order_event list \<Rightarrow> bool" where
  "numbered es \<longleftrightarrow> (\<forall>n < length es. ev_sequence (es ! n) = int n + 1)"

lemma numbered_last: "numbered es \<Longrightarrow> es \<noteq> [] \<Longrightarrow> ev_sequence (last es) = int (length es)"
  by (cases es) (auto simp: numbered_def last_conv_nth)

lemma numbered_member: "numbered es \<Longrightarrow> e \<in> set es \<Longrightarrow> ev_sequence e \<le> int (length es)"
  by (auto simp: numbered_def in_set_conv_nth)

text \<open>What the content hashes must tell apart for one more event.\<close>

definition fresh_event :: "paper_env \<Rightarrow> order_event list \<Rightarrow> order_event \<Rightarrow> bool" where
  "fresh_event E es e \<longleftrightarrow> is_sha256 (pe_event_sha E e) \<and> is_sha256 (ev_adapter_evidence_sha256 e) \<and>
     inj_on (pe_event_sha E) (insert e (set es)) \<and> ev_adapter_event_id e \<notin> ev_adapter_event_id ` set es"

lemma draft_accepted_history:
  assumes "run_res (reduce_step E i) (initial_reducer i) es = Inr rd" "numbered es" "fresh_event E es e"
    "ev_intent_sha256 e = pe_intent_sha E i" "ev_sequence e = int (length es) + 1"
    "(if es = [] then oi_created_at i else ev_occurred_at (last es)) \<le> ev_occurred_at e"
    "ev_event_type e \<in> set (allowed (rd_status rd))" "rd_filled rd \<le> ev_cumulative_filled_quantity e"
    "ev_cumulative_filled_quantity e \<le> oi_quantity i"
  shows "\<not> check_history E i rd e"
proof -
  note facts = reduce_history [OF assms(1), unfolded history_facts_def] and cur = reducer_cursor [OF assms(1)]
  have "e \<notin> set es" using numbered_member [OF assms(2), of e] assms(5) by auto
  then have "pe_event_sha E e \<notin> pe_event_sha E ` set es"
    using assms(3) by (auto simp: fresh_event_def inj_on_def)
  moreover have "rd_last_sequence rd < ev_sequence e"
    using numbered_last [OF assms(2)] assms(5) by (auto simp: cur(1))
  moreover have "\<not> terminal (rd_status rd)" using assms(7) by (cases "rd_status rd") (auto simp: terminal_def)
  ultimately show ?thesis using assms(3,4,6-9) facts cur(2) by (simp add: check_history_def fresh_event_def)
qed

section \<open>Events the reducer accepts\<close>

lemma order_state_reducer:
  assumes "reduce_paper_order E i es = Inr st"
  obtains rd where "run_res (reduce_step E i) (initial_reducer i) es = Inr rd" "os_status st = rd_status rd"
    "os_cumulative_filled_quantity st = rd_filled rd" "os_average_fill_price st = rd_average rd" "os_event_count st = length es"
    "rd_filled rd = 0 \<longleftrightarrow> rd_average rd = None" "0 \<le> rd_filled rd" "optional_positive (rd_average rd)"
    "\<forall>a. rd_average rd = Some a \<longrightarrow> \<not> violates_limit i a" "is_sha256 (pe_intent_sha E i)"
proof -
  obtain rd where rd: "run_res (reduce_step E i) (initial_reducer i) es = Inr rd" "os_intent_sha256 st = pe_intent_sha E i"
    "os_status st = rd_status rd" "os_cumulative_filled_quantity st = rd_filled rd" "os_average_fill_price st = rd_average rd"
    "os_event_count st = length es" "PaperOrderState st = Inr st"
    using assms by (rule reduce_paper_order_Inr)
  have "os_cumulative_filled_quantity st = 0 \<longleftrightarrow> os_average_fill_price st = None" "0 \<le> os_cumulative_filled_quantity st"
    "optional_positive (os_average_fill_price st)" "is_sha256 (os_intent_sha256 st)"
    using rd(7) by (auto simp: PaperOrderState_def split: if_splits)
  moreover have "\<forall>a. rd_average rd = Some a \<longrightarrow> \<not> violates_limit i a"
    using reduce_history [OF rd(1)] by (simp add: history_facts_def)
  ultimately show thesis using rd by (intro that [OF rd(1)]) simp_all
qed

lemma lifecycle_eventI:
  assumes "reduce_paper_order E i es = Inr st" "run_res (reduce_step E i) (initial_reducer i) es = Inr rd"
    "fill_average st fill = Inr (n, a)" "e = draft_event E i st k t reason fill n a"
    "PaperOrderEvent e = Inr e" "fresh_event E es e" "reduce_step E i rd e = Inr rd'"
  shows "lifecycle_event E i es k (Aware t) reason fill = Inr e"
proof -
  obtain st' where "reduce_paper_order E i (es @ [e]) = Inr st'"
    using reduce_extend [OF assms(1,2,7,5)] assms(6) by (auto simp: fresh_event_def)
  then show ?thesis using assms(1,3,5) by (simp add: lifecycle_event_def flip: assms(4))
qed

text \<open>Cancelling or expiring an order.\<close>

lemma closing_event_accepted:
  assumes "reduce_paper_order E i es = Inr st" "numbered es" "fresh_event E es e"
    "e = draft_event E i st k t (Some reason) None (os_cumulative_filled_quantity st) (os_average_fill_price st)"
    "k = EXPIRED_EVENT \<and> oi_expires_at i \<le> t \<and> \<not> terminal (os_status st) \<or> k = CANCELLED_EVENT \<and> os_status st \<in> {ACCEPTED, PARTIALLY_FILLED}"
    "(if es = [] then oi_created_at i else ev_occurred_at (last es)) \<le> t" "strip reason \<noteq> []" "0 \<le> oi_quantity i"
  shows "lifecycle_event E i es k (Aware t) (Some reason) None = Inr e"
proof -
  obtain rd where rd: "run_res (reduce_step E i) (initial_reducer i) es = Inr rd" "os_status st = rd_status rd"
    "os_cumulative_filled_quantity st = rd_filled rd" "os_average_fill_price st = rd_average rd" "os_event_count st = length es"
    "rd_filled rd = 0 \<longleftrightarrow> rd_average rd = None" "0 \<le> rd_filled rd" "optional_positive (rd_average rd)"
    "\<forall>a. rd_average rd = Some a \<longrightarrow> \<not> violates_limit i a" "is_sha256 (pe_intent_sha E i)"
    using assms(1) by (rule order_state_reducer)
  have e: "ev_event_type e = k" "ev_cumulative_filled_quantity e = rd_filled rd" "ev_average_fill_price e = rd_average rd"
    "ev_fill_evidence e = None" "ev_occurred_at e = t" "ev_reason e = Some reason" "ev_intent_sha256 e = pe_intent_sha E i"
    "ev_sequence e = int (length es) + 1"
    using rd by (simp_all add: assms(4))
  have bound: "rd_filled rd \<le> oi_quantity i"
    using reduce_history [OF rd(1)] assms(8) by (cases "rd_filled rd = 0") (auto simp: history_facts_def)
  have kind: "k = EXPIRED_EVENT \<or> k = CANCELLED_EVENT" "k = EXPIRED_EVENT \<longrightarrow> oi_expires_at i \<le> t"
    "k \<in> set (allowed (rd_status rd))"
    using assms(5) rd(2) by (cases "rd_status rd"; auto simp: terminal_def)+
  have hist: "\<not> check_history E i rd e"
    using draft_accepted_history [OF rd(1) assms(2,3)] assms(6) bound kind(3) by (simp add: e)
  have "ev_adapter_event_id e \<noteq> []" by (simp add: assms(4) draft_event_def Let_def)
  then have valid: "PaperOrderEvent e = Inr e"
    using rd assms(3,7) kind(1) by (auto simp: PaperOrderEvent_def e fresh_event_def)
  have step: "\<exists>rd'. reduce_step E i rd e = Inr rd'"
    using hist kind(1,2) rd(9) by (auto simp: reduce_step_def Let_def e split: option.splits)
  have avg: "fill_average st None = Inr (os_cumulative_filled_quantity st, os_average_fill_price st)"
    by (simp add: fill_average_def Let_def)
  from step obtain rd' where "reduce_step E i rd e = Inr rd'" ..
  then show ?thesis by (rule lifecycle_eventI [OF assms(1) rd(1) avg assms(4) valid assms(3)])
qed

text \<open>The average a fill records is the one the reducer expects; it is positive and respects the limit.\<close>

lemma fill_average_expected:
  assumes "rd_filled rd = 0 \<longleftrightarrow> rd_average rd = None" "0 \<le> rd_filled rd" "os_cumulative_filled_quantity st = rd_filled rd"
    "os_average_fill_price st = rd_average rd" "exact_price i (fe_fill_price f)" "1 \<le> fe_filled_quantity f"
    "rd_filled rd + fe_filled_quantity f \<le> oi_quantity i"
  obtains a where "fill_average st (Some f) = Inr (rd_filled rd + fe_filled_quantity f, Some a)"
    "\<And>e. ev_cumulative_filled_quantity e = rd_filled rd + fe_filled_quantity f \<Longrightarrow> expected_average rd e f = Inr a"
    "rd_filled rd = 0 \<Longrightarrow> a = fe_fill_price f"
    "\<And>b. rd_average rd = Some b \<Longrightarrow> a = running_average b (rd_filled rd) (fe_fill_price f) (rd_filled rd + fe_filled_quantity f)"
proof (cases "rd_filled rd = 0")
  case True
  let ?p = "fe_fill_price f" and ?q = "fe_filled_quantity f"
  have ex: "dec_ctx (?p * of_int ?q) = ?p * of_int ?q" "dec_ctx ?p = ?p"
    using exact_price_scaled [OF assms(5), of 0 ?q] assms(6,7) True by simp_all
  have "ddiv (dadd (dmul 0 0) (dmul ?p (of_int ?q))) (of_int ?q) = ?p"
    using assms(6) by (simp add: ddiv_def dadd_def dmul_def ex)
  then show thesis using True assms by (intro that [of ?p]) (auto simp: fill_average_def expected_average_def ddiv_res_def Let_def)
next
  case False
  then obtain b where b: "rd_average rd = Some b" using assms(1) by auto
  show thesis
    by (rule that [of "running_average b (rd_filled rd) (fe_fill_price f) (rd_filled rd + fe_filled_quantity f)"])
       (use False b assms in \<open>auto simp: fill_average_def expected_average_def ddiv_res_def Let_def\<close>)
qed

lemma running_average_respects_limit:
  assumes "exact_price i (oi_limit_price i)" "0 \<le> m" "m < c" "c \<le> oi_quantity i"
    "\<not> violates_limit i b" "\<not> violates_limit i p"
  shows "\<not> violates_limit i (running_average b m p c)"
  using running_average_le [OF assms(1-4), of b p] running_average_ge [OF assms(1-4), of b p] assms(5,6)
  by (cases "oi_action i") (simp_all add: violates_limit_def not_less)

lemma running_average_pos:
  assumes "0 \<le> b" "0 < p" "0 \<le> m" "m < c"
  shows "0 < running_average b m p c"
proof -
  have "0 \<le> b * of_int m" "0 < p * of_int (c - m)" using assms by simp_all
  then have "0 < dmul b (of_int m) + dmul p (of_int (c - m))"
    unfolding dmul_def by (intro add_nonneg_pos) (simp_all only: dec_ctx_sign)
  then show ?thesis using assms(3,4) by (simp add: ddiv_def dadd_def)
qed

text \<open>The conditions on a fill that one more event may carry.\<close>

definition fill_fits :: "order_intent \<Rightarrow> order_event list \<Rightarrow> instant \<Rightarrow> fill_evidence \<Rightarrow> bool" where
  "fill_fits i es t f \<longleftrightarrow> PaperFillEvidence f = Inr f \<and> fe_symbol f = oi_symbol i \<and> fe_action f = oi_action i \<and>
     oi_created_at i \<le> fe_observed_at f \<and> fe_observed_at f \<le> t \<and> t \<le> oi_expires_at i \<and>
     (if es = [] then oi_created_at i else ev_occurred_at (last es)) \<le> t \<and>
     \<not> violates_limit i (fe_fill_price f) \<and> exact_price i (fe_fill_price f) \<and> exact_price i (oi_limit_price i) \<and>
     (\<forall>e \<in> set es. case ev_fill_evidence e of None \<Rightarrow> True
        | Some g \<Rightarrow> fill_position g < fill_position f \<and> fill_identity g \<noteq> fill_identity f)"

lemma reducer_fills:
  assumes "run_res (reduce_step E i) (initial_reducer i) es = Inr rd"
    "\<forall>e \<in> set es. case ev_fill_evidence e of None \<Rightarrow> True
       | Some g \<Rightarrow> fill_position g < fill_position f \<and> fill_identity g \<noteq> fill_identity f"
  shows "fill_identity f \<notin> set (rd_fill_positions rd) \<and>
    (case rd_last_fill_position rd of None \<Rightarrow> True | Some p \<Rightarrow> p < fill_position f)"
  using assms
proof (induction es arbitrary: rd rule: rev_induct)
  case Nil
  then show ?case by (auto simp: initial_reducer_def)
next
  case (snoc e es)
  then obtain s where s: "run_res (reduce_step E i) (initial_reducer i) es = Inr s" "reduce_step E i s e = Inr rd"
    by (auto simp: run_res_append rbind_eq_Inr)
  note rd = reduce_step_Inr(6) [OF s(2)]
  have "fill_identity f \<notin> set (rd_fill_positions s) \<and> (case rd_last_fill_position s of None \<Rightarrow> True | Some p \<Rightarrow> p < fill_position f)"
    using snoc.IH [OF s(1)] snoc.prems(2) by simp
  then show ?case using snoc.prems(2) by (auto simp: rd split: option.splits)
qed

lemma fill_event_accepted:
  assumes "reduce_paper_order E i es = Inr st" "numbered es" "os_status st \<in> {ACCEPTED, PARTIALLY_FILLED}" "fill_fits i es t f"
    "os_cumulative_filled_quantity st + fe_filled_quantity f \<le> oi_quantity i"
    "k = (if os_cumulative_filled_quantity st + fe_filled_quantity f = oi_quantity i then FILLED_EVENT else PARTIALLY_FILLED_EVENT)"
    "\<And>n a. fresh_event E es (draft_event E i st k t None (Some f) n a)"
  shows "\<exists>e. lifecycle_event E i es k (Aware t) None (Some f) = Inr e \<and> ev_fill_evidence e = Some f"
proof -
  note fit = assms(4) [unfolded fill_fits_def]
  obtain rd where rd: "run_res (reduce_step E i) (initial_reducer i) es = Inr rd" "os_status st = rd_status rd"
    "os_cumulative_filled_quantity st = rd_filled rd" "os_average_fill_price st = rd_average rd" "os_event_count st = length es"
    "rd_filled rd = 0 \<longleftrightarrow> rd_average rd = None" "0 \<le> rd_filled rd" "optional_positive (rd_average rd)"
    "\<forall>a. rd_average rd = Some a \<longrightarrow> \<not> violates_limit i a" "is_sha256 (pe_intent_sha E i)"
    using assms(1) by (rule order_state_reducer)
  let ?n = "rd_filled rd + fe_filled_quantity f"
  have f: "1 \<le> fe_filled_quantity f" "0 < fe_fill_price f"
    using fit by (auto simp: PaperFillEvidence_def split: if_splits)
  have le: "?n \<le> oi_quantity i" using assms(5) rd(3) by simp
  obtain a where avg: "fill_average st (Some f) = Inr (?n, Some a)"
    and expected: "\<And>e. ev_cumulative_filled_quantity e = ?n \<Longrightarrow> expected_average rd e f = Inr a"
    and first: "rd_filled rd = 0 \<Longrightarrow> a = fe_fill_price f"
    and later: "\<And>b. rd_average rd = Some b \<Longrightarrow> a = running_average b (rd_filled rd) (fe_fill_price f) ?n"
    using fill_average_expected [OF rd(6,7,3,4) _ f(1) le] fit by blast
  have a: "0 < a" "\<not> violates_limit i a"
  proof -
    show "0 < a" using first later rd(6-8) f running_average_pos [of _ "fe_fill_price f" "rd_filled rd" ?n]
      by (cases "rd_average rd") (auto simp: optional_positive_def less_imp_le)
    show "\<not> violates_limit i a"
      using first later rd(6,7,9) f le fit running_average_respects_limit [of i "rd_filled rd" ?n _ "fe_fill_price f"]
      by (cases "rd_average rd") auto
  qed
  let ?e = "draft_event E i st k t None (Some f) ?n (Some a)"
  have fresh: "fresh_event E es ?e" by (rule assms(7))
  have kind: "k \<in> {PARTIALLY_FILLED_EVENT, FILLED_EVENT}" "k \<in> set (allowed (rd_status rd))"
    "k = FILLED_EVENT \<longleftrightarrow> ?n = oi_quantity i"
    using assms(3,6) rd(2,3) by auto
  have hist: "\<not> check_history E i rd ?e"
    using draft_accepted_history [OF rd(1) assms(2) fresh] fit le f(1) kind(2) rd(5) by simp
  have "ev_adapter_event_id ?e \<noteq> []" by (simp add: draft_event_def Let_def)
  then have valid: "PaperOrderEvent ?e = Inr ?e"
    using rd(7,10) fresh kind(1) f(1) a(1) by (auto simp: PaperOrderEvent_def fresh_event_def optional_positive_def)
  have evid: "check_evidence i rd ?e f = Inr ()"
    using reducer_fills [OF rd(1), of f] fit expected [of ?e]
    by (auto simp: check_evidence_def split: option.splits)
  have "\<exists>rd'. reduce_step E i rd ?e = Inr rd'"
    using hist evid kind(1,3) a(2) f(1) le fit by (auto simp: reduce_step_def Let_def)
  then obtain rd' where "reduce_step E i rd ?e = Inr rd'" ..
  then have "lifecycle_event E i es k (Aware t) None (Some f) = Inr ?e"
    by (rule lifecycle_eventI [OF assms(1) rd(1) avg refl valid fresh])
  then show ?thesis by auto
qed

section \<open>What matching guarantees\<close>

lemma match_quote_fill:
  assumes "match_quote E i es m policy cx available = Inr (Some e)" "ev_fill_evidence e = Some f"
  obtains st k where "reduce_paper_order E i es = Inr st" "\<not> terminal (os_status st)"
    "f = quote_fill i m (lot_quantity i st policy available) available" "PaperFillEvidence f = Inr f"
    "lifecycle_event E i es k (Aware (pm_observed_at m)) None (Some f) = Inr e" "lot_quantity i st policy available \<noteq> 0"
    "\<not> quote_used es m" "\<not> violates_limit i (quote_price i m)" "0 \<le> available" "available \<le> displayed_quantity i m"
    "oi_created_at i < pm_quote_received_at m" "\<not> stale_quote policy m" "pm_observed_at m < oi_expires_at i"
    "pm_market_status m \<in> set (cx_tradable_market_statuses cx)" "pm_symbol m = oi_symbol i"
proof -
  obtain st where st: "reduce_paper_order E i es = Inr st" "\<not> terminal (os_status st)"
    using assms(1) by (auto simp: match_quote_def Let_def rbind_eq_Inr split: if_splits)
  let ?q = "lot_quantity i st policy available"
  have no: False if "lifecycle_event E i es k t r None = Inr e" for k t r
    by (rule lifecycle_event_Inr [OF that]) (use assms(2) in simp)
  obtain g k where g: "PaperFillEvidence (quote_fill i m ?q available) = Inr g"
    "lifecycle_event E i es k (Aware (pm_observed_at m)) None (Some g) = Inr e" "?q \<noteq> 0"
    "\<not> quote_used es m" "\<not> violates_limit i (quote_price i m)" "0 \<le> available" "available \<le> displayed_quantity i m"
    "oi_created_at i < pm_quote_received_at m" "\<not> stale_quote policy m" "pm_observed_at m < oi_expires_at i"
    "pm_market_status m \<in> set (cx_tradable_market_statuses cx)" "pm_symbol m = oi_symbol i"
    using assms(1) st no
    by (auto simp: match_quote_def Let_def rbind_eq_Inr not_less not_le split: if_split_asm)
  have "ev_fill_evidence e = Some g" using g(2) by (rule lifecycle_event_Inr) simp
  then have "g = f" using assms(2) by simp
  with g st PaperFillEvidence_Inr [OF g(1)] show thesis by (intro that [OF st, of k]) simp_all
qed

text \<open>The planned order of the sample request, accepted and waiting for quotes.\<close>

definition sample_order :: order_intent where
  "sample_order = entry_intent sample_env sample_request (sample_execution None) 0"

abbreviation sample_accepted :: "order_event list" where
  "sample_accepted \<equiv> [sample_event sample_open 1 ACCEPTED_EVENT 0 None None]"

abbreviation sample_quote :: market_snapshot where
  "sample_quote \<equiv> sample_snapshot (sample_open + second_us) 5"

lemma sample_match_computed:
  "case match_quote sample_env sample_order sample_accepted sample_quote (sample_execution None) sample_context 150 of Inl _ \<Rightarrow> False
   | Inr r \<Rightarrow> (case r of None \<Rightarrow> False | Some e \<Rightarrow> ev_event_type e = PARTIALLY_FILLED_EVENT \<and>
       ev_fill_evidence e = Some (quote_fill sample_order sample_quote 100 150))"
  by code_simp

lemma sample_match:
  obtains e where "match_quote sample_env sample_order sample_accepted sample_quote (sample_execution None) sample_context 150 = Inr (Some e)"
    "ev_event_type e = PARTIALLY_FILLED_EVENT" "ev_fill_evidence e = Some (quote_fill sample_order sample_quote 100 150)"
proof -
  from case_res_True [OF sample_match_computed] obtain r where r: "match_quote sample_env sample_order sample_accepted sample_quote
      (sample_execution None) sample_context 150 = Inr r"
    "case r of None \<Rightarrow> False | Some e \<Rightarrow> ev_event_type e = PARTIALLY_FILLED_EVENT \<and>
       ev_fill_evidence e = Some (quote_fill sample_order sample_quote 100 150)" by (elim exE conjE)
  then show thesis by (cases r) (simp_all add: that)
qed

lemma lot_quantity_bounds:
  assumes "1 \<le> px_lot_size policy" "0 \<le> available" "os_cumulative_filled_quantity st \<le> oi_quantity i"
  shows "0 \<le> lot_quantity i st policy available" "lot_quantity i st policy available \<le> available"
    "os_cumulative_filled_quantity st + lot_quantity i st policy available \<le> oi_quantity i"
    "px_lot_size policy dvd lot_quantity i st policy available"
proof -
  let ?m = "min (oi_quantity i - os_cumulative_filled_quantity st) available"
  have "0 \<le> ?m" using assms by simp
  then have "0 \<le> ?m div px_lot_size policy * px_lot_size policy" using assms(1)
    by (intro mult_nonneg_nonneg) (simp_all add: pos_imp_zdiv_nonneg_iff)
  moreover have "?m div px_lot_size policy * px_lot_size policy \<le> ?m"
    using assms(1) div_mult_mod_eq [of ?m "px_lot_size policy"] pos_mod_sign [of "px_lot_size policy" ?m] by linarith
  ultimately show "0 \<le> lot_quantity i st policy available" "lot_quantity i st policy available \<le> available"
    "os_cumulative_filled_quantity st + lot_quantity i st policy available \<le> oi_quantity i"
    by (simp_all add: lot_quantity_def)
  show "px_lot_size policy dvd lot_quantity i st policy available" by (simp add: lot_quantity_def)
qed

text \<open>C29: matching is conservative. A fill takes whole lots, at most the liquidity it was given and at most what the order
  still needs, at the displayed price and within the limit, from a quote that is fresh, received after the order was
  created, of the order's symbol, in a tradable market and not used by the order before; the event extends the history
  the reducer accepts.\<close>

theorem fills_are_conservative:
  assumes "match_quote E i es m policy cx available = Inr (Some e)" and "ev_fill_evidence e = Some f"
    and "1 \<le> px_lot_size policy" and "0 \<le> oi_quantity i"
  shows "0 < fe_filled_quantity f \<and> px_lot_size policy dvd fe_filled_quantity f \<and> fe_filled_quantity f \<le> available \<and>
    available \<le> displayed_quantity i m \<and> ev_cumulative_filled_quantity e \<le> oi_quantity i \<and>
    fe_fill_price f = quote_price i m \<and> \<not> violates_limit i (quote_price i m) \<and> pm_symbol m = oi_symbol i \<and>
    \<not> stale_quote policy m \<and> oi_created_at i < pm_quote_received_at m \<and> pm_observed_at m < oi_expires_at i \<and>
    pm_market_status m \<in> set (cx_tradable_market_statuses cx) \<and> \<not> quote_used es m \<and>
    (\<exists>st'. reduce_paper_order E i (es @ [e]) = Inr st' \<and>
       os_cumulative_filled_quantity st' = ev_cumulative_filled_quantity e)"
proof -
  obtain st k where st: "reduce_paper_order E i es = Inr st" "f = quote_fill i m (lot_quantity i st policy available) available"
    "PaperFillEvidence f = Inr f" "lifecycle_event E i es k (Aware (pm_observed_at m)) None (Some f) = Inr e"
    "\<not> quote_used es m" "\<not> violates_limit i (quote_price i m)" "0 \<le> available" "available \<le> displayed_quantity i m"
    "oi_created_at i < pm_quote_received_at m" "\<not> stale_quote policy m" "pm_observed_at m < oi_expires_at i"
    "pm_market_status m \<in> set (cx_tradable_market_statuses cx)" "pm_symbol m = oi_symbol i"
    using assms(1,2) by (rule match_quote_fill)
  obtain rd where rd: "run_res (reduce_step E i) (initial_reducer i) es = Inr rd" "os_cumulative_filled_quantity st = rd_filled rd"
    using st(1) by (rule reduce_paper_order_Inr)
  have "rd_filled rd \<le> oi_quantity i"
    using reduce_history [OF rd(1)] assms(4) by (cases "rd_filled rd = 0") (auto simp: history_facts_def)
  note lot = lot_quantity_bounds [OF assms(3) st(7), of st i]
  have f: "fe_filled_quantity f = lot_quantity i st policy available" "fe_fill_price f = quote_price i m"
    by (simp_all add: st(2) quote_fill_def)
  have pos: "0 < fe_filled_quantity f" using st(3) by (auto simp: PaperFillEvidence_def split: if_splits)
  obtain state st' filled average where ev: "reduce_paper_order E i es = Inr state" "fill_average state (Some f) = Inr (filled, average)"
    "e = draft_event E i state k (pm_observed_at m) None (Some f) filled average" "reduce_paper_order E i (es @ [e]) = Inr st'"
    by (rule lifecycle_event_Inr [OF st(4)]) (use that in simp)
  have "ev_cumulative_filled_quantity e = os_cumulative_filled_quantity st + fe_filled_quantity f"
    using ev st(1) by (auto simp: fill_average_def rbind_eq_Inr Let_def)
  moreover have "os_cumulative_filled_quantity st' = ev_cumulative_filled_quantity e"
  proof (rule reduce_paper_order_Inr [OF ev(4)])
    fix rd'
    assume "run_res (reduce_step E i) (initial_reducer i) (es @ [e]) = Inr rd'" "os_cumulative_filled_quantity st' = rd_filled rd'"
    then show ?thesis by (auto simp: run_res_append rbind_eq_Inr dest!: reduce_step_Inr(6))
  qed
  ultimately show ?thesis using st f pos lot ev(4) rd(2) \<open>rd_filled rd \<le> oi_quantity i\<close> by auto
qed

theorem fills_are_conservative_witness:
  "\<exists>e. match_quote sample_env sample_order sample_accepted sample_quote (sample_execution None) sample_context 150 = Inr (Some e) \<and>
     ev_event_type e = PARTIALLY_FILLED_EVENT \<and> (100 :: int) dvd fe_filled_quantity (quote_fill sample_order sample_quote 100 150) \<and>
     ev_cumulative_filled_quantity e \<le> oi_quantity sample_order"
proof (rule sample_match)
  fix e
  assume e: "match_quote sample_env sample_order sample_accepted sample_quote (sample_execution None) sample_context 150 = Inr (Some e)"
    "ev_event_type e = PARTIALLY_FILLED_EVENT" "ev_fill_evidence e = Some (quote_fill sample_order sample_quote 100 150)"
  have lot: "px_lot_size (sample_execution None) = 100" "0 \<le> oi_quantity sample_order"
    by (simp_all add: sample_execution_def sample_order_def entry_intent_def Let_def)
  then show ?thesis using fills_are_conservative [OF e(1,3)] e by auto
qed

text \<open>C30: a crossing quote fills. An accepted order, matched against a valid, fresh, tradable quote of its symbol at an
  acceptable price with a whole lot of budget and of open quantity left, and later than the fills it already has, always
  produces the fill of the lot-rounded quantity: the reducer never refuses the event that matching constructs. Prices and
  notionals are those the decimal context represents exactly.\<close>

theorem crossing_quote_fills:
  assumes "reduce_paper_order E i es = Inr st" and "os_status st \<in> {ACCEPTED, PARTIALLY_FILLED}" and "numbered es"
    and "PaperOrderIntent i = Inr i" and "PaperMarketSnapshot m = Inr m" and "pm_symbol m = oi_symbol i"
    and "oi_execution_configuration_sha256 i = version_sha256 (pe_execution_sha E) policy"
    and "\<forall>e \<in> set es. ev_occurred_at e \<le> pm_observed_at m" and "pm_observed_at m < oi_expires_at i"
    and "pm_market_status m \<in> set (cx_tradable_market_statuses cx)" and "oi_created_at i < pm_quote_received_at m"
    and "\<not> stale_quote policy m" and "available \<le> displayed_quantity i m" and "\<not> violates_limit i (quote_price i m)"
    and "1 \<le> px_lot_size policy" and "px_lot_size policy \<le> available"
    and "px_lot_size policy \<le> oi_quantity i - os_cumulative_filled_quantity st"
    and "exact_price i (quote_price i m)" and "exact_price i (oi_limit_price i)" and "\<not> quote_used es m"
    and "\<forall>e \<in> set es. case ev_fill_evidence e of None \<Rightarrow> True
      | Some g \<Rightarrow> fill_position g < fill_position (quote_fill i m (lot_quantity i st policy available) available)"
    and "\<And>k n a. fresh_event E es
      (draft_event E i st k (pm_observed_at m) None (Some (quote_fill i m (lot_quantity i st policy available) available)) n a)"
  shows "\<exists>e. match_quote E i es m policy cx available = Inr (Some e) \<and>
    ev_fill_evidence e = Some (quote_fill i m (lot_quantity i st policy available) available) \<and>
    0 < lot_quantity i st policy available"
proof -
  let ?q = "lot_quantity i st policy available"
  let ?f = "quote_fill i m ?q available"
  let ?k = "if os_cumulative_filled_quantity st + ?q = oi_quantity i then FILLED_EVENT else PARTIALLY_FILLED_EVENT"
  have lot: "?q \<le> available" "os_cumulative_filled_quantity st + ?q \<le> oi_quantity i"
    using lot_quantity_bounds [of policy available st i] assms(15-17) by auto
  have "1 \<le> min (oi_quantity i - os_cumulative_filled_quantity st) available div px_lot_size policy"
    using assms(15-17) zdiv_mono1 [of "px_lot_size policy" "min (oi_quantity i - os_cumulative_filled_quantity st) available" "px_lot_size policy"]
    by simp
  then have pos: "0 < ?q" using assms(15) by (simp add: lot_quantity_def)
  have market: "pm_quote_received_at m \<le> pm_observed_at m" "0 < quote_price i m" "pm_stream_session_id m \<noteq> []"
    "1 \<le> pm_receive_sequence m" "is_sha256 (pm_source_sha256 m)"
    using assms(5) by (auto simp: PaperMarketSnapshot_def quote_price_def split: if_splits)
  have f: "PaperFillEvidence ?f = Inr ?f"
    using market lot pos PaperOrderIntent_ok(7) [OF assms(4)] by (simp add: PaperFillEvidence_def quote_fill_def)
  have now: "(if es = [] then oi_created_at i else ev_occurred_at (last es)) \<le> pm_observed_at m"
    using assms(8,11) market(1) by auto
  have ident: "fill_identity g \<noteq> fill_identity ?f" if "e \<in> set es" "ev_fill_evidence e = Some g" for e g
    using assms(20) that by (force simp: quote_used_def list_ex_iff fill_identity_def quote_fill_def)
  have fits: "fill_fits i es (pm_observed_at m) ?f"
    unfolding fill_fits_def using f now assms(9,11,14,18,19,21) market(1) ident
    by (auto simp: quote_fill_def split: option.splits)
  obtain e where e: "lifecycle_event E i es ?k (Aware (pm_observed_at m)) None (Some ?f) = Inr e" "ev_fill_evidence e = Some ?f"
    using fill_event_accepted [OF assms(1,3,2) fits _ _ assms(22)] lot(2) by (auto simp: quote_fill_def)
  have "\<not> terminal (os_status st)" "os_status st \<noteq> CREATED" using assms(2) by (auto simp: terminal_def)
  then have "match_quote E i es m policy cx available = Inr (Some e)"
    using assms(1,6,7,9-16,20) now market(1) f e(1) pos
    by (auto simp: match_quote_def Let_def add.commute not_le)
  with e pos show ?thesis by blast
qed

lemma sample_order_valid: "case PaperOrderIntent sample_order of Inl _ \<Rightarrow> False | Inr _ \<Rightarrow> True"
  and sample_quote_valid: "case PaperMarketSnapshot sample_quote of Inl _ \<Rightarrow> False | Inr _ \<Rightarrow> True"
  and sample_accepted_reduced: "case reduce_paper_order sample_env sample_order sample_accepted of Inl _ \<Rightarrow> False
    | Inr st \<Rightarrow> os_status st = ACCEPTED \<and> os_cumulative_filled_quantity st = 0 \<and> os_event_count st = 1 \<and>
        os_last_event_sha256 st = Some (replicate 63 (CHR ''9'') @ ''1'')"
  by code_simp+

lemma sample_valid:
  "PaperOrderIntent sample_order = Inr sample_order" "PaperMarketSnapshot sample_quote = Inr sample_quote"
proof -
  obtain i where i: "PaperOrderIntent sample_order = Inr i" using case_res_True [OF sample_order_valid] by blast
  then show "PaperOrderIntent sample_order = Inr sample_order" using PaperOrderIntent_Inr [OF i] by simp
  obtain q where q: "PaperMarketSnapshot sample_quote = Inr q" using case_res_True [OF sample_quote_valid] by blast
  have "q = sample_quote"
    using q by (auto simp: PaperMarketSnapshot_def if_Inl_eq_Inr rbind_eq_Inr)
  with q show "PaperMarketSnapshot sample_quote = Inr sample_quote" by simp
qed

lemma sample_fresh:
  assumes "os_event_count st = 1" "os_last_event_sha256 st = Some (replicate 63 (CHR ''9'') @ ''1'')"
  shows "fresh_event sample_env sample_accepted (draft_event sample_env sample_order st k t r f n a)"
  using assms
  by (auto simp: fresh_event_def draft_event_def Let_def sample_env_def sample_event_def is_sha256_def digit_def inj_on_def)

lemma sample_order_fields:
  "oi_quantity sample_order = 200" "oi_limit_price sample_order = 50100" "oi_action sample_order = BUY"
  "oi_created_at sample_order = sample_open" "oi_expires_at sample_order = sample_open + 30 * second_us"
  "oi_symbol sample_order = ''VIC''" "oi_execution_configuration_sha256 sample_order = replicate 64 (CHR ''0'')"
  by code_simp+

lemma sample_exact_prices: "exact_price sample_order 50000" "exact_price sample_order 50100"
  using on_grid_of_int [of 50000] on_grid_of_int [of 50100] by (simp_all add: exact_price_def sample_order_fields)

lemma sample_numbered: "numbered sample_accepted"
  by (simp add: numbered_def sample_event_def)

theorem crossing_quote_fills_witness:
  "\<exists>e. match_quote sample_env sample_order sample_accepted sample_quote (sample_execution None) sample_context 150 = Inr (Some e) \<and>
     (\<exists>f. ev_fill_evidence e = Some f \<and> 0 < fe_filled_quantity f)"
proof -
  from case_res_True [OF sample_accepted_reduced] obtain st where st:
    "reduce_paper_order sample_env sample_order sample_accepted = Inr st" "os_status st = ACCEPTED"
    "os_cumulative_filled_quantity st = 0" "os_event_count st = 1"
    "os_last_event_sha256 st = Some (replicate 63 (CHR ''9'') @ ''1'')" by (elim exE conjE)
  have status: "os_status st \<in> {ACCEPTED, PARTIALLY_FILLED}" by (simp add: st)
  let ?p = "sample_execution None"
  let ?f = "quote_fill sample_order sample_quote (lot_quantity sample_order st ?p 150) 150"
  have facts: "pm_symbol sample_quote = oi_symbol sample_order"
    "oi_execution_configuration_sha256 sample_order = version_sha256 (pe_execution_sha sample_env) ?p"
    "\<forall>e \<in> set sample_accepted. ev_occurred_at e \<le> pm_observed_at sample_quote"
    "pm_observed_at sample_quote < oi_expires_at sample_order"
    "pm_market_status sample_quote \<in> set (cx_tradable_market_statuses sample_context)"
    "oi_created_at sample_order < pm_quote_received_at sample_quote" "\<not> stale_quote ?p sample_quote"
    "150 \<le> displayed_quantity sample_order sample_quote" "\<not> violates_limit sample_order (quote_price sample_order sample_quote)"
    "1 \<le> px_lot_size ?p" "px_lot_size ?p \<le> 150" "px_lot_size ?p \<le> oi_quantity sample_order - os_cumulative_filled_quantity st"
    "exact_price sample_order (quote_price sample_order sample_quote)" "exact_price sample_order (oi_limit_price sample_order)"
    "\<not> quote_used sample_accepted sample_quote"
    "\<forall>e \<in> set sample_accepted. case ev_fill_evidence e of None \<Rightarrow> True | Some g \<Rightarrow> fill_position g < fill_position ?f"
    using sample_exact_prices
    by (simp_all add: sample_order_fields st(3) stale_quote_def violates_limit_def quote_used_def sample_event_def quote_price_def
        displayed_quantity_def sample_snapshot_def sample_execution_def sample_context_def sample_env_def version_sha256_def)
  have "\<exists>e. match_quote sample_env sample_order sample_accepted sample_quote ?p sample_context 150 = Inr (Some e) \<and>
    ev_fill_evidence e = Some ?f \<and> 0 < lot_quantity sample_order st ?p 150"
    by (rule crossing_quote_fills [OF st(1) status sample_numbered sample_valid facts sample_fresh [OF st(4,5)]])
  then show ?thesis by (auto simp: quote_fill_def)
qed

text \<open>expiry is never blocked. An order that is not terminal and whose deadline has passed is closed by the next quote of
  its symbol, whatever that quote shows: matching returns an EXPIRED event that keeps the filled quantity.\<close>

theorem expired_orders_close:
  assumes "reduce_paper_order E i es = Inr st" and "\<not> terminal (os_status st)" and "numbered es" and "0 \<le> oi_quantity i"
    and "oi_execution_configuration_sha256 i = version_sha256 (pe_execution_sha E) policy" and "pm_symbol m = oi_symbol i"
    and "oi_created_at i \<le> pm_observed_at m" and "\<forall>e \<in> set es. ev_occurred_at e \<le> pm_observed_at m"
    and "oi_expires_at i \<le> pm_observed_at m"
    and "fresh_event E es (draft_event E i st EXPIRED_EVENT (pm_observed_at m) (Some ''TIME_IN_FORCE'') None
      (os_cumulative_filled_quantity st) (os_average_fill_price st))"
  shows "\<exists>e st'. match_quote E i es m policy cx available = Inr (Some e) \<and> reduce_paper_order E i (es @ [e]) = Inr st' \<and>
    os_status st' = EXPIRED \<and> os_cumulative_filled_quantity st' = os_cumulative_filled_quantity st"
proof -
  have now: "(if es = [] then oi_created_at i else ev_occurred_at (last es)) \<le> pm_observed_at m"
    using assms(7,8) by auto
  have "strip ''TIME_IN_FORCE'' \<noteq> []" by (simp add: strip_def is_space_def)
  then obtain e where e: "lifecycle_event E i es EXPIRED_EVENT (Aware (pm_observed_at m)) (Some ''TIME_IN_FORCE'') None = Inr e"
    and draft: "e = draft_event E i st EXPIRED_EVENT (pm_observed_at m) (Some ''TIME_IN_FORCE'') None
      (os_cumulative_filled_quantity st) (os_average_fill_price st)"
    using closing_event_accepted [OF assms(1,3,10) refl _ now _ assms(4)] assms(2,9) by auto
  have "match_quote E i es m policy cx available = Inr (Some e)"
    using assms(1,2,5-9) now e by (auto simp: match_quote_def Let_def)
  moreover obtain st' where st': "reduce_paper_order E i (es @ [e]) = Inr st'"
    using e by (rule lifecycle_event_Inr)
  moreover have "os_status st' = EXPIRED \<and> os_cumulative_filled_quantity st' = os_cumulative_filled_quantity st"
  proof (rule reduce_paper_order_Inr [OF st'])
    fix rd'
    assume "run_res (reduce_step E i) (initial_reducer i) (es @ [e]) = Inr rd'" "os_status st' = rd_status rd'"
      "os_cumulative_filled_quantity st' = rd_filled rd'"
    then show ?thesis by (auto simp: draft run_res_append rbind_eq_Inr dest!: reduce_step_Inr(6))
  qed
  ultimately show ?thesis by blast
qed

theorem expired_orders_close_witness:
  "\<exists>e st'. match_quote sample_env sample_order sample_accepted (sample_snapshot (sample_open + 40 * second_us) 5)
      (sample_execution None) sample_context 0 = Inr (Some e) \<and>
     reduce_paper_order sample_env sample_order (sample_accepted @ [e]) = Inr st' \<and> os_status st' = EXPIRED"
proof -
  from case_res_True [OF sample_accepted_reduced] obtain st where st:
    "reduce_paper_order sample_env sample_order sample_accepted = Inr st" "os_status st = ACCEPTED"
    "os_cumulative_filled_quantity st = 0" "os_event_count st = 1"
    "os_last_event_sha256 st = Some (replicate 63 (CHR ''9'') @ ''1'')" by (elim exE conjE)
  have status: "\<not> terminal (os_status st)" by (simp add: st terminal_def)
  let ?m = "sample_snapshot (sample_open + 40 * second_us) 5"
  have facts: "0 \<le> oi_quantity sample_order"
    "oi_execution_configuration_sha256 sample_order = version_sha256 (pe_execution_sha sample_env) (sample_execution None)"
    "pm_symbol ?m = oi_symbol sample_order" "oi_created_at sample_order \<le> pm_observed_at ?m"
    "\<forall>e \<in> set sample_accepted. ev_occurred_at e \<le> pm_observed_at ?m" "oi_expires_at sample_order \<le> pm_observed_at ?m"
    by (simp_all add: sample_order_fields sample_event_def sample_snapshot_def sample_env_def version_sha256_def)
  show ?thesis
    using expired_orders_close [OF st(1) status sample_numbered facts sample_fresh [OF st(4,5)], of sample_context 0] by blast
qed

end
