(* ===== verification/Readiness.thy ===== *)
theory Readiness
  imports Promotion
begin

text \<open>
  Paper admission evidence: \<^verbatim>\<open>context/regime.py: context_identity\<close>, \<^verbatim>\<open>promotion/evidence.py:
  resolve_research_lineage\<close>, \<^verbatim>\<open>promotion/publication.py: load_session_evidence\<close> and
  \<^verbatim>\<open>execution/readiness.py\<close>.

  The object store is an \<open>evidence_store\<close>: what \<^verbatim>\<open>read_json\<close> returns for each kind of key, decoded to field
  values that still have to pass the model validators, and the dates of the session keys that \<^verbatim>\<open>list_keys\<close> returns.
  Every read may raise. Digests are the functions of \<open>lineage_digests\<close> and \<open>promotion_digests\<close>.
\<close>

section \<open>Research lineage\<close>

record shadow_audit =
  sa_trade_date :: date
  sa_baseline_version :: string
  sa_arbitration_version :: string
  sa_arbitration_configuration_sha256 :: string
  sa_stream_session_ids :: "string list"
  sa_capture_evidence_sha256 :: string
  sa_capture_message_count :: int
  sa_gap_count :: int
  sa_manifest_sha256 :: string
  sa_candidate_count :: int
  sa_candidate_sha256 :: string
  sa_arbitration_count :: int
  sa_arbitration_sha256 :: string

definition ShadowArbitrationAuditReport :: "shadow_audit \<Rightarrow> shadow_audit res" where
  "ShadowArbitrationAuditReport a =
     (if is_version (sa_baseline_version a) \<and> is_version (sa_arbitration_version a) \<and>
         is_sha256 (sa_arbitration_configuration_sha256 a) \<and> is_sha256 (sa_capture_evidence_sha256 a) \<and>
         0 \<le> sa_capture_message_count a \<and> 0 \<le> sa_gap_count a \<and> is_sha256 (sa_manifest_sha256 a) \<and>
         1 \<le> sa_candidate_count a \<and> is_sha256 (sa_candidate_sha256 a) \<and> 1 \<le> sa_arbitration_count a \<and>
         is_sha256 (sa_arbitration_sha256 a)
      then Inr a else Inl (ValidationError ''ShadowArbitrationAuditReport''))"

record lineage_digests =
  ld_feature :: "trading_version \<Rightarrow> string"
  ld_context :: "context_version \<Rightarrow> string"
  ld_regime :: "regime_version \<Rightarrow> string"
  ld_breadth :: "breadth_version \<Rightarrow> string"
  ld_cohort :: "string \<times> string \<times> string option \<Rightarrow> string"
  ld_outcome :: "outcome_version \<Rightarrow> string"
  ld_costs :: "cost_policy \<Rightarrow> string"
  ld_audit :: "shadow_audit \<Rightarrow> string"

definition context_identity ::
  "lineage_digests \<Rightarrow> context_version \<Rightarrow> regime_version option \<Rightarrow> breadth_version option \<Rightarrow> string res" where
  "context_identity L policy regime_policy breadth_policy = (case regime_policy of
     None \<Rightarrow> Inr (version_sha256 (ld_context L) policy)
   | Some regime \<Rightarrow>
       if rg_basis regime = CONSTITUENT_BREADTH \<and>
          (case breadth_policy of None \<Rightarrow> True | Some b \<Rightarrow> rg_reference_index regime \<notin> Some ` set (bv_indices b))
       then Inl (ValueError ''constituent regime requires its declared breadth policy'')
       else Inr (ld_cohort L (version_sha256 (ld_context L) policy, version_sha256 (ld_regime L) regime,
              (case breadth_policy of None \<Rightarrow> None
               | Some b \<Rightarrow> if rg_basis regime = CONSTITUENT_BREADTH then Some (version_sha256 (ld_breadth L) b) else None))))"

definition assumptions_sha256 :: "lineage_digests \<Rightarrow> cost_policy \<Rightarrow> string" where
  "assumptions_sha256 L costs = ld_costs L (costs\<lparr>cp_effective_from := 0, cp_effective_to := None\<rparr>)"

definition ResearchLineage :: "research_lineage \<Rightarrow> research_lineage res" where
  "ResearchLineage l =
     (if is_version (rl_baseline_version l) \<and> is_sha256 (rl_arbitration_configuration_sha256 l) \<and>
         is_sha256 (rl_feature_configuration_sha256 l) \<and> is_sha256 (rl_context_configuration_sha256 l) \<and>
         is_sha256 (rl_outcome_configuration_sha256 l) \<and> is_sha256 (rl_cost_policy_sha256 l)
      then Inr l else Inl (ValidationError ''ResearchLineage''))"

definition resolve_research_lineage ::
  "promotion_digests \<Rightarrow> lineage_digests \<Rightarrow> trading_configuration \<Rightarrow> date \<Rightarrow> cost_policy \<Rightarrow> research_lineage res" where
  "resolve_research_lineage D L configuration trade_date costs =
     rbind (resolve_candidate_arbitration configuration trade_date) (\<lambda>found.
     case found of
       None \<Rightarrow> Inl (ValueError ''research lineage requires effective arbitration and costs'')
     | Some arbitration \<Rightarrow>
         if \<not> cost_contains costs trade_date
         then Inl (ValueError ''research lineage requires effective arbitration and costs'')
         else rbind (resolve_configuration configuration trade_date) (\<lambda>features.
           rbind (resolve_context configuration trade_date) (\<lambda>context.
           rbind (resolve_regime configuration trade_date) (\<lambda>regime.
           rbind (resolve_breadth configuration trade_date) (\<lambda>breadth.
           rbind (context_identity L context regime breadth) (\<lambda>identity.
           rbind (resolve_outcomes configuration trade_date) (\<lambda>outcomes.
           ResearchLineage \<lparr>rl_baseline_version = BASELINE_VERSION,
             rl_arbitration_configuration_sha256 = version_sha256 (dg_arbitration D) arbitration,
             rl_feature_configuration_sha256 = version_sha256 (ld_feature L) features,
             rl_context_configuration_sha256 = identity,
             rl_outcome_configuration_sha256 = version_sha256 (ld_outcome L) outcomes,
             rl_cost_policy_sha256 = assumptions_sha256 L costs\<rparr>)))))))"

section \<open>Session evidence\<close>

record evidence_store =
  es_gate :: "date \<Rightarrow> gate_report option res"
  es_session :: "date \<Rightarrow> session_report option res"
  es_audit :: "date \<Rightarrow> shadow_audit option res"
  es_session_keys :: "date list res"

definition decoded :: "('a \<Rightarrow> 'a res) \<Rightarrow> string \<Rightarrow> 'a option \<Rightarrow> 'a res" where
  "decoded validate model value = (case value of None \<Rightarrow> Inl (ValidationError model) | Some v \<Rightarrow> validate v)"

definition load_session ::
  "evidence_store \<Rightarrow> promotion_gate_version \<Rightarrow> date \<Rightarrow> session_report option \<Rightarrow> sessions \<Rightarrow> date \<Rightarrow> sessions res" where
  "load_session store gate as_of reference loaded key_date =
     (if key_date > as_of \<or> \<not> contains gate key_date then Inr loaded
      else rbind (es_session store key_date) (\<lambda>value. case value of
        None \<Rightarrow> Inl (RuntimeError ''promotion session disappeared during listing'')
      | Some v \<Rightarrow> rbind (ArbitratedSessionReport v) (\<lambda>report.
          if sr_trade_date report \<noteq> key_date then Inl (RuntimeError ''promotion session key lineage is inconsistent'')
          else if (case reference of None \<Rightarrow> False | Some r \<Rightarrow> research_lineage report \<noteq> research_lineage r) then Inr loaded
          else if key_date \<in> set (map fst loaded) then Inl (RuntimeError ''duplicate promotion session exists'')
          else Inr (loaded @ [(key_date, report)]))))"

definition load_session_evidence ::
  "evidence_store \<Rightarrow> promotion_gate_version \<Rightarrow> date \<Rightarrow> session_report option \<Rightarrow> sessions res" where
  "load_session_evidence store gate as_of reference =
     (if (case reference of None \<Rightarrow> False | Some r \<Rightarrow> sr_trade_date r \<noteq> as_of)
      then Inl (ValueError ''promotion cohort reference must be the as-of session'')
      else rbind (es_session_keys store) (\<lambda>keys.
        rbind (run_res (load_session store gate as_of reference) [] keys) (\<lambda>loaded. Inr (sort_key fst loaded))))"

section \<open>Readiness\<close>

datatype readiness_mode = OBSERVE_ONLY | PAPER

record readiness =
  rn_trade_date :: date
  rn_previous_session :: date
  rn_mode :: readiness_mode
  rn_reason :: string
  rn_promotion :: "gate_report option"
  rn_research_lineage :: "research_lineage option"

definition PaperReadiness :: "readiness \<Rightarrow> readiness res" where
  "PaperReadiness r =
     (if rn_mode r = PAPER \<and>
         (rn_reason r \<noteq> ''PROMOTION_PASS'' \<or>
          (case rn_promotion r of None \<Rightarrow> True
           | Some p \<Rightarrow> gr_status p \<noteq> PASS \<or>
               (case rn_research_lineage r of None \<Rightarrow> True
                | Some l \<Rightarrow> rl_arbitration_configuration_sha256 l \<noteq> gr_arbitration_configuration_sha256 p)) \<or>
          rn_previous_session r \<ge> rn_trade_date r)
      then Inl (ValidationError ''paper readiness requires valid prior promotion PASS'')
      else Inr r)"

text \<open>\<^verbatim>\<open>type(error).__name__\<close>\<close>

fun error_name :: "py_error \<Rightarrow> string" where
  "error_name (ValueError _) = ''ValueError''"
| "error_name (ValidationError _) = ''ValidationError''"
| "error_name (ConfigurationError _) = ''TradingConfigurationError''"
| "error_name (MarketEventError _) = ''MarketEventError''"
| "error_name (PaperOrderBlocked _) = ''PaperOrderBlocked''"
| "error_name PaperConflict = ''PaperConflict''"
| "error_name LookupError = ''LookupError''"
| "error_name KeyError = ''KeyError''"
| "error_name IndexError = ''IndexError''"
| "error_name StopIteration = ''StopIteration''"
| "error_name (RuntimeError _) = ''RuntimeError''"
| "error_name InvalidOperation = ''InvalidOperation''"
| "error_name OverflowError = ''OverflowError''"
| "error_name DivisionByZero = ''DivisionByZero''"

fun status_name :: "promotion_status \<Rightarrow> string" where
  "status_name PENDING = ''PENDING''"
| "status_name PASS = ''PASS''"
| "status_name FAIL = ''FAIL''"

definition audit_mismatch :: "lineage_digests \<Rightarrow> shadow_audit \<Rightarrow> session_report \<Rightarrow> bool" where
  "audit_mismatch L audit session =
     (ld_audit L audit \<noteq> sr_shadow_audit_sha256 session \<or> sa_trade_date audit \<noteq> sr_trade_date session \<or>
      sa_baseline_version audit \<noteq> sr_baseline_version session \<or> sa_arbitration_version audit \<noteq> sr_arbitration_version session \<or>
      sa_capture_evidence_sha256 audit \<noteq> sr_capture_evidence_sha256 session \<or>
      sa_arbitration_configuration_sha256 audit \<noteq> sr_arbitration_configuration_sha256 session \<or>
      sa_gap_count audit \<noteq> sr_capture_gap_count session)"

definition check_audit :: "lineage_digests \<Rightarrow> evidence_store \<Rightarrow> date \<times> session_report \<Rightarrow> unit res" where
  "check_audit L store entry =
     (let session = snd entry in
      rbind (es_audit store (sr_trade_date session)) (\<lambda>value.
      rbind (decoded ShadowArbitrationAuditReport ''ShadowArbitrationAuditReport'' value) (\<lambda>audit.
      if audit_mismatch L audit session then Inl (ValueError ''session shadow audit lineage mismatch'') else Inr ())))"

text \<open>The sessions that back the published gate of the previous session, each bound to its shadow audit.\<close>

definition bound_sessions ::
  "lineage_digests \<Rightarrow> evidence_store \<Rightarrow> promotion_gate_version \<Rightarrow> date \<Rightarrow> (session_report \<times> sessions) res" where
  "bound_sessions L store gate previous_session =
     rbind (es_session store previous_session) (\<lambda>value.
     rbind (decoded ArbitratedSessionReport ''ArbitratedSessionReport'' value) (\<lambda>reference.
     rbind (load_session_evidence store gate previous_session (Some reference)) (\<lambda>sessions.
     if sessions = [] \<or> fst (last sessions) \<noteq> previous_session then Inl (ValueError ''latest session evidence is incomplete'')
     else rbind (check_all (check_audit L store) sessions) (\<lambda>_. Inr (reference, sessions)))))"

definition active_costs :: "date \<Rightarrow> instant \<Rightarrow> cost_policy option \<Rightarrow> cost_policy res" where
  "active_costs trade_date checked_at costs =
     (case costs of Some c \<Rightarrow> Inr c | None \<Rightarrow> public_vndirect_dta_costs trade_date checked_at 0)"

text \<open>
  The body of the \<^verbatim>\<open>try\<close> block: reason, report and lineage. \<open>None\<close> is a gate evaluation that never returns; the
  instant \<open>checked\<close> is \<^verbatim>\<open>PUBLIC_VNDIRECT_DTA_CHECKED_AT\<close>.
\<close>

abbreviation checked :: instant where
  "checked \<equiv> 1790035200 * second_us"

definition readiness_evidence ::
  "promotion_digests \<Rightarrow> lineage_digests \<Rightarrow> evidence_store \<Rightarrow> trading_configuration \<Rightarrow> date \<Rightarrow> date \<Rightarrow> bool \<Rightarrow> cost_policy option \<Rightarrow>
   (string \<times> gate_report option \<times> research_lineage option) res option" where
  "readiness_evidence D L store configuration trade_date previous_session enabled costs =
     (if previous_session \<ge> trade_date then Some (Inl (ValueError ''previous session must precede trading date''))
      else case rbind (resolve_promotion_gate configuration trade_date) (\<lambda>gate.
          rbind (resolve_candidate_arbitration configuration trade_date) (\<lambda>arbitration.
          if gate = None \<or> arbitration = None then Inr None
          else rbind (resolve_paper_execution configuration trade_date) (\<lambda>execution.
          if execution = None then Inr None else Inr (Some (the gate, the arbitration))))) of
        Inl e \<Rightarrow> Some (Inl e)
      | Inr None \<Rightarrow> Some (Inr (''NO_EFFECTIVE_POLICY'', None, None))
      | Inr (Some (gate, arbitration)) \<Rightarrow>
        (case es_gate store previous_session of
          Inl e \<Rightarrow> Some (Inl e)
        | Inr None \<Rightarrow> Some (Inr (''MISSING_PREVIOUS_SESSION_GATE'', None, None))
        | Inr (Some value) \<Rightarrow>
          (case rbind (PromotionGateReport value) (\<lambda>report. rbind (bound_sessions L store gate previous_session) (\<lambda>bound.
              rbind (resolve_baseline_evaluation configuration trade_date PROMOTION) (\<lambda>evaluation. Inr (report, bound, evaluation)))) of
            Inl e \<Rightarrow> Some (Inl e)
          | Inr (report, (reference, sessions), evaluation) \<Rightarrow>
            (case evaluate_promotion_gate D sessions evaluation gate arbitration of
              None \<Rightarrow> None
            | Some (Inl e) \<Rightarrow> Some (Inl e)
            | Some (Inr expected) \<Rightarrow> Some (
                if report \<noteq> expected then Inl (ValueError ''published gate differs from complete session evidence'')
                else rbind (active_costs trade_date checked costs) (\<lambda>c.
                  rbind (resolve_research_lineage D L configuration trade_date c) (\<lambda>active.
                  if sr_context_configuration_sha256 reference \<noteq> rl_context_configuration_sha256 active
                  then Inr (''CONTEXT_POLICY_CHANGED'', Some report, None)
                  else if research_lineage reference \<noteq> active then Inr (''RESEARCH_POLICY_CHANGED'', Some report, None)
                  else Inr (if \<not> enabled then ''PAPER_DISABLED'' else ''PROMOTION_'' @ status_name (gr_status report),
                         Some report, Some active))))))))"

definition load_paper_readiness ::
  "promotion_digests \<Rightarrow> lineage_digests \<Rightarrow> evidence_store \<Rightarrow> trading_configuration \<Rightarrow> date \<Rightarrow> date \<Rightarrow> bool \<Rightarrow> cost_policy option \<Rightarrow>
   readiness res option" where
  "load_paper_readiness D L store configuration trade_date previous_session enabled costs =
     (case readiness_evidence D L store configuration trade_date previous_session enabled costs of
        None \<Rightarrow> None
      | Some outcome \<Rightarrow>
        let (reason, report, lineage) = (case outcome of
              Inl e \<Rightarrow> (''INVALID_OR_UNAVAILABLE_EVIDENCE:'' @ error_name e, None, None)
            | Inr found \<Rightarrow> found) in
        Some (PaperReadiness \<lparr>rn_trade_date = trade_date, rn_previous_session = previous_session,
          rn_mode = (if enabled \<and> reason = ''PROMOTION_PASS'' then PAPER else OBSERVE_ONLY), rn_reason = reason,
          rn_promotion = report, rn_research_lineage = lineage\<rparr>))"

section \<open>Cohorts\<close>

lemma load_session_Inr:
  assumes "load_session store gate as_of (Some r) loaded d = Inr loaded'"
    and "\<forall>(k, s) \<in> set loaded. research_lineage s = research_lineage r \<and> sr_trade_date s = k \<and> k \<le> as_of \<and> contains gate k"
    and "distinct (map fst loaded)"
  shows "(\<forall>(k, s) \<in> set loaded'. research_lineage s = research_lineage r \<and> sr_trade_date s = k \<and> k \<le> as_of \<and> contains gate k) \<and>
    distinct (map fst loaded')"
  using assms
  by (auto simp: load_session_def rbind_eq_Inr image_iff split: if_splits option.split_asm)

text \<open>The sessions loaded for a cohort, as a machine over the listed keys.\<close>

definition cohort :: "promotion_gate_version \<Rightarrow> date \<Rightarrow> session_report \<Rightarrow> sessions \<Rightarrow> bool" where
  "cohort gate as_of r ss \<longleftrightarrow> distinct (map fst ss) \<and>
     (\<forall>(k, s) \<in> set ss. research_lineage s = research_lineage r \<and> sr_trade_date s = k \<and> k \<le> as_of \<and> contains gate k)"

interpretation cohort_loader: guarded_machine "load_session store gate as_of (Some r)" "cohort gate as_of r" "\<lambda>_. True"
  by unfold_locales (use load_session_Inr in \<open>auto simp: cohort_def\<close>)

text \<open>Every listed date up to the gate's day that the gate policy covers has a stored session, and the loaded sessions are
  exactly those of the reference's lineage.\<close>

lemma load_session_stored:
  assumes "load_session store gate as_of (Some r) loaded d = Inr loaded'"
  shows "set loaded \<subseteq> set loaded'" "(k, s) \<in> set loaded' \<Longrightarrow> (k, s) \<in> set loaded \<or> es_session store k = Inr (Some s)"
    "d \<le> as_of \<Longrightarrow> contains gate d \<Longrightarrow>
       \<exists>s. es_session store d = Inr (Some s) \<and> (research_lineage s = research_lineage r \<longrightarrow> (d, s) \<in> set loaded')"
  using assms
  by (auto simp: load_session_def rbind_eq_Inr ArbitratedSessionReport_def Let_def split: if_splits option.split_asm)

lemma load_run_stored:
  "run_res (load_session store gate as_of (Some r)) loaded keys = Inr loaded' \<Longrightarrow>
     set loaded \<subseteq> set loaded' \<and> (\<forall>(k, s) \<in> set loaded'. (k, s) \<in> set loaded \<or> es_session store k = Inr (Some s)) \<and>
     (\<forall>d \<in> set keys. d \<le> as_of \<and> contains gate d \<longrightarrow>
        (\<exists>s. es_session store d = Inr (Some s) \<and> (research_lineage s = research_lineage r \<longrightarrow> (d, s) \<in> set loaded')))"
proof (induction keys arbitrary: loaded)
  case (Cons d keys)
  then obtain m where m: "load_session store gate as_of (Some r) loaded d = Inr m"
    and rest: "run_res (load_session store gate as_of (Some r)) m keys = Inr loaded'" by (auto simp: rbind_eq_Inr)
  note step = load_session_stored [OF m] and IH = Cons.IH [OF rest]
  show ?case
  proof (intro conjI)
    show "set loaded \<subseteq> set loaded'" using step(1) IH by blast
    show "\<forall>(k, s) \<in> set loaded'. (k, s) \<in> set loaded \<or> es_session store k = Inr (Some s)" using step(2) IH by blast
    show "\<forall>x \<in> set (d # keys). x \<le> as_of \<and> contains gate x \<longrightarrow>
        (\<exists>s. es_session store x = Inr (Some s) \<and> (research_lineage s = research_lineage r \<longrightarrow> (x, s) \<in> set loaded'))"
      using step(3) IH by (auto dest: subsetD)
  qed
qed auto

definition complete_evidence ::
  "evidence_store \<Rightarrow> promotion_gate_version \<Rightarrow> date \<Rightarrow> research_lineage \<Rightarrow> sessions \<Rightarrow> bool" where
  "complete_evidence store gate as_of lineage ss \<longleftrightarrow>
     (\<forall>(k, s) \<in> set ss. es_session store k = Inr (Some s)) \<and>
     (\<exists>keys. es_session_keys store = Inr keys \<and> (\<forall>d \<in> set keys. d \<le> as_of \<and> contains gate d \<longrightarrow>
        (\<exists>s. es_session store d = Inr (Some s) \<and> (research_lineage s = lineage \<longrightarrow> (d, s) \<in> set ss))))"

lemma load_session_evidence_complete:
  assumes "load_session_evidence store gate as_of (Some r) = Inr sessions"
  shows "complete_evidence store gate as_of (research_lineage r) sessions"
proof -
  obtain keys loaded where run: "run_res (load_session store gate as_of (Some r)) [] keys = Inr loaded"
    and s: "sessions = sort_key fst loaded" "es_session_keys store = Inr keys"
    using assms by (auto simp: load_session_evidence_def rbind_eq_Inr split: if_splits)
  show ?thesis using load_run_stored [OF run] s by (auto simp: complete_evidence_def)
qed

lemma load_session_evidence_cohort:
  assumes "load_session_evidence store gate as_of (Some r) = Inr sessions"
  shows "cohort gate as_of r sessions" "sorted (map fst sessions)" "sr_trade_date r = as_of"
proof -
  obtain keys loaded where run: "run_res (load_session store gate as_of (Some r)) [] keys = Inr loaded"
    and s: "sessions = sort_key fst loaded" and d: "sr_trade_date r = as_of"
    using assms by (auto simp: load_session_evidence_def rbind_eq_Inr split: if_splits)
  have "cohort gate as_of r loaded"
    by (rule cohort_loader.run_inv [OF _ _ run]) (simp_all add: cohort_def list_all_iff)
  then show "cohort gate as_of r sessions" by (simp add: s cohort_def)
  show "sorted (map fst sessions)" by (simp add: s)
  show "sr_trade_date r = as_of" by (rule d)
qed

text \<open>The shadow audit of a session day that its report names.\<close>

definition audited :: "lineage_digests \<Rightarrow> evidence_store \<Rightarrow> date \<Rightarrow> session_report \<Rightarrow> bool" where
  "audited L store k s \<longleftrightarrow> (\<exists>audit. es_audit store k = Inr (Some audit) \<and> ld_audit L audit = sr_shadow_audit_sha256 s \<and>
     sa_trade_date audit = k \<and> sa_baseline_version audit = sr_baseline_version s \<and>
     sa_arbitration_version audit = sr_arbitration_version s \<and>
     sa_arbitration_configuration_sha256 audit = sr_arbitration_configuration_sha256 s \<and>
     sa_capture_evidence_sha256 audit = sr_capture_evidence_sha256 s \<and> sa_gap_count audit = sr_capture_gap_count s)"

lemma bound_sessions_Inr:
  assumes "bound_sessions L store gate d = Inr (reference, sessions)"
  shows "cohort gate d reference sessions" "sorted (map fst sessions)" "sessions \<noteq> []" "fst (last sessions) = d"
    "complete_evidence store gate d (research_lineage reference) sessions"
    "\<forall>(k, s) \<in> set sessions. audited L store k s"
proof -
  have load: "load_session_evidence store gate d (Some reference) = Inr sessions" and ne: "sessions \<noteq> []" "fst (last sessions) = d"
    and audits: "check_all (check_audit L store) sessions = Inr ()"
    using assms by (auto simp: bound_sessions_def rbind_eq_Inr if_Inl_eq_Inr)
  note c = load_session_evidence_cohort [OF load]
  show "cohort gate d reference sessions" "sorted (map fst sessions)" "sessions \<noteq> []" "fst (last sessions) = d"
    by (fact c ne)+
  show "complete_evidence store gate d (research_lineage reference) sessions" using load by (rule load_session_evidence_complete)
  show "\<forall>(k, s) \<in> set sessions. audited L store k s"
  proof (clarify)
    fix k s assume ks: "(k, s) \<in> set sessions"
    have key: "sr_trade_date s = k" using c(1) ks by (auto simp: cohort_def)
    have "check_audit L store (k, s) = Inr ()" using audits ks by (auto simp: check_all_Inr)
    then show "audited L store k s"
      by (auto simp: check_audit_def Let_def rbind_eq_Inr if_Inl_eq_Inr decoded_def key ShadowArbitrationAuditReport_def
          audited_def audit_mismatch_def split: option.split_asm if_splits)
  qed
qed

section \<open>Fail-closed admission\<close>

lemma gate_report_arbitration:
  assumes "evaluate_promotion_gate D sessions evaluation gate arbitration = Some (Inr report)"
  shows "gr_arbitration_configuration_sha256 report = version_sha256 (dg_arbitration D) arbitration"
proof -
  have hdr: "gr_arbitration_configuration_sha256 (gate_header D evaluation gate arbitration n) = version_sha256 (dg_arbitration D) arbitration" for n
    by (simp add: gate_header_def)
  have dec: "gr_arbitration_configuration_sha256 r = gr_arbitration_configuration_sha256 h" if "gate_decision D sessions h gate w = Inr r" for r h w
    using that unfolding gate_decision_def Let_def rbind_eq_Inr by (elim exE conjE) (drule PromotionGateReport_Inr, simp)
  have pend: "gr_arbitration_configuration_sha256 r = gr_arbitration_configuration_sha256 h" if "PromotionGateReport (h\<lparr>gr_targets := ts\<rparr>) = Inr r" for r h ts
    using PromotionGateReport_Inr [OF that] by simp
  show ?thesis
    using assms unfolding evaluate_promotion_gate_def Let_def
    by (auto simp: rbind_eq_Inr hdr dest!: dec pend split: if_splits option.split_asm sum.split_asm)
qed

lemma resolve_research_lineage_arbitration:
  assumes "resolve_research_lineage D L c d costs = Inr l" "resolve_candidate_arbitration c d = Inr (Some a)"
  shows "rl_arbitration_configuration_sha256 l = version_sha256 (dg_arbitration D) a"
  using assms by (auto simp: resolve_research_lineage_def rbind_eq_Inr ResearchLineage_def split: if_splits)

text \<open>
  The one version of a policy list that contains the date, or \<open>None\<close> when no version does, and the lineage that the
  policies in force and the assumed costs prescribe: every hash is the digest of the policy in force on the date, the
  context's together with the regime's and, when the regime rests on constituents, the breadth policy's.
\<close>

definition in_force :: "'a effective_version_scheme list \<Rightarrow> date \<Rightarrow> 'a effective_version_scheme option \<Rightarrow> bool" where
  "in_force vs d r = (case r of None \<Rightarrow> \<forall>v \<in> set vs. \<not> contains v d
     | Some v \<Rightarrow> v \<in> set vs \<and> contains v d \<and> (\<forall>w \<in> set vs. contains w d \<longrightarrow> w = v))"

lemma filter_in_force: "filter (\<lambda>v. contains v d) vs = [v] \<Longrightarrow> in_force vs d (Some v)"
  using filter_singleton_iff [of "\<lambda>v. contains v d" vs v] by (auto simp: in_force_def)

lemma resolve_effective_in_force: "resolve_effective vs d l = Inr v \<Longrightarrow> in_force vs d (Some v)"
  by (rule filter_in_force) (auto simp: resolve_effective_def split: list.splits)

lemma resolve_optional_in_force: "resolve_optional vs d l = Inr r \<Longrightarrow> in_force vs d r"
  by (cases r) (auto simp: resolve_optional_def in_force_def filter_empty_conv intro!: filter_in_force [unfolded in_force_def option.case]
      split: list.splits if_splits)

definition lineage_in_force ::
  "promotion_digests \<Rightarrow> lineage_digests \<Rightarrow> trading_configuration \<Rightarrow> date \<Rightarrow> cost_policy option \<Rightarrow> research_lineage \<Rightarrow> bool" where
  "lineage_in_force D L configuration d costs lineage \<longleftrightarrow>
     (\<exists>arbitration features policy regime breadth outcomes assumed.
        in_force (tc_candidate_arbitrations configuration) d (Some arbitration) \<and>
        in_force (tc_versions configuration) d (Some features) \<and> in_force (tc_contexts configuration) d (Some policy) \<and>
        in_force (tc_regimes configuration) d regime \<and> in_force (tc_breadth configuration) d breadth \<and>
        in_force (tc_outcomes configuration) d (Some outcomes) \<and>
        (case costs of Some c \<Rightarrow> assumed = c | None \<Rightarrow> public_vndirect_dta_costs d checked 0 = Inr assumed) \<and>
        cp_effective_from assumed \<le> d \<and> (\<forall>e. cp_effective_to assumed = Some e \<longrightarrow> d \<le> e) \<and>
        rl_baseline_version lineage = BASELINE_VERSION \<and>
        rl_arbitration_configuration_sha256 lineage = version_sha256 (dg_arbitration D) arbitration \<and>
        rl_feature_configuration_sha256 lineage = version_sha256 (ld_feature L) features \<and>
        rl_context_configuration_sha256 lineage = (case regime of
           None \<Rightarrow> version_sha256 (ld_context L) policy
         | Some g \<Rightarrow> ld_cohort L (version_sha256 (ld_context L) policy, version_sha256 (ld_regime L) g,
             (if rg_basis g = CONSTITUENT_BREADTH then map_option (version_sha256 (ld_breadth L)) breadth else None))) \<and>
        (\<forall>g. regime = Some g \<and> rg_basis g = CONSTITUENT_BREADTH \<longrightarrow>
           (\<exists>b. breadth = Some b \<and> rg_reference_index g \<in> Some ` set (bv_indices b))) \<and>
        rl_outcome_configuration_sha256 lineage = version_sha256 (ld_outcome L) outcomes \<and>
        rl_cost_policy_sha256 lineage = ld_costs L (assumed\<lparr>cp_effective_from := 0, cp_effective_to := None\<rparr>))"

lemma resolve_research_lineage_in_force:
  assumes "resolve_research_lineage D L configuration d c = Inr lineage" "active_costs d checked costs = Inr c"
  shows "lineage_in_force D L configuration d costs lineage"
proof -
  obtain arbitration features policy regime breadth identity outcomes where
    versions: "resolve_candidate_arbitration configuration d = Inr (Some arbitration)"
      "resolve_configuration configuration d = Inr features" "resolve_context configuration d = Inr policy"
      "resolve_regime configuration d = Inr regime" "resolve_breadth configuration d = Inr breadth"
      "resolve_outcomes configuration d = Inr outcomes"
    and identity: "context_identity L policy regime breadth = Inr identity" and costs: "cost_contains c d"
    and lineage: "lineage = \<lparr>rl_baseline_version = BASELINE_VERSION,
             rl_arbitration_configuration_sha256 = version_sha256 (dg_arbitration D) arbitration,
             rl_feature_configuration_sha256 = version_sha256 (ld_feature L) features,
             rl_context_configuration_sha256 = identity,
             rl_outcome_configuration_sha256 = version_sha256 (ld_outcome L) outcomes,
             rl_cost_policy_sha256 = assumptions_sha256 L c\<rparr>"
    using assms(1) by (auto simp: resolve_research_lineage_def rbind_eq_Inr ResearchLineage_def split: option.split_asm if_splits)
  have "in_force (tc_candidate_arbitrations configuration) d (Some arbitration)"
    using versions(1) unfolding resolve_candidate_arbitration_def by (rule resolve_optional_in_force)
  moreover have "in_force (tc_versions configuration) d (Some features)"
    using versions(2) unfolding resolve_configuration_def by (rule resolve_effective_in_force)
  moreover have "in_force (tc_contexts configuration) d (Some policy)"
    using versions(3) unfolding resolve_context_def by (rule resolve_effective_in_force)
  moreover have "in_force (tc_regimes configuration) d regime"
    using versions(4) by (auto simp: resolve_regime_def in_force_def split: if_splits dest: resolve_optional_in_force)
  moreover have "in_force (tc_breadth configuration) d breadth"
    using versions(5) by (auto simp: resolve_breadth_def in_force_def split: if_splits dest: resolve_optional_in_force)
  moreover have "in_force (tc_outcomes configuration) d (Some outcomes)"
    using versions(6) unfolding resolve_outcomes_def by (rule resolve_effective_in_force)
  moreover have "case costs of Some k \<Rightarrow> c = k | None \<Rightarrow> public_vndirect_dta_costs d checked 0 = Inr c"
    using assms(2) by (auto simp: active_costs_def split: option.splits)
  moreover have "cp_effective_from c \<le> d" "\<forall>e. cp_effective_to c = Some e \<longrightarrow> d \<le> e"
    using costs by (auto simp: cost_contains_def)
  moreover have "identity = (case regime of
           None \<Rightarrow> version_sha256 (ld_context L) policy
         | Some g \<Rightarrow> ld_cohort L (version_sha256 (ld_context L) policy, version_sha256 (ld_regime L) g,
             (if rg_basis g = CONSTITUENT_BREADTH then map_option (version_sha256 (ld_breadth L)) breadth else None)))"
      "\<forall>g. regime = Some g \<and> rg_basis g = CONSTITUENT_BREADTH \<longrightarrow>
           (\<exists>b. breadth = Some b \<and> rg_reference_index g \<in> Some ` set (bv_indices b))"
    using identity by (auto simp: context_identity_def split: option.splits if_splits)
  ultimately show ?thesis unfolding lineage_in_force_def lineage assumptions_sha256_def research_lineage.select_convs by blast
qed

text \<open>What admission to paper trading rests on.\<close>

definition admitted ::
  "promotion_digests \<Rightarrow> lineage_digests \<Rightarrow> evidence_store \<Rightarrow> trading_configuration \<Rightarrow> date \<Rightarrow> date \<Rightarrow> cost_policy option \<Rightarrow>
   gate_report \<Rightarrow> research_lineage \<Rightarrow> bool" where
  "admitted D L store configuration trade_date previous_session costs report lineage \<longleftrightarrow>
     lineage_in_force D L configuration trade_date costs lineage \<and>
     es_gate store previous_session = Inr (Some report) \<and> gr_status report = PASS \<and>
     (\<exists>gate arbitration evaluation sessions. in_force (tc_promotion_gates configuration) trade_date (Some gate) \<and>
        in_force (tc_candidate_arbitrations configuration) trade_date (Some arbitration) \<and>
        (\<exists>execution. in_force (tc_paper_executions configuration) trade_date (Some execution)) \<and>
        in_force (evaluations_of_tier configuration PROMOTION) trade_date (Some evaluation) \<and>
        evaluate_promotion_gate D sessions evaluation gate arbitration = Some (Inr report) \<and>
        sessions \<noteq> [] \<and> fst (last sessions) = previous_session \<and> sorted (map fst sessions) \<and> distinct (map fst sessions) \<and>
        complete_evidence store gate previous_session lineage sessions \<and>
        (\<forall>(k, s) \<in> set sessions. sr_trade_date s = k \<and> k \<le> previous_session \<and> contains gate k \<and>
           research_lineage s = lineage \<and> audited L store k s) \<and>
        rl_arbitration_configuration_sha256 lineage = gr_arbitration_configuration_sha256 report)"

lemma status_name_PASS: "status_name s = ''PASS'' \<longleftrightarrow> s = PASS"
  by (cases s) simp_all

lemma readiness_evidence_pass:
  assumes "readiness_evidence D L store configuration trade_date previous_session enabled costs =
      Some (Inr (''PROMOTION_PASS'', report, lineage))"
  obtains r l where "report = Some r" "lineage = Some l" "enabled" "previous_session < trade_date" "gr_status r = PASS"
    "admitted D L store configuration trade_date previous_session costs r l"
proof -
  note ev = assms [unfolded readiness_evidence_def]
  have prev: "previous_session < trade_date" using ev by (simp add: not_le split: if_splits)
  obtain gate arbitration where pol: "resolve_promotion_gate configuration trade_date = Inr (Some gate)"
      "resolve_candidate_arbitration configuration trade_date = Inr (Some arbitration)"
      "\<exists>execution. resolve_paper_execution configuration trade_date = Inr (Some execution)"
    using ev by (auto simp: rbind_def split: if_splits sum.split_asm option.split_asm)
  then obtain value0 where gate0: "es_gate store previous_session = Inr (Some value0)"
    using ev prev by (auto simp: rbind_def split: if_splits sum.split_asm option.split_asm)
  obtain r reference sessions evaluation where parts: "bound_sessions L store gate previous_session = Inr (reference, sessions)"
      "resolve_baseline_evaluation configuration trade_date PROMOTION = Inr evaluation"
      "evaluate_promotion_gate D sessions evaluation gate arbitration = Some (Inr r)"
      "PromotionGateReport value0 = Inr r"
    and rest: "(if r \<noteq> r then Inl (ValueError ''published gate differs from complete session evidence'')
                else rbind (active_costs trade_date checked costs) (\<lambda>c.
                  rbind (resolve_research_lineage D L configuration trade_date c) (\<lambda>active.
                  if sr_context_configuration_sha256 reference \<noteq> rl_context_configuration_sha256 active
                  then Inr (''CONTEXT_POLICY_CHANGED'', Some r, None)
                  else if research_lineage reference \<noteq> active then Inr (''RESEARCH_POLICY_CHANGED'', Some r, None)
                  else Inr (if \<not> enabled then ''PAPER_DISABLED'' else ''PROMOTION_'' @ status_name (gr_status r),
                         Some r, Some active)))) = Inr (''PROMOTION_PASS'', report, lineage)"
    using ev prev pol gate0 by (auto simp: rbind_def [of "PromotionGateReport _"] rbind_def [of "bound_sessions _ _ _ _"]
      rbind_def [of "resolve_baseline_evaluation _ _ _"] split: if_splits sum.split_asm option.split_asm)
  have published: "es_gate store previous_session = Inr (Some r)" using gate0 PromotionGateReport_Inr [OF parts(4)] by simp
  from rest obtain c l where l: "resolve_research_lineage D L configuration trade_date c = Inr l" "research_lineage reference = l"
      "report = Some r" "lineage = Some l" "enabled" "gr_status r = PASS" "active_costs trade_date checked costs = Inr c"
    by (auto simp: rbind_eq_Inr status_name_PASS split: if_splits)
  note b = bound_sessions_Inr [OF parts(1)]
  have "rl_arbitration_configuration_sha256 l = gr_arbitration_configuration_sha256 r"
    using resolve_research_lineage_arbitration [OF l(1) pol(2)] gate_report_arbitration [OF parts(3)] by simp
  moreover have "lineage_in_force D L configuration trade_date costs l" using l(1,7) by (rule resolve_research_lineage_in_force)
  moreover have "in_force (tc_promotion_gates configuration) trade_date (Some gate)"
    using pol(1) unfolding resolve_promotion_gate_def by (rule resolve_optional_in_force)
  moreover have "in_force (tc_candidate_arbitrations configuration) trade_date (Some arbitration)"
    using pol(2) unfolding resolve_candidate_arbitration_def by (rule resolve_optional_in_force)
  moreover have "\<exists>execution. in_force (tc_paper_executions configuration) trade_date (Some execution)"
    using pol(3) unfolding resolve_paper_execution_def by (metis resolve_optional_in_force)
  moreover have "in_force (evaluations_of_tier configuration PROMOTION) trade_date (Some evaluation)"
    using parts(2) unfolding resolve_baseline_evaluation_def by (rule resolve_effective_in_force)
  moreover have "\<forall>(k, s) \<in> set sessions. sr_trade_date s = k \<and> k \<le> previous_session \<and> contains gate k \<and>
      research_lineage s = l \<and> audited L store k s" "distinct (map fst sessions)"
    using b(1,6) l(2) by (auto simp: cohort_def)
  ultimately have "admitted D L store configuration trade_date previous_session costs r l"
    unfolding admitted_def using parts(3) b(2-5) l(2,6) published by blast
  with l prev show thesis by (intro that)
qed

lemma readiness_evidence_total:
  assumes "list_all (\<lambda>e. BaselineEvaluationVersion e = Inr e) (tc_baseline_evaluations configuration)"
  shows "\<exists>r. readiness_evidence D L store configuration trade_date previous_session enabled costs = Some r"
proof -
  have "\<exists>r. evaluate_promotion_gate D sessions evaluation gate arbitration = Some r"
    if "resolve_baseline_evaluation configuration trade_date PROMOTION = Inr evaluation" for sessions evaluation gate arbitration
  proof (rule promotion_gate_total)
    have "evaluation \<in> set (tc_baseline_evaluations configuration)"
      using that by (auto simp: resolve_baseline_evaluation_def resolve_effective_def evaluations_of_tier_def
          filter_eq_Cons_iff split: list.split_asm)
    then show "BaselineEvaluationVersion evaluation = Inr evaluation" using assms by (auto simp: list_all_iff)
  qed
  then have some: "evaluate_promotion_gate D sessions evaluation gate arbitration \<noteq> None"
    if "resolve_baseline_evaluation configuration trade_date PROMOTION = Inr evaluation" for sessions evaluation gate arbitration
    using that by (metis option.distinct(1))
  have "readiness_evidence D L store configuration trade_date previous_session enabled costs \<noteq> None"
  proof
    assume "readiness_evidence D L store configuration trade_date previous_session enabled costs = None"
    then obtain sessions evaluation gate arbitration where
      "resolve_baseline_evaluation configuration trade_date PROMOTION = Inr evaluation"
      "evaluate_promotion_gate D sessions evaluation gate arbitration = None"
      unfolding readiness_evidence_def
      by (auto simp: rbind_eq_Inr split: sum.split_asm option.split_asm if_split_asm prod.split_asm)
    with some show False by blast
  qed
  then show ?thesis by blast
qed

text \<open>A store with one audited day per session, for the witnesses.\<close>

definition sample_audit :: "date \<Rightarrow> shadow_audit" where
  "sample_audit d = \<lparr>sa_trade_date = d, sa_baseline_version = BASELINE_VERSION, sa_arbitration_version = ''arb-v1'',
     sa_arbitration_configuration_sha256 = replicate 64 (CHR ''2''), sa_stream_session_ids = [''s''],
     sa_capture_evidence_sha256 = replicate 64 (CHR ''7''), sa_capture_message_count = 10, sa_gap_count = 0,
     sa_manifest_sha256 = replicate 64 (CHR ''7''), sa_candidate_count = 1, sa_candidate_sha256 = replicate 64 (CHR ''7''),
     sa_arbitration_count = 1, sa_arbitration_sha256 = replicate 64 (CHR ''7'')\<rparr>"

definition sample_lineage_digests :: lineage_digests where
  "sample_lineage_digests = \<lparr>ld_feature = \<lambda>_. replicate 64 (CHR ''7''), ld_context = \<lambda>_. replicate 64 (CHR ''7''),
     ld_regime = \<lambda>_. replicate 64 (CHR ''7''), ld_breadth = \<lambda>_. replicate 64 (CHR ''7''), ld_cohort = \<lambda>_. replicate 64 (CHR ''7''),
     ld_outcome = \<lambda>_. replicate 64 (CHR ''7''), ld_costs = \<lambda>_. replicate 64 (CHR ''7''), ld_audit = \<lambda>_. replicate 64 (CHR ''7'')\<rparr>"

definition sample_store :: "gate_report option \<Rightarrow> evidence_store" where
  "sample_store report = \<lparr>es_gate = \<lambda>_. Inr report,
     es_session = \<lambda>d. if 1 \<le> d \<and> d \<le> 4 then Inr (Some (snd (sample_session d 5))) else Inr None,
     es_audit = \<lambda>d. Inr (Some (sample_audit d)), es_session_keys = Inr [2, 1, 4, 3]\<rparr>"

definition sample_published :: "gate_report option" where
  "sample_published = (case evaluate_promotion_gate sample_digests (map (\<lambda>d. sample_session d 5) [1, 2, 3, 4])
     (sample_evaluation ''promo-v1'' PROMOTION) sample_gate (sample_arbitration None) of Some (Inr r) \<Rightarrow> Some r | _ \<Rightarrow> None)"

lemma sample_readiness_computed:
  "case load_paper_readiness sample_digests sample_lineage_digests (sample_store sample_published) (sample_configuration None None) 7 4
     True None of None \<Rightarrow> False | Some outcome \<Rightarrow> (case outcome of Inl _ \<Rightarrow> False | Inr r \<Rightarrow> rn_mode r = PAPER \<and> rn_reason r = ''PROMOTION_PASS'')"
  by code_simp

text \<open>C10: paper admission fails closed. With validated evaluation policies, loading readiness always returns a valid record,
  whatever the evidence store returns or raises; and the record admits paper orders only when paper trading is enabled, the
  previous session precedes the trading date, and \<open>admitted\<close> holds: a gate, arbitration, evaluation and execution policy are in force
  on the date; the report published for the previous session is a PASS and equals the gate recomputed from the stored,
  audited sessions, which end at the previous session and include every covered session of their lineage; and their
  lineage is the lineage in force, whose arbitration, feature, context, outcome and cost hashes are the digests of the
  policies whose interval contains the date and of costs whose interval contains it.\<close>

theorem readiness_fails_closed:
  assumes "list_all (\<lambda>e. BaselineEvaluationVersion e = Inr e) (tc_baseline_evaluations configuration)"
  shows "\<exists>r. load_paper_readiness D L store configuration trade_date previous_session enabled costs = Some (Inr r) \<and>
    (rn_mode r = PAPER \<longrightarrow> enabled \<and> previous_session < trade_date \<and>
      (\<exists>report lineage. rn_promotion r = Some report \<and> rn_research_lineage r = Some lineage \<and>
         admitted D L store configuration trade_date previous_session costs report lineage))"
proof -
  obtain outcome where o: "readiness_evidence D L store configuration trade_date previous_session enabled costs = Some outcome"
    using readiness_evidence_total [OF assms] by blast
  show ?thesis
  proof (cases outcome)
    case (Inl e)
    then show ?thesis using o by (simp add: load_paper_readiness_def PaperReadiness_def)
  next
    case (Inr found)
    obtain reason report lineage where f: "found = (reason, report, lineage)" by (cases found)
    show ?thesis
    proof (cases "enabled \<and> reason = ''PROMOTION_PASS''")
      case True
      then have "readiness_evidence D L store configuration trade_date previous_session enabled costs =
          Some (Inr (''PROMOTION_PASS'', report, lineage))" using o Inr f by simp
      then obtain r l where rl: "report = Some r" "lineage = Some l" "previous_session < trade_date" "gr_status r = PASS"
          "admitted D L store configuration trade_date previous_session costs r l" by (rule readiness_evidence_pass)
      then have "rl_arbitration_configuration_sha256 l = gr_arbitration_configuration_sha256 r" by (auto simp: admitted_def)
      then show ?thesis using True o Inr f rl by (simp add: load_paper_readiness_def PaperReadiness_def)
    next
      case False
      then consider "\<not> enabled" | "reason \<noteq> ''PROMOTION_PASS''" by blast
      then show ?thesis by cases (use o Inr f in \<open>simp_all add: load_paper_readiness_def PaperReadiness_def\<close>)
    qed
  qed
qed

theorem readiness_fails_closed_witness:
  "\<exists>r. load_paper_readiness sample_digests sample_lineage_digests (sample_store sample_published) (sample_configuration None None) 7 4
      True None = Some (Inr r) \<and> rn_mode r = PAPER \<and>
     (\<exists>report lineage. rn_promotion r = Some report \<and> rn_research_lineage r = Some lineage \<and>
        admitted sample_digests sample_lineage_digests (sample_store sample_published) (sample_configuration None None) 7 4 None report lineage)"
proof -
  have "list_all (\<lambda>e. BaselineEvaluationVersion e = Inr e) (tc_baseline_evaluations (sample_configuration None None))"
    by (simp add: sample_configuration_def sample_evaluation_def BaselineEvaluationVersion_def valid_effective_version_def
        valid_interval_def is_version_def lower_or_digit_def)
  from readiness_fails_closed [OF this] obtain r where r: "load_paper_readiness sample_digests sample_lineage_digests
      (sample_store sample_published) (sample_configuration None None) 7 4 True None = Some (Inr r)"
    "rn_mode r = PAPER \<longrightarrow> (\<exists>report lineage. rn_promotion r = Some report \<and> rn_research_lineage r = Some lineage \<and>
       admitted sample_digests sample_lineage_digests (sample_store sample_published) (sample_configuration None None) 7 4 None report lineage)"
    by blast
  moreover have "rn_mode r = PAPER" using sample_readiness_computed r(1) by simp
  ultimately show ?thesis by blast
qed

end
