(* ===== verification/PaperRuntime.thy ===== *)
theory PaperRuntime
  imports PaperMatching Readiness
begin

text \<open>
  \<^verbatim>\<open>t0_trading/execution/runtime.py\<close>: the immutable paper session, its replay (\<^verbatim>\<open>PaperSession.reconcile\<close>), and the
  transitions that append operations to it. The loop variables of the replay are the fields of \<open>replay\<close>; a session
  exists only when its constructor accepted it. \<open>runtime_env\<close> holds the digests, the calendar and the trading configuration.
\<close>

section \<open>Sessions\<close>

datatype operation = IntentOp order_intent | EventOp order_event

record paper_session =
  ps_account :: account_snapshot
  ps_costs :: cost_policy
  ps_ledger :: resource_ledger
  ps_revision :: int
  ps_operations :: "operation list"
  ps_markets :: "market_snapshot list"

definition intents_of :: "operation list \<Rightarrow> order_intent list" where
  "intents_of ops = concat (map (\<lambda>op. case op of IntentOp i \<Rightarrow> [i] | EventOp _ \<Rightarrow> []) ops)"

definition events_for :: "string \<Rightarrow> operation list \<Rightarrow> order_event list" where
  "events_for sha ops = concat (map (\<lambda>op. case op of IntentOp _ \<Rightarrow> []
     | EventOp e \<Rightarrow> if ev_intent_sha256 e = sha then [e] else []) ops)"

definition session_intents :: "paper_session \<Rightarrow> order_intent list" where
  "session_intents s = intents_of (ps_operations s)"

definition session_events :: "paper_env \<Rightarrow> paper_session \<Rightarrow> order_intent \<Rightarrow> order_event list" where
  "session_events E s intent = events_for (pe_intent_sha E intent) (ps_operations s)"

section \<open>Replay\<close>

type_synonym liquidity_key = "string \<times> int \<times> string \<times> action"

record replay =
  ry_ledger :: resource_ledger
  ry_intents :: "string \<rightharpoonup> order_intent"
  ry_events :: "string \<rightharpoonup> order_event list"
  ry_entries :: "string list"
  ry_liquidity :: "liquidity_key \<rightharpoonup> int \<times> int \<times> string"
  ry_last_at :: instant

fun operation_at :: "operation \<Rightarrow> instant" where
  "operation_at (IntentOp i) = oi_created_at i"
| "operation_at (EventOp e) = ev_occurred_at e"

definition use_liquidity ::
  "(liquidity_key \<rightharpoonup> int \<times> int \<times> string) \<Rightarrow> fill_evidence option \<Rightarrow> (liquidity_key \<rightharpoonup> int \<times> int \<times> string) res" where
  "use_liquidity liquidity fill = (case fill of None \<Rightarrow> Inr liquidity
     | Some f \<Rightarrow>
       let key = (fe_stream_session_id f, fe_receive_sequence f, fe_symbol f, fe_action f);
           (used, capacity, digest) = (case liquidity key of None \<Rightarrow> (0, fe_available_quantity f, fe_source_sha256 f) | Some v \<Rightarrow> v) in
       if digest \<noteq> fe_source_sha256 f \<or> used + fe_filled_quantity f > capacity
       then Inl (ValueError ''paper operations reuse or conflict on quote liquidity'')
       else Inr (liquidity(key \<mapsto> (used + fe_filled_quantity f, capacity, digest))))"

definition reserve_paper :: "paper_env \<Rightarrow> resource_ledger \<Rightarrow> order_intent \<Rightarrow> resource_ledger res" where
  "reserve_paper E l intent = (if oi_leg intent = ENTRY then reserve_paper_entry E l intent else reserve_paper_exit E l intent)"

definition settle_terminal ::
  "paper_env \<Rightarrow> cost_policy \<Rightarrow> resource_ledger \<Rightarrow> order_intent \<Rightarrow> order_state \<Rightarrow> resource_ledger res" where
  "settle_terminal E costs l intent state =
     (if terminal (os_status state)
      then if oi_leg intent = ENTRY then settle_paper_entry E l intent state costs else settle_paper_exit E l intent state costs
      else Inr l)"

fun replay_operation :: "paper_env \<Rightarrow> cost_policy \<Rightarrow> replay \<Rightarrow> operation \<Rightarrow> replay res" where
  "replay_operation E costs r (IntentOp i) =
     (let sha = pe_intent_sha E i in
      if ry_intents r sha \<noteq> None then Inl (ValueError ''duplicate paper intent'')
      else if oi_leg i = ENTRY \<and> oi_arbitration_sha256 i \<in> set (ry_entries r) then Inl (ValueError ''arbitration already planned'')
      else rbind (reserve_paper E (ry_ledger r) i) (\<lambda>ledger.
        Inr (r\<lparr>ry_ledger := ledger, ry_intents := (ry_intents r)(sha \<mapsto> i), ry_events := (ry_events r)(sha \<mapsto> []),
          ry_entries := (if oi_leg i = ENTRY then ry_entries r @ [oi_arbitration_sha256 i] else ry_entries r)\<rparr>)))"
| "replay_operation E costs r (EventOp e) =
     (case ry_intents r (ev_intent_sha256 e) of None \<Rightarrow> Inl (ValueError ''paper event has no intent'')
      | Some intent \<Rightarrow>
        (case ry_events r (pe_intent_sha E intent) of None \<Rightarrow> Inl KeyError
         | Some events \<Rightarrow>
           let history = events @ [e] in
           rbind (reduce_paper_order E intent history) (\<lambda>state.
           rbind (use_liquidity (ry_liquidity r) (ev_fill_evidence e)) (\<lambda>liquidity.
           rbind (settle_terminal E costs (ry_ledger r) intent state) (\<lambda>ledger.
           Inr (r\<lparr>ry_ledger := ledger, ry_events := (ry_events r)(pe_intent_sha E intent \<mapsto> history), ry_liquidity := liquidity\<rparr>))))))"

definition replay_step :: "paper_env \<Rightarrow> cost_policy \<Rightarrow> replay \<Rightarrow> operation \<Rightarrow> replay res" where
  "replay_step E costs r op =
     (if operation_at op < ry_last_at r then Inl (ValueError ''paper operations cannot rewind the session clock'')
      else replay_operation E costs (r\<lparr>ry_last_at := operation_at op\<rparr>) op)"

definition initial_replay :: "account_snapshot \<Rightarrow> resource_ledger \<Rightarrow> replay" where
  "initial_replay account ledger = \<lparr>ry_ledger = ledger, ry_intents = Map.empty, ry_events = Map.empty, ry_entries = [],
     ry_liquidity = Map.empty, ry_last_at = ac_as_of account\<rparr>"

definition replay_session :: "paper_env \<Rightarrow> paper_session \<Rightarrow> replay res" where
  "replay_session E s =
     rbind (initialize_paper_ledger E (ps_account s) (lg_trade_date (ps_ledger s))) (\<lambda>ledger.
       run_res (replay_step E (ps_costs s)) (initial_replay (ps_account s) ledger) (ps_operations s))"

text \<open>An exception derived from \<^verbatim>\<open>ValueError\<close> inside a model validator surfaces as \<^verbatim>\<open>ValidationError\<close>.\<close>

definition in_validator :: "'a res \<Rightarrow> 'a res" where
  "in_validator r = (case r of Inl (ValueError m) \<Rightarrow> Inl (ValidationError m) | Inl (ConfigurationError m) \<Rightarrow> Inl (ValidationError m) | _ \<Rightarrow> r)"

definition PaperSession :: "paper_env \<Rightarrow> paper_session \<Rightarrow> paper_session res" where
  "PaperSession E s =
     (if ps_revision s < 0 then Inl (ValidationError ''PaperSession'')
      else if \<not> cost_contains (ps_costs s) (lg_trade_date (ps_ledger s)) then Inl (ValidationError ''paper costs must cover the session date'')
      else rbind (in_validator (replay_session E s)) (\<lambda>r.
      if ry_ledger r \<noteq> ps_ledger s then Inl (ValidationError ''paper ledger does not reconcile to immutable operations'')
      else let symbols = map pm_symbol (ps_markets s) in
      if symbols \<noteq> sorted_set symbols then Inl (ValidationError ''paper quote cursors must be unique and ordered'')
      else Inr s))"

section \<open>Appending\<close>

definition append_operation :: "paper_env \<Rightarrow> paper_session \<Rightarrow> operation \<Rightarrow> paper_session res" where
  "append_operation E session op =
     rbind (case op of
         IntentOp i \<Rightarrow> reserve_paper E (ps_ledger session) i
       | EventOp e \<Rightarrow>
           rbind (next_match (\<lambda>i. pe_intent_sha E i = ev_intent_sha256 e) (session_intents session)) (\<lambda>intent.
           rbind (reduce_paper_order E intent (session_events E session intent @ [e])) (\<lambda>state.
           settle_terminal E (ps_costs session) (ps_ledger session) intent state)))
       (\<lambda>ledger. Inr (session\<lparr>ps_ledger := ledger, ps_operations := ps_operations session @ [op]\<rparr>))"

definition finish :: "paper_env \<Rightarrow> paper_session \<Rightarrow> paper_session \<Rightarrow> paper_session res" where
  "finish E previous current =
     (if current = previous then Inr previous else PaperSession E (current\<lparr>ps_revision := ps_revision previous + 1\<rparr>))"

section \<open>Transitions\<close>

record runtime_env =
  rt_paper :: paper_env
  rt_promotion :: promotion_digests
  rt_lineage :: lineage_digests
  rt_local_date :: "string \<Rightarrow> instant \<Rightarrow> date"
  rt_configuration :: trading_configuration

fun reason_name :: "block_reason \<Rightarrow> string" where
  "reason_name MARKET_STATUS_INELIGIBLE = ''MARKET_STATUS_INELIGIBLE''"
| "reason_name STALE_QUOTE = ''STALE_QUOTE''"
| "reason_name INSUFFICIENT_ASK_QUANTITY = ''INSUFFICIENT_ASK_QUANTITY''"
| "reason_name INSUFFICIENT_BID_QUANTITY = ''INSUFFICIENT_BID_QUANTITY''"
| "reason_name PRICE_LIMIT = ''PRICE_LIMIT''"
| "reason_name ENTRY_NOT_TERMINAL = ''ENTRY_NOT_TERMINAL''"
| "reason_name ENTRY_UNFILLED = ''ENTRY_UNFILLED''"
| "reason_name BEFORE_EXIT_HORIZON = ''BEFORE_EXIT_HORIZON''"
| "reason_name POSITION_UNAVAILABLE = ''POSITION_UNAVAILABLE''"
| "reason_name INSUFFICIENT_SETTLED_ABOVE_CORE = ''INSUFFICIENT_SETTLED_ABOVE_CORE''"
| "reason_name QUANTITY_LIMIT = ''QUANTITY_LIMIT''"
| "reason_name ORDER_NOTIONAL_LIMIT = ''ORDER_NOTIONAL_LIMIT''"
| "reason_name CYCLE_LIMIT = ''CYCLE_LIMIT''"
| "reason_name DAILY_LOSS_LIMIT = ''DAILY_LOSS_LIMIT''"
| "reason_name CASH_LIMIT = ''CASH_LIMIT''"

text \<open>The common tail of both submissions: the planned intent and its ACCEPTED event.\<close>

definition admit_plan :: "paper_env \<Rightarrow> paper_session \<Rightarrow> order_plan \<Rightarrow> paper_session res" where
  "admit_plan E session plan = (case pl_intent plan of
     None \<Rightarrow> Inl (PaperOrderBlocked (map reason_name (pl_reasons plan)))
   | Some intent \<Rightarrow>
       rbind (append_operation E session (IntentOp intent)) (\<lambda>result.
       rbind (lifecycle_event E intent [] ACCEPTED_EVENT (Aware (oi_created_at intent)) None None) (\<lambda>event.
       rbind (append_operation E result (EventOp event)) (\<lambda>result.
       finish E session result))))"

definition check_admission ::
  "runtime_env \<Rightarrow> paper_session \<Rightarrow> execution_request \<Rightarrow> readiness \<Rightarrow> research_lineage \<Rightarrow> unit res" where
  "check_admission R session request readiness lineage =
     (let candidate = rq_candidate request; day = lg_trade_date (ps_ledger session) in
      if rn_promotion readiness \<noteq> Some (rq_promotion request) \<or> rn_trade_date readiness \<noteq> bc_trade_date candidate \<or>
         rn_previous_session readiness \<ge> rn_trade_date readiness \<or> rq_account request \<noteq> ps_account session \<or>
         rq_costs request \<noteq> ps_costs session \<or> rn_trade_date readiness \<noteq> day
      then Inl (ValueError ''paper admission lineage mismatch'')
      else rbind (resolve_research_lineage (rt_promotion R) (rt_lineage R) (rt_configuration R) day (ps_costs session)) (\<lambda>current.
      if lineage \<noteq> current \<or> bc_baseline_version candidate \<noteq> rl_baseline_version lineage \<or>
         bc_context_configuration_sha256 candidate \<noteq> Some (rl_context_configuration_sha256 lineage)
      then Inl (ValueError ''paper admission lineage mismatch'')
      else Inr ()))"

definition entry_policies ::
  "trading_configuration \<Rightarrow> date \<Rightarrow> (paper_execution_version \<times> promotion_gate_version \<times> arbitration_version) res" where
  "entry_policies configuration day =
     rbind (resolve_paper_execution configuration day) (\<lambda>policy.
     rbind (resolve_promotion_gate configuration day) (\<lambda>gate.
     rbind (resolve_candidate_arbitration configuration day) (\<lambda>arbitration.
     case (policy, gate, arbitration) of
       (Some p, Some g, Some a) \<Rightarrow> Inr (p, g, a)
     | _ \<Rightarrow> Inl (PaperOrderBlocked [''NO_EFFECTIVE_POLICY'']))))"

definition already_planned :: "paper_env \<Rightarrow> paper_session \<Rightarrow> execution_request \<Rightarrow> bool" where
  "already_planned E session request =
     list_ex (\<lambda>i. oi_leg i = ENTRY \<and> oi_arbitration_sha256 i = pe_arbitration_sha E (rq_arbitration request)) (session_intents session)"

definition submit_entry :: "runtime_env \<Rightarrow> paper_session \<Rightarrow> execution_request \<Rightarrow> readiness \<Rightarrow> paper_session res" where
  "submit_entry R session request readiness =
     (let E = rt_paper R; configuration = rt_configuration R; day = lg_trade_date (ps_ledger session) in
      if rn_mode readiness \<noteq> PAPER then Inr session
      else case rn_research_lineage readiness of
        None \<Rightarrow> Inl (ValueError ''paper admission requires research lineage'')
      | Some lineage \<Rightarrow>
        rbind (check_admission R session request readiness lineage) (\<lambda>_.
        if already_planned E session request then Inr session
        else if rq_resources request \<noteq> ps_ledger session then Inl (ValueError ''paper planner used stale resources'')
        else rbind (entry_policies configuration day) (\<lambda>(policy, gate, arbitration).
          rbind (resolve_context configuration day) (\<lambda>context.
          rbind (plan_paper_order E (rt_promotion R) request policy arbitration context gate) (\<lambda>plan.
          admit_plan E session plan)))))"

definition submit_exit :: "runtime_env \<Rightarrow> paper_session \<Rightarrow> order_intent \<Rightarrow> market_snapshot \<Rightarrow> paper_session res" where
  "submit_exit R session entry market =
     (let E = rt_paper R; configuration = rt_configuration R in
      if entry \<notin> set (session_intents session) then Inl (ValueError ''paper exit parent is unknown'')
      else if \<not> list_ex (\<lambda>r. rv_entry_intent_sha256 r = pe_intent_sha E entry \<and> rv_status r = OPEN) (lg_reservations (ps_ledger session))
      then Inr session
      else rbind (resolve_paper_execution configuration (oi_trade_date entry)) (\<lambda>found. case found of
        None \<Rightarrow> Inl (PaperOrderBlocked [''NO_EFFECTIVE_POLICY''])
      | Some policy \<Rightarrow>
        rbind (reduce_paper_order E entry (session_events E session entry)) (\<lambda>state.
        rbind (PaperExitRequest E \<lparr>xr_entry_intent = entry, xr_entry_state = state, xr_market = market,
                 xr_resources = ps_ledger session\<rparr>) (\<lambda>request.
        rbind (resolve_context configuration (oi_trade_date entry)) (\<lambda>context.
        rbind (plan_paper_exit E request policy context) (\<lambda>plan.
        admit_plan E session plan))))))"

definition expire_intent :: "paper_env \<Rightarrow> instant \<Rightarrow> paper_session \<Rightarrow> order_intent \<Rightarrow> paper_session res" where
  "expire_intent E t result intent =
     (let events = session_events E result intent in
      rbind (reduce_paper_order E intent events) (\<lambda>state.
      if \<not> terminal (os_status state) \<and> t \<ge> oi_expires_at intent
      then rbind (lifecycle_event E intent events EXPIRED_EVENT (Aware t) (Some ''TIME_IN_FORCE'') None) (\<lambda>event.
        append_operation E result (EventOp event))
      else Inr result))"

definition advance_clock :: "runtime_env \<Rightarrow> paper_session \<Rightarrow> pydatetime \<Rightarrow> paper_session res" where
  "advance_clock R session when =
     rbind (to_utc ''paper clock must be timezone-aware'' when) (\<lambda>t.
     rbind (run_res (expire_intent (rt_paper R) t) session (session_intents session)) (\<lambda>result.
     finish (rt_paper R) session result))"

definition cancel_order :: "runtime_env \<Rightarrow> paper_session \<Rightarrow> order_intent \<Rightarrow> pydatetime \<Rightarrow> string \<Rightarrow> paper_session res" where
  "cancel_order R session intent when reason =
     (let E = rt_paper R; events = session_events E session intent in
      if intent \<notin> set (session_intents session) then Inl (ValueError ''paper cancel intent is unknown'')
      else rbind (reduce_paper_order E intent events) (\<lambda>state.
      if terminal (os_status state) then Inr session
      else rbind (lifecycle_event E intent events CANCELLED_EVENT when (Some reason) None) (\<lambda>event.
        rbind (append_operation E session (EventOp event)) (\<lambda>result.
        finish E session result))))"

section \<open>Quotes\<close>

type_synonym budgets = "action \<Rightarrow> int"

definition cursor_conflict :: "market_snapshot \<Rightarrow> market_snapshot \<Rightarrow> bool" where
  "cursor_conflict previous market =
     ((pm_stream_session_id previous, pm_receive_sequence previous) = (pm_stream_session_id market, pm_receive_sequence market) \<or>
      pm_quote_received_at market < pm_quote_received_at previous \<or> pm_observed_at market < pm_observed_at previous \<or>
      (pm_stream_session_id market = pm_stream_session_id previous \<and> pm_receive_sequence market \<le> pm_receive_sequence previous))"

definition quote_budgets :: "market_snapshot option \<Rightarrow> market_snapshot \<Rightarrow> budgets" where
  "quote_budgets previous market = (\<lambda>side. case side of
     BUY \<Rightarrow> (case previous of Some p \<Rightarrow>
         if pm_best_ask_price p = pm_best_ask_price market then max 0 (pm_best_ask_quantity market - pm_best_ask_quantity p)
         else pm_best_ask_quantity market
       | None \<Rightarrow> pm_best_ask_quantity market)
   | SELL \<Rightarrow> (case previous of Some p \<Rightarrow>
         if pm_best_bid_price p = pm_best_bid_price market then max 0 (pm_best_bid_quantity market - pm_best_bid_quantity p)
         else pm_best_bid_quantity market
       | None \<Rightarrow> pm_best_bid_quantity market))"

definition match_intent ::
  "paper_env \<Rightarrow> market_snapshot \<Rightarrow> paper_execution_version \<Rightarrow> context_version \<Rightarrow> paper_session \<times> budgets \<Rightarrow> order_intent \<Rightarrow>
   (paper_session \<times> budgets) res" where
  "match_intent E market policy context current intent =
     (let (result, budgets) = current in
      if oi_symbol intent \<noteq> pm_symbol market \<or> oi_created_at intent > pm_observed_at market then Inr current
      else rbind (match_quote E intent (session_events E result intent) market policy context (budgets (oi_action intent))) (\<lambda>found.
        case found of None \<Rightarrow> Inr current
        | Some event \<Rightarrow> rbind (append_operation E result (EventOp event)) (\<lambda>result'.
            Inr (result', case ev_fill_evidence event of None \<Rightarrow> budgets
              | Some f \<Rightarrow> budgets(oi_action intent := budgets (oi_action intent) - fe_filled_quantity f)))))"

definition quote_priority :: "paper_env \<Rightarrow> order_intent \<Rightarrow> nat \<times> instant \<times> string" where
  "quote_priority E i = (oi_priority i, oi_created_at i, pe_intent_sha E i)"

definition process_quote :: "runtime_env \<Rightarrow> paper_session \<Rightarrow> market_snapshot \<Rightarrow> paper_session res" where
  "process_quote R session market =
     (let E = rt_paper R; configuration = rt_configuration R; day = lg_trade_date (ps_ledger session);
          previous = find (\<lambda>m. pm_symbol m = pm_symbol market) (ps_markets session) in
      rbind (resolve_configuration configuration day) (\<lambda>active.
      if rt_local_date R (mc_timezone (tv_market active)) (pm_observed_at market) \<noteq> day
      then Inl (ValueError ''paper quote must belong to the resource session date'')
      else if previous = Some market then Inr session
      else if (case previous of None \<Rightarrow> False | Some p \<Rightarrow> cursor_conflict p market)
      then Inl (ValueError ''paper quote cursor conflict or regression'')
      else rbind (resolve_paper_execution configuration day) (\<lambda>found. case found of
        None \<Rightarrow> Inr session
      | Some policy \<Rightarrow>
        rbind (resolve_context configuration day) (\<lambda>context.
        rbind (run_res (match_intent E market policy context) (session, quote_budgets previous market)
                 (sort_key (quote_priority E) (session_intents session))) (\<lambda>(result, _).
        finish E session (result\<lparr>ps_markets :=
          sort_key pm_symbol (filter (\<lambda>m. pm_symbol m \<noteq> pm_symbol market) (ps_markets session) @ [market])\<rparr>))))))"

end
