(* ===== verification/PaperSessions.thy ===== *)
theory PaperSessions
  imports PaperRuntime
begin

text \<open>
  What the transitions of \<open>PaperRuntime\<close> guarantee: the replay of a session tracks its intents and events, the ledger
  kept incrementally is the replayed ledger, every transition only appends, quotes never hand out more liquidity than
  they show, and the clock leaves no order open past its deadline.
\<close>

section \<open>Operation lists\<close>

lemma intents_of_append [simp]: "intents_of (a @ b) = intents_of a @ intents_of b"
  and intents_of_simps [simp]: "intents_of [] = []" "intents_of (IntentOp i # ops) = i # intents_of ops"
    "intents_of (EventOp e # ops) = intents_of ops"
  by (simp_all add: intents_of_def)

lemma events_for_append [simp]: "events_for k (a @ b) = events_for k a @ events_for k b"
  and events_for_simps [simp]: "events_for k [] = []" "events_for k (IntentOp i # ops) = events_for k ops"
    "events_for k (EventOp e # ops) = (if ev_intent_sha256 e = k then e # events_for k ops else events_for k ops)"
  by (simp_all add: events_for_def)

section \<open>The replay\<close>

text \<open>The dictionaries of the replay are the intents and events of the operations replayed so far.\<close>

definition tracks :: "paper_env \<Rightarrow> operation list \<Rightarrow> replay \<Rightarrow> bool" where
  "tracks E ops r \<longleftrightarrow> distinct (map (pe_intent_sha E) (intents_of ops)) \<and>
     (\<forall>k. ry_intents r k = find (\<lambda>i. pe_intent_sha E i = k) (intents_of ops)) \<and>
     (\<forall>k. ry_events r k = (if k \<in> pe_intent_sha E ` set (intents_of ops) then Some (events_for k ops) else None)) \<and>
     (\<forall>k. k \<notin> pe_intent_sha E ` set (intents_of ops) \<longrightarrow> events_for k ops = [])"

lemma find_sha_Some:
  assumes "find (\<lambda>i. pe_intent_sha E i = k) is = Some i"
  shows "pe_intent_sha E i = k" "i \<in> set is"
  using assms by (auto simp: find_Some_iff)

lemma find_append: "find P (xs @ ys) = (case find P xs of None \<Rightarrow> find P ys | Some x \<Rightarrow> Some x)"
  by (induction xs) auto

lemma replay_step_Inr:
  assumes "replay_step E costs r op = Inr r'"
  shows "ry_last_at r \<le> operation_at op" "replay_operation E costs (r\<lparr>ry_last_at := operation_at op\<rparr>) op = Inr r'"
  using assms by (auto simp: replay_step_def split: if_splits)

lemma replay_step_tracks:
  assumes "tracks E ops r" "replay_step E costs r op = Inr r'"
  shows "tracks E (ops @ [op]) r'"
proof (cases op)
  case (IntentOp i)
  let ?sha = "pe_intent_sha E i"
  note step = replay_step_Inr(2) [OF assms(2), unfolded IntentOp]
  have new: "ry_intents r ?sha = None" and r': "ry_intents r' = (ry_intents r)(?sha \<mapsto> i)" "ry_events r' = (ry_events r)(?sha \<mapsto> [])"
    using step by (auto simp: Let_def rbind_eq_Inr split: if_splits)
  have none: "?sha \<notin> pe_intent_sha E ` set (intents_of ops)"
    using new assms(1) by (auto simp: tracks_def find_None_iff)
  have "find (\<lambda>j. pe_intent_sha E j = ?sha) (intents_of ops) = None" using new assms(1) by (simp add: tracks_def)
  then show ?thesis using assms(1) none
    by (auto simp: tracks_def IntentOp r' find_append split: option.splits)
next
  case (EventOp e)
  note step = replay_step_Inr(2) [OF assms(2), unfolded EventOp]
  obtain i where i: "ry_intents r (ev_intent_sha256 e) = Some i"
    using step by (auto split: option.split_asm)
  then have f: "find (\<lambda>j. pe_intent_sha E j = ev_intent_sha256 e) (intents_of ops) = Some i" using assms(1) by (simp add: tracks_def)
  note sha = find_sha_Some [OF f]
  have r': "ry_intents r' = ry_intents r"
    "ry_events r' = (ry_events r)(ev_intent_sha256 e \<mapsto> events_for (ev_intent_sha256 e) ops @ [e])"
    using step i sha assms(1) by (auto simp: Let_def rbind_eq_Inr tracks_def split: option.split_asm if_splits)
  have "ev_intent_sha256 e \<in> pe_intent_sha E ` set (intents_of ops)" using sha by (metis imageI)
  then show ?thesis using assms(1) by (auto simp: tracks_def EventOp r')
qed

lemma replay_tracks:
  "run_res (replay_step E costs) (initial_replay a l) ops = Inr r \<Longrightarrow> tracks E ops r"
proof (induction ops arbitrary: r rule: rev_induct)
  case Nil
  then show ?case by (auto simp: tracks_def initial_replay_def)
next
  case (snoc op ops)
  then obtain m where "run_res (replay_step E costs) (initial_replay a l) ops = Inr m" "replay_step E costs m op = Inr r"
    by (auto simp: run_res_append rbind_eq_Inr)
  then show ?case using snoc.IH replay_step_tracks by blast
qed

section \<open>The incremental ledger is the replayed ledger\<close>

definition replay_guards :: "py_error set" where
  "replay_guards = {ValueError ''paper operations cannot rewind the session clock'', ValueError ''duplicate paper intent'',
     ValueError ''arbitration already planned'', ValueError ''paper operations reuse or conflict on quote liquidity''}"

text \<open>One appended operation: the replay computes the same ledger, or one of its own guards refuses the operation.\<close>

lemma append_simulates:
  assumes "tracks E (ps_operations s) r" "ry_ledger r = ps_ledger s" "append_operation E s op = Inr s'"
  shows "(\<exists>r'. replay_step E (ps_costs s) r op = Inr r' \<and> ry_ledger r' = ps_ledger s') \<or>
    (\<exists>e \<in> replay_guards. replay_step E (ps_costs s) r op = Inl e)"
proof (cases op)
  case (IntentOp i)
  have l: "reserve_paper E (ps_ledger s) i = Inr (ps_ledger s')"
    using assms(3) by (auto simp: append_operation_def IntentOp rbind_eq_Inr)
  then show ?thesis using assms(2)
    by (auto simp: replay_step_def IntentOp Let_def replay_guards_def)
next
  case (EventOp e)
  obtain i state where i: "next_match (\<lambda>i. pe_intent_sha E i = ev_intent_sha256 e) (session_intents s) = Inr i"
    and st: "reduce_paper_order E i (session_events E s i @ [e]) = Inr state"
    and l: "settle_terminal E (ps_costs s) (ps_ledger s) i state = Inr (ps_ledger s')"
    using assms(3) by (auto simp: append_operation_def EventOp rbind_eq_Inr)
  have f: "find (\<lambda>i. pe_intent_sha E i = ev_intent_sha256 e) (intents_of (ps_operations s)) = Some i"
    using i by (auto simp: next_match_def session_intents_def split: option.split_asm)
  note sha = find_sha_Some [OF f]
  have "ev_intent_sha256 e \<in> pe_intent_sha E ` set (intents_of (ps_operations s))" using sha by (metis imageI)
  then have r: "ry_intents r (ev_intent_sha256 e) = Some i" "ry_events r (pe_intent_sha E i) = Some (session_events E s i)"
    using assms(1) f sha by (auto simp: tracks_def session_events_def)
  show ?thesis
  proof (cases "use_liquidity (ry_liquidity r) (ev_fill_evidence e)")
    case (Inl x)
    then have "x = ValueError ''paper operations reuse or conflict on quote liquidity''"
      by (auto simp: use_liquidity_def Let_def split: option.split_asm if_splits)
    then show ?thesis using Inl r st by (auto simp: replay_step_def EventOp Let_def replay_guards_def)
  next
    case (Inr q)
    then show ?thesis using r st l assms(2) by (auto simp: replay_step_def EventOp Let_def replay_guards_def)
  qed
qed

text \<open>Sessions whose replay, if it returns, yields the ledger they carry, and is otherwise refused by a guard of the replay.\<close>

definition coherent :: "paper_env \<Rightarrow> paper_session \<Rightarrow> bool" where
  "coherent E s \<longleftrightarrow> (\<exists>r. replay_session E s = Inr r \<and> ry_ledger r = ps_ledger s) \<or> (\<exists>e \<in> replay_guards. replay_session E s = Inl e)"

lemma ledger_step_date: "ledger_step E l op = Inr l' \<Longrightarrow> lg_trade_date l' = lg_trade_date l"
  by (cases op) (auto simp: Let_def if_Inl_eq_Inr rbind_eq_Inr reserve_paper_entry_def settle_paper_entry_def
      reserve_paper_exit_def settle_paper_exit_def dest!: next_ledger_Inr(1))

text \<open>The ledger operation one session operation performs.\<close>

definition reserve_op :: "order_intent \<Rightarrow> ledger_op" where
  "reserve_op i = (if oi_leg i = ENTRY then ReserveEntry i else ReserveExit i)"

definition settle_ops :: "cost_policy \<Rightarrow> order_intent \<Rightarrow> order_state \<Rightarrow> ledger_op list" where
  "settle_ops costs i state = (if terminal (os_status state)
     then [if oi_leg i = ENTRY then SettleEntry i state costs else SettleExit i state costs] else [])"

lemma reserve_paper_step: "reserve_paper E l i = ledger_step E l (reserve_op i)"
  by (simp add: reserve_paper_def reserve_op_def)

lemma settle_terminal_run: "settle_terminal E costs l i state = run_res (ledger_step E) l (settle_ops costs i state)"
  by (auto simp: settle_terminal_def settle_ops_def rbind_def split: sum.splits)

lemma run_date: "run_res (ledger_step E) l ops = Inr l' \<Longrightarrow> lg_trade_date l' = lg_trade_date l"
  by (induction ops arbitrary: l) (auto simp: rbind_eq_Inr dest!: ledger_step_date)

lemma append_operation_fields:
  assumes "append_operation E s op = Inr s'"
  shows "ps_operations s' = ps_operations s @ [op]" "ps_account s' = ps_account s" "ps_costs s' = ps_costs s"
    "ps_revision s' = ps_revision s" "ps_markets s' = ps_markets s" "lg_trade_date (ps_ledger s') = lg_trade_date (ps_ledger s)"
proof -
  show "ps_operations s' = ps_operations s @ [op]" "ps_account s' = ps_account s" "ps_costs s' = ps_costs s"
    "ps_revision s' = ps_revision s" "ps_markets s' = ps_markets s"
    using assms by (auto simp: append_operation_def rbind_eq_Inr)
  show "lg_trade_date (ps_ledger s') = lg_trade_date (ps_ledger s)"
    using assms by (cases op) (auto simp: append_operation_def rbind_eq_Inr reserve_paper_step settle_terminal_run
        dest!: ledger_step_date run_date)
qed

lemma append_coherent:
  assumes "coherent E s" "append_operation E s op = Inr s'"
  shows "coherent E s'"
proof -
  note f = append_operation_fields [OF assms(2)]
  have snoc: "replay_session E s' = rbind (replay_session E s) (\<lambda>r. replay_step E (ps_costs s) r op)"
    by (simp add: replay_session_def f run_res_append rbind_def split: sum.splits)
  show ?thesis
  proof (cases "replay_session E s")
    case (Inl e)
    then show ?thesis using assms(1) by (auto simp: coherent_def snoc)
  next
    case (Inr r)
    then have "tracks E (ps_operations s) r" "ry_ledger r = ps_ledger s"
      using assms(1) replay_tracks by (auto simp: replay_session_def rbind_eq_Inr coherent_def)
    then show ?thesis using append_simulates [OF _ _ assms(2)] Inr by (auto simp: coherent_def snoc)
  qed
qed

interpretation appends: guarded_machine "append_operation E" "coherent E" "\<lambda>_. True"
  by unfold_locales (rule append_coherent)

lemma PaperSession_Inr:
  assumes "PaperSession E s = Inr s'"
  obtains r where "s' = s" "0 \<le> ps_revision s" "cost_contains (ps_costs s) (lg_trade_date (ps_ledger s))"
    "replay_session E s = Inr r" "ry_ledger r = ps_ledger s" "distinct (map pm_symbol (ps_markets s))" "sorted (map pm_symbol (ps_markets s))"
proof -
  obtain r where rev: "\<not> ps_revision s < 0" "\<not> \<not> cost_contains (ps_costs s) (lg_trade_date (ps_ledger s))"
      and r: "in_validator (replay_session E s) = Inr r" and l: "\<not> ry_ledger r \<noteq> ps_ledger s"
      and m: "\<not> map pm_symbol (ps_markets s) \<noteq> sorted_set (map pm_symbol (ps_markets s))" and s: "Inr s = (Inr s' :: paper_session res)"
    using assms unfolding PaperSession_def Let_def if_Inl_eq_Inr rbind_eq_Inr by (elim exE conjE) (rule that)
  have sym: "sorted_set (map pm_symbol (ps_markets s)) = map pm_symbol (ps_markets s)" using m by (simp only: not_not)
  have "replay_session E s = Inr r" using r by (auto simp: in_validator_def split: sum.split_asm py_error.split_asm)
  then show thesis using rev l s sym unfolding sorted_set_fix by (intro that [of r]) simp_all
qed

text \<open>C2: the incremental ledger reconciles. A session that was accepted once and is extended by any sequence of appended
  operations carries exactly the ledger that replaying all its operations from the account snapshot produces; the only
  way its replay can refuse it is one of the replay's own guards (clock, duplicate intent, duplicate arbitration, quote
  liquidity), so "ledger does not reconcile" is never raised.\<close>

theorem incremental_ledger_reconciles:
  assumes "PaperSession E s = Inr s" and "run_res (append_operation E) s ops = Inr t"
  shows "(\<forall>r. replay_session E t = Inr r \<longrightarrow> ry_ledger r = ps_ledger t) \<and>
    (\<forall>e. replay_session E t = Inl e \<longrightarrow> e \<in> replay_guards) \<and>
    PaperSession E t \<noteq> Inl (ValidationError ''paper ledger does not reconcile to immutable operations'')"
proof -
  obtain r where "replay_session E s = Inr r" "ry_ledger r = ps_ledger s" using assms(1) by (rule PaperSession_Inr)
  then have "coherent E s" by (auto simp: coherent_def)
  moreover have "list_all (\<lambda>_. True) ops" by (simp add: list_all_iff)
  ultimately have t: "coherent E t" using assms(2) by (rule appends.run_inv)
  then have a: "\<forall>r. replay_session E t = Inr r \<longrightarrow> ry_ledger r = ps_ledger t"
    and b: "\<forall>e. replay_session E t = Inl e \<longrightarrow> e \<in> replay_guards" by (auto simp: coherent_def)
  have "PaperSession E t \<noteq> Inl (ValidationError ''paper ledger does not reconcile to immutable operations'')"
  proof (cases "map pm_symbol (ps_markets t) \<noteq> sorted_set (map pm_symbol (ps_markets t))")
    case True
    with t show ?thesis by (auto simp: coherent_def PaperSession_def in_validator_def Let_def replay_guards_def)
  next
    case False
    show ?thesis using t unfolding PaperSession_def Let_def if_not_P [OF False]
      by (auto simp: coherent_def in_validator_def replay_guards_def)
  qed
  with a b show ?thesis by blast
qed

section \<open>Transitions only append\<close>

datatype command =
    SubmitEntry execution_request readiness
  | SubmitExit order_intent market_snapshot
  | AdvanceClock pydatetime
  | CancelOrder order_intent pydatetime string
  | ProcessQuote market_snapshot

fun execute :: "runtime_env \<Rightarrow> paper_session \<Rightarrow> command \<Rightarrow> paper_session res" where
  "execute R s (SubmitEntry request readiness) = submit_entry R s request readiness"
| "execute R s (SubmitExit entry market) = submit_exit R s entry market"
| "execute R s (AdvanceClock when) = advance_clock R s when"
| "execute R s (CancelOrder intent when reason) = cancel_order R s intent when reason"
| "execute R s (ProcessQuote market) = process_quote R s market"

text \<open>\<open>grows s t\<close>: \<open>t\<close> is \<open>s\<close> with operations appended; the account, the costs and the revision are untouched.\<close>

definition grows :: "paper_session \<Rightarrow> paper_session \<Rightarrow> bool" where
  "grows s t \<longleftrightarrow> (\<exists>new. ps_operations t = ps_operations s @ new) \<and> ps_account t = ps_account s \<and> ps_costs t = ps_costs s \<and>
     ps_revision t = ps_revision s \<and> lg_trade_date (ps_ledger t) = lg_trade_date (ps_ledger s)"

lemma grows_refl [simp]: "grows s s"
  by (simp add: grows_def)

lemma grows_append: "grows s t \<Longrightarrow> append_operation E t op = Inr u \<Longrightarrow> grows s u"
  using append_operation_fields [of E t op u] by (auto simp: grows_def)

text \<open>A committed transition: nothing changed, or a validated session one revision later.\<close>

definition advances :: "paper_env \<Rightarrow> paper_session \<Rightarrow> paper_session \<Rightarrow> bool" where
  "advances E s t \<longleftrightarrow> t = s \<or> ((\<exists>new. ps_operations t = ps_operations s @ new) \<and> ps_account t = ps_account s \<and>
     ps_costs t = ps_costs s \<and> ps_revision t = ps_revision s + 1 \<and> lg_trade_date (ps_ledger t) = lg_trade_date (ps_ledger s) \<and>
     PaperSession E t = Inr t)"

lemma finish_advances:
  assumes "grows s t" "finish E s (t\<lparr>ps_markets := ms\<rparr>) = Inr u"
  shows "advances E s u"
proof -
  have "u = s \<or> PaperSession E (t\<lparr>ps_markets := ms, ps_revision := ps_revision s + 1\<rparr>) = Inr u"
    using assms(2) by (auto simp: finish_def split: if_split_asm)
  then show ?thesis
  proof
    assume con: "PaperSession E (t\<lparr>ps_markets := ms, ps_revision := ps_revision s + 1\<rparr>) = Inr u"
    have "u = t\<lparr>ps_markets := ms, ps_revision := ps_revision s + 1\<rparr>" using con by (rule PaperSession_Inr)
    then show ?thesis using con assms(1) by (auto simp: advances_def grows_def)
  qed (simp add: advances_def)
qed

lemma finish_advances_plain: "grows s t \<Longrightarrow> finish E s t = Inr u \<Longrightarrow> advances E s u"
  using finish_advances [of s t E "ps_markets t" u] by simp

lemma expire_intent_grows: "grows s t \<Longrightarrow> expire_intent E at' t i = Inr u \<Longrightarrow> grows s u"
  by (auto simp: expire_intent_def Let_def rbind_eq_Inr intro: grows_append split: if_split_asm)

interpretation expiring: guarded_machine "expire_intent E at'" "grows s" "\<lambda>_. True"
  by unfold_locales (rule expire_intent_grows)

lemma match_intent_Inr:
  assumes "match_intent E m policy cx (res, b) i = Inr d"
  obtains (same) "d = (res, b)"
  | (event) e res' where "match_quote E i (session_events E res i) m policy cx (b (oi_action i)) = Inr (Some e)"
      "append_operation E res (EventOp e) = Inr res'" "oi_symbol i = pm_symbol m"
      "d = (res', case ev_fill_evidence e of None \<Rightarrow> b | Some f \<Rightarrow> b(oi_action i := b (oi_action i) - fe_filled_quantity f))"
proof (cases "oi_symbol i \<noteq> pm_symbol m \<or> oi_created_at i > pm_observed_at m")
  case True
  then show thesis using assms by (intro same) (auto simp: match_intent_def)
next
  case False
  then obtain found where found: "match_quote E i (session_events E res i) m policy cx (b (oi_action i)) = Inr found"
    using assms by (auto simp: match_intent_def rbind_eq_Inr)
  show thesis
  proof (cases found)
    case None
    then show thesis using assms found False by (intro same) (auto simp: match_intent_def)
  next
    case (Some e)
    then obtain res' where "append_operation E res (EventOp e) = Inr res'"
      "d = (res', case ev_fill_evidence e of None \<Rightarrow> b | Some f \<Rightarrow> b(oi_action i := b (oi_action i) - fe_filled_quantity f))"
      using assms found False by (auto simp: match_intent_def rbind_eq_Inr)
    with found Some False show thesis by (intro event) auto
  qed
qed

lemma match_intent_grows:
  assumes "grows s (fst c)" "match_intent E m policy cx c i = Inr d"
  shows "grows s (fst d)"
proof -
  obtain res b where c: "c = (res, b)" by (cases c)
  from assms(2) [unfolded c] show ?thesis
    by (cases rule: match_intent_Inr) (use assms(1) c in \<open>auto intro: grows_append\<close>)
qed

interpretation matching: guarded_machine "match_intent E m policy cx" "\<lambda>c. grows s (fst c)" "\<lambda>_. True"
  by unfold_locales (rule match_intent_grows)

lemma advances_refl [simp]: "advances E s s"
  by (simp add: advances_def)

lemma admit_plan_advances: "admit_plan E s plan = Inr t \<Longrightarrow> advances E s t"
  by (auto simp: admit_plan_def rbind_eq_Inr split: option.split_asm
      dest: grows_append [OF grows_append [OF grows_refl]] intro: finish_advances_plain)

lemma list_all_True [simp]: "list_all (\<lambda>_. True) xs"
  by (simp add: list_all_iff)

lemma advance_clock_advances: "advance_clock R s w = Inr t \<Longrightarrow> advances (rt_paper R) s t"
  by (auto simp: advance_clock_def rbind_eq_Inr intro!: finish_advances_plain intro: expiring.run_inv [OF grows_refl list_all_True])

lemma cancel_order_advances: "cancel_order R s i w reason = Inr t \<Longrightarrow> advances (rt_paper R) s t"
  by (auto simp: cancel_order_def Let_def rbind_eq_Inr split: if_split_asm
      intro: finish_advances_plain grows_append [OF grows_refl])

lemma process_quote_advances:
  assumes "process_quote R s m = Inr t"
  shows "advances (rt_paper R) s t"
proof (cases "t = s")
  case False
  let ?prev = "find (\<lambda>x. pm_symbol x = pm_symbol m) (ps_markets s)"
  obtain policy cx res b where run: "run_res (match_intent (rt_paper R) m policy cx) (s, quote_budgets ?prev m)
        (sort_key (quote_priority (rt_paper R)) (session_intents s)) = Inr (res, b)"
    and fin: "finish (rt_paper R) s (res\<lparr>ps_markets := sort_key pm_symbol (filter (\<lambda>x. pm_symbol x \<noteq> pm_symbol m) (ps_markets s) @ [m])\<rparr>) = Inr t"
    using assms False by (auto simp: process_quote_def Let_def rbind_eq_Inr split: if_split_asm option.split_asm)
  have "grows s (fst (res, b))" by (rule matching.run_inv [OF _ list_all_True run]) simp
  then show ?thesis using fin by (intro finish_advances) auto
qed (simp add: advances_def)

lemma submit_entry_advances: "submit_entry R s q rn = Inr t \<Longrightarrow> advances (rt_paper R) s t"
  by (auto simp: submit_entry_def Let_def rbind_eq_Inr split: if_split_asm option.split_asm
      intro: admit_plan_advances)

lemma submit_exit_advances: "submit_exit R s i m = Inr t \<Longrightarrow> advances (rt_paper R) s t"
  by (auto simp: submit_exit_def Let_def rbind_eq_Inr split: if_split_asm option.split_asm
      intro: admit_plan_advances)

lemma execute_advances: "execute R s c = Inr t \<Longrightarrow> advances (rt_paper R) s t"
  by (cases c) (simp_all add: submit_entry_advances submit_exit_advances advance_clock_advances cancel_order_advances
      process_quote_advances)

text \<open>What every session reached from \<open>s\<close> keeps.\<close>

definition descends :: "paper_env \<Rightarrow> paper_session \<Rightarrow> paper_session \<Rightarrow> bool" where
  "descends E s t \<longleftrightarrow> PaperSession E t = Inr t \<and> (\<exists>new. ps_operations t = ps_operations s @ new) \<and>
     ps_account t = ps_account s \<and> ps_costs t = ps_costs s \<and> lg_trade_date (ps_ledger t) = lg_trade_date (ps_ledger s) \<and>
     (t = s \<or> ps_revision s < ps_revision t)"

lemma execute_descends: "descends (rt_paper R) s t \<Longrightarrow> execute R t c = Inr u \<Longrightarrow> descends (rt_paper R) s u"
  by (drule execute_advances) (auto simp: advances_def descends_def)

interpretation commands: guarded_machine "execute R" "descends (rt_paper R) s" "\<lambda>_. True"
  by unfold_locales (rule execute_descends)

text \<open>C3: sessions are append-only. After any sequence of accepted commands (entries, exits, clock ticks, cancellations,
  quotes) the session is still one its constructor accepts, its operations extend the original ones, its account, costs
  and trading date are the original ones, and an unchanged revision means an unchanged session.\<close>

theorem sessions_append_only:
  assumes "PaperSession (rt_paper R) s = Inr s" and "run_res (execute R) s cs = Inr t"
  shows "PaperSession (rt_paper R) t = Inr t \<and> (\<exists>new. ps_operations t = ps_operations s @ new) \<and>
    ps_account t = ps_account s \<and> ps_costs t = ps_costs s \<and> lg_trade_date (ps_ledger t) = lg_trade_date (ps_ledger s) \<and>
    (t = s \<or> ps_revision s < ps_revision t)"
proof -
  have "descends (rt_paper R) s s" using assms(1) by (simp add: descends_def)
  then have "descends (rt_paper R) s t" using list_all_True assms(2) by (rule commands.run_inv)
  then show ?thesis by (simp add: descends_def)
qed

section \<open>The ledger of a session\<close>

fun op_filled :: "ledger_op \<Rightarrow> int" where
  "op_filled (SettleExit i st c) = os_cumulative_filled_quantity st"
| "op_filled _ = 0"

lemma reduce_state_nonneg: "reduce_paper_order E i es = Inr st \<Longrightarrow> 0 \<le> os_cumulative_filled_quantity st"
  by (erule order_state_reducer) simp

lemma replay_ledger_run:
  "run_res (replay_step E c) (initial_replay a l0) ops = Inr r \<Longrightarrow>
   \<exists>lops. run_res (ledger_step E) l0 lops = Inr (ry_ledger r) \<and> op_intent ` set lops \<subseteq> set (intents_of ops) \<and>
     (\<forall>op \<in> set lops. 0 \<le> op_filled op)"
proof (induction ops arbitrary: r rule: rev_induct)
  case Nil
  then show ?case by (intro exI [of _ "[]"]) (auto simp: initial_replay_def)
next
  case (snoc op ops)
  then obtain m where m: "run_res (replay_step E c) (initial_replay a l0) ops = Inr m" "replay_step E c m op = Inr r"
    by (auto simp: run_res_append rbind_eq_Inr)
  obtain lops where lops: "run_res (ledger_step E) l0 lops = Inr (ry_ledger m)" "op_intent ` set lops \<subseteq> set (intents_of ops)"
    "\<forall>op \<in> set lops. 0 \<le> op_filled op" using snoc.IH [OF m(1)] by blast
  note step = replay_step_Inr(2) [OF m(2)]
  obtain more where more: "run_res (ledger_step E) (ry_ledger m) more = Inr (ry_ledger r)"
    "op_intent ` set more \<subseteq> set (intents_of (ops @ [op]))" "\<forall>op \<in> set more. 0 \<le> op_filled op"
  proof (cases op)
    case (IntentOp i)
    have "ledger_step E (ry_ledger m) (reserve_op i) = Inr (ry_ledger r)"
      using step by (auto simp: IntentOp Let_def rbind_eq_Inr reserve_paper_step split: if_splits)
    then show thesis by (intro that [of "[reserve_op i]"]) (auto simp: IntentOp reserve_op_def)
  next
    case (EventOp e)
    obtain i state events where i: "ry_intents m (ev_intent_sha256 e) = Some i" "reduce_paper_order E i events = Inr state"
      "settle_terminal E c (ry_ledger m) i state = Inr (ry_ledger r)"
      using step by (auto simp: EventOp Let_def rbind_eq_Inr split: option.split_asm)
    have "i \<in> set (intents_of ops)"
      using replay_tracks [OF m(1)] i(1) by (auto simp: tracks_def dest: find_sha_Some(2))
    then show thesis using i reduce_state_nonneg [OF i(2)]
      by (intro that [of "settle_ops c i state"]) (auto simp: EventOp settle_terminal_run settle_ops_def split: if_splits)
  qed
  show ?case using lops more by (intro exI [of _ "lops @ more"]) (auto simp: run_res_append)
qed

lemma session_ledger_run:
  assumes "PaperSession E s = Inr s"
  obtains l0 lops where "initialize_paper_ledger E (ps_account s) (lg_trade_date (ps_ledger s)) = Inr l0"
    "run_res (ledger_step E) l0 lops = Inr (ps_ledger s)" "op_intent ` set lops \<subseteq> set (session_intents s)"
    "\<forall>op \<in> set lops. 0 \<le> op_filled op"
proof -
  obtain r where r: "replay_session E s = Inr r" "ry_ledger r = ps_ledger s" using assms by (rule PaperSession_Inr)
  then obtain l0 where l0: "initialize_paper_ledger E (ps_account s) (lg_trade_date (ps_ledger s)) = Inr l0"
    "run_res (replay_step E (ps_costs s)) (initial_replay (ps_account s) l0) (ps_operations s) = Inr r"
    by (auto simp: replay_session_def rbind_eq_Inr)
  obtain lops where "run_res (ledger_step E) l0 lops = Inr (ry_ledger r)" "op_intent ` set lops \<subseteq> set (intents_of (ps_operations s))"
    "\<forall>op \<in> set lops. 0 \<le> op_filled op" using replay_ledger_run [OF l0(2)] by blast
  with r(2) show thesis by (intro that [OF l0(1)]) (simp_all add: session_intents_def)
qed

lemma run_cost_nonneg:
  fixes cost :: "'s \<Rightarrow> 'e \<Rightarrow> 'm::ordered_comm_monoid_add"
  shows "(\<And>s e. e \<in> set es \<Longrightarrow> 0 \<le> cost s e) \<Longrightarrow> 0 \<le> run_cost step cost s es"
proof (induction es arbitrary: s)
  case (Cons e es)
  then have "0 \<le> cost s e" "0 \<le> run_cost step cost s' es" for s' by auto
  then show ?case by (auto split: sum.split intro: add_nonneg_nonneg)
qed simp

text \<open>C1: no session oversells. The ledger of every session that exists is well formed, its cash is not negative, and for
  every account position the quantity available or reserved for exits lies between zero and the settled quantity above the
  core minimum (for content hashes that tell the session's intents apart).\<close>

theorem session_never_oversells:
  assumes "PaperSession E s = Inr s" and "wf_account (ps_account s)" and "p \<in> set (ac_positions (ps_account s))"
    and "inj_on (pe_intent_sha E) (set (session_intents s))"
  shows "wf_ledger (ps_ledger s) \<and> 0 \<le> lg_available_cash_vnd (ps_ledger s) \<and> 0 \<le> inventory (ap_symbol p) (ps_ledger s) \<and>
    inventory (ap_symbol p) (ps_ledger s) \<le> ap_settled_qty p - ap_core_min_qty p"
proof -
  obtain l0 lops where l0: "initialize_paper_ledger E (ps_account s) (lg_trade_date (ps_ledger s)) = Inr l0"
    and run: "run_res (ledger_step E) l0 lops = Inr (ps_ledger s)" and sub: "op_intent ` set lops \<subseteq> set (session_intents s)"
    and pos: "\<forall>op \<in> set lops. 0 \<le> op_filled op" using assms(1) by (rule session_ledger_run)
  let ?I = "set (session_intents s)"
  have t0: "traced E ?I l0" using initialize_Inr(1,2) [OF l0] assms(4) by (simp add: traced_def)
  have ok: "list_all (\<lambda>op. op_intent op \<in> ?I) lops" using sub by (auto simp: list_all_iff)
  have wf: "wf_ledger (ps_ledger s)" using ledger_inventory.run_inv [OF t0 ok run] by (simp add: traced_def)
  have "0 \<le> run_cost (ledger_step E) (sold_quantity E (ap_symbol p)) l0 lops"
    by (rule run_cost_nonneg) (use pos in \<open>force simp: sold_quantity_def split: ledger_op.split\<close>)
  moreover have "inventory (ap_symbol p) (ps_ledger s) + run_cost (ledger_step E) (sold_quantity E (ap_symbol p)) l0 lops =
      ap_settled_qty p - ap_core_min_qty p"
    using ledger_inventory.run_total [OF t0 ok run] initial_inventory [OF l0 assms(3) wf_accountD(3) [OF assms(2)]] by simp
  ultimately show ?thesis using wf inventory_nonneg [OF wf] wf_ledger_facts(4) [OF wf] by simp
qed

section \<open>Quote liquidity\<close>

text \<open>What the fills of an operation list took from one side of the book.\<close>

definition side_fills :: "action \<Rightarrow> operation list \<Rightarrow> int" where
  "side_fills side ops = sum_list (map (\<lambda>op. case op of IntentOp _ \<Rightarrow> 0
     | EventOp e \<Rightarrow> (case ev_fill_evidence e of None \<Rightarrow> 0 | Some f \<Rightarrow> if fe_action f = side then fe_filled_quantity f else 0)) ops)"

definition budget_kept :: "paper_session \<Rightarrow> budgets \<Rightarrow> paper_session \<times> budgets \<Rightarrow> bool" where
  "budget_kept s b c \<longleftrightarrow> (\<forall>side. 0 \<le> snd c side \<and>
     snd c side + side_fills side (ps_operations (fst c)) = b side + side_fills side (ps_operations s))"

lemma match_quote_fill_budget:
  assumes "match_quote E i es m policy cx available = Inr (Some e)" "ev_fill_evidence e = Some f" "1 \<le> px_lot_size policy"
  shows "fe_filled_quantity f \<le> available" "fe_action f = oi_action i"
proof -
  obtain st k where st: "f = quote_fill i m (lot_quantity i st policy available) available" "PaperFillEvidence f = Inr f"
    using assms(1,2) by (rule match_quote_fill)
  show "fe_action f = oi_action i" by (simp add: st(1) quote_fill_def)
  show "fe_filled_quantity f \<le> available"
    using st by (auto simp: PaperFillEvidence_def quote_fill_def split: if_splits)
qed

lemma match_intent_budget:
  assumes "budget_kept s b c" "match_intent E m policy cx c i = Inr d"
  shows "budget_kept s b d"
proof -
  obtain res bud where c: "c = (res, bud)" by (cases c)
  from assms(2) [unfolded c] show ?thesis
  proof (cases rule: match_intent_Inr)
    case same
    then show ?thesis using assms(1) c by simp
  next
    case (event e res')
    have ops: "ps_operations res' = ps_operations res @ [EventOp e]" by (rule append_operation_fields(1) [OF event(2)])
    show ?thesis
    proof (cases "ev_fill_evidence e")
      case None
      then show ?thesis using assms(1) event ops by (simp add: c budget_kept_def side_fills_def)
    next
      case (Some f)
      obtain st k where f: "f = quote_fill i m (lot_quantity i st policy (bud (oi_action i))) (bud (oi_action i))" "PaperFillEvidence f = Inr f"
        using event(1) Some by (rule match_quote_fill)
      then have "fe_action f = oi_action i" "fe_filled_quantity f \<le> bud (oi_action i)"
        by (auto simp: PaperFillEvidence_def quote_fill_def split: if_splits)
      then show ?thesis using assms(1) event(4) ops Some by (auto simp: c budget_kept_def side_fills_def)
    qed
  qed
qed

interpretation quote_budget: guarded_machine "match_intent E m policy cx" "budget_kept s b" "\<lambda>_. True"
  by unfold_locales (rule match_intent_budget)

lemma process_quote_run:
  assumes "process_quote R s m = Inr t" "t \<noteq> s"
  obtains policy cx res b where
    "run_res (match_intent (rt_paper R) m policy cx) (s, quote_budgets (find (\<lambda>x. pm_symbol x = pm_symbol m) (ps_markets s)) m)
        (sort_key (quote_priority (rt_paper R)) (session_intents s)) = Inr (res, b)"
    "finish (rt_paper R) s (res\<lparr>ps_markets := sort_key pm_symbol (filter (\<lambda>x. pm_symbol x \<noteq> pm_symbol m) (ps_markets s) @ [m])\<rparr>) = Inr t"
  using assms by (auto simp: process_quote_def Let_def rbind_eq_Inr split: if_split_asm option.split_asm)

lemma finish_operations:
  assumes "finish E s u = Inr t"
  shows "ps_operations t = ps_operations u" "t = s \<or> ps_markets t = ps_markets u"
proof -
  have "ps_operations t = ps_operations u \<and> (t = s \<or> ps_markets t = ps_markets u)"
  proof (cases "u = s")
    case False
    then have con: "PaperSession E (u\<lparr>ps_revision := ps_revision s + 1\<rparr>) = Inr t" using assms by (simp add: finish_def)
    have "t = u\<lparr>ps_revision := ps_revision s + 1\<rparr>" using con by (rule PaperSession_Inr)
    then show ?thesis by simp
  qed (use assms in \<open>auto simp: finish_def\<close>)
  then show "ps_operations t = ps_operations u" "t = s \<or> ps_markets t = ps_markets u" by auto
qed

text \<open>C7: a quote never gives out more than it shows. All orders together take at most the displayed quantity of the side from
  one quote, and when the price is unchanged since the previous quote of the symbol, at most the increase of the quantity:
  an unchanged book is not counted as new liquidity.\<close>

theorem quote_liquidity_bounded:
  assumes "process_quote R s m = Inr t"
    and "list_all (\<lambda>x. 0 \<le> pm_best_ask_quantity x \<and> 0 \<le> pm_best_bid_quantity x) (m # ps_markets s)"
    and "previous = find (\<lambda>x. pm_symbol x = pm_symbol m) (ps_markets s)"
  shows "side_fills BUY (ps_operations t) - side_fills BUY (ps_operations s) \<le> pm_best_ask_quantity m \<and>
    side_fills SELL (ps_operations t) - side_fills SELL (ps_operations s) \<le> pm_best_bid_quantity m \<and>
    (\<forall>p. previous = Some p \<and> pm_best_ask_price p = pm_best_ask_price m \<longrightarrow>
       side_fills BUY (ps_operations t) - side_fills BUY (ps_operations s) \<le> max 0 (pm_best_ask_quantity m - pm_best_ask_quantity p)) \<and>
    (\<forall>p. previous = Some p \<and> pm_best_bid_price p = pm_best_bid_price m \<longrightarrow>
       side_fills SELL (ps_operations t) - side_fills SELL (ps_operations s) \<le> max 0 (pm_best_bid_quantity m - pm_best_bid_quantity p))"
proof -
  have qty: "0 \<le> pm_best_ask_quantity x" "0 \<le> pm_best_bid_quantity x" if "x = m \<or> previous = Some x" for x
    using assms(2,3) that by (auto simp: list_all_iff find_Some_iff)
  have nonneg: "0 \<le> quote_budgets previous m side" for side
    using qty [of m] by (auto simp: quote_budgets_def split: action.split option.split)
  have all: "side_fills side (ps_operations t) - side_fills side (ps_operations s) \<le> quote_budgets previous m side" for side
  proof (cases "t = s")
    case False
    obtain policy cx res b where run: "run_res (match_intent (rt_paper R) m policy cx) (s, quote_budgets previous m)
        (sort_key (quote_priority (rt_paper R)) (session_intents s)) = Inr (res, b)"
      and fin: "finish (rt_paper R) s (res\<lparr>ps_markets := sort_key pm_symbol (filter (\<lambda>x. pm_symbol x \<noteq> pm_symbol m) (ps_markets s) @ [m])\<rparr>) = Inr t"
      using process_quote_run [OF assms(1) False] assms(3) by blast
    have "budget_kept s (quote_budgets previous m) (s, quote_budgets previous m)" using nonneg by (simp add: budget_kept_def)
    then have "budget_kept s (quote_budgets previous m) (res, b)" using list_all_True run by (rule quote_budget.run_inv)
    then have "0 \<le> b side" "b side + side_fills side (ps_operations res) = quote_budgets previous m side + side_fills side (ps_operations s)"
      by (simp_all add: budget_kept_def)
    moreover have "ps_operations t = ps_operations res" using finish_operations(1) [OF fin] by simp
    ultimately show ?thesis by simp
  qed (simp add: nonneg)
  have "quote_budgets previous m BUY \<le> pm_best_ask_quantity m" "quote_budgets previous m SELL \<le> pm_best_bid_quantity m"
    using qty by (auto simp: quote_budgets_def split: option.split)
  moreover have "quote_budgets previous m BUY = max 0 (pm_best_ask_quantity m - pm_best_ask_quantity p)"
    if "previous = Some p" "pm_best_ask_price p = pm_best_ask_price m" for p
    using that by (simp add: quote_budgets_def)
  moreover have "quote_budgets previous m SELL = max 0 (pm_best_bid_quantity m - pm_best_bid_quantity p)"
    if "previous = Some p" "pm_best_bid_price p = pm_best_bid_price m" for p
    using that by (simp add: quote_budgets_def)
  ultimately show ?thesis using all [of BUY] all [of SELL] by (metis order_trans)
qed

section \<open>The clock\<close>

lemma append_event_other:
  assumes "append_operation E s (EventOp e) = Inr t" "ev_intent_sha256 e \<noteq> pe_intent_sha E j"
  shows "session_events E t j = session_events E s j"
  using assms(2) by (simp add: session_events_def append_operation_fields(1) [OF assms(1)])

lemma append_event_intents: "append_operation E s (EventOp e) = Inr t \<Longrightarrow> session_intents t = session_intents s"
  by (simp add: session_intents_def append_operation_fields(1))

definition closed_at :: "paper_env \<Rightarrow> instant \<Rightarrow> paper_session \<Rightarrow> order_intent \<Rightarrow> bool" where
  "closed_at E u s i \<longleftrightarrow> (\<exists>st. reduce_paper_order E i (session_events E s i) = Inr st \<and>
     (terminal (os_status st) \<or> u < oi_expires_at i))"

lemma lifecycle_event_intent: "lifecycle_event E i es k w r f = Inr e \<Longrightarrow> ev_intent_sha256 e = pe_intent_sha E i"
  by (erule lifecycle_event_Inr) simp

lemma expire_intent_closes:
  assumes "expire_intent E u s i = Inr t"
  shows "closed_at E u t i" "session_intents t = session_intents s"
    "pe_intent_sha E j \<noteq> pe_intent_sha E i \<Longrightarrow> session_events E t j = session_events E s j"
    "closed_at E u s i \<Longrightarrow> t = s"
proof -
  obtain st where st: "reduce_paper_order E i (session_events E s i) = Inr st"
    using assms by (auto simp: expire_intent_def Let_def rbind_eq_Inr)
  show "closed_at E u s i \<Longrightarrow> t = s"
    using assms st by (auto simp: expire_intent_def Let_def closed_at_def)
  consider "terminal (os_status st) \<or> u < oi_expires_at i" "t = s"
    | e where "lifecycle_event E i (session_events E s i) EXPIRED_EVENT (Aware u) (Some ''TIME_IN_FORCE'') None = Inr e"
      "append_operation E s (EventOp e) = Inr t"
    using assms st by (auto simp: expire_intent_def Let_def rbind_eq_Inr split: if_split_asm)
  then have "closed_at E u t i \<and> session_intents t = session_intents s \<and>
      (pe_intent_sha E j \<noteq> pe_intent_sha E i \<longrightarrow> session_events E t j = session_events E s j)"
  proof cases
    case 1
    then show ?thesis using st by (auto simp: closed_at_def)
  next
    case (2 e)
    have sha: "ev_intent_sha256 e = pe_intent_sha E i" by (rule lifecycle_event_intent [OF 2(1)])
    obtain st' where st': "reduce_paper_order E i (session_events E s i @ [e]) = Inr st'" and k: "ev_event_type e = EXPIRED_EVENT"
      by (rule lifecycle_event_Inr [OF 2(1)]) (auto intro: that)
    have "session_events E t i = session_events E s i @ [e]"
      by (simp add: session_events_def append_operation_fields(1) [OF 2(2)] sha)
    moreover have "os_status st' = EXPIRED"
    proof (rule reduce_paper_order_Inr [OF st'])
      fix rd
      assume "run_res (reduce_step E i) (initial_reducer i) (session_events E s i @ [e]) = Inr rd" "os_status st' = rd_status rd"
      then show ?thesis by (auto simp: k run_res_append rbind_eq_Inr dest!: reduce_step_Inr(6))
    qed
    ultimately show ?thesis using st' sha append_event_intents [OF 2(2)] append_event_other [OF 2(2), of j]
      by (auto simp: closed_at_def terminal_def)
  qed
  then show "closed_at E u t i" "session_intents t = session_intents s"
    "pe_intent_sha E j \<noteq> pe_intent_sha E i \<Longrightarrow> session_events E t j = session_events E s j" by auto
qed

lemma run_expire_intents: "run_res (expire_intent E u) s is = Inr t \<Longrightarrow> session_intents t = session_intents s"
  by (induction "is" arbitrary: s) (auto simp: rbind_eq_Inr dest: expire_intent_closes(2))

lemma run_expire_closes:
  assumes "run_res (expire_intent E u) s is = Inr t" "inj_on (pe_intent_sha E) (set js)" "set is \<subseteq> set js"
    "i \<in> set js" "i \<in> set is \<or> closed_at E u s i"
  shows "closed_at E u t i"
  using assms
proof (induction "is" arbitrary: s)
  case (Cons k ks)
  then obtain m where m: "expire_intent E u s k = Inr m" "run_res (expire_intent E u) m ks = Inr t"
    by (auto simp: rbind_eq_Inr)
  have "i \<in> set ks \<or> closed_at E u m i"
  proof (cases "i = k")
    case True
    then show ?thesis using expire_intent_closes(1) [OF m(1)] by simp
  next
    case False
    then have "pe_intent_sha E i \<noteq> pe_intent_sha E k" using Cons.prems by (auto dest: inj_onD)
    then have "session_events E m i = session_events E s i" by (rule expire_intent_closes(3) [OF m(1)])
    then show ?thesis using Cons.prems(5) False by (auto simp: closed_at_def)
  qed
  then show ?case using Cons.IH [OF m(2)] Cons.prems by simp
qed simp

text \<open>C8: the clock leaves nothing open past its deadline. When a clock tick is accepted, every order of the session is terminal
  or its deadline lies after the tick, and a second tick at the same time changes nothing (for content hashes that tell the
  session's intents apart).\<close>

theorem clock_closes_expired:
  assumes "advance_clock R s (Aware u) = Inr t" and "inj_on (pe_intent_sha (rt_paper R)) (set (session_intents s))"
  shows "(\<forall>i \<in> set (session_intents t). \<exists>st. reduce_paper_order (rt_paper R) i (session_events (rt_paper R) t i) = Inr st \<and>
      (terminal (os_status st) \<or> u < oi_expires_at i)) \<and> advance_clock R t (Aware u) = Inr t"
proof -
  let ?E = "rt_paper R"
  obtain m where m: "run_res (expire_intent ?E u) s (session_intents s) = Inr m" and fin: "finish ?E s m = Inr t"
    using assms(1) by (auto simp: advance_clock_def rbind_eq_Inr)
  have ops: "ps_operations t = ps_operations m" by (rule finish_operations(1) [OF fin])
  have same: "session_intents m = session_intents s" by (rule run_expire_intents [OF m])
  have closed: "closed_at ?E u t i" if "i \<in> set (session_intents s)" for i
    using run_expire_closes [OF m assms(2) order_refl that] that ops by (simp add: closed_at_def session_events_def)
  have ints: "session_intents t = session_intents s" using same ops by (simp add: session_intents_def)
  have again: "run_res (expire_intent ?E u) t is = Inr t" if "set is \<subseteq> set (session_intents s)" for "is"
    using that
  proof (induction "is")
    case (Cons i js)
    then have c: "closed_at ?E u t i" using closed by simp
    then have "expire_intent ?E u t i = Inr t" by (auto simp: closed_at_def expire_intent_def Let_def)
    with Cons show ?case by simp
  qed simp
  show ?thesis using closed again [of "session_intents t"]
    by (simp add: ints closed_at_def advance_clock_def finish_def)
qed

section \<open>Resubmission\<close>

lemma admit_plan_intent:
  assumes "admit_plan E s plan = Inr t"
  obtains i where "pl_intent plan = Some i" "i \<in> set (session_intents t)"
proof -
  obtain i m e n where i: "pl_intent plan = Some i" "append_operation E s (IntentOp i) = Inr m"
    "append_operation E m (EventOp e) = Inr n" "finish E s n = Inr t"
    using assms by (auto simp: admit_plan_def rbind_eq_Inr split: option.split_asm)
  have "ps_operations t = ps_operations s @ [IntentOp i, EventOp e]"
    using finish_operations(1) [OF i(4)] append_operation_fields(1) [OF i(3)] append_operation_fields(1) [OF i(2)] by simp
  then show thesis using i(1) by (intro that [of i]) (simp_all add: session_intents_def)
qed

text \<open>C9: entry submission is idempotent. Submitting an accepted request again, with the same readiness, leaves the session as
  it is, although the ledger the request was planned on has moved on.\<close>

theorem resubmission_changes_nothing:
  assumes "submit_entry R s request readiness = Inr t"
  shows "submit_entry R t request readiness = Inr t"
proof (cases "t = s")
  case False
  let ?E = "rt_paper R"
  obtain lineage where mode: "rn_mode readiness = PAPER" "rn_research_lineage readiness = Some lineage"
    and adm: "check_admission R s request readiness lineage = Inr ()"
    using assms False by (auto simp: submit_entry_def Let_def rbind_eq_Inr split: if_split_asm option.split_asm)
  obtain policy arbitration cx gate plan where plan: "plan_paper_order ?E (rt_promotion R) request policy arbitration cx gate = Inr plan"
    "admit_plan ?E s plan = Inr t"
    using assms False by (auto simp: submit_entry_def Let_def rbind_eq_Inr split: if_split_asm option.split_asm)
  obtain i where i: "pl_intent plan = Some i" "i \<in> set (session_intents t)" using plan(2) by (rule admit_plan_intent)
  obtain priority where "i = entry_intent ?E request policy priority" using plan(1) i(1) by (rule plan_entry_ready)
  then have "oi_leg i = ENTRY" "oi_arbitration_sha256 i = pe_arbitration_sha ?E (rq_arbitration request)"
    by (simp_all add: entry_intent_def Let_def)
  then have "already_planned ?E t request" using i(2) by (auto simp: already_planned_def list_ex_iff)
  moreover have "check_admission R t request readiness lineage = Inr ()"
  proof -
    have "ps_account t = ps_account s" "ps_costs t = ps_costs s" "lg_trade_date (ps_ledger t) = lg_trade_date (ps_ledger s)"
      using submit_entry_advances [OF assms] False by (auto simp: advances_def)
    then have "check_admission R t request readiness lineage = check_admission R s request readiness lineage"
      by (simp only: check_admission_def)
    with adm show ?thesis by simp
  qed
  ultimately show ?thesis using mode by (simp add: submit_entry_def Let_def)
qed (use assms in simp)

section \<open>A sample session\<close>

definition sample_runtime :: runtime_env where
  "sample_runtime = \<lparr>rt_paper = sample_env, rt_promotion = sample_digests, rt_lineage = sample_lineage_digests,
     rt_local_date = \<lambda>_ t. t div (86400 * second_us), rt_configuration = sample_configuration None None\<rparr>"

definition sample_admission :: execution_request where
  "sample_admission = sample_request\<lparr>rq_candidate := (rq_candidate sample_request)
     \<lparr>bc_context_configuration_sha256 := Some (replicate 64 (CHR ''7''))\<rparr>\<rparr>"

definition sample_readiness :: readiness where
  "sample_readiness = \<lparr>rn_trade_date = 7, rn_previous_session = 6, rn_mode = PAPER, rn_reason = ''PROMOTION_PASS'',
     rn_promotion = Some sample_report, rn_research_lineage = Some \<lparr>rl_baseline_version = BASELINE_VERSION,
       rl_arbitration_configuration_sha256 = replicate 64 (CHR ''2''), rl_feature_configuration_sha256 = replicate 64 (CHR ''7''),
       rl_context_configuration_sha256 = replicate 64 (CHR ''7''), rl_outcome_configuration_sha256 = replicate 64 (CHR ''7''),
       rl_cost_policy_sha256 = replicate 64 (CHR ''7'')\<rparr>\<rparr>"

definition sample_paper :: paper_session where
  "sample_paper = \<lparr>ps_account = sample_account, ps_costs = sample_costs, ps_ledger = sample_ledger, ps_revision = 0,
     ps_operations = [], ps_markets = []\<rparr>"

text \<open>Submit an entry, fill a lot from a quote, and let the clock expire the rest.\<close>

abbreviation sample_commands :: "command list" where
  "sample_commands \<equiv> [SubmitEntry sample_admission sample_readiness,
     ProcessQuote ((sample_snapshot (sample_open + second_us) 5)\<lparr>pm_best_ask_quantity := 150\<rparr>),
     AdvanceClock (Aware (sample_open + 40 * second_us))]"

lemma sample_paper_computed: "case PaperSession sample_env sample_paper of Inl _ \<Rightarrow> False | Inr _ \<Rightarrow> True"
  by code_simp

lemma sample_commands_computed:
  "case run_res (execute sample_runtime) sample_paper sample_commands of Inl _ \<Rightarrow> False
   | Inr t \<Rightarrow> ps_revision t = 3 \<and> length (ps_operations t) = 4 \<and> lg_available_cash_vnd (ps_ledger t) = 94995000 \<and>
       inventory ''VIC'' (ps_ledger t) = 800 \<and> length (session_intents t) = 1"
  by code_simp

lemma sample_paper_valid: "PaperSession sample_env sample_paper = Inr sample_paper"
proof -
  obtain t where t: "PaperSession sample_env sample_paper = Inr t" using case_res_True [OF sample_paper_computed] by blast
  moreover have "t = sample_paper" using t by (rule PaperSession_Inr)
  ultimately show ?thesis by simp
qed

lemma sample_runtime_paper [simp]: "rt_paper sample_runtime = sample_env"
  by (simp add: sample_runtime_def)

lemma sample_commands_run:
  obtains a b t where "submit_entry sample_runtime sample_paper sample_admission sample_readiness = Inr a"
    "process_quote sample_runtime a ((sample_snapshot (sample_open + second_us) 5)\<lparr>pm_best_ask_quantity := 150\<rparr>) = Inr b"
    "advance_clock sample_runtime b (Aware (sample_open + 40 * second_us)) = Inr t"
    "ps_revision t = 3" "length (ps_operations t) = 4" "lg_available_cash_vnd (ps_ledger t) = 94995000" "inventory ''VIC'' (ps_ledger t) = 800"
  using case_res_True [OF sample_commands_computed] by (auto simp: rbind_eq_Inr)

theorem sessions_append_only_witness:
  "\<exists>t. run_res (execute sample_runtime) sample_paper sample_commands = Inr t \<and> PaperSession sample_env t = Inr t \<and>
     ps_revision t = 3 \<and> length (ps_operations t) = 4 \<and> ps_account t = sample_account"
proof -
  from case_res_True [OF sample_commands_computed] obtain t where t: "run_res (execute sample_runtime) sample_paper sample_commands = Inr t"
    "ps_revision t = 3" "length (ps_operations t) = 4" by (elim exE conjE)
  have v: "PaperSession (rt_paper sample_runtime) sample_paper = Inr sample_paper" using sample_paper_valid by simp
  from sessions_append_only [OF v t(1)] t show ?thesis by (auto simp: sample_paper_def)
qed

theorem incremental_ledger_reconciles_witness:
  "\<exists>t. run_res (append_operation sample_env) sample_paper [IntentOp sample_order, EventOp (hd sample_accepted)] = Inr t \<and>
     (\<forall>r. replay_session sample_env t = Inr r \<longrightarrow> ry_ledger r = ps_ledger t)"
proof -
  have "case run_res (append_operation sample_env) sample_paper [IntentOp sample_order, EventOp (hd sample_accepted)] of Inl _ \<Rightarrow> False
      | Inr t \<Rightarrow> True" by code_simp
  from case_res_True [OF this] obtain t where
    t: "run_res (append_operation sample_env) sample_paper [IntentOp sample_order, EventOp (hd sample_accepted)] = Inr t" by blast
  from incremental_ledger_reconciles [OF sample_paper_valid t] t show ?thesis by blast
qed

lemma submit_entry_markets:
  assumes "submit_entry R s q rn = Inr t"
  shows "ps_markets t = ps_markets s"
proof (cases "t = s")
  case False
  then obtain plan where "admit_plan (rt_paper R) s plan = Inr t"
    using assms by (auto simp: submit_entry_def Let_def rbind_eq_Inr split: if_split_asm option.split_asm)
  then obtain i m e n where i: "append_operation (rt_paper R) s (IntentOp i) = Inr m"
    "append_operation (rt_paper R) m (EventOp e) = Inr n" "finish (rt_paper R) s n = Inr t"
    by (auto simp: admit_plan_def rbind_eq_Inr split: option.split_asm)
  then show ?thesis
    using finish_operations(2) [OF i(3)] append_operation_fields(5) [OF i(1)] append_operation_fields(5) [OF i(2)] by auto
qed simp

lemma sample_entry_computed:
  "case submit_entry sample_runtime sample_paper sample_admission sample_readiness of Inl _ \<Rightarrow> False
   | Inr a \<Rightarrow> length (session_intents a) = 1 \<and> ps_revision a = 1 \<and> (case process_quote sample_runtime a
       ((sample_snapshot (sample_open + second_us) 5)\<lparr>pm_best_ask_quantity := 150\<rparr>) of Inl _ \<Rightarrow> False
       | Inr b \<Rightarrow> length (session_intents b) = 1)"
  by code_simp

lemma sample_single_intent:
  assumes "submit_entry sample_runtime sample_paper sample_admission sample_readiness = Inr a"
    "process_quote sample_runtime a ((sample_snapshot (sample_open + second_us) 5)\<lparr>pm_best_ask_quantity := 150\<rparr>) = Inr b"
  shows "\<exists>i. session_intents b = [i]"
  using sample_entry_computed assms by (simp add: length_Suc_conv)

theorem session_never_oversells_witness:
  "\<exists>t. run_res (execute sample_runtime) sample_paper sample_commands = Inr t \<and> length (ps_operations t) = 4 \<and>
     wf_ledger (ps_ledger t) \<and> inventory ''VIC'' (ps_ledger t) \<le> 800"
proof -
  from case_res_True [OF sample_commands_computed] obtain t where t: "run_res (execute sample_runtime) sample_paper sample_commands = Inr t"
    "length (ps_operations t) = 4" "length (session_intents t) = 1" by (elim exE conjE)
  have "descends (rt_paper sample_runtime) sample_paper sample_paper" using sample_paper_valid by (simp add: descends_def)
  then have "descends (rt_paper sample_runtime) sample_paper t" using list_all_True t(1) by (rule commands.run_inv)
  then have v: "PaperSession sample_env t = Inr t" "ps_account t = sample_account" by (simp_all add: descends_def sample_paper_def)
  have p: "hd (ac_positions sample_account) \<in> set (ac_positions (ps_account t))"
    using v(2) by (simp add: sample_account_def)
  have acc: "wf_account (ps_account t)" using sample_account_valid v(2) by simp
  have "inj_on (pe_intent_sha sample_env) (set (session_intents t))" using t(3) by (auto simp: length_Suc_conv)
  from session_never_oversells [OF v(1) acc p this] t show ?thesis by (auto simp: sample_account_def)
qed

theorem quote_liquidity_bounded_witness:
  "\<exists>a b. process_quote sample_runtime a ((sample_snapshot (sample_open + second_us) 5)\<lparr>pm_best_ask_quantity := 150\<rparr>) = Inr b \<and>
     side_fills BUY (ps_operations b) - side_fills BUY (ps_operations a) \<le> 150"
proof (rule sample_commands_run)
  fix a b t
  assume a: "submit_entry sample_runtime sample_paper sample_admission sample_readiness = Inr a"
    and b: "process_quote sample_runtime a ((sample_snapshot (sample_open + second_us) 5)\<lparr>pm_best_ask_quantity := 150\<rparr>) = Inr b"
  have "ps_markets a = []"
    using submit_entry_markets [OF a] by (simp add: sample_paper_def)
  then have "list_all (\<lambda>x. 0 \<le> pm_best_ask_quantity x \<and> 0 \<le> pm_best_bid_quantity x)
      ((sample_snapshot (sample_open + second_us) 5)\<lparr>pm_best_ask_quantity := 150\<rparr> # ps_markets a)"
    by (simp add: sample_snapshot_def)
  from quote_liquidity_bounded [OF b this refl] b show ?thesis by (auto simp: sample_snapshot_def)
qed

theorem clock_closes_expired_witness:
  "\<exists>b t. advance_clock sample_runtime b (Aware (sample_open + 40 * second_us)) = Inr t \<and> length (ps_operations t) = 4 \<and>
     advance_clock sample_runtime t (Aware (sample_open + 40 * second_us)) = Inr t"
proof (rule sample_commands_run)
  fix a b t
  assume run: "submit_entry sample_runtime sample_paper sample_admission sample_readiness = Inr a"
    "process_quote sample_runtime a ((sample_snapshot (sample_open + second_us) 5)\<lparr>pm_best_ask_quantity := 150\<rparr>) = Inr b"
    and t: "advance_clock sample_runtime b (Aware (sample_open + 40 * second_us)) = Inr t" "length (ps_operations t) = 4"
  have "inj_on (pe_intent_sha sample_env) (set (session_intents b))"
    using sample_single_intent [OF run] by auto
  then have "inj_on (pe_intent_sha (rt_paper sample_runtime)) (set (session_intents b))" by simp
  from clock_closes_expired [OF t(1) this] t show ?thesis by blast
qed

theorem resubmission_changes_nothing_witness:
  "\<exists>a. submit_entry sample_runtime sample_paper sample_admission sample_readiness = Inr a \<and> a \<noteq> sample_paper \<and>
     submit_entry sample_runtime a sample_admission sample_readiness = Inr a"
proof (rule sample_commands_run)
  fix a b t
  assume a: "submit_entry sample_runtime sample_paper sample_admission sample_readiness = Inr a"
  have "ps_revision a = 1" using sample_entry_computed a by simp
  then have "a \<noteq> sample_paper" by (auto simp: sample_paper_def)
  with resubmission_changes_nothing [OF a] a show ?thesis by blast
qed

end
