(* ===== verification/PaperStore.thy ===== *)
theory PaperStore
  imports PaperSessions
begin

text \<open>
  \<^verbatim>\<open>t0_trading/execution/postgres.py\<close> and the \<^verbatim>\<open>PaperRuntime\<close> class of \<^verbatim>\<open>runtime.py\<close>. A \<open>database\<close> holds the rows of one
  repository key: the checkpoint of \<^verbatim>\<open>paper_sessions\<close> (revision, digest, state) and the rows of \<^verbatim>\<open>paper_operations\<close>. A
  transaction that raises on the server leaves it as it was. The unique
  constraints of the two tables are those of the schema (\<^verbatim>\<open>infra/runtime/postgres/bootstrap/t0_trading.sql\<close>). JSON texts are
  represented by the values they encode.

  A transaction is atomic, but the caller may not learn its fate: the connection can fail before the transaction or after the
  server committed it. Each call therefore runs over a \<open>connection\<close>, which says what happens to it, and a commit returns the
  database it leaves beside its result.

  The runtime is written against the \<^verbatim>\<open>PaperRepository\<close> protocol: the locale \<open>paper_repository\<close> states what it relies on,
  and the PostgreSQL repository interprets it.
\<close>

section \<open>The PostgreSQL repository\<close>

record database =
  db_checkpoint :: "(int \<times> string \<times> paper_session) option"
  db_log :: "(int \<times> string \<times> operation) list"

record repository =
  rs_paper :: paper_env
  rs_session_sha :: "paper_session \<Rightarrow> string"
  rs_key :: "date \<times> string"

fun operation_sha :: "paper_env \<Rightarrow> operation \<Rightarrow> string" where
  "operation_sha E (IntentOp i) = pe_intent_sha E i"
| "operation_sha E (EventOp e) = pe_event_sha E e"

definition validate_key :: "repository \<Rightarrow> paper_session \<Rightarrow> unit res" where
  "validate_key P s = (if (lg_trade_date (ps_ledger s), pe_account_sha (rs_paper P) (ps_account s)) \<noteq> rs_key P
     then Inl (ValueError ''paper repository session key mismatch'') else Inr ())"

definition numbered_operations :: "paper_env \<Rightarrow> int \<Rightarrow> operation list \<Rightarrow> (int \<times> string \<times> operation) list" where
  "numbered_operations E start ops = map (\<lambda>(n, op). (start + int n, operation_sha E op, op)) (enumerate 0 ops)"

definition load_checkpoint :: "repository \<Rightarrow> database \<Rightarrow> paper_session res" where
  "load_checkpoint P db = (case db_checkpoint db of
     None \<Rightarrow> Inl LookupError
   | Some (_, sha, state) \<Rightarrow>
       rbind (PaperSession (rs_paper P) state) (\<lambda>session.
       rbind (validate_key P session) (\<lambda>_.
       if rs_session_sha P session \<noteq> sha then Inl (ValueError ''paper checkpoint checksum mismatch'')
       else let rows = sort_key fst (filter (\<lambda>row. fst row \<le> int (length (ps_operations session))) (db_log db)) in
       if length rows \<noteq> length (ps_operations session) then Inl (ValueError ''paper operation log is incomplete'')
       else if rows \<noteq> numbered_operations (rs_paper P) 1 (ps_operations session)
       then Inl (ValueError ''paper checkpoint and operation log disagree'')
       else Inr session)))"

definition initialize_checkpoint :: "repository \<Rightarrow> database \<Rightarrow> paper_session \<Rightarrow> database res" where
  "initialize_checkpoint P db session =
     rbind (validate_key P session) (\<lambda>_.
     rbind (PaperSession (rs_paper P) session) (\<lambda>_.
     if ps_revision session \<noteq> 0 \<or> ps_operations session \<noteq> [] \<or> ps_markets session \<noteq> []
     then Inl (ValueError ''paper repository initialization requires an empty revision zero'')
     else let db' = (case db_checkpoint db of
            None \<Rightarrow> db\<lparr>db_checkpoint := Some (ps_revision session, rs_session_sha P session, session)\<rparr> | Some _ \<Rightarrow> db) in
     rbind (load_checkpoint P db') (\<lambda>existing.
     if ps_account existing \<noteq> ps_account session \<or> ps_costs existing \<noteq> ps_costs session then Inl PaperConflict else Inr db')))"

definition insert_operation :: "database \<Rightarrow> int \<times> string \<times> operation \<Rightarrow> database res" where
  "insert_operation db row =
     (if fst row \<in> fst ` set (db_log db) \<or> fst (snd row) \<in> (fst \<circ> snd) ` set (db_log db)
      then Inl (RuntimeError ''unique violation'') else Inr (db\<lparr>db_log := db_log db @ [row]\<rparr>))"

definition commit_checkpoint :: "repository \<Rightarrow> database \<Rightarrow> paper_session \<Rightarrow> paper_session \<Rightarrow> database res" where
  "commit_checkpoint P db previous current =
     rbind (validate_key P previous) (\<lambda>_.
     rbind (validate_key P current) (\<lambda>_.
     rbind (PaperSession (rs_paper P) current) (\<lambda>_.
     let n = length (ps_operations previous) in
     if ps_revision current \<noteq> ps_revision previous + 1 \<or> ps_account current \<noteq> ps_account previous \<or>
        ps_costs current \<noteq> ps_costs previous \<or> take n (ps_operations current) \<noteq> ps_operations previous
     then Inl (ValueError ''paper commit must preserve its immutable operation prefix'')
     else if (case db_checkpoint db of None \<Rightarrow> False
              | Some (revision, sha, _) \<Rightarrow> revision = ps_revision previous \<and> sha = rs_session_sha P previous)
     then run_res insert_operation
            (db\<lparr>db_checkpoint := Some (ps_revision current, rs_session_sha P current, current)\<rparr>)
            (numbered_operations (rs_paper P) (int n + 1) (drop n (ps_operations current)))
     else rbind (load_checkpoint P db) (\<lambda>stored. if stored = current then Inr db else Inl PaperConflict))))"

section \<open>Connections\<close>

text \<open>What the driver reports: everything, a failure before the load, a failure before the transaction commits, or a lost response to
  a transaction that the server committed. The driver's own exceptions are represented by \<open>RuntimeError\<close>.\<close>

datatype connection = Connected | LoadLost | RequestLost | ResponseLost

abbreviation connection_error :: py_error where "connection_error \<equiv> RuntimeError ''connection failure''"

definition load_through :: "repository \<Rightarrow> connection \<Rightarrow> database \<Rightarrow> paper_session res" where
  "load_through P w db = (if w = LoadLost then Inl connection_error else load_checkpoint P db)"

definition commit_through :: "repository \<Rightarrow> connection \<Rightarrow> database \<Rightarrow> paper_session \<Rightarrow> paper_session \<Rightarrow> database \<times> unit res" where
  "commit_through P w db previous current =
     (case commit_checkpoint P db previous current of
        Inl e \<Rightarrow> (db, Inl e)
      | Inr db' \<Rightarrow> if w = RequestLost then (db, Inl connection_error)
                   else if w = ResponseLost then (db', Inl connection_error) else (db', Inr ()))"

section \<open>The runtime\<close>

datatype runtime_status = COMMITTED | NO_CHANGE | PLAN_BLOCKED | OBSERVED | ERROR

record runtime_result =
  rr_status :: runtime_status
  rr_reason :: string
  rr_block_reasons :: "string list"
  rr_state_sha256 :: "string option"

definition runtime_outcome :: "runtime_status \<Rightarrow> string \<Rightarrow> string list \<Rightarrow> string option \<Rightarrow> runtime_result" where
  "runtime_outcome status reason blocks sha = \<lparr>rr_status = status, rr_reason = reason, rr_block_reasons = blocks, rr_state_sha256 = sha\<rparr>"

fun runtime_failure :: "py_error \<Rightarrow> runtime_result" where
  "runtime_failure (PaperOrderBlocked reasons) = runtime_outcome PLAN_BLOCKED ''PLANNER_BLOCKED'' reasons None"
| "runtime_failure e = runtime_outcome ERROR (error_name e) [] None"

text \<open>\<^verbatim>\<open>_run\<close> over any repository: its loading and committing operations are arguments.\<close>

type_synonym 'db load_operation = "'db \<Rightarrow> paper_session res"
type_synonym 'db commit_operation = "'db \<Rightarrow> paper_session \<Rightarrow> paper_session \<Rightarrow> 'db \<times> unit res"

definition runtime_run ::
  "'db load_operation \<Rightarrow> 'db commit_operation \<Rightarrow> (paper_session \<Rightarrow> string) \<Rightarrow> (paper_session \<Rightarrow> paper_session res) \<Rightarrow> 'db \<Rightarrow>
   'db \<times> runtime_result" where
  "runtime_run load commit sha transition db =
     (case rbind (load db) (\<lambda>previous. rbind (transition previous) (\<lambda>state. Inr (previous, state))) of
        Inl e \<Rightarrow> (db, runtime_failure e)
      | Inr (previous, state) \<Rightarrow>
          if state \<noteq> previous
          then (let (db', r) = commit db previous state in
                (db', case r of Inl e \<Rightarrow> runtime_failure e | Inr _ \<Rightarrow> runtime_outcome COMMITTED ''PAPER_ONLY'' [] (Some (sha state))))
          else (db, runtime_outcome NO_CHANGE ''IDEMPOTENT_OR_NOT_APPLICABLE'' [] (Some (sha state))))"

text \<open>The public methods; \<open>enabled\<close> is the constructor argument.\<close>

fun runtime_call ::
  "'db load_operation \<Rightarrow> 'db commit_operation \<Rightarrow> (paper_session \<Rightarrow> string) \<Rightarrow> runtime_env \<Rightarrow> bool \<Rightarrow> 'db \<Rightarrow> command \<Rightarrow>
   'db \<times> runtime_result" where
  "runtime_call load commit sha R enabled db (SubmitEntry request readiness) =
     (if \<not> enabled \<or> rn_mode readiness \<noteq> PAPER
      then (db, runtime_outcome OBSERVED (if enabled then rn_reason readiness else ''PAPER_DISABLED'') [] None)
      else runtime_run load commit sha (\<lambda>s. submit_entry R s request readiness) db)"
| "runtime_call load commit sha R enabled db (ProcessQuote market) =
     (if \<not> enabled then (db, runtime_outcome OBSERVED ''PAPER_DISABLED'' [] None)
      else runtime_run load commit sha (\<lambda>s. process_quote R s market) db)"
| "runtime_call load commit sha R enabled db (AdvanceClock when) = runtime_run load commit sha (\<lambda>s. advance_clock R s when) db"
| "runtime_call load commit sha R enabled db (SubmitExit entry market) =
     (if \<not> enabled then (db, runtime_outcome OBSERVED ''PAPER_DISABLED'' [] None)
      else runtime_run load commit sha (\<lambda>s. submit_exit R s entry market) db)"
| "runtime_call load commit sha R enabled db (CancelOrder intent when reason) =
     runtime_run load commit sha (\<lambda>s. cancel_order R s intent when reason) db"

section \<open>The repository contract\<close>

text \<open>What the runtime relies on: \<open>content\<close> is the session a database holds, whatever the connection does.\<close>

locale paper_repository =
  fixes load :: "'db load_operation" and commit :: "'db commit_operation" and content :: "'db \<Rightarrow> paper_session res"
    and valid :: "'db \<Rightarrow> bool" and E :: paper_env
  assumes load_content: "load db = Inr s \<Longrightarrow> content db = Inr s"
    and content_valid: "valid db \<Longrightarrow> content db = Inr s \<Longrightarrow> PaperSession E s = Inr s"
    and commit_outcome: "valid db \<Longrightarrow> content db = Inr s \<Longrightarrow> commit db s t = (db', r) \<Longrightarrow>
      (db' = db \<and> (\<exists>e. r = Inl e)) \<or> (valid db' \<and> content db' = Inr t)"
begin

lemma run_cases:
  assumes "runtime_run load commit sha transition db = (db', r)"
  obtains (tried) s t o' where "load db = Inr s" "transition s = Inr t" "t \<noteq> s" "commit db s t = (db', o')"
    "r = (case o' of Inl e \<Rightarrow> runtime_failure e | Inr _ \<Rightarrow> runtime_outcome COMMITTED ''PAPER_ONLY'' [] (Some (sha t)))"
  | (kept) "db' = db" "rr_status r \<noteq> COMMITTED"
proof -
  have failure: "rr_status (runtime_failure e) \<noteq> COMMITTED" for e by (cases e) (simp_all add: runtime_outcome_def)
  show thesis
  proof (cases "rbind (load db) (\<lambda>previous. rbind (transition previous) (\<lambda>state. Inr (previous, state)))")
    case (Inl e)
    then show thesis using assms failure by (intro kept) (auto simp: runtime_run_def)
  next
    case (Inr x)
    then obtain s t where st: "load db = Inr s" "transition s = Inr t" "x = (s, t)" by (auto simp: rbind_eq_Inr)
    show thesis
    proof (cases "t = s")
      case True
      then show thesis using assms Inr st by (intro kept) (auto simp: runtime_run_def runtime_outcome_def)
    next
      case False
      obtain d o' where "commit db s t = (d, o')" by (rule prod.exhaust)
      then show thesis using assms Inr st False by (intro tried [of s t o']) (auto simp: runtime_run_def Let_def)
    qed
  qed
qed

lemma call_cases:
  assumes "runtime_call load commit sha R enabled db c = (db', r)"
  obtains (tried) s t o' where "load db = Inr s" "execute R s c = Inr t" "t \<noteq> s" "commit db s t = (db', o')"
    "r = (case o' of Inl e \<Rightarrow> runtime_failure e | Inr _ \<Rightarrow> runtime_outcome COMMITTED ''PAPER_ONLY'' [] (Some (sha t)))"
  | (kept) "db' = db" "rr_status r \<noteq> COMMITTED"
proof -
  consider "runtime_run load commit sha (\<lambda>s. execute R s c) db = (db', r)" | "db' = db" "rr_status r \<noteq> COMMITTED"
    using assms by (cases c) (auto simp: runtime_outcome_def split: if_split_asm)
  then show thesis
  proof cases
    case 1
    then show thesis by (rule run_cases) (auto intro: tried kept)
  qed (rule kept)
qed

text \<open>Whatever is called and whatever the connection does, the stored session descends from the one stored before.\<close>

lemma call_descends:
  assumes "valid db" "content db = Inr s" "rt_paper R = E" "runtime_call load commit sha R enabled db c = (db', r)"
  shows "valid db'" "\<exists>t. content db' = Inr t \<and> descends E s t"
proof -
  have v: "PaperSession E s = Inr s" using assms(1,2) by (rule content_valid)
  then have refl: "descends E s s" by (simp add: descends_def)
  from assms(4) have "valid db' \<and> (\<exists>t. content db' = Inr t \<and> descends E s t)"
  proof (cases rule: call_cases)
    case (tried s' t o')
    then have "s' = s" using assms(2) load_content [OF tried(1)] by simp
    then have "descends E s t" using execute_descends [of R s s c t] tried(2) assms(3) refl by simp
    then show ?thesis using commit_outcome [OF assms(1,2)] tried(4) \<open>s' = s\<close> assms(1,2) refl by blast
  next
    case kept
    then show ?thesis using assms(1,2) refl by auto
  qed
  then show "valid db'" "\<exists>t. content db' = Inr t \<and> descends E s t" by blast+
qed

end

section \<open>The PostgreSQL repository keeps the contract\<close>

lemma numbered_operations_append:
  "numbered_operations E n (a @ b) = numbered_operations E n a @ numbered_operations E (n + int (length a)) b"
  by (rule nth_equalityI) (auto simp: numbered_operations_def nth_enumerate_eq nth_append)

lemma numbered_operations_keys: "map fst (numbered_operations E n ops) = map (\<lambda>k. n + int k) [0..<length ops]"
  by (auto simp: numbered_operations_def nth_enumerate_eq intro!: nth_equalityI)

definition checkpoint_of :: "repository \<Rightarrow> database \<Rightarrow> paper_session \<Rightarrow> bool" where
  "checkpoint_of P db s \<longleftrightarrow> db_checkpoint db = Some (ps_revision s, rs_session_sha P s, s) \<and> PaperSession (rs_paper P) s = Inr s \<and>
     validate_key P s = Inr () \<and> db_log db = numbered_operations (rs_paper P) 1 (ps_operations s)"

definition valid_db :: "repository \<Rightarrow> database \<Rightarrow> bool" where
  "valid_db P db \<longleftrightarrow> (\<exists>s. checkpoint_of P db s)"

lemma load_checkpoint_of:
  assumes "checkpoint_of P db s"
  shows "load_checkpoint P db = Inr s"
proof -
  let ?rows = "numbered_operations (rs_paper P) 1 (ps_operations s)"
  have "filter (\<lambda>row. fst row \<le> int (length (ps_operations s))) ?rows = ?rows"
    by (auto simp: filter_id_conv numbered_operations_def in_set_enumerate_eq)
  moreover have "sort_key fst ?rows = ?rows"
    by (rule sort_key_id_if_sorted) (auto simp: numbered_operations_keys sorted_iff_nth_mono)
  moreover have "length ?rows = length (ps_operations s)" by (simp add: numbered_operations_def)
  ultimately show ?thesis using assms by (simp add: checkpoint_of_def load_checkpoint_def)
qed

lemma insert_operations_Inr:
  "run_res insert_operation db rows = Inr db' \<Longrightarrow> db_log db' = db_log db @ rows \<and> db_checkpoint db' = db_checkpoint db"
  by (induction rows arbitrary: db) (auto simp: rbind_eq_Inr insert_operation_def split: if_splits)

lemma commit_checkpoint_Inr:
  assumes "commit_checkpoint P db s t = Inr db'"
  shows "PaperSession (rs_paper P) t = Inr t" "validate_key P t = Inr ()" "ps_revision t = ps_revision s + 1"
    "take (length (ps_operations s)) (ps_operations t) = ps_operations s"
    "(case db_checkpoint db of None \<Rightarrow> False | Some (n, sha, _) \<Rightarrow> n = ps_revision s \<and> sha = rs_session_sha P s) \<Longrightarrow>
       run_res insert_operation (db\<lparr>db_checkpoint := Some (ps_revision t, rs_session_sha P t, t)\<rparr>)
         (numbered_operations (rs_paper P) (int (length (ps_operations s)) + 1) (drop (length (ps_operations s)) (ps_operations t))) = Inr db'"
    "\<not> (case db_checkpoint db of None \<Rightarrow> False | Some (n, sha, _) \<Rightarrow> n = ps_revision s \<and> sha = rs_session_sha P s) \<Longrightarrow>
       load_checkpoint P db = Inr t \<and> db' = db"
proof -
  note c = assms [unfolded commit_checkpoint_def Let_def rbind_eq_Inr if_Inl_eq_Inr]
  obtain u where "PaperSession (rs_paper P) t = Inr u" using c by blast
  moreover from this have "u = t" by (rule PaperSession_Inr)
  ultimately show "PaperSession (rs_paper P) t = Inr t" by simp
  show "validate_key P t = Inr ()" "ps_revision t = ps_revision s + 1"
    "take (length (ps_operations s)) (ps_operations t) = ps_operations s" using c by auto
  show "(case db_checkpoint db of None \<Rightarrow> False | Some (n, sha, _) \<Rightarrow> n = ps_revision s \<and> sha = rs_session_sha P s) \<Longrightarrow>
       run_res insert_operation (db\<lparr>db_checkpoint := Some (ps_revision t, rs_session_sha P t, t)\<rparr>)
         (numbered_operations (rs_paper P) (int (length (ps_operations s)) + 1) (drop (length (ps_operations s)) (ps_operations t))) = Inr db'"
    using c by auto
  show "\<not> (case db_checkpoint db of None \<Rightarrow> False | Some (n, sha, _) \<Rightarrow> n = ps_revision s \<and> sha = rs_session_sha P s) \<Longrightarrow>
       load_checkpoint P db = Inr t \<and> db' = db"
    using c by (auto simp: rbind_eq_Inr split: if_split_asm)
qed

lemma commit_checkpoint_of:
  assumes "checkpoint_of P db s" "commit_checkpoint P db s t = Inr db'"
  shows "checkpoint_of P db' t"
proof -
  note c = commit_checkpoint_Inr [OF assms(2)]
  have run: "run_res insert_operation (db\<lparr>db_checkpoint := Some (ps_revision t, rs_session_sha P t, t)\<rparr>)
      (numbered_operations (rs_paper P) (int (length (ps_operations s)) + 1) (drop (length (ps_operations s)) (ps_operations t))) = Inr db'"
    using c(5) assms(1) by (simp add: checkpoint_of_def)
  have "db_log db' = numbered_operations (rs_paper P) 1 (ps_operations s) @
      numbered_operations (rs_paper P) (1 + int (length (ps_operations s))) (drop (length (ps_operations s)) (ps_operations t))"
    using insert_operations_Inr [OF run] assms(1) by (simp add: checkpoint_of_def add.commute)
  also have "\<dots> = numbered_operations (rs_paper P) 1 (ps_operations s @ drop (length (ps_operations s)) (ps_operations t))"
    by (simp add: numbered_operations_append)
  also have "ps_operations s @ drop (length (ps_operations s)) (ps_operations t) = ps_operations t"
    using c(4) append_take_drop_id by metis
  finally show ?thesis using insert_operations_Inr [OF run] c(1,2) by (simp add: checkpoint_of_def)
qed

lemma commit_through_checkpoint:
  assumes "checkpoint_of P db s" "commit_through P w db s t = (db', r)"
  shows "(db' = db \<and> (\<exists>e. r = Inl e)) \<or> checkpoint_of P db' t"
  using assms commit_checkpoint_of [OF assms(1)] by (auto simp: commit_through_def split: sum.splits if_splits)

interpretation postgres: paper_repository "load_through P w" "commit_through P w" "load_checkpoint P" "valid_db P" "rs_paper P"
proof
  show "load_checkpoint P db = Inr s" if "load_through P w db = Inr s" for db s
    using that by (auto simp: load_through_def split: if_splits)
next
  fix db s t db' r
  assume v: "valid_db P db" and l: "load_checkpoint P db = Inr s"
  from v obtain u where u: "checkpoint_of P db u" by (auto simp: valid_db_def)
  then have "u = s" using load_checkpoint_of [OF u] l by simp
  then show "PaperSession (rs_paper P) s = Inr s" using u by (simp add: checkpoint_of_def)
  assume "commit_through P w db s t = (db', r)"
  then show "(db' = db \<and> (\<exists>e. r = Inl e)) \<or> (valid_db P db' \<and> load_checkpoint P db' = Inr t)"
    using commit_through_checkpoint [of P db s w t db' r] u \<open>u = s\<close> load_checkpoint_of unfolding valid_db_def by blast
qed

section \<open>What the runtime guarantees\<close>

text \<open>The repository of the sample session.\<close>

definition sample_repository :: repository where
  "sample_repository = \<lparr>rs_paper = sample_env, rs_session_sha = \<lambda>s. replicate 63 (CHR ''c'') @ (if ps_revision s = 0 then ''0'' else ''1''),
     rs_key = (7, replicate 64 (CHR ''3''))\<rparr>"

definition empty_db :: database where
  "empty_db = \<lparr>db_checkpoint = None, db_log = []\<rparr>"

definition sample_db :: database where
  "sample_db = \<lparr>db_checkpoint = Some (0, replicate 63 (CHR ''c'') @ ''0'', sample_paper), db_log = []\<rparr>"

lemma sample_db_valid: "checkpoint_of sample_repository sample_db sample_paper"
  using sample_paper_valid
  by (simp add: checkpoint_of_def sample_repository_def sample_db_def validate_key_def sample_paper_def sample_ledger_def
      sample_env_def numbered_operations_def)

text \<open>C23: what is committed is what is loaded. Committing a session on a valid database and loading again returns exactly that
  session, with an operation log that extends the previous log and lists its operations in order.\<close>

theorem commit_then_load:
  assumes "valid_db P db" and "load_checkpoint P db = Inr s" and "commit_checkpoint P db s t = Inr db'"
  shows "load_checkpoint P db' = Inr t \<and> db_log db' = numbered_operations (rs_paper P) 1 (ps_operations t) \<and>
    (\<exists>new. db_log db' = db_log db @ new)"
proof -
  obtain u where u: "checkpoint_of P db u" using assms(1) by (auto simp: valid_db_def)
  then have s: "checkpoint_of P db s" using load_checkpoint_of [OF u] assms(2) by simp
  have t: "checkpoint_of P db' t" using s assms(3) by (rule commit_checkpoint_of)
  have "ps_operations t = ps_operations s @ drop (length (ps_operations s)) (ps_operations t)"
    using commit_checkpoint_Inr(4) [OF assms(3)] append_take_drop_id by metis
  then have "\<exists>new. db_log db' = db_log db @ new"
    using s t numbered_operations_append unfolding checkpoint_of_def by metis
  then show ?thesis using load_checkpoint_of [OF t] t by (simp add: checkpoint_of_def)
qed

text \<open>C5: two writers cannot both win. Once a session was committed over the state both writers loaded, a second commit from that
  state succeeds only as a retry of the very same session, and then it changes nothing; every other commit raises.\<close>

theorem concurrent_commit_conflicts:
  assumes "valid_db P db" and "load_checkpoint P db = Inr s" and "commit_checkpoint P db s t = Inr db'"
    and "commit_checkpoint P db' s u = Inr db''"
  shows "u = t \<and> db'' = db'"
proof -
  obtain v where v: "checkpoint_of P db v" using assms(1) by (auto simp: valid_db_def)
  then have s: "checkpoint_of P db s" using load_checkpoint_of [OF v] assms(2) by simp
  have t: "checkpoint_of P db' t" using s assms(3) by (rule commit_checkpoint_of)
  have "ps_revision t = ps_revision s + 1" by (rule commit_checkpoint_Inr(3) [OF assms(3)])
  then have "\<not> (case db_checkpoint db' of None \<Rightarrow> False | Some (n, sha, _) \<Rightarrow> n = ps_revision s \<and> sha = rs_session_sha P s)"
    using t by (simp add: checkpoint_of_def)
  then have "load_checkpoint P db' = Inr u" "db'' = db'" using commit_checkpoint_Inr(6) [OF assms(4)] by auto
  then show ?thesis using load_checkpoint_of [OF t] by simp
qed

text \<open>A lost response is safe: retrying the very same transition on the database it left is accepted and changes nothing.\<close>

lemma commit_retry:
  assumes "checkpoint_of P db s" "commit_checkpoint P db s t = Inr db'"
  shows "commit_checkpoint P db' s t = Inr db'"
proof -
  have t: "checkpoint_of P db' t" using assms by (rule commit_checkpoint_of)
  have "ps_revision t = ps_revision s + 1" by (rule commit_checkpoint_Inr(3) [OF assms(2)])
  then have other: "\<not> (case db_checkpoint db' of None \<Rightarrow> False | Some (n, sha, _) \<Rightarrow> n = ps_revision s \<and> sha = rs_session_sha P s)"
    using t by (simp add: checkpoint_of_def)
  obtain u v w where guards: "validate_key P s = Inr u" "validate_key P t = Inr v" "PaperSession (rs_paper P) t = Inr w"
      "\<not> (ps_revision t \<noteq> ps_revision s + 1 \<or> ps_account t \<noteq> ps_account s \<or> ps_costs t \<noteq> ps_costs s \<or>
         take (length (ps_operations s)) (ps_operations t) \<noteq> ps_operations s)"
    using assms(2) unfolding commit_checkpoint_def Let_def rbind_eq_Inr if_Inl_eq_Inr by blast
  have same: "rbind (load_checkpoint P db') (\<lambda>stored. if stored = t then Inr db' else Inl PaperConflict) = Inr db'"
    using load_checkpoint_of [OF t] by simp
  show ?thesis
    unfolding commit_checkpoint_def Let_def guards(1-3) rbind_Inr if_not_P [OF guards(4)] if_not_P [OF other] by (rule same)
qed

text \<open>C6: acknowledgement and persistence, over a connection that may fail. A runtime call reports COMMITTED only when its command
  produced a different session and that session is now the stored one, whose digest it reports. Any other outcome leaves the
  database as it was, blocked plans and exceptions included, with one exception: a call whose commit response was lost reports
  ERROR although its session was stored; then exactly that session is stored, and repeating the same commit succeeds without
  changing anything.\<close>

theorem acknowledged_iff_persisted:
  assumes "valid_db P db"
    and "runtime_call (load_through P w) (commit_through P w) (rs_session_sha P) R enabled db c = (db', r)"
  shows "(rr_status r = COMMITTED \<longrightarrow> (\<exists>s t. load_checkpoint P db = Inr s \<and> execute R s c = Inr t \<and> t \<noteq> s \<and>
      load_checkpoint P db' = Inr t \<and> rr_state_sha256 r = Some (rs_session_sha P t))) \<and>
    (rr_status r \<noteq> COMMITTED \<and> db' \<noteq> db \<longrightarrow> rr_status r = ERROR \<and> w = ResponseLost \<and>
      (\<exists>s t. load_checkpoint P db = Inr s \<and> execute R s c = Inr t \<and> load_checkpoint P db' = Inr t \<and>
        commit_checkpoint P db' s t = Inr db'))"
  using assms(2)
proof (cases rule: postgres.call_cases)
  case (tried s t o')
  obtain v where v: "checkpoint_of P db v" using assms(1) by (auto simp: valid_db_def)
  have loaded: "load_checkpoint P db = Inr s" using tried(1) by (rule postgres.load_content)
  then have s: "checkpoint_of P db s" using v load_checkpoint_of [OF v] by simp
  show ?thesis
  proof (cases "commit_checkpoint P db s t")
    case (Inl e)
    then have "db' = db" "o' = Inl e" using tried(4) by (simp_all add: commit_through_def)
    moreover have "rr_status (runtime_failure e) \<noteq> COMMITTED" by (cases e) (simp_all add: runtime_outcome_def)
    ultimately show ?thesis using tried(5) by simp
  next
    case (Inr d)
    have t: "load_checkpoint P d = Inr t" "commit_checkpoint P d s t = Inr d"
      using load_checkpoint_of [OF commit_checkpoint_of [OF s Inr]] commit_retry [OF s Inr] by simp_all
    show ?thesis
      using tried(2-5) Inr t loaded by (cases w) (auto simp: commit_through_def runtime_outcome_def error_name.simps)
  qed
qed simp

lemma initialize_checkpoint_loads:
  assumes "initialize_checkpoint P db s = Inr db'"
  shows "db_checkpoint db = None \<Longrightarrow> db_log db = [] \<Longrightarrow> checkpoint_of P db' s" "db_checkpoint db \<noteq> None \<Longrightarrow> db' = db"
proof -
  note i = assms [unfolded initialize_checkpoint_def Let_def rbind_eq_Inr if_Inl_eq_Inr]
  obtain u where "PaperSession (rs_paper P) s = Inr u" "validate_key P s = Inr ()" "ps_operations s = []" using i by auto
  moreover from this(1) have "u = s" by (rule PaperSession_Inr)
  ultimately show "db_checkpoint db = None \<Longrightarrow> db_log db = [] \<Longrightarrow> checkpoint_of P db' s"
    using i by (auto simp: checkpoint_of_def numbered_operations_def)
  show "db_checkpoint db \<noteq> None \<Longrightarrow> db' = db" using i by auto
qed

text \<open>A schedule of calls: the connection each runs over, whether paper trading is enabled, and the command.\<close>

definition runtime_calls :: "repository \<Rightarrow> runtime_env \<Rightarrow> database \<Rightarrow> (connection \<times> bool \<times> command) list \<Rightarrow> database" where
  "runtime_calls P R = foldl (\<lambda>db (w, enabled, c).
     fst (runtime_call (load_through P w) (commit_through P w) (rs_session_sha P) R enabled db c))"

lemma runtime_calls_descend:
  assumes "valid_db P db" "load_checkpoint P db = Inr u" "descends (rs_paper P) s u" "rt_paper R = rs_paper P"
  shows "valid_db P (runtime_calls P R db cs) \<and> (\<exists>t. load_checkpoint P (runtime_calls P R db cs) = Inr t \<and> descends (rs_paper P) s t)"
  using assms(1-3)
proof (induction cs arbitrary: db u)
  case (Cons x cs)
  obtain w enabled c where x: "x = (w, enabled, c)" by (rule prod_cases3)
  obtain db1 r where call: "runtime_call (load_through P w) (commit_through P w) (rs_session_sha P) R enabled db c = (db1, r)"
    by (rule prod.exhaust)
  note step = postgres.call_descends [OF Cons.prems(1,2) assms(4) call]
  from step(2) obtain t where t: "load_checkpoint P db1 = Inr t" "descends (rs_paper P) u t" by blast
  have "descends (rs_paper P) s t" using Cons.prems(3) t(2) by (auto simp: descends_def)
  from Cons.IH [OF step(1) t(1) this] show ?case by (simp add: runtime_calls_def x call)
qed (auto simp: runtime_calls_def)

text \<open>C4: the stored session survives every schedule. After any sequence of runtime calls, enabled or not and over connections that may
  fail before or after a commit, the repository still
  loads a session its constructor accepts; it has the account, costs and date of the original, its operations extend the
  original ones, and the operation log is exactly its list of operations.\<close>

theorem stored_session_survives:
  assumes "valid_db P db" and "load_checkpoint P db = Inr s" and "rt_paper R = rs_paper P"
  shows "\<exists>t. load_checkpoint P (runtime_calls P R db cs) = Inr t \<and> PaperSession (rs_paper P) t = Inr t \<and>
    (\<exists>new. ps_operations t = ps_operations s @ new) \<and> ps_account t = ps_account s \<and> ps_costs t = ps_costs s \<and>
    lg_trade_date (ps_ledger t) = lg_trade_date (ps_ledger s) \<and>
    db_log (runtime_calls P R db cs) = numbered_operations (rs_paper P) 1 (ps_operations t)"
proof -
  have "descends (rs_paper P) s s" using postgres.content_valid [OF assms(1,2)] by (simp add: descends_def)
  from runtime_calls_descend [OF assms(1,2) this assms(3), of cs]
  obtain t where t: "valid_db P (runtime_calls P R db cs)" "load_checkpoint P (runtime_calls P R db cs) = Inr t"
    "descends (rs_paper P) s t" by blast
  then obtain u where u: "checkpoint_of P (runtime_calls P R db cs) u" by (auto simp: valid_db_def)
  have "u = t" using load_checkpoint_of [OF u] t(2) by simp
  with u t show ?thesis by (auto simp: checkpoint_of_def descends_def)
qed

section \<open>Witnesses\<close>

lemma sample_db_loads: "valid_db sample_repository sample_db" "load_checkpoint sample_repository sample_db = Inr sample_paper"
  using sample_db_valid load_checkpoint_of by (auto simp: valid_db_def)

theorem stored_session_survives_witness:
  "\<exists>t. load_checkpoint sample_repository (runtime_calls sample_repository sample_runtime sample_db
       [(ResponseLost, True, hd sample_commands), (Connected, False, AdvanceClock (Naive 0))]) = Inr t \<and> ps_account t = sample_account"
  using stored_session_survives [OF sample_db_loads, of sample_runtime "[(ResponseLost, True, hd sample_commands), (Connected, False, AdvanceClock (Naive 0))]"]
  by (auto simp: sample_repository_def sample_paper_def)

lemma sample_commit_computed:
  "case submit_entry sample_runtime sample_paper sample_admission sample_readiness of Inl _ \<Rightarrow> False
   | Inr a \<Rightarrow> (case commit_checkpoint sample_repository sample_db sample_paper a of Inl _ \<Rightarrow> False | Inr _ \<Rightarrow> True)"
  by code_simp

lemma sample_commit:
  obtains a db' where "submit_entry sample_runtime sample_paper sample_admission sample_readiness = Inr a"
    "commit_checkpoint sample_repository sample_db sample_paper a = Inr db'"
  using case_res_True [OF sample_commit_computed] by (auto dest: case_res_True)

theorem commit_then_load_witness:
  "\<exists>a db'. commit_checkpoint sample_repository sample_db sample_paper a = Inr db' \<and> load_checkpoint sample_repository db' = Inr a"
proof (rule sample_commit)
  fix a db'
  assume c: "commit_checkpoint sample_repository sample_db sample_paper a = Inr db'"
  from commit_then_load [OF sample_db_loads c] c show ?thesis by blast
qed

theorem concurrent_commit_conflicts_witness:
  "\<exists>a db'. commit_checkpoint sample_repository sample_db sample_paper a = Inr db' \<and>
     (\<exists>e. commit_checkpoint sample_repository db' sample_paper (a\<lparr>ps_markets := [sample_quote]\<rparr>) = Inl e)"
proof (rule sample_commit)
  fix a db'
  assume a: "submit_entry sample_runtime sample_paper sample_admission sample_readiness = Inr a"
    and c: "commit_checkpoint sample_repository sample_db sample_paper a = Inr db'"
  let ?u = "a\<lparr>ps_markets := [sample_quote]\<rparr>"
  have "ps_markets a = []" using submit_entry_markets [OF a] by (simp add: sample_paper_def)
  then have "?u \<noteq> a" by (metis paper_session.select_convs(6) paper_session.surjective paper_session.update_convs(6) list.distinct(1))
  then have "commit_checkpoint sample_repository db' sample_paper ?u \<noteq> Inr db''" for db''
    using concurrent_commit_conflicts [OF sample_db_loads c, of ?u db''] by blast
  then have "\<exists>e. commit_checkpoint sample_repository db' sample_paper ?u = Inl e"
    by (cases "commit_checkpoint sample_repository db' sample_paper ?u") auto
  with c show ?thesis by blast
qed

theorem acknowledged_iff_persisted_witness:
  "\<exists>db' r t. runtime_call (load_through sample_repository Connected) (commit_through sample_repository Connected) (rs_session_sha sample_repository)
      sample_runtime True sample_db (SubmitEntry sample_admission sample_readiness) = (db', r) \<and> rr_status r = COMMITTED \<and>
     load_checkpoint sample_repository db' = Inr t \<and> ps_revision t = 1"
proof (rule sample_commit)
  fix a db'
  assume a: "submit_entry sample_runtime sample_paper sample_admission sample_readiness = Inr a"
    and c: "commit_checkpoint sample_repository sample_db sample_paper a = Inr db'"
  let ?call = "runtime_call (load_through sample_repository Connected) (commit_through sample_repository Connected) (rs_session_sha sample_repository)
      sample_runtime True sample_db (SubmitEntry sample_admission sample_readiness)"
  have rev: "ps_revision a = 1" using sample_entry_computed a by simp
  then have "a \<noteq> sample_paper" by (auto simp: sample_paper_def)
  moreover have "rn_mode sample_readiness = PAPER" by (simp add: sample_readiness_def)
  ultimately have call: "?call = (db', snd ?call)" "rr_status (snd ?call) = COMMITTED"
    using a c sample_db_loads(2) by (simp_all add: runtime_run_def runtime_outcome_def load_through_def commit_through_def)
  from acknowledged_iff_persisted [OF sample_db_loads(1) call(1)] call(2) sample_db_loads(2) a
  have "load_checkpoint sample_repository db' = Inr a" by auto
  with call rev show ?thesis by blast
qed

end
