(* ===== verification/MarketClock.thy ===== *)
theory MarketClock
  imports Configuration
begin

text \<open>
  \<^verbatim>\<open>t0_trading/market/session.py\<close>: exchange-local session classification against the configured schedule.

  The timezone database is data outside the program: a \<^verbatim>\<open>ZoneInfo\<close> is a record of its two conversions, an
  instant to the local date and time of day (microseconds since midnight), and back. \<open>fixed_zone\<close> states
  what the conversions do for a zone with a constant offset, which Asia/Ho_Chi_Minh is since 1975.
\<close>

section \<open>Zones\<close>

abbreviation day_us :: int where "day_us \<equiv> 86400000000"

text \<open>The ordinal of 1970-01-01, where instants start.\<close>

abbreviation epoch_day :: date where "epoch_day \<equiv> 719163"

record zone_info =
  zn_local :: "instant \<Rightarrow> date \<times> int"
  zn_instant :: "date \<Rightarrow> int \<Rightarrow> instant"

definition offset_zone :: "int \<Rightarrow> zone_info" where
  "offset_zone offset = \<lparr>zn_local = (\<lambda>t. (epoch_day + (t + offset) div day_us, (t + offset) mod day_us)),
     zn_instant = (\<lambda>d u. (d - epoch_day) * day_us + u - offset)\<rparr>"

definition fixed_zone :: "zone_info \<Rightarrow> bool" where
  "fixed_zone z = (\<exists>offset. z = offset_zone offset)"

section \<open>Sessions\<close>

datatype market_session =
    MS_PRE_OPEN
  | MS_OPENING_AUCTION
  | MS_CONTINUOUS_AM
  | MS_LUNCH_BREAK
  | MS_CONTINUOUS_PM
  | MS_CLOSING_AUCTION
  | MS_CLOSED

definition TRADE_SESSIONS :: "market_session list" where
  "TRADE_SESSIONS = [MS_OPENING_AUCTION, MS_CONTINUOUS_AM, MS_CONTINUOUS_PM, MS_CLOSING_AUCTION]"

definition trading_window :: "zone_info \<Rightarrow> session_schedule \<Rightarrow> date \<Rightarrow> instant \<times> instant" where
  "trading_window z schedule trade_date =
     (zn_instant z trade_date (tm_us (fst (opening_auction schedule))),
      zn_instant z trade_date (tm_us (snd (closing_auction schedule))))"

definition covers_trading_window ::
  "zone_info \<Rightarrow> session_schedule \<Rightarrow> date \<Rightarrow> pydatetime \<Rightarrow> pydatetime \<Rightarrow> bool res" where
  "covers_trading_window z schedule trade_date connected_at disconnected_at =
     rbind (to_utc ''timestamp must be timezone-aware'' connected_at) (\<lambda>connected.
     rbind (to_utc ''timestamp must be timezone-aware'' disconnected_at) (\<lambda>disconnected.
     if disconnected < connected then Inl (ValueError ''connection timestamps are not ordered'')
     else let (market_open, market_close) = trading_window z schedule trade_date in
       Inr (connected \<le> market_open \<and> market_close \<le> disconnected)))"

fun session_times :: "session_schedule \<Rightarrow> market_session \<Rightarrow> (pytime \<times> pytime) option" where
  "session_times schedule MS_OPENING_AUCTION = Some (opening_auction schedule)"
| "session_times schedule MS_CONTINUOUS_AM = Some (continuous_am schedule)"
| "session_times schedule MS_CONTINUOUS_PM = Some (continuous_pm schedule)"
| "session_times schedule MS_CLOSING_AUCTION = Some (closing_auction schedule)"
| "session_times schedule _ = None"

definition session_window ::
  "zone_info \<Rightarrow> session_schedule \<Rightarrow> date \<Rightarrow> market_session \<Rightarrow> (instant \<times> instant) res" where
  "session_window z schedule trade_date session =
     (case session_times schedule session of
        None \<Rightarrow> Inl (ValueError ''market session has no trading window'')
      | Some (start, stop) \<Rightarrow> Inr (zn_instant z trade_date (tm_us start), zn_instant z trade_date (tm_us stop)))"

definition session_at :: "zone_info \<Rightarrow> session_schedule \<Rightarrow> date \<Rightarrow> pydatetime \<Rightarrow> market_session res" where
  "session_at z schedule trade_date timestamp =
     rbind (to_utc ''timestamp must be timezone-aware'' timestamp) (\<lambda>t.
     let (local_date, v) = zn_local z t;
         (opening_start, opening_end) = opening_auction schedule;
         morning_end = snd (continuous_am schedule);
         (afternoon_start, afternoon_end) = continuous_pm schedule;
         closing_end = snd (closing_auction schedule)
     in Inr (if local_date \<noteq> trade_date then MS_CLOSED
        else if v < tm_us opening_start then MS_PRE_OPEN
        else if v < tm_us opening_end then MS_OPENING_AUCTION
        else if v < tm_us morning_end then MS_CONTINUOUS_AM
        else if v < tm_us afternoon_start then MS_LUNCH_BREAK
        else if v < tm_us afternoon_end then MS_CONTINUOUS_PM
        else if v - v mod second_us \<le> tm_us closing_end then MS_CLOSING_AUCTION
        else MS_CLOSED))"

section \<open>Classification agrees with the windows\<close>

text \<open>A \<^verbatim>\<open>time\<close> lies within its day; a schedule of such times.\<close>

definition schedule_in_day :: "session_schedule \<Rightarrow> bool" where
  "schedule_in_day s = list_all (\<lambda>(a, b). 0 \<le> tm_us a \<and> tm_us a < day_us \<and> 0 \<le> tm_us b \<and> tm_us b < day_us)
     (schedule_windows s)"

definition in_window :: "instant \<Rightarrow> (instant \<times> instant) res \<Rightarrow> bool" where
  "in_window t w = (case w of Inl _ \<Rightarrow> False | Inr (a, b) \<Rightarrow> a \<le> t \<and> t < b)"

text \<open>The closing second counts as auction time: the instant at which it ends.\<close>

definition closing_limit :: "zone_info \<Rightarrow> session_schedule \<Rightarrow> date \<Rightarrow> instant" where
  "closing_limit z s d = (let e = tm_us (snd (closing_auction s)) in zn_instant z d (e - e mod second_us + second_us))"

lemma offset_zone_simps [simp]:
  "zn_local (offset_zone offset) t = (epoch_day + (t + offset) div day_us, (t + offset) mod day_us)"
  "zn_instant (offset_zone offset) d u = (d - epoch_day) * day_us + u - offset"
  by (simp_all add: offset_zone_def)

text \<open>Comparing an instant with a local time of its own day compares the times of day.\<close>

lemma zone_compare:
  assumes "fixed_zone z" "zn_local z t = (d, v)"
  shows "zn_instant z d u \<le> t \<longleftrightarrow> u \<le> v" "t < zn_instant z d u \<longleftrightarrow> v < u" "0 \<le> v" "v < day_us"
proof -
  obtain off where z: "z = offset_zone off" using assms(1) by (auto simp: fixed_zone_def)
  have "(d - epoch_day) * day_us + v = t + off" "0 \<le> v" "v < day_us" using assms(2) by (auto simp: z)
  then show "zn_instant z d u \<le> t \<longleftrightarrow> u \<le> v" "t < zn_instant z d u \<longleftrightarrow> v < u" "0 \<le> v" "v < day_us"
    by (auto simp: z)
qed

text \<open>An instant between two times of a day has that day as its local date.\<close>

lemma zone_day:
  assumes "fixed_zone z" "zn_instant z d a \<le> t" "t < zn_instant z d b" "0 \<le> a" "b \<le> day_us"
  shows "fst (zn_local z t) = d"
proof -
  obtain off where z: "z = offset_zone off" using assms(1) by (auto simp: fixed_zone_def)
  have "(t + off) div day_us = d - epoch_day"
    using assms(2-5) by (intro int_div_pos_eq [where r = "t + off - (d - epoch_day) * day_us"]) (auto simp: z)
  then show ?thesis by (simp add: z)
qed


lemma floor_second_le:
  fixes v e :: int
  shows "v - v mod second_us \<le> e \<longleftrightarrow> v < e - e mod second_us + second_us"
proof -
  obtain a r where v: "v = second_us * a + r" "0 \<le> r" "r < second_us" "v mod second_us = r"
    using that [of "v div second_us" "v mod second_us"] by simp
  obtain b q where e: "e = second_us * b + q" "0 \<le> q" "q < second_us" "e mod second_us = q"
    using that [of "e div second_us" "e mod second_us"] by simp
  show ?thesis unfolding v(4) e(4) using v e by (cases "a \<le> b") auto
qed

lemma floor_second_day:
  fixes e :: int
  assumes "e < day_us"
  shows "e - e mod second_us + second_us \<le> day_us"
proof -
  obtain b q where e: "e = second_us * b + q" "0 \<le> q" "q < second_us" "e mod second_us = q"
    using that [of "e div second_us" "e mod second_us"] by simp
  then have "b < 86400" using assms by auto
  then show ?thesis unfolding e(4) using e by auto
qed

text \<open>A validated schedule is one increasing sequence of boundaries.\<close>

lemma schedule_order:
  assumes "SessionScheduleConfiguration s = Inr s'"
  shows "tm_us (fst (opening_auction s)) < tm_us (snd (opening_auction s))"
    "tm_us (snd (opening_auction s)) = tm_us (fst (continuous_am s))"
    "tm_us (fst (continuous_am s)) < tm_us (snd (continuous_am s))"
    "tm_us (snd (continuous_am s)) < tm_us (fst (continuous_pm s))"
    "tm_us (fst (continuous_pm s)) < tm_us (snd (continuous_pm s))"
    "tm_us (snd (continuous_pm s)) = tm_us (fst (closing_auction s))"
    "tm_us (fst (closing_auction s)) < tm_us (snd (closing_auction s))"
  using assms by (auto simp: SessionScheduleConfiguration_def schedule_windows_def split: if_splits)

text \<open>Inside the trading date the windows are intervals of the time of day; outside it there are none.\<close>

lemma in_window_local:
  assumes z: "fixed_zone z" and loc: "zn_local z t = (d', v)" and w: "session_times s k = Some (a, b)"
    and "0 \<le> tm_us a" "tm_us b \<le> day_us"
  shows "in_window t (session_window z s d k) \<longleftrightarrow> d' = d \<and> tm_us a \<le> v \<and> v < tm_us b"
proof (cases "d' = d")
  case True
  then show ?thesis using zone_compare [OF z loc] by (auto simp: in_window_def session_window_def w)
next
  case False
  then show ?thesis using zone_day [OF z, of d "tm_us a" t "tm_us b"] assms(4,5) loc
    by (auto simp: in_window_def session_window_def w)
qed

lemma closing_local:
  assumes z: "fixed_zone z" and loc: "zn_local z t = (d', v)" and "schedule_in_day s"
  shows "zn_instant z d (tm_us (fst (closing_auction s))) \<le> t \<and> t < closing_limit z s d \<longleftrightarrow>
    d' = d \<and> tm_us (fst (closing_auction s)) \<le> v \<and> v - v mod second_us \<le> tm_us (snd (closing_auction s))"
proof -
  let ?e = "tm_us (snd (closing_auction s))"
  have e: "0 \<le> tm_us (fst (closing_auction s))" "?e - ?e mod second_us + second_us \<le> day_us"
    using assms(3) floor_second_day [of ?e] by (simp_all add: schedule_in_day_def schedule_windows_def split_def)
  show ?thesis
  proof (cases "d' = d")
    case True
    then show ?thesis using zone_compare [OF z loc] by (auto simp: closing_limit_def Let_def floor_second_le)
  next
    case False
    then show ?thesis using zone_day [OF z, of d "tm_us (fst (closing_auction s))" t "?e - ?e mod second_us + second_us"] e loc
      by (auto simp: closing_limit_def Let_def)
  qed
qed

text \<open>For a validated schedule every instant is classified, and the classification is exactly membership in
  the configured windows: the opening auction and the two continuous sessions are their half-open
  windows, the closing auction runs from its start to the end of the second it closes in, and no instant is in two sessions.\<close>

theorem session_clock_matches_windows:
  assumes "fixed_zone z" "SessionScheduleConfiguration s = Inr s" "schedule_in_day s"
  shows "\<exists>m. session_at z s d (Aware t) = Inr m \<and>
    (\<forall>k. k \<noteq> MS_CLOSING_AUCTION \<and> k \<in> set TRADE_SESSIONS \<longrightarrow>
       (m = k \<longleftrightarrow> in_window t (session_window z s d k))) \<and>
    (m = MS_CLOSING_AUCTION \<longleftrightarrow> zn_instant z d (tm_us (fst (closing_auction s))) \<le> t \<and> t < closing_limit z s d) \<and>
    (in_window t (session_window z s d MS_CLOSING_AUCTION) \<longrightarrow> m = MS_CLOSING_AUCTION)"
proof -
  obtain d' v where loc: "zn_local z t = (d', v)" by fastforce
  note order = schedule_order [OF assms(2)]
  have day: "0 \<le> tm_us a \<and> tm_us b \<le> day_us" if "session_times s k = Some (a, b)" for k a b
    using assms(3) that by (cases k) (auto simp: schedule_in_day_def schedule_windows_def)
  have win: "in_window t (session_window z s d k) \<longleftrightarrow> d' = d \<and> tm_us (fst w) \<le> v \<and> v < tm_us (snd w)"
    if "session_times s k = Some w" for k w
    using in_window_local [OF assms(1) loc, of s k "fst w" "snd w" d] day [of k "fst w" "snd w"] that by simp
  obtain m where m: "session_at z s d (Aware t) = Inr m" by (simp add: session_at_def loc split_def Let_def)
  have "v - v mod second_us \<le> v" by simp
  then show ?thesis
    using m order closing_local [OF assms(1) loc assms(3), of d]
    by (intro exI [of _ m]) (auto simp: session_at_def loc split_def Let_def win TRADE_SESSIONS_def split: if_splits)
qed

section \<open>A witness: the schedule of the Ho Chi Minh exchange\<close>

definition vietnam_zone :: zone_info where
  "vietnam_zone = offset_zone (7 * 3600 * second_us)"

lemma vietnam_zone_fixed: "fixed_zone vietnam_zone"
  by (auto simp: fixed_zone_def vietnam_zone_def)

lemma sample_schedule_valid:
  "SessionScheduleConfiguration sample_schedule = Inr sample_schedule" "schedule_in_day sample_schedule"
  by code_simp+

theorem session_clock_matches_windows_witness:
  "session_at vietnam_zone sample_schedule 739518 (Aware 1758699900000000) = Inr MS_CLOSING_AUCTION \<and>
   \<not> in_window 1758699900000000 (session_window vietnam_zone sample_schedule 739518 MS_CLOSING_AUCTION)"
proof -
  have "zn_instant vietnam_zone 739518 (tm_us (fst (closing_auction sample_schedule))) \<le> 1758699900000000"
    "1758699900000000 < closing_limit vietnam_zone sample_schedule 739518"
    "\<not> in_window 1758699900000000 (session_window vietnam_zone sample_schedule 739518 MS_CLOSING_AUCTION)"
    by code_simp+
  then show ?thesis
    using session_clock_matches_windows [OF vietnam_zone_fixed sample_schedule_valid, of 739518 1758699900000000] by auto
qed

end
