(* ===== verification/MarketEvents.thy ===== *)
theory MarketEvents
  imports MarketClock
begin

text \<open>
  \<^verbatim>\<open>t0_trading/market/events.py\<close>: the capture envelope and its decoding into trades, auction
  observations and quote snapshots.

  The provider's message classes come from \<^verbatim>\<open>ssi_sdk\<close>: \<open>market_feed\<close> holds their JSON adapters (\<open>None\<close> is a
  payload they refuse) and the SHA-256 of a text. A provider number is the decimal that its \<^verbatim>\<open>str\<close>
  denotes, \<open>None\<close> when it is not finite. \<^verbatim>\<open>datetime.strptime\<close> is written out for the two formats the code uses.
\<close>

section \<open>Envelopes and payloads\<close>

datatype subscription_context = CTX_SYMBOLS | CTX_INDICES | CTX_MARKETS

record stream_envelope =
  se_stream_session_id :: string
  se_receive_sequence :: int
  se_message_type :: string
  se_subscription_context :: subscription_context
  se_symbol :: "string option"
  se_source_time_text :: "string option"
  se_received_at :: instant
  se_message_json :: string
  se_message_sha256 :: string

definition StreamEnvelope :: "stream_envelope \<Rightarrow> stream_envelope res" where
  "StreamEnvelope e =
     (if se_stream_session_id e \<noteq> [] \<and> 1 \<le> se_receive_sequence e \<and> se_message_type e \<noteq> [] \<and>
         2 \<le> length (se_message_json e) \<and> is_sha256 (se_message_sha256 e)
      then Inr e else Inl (ValidationError ''StreamEnvelope''))"

record trade_message =
  tmsg_symbol :: string
  tmsg_trading_time :: string
  tmsg_type :: string
  tmsg_price :: "decimal option"
  tmsg_quantity :: int
  tmsg_side :: string
  tmsg_total_volume :: int

record quote_message =
  qmsg_symbol :: string
  qmsg_trading_time :: string
  qmsg_type :: string
  qmsg_bid_prices :: "decimal option list"
  qmsg_bid_volumes :: "int list"
  qmsg_ask_prices :: "decimal option list"
  qmsg_ask_volumes :: "int list"

record market_feed =
  fd_sha256 :: "string \<Rightarrow> string"
  fd_trade :: "string \<Rightarrow> trade_message option"
  fd_quote :: "string \<Rightarrow> quote_message option"

section \<open>Events\<close>

record event_position =
  ep_stream_session_id :: string
  ep_receive_sequence :: int

datatype aggressor_side = SIDE_BUY | SIDE_SELL

record trade =
  tr_position :: event_position
  tr_symbol :: string
  tr_event_time :: instant
  tr_received_at :: instant
  tr_price :: decimal
  tr_quantity :: int
  tr_side :: "aggressor_side option"
  tr_cumulative_volume :: int

definition signed_quantity :: "trade \<Rightarrow> int" where
  "signed_quantity t = (case tr_side t of Some SIDE_BUY \<Rightarrow> tr_quantity t | Some SIDE_SELL \<Rightarrow> - tr_quantity t | None \<Rightarrow> 0)"

record auction_observation =
  ao_position :: event_position
  ao_symbol :: string
  ao_event_time :: instant
  ao_received_at :: instant

record quote_level =
  ql_level :: nat
  ql_price :: decimal
  ql_quantity :: int

record quote_snapshot =
  qs_position :: event_position
  qs_symbol :: string
  qs_event_time :: instant
  qs_received_at :: instant
  qs_bids :: "quote_level list"
  qs_asks :: "quote_level list"
  qs_is_complete :: bool

datatype market_event = TradeEvent trade | AuctionEvent auction_observation | QuoteEvent quote_snapshot

fun event_symbol :: "market_event \<Rightarrow> string" where
  "event_symbol (TradeEvent t) = tr_symbol t"
| "event_symbol (AuctionEvent a) = ao_symbol a"
| "event_symbol (QuoteEvent q) = qs_symbol q"

fun event_time :: "market_event \<Rightarrow> instant" where
  "event_time (TradeEvent t) = tr_event_time t"
| "event_time (AuctionEvent a) = ao_event_time a"
| "event_time (QuoteEvent q) = qs_event_time q"

fun event_received_at :: "market_event \<Rightarrow> instant" where
  "event_received_at (TradeEvent t) = tr_received_at t"
| "event_received_at (AuctionEvent a) = ao_received_at a"
| "event_received_at (QuoteEvent q) = qs_received_at q"

section \<open>Timestamps\<close>

text \<open>\<^verbatim>\<open>strptime\<close>: the two or three fields between separators, each with the digits its directive accepts.\<close>

fun split_on :: "char \<Rightarrow> string \<Rightarrow> string list" where
  "split_on c [] = [[]]"
| "split_on c (x # xs) = (if x = c then [] # split_on c xs
     else case split_on c xs of [] \<Rightarrow> [[x]] | y # ys \<Rightarrow> (x # y) # ys)"

definition digits_value :: "string \<Rightarrow> int" where
  "digits_value s = foldl (\<lambda>n c. 10 * n + (of_char c - 48)) 0 s"

text \<open>A numeric field of one or two digits within bounds.\<close>

definition small_field :: "int \<Rightarrow> int \<Rightarrow> string \<Rightarrow> int option" where
  "small_field lo hi s = (let n = digits_value s in
     if s \<noteq> [] \<and> length s \<le> 2 \<and> list_all digit s \<and> lo \<le> n \<and> n \<le> hi then Some n else None)"

definition year_field :: "string \<Rightarrow> int option" where
  "year_field s = (if length s = 4 \<and> list_all digit s then Some (digits_value s) else None)"

definition fraction_field :: "string \<Rightarrow> int option" where
  "fraction_field s = (if s \<noteq> [] \<and> length s \<le> 6 \<and> list_all digit s
     then Some (digits_value s * 10 ^ (6 - length s)) else None)"

text \<open>The day (\<^verbatim>\<open>%d\<close> also accepts a blank and one digit), white space, and the rest.\<close>

definition day_and_time :: "string \<Rightarrow> (int \<times> string) option" where
  "day_and_time s =
     (let (day, rest) = (case s of CHR '' '' # c # rest \<Rightarrow> ([c], rest) | _ \<Rightarrow> (takeWhile digit s, dropWhile digit s))
      in case small_field 1 31 day of None \<Rightarrow> None
         | Some d \<Rightarrow> (case rest of c # _ \<Rightarrow> if is_space c then Some (d, dropWhile is_space rest) else None | [] \<Rightarrow> None))"

definition clock_fields :: "bool \<Rightarrow> string \<Rightarrow> int option" where
  "clock_fields fractional s =
     (case split_on CHR '':'' s of
        [h, m, sec] \<Rightarrow>
          (case (small_field 0 23 h, small_field 0 59 m,
                 if fractional then (case split_on CHR ''.'' sec of [a, f] \<Rightarrow> (small_field 0 59 a, fraction_field f) | _ \<Rightarrow> (None, None))
                 else (small_field 0 59 sec, Some 0)) of
             (Some hh, Some mm, Some ss, Some us) \<Rightarrow> Some (((hh * 60 + mm) * 60 + ss) * second_us + us)
           | _ \<Rightarrow> None)
      | _ \<Rightarrow> None)"

definition is_leap :: "int \<Rightarrow> bool" where
  "is_leap y = (y mod 4 = 0 \<and> (y mod 100 \<noteq> 0 \<or> y mod 400 = 0))"

definition month_days :: "int \<Rightarrow> int list" where
  "month_days y = [31, if is_leap y then 29 else 28, 31, 30, 31, 30, 31, 31, 30, 31, 30, 31]"

text \<open>The ordinal of a valid calendar date; \<open>None\<close> where the \<^verbatim>\<open>datetime\<close> constructor refuses the fields.\<close>

definition date_ordinal :: "int \<Rightarrow> int \<Rightarrow> int \<Rightarrow> date option" where
  "date_ordinal y m d =
     (if 1 \<le> y \<and> 1 \<le> m \<and> m \<le> 12 \<and> 1 \<le> d \<and> d \<le> month_days y ! nat (m - 1)
      then Some ((y - 1) * 365 + (y - 1) div 4 - (y - 1) div 100 + (y - 1) div 400 + sum_list (take (nat (m - 1)) (month_days y)) + d)
      else None)"

definition strptime :: "bool \<Rightarrow> string \<Rightarrow> (date \<times> int) option" where
  "strptime fractional s =
     (case split_on CHR ''/'' s of
        [y, m, rest] \<Rightarrow>
          (case (year_field y, small_field 1 12 m, day_and_time rest) of
             (Some yy, Some mm, Some (dd, tm)) \<Rightarrow>
               (case (date_ordinal yy mm dd, clock_fields fractional tm) of
                  (Some day, Some us) \<Rightarrow> Some (day, us) | _ \<Rightarrow> None)
           | _ \<Rightarrow> None)
      | _ \<Rightarrow> None)"

text \<open>The instants that a UTC \<^verbatim>\<open>datetime\<close> can hold, from the start of the year 1 to the end of the year 9999; a local time
  whose instant lies outside raises \<^verbatim>\<open>OverflowError\<close> in \<^verbatim>\<open>astimezone\<close>, which is no \<^verbatim>\<open>ValueError\<close>.\<close>

definition utc_range :: "instant \<Rightarrow> bool" where
  "utc_range t = ((1 - epoch_day) * day_us \<le> t \<and> t < (3652060 - epoch_day) * day_us)"

definition provider_timestamp :: "zone_info \<Rightarrow> string \<Rightarrow> instant res" where
  "provider_timestamp z v =
     (case strptime (CHR ''.'' \<in> set v) v of
        None \<Rightarrow> Inl (MarketEventError ''unsupported SSI timestamp'')
      | Some (day, us) \<Rightarrow> (let t = zn_instant z day us in if utc_range t then Inr t else Inl OverflowError))"

text \<open>\<^verbatim>\<open>_event_time\<close>\<close>

definition checked_event_time :: "zone_info \<Rightarrow> string \<Rightarrow> instant \<Rightarrow> instant res" where
  "checked_event_time z v received_at =
     rbind (provider_timestamp z v) (\<lambda>normalized.
     if normalized > received_at then Inl (MarketEventError ''provider event time follows capture receipt time'')
     else Inr normalized)"

section \<open>Prices and quote levels\<close>

definition provider_price :: "decimal option \<Rightarrow> decimal res" where
  "provider_price v =
     (case v of None \<Rightarrow> Inl (MarketEventError ''SSI price must be a finite whole VND amount'')
      | Some price \<Rightarrow> if of_int \<lfloor>price\<rfloor> \<noteq> price
          then Inl (MarketEventError ''SSI price must be a finite whole VND amount'') else quantize 0 price)"

definition pairwise_all :: "('a \<Rightarrow> 'a \<Rightarrow> bool) \<Rightarrow> 'a list \<Rightarrow> bool" where
  "pairwise_all r xs = list_all (\<lambda>(a, b). r a b) (zip xs (tl xs))"

definition better :: "bool \<Rightarrow> quote_level \<Rightarrow> quote_level \<Rightarrow> bool" where
  "better descending a b = (if descending then ql_price a > ql_price b else ql_price a < ql_price b)"

definition populated_levels :: "decimal list \<Rightarrow> int list \<Rightarrow> nat \<Rightarrow> quote_level list" where
  "populated_levels prices quantities depth =
     map (\<lambda>(i, p, q). \<lparr>ql_level = i, ql_price = p, ql_quantity = q\<rparr>)
       (filter (\<lambda>(i, p, q). p > 0 \<and> q > 0)
         (zip [1..<Suc (length prices)] (zip (take depth prices) (take depth quantities))))"

definition quote_levels :: "decimal list \<Rightarrow> int list \<Rightarrow> nat \<Rightarrow> bool \<Rightarrow> quote_level list res" where
  "quote_levels prices quantities depth descending =
     (if list_ex (\<lambda>(p, q). p < 0 \<or> q < 0 \<or> (p = 0) \<noteq> (q = 0)) (zip prices quantities)
      then Inl (MarketEventError ''quote price and quantity pairs are invalid'')
      else if length prices \<noteq> length quantities then Inl (ValueError ''zip() arguments have different lengths'')
      else if list_ex (\<lambda>p. p \<noteq> 0) (drop depth prices) \<or> list_ex (\<lambda>q. q \<noteq> 0) (drop depth quantities)
      then Inl (MarketEventError ''quote contains populated levels beyond the configured depth'')
      else let levels = populated_levels prices quantities depth in
        if pairwise_all (better descending) levels then Inr levels
        else Inl (MarketEventError ''quote levels are not ordered best-to-worst''))"

section \<open>Decoding\<close>

text \<open>\<^verbatim>\<open>except ValueError\<close> around the two decoders: every \<^verbatim>\<open>ValueError\<close> leaves as \<^verbatim>\<open>MarketEventError\<close>, other exceptions pass.\<close>

fun as_event_error :: "string \<Rightarrow> py_error \<Rightarrow> py_error" where
  "as_event_error message (ValueError e) = MarketEventError message"
| "as_event_error message (ValidationError e) = MarketEventError message"
| "as_event_error message e = e"

definition wrap_event_error :: "string \<Rightarrow> 'a res \<Rightarrow> 'a res" where
  "wrap_event_error message r = (case r of Inl e \<Rightarrow> Inl (as_event_error message e) | Inr x \<Rightarrow> Inr x)"

definition envelope_position :: "stream_envelope \<Rightarrow> event_position" where
  "envelope_position e = \<lparr>ep_stream_session_id = se_stream_session_id e, ep_receive_sequence = se_receive_sequence e\<rparr>"

definition provider_side :: "string \<Rightarrow> aggressor_side option option" where
  "provider_side = map_of [(''B'', Some SIDE_BUY), (''S'', Some SIDE_SELL), (''U'', None)]"

definition decode_trade :: "market_feed \<Rightarrow> zone_info \<Rightarrow> stream_envelope \<Rightarrow> market_event res" where
  "decode_trade F z e =
     (case fd_trade F (se_message_json e) of None \<Rightarrow> Inl (ValidationError ''TradeMessage'')
      | Some payload \<Rightarrow>
        if se_symbol e \<noteq> Some (tmsg_symbol payload) \<or> se_source_time_text e \<noteq> Some (tmsg_trading_time payload)
        then Inl (MarketEventError ''TradeMessage capture lineage does not match its payload'')
        else rbind (checked_event_time z (tmsg_trading_time payload) (se_received_at e)) (\<lambda>occurred.
        if tmsg_type payload \<noteq> ''trade'' then Inl (MarketEventError ''TradeMessage has an unexpected provider type'')
        else rbind (provider_price (tmsg_price payload)) (\<lambda>price.
        let raw_side = map to_upper (tmsg_side payload) in
        if price = 0 \<and> tmsg_quantity payload = 0 \<and> raw_side = ''U''
        then Inr (AuctionEvent \<lparr>ao_position = envelope_position e, ao_symbol = map to_upper (tmsg_symbol payload),
               ao_event_time = occurred, ao_received_at = se_received_at e\<rparr>)
        else if price \<le> 0 \<or> tmsg_quantity payload \<le> 0 \<or> provider_side raw_side = None
        then Inl (MarketEventError ''TradeMessage is neither a trade nor an auction observation'')
        else if tmsg_total_volume payload < tmsg_quantity payload
        then Inl (MarketEventError ''cumulative trade volume is smaller than trade quantity'')
        else Inr (TradeEvent \<lparr>tr_position = envelope_position e, tr_symbol = map to_upper (tmsg_symbol payload),
               tr_event_time = occurred, tr_received_at = se_received_at e, tr_price = price,
               tr_quantity = tmsg_quantity payload, tr_side = the (provider_side raw_side),
               tr_cumulative_volume = tmsg_total_volume payload\<rparr>))))"

definition book_complete :: "nat \<Rightarrow> quote_level list \<Rightarrow> quote_level list \<Rightarrow> bool res" where
  "book_complete depth bids asks =
     (if length bids = depth \<and> length asks = depth
      then rbind (index_res bids 0) (\<lambda>b. rbind (index_res asks 0) (\<lambda>a. Inr (ql_price b < ql_price a)))
      else Inr False)"

definition decode_quote :: "market_feed \<Rightarrow> zone_info \<Rightarrow> nat \<Rightarrow> stream_envelope \<Rightarrow> market_event res" where
  "decode_quote F z depth e =
     (case fd_quote F (se_message_json e) of None \<Rightarrow> Inl (ValidationError ''QuoteMessage'')
      | Some payload \<Rightarrow>
        if se_symbol e \<noteq> Some (qmsg_symbol payload) \<or> se_source_time_text e \<noteq> Some (qmsg_trading_time payload)
        then Inl (MarketEventError ''QuoteMessage capture lineage does not match its payload'')
        else if qmsg_type payload \<noteq> ''quote'' then Inl (MarketEventError ''QuoteMessage has an unexpected provider type'')
        else if length (qmsg_bid_prices payload) \<noteq> 10 \<or> length (qmsg_bid_volumes payload) \<noteq> 10 \<or>
                length (qmsg_ask_prices payload) \<noteq> 10 \<or> length (qmsg_ask_volumes payload) \<noteq> 10
        then Inl (MarketEventError ''SSI quote arrays must contain ten positions'')
        else rbind (map_res provider_price (qmsg_bid_prices payload)) (\<lambda>bid_prices.
        rbind (quote_levels bid_prices (qmsg_bid_volumes payload) depth True) (\<lambda>bids.
        rbind (map_res provider_price (qmsg_ask_prices payload)) (\<lambda>ask_prices.
        rbind (quote_levels ask_prices (qmsg_ask_volumes payload) depth False) (\<lambda>asks.
        rbind (checked_event_time z (qmsg_trading_time payload) (se_received_at e)) (\<lambda>occurred.
        rbind (book_complete depth bids asks) (\<lambda>complete.
        Inr (QuoteEvent \<lparr>qs_position = envelope_position e, qs_symbol = map to_upper (qmsg_symbol payload),
               qs_event_time = occurred, qs_received_at = se_received_at e, qs_bids = bids, qs_asks = asks,
               qs_is_complete = complete\<rparr>))))))))"

definition decode_event :: "market_feed \<Rightarrow> zone_info \<Rightarrow> nat \<Rightarrow> stream_envelope \<Rightarrow> market_event option res" where
  "decode_event F z depth e =
     (if fd_sha256 F (se_message_json e) \<noteq> se_message_sha256 e
      then Inl (MarketEventError ''message_json checksum does not match its capture envelope'')
      else if se_message_type e = ''TradeMessage''
      then rbind (wrap_event_error ''invalid TradeMessage'' (decode_trade F z e)) (\<lambda>v. Inr (Some v))
      else if se_message_type e = ''QuoteMessage''
      then rbind (wrap_event_error ''invalid QuoteMessage'' (decode_quote F z depth e)) (\<lambda>v. Inr (Some v))
      else Inr None)"

section \<open>What a decoded event guarantees\<close>

text \<open>One side of a book: populated levels in level order, best price first.\<close>

definition book_side :: "nat \<Rightarrow> bool \<Rightarrow> quote_level list \<Rightarrow> bool" where
  "book_side depth descending levels =
     (list_all (\<lambda>l. 0 < ql_price l \<and> 0 < ql_quantity l \<and> 1 \<le> ql_level l \<and> ql_level l \<le> depth) levels \<and>
      sorted_wrt (\<lambda>a b. ql_level a < ql_level b) levels \<and>
      sorted_wrt (better descending) levels)"

fun sound_event :: "nat \<Rightarrow> market_event \<Rightarrow> bool" where
  "sound_event depth (TradeEvent t) = (0 < tr_price t \<and> tr_price t \<in> \<int> \<and> 0 < tr_quantity t \<and>
     tr_quantity t \<le> tr_cumulative_volume t)"
| "sound_event depth (AuctionEvent a) = True"
| "sound_event depth (QuoteEvent q) = (book_side depth True (qs_bids q) \<and> book_side depth False (qs_asks q) \<and>
     (qs_is_complete q \<longrightarrow> length (qs_bids q) = depth \<and> length (qs_asks q) = depth \<and>
        (\<forall>b \<in> set (qs_bids q). \<forall>a \<in> set (qs_asks q). ql_price b < ql_price a)))"

lemma pairwise_all_sorted_wrt:
  assumes "transp r"
  shows "pairwise_all r xs \<longleftrightarrow> sorted_wrt r xs"
proof (induction xs)
  case (Cons x xs)
  then show ?case
  proof (cases xs)
    case Nil
    then show ?thesis by (simp add: pairwise_all_def)
  next
    case (Cons y ys)
    then show ?thesis
      using assms Cons.IH by (auto simp: pairwise_all_def sorted_wrt2 simp del: sorted_wrt.simps(2))
  qed
qed (simp add: pairwise_all_def)

lemma provider_price_Inr: "provider_price v = Inr p \<Longrightarrow> p \<in> \<int> \<and> v = Some p"
  by (auto simp: provider_price_def quantize_def Let_def Ints_def split: option.splits if_splits)

lemma quote_levels_book_side:
  assumes "quote_levels prices quantities depth descending = Inr levels"
  shows "book_side depth descending levels"
proof -
  let ?zs = "zip [1..<Suc (length prices)] (zip (take depth prices) (take depth quantities))"
  have l: "levels = populated_levels prices quantities depth" and r: "pairwise_all (better descending) levels"
    using assms by (auto simp only: quote_levels_def Let_def sum.inject split: if_splits)
  have "transp (better descending)" by (auto simp: transp_def better_def)
  then have "sorted_wrt (better descending) levels" using r by (simp add: pairwise_all_sorted_wrt)
  moreover have "sorted_wrt (\<lambda>a b. fst a < fst b) ?zs"
    by (auto simp: sorted_wrt_iff_nth_less simp del: upt_Suc)
  then have "sorted_wrt (\<lambda>a b. ql_level a < ql_level b) levels"
    unfolding l populated_levels_def sorted_wrt_map by (intro sorted_wrt_filter) (simp add: split_def del: upt_Suc)
  moreover have "list_all (\<lambda>l. 0 < ql_price l \<and> 0 < ql_quantity l \<and> 1 \<le> ql_level l \<and> ql_level l \<le> depth) levels"
    by (auto simp: l populated_levels_def list_all_iff set_zip simp del: upt_Suc)
  ultimately show ?thesis by (simp add: book_side_def)
qed

text \<open>The first level of a side is its best price.\<close>

lemma book_side_best:
  assumes "book_side depth descending (l # ls)" "x \<in> set (l # ls)"
  shows "if descending then ql_price x \<le> ql_price l else ql_price l \<le> ql_price x"
  using assms by (cases descending) (auto simp: book_side_def better_def)

lemma book_complete_uncrossed:
  assumes "book_complete depth bids asks = Inr True" "book_side depth True bids" "book_side depth False asks"
  shows "length bids = depth \<and> length asks = depth \<and> (\<forall>b \<in> set bids. \<forall>a \<in> set asks. ql_price b < ql_price a)"
proof -
  from assms(1) have len: "length bids = depth" "length asks = depth" and pos: "0 < length bids" "0 < length asks"
    and best: "ql_price (bids ! 0) < ql_price (asks ! 0)"
    by (auto simp: book_complete_def index_res_def rbind_eq_Inr split: if_splits)
  obtain b bs a as where ba: "bids = b # bs" "asks = a # as" using pos by (cases bids; cases asks) auto
  have "ql_price x < ql_price y" if "x \<in> set bids" "y \<in> set asks" for x y
    using book_side_best [OF assms(2) [unfolded ba(1)], of x] book_side_best [OF assms(3) [unfolded ba(2)], of y]
      that best unfolding ba by simp
  with len show ?thesis by blast
qed

lemma checked_event_time_Inr: "checked_event_time z v r = Inr t \<Longrightarrow> t \<le> r"
  by (auto simp: checked_event_time_def rbind_eq_Inr split: if_splits)

text \<open>The two decoders, on success.\<close>

lemma decode_trade_Inr:
  assumes "decode_trade F z e = Inr v"
  shows "sound_event depth v \<and> event_time v \<le> event_received_at v \<and> event_received_at v = se_received_at e"
proof -
  from assms obtain payload where p: "fd_trade F (se_message_json e) = Some payload"
    by (auto simp: decode_trade_def split: option.splits)
  with assms obtain t price where "checked_event_time z (tmsg_trading_time payload) (se_received_at e) = Inr t"
      "provider_price (tmsg_price payload) = Inr price"
    and v: "v = AuctionEvent \<lparr>ao_position = envelope_position e, ao_symbol = map to_upper (tmsg_symbol payload),
             ao_event_time = t, ao_received_at = se_received_at e\<rparr> \<or>
       (0 < price \<and> 0 < tmsg_quantity payload \<and> tmsg_quantity payload \<le> tmsg_total_volume payload \<and>
        (\<exists>side. v = TradeEvent \<lparr>tr_position = envelope_position e, tr_symbol = map to_upper (tmsg_symbol payload),
          tr_event_time = t, tr_received_at = se_received_at e, tr_price = price,
          tr_quantity = tmsg_quantity payload, tr_side = side, tr_cumulative_volume = tmsg_total_volume payload\<rparr>))"
    by (auto simp: decode_trade_def Let_def rbind_eq_Inr split: if_splits)
  then have "t \<le> se_received_at e" "price \<in> \<int>" by (auto dest: checked_event_time_Inr provider_price_Inr)
  with v show ?thesis by auto
qed

lemma decode_quote_Inr:
  assumes "decode_quote F z depth e = Inr v"
  shows "sound_event depth v \<and> event_time v \<le> event_received_at v \<and> event_received_at v = se_received_at e"
proof -
  from assms obtain bp bv bids ap av asks tx t complete symbol where
      bids: "quote_levels bp bv depth True = Inr bids" and asks: "quote_levels ap av depth False = Inr asks"
    and t: "checked_event_time z tx (se_received_at e) = Inr t" and c: "book_complete depth bids asks = Inr complete"
    and v: "v = QuoteEvent \<lparr>qs_position = envelope_position e, qs_symbol = symbol, qs_event_time = t,
       qs_received_at = se_received_at e, qs_bids = bids, qs_asks = asks, qs_is_complete = complete\<rparr>"
    unfolding decode_quote_def rbind_eq_Inr by (auto simp: rbind_eq_Inr split: option.splits if_splits)
  have sides: "book_side depth True bids" "book_side depth False asks"
    using bids asks by (auto intro: quote_levels_book_side)
  show ?thesis using sides c checked_event_time_Inr [OF t] book_complete_uncrossed [OF _ sides]
    by (cases complete) (auto simp: v)
qed

text \<open>The exceptions that leave a decoder. \<^verbatim>\<open>OverflowError\<close> does so only for a time text whose instant UTC cannot hold.\<close>

definition unrepresentable :: "zone_info \<Rightarrow> string option \<Rightarrow> bool" where
  "unrepresentable z text \<longleftrightarrow> (\<exists>v day us. text = Some v \<and> strptime (CHR ''.'' \<in> set v) v = Some (day, us) \<and> \<not> utc_range (zn_instant z day us))"

definition event_error :: "zone_info \<Rightarrow> string option \<Rightarrow> py_error \<Rightarrow> bool" where
  "event_error z text e = (case e of MarketEventError _ \<Rightarrow> True | InvalidOperation \<Rightarrow> True
     | OverflowError \<Rightarrow> unrepresentable z text | _ \<Rightarrow> False)"

definition decoder_error :: "zone_info \<Rightarrow> string option \<Rightarrow> py_error \<Rightarrow> bool" where
  "decoder_error z text e = (case e of ValueError _ \<Rightarrow> True | ValidationError _ \<Rightarrow> True | _ \<Rightarrow> event_error z text e)"

lemma decoder_error_simps [simp]:
  "decoder_error z text (ValueError m)" "decoder_error z text (ValidationError m)" "decoder_error z text (MarketEventError m)"
  "decoder_error z text InvalidOperation"
  by (simp_all add: decoder_error_def event_error_def)

lemma provider_price_Inl: "provider_price v = Inl e \<Longrightarrow> decoder_error z text e"
  by (auto simp: provider_price_def quantize_def Let_def split: option.splits if_splits)

lemma map_res_Inl: "map_res f xs = Inl e \<Longrightarrow> \<exists>x \<in> set xs. f x = Inl e"
  by (induction xs) (auto simp: rbind_eq_Inl)

lemma checked_event_time_Inl: "checked_event_time z v r = Inl e \<Longrightarrow> decoder_error z (Some v) e"
  by (auto simp: checked_event_time_def provider_timestamp_def rbind_eq_Inl Let_def decoder_error_def event_error_def unrepresentable_def
      split: option.splits if_splits)

lemma quote_levels_Inl: "quote_levels p q d b = Inl e \<Longrightarrow> decoder_error z text e"
  by (auto simp: quote_levels_def Let_def split: if_splits)

lemma book_complete_total: "1 \<le> depth \<Longrightarrow> \<exists>c. book_complete depth bids asks = Inr c"
  by (auto simp: book_complete_def index_res_def)

lemma decode_trade_Inl: "decode_trade F z e = Inl err \<Longrightarrow> decoder_error z (se_source_time_text e) err"
  by (auto simp: decode_trade_def Let_def rbind_eq_Inl dest: checked_event_time_Inl provider_price_Inl
      split: option.splits if_splits)

lemma decode_quote_Inl:
  assumes "1 \<le> depth" "decode_quote F z depth e = Inl err"
  shows "decoder_error z (se_source_time_text e) err"
proof -
  have no: "book_complete depth bids asks \<noteq> Inl x" for bids asks x
    using book_complete_total [OF assms(1), of bids asks] by auto
  show ?thesis
    using assms(2) unfolding decode_quote_def rbind_eq_Inl
    by (auto simp: rbind_eq_Inl no dest!: map_res_Inl dest: checked_event_time_Inl quote_levels_Inl
        provider_price_Inl split: option.splits if_splits)
qed

lemma wrapped_error: "wrap_event_error m r = Inl e \<Longrightarrow> (\<And>x. r = Inl x \<Longrightarrow> decoder_error z text x) \<Longrightarrow> event_error z text e"
  by (auto simp: wrap_event_error_def decoder_error_def event_error_def split: sum.splits py_error.splits)

lemma wrap_event_error_Inr [simp]: "wrap_event_error m r = Inr v \<longleftrightarrow> r = Inr v"
  by (auto simp: wrap_event_error_def split: sum.splits)

lemma decode_event_Some:
  assumes "decode_event F z depth e = Inr (Some v)"
  shows "sound_event depth v \<and> event_time v \<le> event_received_at v \<and> event_received_at v = se_received_at e"
  using assms by (auto simp: decode_event_def rbind_eq_Inr dest: decode_trade_Inr decode_quote_Inr split: if_splits)

text \<open>C38: Decoding an envelope either fails with \<^verbatim>\<open>MarketEventError\<close>, with the decimal overflow of a price
  of more than 28 digits, or with the \<^verbatim>\<open>OverflowError\<close> of a time text whose instant lies outside the years UTC can hold; or skips
  a message that is no trade and no quote; or yields a sound event: it did not
  happen after its receipt, trades have a positive whole price and quantity within the cumulative volume, both sides
  of a book are populated levels ordered best to worst within the configured depth, and a book marked complete has
  the full depth on both sides and no bid at or above any ask. A crossed book is decoded, but never marked complete.\<close>

theorem decode_event_sound:
  assumes "1 \<le> depth"
  shows "case decode_event F z depth e of
      Inl err \<Rightarrow> event_error z (se_source_time_text e) err
    | Inr None \<Rightarrow> se_message_type e \<notin> {''TradeMessage'', ''QuoteMessage''}
    | Inr (Some v) \<Rightarrow> sound_event depth v \<and> event_time v \<le> event_received_at v \<and>
        event_received_at v = se_received_at e \<and> fd_sha256 F (se_message_json e) = se_message_sha256 e"
proof (cases "decode_event F z depth e")
  case (Inl err)
  then have "event_error z (se_source_time_text e) err"
    using wrapped_error [OF _ decode_trade_Inl] wrapped_error [OF _ decode_quote_Inl [OF assms]]
    by (auto simp: decode_event_def rbind_eq_Inl event_error_def split: if_splits)
  with Inl show ?thesis by simp
next
  case (Inr r)
  then have "fd_sha256 F (se_message_json e) = se_message_sha256 e"
    by (auto simp: decode_event_def split: if_splits)
  moreover have "r = None \<Longrightarrow> se_message_type e \<notin> {''TradeMessage'', ''QuoteMessage''}"
    using Inr by (auto simp: decode_event_def rbind_eq_Inr split: if_splits)
  ultimately show ?thesis using Inr by (auto dest: decode_event_Some split: option.splits)
qed

section \<open>A sample feed\<close>

text \<open>Three trades and one quote of a symbol on 2025-09-24, used by the witnesses of the market theories.\<close>

definition sample_trade_message :: "string \<Rightarrow> decimal \<Rightarrow> int \<Rightarrow> string \<Rightarrow> int \<Rightarrow> trade_message" where
  "sample_trade_message text price quantity side volume = \<lparr>tmsg_symbol = ''VIC'', tmsg_trading_time = text,
     tmsg_type = ''trade'', tmsg_price = Some price, tmsg_quantity = quantity, tmsg_side = side, tmsg_total_volume = volume\<rparr>"

definition sample_quote_message :: quote_message where
  "sample_quote_message = \<lparr>qmsg_symbol = ''VIC'', qmsg_trading_time = ''2025/09/24 09:15:02'', qmsg_type = ''quote'',
     qmsg_bid_prices = map Some [50000, 49900, 49800] @ replicate 7 (Some 0), qmsg_bid_volumes = [300, 200, 500] @ replicate 7 0,
     qmsg_ask_prices = map Some [50100, 50200, 50300] @ replicate 7 (Some 0), qmsg_ask_volumes = [100, 400, 100] @ replicate 7 0\<rparr>"

definition sample_feed :: market_feed where
  "sample_feed = \<lparr>fd_sha256 = (\<lambda>_. replicate 64 CHR ''a''),
     fd_trade = map_of [(''T1'', sample_trade_message ''2025/09/24 09:15:01'' 50000 100 ''B'' 100),
       (''T2'', sample_trade_message ''2025/09/24 09:15:30.5'' 50100 100 ''S'' 200),
       (''T3'', sample_trade_message ''2025/09/24 09:16:05'' 49900 100 ''u'' 300)],
     fd_quote = map_of [(''Q1'', sample_quote_message)]\<rparr>"

text \<open>09:15 local time, and an envelope received a number of seconds later.\<close>

abbreviation sample_market_open :: instant where "sample_market_open \<equiv> 1758680100000000"

definition sample_envelope :: "int \<Rightarrow> string \<Rightarrow> string \<Rightarrow> string \<Rightarrow> int \<Rightarrow> stream_envelope" where
  "sample_envelope sequence kind json text seconds = \<lparr>se_stream_session_id = ''s1'', se_receive_sequence = sequence,
     se_message_type = kind, se_subscription_context = CTX_SYMBOLS, se_symbol = Some ''VIC'', se_source_time_text = Some text,
     se_received_at = sample_market_open + seconds * second_us, se_message_json = json,
     se_message_sha256 = replicate 64 CHR ''a''\<rparr>"

definition sample_quote_envelope :: stream_envelope where
  "sample_quote_envelope = sample_envelope 2 ''QuoteMessage'' ''Q1'' ''2025/09/24 09:15:02'' 3"

theorem decode_event_sound_witness:
  "\<exists>q. decode_event sample_feed vietnam_zone 3 sample_quote_envelope = Inr (Some (QuoteEvent q)) \<and> qs_is_complete q \<and>
     qs_event_time q = sample_market_open + 2 * second_us \<and>
     (\<forall>b \<in> set (qs_bids q). \<forall>a \<in> set (qs_asks q). ql_price b < ql_price a)"
proof -
  have "case decode_event sample_feed vietnam_zone 3 sample_quote_envelope of
      Inr (Some (QuoteEvent q)) \<Rightarrow> qs_is_complete q \<and> qs_event_time q = sample_market_open + 2 * second_us | _ \<Rightarrow> False"
    by code_simp
  then obtain q where q: "decode_event sample_feed vietnam_zone 3 sample_quote_envelope = Inr (Some (QuoteEvent q))"
      "qs_is_complete q" "qs_event_time q = sample_market_open + 2 * second_us"
    by (auto split: sum.splits option.splits market_event.splits)
  have "sound_event 3 (QuoteEvent q)"
    using decode_event_sound [where depth = 3 and F = sample_feed and z = vietnam_zone and e = sample_quote_envelope] q(1) by simp
  with q show ?thesis by auto
qed

end
