(* ===== verification/MarketState.thy ===== *)
theory MarketState
  imports MarketEvents
begin

text \<open>
  \<^verbatim>\<open>t0_trading/market/state.py\<close>: the state machine that consumes captured envelopes in receipt order, keeps the
  latest trade, quote and open bar of every symbol, finalises bars, and judges the health of a symbol.

  \<^verbatim>\<open>apply\<close> and \<^verbatim>\<open>advance\<close> mutate the state before they may raise, so they return the state they leave
  beside the result. The dictionary of symbols is an association list in the configured order; the set of
  integrity issues is a set of their names. \<^verbatim>\<open>int(value.timestamp())\<close> truncates toward zero; the float in
  between is exact to the microsecond for the 500 years after the epoch.
\<close>

section \<open>Bars\<close>

record open_bar =
  ob_symbol :: string
  ob_start :: instant
  ob_end :: instant
  ob_open_price :: decimal
  ob_high_price :: decimal
  ob_low_price :: decimal
  ob_close_price :: decimal
  ob_volume :: int
  ob_value :: decimal
  ob_trade_count :: int
  ob_buy_volume :: int
  ob_sell_volume :: int

text \<open>A closed \<^verbatim>\<open>Bar\<close> has the fields of \<^verbatim>\<open>_OpenBar\<close> and two more.\<close>

record bar = open_bar +
  b_vwap :: decimal
  b_available_at :: instant

definition epoch_seconds :: "instant \<Rightarrow> int" where
  "epoch_seconds t = (if 0 \<le> t then t div second_us else - (- t div second_us))"

definition interval_start :: "int \<Rightarrow> instant \<Rightarrow> instant" where
  "interval_start k t = (epoch_seconds t - epoch_seconds t mod k) * second_us"

definition bar_start :: "instant \<Rightarrow> int \<Rightarrow> instant res" where
  "bar_start v interval_seconds = (if interval_seconds < 1 then Inl (ValueError ''interval_seconds must be positive'')
     else Inr (interval_start interval_seconds v))"

definition side_volume :: "aggressor_side \<Rightarrow> trade \<Rightarrow> int" where
  "side_volume side t = (if tr_side t = Some side then tr_quantity t else 0)"

definition from_trade :: "trade \<Rightarrow> int \<Rightarrow> open_bar res" where
  "from_trade t interval_seconds =
     rbind (bar_start (tr_event_time t) interval_seconds) (\<lambda>start.
     Inr \<lparr>ob_symbol = tr_symbol t, ob_start = start, ob_end = start + interval_seconds * second_us,
       ob_open_price = tr_price t, ob_high_price = tr_price t, ob_low_price = tr_price t, ob_close_price = tr_price t,
       ob_volume = tr_quantity t, ob_value = dmul (tr_price t) (of_int (tr_quantity t)), ob_trade_count = 1,
       ob_buy_volume = side_volume SIDE_BUY t, ob_sell_volume = side_volume SIDE_SELL t\<rparr>)"

definition add_trade :: "open_bar \<Rightarrow> trade \<Rightarrow> open_bar" where
  "add_trade b t = b\<lparr>ob_high_price := max (ob_high_price b) (tr_price t), ob_low_price := min (ob_low_price b) (tr_price t),
     ob_close_price := tr_price t, ob_volume := ob_volume b + tr_quantity t,
     ob_value := dadd (ob_value b) (dmul (tr_price t) (of_int (tr_quantity t))), ob_trade_count := ob_trade_count b + 1,
     ob_buy_volume := ob_buy_volume b + side_volume SIDE_BUY t, ob_sell_volume := ob_sell_volume b + side_volume SIDE_SELL t\<rparr>"

definition close_bar :: "open_bar \<Rightarrow> instant \<Rightarrow> bar res" where
  "close_bar b available_at =
     rbind (ddiv_res (ob_value b) (of_int (ob_volume b))) (\<lambda>average.
     rbind (quantize PRICE_QUANTUM average) (\<lambda>vwap.
     Inr (open_bar.extend b (bar.fields vwap available_at))))"

section \<open>State\<close>

record symbol_state =
  ss_latest_trade :: "trade option"
  ss_latest_quote :: "quote_snapshot option"
  ss_last_trade_time :: "instant option"
  ss_last_quote_time :: "instant option"
  ss_cumulative_volume :: "int option"
  ss_open_bar :: "open_bar option"
  ss_closed_through :: "instant option"

definition fresh_symbol :: symbol_state where
  "fresh_symbol = \<lparr>ss_latest_trade = None, ss_latest_quote = None, ss_last_trade_time = None, ss_last_quote_time = None,
     ss_cumulative_volume = None, ss_open_bar = None, ss_closed_through = None\<rparr>"

record market_state =
  st_configuration :: trading_version
  st_symbols :: "(string \<times> symbol_state) list"
  st_active :: "string option"
  st_last_sequence :: "string \<Rightarrow> int option"
  st_last_received_at :: "string \<Rightarrow> instant option"
  st_issues :: "string set"

abbreviation SEQUENCE_GAP :: string where "SEQUENCE_GAP \<equiv> ''SEQUENCE_GAP''"
abbreviation SEQUENCE_REGRESSION :: string where "SEQUENCE_REGRESSION \<equiv> ''SEQUENCE_REGRESSION''"
abbreviation RECEIPT_TIME_REGRESSION :: string where "RECEIPT_TIME_REGRESSION \<equiv> ''RECEIPT_TIME_REGRESSION''"
abbreviation TRADE_TIME_REGRESSION :: string where "TRADE_TIME_REGRESSION \<equiv> ''TRADE_TIME_REGRESSION''"
abbreviation QUOTE_TIME_REGRESSION :: string where "QUOTE_TIME_REGRESSION \<equiv> ''QUOTE_TIME_REGRESSION''"
abbreviation LATE_TRADE :: string where "LATE_TRADE \<equiv> ''LATE_TRADE''"
abbreviation TRADE_VOLUME_DUPLICATE :: string where "TRADE_VOLUME_DUPLICATE \<equiv> ''TRADE_VOLUME_DUPLICATE''"
abbreviation TRADE_VOLUME_GAP :: string where "TRADE_VOLUME_GAP \<equiv> ''TRADE_VOLUME_GAP''"
abbreviation TRADE_VOLUME_REGRESSION :: string where "TRADE_VOLUME_REGRESSION \<equiv> ''TRADE_VOLUME_REGRESSION''"

definition interval_seconds :: "market_state \<Rightarrow> int" where
  "interval_seconds s = mc_bar_interval_seconds (tv_market (st_configuration s))"

definition fresh_symbols :: "trading_version \<Rightarrow> (string \<times> symbol_state) list" where
  "fresh_symbols c = map (\<lambda>symbol. (symbol, fresh_symbol)) (mc_symbols (tv_market c))"

definition new_market_state :: "trading_version \<Rightarrow> market_state" where
  "new_market_state c = \<lparr>st_configuration = c, st_symbols = fresh_symbols c, st_active = None,
     st_last_sequence = (\<lambda>_. None), st_last_received_at = (\<lambda>_. None), st_issues = {}\<rparr>"

definition integrity_issues :: "market_state \<Rightarrow> string list" where
  "integrity_issues s = sorted_list_of_set (st_issues s)"

record market_update =
  mu_event :: "market_event option"
  mu_finalized_bars :: "bar list"
  mu_issues :: "string list"

section \<open>Transport integrity\<close>

definition sequence_problems :: "market_state \<Rightarrow> stream_envelope \<Rightarrow> string list" where
  "sequence_problems s e =
     (case st_last_sequence s (se_stream_session_id e) of
        None \<Rightarrow> if se_receive_sequence e \<noteq> 1 then [SEQUENCE_GAP] else []
      | Some previous \<Rightarrow> if se_receive_sequence e \<le> previous then [SEQUENCE_REGRESSION]
          else if se_receive_sequence e \<noteq> previous + 1 then [SEQUENCE_GAP] else []) @
     (case st_last_received_at s (se_stream_session_id e) of
        None \<Rightarrow> [] | Some previous \<Rightarrow> if se_received_at e < previous then [RECEIPT_TIME_REGRESSION] else [])"

definition sequence_issues :: "market_state \<Rightarrow> stream_envelope \<Rightarrow> market_state \<times> string list" where
  "sequence_issues s e =
     (let issues = sequence_problems s e;
          session = se_stream_session_id e;
          previous_received_at = st_last_received_at s session;
          s1 = (if SEQUENCE_REGRESSION \<in> set issues then s
                else s\<lparr>st_last_sequence := (st_last_sequence s)(session \<mapsto> se_receive_sequence e),
                       st_last_received_at :=
                         (if previous_received_at = None \<or> the previous_received_at \<le> se_received_at e
                          then (st_last_received_at s)(session \<mapsto> se_received_at e) else st_last_received_at s)\<rparr>)
      in (s1\<lparr>st_issues := st_issues s1 \<union> set issues\<rparr>, issues))"

section \<open>Events of a symbol\<close>

text \<open>The effect of an event on its symbol: the state, the finalised bars, the issues of the event and the issues
  recorded for integrity only.\<close>

record symbol_effect =
  ef_state :: symbol_state
  ef_bars :: "bar list"
  ef_issues :: "string list"
  ef_integrity :: "string list"

definition apply_quote :: "symbol_state \<Rightarrow> quote_snapshot \<Rightarrow> symbol_effect" where
  "apply_quote ss q =
     (if (case ss_last_quote_time ss of None \<Rightarrow> False | Some l \<Rightarrow> qs_event_time q < l)
      then \<lparr>ef_state = ss, ef_bars = [], ef_issues = [QUOTE_TIME_REGRESSION], ef_integrity = []\<rparr>
      else \<lparr>ef_state = ss\<lparr>ss_latest_quote := Some q, ss_last_quote_time := Some (qs_event_time q)\<rparr>,
             ef_bars = [], ef_issues = [], ef_integrity = []\<rparr>)"

definition trade_regression :: "symbol_state \<Rightarrow> instant \<Rightarrow> bool" where
  "trade_regression ss t = (case ss_last_trade_time ss of None \<Rightarrow> False | Some l \<Rightarrow> t < l)"

definition apply_auction :: "symbol_state \<Rightarrow> auction_observation \<Rightarrow> symbol_effect" where
  "apply_auction ss a =
     (if trade_regression ss (ao_event_time a)
      then \<lparr>ef_state = ss, ef_bars = [], ef_issues = [TRADE_TIME_REGRESSION], ef_integrity = []\<rparr>
      else \<lparr>ef_state = ss\<lparr>ss_last_trade_time := Some (ao_event_time a)\<rparr>, ef_bars = [], ef_issues = [], ef_integrity = []\<rparr>)"

definition volume_issue :: "symbol_state \<Rightarrow> trade \<Rightarrow> string option" where
  "volume_issue ss t =
     (case ss_cumulative_volume ss of None \<Rightarrow> None
      | Some previous \<Rightarrow> if tr_cumulative_volume t < previous then Some TRADE_VOLUME_REGRESSION
          else if tr_cumulative_volume t = previous then Some TRADE_VOLUME_DUPLICATE
          else if tr_cumulative_volume t \<noteq> previous + tr_quantity t then Some TRADE_VOLUME_GAP else None)"

text \<open>\<^verbatim>\<open>_apply_trade\<close>: the state, the finalised bars and the integrity issues it adds.\<close>

definition apply_trade :: "int \<Rightarrow> symbol_state \<Rightarrow> trade \<Rightarrow> (symbol_state \<times> bar list \<times> string list) res" where
  "apply_trade k ss t =
     rbind (bar_start (tr_event_time t) k) (\<lambda>start.
     case ss_open_bar ss of
       None \<Rightarrow> rbind (from_trade t k) (\<lambda>b. Inr (ss\<lparr>ss_open_bar := Some b\<rparr>, [], []))
     | Some current \<Rightarrow>
         if start = ob_start current then Inr (ss\<lparr>ss_open_bar := Some (add_trade current t)\<rparr>, [], [])
         else if start < ob_start current then Inr (ss, [], [TRADE_TIME_REGRESSION])
         else rbind (close_bar current (tr_received_at t)) (\<lambda>finalized.
              rbind (from_trade t k) (\<lambda>b.
              Inr (ss\<lparr>ss_closed_through := Some (ob_end current), ss_open_bar := Some b\<rparr>, [finalized], []))))"

definition is_late :: "symbol_state \<Rightarrow> instant \<Rightarrow> bool" where
  "is_late ss bar_end = (case ss_closed_through ss of None \<Rightarrow> False | Some c \<Rightarrow> bar_end \<le> c)"

definition apply_trade_event :: "int \<Rightarrow> symbol_state \<Rightarrow> trade \<Rightarrow> symbol_effect res" where
  "apply_trade_event k ss t =
     (if trade_regression ss (tr_event_time t)
      then Inr \<lparr>ef_state = ss, ef_bars = [], ef_issues = [TRADE_TIME_REGRESSION], ef_integrity = []\<rparr>
      else let issue = volume_issue ss t;
               volume_issues = (case issue of None \<Rightarrow> [] | Some v \<Rightarrow> [v])
      in rbind (bar_start (tr_event_time t) k) (\<lambda>start.
         if is_late ss (start + k * second_us)
         then Inr \<lparr>ef_state = ss, ef_bars = [], ef_issues = volume_issues @ [LATE_TRADE], ef_integrity = []\<rparr>
         else if issue \<noteq> None
         then Inr \<lparr>ef_state = ss, ef_bars = [], ef_issues = volume_issues, ef_integrity = []\<rparr>
         else rbind (apply_trade k ss t) (\<lambda>(ss', bars, integrity).
           Inr \<lparr>ef_state = ss'\<lparr>ss_latest_trade := Some t, ss_last_trade_time := Some (tr_event_time t),
                  ss_cumulative_volume := Some (tr_cumulative_volume t)\<rparr>,
                ef_bars = bars, ef_issues = [], ef_integrity = integrity\<rparr>)))"

fun apply_event :: "int \<Rightarrow> symbol_state \<Rightarrow> market_event \<Rightarrow> symbol_effect res" where
  "apply_event k ss (QuoteEvent q) = Inr (apply_quote ss q)"
| "apply_event k ss (AuctionEvent a) = Inr (apply_auction ss a)"
| "apply_event k ss (TradeEvent t) = apply_trade_event k ss t"

section \<open>Transitions\<close>

definition BLOCKING_ISSUES :: "string list" where
  "BLOCKING_ISSUES = [LATE_TRADE, QUOTE_TIME_REGRESSION, TRADE_TIME_REGRESSION, TRADE_VOLUME_DUPLICATE,
     TRADE_VOLUME_GAP, TRADE_VOLUME_REGRESSION]"

definition update_symbol :: "string \<Rightarrow> symbol_state \<Rightarrow> (string \<times> symbol_state) list \<Rightarrow> (string \<times> symbol_state) list" where
  "update_symbol symbol ss = map (\<lambda>(s, old). if s = symbol then (s, ss) else (s, old))"

text \<open>A reconnect has unknown upstream history: no market state crosses it.\<close>

definition reconnect :: "market_state \<Rightarrow> stream_envelope \<Rightarrow> market_state" where
  "reconnect s e =
     (if st_active s \<noteq> None \<and> Some (se_stream_session_id e) \<noteq> st_active s
      then s\<lparr>st_symbols := fresh_symbols (st_configuration s), st_active := Some (se_stream_session_id e)\<rparr>
      else s\<lparr>st_active := Some (se_stream_session_id e)\<rparr>)"

definition no_event :: "string list \<Rightarrow> market_update" where
  "no_event issues = \<lparr>mu_event = None, mu_finalized_bars = [], mu_issues = issues\<rparr>"

definition apply_decoded :: "zone_info \<Rightarrow> market_state \<Rightarrow> string list \<Rightarrow> market_event \<Rightarrow> market_state \<times> market_update res" where
  "apply_decoded z s issues event =
     (if \<not> contains (st_configuration s) (fst (zn_local z (event_time event)))
      then (s, Inl (ValueError ''event falls outside the configuration effective interval''))
      else case map_of (st_symbols s) (event_symbol event) of
        None \<Rightarrow> (s, Inl (ValueError ''event symbol is outside the configured universe''))
      | Some ss \<Rightarrow>
        (case apply_event (interval_seconds s) ss event of
           Inl err \<Rightarrow> (s, Inl err)
         | Inr effect \<Rightarrow>
             let event_issues = issues @ ef_issues effect in
             (s\<lparr>st_symbols := update_symbol (event_symbol event) (ef_state effect) (st_symbols s),
                st_issues := st_issues s \<union> set (ef_integrity effect) \<union> set event_issues\<rparr>,
              Inr \<lparr>mu_event = (if list_ex (\<lambda>i. i \<in> set BLOCKING_ISSUES) event_issues then None else Some event),
                mu_finalized_bars = ef_bars effect, mu_issues = event_issues\<rparr>)))"

definition apply_envelope ::
  "market_feed \<Rightarrow> zone_info \<Rightarrow> market_state \<Rightarrow> stream_envelope \<Rightarrow> market_state \<times> market_update res" where
  "apply_envelope F z s e =
     (let (s1, issues) = sequence_issues (reconnect s e) e in
      if SEQUENCE_REGRESSION \<in> set issues \<or> RECEIPT_TIME_REGRESSION \<in> set issues then (s1, Inr (no_event issues))
      else if se_subscription_context e = CTX_INDICES then (s1, Inr (no_event issues))
      else case decode_event F z (nat (mc_quote_depth (tv_market (st_configuration s1)))) e of
        Inl err \<Rightarrow> (s1, Inl err)
      | Inr None \<Rightarrow> (s1, Inr (no_event issues))
      | Inr (Some event) \<Rightarrow> apply_decoded z s1 issues event)"

definition advance_symbol :: "instant \<Rightarrow> instant \<Rightarrow> instant \<Rightarrow> symbol_state \<Rightarrow> (symbol_state \<times> bar list) res" where
  "advance_symbol boundary event_at available_at ss =
     rbind (case ss_open_bar ss of
         None \<Rightarrow> Inr (ss, [])
       | Some b \<Rightarrow> if ob_end b \<le> event_at
           then rbind (close_bar b available_at) (\<lambda>finalized. Inr (ss\<lparr>ss_open_bar := None\<rparr>, [finalized]))
           else Inr (ss, []))
       (\<lambda>(ss1, bars). Inr (if (case ss_closed_through ss1 of None \<Rightarrow> True | Some c \<Rightarrow> boundary > c)
          then ss1\<lparr>ss_closed_through := Some boundary\<rparr> else ss1, bars))"

text \<open>The loop over the symbols: an exception leaves the symbols before it advanced.\<close>

fun advance_symbols :: "(symbol_state \<Rightarrow> (symbol_state \<times> bar list) res) \<Rightarrow> (string \<times> symbol_state) list \<Rightarrow>
    (string \<times> symbol_state) list \<times> bar list res" where
  "advance_symbols f [] = ([], Inr [])"
| "advance_symbols f ((symbol, ss) # rest) =
     (case f ss of
        Inl err \<Rightarrow> ((symbol, ss) # rest, Inl err)
      | Inr (ss', bars) \<Rightarrow>
          (let (rest', r) = advance_symbols f rest
           in ((symbol, ss') # rest', rbind r (\<lambda>more. Inr (bars @ more)))))"

definition advance_state :: "market_state \<Rightarrow> pydatetime \<Rightarrow> pydatetime \<Rightarrow> market_state \<times> bar list res" where
  "advance_state s at_time available_at =
     (case rbind (to_utc ''event_time must be timezone-aware'' at_time) (\<lambda>event_at.
           rbind (to_utc ''available_at must be timezone-aware'' available_at) (\<lambda>available.
           if available < event_at then Inl (ValueError ''available_at must not precede event_time'')
           else rbind (bar_start event_at (interval_seconds s)) (\<lambda>boundary. Inr (boundary, event_at, available)))) of
        Inl err \<Rightarrow> (s, Inl err)
      | Inr (boundary, event_at, available) \<Rightarrow>
          (let (symbols, r) = advance_symbols (advance_symbol boundary event_at available) (st_symbols s)
           in (s\<lparr>st_symbols := symbols\<rparr>, rbind r (\<lambda>bars. Inr (sort_key (\<lambda>b. (ob_end b, ob_symbol b)) bars)))))"

section \<open>Health\<close>

record market_health =
  mh_symbol :: string
  mh_evaluated_at :: instant
  mh_ready :: bool
  mh_reasons :: "string list"

definition before :: "instant option \<Rightarrow> instant \<Rightarrow> instant \<Rightarrow> bool" where
  "before required_since event_at received_at =
     (case required_since of None \<Rightarrow> False | Some r \<Rightarrow> event_at < r \<or> received_at < r)"

definition trade_reasons :: "int \<Rightarrow> instant \<Rightarrow> instant option \<Rightarrow> trade option \<Rightarrow> string list" where
  "trade_reasons stale_after evaluated_at required_since latest =
     (case latest of None \<Rightarrow> [''MISSING_TRADE'']
      | Some t \<Rightarrow> if before required_since (tr_event_time t) (tr_received_at t) then [''MISSING_TRADE'']
          else if tr_received_at t > evaluated_at then [''FUTURE_TRADE'']
          else if evaluated_at - tr_received_at t > stale_after * second_us then [''STALE_TRADE''] else [])"

definition quote_reasons :: "int \<Rightarrow> instant \<Rightarrow> instant option \<Rightarrow> quote_snapshot option \<Rightarrow> string list" where
  "quote_reasons stale_after evaluated_at required_since latest =
     (case latest of None \<Rightarrow> [''MISSING_QUOTE'']
      | Some q \<Rightarrow> if before required_since (qs_event_time q) (qs_received_at q) then [''MISSING_QUOTE'']
          else (if qs_received_at q > evaluated_at then [''FUTURE_QUOTE'']
                else if evaluated_at - qs_received_at q > stale_after * second_us then [''STALE_QUOTE''] else []) @
               (if \<not> qs_is_complete q then [''INCOMPLETE_QUOTE''] else []))"

definition market_health_at ::
  "market_state \<Rightarrow> string \<Rightarrow> pydatetime \<Rightarrow> pydatetime option \<Rightarrow> market_health res" where
  "market_health_at s symbol evaluated_at required_since =
     rbind (to_utc ''evaluated_at must be timezone-aware'' evaluated_at) (\<lambda>now.
     rbind (case required_since of None \<Rightarrow> Inr None
            | Some r \<Rightarrow> rbind (to_utc ''required_since must be timezone-aware'' r) (\<lambda>since.
                if since > now then Inl (ValueError ''required_since must not follow evaluated_at'') else Inr (Some since)))
       (\<lambda>since.
     case map_of (st_symbols s) symbol of
       None \<Rightarrow> Inl (ValueError ''symbol is outside the configured universe'')
     | Some ss \<Rightarrow>
         let quality = tv_data_quality (st_configuration s);
             reasons = fromkeys (integrity_issues s @
               trade_reasons (dq_trade_stale_after_seconds quality) now since (ss_latest_trade ss) @
               quote_reasons (dq_quote_stale_after_seconds quality) now since (ss_latest_quote ss))
         in Inr \<lparr>mh_symbol = symbol, mh_evaluated_at = now, mh_ready = (reasons = []), mh_reasons = reasons\<rparr>))"

definition latest_quote :: "market_state \<Rightarrow> string \<Rightarrow> quote_snapshot option res" where
  "latest_quote s symbol =
     (case map_of (st_symbols s) symbol of None \<Rightarrow> Inl (ValueError ''symbol is outside the configured universe'')
      | Some ss \<Rightarrow> Inr (ss_latest_quote ss))"

end
