(* ===== verification/MarketBars.thy ===== *)
theory MarketBars
  imports MarketState
begin

text \<open>
  Properties of the market state machine over whole runs of one stream session: finalised bars are the
  aggregates of the accepted trades, are sound and are never available before they end, and a symbol is
  ready only when the stream was received without gap.

  A run applies operations until the first exception and logs every update; the log is the ghost history that
  the invariants relate to the state.
\<close>

section \<open>Runs\<close>

datatype market_op = Receive stream_envelope | Advance instant instant

text \<open>The state after an operation and what it reported.\<close>

definition market_step :: "market_feed \<Rightarrow> zone_info \<Rightarrow> market_state \<times> market_update list \<Rightarrow> market_op \<Rightarrow>
    (market_state \<times> market_update list) res" where
  "market_step F z m op =
     (case op of
        Receive e \<Rightarrow> (let (s, r) = apply_envelope F z (fst m) e in rbind r (\<lambda>u. Inr (s, snd m @ [u])))
      | Advance event_at available_at \<Rightarrow>
          (let (s, r) = advance_state (fst m) (Aware event_at) (Aware available_at)
           in rbind r (\<lambda>bars. Inr (s, snd m @ [\<lparr>mu_event = None, mu_finalized_bars = bars, mu_issues = []\<rparr>]))))"

definition market_run :: "market_feed \<Rightarrow> zone_info \<Rightarrow> trading_version \<Rightarrow> market_op list \<Rightarrow>
    (market_state \<times> market_update list) res" where
  "market_run F z c ops = run_res (market_step F z) (new_market_state c, []) ops"

text \<open>The accepted trades and the finalised bars of a symbol, read from the log.\<close>

definition trades_of :: "market_update \<Rightarrow> trade list" where
  "trades_of u = (case mu_event u of Some (TradeEvent t) \<Rightarrow> [t] | _ \<Rightarrow> [])"

definition accepted_trades :: "string \<Rightarrow> market_update list \<Rightarrow> trade list" where
  "accepted_trades symbol history = filter (\<lambda>t. tr_symbol t = symbol) (concat (map trades_of history))"

definition logged_bars :: "string \<Rightarrow> market_update list \<Rightarrow> bar list" where
  "logged_bars symbol history = filter (\<lambda>b. ob_symbol b = symbol) (concat (map mu_finalized_bars history))"

section \<open>The reference: one bar per interval that has a trade\<close>

definition trade_start :: "int \<Rightarrow> trade \<Rightarrow> instant" where
  "trade_start k t = interval_start k (tr_event_time t)"

definition trade_value :: "trade \<Rightarrow> decimal" where
  "trade_value t = dmul (tr_price t) (of_int (tr_quantity t))"

definition aggregate :: "int \<Rightarrow> string \<Rightarrow> instant \<Rightarrow> trade list \<Rightarrow> open_bar" where
  "aggregate k symbol start ts = \<lparr>ob_symbol = symbol, ob_start = start, ob_end = start + k * second_us,
     ob_open_price = tr_price (hd ts), ob_high_price = Max (set (map tr_price ts)),
     ob_low_price = Min (set (map tr_price ts)), ob_close_price = tr_price (last ts),
     ob_volume = sum_list (map tr_quantity ts), ob_value = dsum (map trade_value ts), ob_trade_count = int (length ts),
     ob_buy_volume = sum_list (map (side_volume SIDE_BUY) ts), ob_sell_volume = sum_list (map (side_volume SIDE_SELL) ts)\<rparr>"

definition reference_bars :: "int \<Rightarrow> string \<Rightarrow> trade list \<Rightarrow> open_bar list" where
  "reference_bars k symbol ts =
     map (\<lambda>start. aggregate k symbol start (filter (\<lambda>t. trade_start k t = start) ts)) (sorted_set (map (trade_start k) ts))"

section \<open>Intervals\<close>

lemma bar_start_pos: "1 \<le> k \<Longrightarrow> bar_start t k = Inr (interval_start k t)"
  by (simp add: bar_start_def)

lemma interval_start_dvd: "k * second_us dvd interval_start k t"
proof -
  have "k dvd epoch_seconds t - epoch_seconds t mod k" by (rule dvd_minus_mod)
  then show ?thesis unfolding interval_start_def by (rule mult_dvd_mono) simp
qed

text \<open>Interval starts are multiples of the interval, so a later one lies at least one interval later.\<close>

lemma starts_apart:
  fixes a b w :: int
  assumes "w dvd a" "w dvd b" "a < b"
  shows "a + w \<le> b"
proof -
  have "w dvd b - a" using assms by (intro dvd_diff)
  then have "w \<le> b - a" using assms(3) by (intro zdvd_imp_le) auto
  then show ?thesis by simp
qed

lemma interval_apart: "interval_start k t < interval_start k t' \<Longrightarrow> interval_start k t + k * second_us \<le> interval_start k t'"
  by (intro starts_apart interval_start_dvd)

text \<open>Among trades in time order a new interval comes after all earlier ones.\<close>

lemma sorted_set_snoc_new:
  assumes "\<And>x. x \<in> set xs \<Longrightarrow> x < (y::'a::linorder)"
  shows "sorted_set (xs @ [y]) = sorted_set xs @ [y]"
proof -
  have "y \<notin> set xs" using assms by auto
  then have "distinct (sorted_set xs @ [y])" "set (sorted_set xs @ [y]) = set (xs @ [y])"
    by (auto simp: sorted_set_def)
  moreover have "sorted (sorted_set xs @ [y])"
    using assms by (auto simp: sorted_set_def sorted_append less_imp_le)
  ultimately show ?thesis
    by (intro sorted_distinct_set_unique) (auto simp: sorted_set_def)
qed

lemma sorted_set_snoc_old: "y \<in> set xs \<Longrightarrow> sorted_set (xs @ [y]) = sorted_set xs"
  by (rule sorted_distinct_set_unique) (auto simp: sorted_set_def)

lemma sorted_set_last:
  assumes "(y::'a::linorder) \<in> set xs" "\<And>x. x \<in> set xs \<Longrightarrow> x \<le> y"
  shows "\<exists>ys. sorted_set xs = ys @ [y] \<and> y \<notin> set ys"
proof -
  let ?ys = "sorted_set (filter (\<lambda>x. x \<noteq> y) xs)"
  have "sorted_set xs = ?ys @ [y]"
  proof (rule sorted_distinct_set_unique)
    show "sorted (?ys @ [y])" using assms(2) by (auto simp: sorted_set_def sorted_append)
  qed (use assms in \<open>auto simp: sorted_set_def\<close>)
  moreover have "y \<notin> set ?ys" by (simp add: sorted_set_def)
  ultimately show ?thesis by blast
qed

section \<open>Aggregation is incremental\<close>

lemma from_trade_aggregate:
  "1 \<le> k \<Longrightarrow> from_trade t k = Inr (aggregate k (tr_symbol t) (trade_start k t) [t])"
  by (simp add: from_trade_def bar_start_pos aggregate_def trade_start_def trade_value_def dsum_def dadd_def dmul_def)

lemma add_trade_aggregate:
  assumes "ts \<noteq> []"
  shows "add_trade (aggregate k symbol start ts) t = aggregate k symbol start (ts @ [t])"
proof -
  have "insert (tr_price t) (tr_price ` set ts) = set (map tr_price (ts @ [t]))" by auto
  then show ?thesis
    using assms by (simp add: add_trade_def aggregate_def trade_value_def dsum_def max.commute min.commute ac_simps)
qed

lemma reference_bars_new:
  assumes "\<And>x. x \<in> set ts \<Longrightarrow> trade_start k x < trade_start k t"
  shows "reference_bars k symbol (ts @ [t]) = reference_bars k symbol ts @ [aggregate k symbol (trade_start k t) [t]]"
proof -
  have "sorted_set (map (trade_start k) ts @ [trade_start k t]) = sorted_set (map (trade_start k) ts) @ [trade_start k t]"
    using assms by (intro sorted_set_snoc_new) auto
  moreover have "filter (\<lambda>x. trade_start k x = trade_start k t) ts = []"
    using assms by (force simp: filter_empty_conv)
  moreover have "map (\<lambda>start. aggregate k symbol start (filter (\<lambda>x. trade_start k x = start) (ts @ [t])))
      (sorted_set (map (trade_start k) ts)) = reference_bars k symbol ts"
    unfolding reference_bars_def using assms by (intro map_cong) (force simp: sorted_set_def)+
  ultimately show ?thesis by (simp add: reference_bars_def)
qed

lemma reference_bars_same:
  assumes "trade_start k t \<in> trade_start k ` set ts" "\<And>x. x \<in> set ts \<Longrightarrow> trade_start k x \<le> trade_start k t"
    and "bars @ [b] = reference_bars k symbol ts"
  shows "bars @ [add_trade b t] = reference_bars k symbol (ts @ [t])" "ob_start b = trade_start k t"
proof -
  let ?s = "trade_start k t"
  obtain ys where ys: "sorted_set (map (trade_start k) ts) = ys @ [?s]" "?s \<notin> set ys"
    using sorted_set_last [of ?s "map (trade_start k) ts"] assms(1,2) by auto
  have b: "b = aggregate k symbol ?s (filter (\<lambda>x. trade_start k x = ?s) ts)"
    and bars: "bars = map (\<lambda>start. aggregate k symbol start (filter (\<lambda>x. trade_start k x = start) ts)) ys"
    using assms(3) by (auto simp: reference_bars_def ys(1))
  have "filter (\<lambda>x. trade_start k x = ?s) ts \<noteq> []" using assms(1) by (auto simp: filter_empty_conv)
  then have "add_trade b t = aggregate k symbol ?s (filter (\<lambda>x. trade_start k x = ?s) (ts @ [t]))"
    by (simp add: b add_trade_aggregate)
  moreover have "sorted_set (map (trade_start k) (ts @ [t])) = ys @ [?s]"
    using assms(1) ys(1) by (simp add: sorted_set_snoc_old)
  moreover have "bars = map (\<lambda>start. aggregate k symbol start (filter (\<lambda>x. trade_start k x = start) (ts @ [t]))) ys"
    unfolding bars using ys(2) by (intro map_cong) auto
  ultimately show "bars @ [add_trade b t] = reference_bars k symbol (ts @ [t])" by (simp add: reference_bars_def)
  show "ob_start b = trade_start k t" by (simp add: b aggregate_def)
qed

section \<open>The invariant of a symbol\<close>

lemma epoch_seconds_mono: "t \<le> t' \<Longrightarrow> epoch_seconds t \<le> epoch_seconds t'"
proof (cases "0 \<le> t \<or> t' < 0")
  case False
  then have "0 \<le> - t div second_us" "0 \<le> t' div second_us" by (auto simp: pos_imp_zdiv_nonneg_iff)
  with False show ?thesis by (simp add: epoch_seconds_def)
qed (auto simp: epoch_seconds_def zdiv_mono1)

lemma epoch_seconds_mult: "epoch_seconds (n * second_us) = n"
proof -
  have "(- n) * second_us div second_us = - n" by (rule nonzero_mult_div_cancel_right) simp
  then show ?thesis by (simp add: epoch_seconds_def)
qed

lemma interval_start_mono:
  assumes "1 \<le> k" "t \<le> t'"
  shows "interval_start k t \<le> interval_start k t'"
proof -
  have "epoch_seconds t div k \<le> epoch_seconds t' div k"
    using assms epoch_seconds_mono by (intro zdiv_mono1) auto
  then have "k * (epoch_seconds t div k) \<le> k * (epoch_seconds t' div k)" using assms(1) by (intro mult_left_mono) auto
  then show ?thesis by (simp add: interval_start_def minus_mod_eq_mult_div)
qed

text \<open>After the epoch an interval starts no later than its trades.\<close>

lemma interval_start_le:
  assumes "1 \<le> k" "0 < interval_start k t"
  shows "interval_start k t \<le> t"
proof -
  let ?e = "epoch_seconds t"
  have "?e mod k \<ge> 0" using assms(1) by simp
  then have "0 < ?e" using assms(2) by (simp add: interval_start_def)
  then have "0 \<le> t" by (cases "0 \<le> t") (auto simp: epoch_seconds_def neg_0_le_iff_le pos_imp_zdiv_nonneg_iff not_le
      dest: order.strict_trans1)
  then have "?e * second_us \<le> t" by (simp add: epoch_seconds_def)
  moreover have "(?e - ?e mod k) * second_us \<le> ?e * second_us" using \<open>?e mod k \<ge> 0\<close> by simp
  ultimately show ?thesis by (simp add: interval_start_def)
qed

text \<open>What a closed bar remembers of its closing.\<close>

definition closed_bar :: "bar \<Rightarrow> bool" where
  "closed_bar b = (quantize PRICE_QUANTUM (ddiv (ob_value b) (of_int (ob_volume b))) = Inr (b_vwap b) \<and>
     (0 \<le> ob_start b \<longrightarrow> ob_end b \<le> b_available_at b))"

lemma close_bar_Inr:
  assumes "close_bar b available_at = Inr c"
  shows "open_bar.truncate c = b" "ob_symbol c = ob_symbol b" "(0 \<le> ob_start b \<longrightarrow> ob_end b \<le> available_at) \<Longrightarrow> closed_bar c"
proof -
  from assms obtain v where "quantize PRICE_QUANTUM (ddiv (ob_value b) (of_int (ob_volume b))) = Inr v"
    and "c = open_bar.extend b (bar.fields v available_at)"
    by (auto simp: close_bar_def ddiv_res_def rbind_eq_Inr split: if_splits)
  then show "open_bar.truncate c = b" "ob_symbol c = ob_symbol b"
    "(0 \<le> ob_start b \<longrightarrow> ob_end b \<le> available_at) \<Longrightarrow> closed_bar c"
    by (auto simp: open_bar.defs bar.defs closed_bar_def)
qed

definition sound_trade :: "string \<Rightarrow> instant option \<Rightarrow> trade \<Rightarrow> bool" where
  "sound_trade symbol last_time t = (tr_symbol t = symbol \<and> 0 < tr_price t \<and> tr_price t \<in> \<int> \<and> 0 < tr_quantity t \<and>
     (\<exists>l. last_time = Some l \<and> tr_event_time t \<le> l))"

definition symbol_inv :: "int \<Rightarrow> string \<Rightarrow> symbol_state \<Rightarrow> trade list \<Rightarrow> bar list \<Rightarrow> bool" where
  "symbol_inv k symbol ss ts bs \<longleftrightarrow>
     (\<forall>t \<in> set ts. sound_trade symbol (ss_last_trade_time ss) t) \<and> (\<forall>b \<in> set bs. closed_bar b) \<and>
     (case ss_open_bar ss of
        None \<Rightarrow> map open_bar.truncate bs = reference_bars k symbol ts \<and>
          (\<forall>t \<in> set ts. is_late ss (trade_start k t + k * second_us))
      | Some b \<Rightarrow> map open_bar.truncate bs @ [b] = reference_bars k symbol ts \<and>
          ob_start b \<in> trade_start k ` set ts \<and> (\<forall>t \<in> set ts. trade_start k t \<le> ob_start b))"

lemma sound_trade_later:
  "sound_trade symbol last_time t \<Longrightarrow> (\<And>l. last_time = Some l \<Longrightarrow> l \<le> l') \<Longrightarrow> sound_trade symbol (Some l') t"
  by (auto simp: sound_trade_def intro: order.trans)

lemma symbol_inv_fresh: "symbol_inv k symbol fresh_symbol [] []"
  by (simp add: symbol_inv_def fresh_symbol_def reference_bars_def sorted_set_def)

lemma reference_bar_fields:
  "b \<in> set (reference_bars k symbol ts) \<Longrightarrow> ob_symbol b = symbol \<and> ob_end b = ob_start b + k * second_us"
  by (auto simp: reference_bars_def aggregate_def)

lemma symbol_inv_open:
  assumes "symbol_inv k symbol ss ts bs" "ss_open_bar ss = Some b"
  shows "ob_symbol b = symbol" "ob_end b = ob_start b + k * second_us"
proof -
  have "map open_bar.truncate bs @ [b] = reference_bars k symbol ts" using assms by (simp add: symbol_inv_def)
  then have "b \<in> set (reference_bars k symbol ts)" by (metis in_set_conv_decomp)
  then show "ob_symbol b = symbol" "ob_end b = ob_start b + k * second_us" by (auto dest: reference_bar_fields)
qed

text \<open>The invariant does not depend on quotes and volumes, and a later trade clock keeps it.\<close>

lemma symbol_inv_cong:
  assumes "symbol_inv k symbol ss ts bs" "ss_open_bar ss' = ss_open_bar ss" "ss_closed_through ss' = ss_closed_through ss"
    and "ss_last_trade_time ss' = ss_last_trade_time ss \<or>
      (\<exists>l'. ss_last_trade_time ss' = Some l' \<and> (\<forall>l. ss_last_trade_time ss = Some l \<longrightarrow> l \<le> l'))"
  shows "symbol_inv k symbol ss' ts bs"
proof -
  have "sound_trade symbol (ss_last_trade_time ss') t" if "t \<in> set ts" for t
    using assms(1,4) that by (auto simp: symbol_inv_def sound_trade_def intro: order.trans)
  then show ?thesis using assms(1-3) by (simp add: symbol_inv_def is_late_def cong: option.case_cong)
qed

lemma apply_quote_inv:
  "symbol_inv k symbol ss ts bs \<Longrightarrow> symbol_inv k symbol (ef_state (apply_quote ss q)) ts bs \<and> ef_bars (apply_quote ss q) = [] \<and>
   set (ef_issues (apply_quote ss q)) \<subseteq> set BLOCKING_ISSUES"
  by (auto simp: apply_quote_def BLOCKING_ISSUES_def elim: symbol_inv_cong)

lemma apply_auction_inv:
  "symbol_inv k symbol ss ts bs \<Longrightarrow> symbol_inv k symbol (ef_state (apply_auction ss a)) ts bs \<and> ef_bars (apply_auction ss a) = [] \<and>
   set (ef_issues (apply_auction ss a)) \<subseteq> set BLOCKING_ISSUES"
  by (auto simp: apply_auction_def BLOCKING_ISSUES_def trade_regression_def elim!: symbol_inv_cong split: option.splits)

lemma symbol_inv_reference:
  "symbol_inv k symbol ss ts bs \<Longrightarrow>
   map open_bar.truncate bs @ (case ss_open_bar ss of None \<Rightarrow> [] | Some b \<Rightarrow> [b]) = reference_bars k symbol ts"
  by (simp add: symbol_inv_def split: option.splits)

text \<open>A new interval after all earlier ones: the open bar starts over with the trade.\<close>

lemma symbol_inv_new_bar:
  assumes "\<And>x. x \<in> set ts \<Longrightarrow> sound_trade symbol last_time x" "\<And>b. b \<in> set bs \<Longrightarrow> closed_bar b"
    and "map open_bar.truncate bs = reference_bars k symbol ts" "\<And>x. x \<in> set ts \<Longrightarrow> trade_start k x < trade_start k t"
    and "sound_trade symbol (Some l) t" "\<And>l'. last_time = Some l' \<Longrightarrow> l' \<le> l"
    and "ss_open_bar ss = Some (aggregate k symbol (trade_start k t) [t])" "ss_last_trade_time ss = Some l"
  shows "symbol_inv k symbol ss (ts @ [t]) bs"
proof -
  have "sound_trade symbol (Some l) x" if "x \<in> set ts" for x
    using assms(1) [OF that] assms(6) by (rule sound_trade_later)
  moreover have "reference_bars k symbol (ts @ [t]) = reference_bars k symbol ts @ [aggregate k symbol (trade_start k t) [t]]"
    using assms(4) by (rule reference_bars_new)
  moreover have "ob_start (aggregate k symbol (trade_start k t) [t]) = trade_start k t" by (simp add: aggregate_def)
  ultimately show ?thesis using assms(2,3,4,5,7,8) by (auto simp: symbol_inv_def intro: less_imp_le)
qed

text \<open>An accepted trade extends the history of its symbol; a refused one leaves the symbol as it was.\<close>

lemma apply_trade_event_cases:
  assumes "1 \<le> k" "apply_trade_event k ss t = Inr ef"
  obtains (refused) "ef_state ef = ss" "ef_bars ef = []" "ef_issues ef \<noteq> []" "set (ef_issues ef) \<subseteq> set BLOCKING_ISSUES"
  | (accepted) ss' where "\<not> trade_regression ss (tr_event_time t)" "\<not> is_late ss (trade_start k t + k * second_us)"
      "apply_trade k ss t = Inr (ss', ef_bars ef, ef_integrity ef)" "ef_issues ef = []"
      "ef_state ef = ss'\<lparr>ss_latest_trade := Some t, ss_last_trade_time := Some (tr_event_time t),
         ss_cumulative_volume := Some (tr_cumulative_volume t)\<rparr>"
proof (cases "trade_regression ss (tr_event_time t) \<or> is_late ss (trade_start k t + k * second_us) \<or> volume_issue ss t \<noteq> None")
  case True
  then have "ef_state ef = ss \<and> ef_bars ef = [] \<and> ef_issues ef \<noteq> [] \<and> set (ef_issues ef) \<subseteq> set BLOCKING_ISSUES"
    using assms by (auto simp: apply_trade_event_def bar_start_pos trade_start_def Let_def BLOCKING_ISSUES_def
        volume_issue_def split: if_splits option.splits)
  then show ?thesis using refused by blast
next
  case False
  then show ?thesis
    using assms accepted by (auto simp: apply_trade_event_def bar_start_pos trade_start_def Let_def rbind_eq_Inr)
qed

lemma apply_trade_inv:
  assumes k: "1 \<le> k" and inv: "symbol_inv k symbol ss ts bs" and sym: "tr_symbol t = symbol"
    and snd: "0 < tr_price t" "tr_price t \<in> \<int>" "0 < tr_quantity t" and rec: "tr_event_time t \<le> tr_received_at t"
    and ok: "\<not> trade_regression ss (tr_event_time t)" "\<not> is_late ss (trade_start k t + k * second_us)"
    and step: "apply_trade k ss t = Inr (ss', bars, integrity)"
  shows "symbol_inv k symbol (ss'\<lparr>ss_latest_trade := Some t, ss_last_trade_time := Some (tr_event_time t),
      ss_cumulative_volume := v\<rparr>) (ts @ [t]) (bs @ bars) \<and> (\<forall>b \<in> set bars. ob_symbol b = symbol) \<and> integrity = []"
    (is "symbol_inv k symbol ?ss (ts @ [t]) (bs @ bars) \<and> _")
proof -
  have t: "sound_trade symbol (Some (tr_event_time t)) t" using sym snd by (simp add: sound_trade_def)
  have ts: "sound_trade symbol (ss_last_trade_time ss) x" if "x \<in> set ts" for x
    using inv that by (simp add: symbol_inv_def)
  have bs: "closed_bar b" if "b \<in> set bs" for b using inv that by (simp add: symbol_inv_def)
  have last: "l \<le> tr_event_time t" if "ss_last_trade_time ss = Some l" for l
    using ok(1) that by (simp add: trade_regression_def)
  have mono: "trade_start k x \<le> trade_start k t" if "x \<in> set ts" for x
    using ts [OF that] last interval_start_mono [OF k] by (force simp: sound_trade_def trade_start_def)
  note new = from_trade_aggregate [OF k, of t, unfolded sym] bar_start_pos [OF k]
  show ?thesis
  proof (cases "ss_open_bar ss")
    case None
    then have ref: "map open_bar.truncate bs = reference_bars k symbol ts"
      and late: "\<And>x. x \<in> set ts \<Longrightarrow> is_late ss (trade_start k x + k * second_us)"
      using inv by (auto simp: symbol_inv_def)
    have "trade_start k x < trade_start k t" if "x \<in> set ts" for x
      using late [OF that] ok(2) by (auto simp: is_late_def split: option.splits)
    then show ?thesis using step None
      by (auto simp: apply_trade_def new intro!: symbol_inv_new_bar [OF ts bs ref _ t last])
  next
    case (Some b)
    then have ref: "map open_bar.truncate bs @ [b] = reference_bars k symbol ts"
      and b: "ob_start b \<in> trade_start k ` set ts" "\<And>x. x \<in> set ts \<Longrightarrow> trade_start k x \<le> ob_start b"
      using inv by (auto simp: symbol_inv_def)
    have le: "ob_start b \<le> trade_start k t" using b(1) mono by auto
    show ?thesis
    proof (cases "trade_start k t = ob_start b")
      case True
      note same = reference_bars_same [OF _ mono ref]
      have "trade_start k t \<in> trade_start k ` set ts" using b(1) True by simp
      then have "map open_bar.truncate bs @ [add_trade b t] = reference_bars k symbol (ts @ [t])" using same by blast
      moreover have "ob_start (add_trade b t) = trade_start k t" by (simp add: add_trade_def True)
      moreover have "sound_trade symbol (Some (tr_event_time t)) x" if "x \<in> set ts" for x
        using ts [OF that] last by (rule sound_trade_later)
      ultimately have "symbol_inv k symbol ?ss (ts @ [t]) bs"
        if "ss' = ss\<lparr>ss_open_bar := Some (add_trade b t)\<rparr>"
        unfolding symbol_inv_def that using t bs mono by simp
      with True step Some show ?thesis by (auto simp: apply_trade_def new trade_start_def)
    next
      case False
      then have lt: "ob_start b < trade_start k t" using le by simp
      obtain c where c: "close_bar b (tr_received_at t) = Inr c" "bars = [c]" "integrity = []"
          "ss' = ss\<lparr>ss_closed_through := Some (ob_end b), ss_open_bar := Some (aggregate k symbol (trade_start k t) [t])\<rparr>"
        using step Some lt by (auto simp: apply_trade_def new trade_start_def rbind_eq_Inr split: if_splits)
      have "ob_end b \<le> tr_received_at t" if "0 \<le> ob_start b"
      proof -
        obtain x :: trade where "ob_start b = interval_start k (tr_event_time x)" using b(1) by (auto simp: trade_start_def)
        then have "ob_end b \<le> trade_start k t"
          using interval_apart [of k "tr_event_time x" "tr_event_time t"] lt symbol_inv_open [OF inv Some]
          by (simp add: trade_start_def)
        moreover have "trade_start k t \<le> tr_event_time t"
          using interval_start_le [OF k] that lt by (simp add: trade_start_def)
        ultimately show ?thesis using rec by simp
      qed
      then have closed: "closed_bar c" and core: "open_bar.truncate c = b" "ob_symbol c = symbol"
        using close_bar_Inr [OF c(1)] symbol_inv_open [OF inv Some] by auto
      have "symbol_inv k symbol ?ss (ts @ [t]) (bs @ [c])"
        using b(2) lt closed bs core ref c(4)
        by (intro symbol_inv_new_bar [OF ts _ _ _ t last]) (auto intro: order.strict_trans1)
      with c core show ?thesis by simp
    qed
  qed
qed

text \<open>The boundary of an advance is past every interval that ended by its time.\<close>

lemma boundary_past_end:
  assumes "1 \<le> k" "e = interval_start k x + k * second_us" "e \<le> event_at"
  shows "e \<le> interval_start k event_at"
proof -
  have "k * second_us dvd e" using assms(2) interval_start_dvd by simp
  then obtain n where e: "e = k * second_us * n" by (rule dvdE)
  have "k * n \<le> epoch_seconds event_at"
  proof -
    have "epoch_seconds e \<le> epoch_seconds event_at" using assms(3) by (rule epoch_seconds_mono)
    moreover have "epoch_seconds e = k * n"
      using epoch_seconds_mult [of "k * n"] by (simp add: e ac_simps)
    ultimately show ?thesis by simp
  qed
  then have "k * n div k \<le> epoch_seconds event_at div k" using assms(1) by (intro zdiv_mono1) auto
  then have "n \<le> epoch_seconds event_at div k" using assms(1) by simp
  then have "k * n \<le> k * (epoch_seconds event_at div k)" using assms(1) by (intro mult_left_mono) auto
  then show ?thesis by (simp add: e interval_start_def minus_mod_eq_mult_div)
qed

lemma advance_symbol_inv:
  assumes k: "1 \<le> k" and inv: "symbol_inv k symbol ss ts bs" and avail: "event_at \<le> available_at"
    and step: "advance_symbol (interval_start k event_at) event_at available_at ss = Inr (ss', bars)"
  shows "symbol_inv k symbol ss' ts (bs @ bars) \<and> (\<forall>b \<in> set bars. ob_symbol b = symbol) \<and> length bars \<le> 1"
proof -
  obtain ss1 where close: "(case ss_open_bar ss of None \<Rightarrow> Inr (ss, [])
       | Some b \<Rightarrow> if ob_end b \<le> event_at
           then rbind (close_bar b available_at) (\<lambda>finalized. Inr (ss\<lparr>ss_open_bar := None\<rparr>, [finalized]))
           else Inr (ss, [])) = Inr (ss1, bars)"
    and ss': "ss' = (if (case ss_closed_through ss1 of None \<Rightarrow> True | Some c \<Rightarrow> interval_start k event_at > c)
          then ss1\<lparr>ss_closed_through := Some (interval_start k event_at)\<rparr> else ss1)"
    using step by (auto simp: advance_symbol_def rbind_eq_Inr)
  have keeps: "ss_open_bar ss' = ss_open_bar ss1" "ss_last_trade_time ss' = ss_last_trade_time ss1"
    and late: "\<And>e. is_late ss1 e \<or> e \<le> interval_start k event_at \<Longrightarrow> is_late ss' e"
    unfolding ss' by (auto simp: is_late_def split: option.splits)
  show ?thesis
  proof (cases "\<exists>b. ss_open_bar ss = Some b \<and> ob_end b \<le> event_at")
    case False
    then have "ss1 = ss" "bars = []" using close by (auto split: option.splits if_splits)
    then show ?thesis using inv keeps late by (auto simp: symbol_inv_def split: option.splits)
  next
    case True
    then obtain b c where b: "ss_open_bar ss = Some b" "ob_end b \<le> event_at" and c: "close_bar b available_at = Inr c"
      and ss1: "ss1 = ss\<lparr>ss_open_bar := None\<rparr>" "bars = [c]"
      using close by (auto simp: rbind_eq_Inr)
    note end_b = symbol_inv_open [OF inv b(1)]
    have ref: "map open_bar.truncate bs @ [b] = reference_bars k symbol ts" and bx: "ob_start b \<in> trade_start k ` set ts"
      and le: "\<And>t. t \<in> set ts \<Longrightarrow> trade_start k t \<le> ob_start b"
      using inv b(1) by (auto simp: symbol_inv_def)
    obtain x :: trade where x: "ob_start b = interval_start k (tr_event_time x)" using bx by (auto simp: trade_start_def)
    have "ob_end b \<le> interval_start k event_at"
      using boundary_past_end [OF k _ b(2)] end_b(2) x by simp
    then have "is_late ss' (trade_start k t + k * second_us)" if "t \<in> set ts" for t
      using le [OF that] end_b(2) by (intro late) auto
    moreover have "closed_bar c" "open_bar.truncate c = b" "ob_symbol c = symbol"
      using close_bar_Inr [OF c] avail b(2) end_b(1) by auto
    ultimately show ?thesis using ref inv keeps ss1 by (auto simp: symbol_inv_def)
  qed
qed

section \<open>The invariant of a run\<close>

lemma apply_event_inv:
  assumes "1 \<le> k" "symbol_inv k symbol ss ts bs" "event_symbol ev = symbol" "sound_event depth ev"
    "event_time ev \<le> event_received_at ev" "apply_event k ss ev = Inr ef"
  shows "symbol_inv k symbol (ef_state ef) (ts @ (if ef_issues ef = [] then (case ev of TradeEvent t \<Rightarrow> [t] | _ \<Rightarrow> []) else []))
      (bs @ ef_bars ef)"
    "\<forall>b \<in> set (ef_bars ef). ob_symbol b = symbol" "set (ef_issues ef) \<subseteq> set BLOCKING_ISSUES"
proof -
  have "symbol_inv k symbol (ef_state ef) (ts @ (if ef_issues ef = [] then (case ev of TradeEvent t \<Rightarrow> [t] | _ \<Rightarrow> []) else []))
      (bs @ ef_bars ef) \<and> (\<forall>b \<in> set (ef_bars ef). ob_symbol b = symbol) \<and> set (ef_issues ef) \<subseteq> set BLOCKING_ISSUES"
  proof (cases ev)
    case (QuoteEvent q)
    then show ?thesis using assms apply_quote_inv [OF assms(2), of q] by auto
  next
    case (AuctionEvent a)
    then show ?thesis using assms apply_auction_inv [OF assms(2), of a] by auto
  next
    case (TradeEvent t)
    with assms(6) have "apply_trade_event k ss t = Inr ef" by simp
    with assms(1) show ?thesis
    proof (cases rule: apply_trade_event_cases)
      case refused
      then show ?thesis using assms(2) TradeEvent by simp
    next
      case (accepted ss')
      have "symbol_inv k symbol (ef_state ef) (ts @ [t]) (bs @ ef_bars ef) \<and> (\<forall>b \<in> set (ef_bars ef). ob_symbol b = symbol)"
        unfolding accepted(5) using apply_trade_inv [OF assms(1,2) _ _ _ _ _ accepted(1-3)] assms(3-5) TradeEvent by auto
      then show ?thesis using accepted(4) TradeEvent by simp
    qed
  qed
  then show "symbol_inv k symbol (ef_state ef) (ts @ (if ef_issues ef = [] then (case ev of TradeEvent t \<Rightarrow> [t] | _ \<Rightarrow> []) else []))
      (bs @ ef_bars ef)" "\<forall>b \<in> set (ef_bars ef). ob_symbol b = symbol" "set (ef_issues ef) \<subseteq> set BLOCKING_ISSUES"
    by blast+
qed

definition market_inv :: "trading_version \<Rightarrow> string \<Rightarrow> market_state \<times> market_update list \<Rightarrow> bool" where
  "market_inv c session m \<longleftrightarrow> st_configuration (fst m) = c \<and> st_active (fst m) \<in> {None, Some session} \<and>
     map fst (st_symbols (fst m)) = mc_symbols (tv_market c) \<and>
     (\<forall>(symbol, ss) \<in> set (st_symbols (fst m)). symbol_inv (mc_bar_interval_seconds (tv_market c)) symbol ss
        (accepted_trades symbol (snd m)) (logged_bars symbol (snd m)))"

fun of_session :: "string \<Rightarrow> market_op \<Rightarrow> bool" where
  "of_session session (Receive e) = (se_stream_session_id e = session)"
| "of_session session (Advance _ _) = True"

lemma history_snoc [simp]:
  "accepted_trades symbol (h @ [u]) = accepted_trades symbol h @ filter (\<lambda>t. tr_symbol t = symbol) (trades_of u)"
  "logged_bars symbol (h @ [u]) = logged_bars symbol h @ filter (\<lambda>b. ob_symbol b = symbol) (mu_finalized_bars u)"
  by (simp_all add: accepted_trades_def logged_bars_def)

lemma sequence_issues_keeps:
  "st_configuration (fst (sequence_issues s e)) = st_configuration s" "st_symbols (fst (sequence_issues s e)) = st_symbols s"
  "st_active (fst (sequence_issues s e)) = st_active s" "snd (sequence_issues s e) = sequence_problems s e"
  by (simp_all add: sequence_issues_def Let_def)

lemma sequence_problems_not_blocking: "set (sequence_problems s e) \<inter> set BLOCKING_ISSUES = {}"
  by (auto simp: sequence_problems_def BLOCKING_ISSUES_def split: option.splits if_splits)

lemma reconnect_same:
  "st_active s \<in> {None, Some session} \<Longrightarrow> se_stream_session_id e = session \<Longrightarrow> reconnect s e = s\<lparr>st_active := Some session\<rparr>"
  by (auto simp: reconnect_def)

text \<open>An update without event and bars adds nothing to the histories.\<close>

lemma market_inv_quiet:
  assumes "market_inv c session (s, h)" "st_configuration s' = st_configuration s" "st_symbols s' = st_symbols s"
    "st_active s' = Some session"
  shows "market_inv c session (s', h @ [no_event issues])"
  using assms by (simp add: market_inv_def no_event_def trades_of_def)

lemma update_symbol_fst [simp]: "map fst (update_symbol symbol ss xs) = map fst xs"
  by (induction xs) (auto simp: update_symbol_def)

lemma update_symbol_mem:
  "(x, y) \<in> set (update_symbol symbol ss xs) \<Longrightarrow> (x = symbol \<and> y = ss) \<or> (x \<noteq> symbol \<and> (x, y) \<in> set xs)"
  by (auto simp: update_symbol_def split: if_splits)

lemma own_trades:
  assumes "ts = (if b then (case ev of TradeEvent t \<Rightarrow> [t] | _ \<Rightarrow> []) else [])"
  shows "filter (\<lambda>t. tr_symbol t = x) ts = (if x = event_symbol ev then ts else [])"
proof (cases "b \<and> (\<exists>t. ev = TradeEvent t)")
  case True
  then obtain t where "ev = TradeEvent t" "ts = [t]" using assms by auto
  then show ?thesis by simp
next
  case False
  then have "ts = []" using assms by (cases ev) simp_all
  then show ?thesis by simp
qed

lemma apply_decoded_inv:
  assumes "1 \<le> mc_bar_interval_seconds (tv_market c)" "market_inv c session (s, h)"
    "sound_event depth ev" "event_time ev \<le> event_received_at ev" "set issues \<inter> set BLOCKING_ISSUES = {}"
    "apply_decoded z s issues ev = (s', Inr u)"
  shows "market_inv c session (s', h @ [u])"
proof -
  let ?k = "mc_bar_interval_seconds (tv_market c)" and ?sym = "event_symbol ev"
  have k: "interval_seconds s = ?k" using assms(2) by (simp add: market_inv_def interval_seconds_def)
  obtain ss ef where ss: "map_of (st_symbols s) ?sym = Some ss" and ef: "apply_event ?k ss ev = Inr ef"
    and s': "s' = s\<lparr>st_symbols := update_symbol ?sym (ef_state ef) (st_symbols s),
        st_issues := st_issues s \<union> set (ef_integrity ef) \<union> set (issues @ ef_issues ef)\<rparr>"
    and u: "u = \<lparr>mu_event = (if list_ex (\<lambda>i. i \<in> set BLOCKING_ISSUES) (issues @ ef_issues ef) then None else Some ev),
        mu_finalized_bars = ef_bars ef, mu_issues = issues @ ef_issues ef\<rparr>"
    using assms(6) by (auto simp: apply_decoded_def Let_def k split: if_splits option.splits sum.splits)
  have inv: "symbol_inv ?k x y (accepted_trades x h) (logged_bars x h)" if "(x, y) \<in> set (st_symbols s)" for x y
    using assms(2) that by (auto simp: market_inv_def)
  note step = apply_event_inv [OF assms(1) inv [OF map_of_SomeD [OF ss]] refl assms(3,4) ef]
  have accepted: "trades_of u = (if ef_issues ef = [] then (case ev of TradeEvent t \<Rightarrow> [t] | _ \<Rightarrow> []) else [])"
  proof (cases "ef_issues ef")
    case Nil
    then have "\<not> list_ex (\<lambda>i. i \<in> set BLOCKING_ISSUES) (issues @ ef_issues ef)"
      using assms(5) by (auto simp: list_ex_iff)
    then show ?thesis using Nil by (simp add: trades_of_def u split: market_event.splits)
  next
    case (Cons i rest)
    then have "i \<in> set BLOCKING_ISSUES" using step(3) by auto
    then show ?thesis using Cons by (simp add: trades_of_def u)
  qed
  have own: "filter (\<lambda>t. tr_symbol t = x) (trades_of u) = (if x = ?sym then trades_of u else [])" for x
    by (rule own_trades [OF accepted])
  have bars: "filter (\<lambda>b. ob_symbol b = x) (mu_finalized_bars u) = (if x = ?sym then ef_bars ef else [])" for x
    using step(2) by (auto simp: u filter_empty_conv filter_id_conv)
  have "symbol_inv ?k x y (accepted_trades x (h @ [u])) (logged_bars x (h @ [u]))"
    if "(x, y) \<in> set (st_symbols s')" for x y
  proof -
    from that have "(x = ?sym \<and> y = ef_state ef) \<or> (x \<noteq> ?sym \<and> (x, y) \<in> set (st_symbols s))"
      by (auto simp: s' dest: update_symbol_mem)
    then show ?thesis using step(1) inv by (auto simp: own bars accepted [symmetric])
  qed
  then show ?thesis using assms(2) by (auto simp: market_inv_def s')
qed

text \<open>Configurations that the loader accepts.\<close>

definition valid_market :: "trading_version \<Rightarrow> bool" where
  "valid_market c = (\<exists>known_timezone. MarketConfiguration known_timezone (tv_market c) = Inr (tv_market c))"

lemma valid_marketD:
  assumes "valid_market c"
  shows "1 \<le> mc_bar_interval_seconds (tv_market c)" "1 \<le> mc_quote_depth (tv_market c)" "distinct (mc_symbols (tv_market c))"
  using assms by (auto simp: valid_market_def MarketConfiguration_def require_identifiers_def rbind_eq_Inr split: if_splits)

lemma apply_envelope_Inr:
  assumes "apply_envelope F z s e = (s', Inr u)" "sequence_issues (reconnect s e) e = (s1, issues)"
  shows "(s' = s1 \<and> u = no_event issues) \<or>
    (\<exists>ev. decode_event F z (nat (mc_quote_depth (tv_market (st_configuration s1)))) e = Inr (Some ev) \<and>
       apply_decoded z s1 issues ev = (s', Inr u))"
  using assms by (auto simp: apply_envelope_def split: if_splits sum.splits option.splits)

lemma apply_envelope_received:
  assumes "apply_envelope F z s e = (s', Inr u)" "mu_event u = Some ev"
  shows "event_received_at ev = se_received_at e"
proof -
  obtain s1 issues where s1: "sequence_issues (reconnect s e) e = (s1, issues)" by (rule prod.exhaust)
  from apply_envelope_Inr [OF assms(1) s1] show ?thesis
  proof (elim disjE exE conjE)
    fix ev' assume "decode_event F z (nat (mc_quote_depth (tv_market (st_configuration s1)))) e = Inr (Some ev')"
      and "apply_decoded z s1 issues ev' = (s', Inr u)"
    then show ?thesis using assms(2) decode_event_Some
      by (fastforce simp: apply_decoded_def Let_def split: if_splits option.splits sum.splits)
  qed (use assms(2) in \<open>simp add: no_event_def\<close>)
qed

lemma receive_inv:
  assumes c: "valid_market c" and inv: "market_inv c session (s, h)" and e: "se_stream_session_id e = session"
    and step: "apply_envelope F z s e = (s', Inr u)"
  shows "market_inv c session (s', h @ [u])"
proof -
  let ?r = "s\<lparr>st_active := Some session\<rparr>"
  let ?s1 = "fst (sequence_issues ?r e)" and ?issues = "sequence_problems ?r e"
  have rec: "reconnect s e = ?r" using inv e by (intro reconnect_same) (simp_all add: market_inv_def)
  have s1: "sequence_issues ?r e = (?s1, ?issues)" by (metis prod.collapse sequence_issues_keeps(4))
  have quiet: "market_inv c session (?s1, h @ [no_event i])" for i
    by (rule market_inv_quiet [OF inv]) (simp_all add: sequence_issues_keeps)
  have inv1: "market_inv c session (?s1, h)"
    using inv by (simp add: market_inv_def sequence_issues_keeps)
  have depth: "nat (mc_quote_depth (tv_market (st_configuration ?s1))) \<ge> 1"
    using valid_marketD(2) [OF c] inv1 by (simp add: market_inv_def)
  have "(s' = ?s1 \<and> u = no_event ?issues) \<or>
      (\<exists>ev. decode_event F z (nat (mc_quote_depth (tv_market (st_configuration ?s1)))) e = Inr (Some ev) \<and>
        apply_decoded z ?s1 ?issues ev = (s', Inr u))"
    using step s1 by (intro apply_envelope_Inr) (simp only: rec)+
  then show ?thesis
  proof (elim disjE exE conjE)
    fix ev assume d: "decode_event F z (nat (mc_quote_depth (tv_market (st_configuration ?s1)))) e = Inr (Some ev)"
      and a: "apply_decoded z ?s1 ?issues ev = (s', Inr u)"
    note sound = decode_event_Some [OF d]
    show ?thesis
      using apply_decoded_inv [OF valid_marketD(1) [OF c] inv1 _ _ sequence_problems_not_blocking a] sound by blast
  qed (simp add: quiet)
qed

text \<open>The loop of \<^verbatim>\<open>advance\<close>: every symbol takes its own step and the bars are those of all symbols.\<close>

lemma advance_symbols_Inr:
  assumes "advance_symbols f xs = (ys, Inr bars)" "distinct (map fst xs)"
    and "\<And>x ss ss' bs b. (x, ss) \<in> set xs \<Longrightarrow> f ss = Inr (ss', bs) \<Longrightarrow> b \<in> set bs \<Longrightarrow> ob_symbol b = x"
  shows "map fst ys = map fst xs \<and> (\<forall>b \<in> set bars. ob_symbol b \<in> fst ` set xs) \<and>
    (\<forall>(x, ss') \<in> set ys. \<exists>ss bs. (x, ss) \<in> set xs \<and> f ss = Inr (ss', bs) \<and> filter (\<lambda>b. ob_symbol b = x) bars = bs)"
  using assms
proof (induction xs arbitrary: ys bars)
  case (Cons p xs)
  obtain x ss where p: "p = (x, ss)" by fastforce
  obtain ss' bs ys' more where f: "f ss = Inr (ss', bs)" and rec: "advance_symbols f xs = (ys', Inr more)"
    and ys: "ys = (x, ss') # ys'" "bars = bs @ more"
    using Cons.prems(1) by (auto simp: p rbind_eq_Inr split: sum.splits prod.splits)
  have sym: "\<And>z ss ss' bs b. (z, ss) \<in> set xs \<Longrightarrow> f ss = Inr (ss', bs) \<Longrightarrow> b \<in> set bs \<Longrightarrow> ob_symbol b = z"
    using Cons.prems(3) by (meson list.set_intros(2))
  have d: "distinct (map fst xs)" "x \<notin> fst ` set xs" using Cons.prems(2) by (auto simp: p)
  have "map fst ys' = map fst xs \<and> (\<forall>b \<in> set more. ob_symbol b \<in> fst ` set xs) \<and>
      (\<forall>(x, ss') \<in> set ys'. \<exists>ss bs. (x, ss) \<in> set xs \<and> f ss = Inr (ss', bs) \<and> filter (\<lambda>b. ob_symbol b = x) more = bs)"
    using rec d(1) by (rule Cons.IH) (rule sym)
  then have IH: "map fst ys' = map fst xs" "\<forall>b \<in> set more. ob_symbol b \<in> fst ` set xs"
      "\<forall>(x, ss') \<in> set ys'. \<exists>ss bs. (x, ss) \<in> set xs \<and> f ss = Inr (ss', bs) \<and> filter (\<lambda>b. ob_symbol b = x) more = bs"
    by blast+
  have own: "\<forall>b \<in> set bs. ob_symbol b = x" using Cons.prems(3) [of x ss ss' bs] f by (auto simp: p)
  have "map fst ys = map fst (p # xs)" using IH(1) by (simp add: ys p)
  moreover have "\<forall>b \<in> set bars. ob_symbol b \<in> fst ` set (p # xs)" using IH(2) own by (auto simp: ys p)
  moreover have "\<forall>(z, ss') \<in> set ys. \<exists>ss bs. (z, ss) \<in> set (p # xs) \<and> f ss = Inr (ss', bs) \<and> filter (\<lambda>b. ob_symbol b = z) bars = bs"
  proof (clarify)
    fix z t assume "(z, t) \<in> set ys"
    then consider "z = x" "t = ss'" | "(z, t) \<in> set ys'" by (auto simp: ys)
    then show "\<exists>ss bs. (z, ss) \<in> set (p # xs) \<and> f ss = Inr (t, bs) \<and> filter (\<lambda>b. ob_symbol b = z) bars = bs"
    proof cases
      case 1
      have "filter (\<lambda>b. ob_symbol b = x) more = []" using IH(2) d(2) by (auto simp: filter_empty_conv)
      then have "filter (\<lambda>b. ob_symbol b = z) bars = bs" using own 1 by (simp add: ys filter_id_conv)
      then show ?thesis using 1 f by (auto simp: p)
    next
      case 2
      then have "z \<in> fst ` set xs" using arg_cong [OF IH(1), of set] by force
      then have "z \<noteq> x" using d(2) by auto
      then have empty: "filter (\<lambda>b. ob_symbol b = z) bs = []" using own by (auto simp: filter_empty_conv)
      obtain ss bs' where "(z, ss) \<in> set xs" "f ss = Inr (t, bs')" "filter (\<lambda>b. ob_symbol b = z) more = bs'"
        using IH(3) 2 by blast
      then show ?thesis using empty by (intro exI [of _ ss] exI [of _ bs']) (simp add: ys)
    qed
  qed
  ultimately show ?case by blast
qed simp

lemma sort_key_short: "length xs \<le> 1 \<Longrightarrow> sort_key f xs = xs"
  by (cases xs) auto

lemma advance_inv:
  assumes c: "valid_market c" and inv: "market_inv c session (s, h)"
    and step: "advance_state s (Aware event_at) (Aware available_at) = (s', Inr bars)"
  shows "market_inv c session (s', h @ [\<lparr>mu_event = None, mu_finalized_bars = bars, mu_issues = []\<rparr>])"
proof -
  let ?k = "mc_bar_interval_seconds (tv_market c)"
  let ?f = "advance_symbol (interval_start ?k event_at) event_at available_at"
  note k = valid_marketD(1) [OF c]
  have conf: "interval_seconds s = ?k" "map fst (st_symbols s) = mc_symbols (tv_market c)"
    using inv by (simp_all add: market_inv_def interval_seconds_def)
  obtain ys raw where le: "event_at \<le> available_at" and adv: "advance_symbols ?f (st_symbols s) = (ys, Inr raw)"
    and s': "s' = s\<lparr>st_symbols := ys\<rparr>" and bars: "bars = sort_key (\<lambda>b. (ob_end b, ob_symbol b)) raw"
    using step by (auto simp: advance_state_def bar_start_pos [OF k] conf rbind_eq_Inr rbind_eq_Inl split: sum.splits prod.splits if_splits)
  have each: "symbol_inv ?k x ss' (accepted_trades x h) (logged_bars x h @ bs) \<and> (\<forall>b \<in> set bs. ob_symbol b = x) \<and> length bs \<le> 1"
    if "(x, ss) \<in> set (st_symbols s)" "?f ss = Inr (ss', bs)" for x ss ss' bs
    using advance_symbol_inv [OF k _ le that(2)] inv that(1) by (auto simp: market_inv_def)
  have dist: "distinct (map fst (st_symbols s))" using valid_marketD(3) [OF c] by (simp add: conf)
  have all: "map fst ys = map fst (st_symbols s)"
      "\<forall>(x, ss') \<in> set ys. \<exists>ss bs. (x, ss) \<in> set (st_symbols s) \<and> ?f ss = Inr (ss', bs) \<and> filter (\<lambda>b. ob_symbol b = x) raw = bs"
    using advance_symbols_Inr [OF adv dist] each by blast+
  have "\<forall>(x, ss') \<in> set ys. symbol_inv ?k x ss' (accepted_trades x h) (logged_bars x h @ filter (\<lambda>b. ob_symbol b = x) bars)"
  proof clarify
    fix x ss' assume "(x, ss') \<in> set ys"
    then obtain ss bs where x: "(x, ss) \<in> set (st_symbols s)" "?f ss = Inr (ss', bs)" "filter (\<lambda>b. ob_symbol b = x) raw = bs"
      using all(2) by fast
    then have "filter (\<lambda>b. ob_symbol b = x) bars = bs"
      using each [OF x(1,2)] by (simp add: bars filter_sort sort_key_short)
    then show "symbol_inv ?k x ss' (accepted_trades x h) (logged_bars x h @ filter (\<lambda>b. ob_symbol b = x) bars)"
      using each [OF x(1,2)] by simp
  qed
  moreover have "map fst ys = mc_symbols (tv_market c)" using all(1) conf(2) by simp
  ultimately show ?thesis using inv by (simp add: market_inv_def s' trades_of_def)
qed

lemma market_step_inv:
  assumes inv: "valid_market c \<and> market_inv c session m" and ok: "of_session session op"
    and step: "market_step F z m op = Inr m'"
  shows "valid_market c \<and> market_inv c session m'"
proof -
  obtain s h where m: "m = (s, h)" by fastforce
  show ?thesis
  proof (cases op)
    case (Receive e)
    obtain s' r where r: "apply_envelope F z s e = (s', r)" by (rule prod.exhaust)
    then obtain u where u: "r = Inr u" "m' = (s', h @ [u])"
      using step by (cases r) (simp_all add: market_step_def m Receive)
    have "se_stream_session_id e = session" using ok by (simp add: Receive)
    then show ?thesis using inv receive_inv [of c session s h e F z s' u] r u by (simp add: m)
  next
    case (Advance t a)
    obtain s' r where r: "advance_state s (Aware t) (Aware a) = (s', r)" by (rule prod.exhaust)
    then obtain bars where u: "r = Inr bars" "m' = (s', h @ [\<lparr>mu_event = None, mu_finalized_bars = bars, mu_issues = []\<rparr>])"
      using step by (cases r) (simp_all add: market_step_def m Advance)
    then show ?thesis using inv r advance_inv [of c session s h t a s' bars] by (simp add: m)
  qed
qed

interpretation market: guarded_machine "market_step F z" "\<lambda>m. valid_market c \<and> market_inv c session m" "of_session session"
  for F z c session
proof
  fix m op m'
  assume "valid_market c \<and> market_inv c session m" "of_session session op" "market_step F z m op = Inr m'"
  then show "valid_market c \<and> market_inv c session m'"
    by (rule market_step_inv)
qed

lemma market_inv_new: "market_inv c session (new_market_state c, [])"
  by (auto simp: market_inv_def new_market_state_def fresh_symbols_def accepted_trades_def logged_bars_def
      symbol_inv_fresh comp_def)

lemma market_run_inv:
  assumes "valid_market c" "list_all (of_session session) ops" "market_run F z c ops = Inr m"
  shows "market_inv c session m"
  using market.run_inv [of c session "(new_market_state c, [])" ops F z m] assms market_inv_new
  by (simp add: market_run_def)

lemma market_run_symbol:
  assumes "valid_market c" "list_all (of_session session) ops" "market_run F z c ops = Inr (s, h)"
    "symbol \<in> set (mc_symbols (tv_market c))"
  obtains ss where "map_of (st_symbols s) symbol = Some ss"
    "symbol_inv (mc_bar_interval_seconds (tv_market c)) symbol ss (accepted_trades symbol h) (logged_bars symbol h)"
proof -
  have inv: "market_inv c session (s, h)" using assms(1-3) by (rule market_run_inv)
  then have "map fst (st_symbols s) = mc_symbols (tv_market c)" by (simp add: market_inv_def)
  then have "symbol \<in> set (map fst (st_symbols s))" using assms(4) by simp
  then obtain ss where "map_of (st_symbols s) symbol = Some ss"
    by (cases "map_of (st_symbols s) symbol") (auto simp: map_of_eq_None_iff)
  moreover from this have "(symbol, ss) \<in> set (st_symbols s)" by (rule map_of_SomeD)
  ultimately show ?thesis using inv that by (auto simp: market_inv_def)
qed

section \<open>Aggregates are sound\<close>

definition total_quantity :: "trade list \<Rightarrow> int" where
  "total_quantity ts = sum_list (map tr_quantity ts)"

text \<open>A value of trades within a price range, whole prices: the rounded sum stays within the range times the volume.\<close>

lemma total_quantity_nonneg: "(\<And>t. t \<in> set ts \<Longrightarrow> 0 < tr_quantity t) \<Longrightarrow> 0 \<le> total_quantity ts"
  unfolding total_quantity_def by (induction ts) (auto, fastforce)

lemma dsum_snoc: "dsum (xs @ [x]) = dadd (dsum xs) x"
  by (simp add: dsum_def)

lemma whole_exact: "x \<in> \<int> \<Longrightarrow> \<bar>x\<bar> \<le> 10 ^ 20 \<Longrightarrow> fits x"
proof -
  assume "x \<in> \<int>" and small: "\<bar>x\<bar> \<le> 10 ^ 20"
  then obtain n where x: "x = of_int n" by (auto elim: Ints_cases)
  have "of_int \<bar>n\<bar> \<le> (of_int (10 ^ 20) :: rat)" using small by (simp add: x)
  then have "\<bar>n\<bar> \<le> 10 ^ 28" unfolding of_int_le_iff by simp
  then show ?thesis unfolding x by (rule fits_of_int)
qed

lemma dsum_value_le:
  assumes "h \<in> \<int>" "0 \<le> h" "\<And>t. t \<in> set ts \<Longrightarrow> tr_price t \<le> h \<and> 0 < tr_quantity t" "h * of_int (total_quantity ts) \<le> 10 ^ 20"
  shows "dsum (map trade_value ts) \<le> h * of_int (total_quantity ts)"
  using assms(3,4)
proof (induction ts rule: rev_induct)
  case (snoc t ts)
  let ?v = "h * of_int (total_quantity (ts @ [t]))"
  have nn: "0 \<le> total_quantity ts" using snoc.prems(1) by (intro total_quantity_nonneg) auto
  have q: "0 < tr_quantity t" "tr_price t \<le> h" using snoc.prems(1) by auto
  have v: "?v = h * of_int (total_quantity ts) + h * of_int (tr_quantity t)" by (simp add: total_quantity_def distrib_left)
  have parts: "0 \<le> h * of_int (total_quantity ts)" "0 \<le> h * of_int (tr_quantity t)" using assms(2) nn q by auto
  have "dsum (map trade_value ts) \<le> h * of_int (total_quantity ts)"
    using snoc.prems parts v by (intro snoc.IH) auto
  moreover have "trade_value t \<le> h * of_int (tr_quantity t)"
    unfolding trade_value_def dmul_def using q assms(1) parts v snoc.prems(2)
    by (intro dec_ctx_le whole_exact mult_right_mono) auto
  moreover have "fits ?v" using assms(1) parts v snoc.prems(2) by (intro whole_exact) auto
  ultimately show ?case unfolding map_append list.map dsum_snoc dadd_def by (intro dec_ctx_le) (simp_all add: v)
qed (simp add: total_quantity_def dsum_def)

lemma dsum_value_ge:
  assumes "h \<in> \<int>" "0 \<le> h" "\<And>t. t \<in> set ts \<Longrightarrow> h \<le> tr_price t \<and> 0 < tr_quantity t" "h * of_int (total_quantity ts) \<le> 10 ^ 20"
  shows "h * of_int (total_quantity ts) \<le> dsum (map trade_value ts)"
  using assms(3,4)
proof (induction ts rule: rev_induct)
  case (snoc t ts)
  let ?v = "h * of_int (total_quantity (ts @ [t]))"
  have nn: "0 \<le> total_quantity ts" using snoc.prems(1) by (intro total_quantity_nonneg) auto
  have q: "0 < tr_quantity t" "h \<le> tr_price t" using snoc.prems(1) by auto
  have v: "?v = h * of_int (total_quantity ts) + h * of_int (tr_quantity t)" by (simp add: total_quantity_def distrib_left)
  have parts: "0 \<le> h * of_int (total_quantity ts)" "0 \<le> h * of_int (tr_quantity t)" using assms(2) nn q by auto
  have "h * of_int (total_quantity ts) \<le> dsum (map trade_value ts)"
    using snoc.prems parts v by (intro snoc.IH) auto
  moreover have "h * of_int (tr_quantity t) \<le> trade_value t"
    unfolding trade_value_def dmul_def using q assms(1) parts v snoc.prems(2)
    by (intro dec_ctx_ge whole_exact mult_right_mono) auto
  moreover have "fits ?v" using assms(1) parts v snoc.prems(2) by (intro whole_exact) auto
  ultimately show ?case unfolding map_append list.map dsum_snoc dadd_def by (intro dec_ctx_ge) (simp_all add: v)
qed (simp add: total_quantity_def dsum_def)

lemma quantize_whole:
  assumes "x \<in> \<int>" "0 \<le> x" "x < 10 ^ 20"
  shows "quantize PRICE_QUANTUM x = Inr x"
proof -
  obtain n where x: "x = of_int n" using assms(1) by (auto elim: Ints_cases)
  have "(of_int n :: rat) < of_int (10 ^ 20)" using assms(3) by (simp add: x)
  then have n: "0 \<le> n" "n < 10 ^ 20" using assms(2) unfolding of_int_less_iff by (simp_all add: x)
  have "x * 10 ^ PRICE_QUANTUM = of_int (n * 10 ^ 8)" by (simp add: x)
  then have "round_half_up (x * 10 ^ PRICE_QUANTUM) = n * 10 ^ 8" by (simp only: round_half_up_of_int)
  then show ?thesis using n by (simp add: quantize_def x)
qed

lemma aggregate_sound:
  assumes "ts \<noteq> []" "\<And>t. t \<in> set ts \<Longrightarrow> 0 < tr_price t \<and> tr_price t \<in> \<int> \<and> 0 < tr_quantity t"
    and b: "b = aggregate k symbol start ts"
  shows "0 < ob_low_price b" "ob_low_price b \<le> ob_open_price b" "ob_open_price b \<le> ob_high_price b"
    "ob_low_price b \<le> ob_close_price b" "ob_close_price b \<le> ob_high_price b" "0 < ob_volume b" "1 \<le> ob_trade_count b"
    "ob_buy_volume b + ob_sell_volume b \<le> ob_volume b"
    "ob_high_price b * of_int (ob_volume b) < 10 ^ 20 \<Longrightarrow>
       quantize PRICE_QUANTUM (ddiv (ob_value b) (of_int (ob_volume b))) = Inr v \<Longrightarrow> ob_low_price b \<le> v \<and> v \<le> ob_high_price b"
proof -
  let ?P = "set (map tr_price ts)"
  have fin: "finite ?P" "?P \<noteq> {}" using assms(1) by auto
  have low: "ob_low_price b = Min ?P" "Min ?P \<in> ?P" and high: "ob_high_price b = Max ?P" "Max ?P \<in> ?P"
    using Min_in [OF fin] Max_in [OF fin] by (simp_all add: b aggregate_def)
  have range: "Min ?P \<le> tr_price t" "tr_price t \<le> Max ?P" if "t \<in> set ts" for t
    using that by (auto intro: Min_le Max_ge)
  have int: "Min ?P \<in> \<int>" "Max ?P \<in> \<int>" "0 < Min ?P" using low(2) high(2) assms(2) by auto
  then show "0 < ob_low_price b" by (simp add: low)
  have ends: "hd ts \<in> set ts" "last ts \<in> set ts" using assms(1) by auto
  show "ob_low_price b \<le> ob_open_price b" "ob_open_price b \<le> ob_high_price b"
    "ob_low_price b \<le> ob_close_price b" "ob_close_price b \<le> ob_high_price b"
    using range [OF ends(1)] range [OF ends(2)] by (simp_all add: b aggregate_def)
  have vol: "ob_volume b = total_quantity ts" by (simp add: b aggregate_def total_quantity_def)
  have "tr_quantity (hd ts) \<le> total_quantity ts"
    unfolding total_quantity_def using ends(1) assms(2) by (intro member_le_sum_list) (auto intro: less_imp_le)
  then show pos: "0 < ob_volume b" using assms(2) [OF ends(1)] by (simp add: vol)
  show "1 \<le> ob_trade_count b" using assms(1) by (cases ts) (simp_all add: b aggregate_def)
  have "sum_list (map (side_volume SIDE_BUY) xs) + sum_list (map (side_volume SIDE_SELL) xs) \<le> sum_list (map tr_quantity xs)"
    if "\<And>t. t \<in> set xs \<Longrightarrow> 0 < tr_quantity t" for xs
    using that by (induction xs) (fastforce simp: side_volume_def)+
  then show "ob_buy_volume b + ob_sell_volume b \<le> ob_volume b" using assms(2) by (simp add: b aggregate_def)
  assume small: "ob_high_price b * of_int (ob_volume b) < 10 ^ 20"
    and q: "quantize PRICE_QUANTUM (ddiv (ob_value b) (of_int (ob_volume b))) = Inr v"
  let ?V = "of_int (total_quantity ts) :: rat"
  have V: "1 \<le> ?V" using pos vol by simp
  have lh: "Min ?P \<le> Max ?P" using fin by simp
  have h: "Max ?P * ?V < 10 ^ 20" using small by (simp add: high vol)
  then have l: "Min ?P * ?V < 10 ^ 20" using lh V by (meson le_less_trans mult_right_mono order.trans zero_le_one)
  have price_small: "x < 10 ^ 20" if "x * ?V < 10 ^ 20" "0 < x" for x :: rat
  proof -
    have "x * 1 \<le> x * ?V" using V that(2) by (intro mult_left_mono) auto
    with that(1) show ?thesis by simp
  qed
  have sum: "Min ?P * ?V \<le> ob_value b" "ob_value b \<le> Max ?P * ?V"
    using dsum_value_ge [OF int(1), of ts] dsum_value_le [OF int(2), of ts] range assms(2) h l int(3) lh
    by (auto simp: b aggregate_def)
  have "Min ?P \<le> ob_value b / ?V" "ob_value b / ?V \<le> Max ?P" using sum V by (auto simp: field_simps)
  moreover have "fits (Min ?P)" "fits (Max ?P)"
    using price_small [OF l int(3)] price_small [OF h] int lh by (auto intro!: whole_exact)
  ultimately have "Min ?P \<le> ddiv (ob_value b) ?V" "ddiv (ob_value b) ?V \<le> Max ?P"
    by (simp_all add: ddiv_def dec_ctx_le dec_ctx_ge)
  then show "ob_low_price b \<le> v \<and> v \<le> ob_high_price b"
    using quantize_mono [OF _ quantize_whole q [unfolded vol], of "Min ?P"] quantize_mono [OF _ q [unfolded vol] quantize_whole, of "Max ?P"]
      price_small [OF l int(3)] price_small [OF h] int lh by (auto simp: low(1) high(1))
qed

section \<open>Properties of bars\<close>

text \<open>C35: The bars a run finalises for a symbol, followed by its open bar, are exactly the reference bars of the
  trades the run accepted: one bar for every interval that has an accepted trade, in time order, aggregating all and only the
  trades of its interval, whatever mixture of trades, quotes, auctions, refused events and clock advances led there.\<close>

theorem bars_equal_reference:
  assumes "valid_market c" "list_all (of_session session) ops" "market_run F z c ops = Inr (s, history)"
    "symbol \<in> set (mc_symbols (tv_market c))"
  shows "\<exists>ss. map_of (st_symbols s) symbol = Some ss \<and>
    map open_bar.truncate (logged_bars symbol history) @ (case ss_open_bar ss of None \<Rightarrow> [] | Some b \<Rightarrow> [b]) =
    reference_bars (mc_bar_interval_seconds (tv_market c)) symbol (accepted_trades symbol history)"
proof -
  obtain ss where "map_of (st_symbols s) symbol = Some ss"
    "symbol_inv (mc_bar_interval_seconds (tv_market c)) symbol ss (accepted_trades symbol history) (logged_bars symbol history)"
    using market_run_symbol [OF assms] .
  then show ?thesis by (blast intro: symbol_inv_reference)
qed

text \<open>Every finalised bar is sound: open and close lie between low and high, it has volume, buy and sell
  volume do not exceed it, its rounded VWAP lies between low and high (for notionals below \<open>10\<^sup>20\<close> VND), it spans one
  interval, and it never becomes available before the interval is over, so no consumer can look ahead.\<close>

theorem finalized_bars_sound:
  assumes "valid_market c" "list_all (of_session session) ops" "market_run F z c ops = Inr (s, history)"
    "symbol \<in> set (mc_symbols (tv_market c))" "b \<in> set (logged_bars symbol history)"
  shows "0 < ob_low_price b \<and> ob_low_price b \<le> ob_open_price b \<and> ob_open_price b \<le> ob_high_price b \<and>
    ob_low_price b \<le> ob_close_price b \<and> ob_close_price b \<le> ob_high_price b \<and> 0 < ob_volume b \<and>
    ob_buy_volume b + ob_sell_volume b \<le> ob_volume b \<and>
    ob_end b = ob_start b + mc_bar_interval_seconds (tv_market c) * second_us \<and>
    (0 \<le> ob_start b \<longrightarrow> ob_end b \<le> b_available_at b) \<and>
    (ob_high_price b * of_int (ob_volume b) < 10 ^ 20 \<longrightarrow> ob_low_price b \<le> b_vwap b \<and> b_vwap b \<le> ob_high_price b)"
proof -
  let ?k = "mc_bar_interval_seconds (tv_market c)" and ?ts = "accepted_trades symbol history"
  obtain ss where inv: "symbol_inv ?k symbol ss ?ts (logged_bars symbol history)"
    using market_run_symbol [OF assms(1-4)] .
  have closed: "closed_bar b" using inv assms(5) by (simp add: symbol_inv_def)
  have "open_bar.truncate b \<in> set (map open_bar.truncate (logged_bars symbol history) @ (case ss_open_bar ss of None \<Rightarrow> [] | Some b \<Rightarrow> [b]))"
    using assms(5) by simp
  then have "open_bar.truncate b \<in> set (reference_bars ?k symbol ?ts)" unfolding symbol_inv_reference [OF inv] .
  then obtain start where start: "start \<in> trade_start ?k ` set ?ts"
    and ag: "open_bar.truncate b = aggregate ?k symbol start (filter (\<lambda>t. trade_start ?k t = start) ?ts)"
    by (auto simp: reference_bars_def sorted_set_def)
  have ne: "filter (\<lambda>t. trade_start ?k t = start) ?ts \<noteq> []" using start by (auto simp: filter_empty_conv)
  have ok: "0 < tr_price t \<and> tr_price t \<in> \<int> \<and> 0 < tr_quantity t" if "t \<in> set (filter (\<lambda>t. trade_start ?k t = start) ?ts)" for t
    using inv that by (auto simp: symbol_inv_def sound_trade_def)
  note sound = aggregate_sound [OF ne ok ag]
  have sound: "0 < ob_low_price b" "ob_low_price b \<le> ob_open_price b" "ob_open_price b \<le> ob_high_price b"
    "ob_low_price b \<le> ob_close_price b" "ob_close_price b \<le> ob_high_price b" "0 < ob_volume b"
    "ob_buy_volume b + ob_sell_volume b \<le> ob_volume b"
    "ob_high_price b * of_int (ob_volume b) < 10 ^ 20 \<Longrightarrow> ob_low_price b \<le> b_vwap b \<and> b_vwap b \<le> ob_high_price b"
    using sound(1-8) sound(9) [of "b_vwap b"] closed by (simp_all add: closed_bar_def open_bar.defs)
  have "ob_end b = ob_start b + ?k * second_us" using arg_cong [OF ag, of ob_end] arg_cong [OF ag, of ob_start]
    by (simp add: aggregate_def open_bar.defs)
  then show ?thesis using sound closed by (simp add: closed_bar_def)
qed

section \<open>Readiness of a symbol\<close>

definition received :: "market_op list \<Rightarrow> stream_envelope list" where
  "received ops = concat (map (\<lambda>op. case op of Receive e \<Rightarrow> [e] | Advance _ _ \<Rightarrow> []) ops)"

definition transport_issues :: "string set" where
  "transport_issues = {SEQUENCE_GAP, SEQUENCE_REGRESSION, RECEIPT_TIME_REGRESSION}"

text \<open>While no transport issue is recorded, the sequence numbers of the envelopes are \<open>1, 2, \<dots>, n\<close> and their receipt
  times do not go back.\<close>

definition gapless :: "stream_envelope list \<Rightarrow> bool" where
  "gapless es = (map se_receive_sequence es = [1..int (length es)] \<and> sorted (map se_received_at es))"

definition last_of :: "('a \<Rightarrow> 'b) \<Rightarrow> 'a list \<Rightarrow> 'b option" where
  "last_of f xs = (if xs = [] then None else Some (f (last xs)))"

definition transport_inv :: "string \<Rightarrow> stream_envelope list \<Rightarrow> market_state \<Rightarrow> bool" where
  "transport_inv session es s \<longleftrightarrow> finite (st_issues s) \<and>
     (st_issues s \<inter> transport_issues = {} \<longrightarrow> gapless es \<and>
        st_last_sequence s session = last_of se_receive_sequence es \<and>
        st_last_received_at s session = last_of se_received_at es)"

lemma gapless_snoc:
  assumes "gapless es" "sequence_problems s e = []" "st_last_sequence s (se_stream_session_id e) = last_of se_receive_sequence es"
    "st_last_received_at s (se_stream_session_id e) = last_of se_received_at es"
  shows "gapless (es @ [e])"
proof (cases es rule: rev_cases)
  case Nil
  then show ?thesis using assms(2,3) by (auto simp: gapless_def last_of_def sequence_problems_def split: if_splits)
next
  case (snoc ys y)
  have "map se_receive_sequence ys @ [se_receive_sequence y] = [1..int (length ys) + 1]"
    using assms(1) by (simp add: gapless_def snoc ac_simps)
  moreover have "[1..int (length ys) + 1] = [1..int (length ys)] @ [int (length ys) + 1]"
    using upto_rec2 [of 1 "int (length ys) + 1"] by simp
  ultimately have y: "se_receive_sequence y = int (length ys) + 1" by simp
  have e: "se_receive_sequence e = int (length ys) + 2" "se_received_at y \<le> se_received_at e"
    using assms(2-4) y by (auto simp: snoc last_of_def sequence_problems_def split: if_splits)
  have "[1..int (length ys) + 2] = [1..int (length ys) + 1] @ [int (length ys) + 2]"
    using upto_rec2 [of 1 "int (length ys) + 2"] by (simp add: add.commute)
  moreover have "sorted (map se_received_at (ys @ [y]) @ [se_received_at e])"
    using assms(1) e(2) by (auto simp: gapless_def snoc sorted_append intro: order.trans)
  ultimately show ?thesis using assms(1) e(1) y by (simp add: gapless_def snoc ac_simps)
qed

lemma apply_decoded_transport:
  "apply_decoded z s issues ev = (s', r) \<Longrightarrow>
   st_last_sequence s' = st_last_sequence s \<and> st_last_received_at s' = st_last_received_at s \<and> st_issues s \<subseteq> st_issues s' \<and>
   (finite (st_issues s) \<longrightarrow> finite (st_issues s'))"
  by (auto simp: apply_decoded_def Let_def split: if_splits option.splits sum.splits)

text \<open>The transport part of \<^verbatim>\<open>apply\<close>.\<close>

lemma sequence_issues_adds:
  "st_issues (fst (sequence_issues s e)) = st_issues s \<union> set (sequence_problems s e)"
  by (cases "SEQUENCE_REGRESSION \<in> set (sequence_problems s e)") (simp_all add: sequence_issues_def Let_def)

lemma sequence_issues_transport:
  assumes "transport_inv session es s" "se_stream_session_id e = session" "sequence_issues s e = (s1, issues)"
  shows "transport_inv session (es @ [e]) s1"
proof -
  have issues: "issues = sequence_problems s e" and all: "st_issues s1 = st_issues s \<union> set issues"
    using sequence_issues_keeps(4) [of s e] sequence_issues_adds [of s e] assms(3) by simp_all
  have sub: "set issues \<subseteq> transport_issues"
    by (auto simp: issues sequence_problems_def transport_issues_def split: option.splits if_splits)
  show ?thesis
  proof (cases "st_issues s1 \<inter> transport_issues = {}")
    case True
    then have parts: "set issues \<inter> transport_issues = {}" "st_issues s \<inter> transport_issues = {}"
      unfolding all by (simp_all add: Int_Un_distrib2)
    have "set issues = {}" using parts(1) sub by (simp add: Int_absorb2)
    then have none: "issues = []" "st_issues s \<inter> transport_issues = {}" using parts(2) by simp_all
    then have inv: "gapless es" "st_last_sequence s session = last_of se_receive_sequence es"
        "st_last_received_at s session = last_of se_received_at es"
      using assms(1) by (simp_all add: transport_inv_def)
    have ge: "st_last_received_at s session = None \<or> the (st_last_received_at s session) \<le> se_received_at e"
      using none(1) assms(2) by (auto simp: issues sequence_problems_def split: option.splits if_splits)
    have "s1 = s\<lparr>st_last_sequence := (st_last_sequence s)(session \<mapsto> se_receive_sequence e),
        st_last_received_at := (st_last_received_at s)(session \<mapsto> se_received_at e)\<rparr>"
      using assms(2,3) none(1) ge unfolding issues by (simp add: sequence_issues_def Let_def)
    moreover have "gapless (es @ [e])" using gapless_snoc [of es s e] inv none(1) assms(2) by (simp add: issues)
    ultimately show ?thesis using assms(1) by (simp add: transport_inv_def last_of_def)
  qed (use assms(1) all in \<open>simp add: transport_inv_def\<close>)
qed

lemma transport_inv_mono:
  assumes "transport_inv session es s" "st_last_sequence s' = st_last_sequence s" "st_last_received_at s' = st_last_received_at s"
    "st_issues s \<subseteq> st_issues s'" "finite (st_issues s) \<longrightarrow> finite (st_issues s')"
  shows "transport_inv session es s'"
  using assms by (auto simp: transport_inv_def)

lemma reconnect_transport: "transport_inv session es s \<Longrightarrow> transport_inv session es (reconnect s e)"
  by (simp add: transport_inv_def reconnect_def)

lemma apply_envelope_transport:
  assumes "transport_inv session es s" "se_stream_session_id e = session" "apply_envelope F z s e = (s', r)"
  shows "transport_inv session (es @ [e]) s'"
proof -
  obtain s1 issues where s1: "sequence_issues (reconnect s e) e = (s1, issues)" by (rule prod.exhaust)
  have inv: "transport_inv session (es @ [e]) s1"
    using reconnect_transport [OF assms(1)] assms(2) s1 by (rule sequence_issues_transport)
  have "s' = s1 \<or> (\<exists>ev. apply_decoded z s1 issues ev = (s', r))"
    using assms(3) by (auto simp: apply_envelope_def s1 split: if_splits sum.splits option.splits)
  then show ?thesis
  proof
    assume "\<exists>ev. apply_decoded z s1 issues ev = (s', r)"
    then show ?thesis using transport_inv_mono [OF inv] apply_decoded_transport by blast
  qed (simp add: inv)
qed

lemma advance_transport:
  "advance_state s t a = (s', r) \<Longrightarrow> transport_inv session es s \<Longrightarrow> transport_inv session es s'"
  by (auto simp: advance_state_def transport_inv_def Let_def split: sum.splits prod.splits)

lemma market_run_transport:
  "list_all (of_session session) ops \<Longrightarrow> market_run F z c ops = Inr (s, h) \<Longrightarrow> transport_inv session (received ops) s"
proof (induction ops arbitrary: s h rule: rev_induct)
  case Nil
  then show ?case
    by (auto simp: market_run_def new_market_state_def transport_inv_def received_def gapless_def last_of_def)
next
  case (snoc op ops)
  then obtain s0 h0 where run: "market_run F z c ops = Inr (s0, h0)" and step: "market_step F z (s0, h0) op = Inr (s, h)"
    by (auto simp: market_run_def run_res_append rbind_eq_Inr)
  have inv: "transport_inv session (received ops) s0" using snoc.IH run snoc.prems(1) by simp
  show ?case
  proof (cases op)
    case (Receive e)
    obtain s' r where r: "apply_envelope F z s0 e = (s', r)" by (rule prod.exhaust)
    then have "s' = s" using step by (cases r) (simp_all add: market_step_def Receive)
    then show ?thesis using apply_envelope_transport [OF inv _ r] snoc.prems(1) by (simp add: Receive received_def)
  next
    case (Advance t a)
    obtain s' r where r: "advance_state s0 (Aware t) (Aware a) = (s', r)" by (rule prod.exhaust)
    then have "s' = s" using step by (cases r) (simp_all add: market_step_def Advance)
    then show ?thesis using advance_transport [OF r inv] by (simp add: Advance received_def)
  qed
qed

text \<open>C36: A symbol is reported ready only if the run recorded no integrity issue at all, its envelopes carried the
  sequence numbers \<open>1\<close> to \<open>n\<close> without gap or repetition in receipt order, and the symbol has a trade and a complete
  quote that were received by the evaluation time and are within the configured staleness.\<close>

theorem ready_means_gapless:
  assumes "list_all (of_session session) ops" "market_run F z c ops = Inr (s, history)"
    "market_health_at s symbol (Aware now) since = Inr health" "mh_ready health"
  shows "st_issues s = {} \<and> gapless (received ops) \<and>
    (\<exists>ss t q. map_of (st_symbols s) symbol = Some ss \<and> ss_latest_trade ss = Some t \<and> ss_latest_quote ss = Some q \<and>
       tr_received_at t \<le> now \<and>
       now - tr_received_at t \<le> dq_trade_stale_after_seconds (tv_data_quality (st_configuration s)) * second_us \<and>
       qs_received_at q \<le> now \<and>
       now - qs_received_at q \<le> dq_quote_stale_after_seconds (tv_data_quality (st_configuration s)) * second_us \<and>
       qs_is_complete q)"
proof -
  let ?d = "tv_data_quality (st_configuration s)"
  have inv: "transport_inv session (received ops) s" using assms(1,2) by (rule market_run_transport)
  obtain ss since' where ss: "map_of (st_symbols s) symbol = Some ss" and none: "integrity_issues s = []"
      "trade_reasons (dq_trade_stale_after_seconds ?d) now since' (ss_latest_trade ss) = []"
      "quote_reasons (dq_quote_stale_after_seconds ?d) now since' (ss_latest_quote ss) = []"
    using assms(3,4) by (auto simp: market_health_at_def Let_def rbind_eq_Inr split: option.splits)
  have "st_issues s = {}" using none(1) inv by (simp add: integrity_issues_def transport_inv_def)
  moreover have "gapless (received ops)" using inv calculation by (simp add: transport_inv_def)
  moreover obtain t where "ss_latest_trade ss = Some t" "tr_received_at t \<le> now"
      "now - tr_received_at t \<le> dq_trade_stale_after_seconds ?d * second_us"
    using none(2) by (auto simp: trade_reasons_def split: option.splits if_splits)
  moreover obtain q where "ss_latest_quote ss = Some q" "qs_received_at q \<le> now"
      "now - qs_received_at q \<le> dq_quote_stale_after_seconds ?d * second_us" "qs_is_complete q"
    using none(3) by (auto simp: quote_reasons_def split: option.splits if_splits)
  ultimately show ?thesis using ss by blast
qed

section \<open>Witnesses\<close>

text \<open>Three trades around a quote; the third trade closes the bar of the first two.\<close>

definition sample_trading :: trading_version where
  "sample_trading = hd (tc_versions (sample_configuration None None))"

definition sample_market_ops :: "market_op list" where
  "sample_market_ops =
     [Receive (sample_envelope 1 ''TradeMessage'' ''T1'' ''2025/09/24 09:15:01'' 2), Receive sample_quote_envelope,
      Receive (sample_envelope 3 ''TradeMessage'' ''T2'' ''2025/09/24 09:15:30.5'' 31),
      Receive (sample_envelope 4 ''TradeMessage'' ''T3'' ''2025/09/24 09:16:05'' 66)]"

lemma sample_trading_valid: "valid_market sample_trading"
proof -
  have "MarketConfiguration (\<lambda>_. True) (tv_market sample_trading) = Inr (tv_market sample_trading)" by code_simp
  then show ?thesis unfolding valid_market_def by blast
qed

lemma sample_market_ops_session: "list_all (of_session ''s1'') sample_market_ops"
  by code_simp

text \<open>The run: one bar of two trades is finalised and one is open.\<close>

lemma sample_market_run:
  obtains s history b where "market_run sample_feed vietnam_zone sample_trading sample_market_ops = Inr (s, history)"
    "map ob_trade_count (logged_bars ''VIC'' history) = [2]" "b \<in> set (logged_bars ''VIC'' history)"
    "ob_high_price b * of_int (ob_volume b) < 10 ^ 20" "ob_high_price b = 50100" "0 \<le> ob_start b"
    "length (accepted_trades ''VIC'' history) = 3"
proof -
  have "case market_run sample_feed vietnam_zone sample_trading sample_market_ops of Inl _ \<Rightarrow> False
     | Inr m \<Rightarrow> map ob_trade_count (logged_bars ''VIC'' (snd m)) = [2] \<and>
        (case logged_bars ''VIC'' (snd m) of [b] \<Rightarrow> ob_high_price b * of_int (ob_volume b) < 10 ^ 20 \<and>
            ob_high_price b = 50100 \<and> 0 \<le> ob_start b | _ \<Rightarrow> False) \<and>
        length (accepted_trades ''VIC'' (snd m)) = 3"
    by code_simp
  then obtain m where m: "market_run sample_feed vietnam_zone sample_trading sample_market_ops = Inr m"
      "map ob_trade_count (logged_bars ''VIC'' (snd m)) = [2]" "length (accepted_trades ''VIC'' (snd m)) = 3"
    and p: "case logged_bars ''VIC'' (snd m) of [b] \<Rightarrow> ob_high_price b * of_int (ob_volume b) < 10 ^ 20 \<and>
            ob_high_price b = 50100 \<and> 0 \<le> ob_start b | _ \<Rightarrow> False"
    by (auto dest!: case_res_True)
  obtain b where "logged_bars ''VIC'' (snd m) = [b]" "ob_high_price b * of_int (ob_volume b) < 10 ^ 20"
      "ob_high_price b = 50100" "0 \<le> ob_start b"
    using p by (auto split: list.splits)
  then show ?thesis using m by (intro that [of "fst m" "snd m" b]) simp_all
qed

theorem bars_equal_reference_witness:
  "\<exists>s history ss. market_run sample_feed vietnam_zone sample_trading sample_market_ops = Inr (s, history) \<and>
     map_of (st_symbols s) ''VIC'' = Some ss \<and> map ob_trade_count (logged_bars ''VIC'' history) = [2] \<and>
     map open_bar.truncate (logged_bars ''VIC'' history) @ (case ss_open_bar ss of None \<Rightarrow> [] | Some b \<Rightarrow> [b]) =
     reference_bars (mc_bar_interval_seconds (tv_market sample_trading)) ''VIC'' (accepted_trades ''VIC'' history)"
proof -
  have "''VIC'' \<in> set (mc_symbols (tv_market sample_trading))" by code_simp
  then show ?thesis
    using bars_equal_reference [OF sample_trading_valid sample_market_ops_session] by (metis sample_market_run)
qed

theorem finalized_bars_sound_witness:
  "\<exists>s history b. market_run sample_feed vietnam_zone sample_trading sample_market_ops = Inr (s, history) \<and>
     b \<in> set (logged_bars ''VIC'' history) \<and> ob_end b \<le> b_available_at b \<and> b_vwap b \<le> 50100"
proof -
  obtain s history b where run: "market_run sample_feed vietnam_zone sample_trading sample_market_ops = Inr (s, history)"
    and b: "b \<in> set (logged_bars ''VIC'' history)" "ob_high_price b * of_int (ob_volume b) < 10 ^ 20"
      "ob_high_price b = 50100" "0 \<le> ob_start b"
    by (rule sample_market_run)
  have "''VIC'' \<in> set (mc_symbols (tv_market sample_trading))" by code_simp
  then have "ob_end b \<le> b_available_at b \<and> b_vwap b \<le> ob_high_price b"
    using finalized_bars_sound [OF sample_trading_valid sample_market_ops_session run _ b(1)] b(2,4) by blast
  then show ?thesis using run b by auto
qed

theorem ready_means_gapless_witness:
  "\<exists>s history health. market_run sample_feed vietnam_zone sample_trading (take 2 sample_market_ops) = Inr (s, history) \<and>
     market_health_at s ''VIC'' (Aware (sample_market_open + 4 * second_us)) None = Inr health \<and> mh_ready health \<and>
     gapless (received (take 2 sample_market_ops))"
proof -
  have "case market_run sample_feed vietnam_zone sample_trading (take 2 sample_market_ops) of Inl _ \<Rightarrow> False
     | Inr m \<Rightarrow> (case market_health_at (fst m) ''VIC'' (Aware (sample_market_open + 4 * second_us)) None of
          Inl _ \<Rightarrow> False | Inr health \<Rightarrow> mh_ready health)"
    by code_simp
  then obtain m health where m: "market_run sample_feed vietnam_zone sample_trading (take 2 sample_market_ops) = Inr m"
    "market_health_at (fst m) ''VIC'' (Aware (sample_market_open + 4 * second_us)) None = Inr health" "mh_ready health"
    by (auto dest!: case_res_True)
  obtain s history where sh: "m = (s, history)" by (rule prod.exhaust)
  have "list_all (of_session ''s1'') (take 2 sample_market_ops)" by code_simp
  then have "gapless (received (take 2 sample_market_ops))"
    using ready_means_gapless [of "''s1''" "take 2 sample_market_ops" sample_feed vietnam_zone sample_trading s history] m sh
    by auto
  then show ?thesis using m sh by auto
qed

end
