(* ===== verification/MarketReplay.thy ===== *)
theory MarketReplay
  imports MarketBars
begin

text \<open>
  \<^verbatim>\<open>t0_trading/market/replay.py\<close>: captured envelopes pushed through the production transition core, with an
  observer of every accepted event. The observer is a function on a state of its own that may raise. The
  loop body is a step on the loop variables; segment coverage closes the bars of a segment before the next one starts.
\<close>

section \<open>Loop variables\<close>

record 'o replay_vars =
  rp_market :: market_state
  rp_bars :: "bar list"
  rp_input_count :: nat
  rp_business_event_count :: nat
  rp_event_counts :: "(string \<times> nat) list"
  rp_session_counts :: "(string \<times> nat) list"
  rp_latest_received_at :: "instant option"
  rp_active :: "string option"
  rp_observed :: 'o

record 'o replay_result =
  rr_state :: market_state
  rr_input_count :: nat
  rr_business_event_count :: nat
  rr_event_counts :: "(string \<times> nat) list"
  rr_session_counts :: "(string \<times> nat) list"
  rr_issues :: "string list"
  rr_finalized_bars :: "bar list"
  rr_observed :: 'o

text \<open>A \<^verbatim>\<open>Counter\<close> in insertion order.\<close>

fun count_one :: "'k \<Rightarrow> ('k \<times> nat) list \<Rightarrow> ('k \<times> nat) list" where
  "count_one k [] = [(k, 1)]"
| "count_one k ((x, n) # rest) = (if x = k then (x, Suc n) # rest else (x, n) # count_one k rest)"

fun event_type_name :: "market_event \<Rightarrow> string" where
  "event_type_name (TradeEvent _) = ''Trade''"
| "event_type_name (AuctionEvent _) = ''AuctionObservation''"
| "event_type_name (QuoteEvent _) = ''QuoteSnapshot''"

fun session_value :: "market_session \<Rightarrow> string" where
  "session_value MS_PRE_OPEN = ''pre_open''"
| "session_value MS_OPENING_AUCTION = ''opening_auction''"
| "session_value MS_CONTINUOUS_AM = ''continuous_am''"
| "session_value MS_LUNCH_BREAK = ''lunch_break''"
| "session_value MS_CONTINUOUS_PM = ''continuous_pm''"
| "session_value MS_CLOSING_AUCTION = ''closing_auction''"
| "session_value MS_CLOSED = ''closed''"

section \<open>The loop\<close>

definition advance_replay :: "'o replay_vars \<Rightarrow> instant \<Rightarrow> 'o replay_vars res" where
  "advance_replay r boundary =
     (let (s, bars) = advance_state (rp_market r) (Aware boundary) (Aware boundary)
      in rbind bars (\<lambda>b. Inr (r\<lparr>rp_market := s, rp_bars := rp_bars r @ b\<rparr>)))"

text \<open>Before the first envelope of another segment: the covered boundary of the segment that ends.\<close>

definition segment_boundary ::
  "(string \<Rightarrow> instant option) option \<Rightarrow> string option \<Rightarrow> instant option \<Rightarrow> instant option res" where
  "segment_boundary covered active latest_received_at =
     (case (active, covered) of
        (Some session, Some until) \<Rightarrow>
          (case until session of
             None \<Rightarrow> Inl (ValueError ''stream segment coverage is incomplete'')
           | Some boundary \<Rightarrow> Inr (Some boundary))
      | _ \<Rightarrow> Inr None)"

definition close_segment ::
  "(string \<Rightarrow> instant option) option \<Rightarrow> 'o replay_vars \<Rightarrow> stream_envelope \<Rightarrow> 'o replay_vars res" where
  "close_segment covered r e =
     (if rp_active r = None \<or> rp_active r = Some (se_stream_session_id e) then Inr r
      else rbind (segment_boundary covered (rp_active r) (rp_latest_received_at r)) (\<lambda>boundary.
        case boundary of
          None \<Rightarrow> Inr r
        | Some b \<Rightarrow> if (case rp_latest_received_at r of None \<Rightarrow> False | Some l \<Rightarrow> b < l)
            then Inl (ValueError ''stream segment coverage precedes its last receipt'')
            else advance_replay r b))"

definition observe_event ::
  "zone_info \<Rightarrow> session_schedule \<Rightarrow> date option \<Rightarrow> ('o \<Rightarrow> market_event \<Rightarrow> 'o res) \<Rightarrow> 'o replay_vars \<Rightarrow> market_event \<Rightarrow>
   'o replay_vars res" where
  "observe_event z schedule trade_date observe r event =
     (let event_date = fst (zn_local z (event_time event)) in
      if trade_date \<noteq> None \<and> Some event_date \<noteq> trade_date
      then Inl (ValueError ''market event does not belong to the captured trade date'')
      else rbind (observe (rp_observed r) event) (\<lambda>observed.
           rbind (session_at z schedule event_date (Aware (event_time event))) (\<lambda>session.
           Inr (r\<lparr>rp_observed := observed, rp_event_counts := count_one (event_type_name event) (rp_event_counts r),
                  rp_session_counts := count_one (session_value session) (rp_session_counts r)\<rparr>))))"

definition observe_update ::
  "zone_info \<Rightarrow> session_schedule \<Rightarrow> date option \<Rightarrow> ('o \<Rightarrow> market_event \<Rightarrow> 'o res) \<Rightarrow> 'o replay_vars \<Rightarrow> market_update \<Rightarrow>
   'o replay_vars res" where
  "observe_update z schedule trade_date observe r u =
     (case mu_event u of
        None \<Rightarrow> Inr r
      | Some event \<Rightarrow> observe_event z schedule trade_date observe
          (r\<lparr>rp_business_event_count := Suc (rp_business_event_count r)\<rparr>) event)"

definition note_receipt :: "'o replay_vars \<Rightarrow> market_state \<Rightarrow> stream_envelope \<Rightarrow> 'o replay_vars" where
  "note_receipt r s e = r\<lparr>rp_market := s, rp_input_count := Suc (rp_input_count r),
     rp_latest_received_at := Some (se_received_at e), rp_active := Some (se_stream_session_id e)\<rparr>"

definition replay_envelope ::
  "market_feed \<Rightarrow> zone_info \<Rightarrow> (string \<Rightarrow> instant option) option \<Rightarrow> date option \<Rightarrow> ('o \<Rightarrow> market_event \<Rightarrow> 'o res) \<Rightarrow>
   'o replay_vars \<Rightarrow> stream_envelope \<Rightarrow> 'o replay_vars res" where
  "replay_envelope F z covered trade_date observe r e =
     rbind (close_segment covered r e) (\<lambda>r1.
     let (s, update) = apply_envelope F z (rp_market r1) e;
         schedule = mc_sessions (tv_market (st_configuration (rp_market r1)))
     in rbind update (\<lambda>u. rbind (observe_update z schedule trade_date observe (note_receipt r1 s e) u)
          (\<lambda>r2. Inr (r2\<lparr>rp_bars := rp_bars r2 @ mu_finalized_bars u\<rparr>))))"

definition initial_replay_vars :: "trading_version \<Rightarrow> 'o \<Rightarrow> 'o replay_vars" where
  "initial_replay_vars c observed = \<lparr>rp_market = new_market_state c, rp_bars = [], rp_input_count = 0,
     rp_business_event_count = 0, rp_event_counts = [], rp_session_counts = [], rp_latest_received_at = None,
     rp_active = None, rp_observed = observed\<rparr>"

definition finish_boundary ::
  "(string \<Rightarrow> instant option) option \<Rightarrow> instant option \<Rightarrow> 'o replay_vars \<Rightarrow> instant option res" where
  "finish_boundary covered finish_at r =
     rbind (segment_boundary covered (rp_active r) (rp_latest_received_at r)) (\<lambda>boundary.
     Inr (case (boundary, finish_at) of
            (None, f) \<Rightarrow> f | (Some b, None) \<Rightarrow> Some b | (Some b, Some f) \<Rightarrow> Some (min f b)))"

definition finish_replay ::
  "(string \<Rightarrow> instant option) option \<Rightarrow> instant option \<Rightarrow> 'o replay_vars \<Rightarrow> 'o replay_vars res" where
  "finish_replay covered finish_at r =
     rbind (finish_boundary covered finish_at r) (\<lambda>boundary.
     case boundary of
       None \<Rightarrow> Inr r
     | Some b \<Rightarrow> if (case rp_latest_received_at r of None \<Rightarrow> False | Some l \<Rightarrow> b < l)
         then Inl (ValueError ''finish_at must not precede the last captured receipt'')
         else advance_replay r b)"

definition replay_market ::
  "market_feed \<Rightarrow> zone_info \<Rightarrow> trading_version \<Rightarrow> instant option \<Rightarrow> (string \<Rightarrow> instant option) option \<Rightarrow> date option \<Rightarrow>
   ('o \<Rightarrow> market_event \<Rightarrow> 'o res) \<Rightarrow> 'o \<Rightarrow> stream_envelope list \<Rightarrow> 'o replay_result res" where
  "replay_market F z c finish_at covered trade_date observe observed envelopes =
     rbind (run_res (replay_envelope F z covered trade_date observe) (initial_replay_vars c observed) envelopes) (\<lambda>r.
     rbind (finish_replay covered finish_at r) (\<lambda>r.
     Inr \<lparr>rr_state = rp_market r, rr_input_count = rp_input_count r, rr_business_event_count = rp_business_event_count r,
          rr_event_counts = sort (rp_event_counts r), rr_session_counts = sort (rp_session_counts r),
          rr_issues = integrity_issues (rp_market r), rr_finalized_bars = rp_bars r, rr_observed = rp_observed r\<rparr>))"

section \<open>A replay is a run of the transition core\<close>

text \<open>The operations a replay performs: every envelope in order, a clock advance where a covered segment ends, and one at the end.\<close>

definition segment_ops :: "(string \<Rightarrow> instant option) option \<Rightarrow> string option \<Rightarrow> stream_envelope \<Rightarrow> market_op list" where
  "segment_ops covered active e =
     (case (active, covered) of
        (Some session, Some until) \<Rightarrow>
          (if session = se_stream_session_id e then []
           else (case until session of None \<Rightarrow> [] | Some b \<Rightarrow> [Advance b b]))
      | _ \<Rightarrow> [])"

fun replay_ops :: "(string \<Rightarrow> instant option) option \<Rightarrow> string option \<Rightarrow> stream_envelope list \<Rightarrow> market_op list" where
  "replay_ops covered active [] = []"
| "replay_ops covered active (e # es) =
     segment_ops covered active e @ Receive e # replay_ops covered (Some (se_stream_session_id e)) es"

definition accepted_events :: "market_update list \<Rightarrow> market_event list" where
  "accepted_events history = concat (map (\<lambda>u. case mu_event u of None \<Rightarrow> [] | Some ev \<Rightarrow> [ev]) history)"

lemma accepted_events_snoc [simp]:
  "accepted_events (h @ [u]) = accepted_events h @ (case mu_event u of None \<Rightarrow> [] | Some ev \<Rightarrow> [ev])"
  "accepted_events [] = []"
  by (simp_all add: accepted_events_def)

text \<open>The loop variables are functions of the state and the history of the run.\<close>

definition follows :: "('o \<Rightarrow> market_event \<Rightarrow> 'o res) \<Rightarrow> 'o \<Rightarrow> 'o replay_vars \<Rightarrow> market_state \<times> market_update list \<Rightarrow> bool" where
  "follows observe observed r m \<longleftrightarrow> rp_market r = fst m \<and> rp_bars r = concat (map mu_finalized_bars (snd m)) \<and>
     rp_business_event_count r = length (accepted_events (snd m)) \<and>
     run_res observe observed (accepted_events (snd m)) = Inr (rp_observed r)"

lemma follows_new: "follows observe observed (initial_replay_vars c observed) (new_market_state c, [])"
  by (simp add: follows_def initial_replay_vars_def accepted_events_def)

lemma advance_replay_follows:
  assumes "follows observe observed r m" "advance_replay r b = Inr r'"
  shows "\<exists>m'. market_step F z m (Advance b b) = Inr m' \<and> follows observe observed r' m' \<and> rp_active r' = rp_active r"
proof -
  obtain s bars where s: "advance_state (rp_market r) (Aware b) (Aware b) = (s, bars)" by (rule prod.exhaust)
  obtain more where more: "bars = Inr more" "r' = r\<lparr>rp_market := s, rp_bars := rp_bars r @ more\<rparr>"
    using assms(2) by (auto simp: advance_replay_def s rbind_eq_Inr)
  have "market_step F z m (Advance b b) = Inr (s, snd m @ [\<lparr>mu_event = None, mu_finalized_bars = more, mu_issues = []\<rparr>])"
    using assms(1) s more(1) by (simp add: market_step_def follows_def)
  then show ?thesis using assms(1) by (auto simp: follows_def more(2))
qed

lemma close_segment_follows:
  assumes "follows observe observed r m" "close_segment covered r e = Inr r'"
  shows "\<exists>m'. run_res (market_step F z) m (segment_ops covered (rp_active r) e) = Inr m' \<and> follows observe observed r' m'"
proof (cases "rp_active r = None \<or> rp_active r = Some (se_stream_session_id e) \<or> covered = None")
  case True
  then have "r' = r" "segment_ops covered (rp_active r) e = []"
    using assms(2) by (auto simp: close_segment_def segment_boundary_def segment_ops_def split: option.splits if_splits)
  then show ?thesis using assms(1) by simp
next
  case False
  then obtain session until where act: "rp_active r = Some session" "covered = Some until" "session \<noteq> se_stream_session_id e"
    by auto
  then obtain b where "until session = Some b" "advance_replay r b = Inr r'"
    using assms(2) by (auto simp: close_segment_def segment_boundary_def rbind_eq_Inr split: option.splits if_splits)
  with advance_replay_follows [OF assms(1), of b r' F z] act show ?thesis by (auto simp: segment_ops_def)
qed

lemma observe_event_follows:
  assumes "observe_event z schedule trade_date observe r ev = Inr r'"
  shows "rp_market r' = rp_market r" "rp_bars r' = rp_bars r" "rp_business_event_count r' = rp_business_event_count r"
    "rp_active r' = rp_active r" "observe (rp_observed r) ev = Inr (rp_observed r')"
  using assms by (auto simp: observe_event_def Let_def rbind_eq_Inr split: if_splits)

lemma replay_envelope_follows:
  assumes "follows observe observed r m" "replay_envelope F z covered trade_date observe r e = Inr r'"
  shows "\<exists>m'. run_res (market_step F z) m (segment_ops covered (rp_active r) e @ [Receive e]) = Inr m' \<and>
    follows observe observed r' m' \<and> rp_active r' = Some (se_stream_session_id e)"
proof -
  obtain r1 where r1: "close_segment covered r e = Inr r1" using assms(2) by (auto simp: replay_envelope_def rbind_eq_Inr)
  obtain m1 where m1: "run_res (market_step F z) m (segment_ops covered (rp_active r) e) = Inr m1" "follows observe observed r1 m1"
    using close_segment_follows [OF assms(1) r1] by blast
  obtain s update where s: "apply_envelope F z (rp_market r1) e = (s, update)" by (rule prod.exhaust)
  obtain u where u: "update = Inr u" using assms(2) by (auto simp: replay_envelope_def r1 s Let_def rbind_eq_Inr)
  define schedule where "schedule = mc_sessions (tv_market (st_configuration (rp_market r1)))"
  obtain r2 where r2: "observe_update z schedule trade_date observe (note_receipt r1 s e) u = Inr r2"
    and r': "r' = r2\<lparr>rp_bars := rp_bars r2 @ mu_finalized_bars u\<rparr>"
    using assms(2) by (auto simp: replay_envelope_def r1 s u Let_def rbind_eq_Inr schedule_def)
  have step: "market_step F z m1 (Receive e) = Inr (s, snd m1 @ [u])"
    using m1(2) s u by (simp add: market_step_def follows_def)
  have "follows observe observed r' (s, snd m1 @ [u]) \<and> rp_active r' = Some (se_stream_session_id e)"
  proof (cases "mu_event u")
    case None
    then have "r2 = note_receipt r1 s e" using r2 by (simp add: observe_update_def)
    then show ?thesis using m1(2) None by (simp add: follows_def r' note_receipt_def)
  next
    case (Some ev)
    then have "observe_event z schedule trade_date observe
        ((note_receipt r1 s e)\<lparr>rp_business_event_count := Suc (rp_business_event_count r1)\<rparr>) ev = Inr r2"
      using r2 by (simp add: observe_update_def note_receipt_def)
    note seen = observe_event_follows [OF this]
    show ?thesis using seen m1(2) Some by (simp add: follows_def r' note_receipt_def run_res_append)
  qed
  then show ?thesis using m1(1) step by (simp add: run_res_append)
qed

lemma replay_loop_follows:
  assumes "follows observe observed r m" "run_res (replay_envelope F z covered trade_date observe) r es = Inr r'"
  shows "\<exists>m'. run_res (market_step F z) m (replay_ops covered (rp_active r) es) = Inr m' \<and> follows observe observed r' m'"
  using assms
proof (induction es arbitrary: r m)
  case (Cons e es)
  then obtain r1 where r1: "replay_envelope F z covered trade_date observe r e = Inr r1"
    and rest: "run_res (replay_envelope F z covered trade_date observe) r1 es = Inr r'"
    by (auto simp: rbind_eq_Inr)
  obtain m1 where m1: "run_res (market_step F z) m (segment_ops covered (rp_active r) e @ [Receive e]) = Inr m1"
    "follows observe observed r1 m1" "rp_active r1 = Some (se_stream_session_id e)"
    using replay_envelope_follows [OF Cons.prems(1) r1] by blast
  have "\<exists>m'. run_res (market_step F z) m1 (replay_ops covered (Some (se_stream_session_id e)) es) = Inr m' \<and> follows observe observed r' m'"
    using Cons.IH [OF m1(2) rest] m1(3) by simp
  then show ?case using m1(1) by (auto simp: run_res_append rbind_eq_Inr)
qed simp

lemma finish_replay_follows:
  assumes "follows observe observed r m" "finish_replay covered finish_at r = Inr r'"
  shows "\<exists>ops m'. set ops \<subseteq> range (\<lambda>b. Advance b b) \<and> length ops \<le> 1 \<and> (covered = None \<and> finish_at = None \<longrightarrow> ops = []) \<and>
    run_res (market_step F z) m ops = Inr m' \<and> follows observe observed r' m'"
proof -
  obtain boundary where b: "finish_boundary covered finish_at r = Inr boundary"
    using assms(2) by (auto simp: finish_replay_def rbind_eq_Inr)
  show ?thesis
  proof (cases boundary)
    case None
    then have "r' = r" using assms(2) b by (simp add: finish_replay_def)
    then show ?thesis using assms(1) by (intro exI [of _ "[]"] exI [of _ m]) simp
  next
    case (Some t)
    then have "advance_replay r t = Inr r'" using assms(2) b by (auto simp: finish_replay_def split: if_splits)
    then obtain m' where "market_step F z m (Advance t t) = Inr m'" "follows observe observed r' m'"
      using advance_replay_follows [OF assms(1)] by blast
    moreover have "\<not> (covered = None \<and> finish_at = None)"
      using b Some by (auto simp: finish_boundary_def segment_boundary_def rbind_eq_Inr split: option.splits)
    ultimately show ?thesis by (intro exI [of _ "[Advance t t]"] exI [of _ m']) auto
  qed
qed

text \<open>C37: A replay that returns is a run of the production transition core over its envelopes in their order, with one
  clock advance where a covered segment ends and at most one at the end: its state, its finalised bars and its count of
  business events are those of the run, and the observer has seen exactly the accepted events, once each and in order.\<close>

theorem replay_is_market_run:
  assumes "replay_market F z c finish_at covered trade_date observe observed envelopes = Inr result"
  shows "\<exists>closing s history. set closing \<subseteq> range (\<lambda>b. Advance b b) \<and> length closing \<le> 1 \<and>
    (covered = None \<and> finish_at = None \<longrightarrow> closing = []) \<and>
    market_run F z c (replay_ops covered None envelopes @ closing) = Inr (s, history) \<and>
    rr_state result = s \<and> rr_finalized_bars result = concat (map mu_finalized_bars history) \<and>
    rr_business_event_count result = length (accepted_events history) \<and>
    run_res observe observed (accepted_events history) = Inr (rr_observed result)"
proof -
  obtain r r' where loop: "run_res (replay_envelope F z covered trade_date observe) (initial_replay_vars c observed) envelopes = Inr r"
    and fin: "finish_replay covered finish_at r = Inr r'"
    and res: "rr_state result = rp_market r'" "rr_finalized_bars result = rp_bars r'"
      "rr_business_event_count result = rp_business_event_count r'" "rr_observed result = rp_observed r'"
    using assms by (auto simp: replay_market_def rbind_eq_Inr)
  have "rp_active (initial_replay_vars c observed) = None" by (simp add: initial_replay_vars_def)
  then obtain m where m: "run_res (market_step F z) (new_market_state c, []) (replay_ops covered None envelopes) = Inr m"
    "follows observe observed r m"
    using replay_loop_follows [OF follows_new loop] by auto
  obtain closing m' where closing: "set closing \<subseteq> range (\<lambda>b. Advance b b)" "length closing \<le> 1"
    "covered = None \<and> finish_at = None \<longrightarrow> closing = []" "run_res (market_step F z) m closing = Inr m'" "follows observe observed r' m'"
    using finish_replay_follows [OF m(2) fin] by blast
  have "market_run F z c (replay_ops covered None envelopes @ closing) = Inr (fst m', snd m')"
    using m(1) closing(4) by (simp add: market_run_def run_res_append)
  then show ?thesis using closing res by (intro exI [of _ closing] exI [of _ "fst m'"] exI [of _ "snd m'"]) (simp add: follows_def)
qed

definition sample_envelopes :: "stream_envelope list" where
  "sample_envelopes = received sample_market_ops"

theorem replay_is_market_run_witness:
  "\<exists>result s history. replay_market sample_feed vietnam_zone sample_trading None None None (\<lambda>n _. Inr (n + 1)) (0 :: nat)
       sample_envelopes = Inr result \<and>
     market_run sample_feed vietnam_zone sample_trading (replay_ops None None sample_envelopes) = Inr (s, history) \<and>
     rr_state result = s \<and> rr_observed result = 4 \<and> rr_business_event_count result = length (accepted_events history)"
proof -
  have "case replay_market sample_feed vietnam_zone sample_trading None None None (\<lambda>n _. Inr (n + 1)) (0 :: nat) sample_envelopes of
      Inl _ \<Rightarrow> False | Inr result \<Rightarrow> rr_observed result = 4"
    by code_simp
  then obtain result where result: "replay_market sample_feed vietnam_zone sample_trading None None None (\<lambda>n _. Inr (n + 1)) (0 :: nat)
      sample_envelopes = Inr result" "rr_observed result = 4"
    by (auto dest!: case_res_True)
  show ?thesis using replay_is_market_run [OF result(1)] result by auto
qed

end
