(* ===== verification/Precision.thy ===== *)
theory Precision
  imports Numeric
begin

text \<open>
  Decimal arithmetic under another precision than the default: \<^verbatim>\<open>with localcontext() as context: context.prec = 34\<close> of
  \<^verbatim>\<open>features/calculators.py\<close>, the power and the square root of the decimal module.

  \<open>dec_prec p\<close> rounds to \<open>p\<close> significant digits, half to even; the default context is \<open>dec_prec 28\<close>. An integer power is
  computed with three digits more and rounded once again, as the C implementation of the module does. The square
  root is correctly rounded; it is computed with an integer square root.
\<close>

section \<open>Rounding to a precision\<close>

definition dec_prec :: "nat \<Rightarrow> rat \<Rightarrow> decimal" where
  "dec_prec p x = (if x = 0 then 0 else
     let e = adjusted x - (int p - 1) in of_int (round_half_even (x / p10 e)) * p10 e)"

lemma dec_prec_default: "dec_prec 28 = dec_ctx"
  by (rule ext) (simp add: dec_prec_def dec_ctx_def)

lemma dec_prec_code [code]: "dec_prec p x = rounded_digits p x"
  by (simp add: dec_prec_def rounded_digits_eq)

lemma dec_prec_0 [simp]: "dec_prec p 0 = 0"
  by (simp add: dec_prec_def)

text \<open>A bound that is a power of ten survives rounding, on both sides.\<close>

lemma dec_prec_scale:
  assumes "0 < x" "0 < p"
  shows "p10 (adjusted x) \<le> dec_prec p x" "dec_prec p x \<le> p10 (adjusted x + 1)"
proof -
  let ?e = "adjusted x - (int p - 1)"
  have b: "p10 (adjusted x) \<le> x" "x < p10 (adjusted x + 1)" using adjusted_bounds [of x] assms by auto
  have low: "p10 (adjusted x) = p10 (int (p - 1)) * p10 ?e" and high: "p10 (adjusted x + 1) = p10 (int p) * p10 ?e"
    using assms(2) by (simp_all flip: p10_add)
  have "p10 (int (p - 1)) \<le> x / p10 ?e" using b(1) unfolding low by (simp only: pos_le_divide_eq p10_pos)
  then have lo: "of_int (10 ^ (p - 1)) \<le> x / p10 ?e" by (simp add: p10_nat)
  have "x / p10 ?e \<le> p10 (int p)" using b(2) unfolding high by (simp only: pos_divide_le_eq p10_pos less_imp_le)
  then have hi: "x / p10 ?e \<le> of_int (10 ^ p)" by (simp add: p10_nat)
  have c: "(10 ^ (p - 1) :: int) \<le> round_half_even (x / p10 ?e)" "round_half_even (x / p10 ?e) \<le> 10 ^ p"
    using round_half_even_mono [OF lo] round_half_even_mono [OF hi] round_half_even_of_int by metis+
  have eq: "dec_prec p x = of_int (round_half_even (x / p10 ?e)) * p10 ?e" using assms by (simp add: dec_prec_def Let_def)
  have "of_int (10 ^ (p - 1)) * p10 ?e \<le> dec_prec p x" "dec_prec p x \<le> of_int (10 ^ p) * p10 ?e"
    unfolding eq using c by (auto intro!: mult_right_mono simp only: of_int_le_iff p10_pos less_imp_le)
  then show "p10 (adjusted x) \<le> dec_prec p x" "dec_prec p x \<le> p10 (adjusted x + 1)"
    unfolding low high by (simp_all add: p10_nat)
qed

lemma dec_prec_nonneg: "0 \<le> x \<Longrightarrow> 0 < p \<Longrightarrow> 0 \<le> dec_prec p x"
  using dec_prec_scale(1) [of x p] p10_pos [of "adjusted x"] by (cases "x = 0") (simp, linarith)

lemma dec_prec_le_p10:
  assumes "0 \<le> x" "x < p10 k" "0 < p"
  shows "dec_prec p x \<le> p10 k"
proof (cases "x = 0")
  case False
  then have "p10 (adjusted x) < p10 k" using adjusted_bounds(1) [of x] assms by auto
  then have "p10 (adjusted x + 1) \<le> p10 k" by (intro p10_mono) (simp add: p10_less_iff)
  then show ?thesis using dec_prec_scale(2) [of x p] assms False by auto
qed (simp add: less_imp_le)

lemma dec_prec_minus: "dec_prec p (- x) = - dec_prec p x"
  by (simp add: dec_prec_def Let_def round_half_even_minus)

text \<open>Rounding is monotone, so it keeps every bound that has at most \<open>p\<close> digits.\<close>

lemma dec_prec_mono_pos:
  assumes "0 < x" "x \<le> y" "0 < p"
  shows "dec_prec p x \<le> dec_prec p y"
proof (cases "adjusted x = adjusted y")
  case True
  let ?e = "adjusted x - (int p - 1)"
  have "round_half_even (x / p10 ?e) \<le> round_half_even (y / p10 ?e)"
    using assms(2) by (intro round_half_even_mono divide_right_mono) (simp_all add: less_imp_le)
  then show ?thesis using assms True by (simp add: dec_prec_def Let_def mult_right_mono less_imp_le)
next
  case False
  with adjusted_mono [OF assms(1,2)] have "p10 (adjusted x + 1) \<le> p10 (adjusted y)" by (intro p10_mono) simp
  then show ?thesis using dec_prec_scale(2) [of x p] dec_prec_scale(1) [of y p] assms by simp
qed

lemma dec_prec_mono:
  assumes "x \<le> y" "0 < p"
  shows "dec_prec p x \<le> dec_prec p y"
proof -
  consider "0 < x" | "x \<le> 0" "0 \<le> y" | "y < 0" using assms(1) by linarith
  then show ?thesis
  proof cases
    case 1
    then show ?thesis using assms by (intro dec_prec_mono_pos)
  next
    case 2
    then have "0 \<le> dec_prec p (- x)" "0 \<le> dec_prec p y" using assms(2) by (auto intro: dec_prec_nonneg)
    then show ?thesis by (simp add: dec_prec_minus)
  next
    case 3
    then have "dec_prec p (- y) \<le> dec_prec p (- x)" using assms by (intro dec_prec_mono_pos) simp_all
    then show ?thesis by (simp add: dec_prec_minus)
  qed
qed

lemma dec_prec_of_int:
  assumes "0 \<le> c" "c < 10 ^ p"
  shows "dec_prec p (of_int c) = of_int c"
proof (cases "c = 0")
  case False
  let ?x = "of_int c :: rat"
  let ?e = "adjusted ?x - (int p - 1)"
  have "p10 (adjusted ?x) \<le> ?x" using adjusted_bounds(1) [of ?x] assms(1) False by simp
  also have "?x < of_int (10 ^ p)" using assms(2) by (simp only: of_int_less_iff)
  also have "\<dots> = p10 (int p)" by (simp add: p10_nat)
  finally have "- ?e = int (nat (- ?e))" by (simp add: p10_less_iff)
  then have k: "p10 (- ?e) = of_int (10 ^ nat (- ?e))" using p10_nat [of "nat (- ?e)"] by simp
  have "p10 (- ?e) * p10 ?e = 1" using p10_add [of "- ?e" ?e] by simp
  then have "?x / p10 ?e = ?x * p10 (- ?e)" by (simp add: divide_eq_eq)
  then have "?x / p10 ?e = of_int (c * 10 ^ nat (- ?e))" by (simp only: k of_int_mult)
  then have "of_int (round_half_even (?x / p10 ?e)) = ?x / p10 ?e" by (simp only: round_half_even_of_int)
  then show ?thesis using False by (simp add: dec_prec_def Let_def)
qed simp

section \<open>Operations\<close>

definition dadd_prec :: "nat \<Rightarrow> decimal \<Rightarrow> decimal \<Rightarrow> decimal" where "dadd_prec p x y = dec_prec p (x + y)"
definition dsub_prec :: "nat \<Rightarrow> decimal \<Rightarrow> decimal \<Rightarrow> decimal" where "dsub_prec p x y = dec_prec p (x - y)"
definition dmul_prec :: "nat \<Rightarrow> decimal \<Rightarrow> decimal \<Rightarrow> decimal" where "dmul_prec p x y = dec_prec p (x * y)"

definition ddiv_prec_res :: "nat \<Rightarrow> decimal \<Rightarrow> decimal \<Rightarrow> decimal res" where
  "ddiv_prec_res p x y = (if y = 0 then Inl (if x = 0 then InvalidOperation else DivisionByZero) else Inr (dec_prec p (x / y)))"

definition dsum_prec :: "nat \<Rightarrow> decimal list \<Rightarrow> decimal" where
  "dsum_prec p xs = foldl (dadd_prec p) 0 xs"

text \<open>\<^verbatim>\<open>value ** 2\<close>\<close>

definition dsquare :: "nat \<Rightarrow> decimal \<Rightarrow> decimal" where
  "dsquare p x = dec_prec p (dec_prec (p + 3) (x * x))"

definition quantize_prec :: "nat \<Rightarrow> (rat \<Rightarrow> int) \<Rightarrow> nat \<Rightarrow> decimal \<Rightarrow> decimal res" where
  "quantize_prec p rounding k x = (let c = rounding (x * 10 ^ k) in
     if 10 ^ p \<le> \<bar>c\<bar> then Inl InvalidOperation else Inr (of_int c / 10 ^ k))"

lemma quantize_prec_default: "quantize_prec 28 round_half_up = quantize"
  by (intro ext) (simp add: quantize_prec_def quantize_def)

text \<open>A sum of values up to a whole bound.\<close>

lemma dsum_prec_bounds:
  assumes "0 < p" "0 \<le> b" "int (length xs) * b < 10 ^ p" "\<And>x. x \<in> set xs \<Longrightarrow> 0 \<le> x \<and> x \<le> of_int b"
  shows "0 \<le> dsum_prec p xs \<and> dsum_prec p xs \<le> of_int (int (length xs) * b)"
  using assms(3,4)
proof (induction xs rule: rev_induct)
  case (snoc x xs)
  have n: "int (length (xs @ [x])) * b = int (length xs) * b + b" by (simp add: algebra_simps)
  have x: "0 \<le> x" "x \<le> of_int b" using snoc.prems(2) by auto
  have ih: "0 \<le> dsum_prec p xs" "dsum_prec p xs \<le> of_int (int (length xs) * b)"
    using snoc.IH snoc.prems assms(2) n by auto
  have eq: "dsum_prec p (xs @ [x]) = dec_prec p (dsum_prec p xs + x)" by (simp add: dsum_prec_def dadd_prec_def)
  have "dsum_prec p xs + x \<le> of_int (int (length (xs @ [x])) * b)" using ih(2) x(2) unfolding n of_int_add by linarith
  then have "dec_prec p (dsum_prec p xs + x) \<le> dec_prec p (of_int (int (length (xs @ [x])) * b))"
    using assms(1) by (rule dec_prec_mono)
  also have "\<dots> = of_int (int (length (xs @ [x])) * b)"
    using snoc.prems(1) assms(2) by (intro dec_prec_of_int) auto
  finally show ?case unfolding eq using ih(1) x(1) assms(1) by (intro conjI dec_prec_nonneg) auto
qed (simp add: dsum_prec_def)

lemma quantize_prec_bounded:
  assumes "\<bar>x\<bar> \<le> of_int b" "b * 10 ^ k < 10 ^ p"
  obtains a where "quantize_prec p round_half_up k x = Inr a" "\<bar>a\<bar> \<le> of_int b" "0 \<le> x \<Longrightarrow> 0 \<le> a"
proof -
  let ?c = "round_half_up (x * 10 ^ k)"
  have "x \<le> of_int b" "of_int (- b) \<le> x" using assms(1) by (auto simp: abs_le_iff)
  then have "x * 10 ^ k \<le> of_int b * 10 ^ k" "of_int (- b) * 10 ^ k \<le> x * 10 ^ k" by (simp_all only: mult_right_mono zero_le_power zero_le_numeral)
  then have "x * 10 ^ k \<le> of_int (b * 10 ^ k)" "of_int (- (b * 10 ^ k)) \<le> x * 10 ^ k" by simp_all
  then have c: "?c \<le> b * 10 ^ k" "- (b * 10 ^ k) \<le> ?c"
    using round_half_up_mono round_half_up_of_int by metis+
  have "0 \<le> ?c" if "0 \<le> x" using round_half_up_mono [of 0 "x * 10 ^ k"] round_half_up_of_int [of 0] that by simp
  moreover have "\<bar>of_int ?c\<bar> \<le> (of_int (b * 10 ^ k) :: rat)"
    unfolding of_int_abs [symmetric] of_int_le_iff using c by linarith
  then have "\<bar>of_int ?c / 10 ^ k\<bar> \<le> (of_int b :: rat)" by (simp add: abs_divide pos_divide_le_eq)
  moreover have "quantize_prec p round_half_up k x = Inr (of_int ?c / 10 ^ k)"
    using c assms(2) by (simp add: quantize_prec_def Let_def)
  ultimately show ?thesis using that [of "of_int ?c / 10 ^ k"] by simp
qed

section \<open>Square roots\<close>

function isqrt :: "int \<Rightarrow> int" where
  "isqrt n = (if n \<le> 0 then 0 else let r = 2 * isqrt (n div 4) in if (r + 1) * (r + 1) \<le> n then r + 1 else r)"
  by pat_completeness auto
termination by (relation "measure nat") auto

declare isqrt.simps [simp del]

lemma isqrt_bounds: "0 \<le> n \<Longrightarrow> 0 \<le> isqrt n \<and> isqrt n * isqrt n \<le> n \<and> n < (isqrt n + 1) * (isqrt n + 1)"
proof (induction n rule: isqrt.induct)
  case (1 n)
  show ?case
  proof (cases "n \<le> 0")
    case True
    then show ?thesis using 1(2) by (simp add: isqrt.simps)
  next
    case False
    define r where "r = isqrt (n div 4)"
    have ih: "0 \<le> r" "r * r \<le> n div 4" "n div 4 < (r + 1) * (r + 1)" using 1(1) False by (auto simp: r_def)
    have lo: "4 * (r * r) \<le> n" using ih(2) by linarith
    have "n div 4 + 1 \<le> (r + 1) * (r + 1)" using ih(3) by linarith
    then have hi: "n < 4 * ((r + 1) * (r + 1))" by linarith
    have eq: "isqrt n = (if (2 * r + 1) * (2 * r + 1) \<le> n then 2 * r + 1 else 2 * r)"
      using False by (simp add: isqrt.simps [of n] Let_def r_def)
    show ?thesis
    proof (cases "(2 * r + 1) * (2 * r + 1) \<le> n")
      case True
      have "(2 * r + 1 + 1) * (2 * r + 1 + 1) = 4 * ((r + 1) * (r + 1))" by (simp add: algebra_simps)
      then show ?thesis using True hi ih(1) by (simp add: eq)
    next
      case False
      then show ?thesis using lo ih(1) by (simp add: eq)
    qed
  qed
qed

text \<open>\<^verbatim>\<open>Decimal.sqrt\<close> of a value that is not negative.\<close>

definition dsqrt :: "nat \<Rightarrow> decimal \<Rightarrow> decimal res" where
  "dsqrt p x =
     (if x < 0 then Inl InvalidOperation else if x = 0 then Inr 0
      else let e = adjusted x div 2 - (int p - 1);
               y = x / p10 (2 * e);
               s = isqrt \<lfloor>y\<rfloor>;
               half = of_int ((2 * s + 1) * (2 * s + 1));
               c = (if 4 * y < half then s else if half < 4 * y then s + 1 else if even s then s else s + 1)
           in Inr (of_int c * p10 e))"

text \<open>The root is within half a unit of its last digit.\<close>

lemma dsqrt_accurate:
  assumes "0 < x"
  obtains r u where "dsqrt p x = Inr r" "u = p10 (adjusted x div 2 - (int p - 1))" "0 \<le> r"
    "(r + u / 2) * (r + u / 2) \<ge> x" "u / 2 \<le> r \<Longrightarrow> (r - u / 2) * (r - u / 2) \<le> x"
proof -
  define e where "e = adjusted x div 2 - (int p - 1)"
  define y where "y = x / p10 (2 * e)"
  define s where "s = isqrt \<lfloor>y\<rfloor>"
  define half :: rat where "half = of_int ((2 * s + 1) * (2 * s + 1))"
  define c where "c = (if 4 * y < half then s else if half < 4 * y then s + 1 else if even s then s else s + 1)"
  have y0: "0 \<le> y" using assms by (simp add: y_def less_imp_le)
  then have s: "0 \<le> s" "s * s \<le> \<lfloor>y\<rfloor>" "\<lfloor>y\<rfloor> < (s + 1) * (s + 1)" using isqrt_bounds [of "\<lfloor>y\<rfloor>"] by (simp_all add: s_def)
  have lo: "of_int (s * s) \<le> y" using s(2) by (simp only: le_floor_iff)
  have hi: "y < of_int ((s + 1) * (s + 1))" using s(3) by (simp only: floor_less_iff)
  define q where "q = (of_int s :: rat)"
  have q: "0 \<le> q" "q * q \<le> y" "y < (q + 1) * (q + 1)" "half = (2 * q + 1) * (2 * q + 1)"
    using s(1) lo hi by (simp_all add: q_def half_def)
  have c: "(of_int c :: rat) = q \<and> 4 * y \<le> half \<or> (of_int c :: rat) = q + 1 \<and> half \<le> 4 * y"
    by (auto simp: c_def q_def)
  have up: "y \<le> (of_int c + 1 / 2) * (of_int c + 1 / 2)"
  proof (cases "(of_int c :: rat) = q \<and> 4 * y \<le> half")
    case True
    then show ?thesis using q(4) by (simp add: algebra_simps)
  next
    case False
    then have "(of_int c :: rat) = q + 1" using c by auto
    then have "(of_int c + 1 / 2) * (of_int c + 1 / 2) = (q + 1) * (q + 1) + (q + 1) + 1 / 4" by (simp add: algebra_simps)
    then show ?thesis using q(1,3) by linarith
  qed
  have down: "(of_int c - 1 / 2) * (of_int c - 1 / 2) \<le> y" if "1 / 2 \<le> (of_int c :: rat)"
  proof (cases "(of_int c :: rat) = q + 1 \<and> half \<le> 4 * y")
    case True
    then show ?thesis using q(4) by (simp add: algebra_simps)
  next
    case False
    then have "(of_int c :: rat) = q" using c by auto
    then have "(of_int c - 1 / 2) * (of_int c - 1 / 2) = q * q - q + 1 / 4" "1 / 2 \<le> q" using that by (simp_all add: algebra_simps)
    then show ?thesis using q(2) by linarith
  qed
  define u where "u = p10 e"
  have uu: "u * u = p10 (2 * e)" by (simp add: u_def flip: p10_add)
  have x: "x = y * (u * u)" by (simp add: y_def uu)
  have u0: "0 < u" by (simp add: u_def)
  have "dsqrt p x = Inr (of_int c * u)" using assms
    by (simp add: dsqrt_def Let_def e_def y_def s_def half_def c_def u_def)
  moreover have "0 \<le> of_int c * u" using s(1) u0 by (simp add: c_def)
  moreover have "(of_int c * u + u / 2) * (of_int c * u + u / 2) \<ge> x"
  proof -
    have "(of_int c * u + u / 2) * (of_int c * u + u / 2) = (of_int c + 1 / 2) * (of_int c + 1 / 2) * (u * u)"
      by (simp add: algebra_simps)
    then show ?thesis unfolding x using up u0 by (simp only:) (intro mult_right_mono; simp)
  qed
  moreover have "(of_int c * u - u / 2) * (of_int c * u - u / 2) \<le> x" if "u / 2 \<le> of_int c * u"
  proof -
    have "1 / 2 \<le> (of_int c :: rat)" using that u0 by (simp add: field_simps)
    moreover have "(of_int c * u - u / 2) * (of_int c * u - u / 2) = (of_int c - 1 / 2) * (of_int c - 1 / 2) * (u * u)"
      by (simp add: algebra_simps)
    ultimately show ?thesis unfolding x using down u0 by (simp only:) (intro mult_right_mono; simp)
  qed
  ultimately show ?thesis using that [of "of_int c * u" u] by (simp add: u_def e_def)
qed

lemma dsqrt_bounded:
  assumes "0 \<le> x" "x < p10 (2 * k)" "0 \<le> k" "k < int p"
  obtains r where "dsqrt p x = Inr r" "0 \<le> r" "r \<le> p10 k + 1"
proof (cases "x = 0")
  case True
  then show ?thesis using that [of 0] p10_pos [of k] by (simp add: dsqrt_def less_imp_le add_nonneg_nonneg)
next
  case False
  then have "0 < x" using assms(1) by simp
  then obtain r u where r: "dsqrt p x = Inr r" "u = p10 (adjusted x div 2 - (int p - 1))" "0 \<le> r"
    "u / 2 \<le> r \<Longrightarrow> (r - u / 2) * (r - u / 2) \<le> x"
    using dsqrt_accurate [of x p] by metis
  have "p10 (adjusted x) < p10 (2 * k)" using adjusted_bounds(1) [of x] \<open>0 < x\<close> assms(2) by auto
  then have "adjusted x div 2 - (int p - 1) \<le> 0" using assms(4) by (simp add: p10_less_iff)
  then have u: "u \<le> 1" using p10_mono [of _ 0] by (simp add: r(2))
  have "r \<le> p10 k + 1"
  proof (cases "u / 2 \<le> r")
    case True
    have "(r - u / 2) * (r - u / 2) < p10 k * p10 k" using r(4) [OF True] assms(2) by (simp flip: p10_add)
    then have "r - u / 2 < p10 k" using True mult_mono [of "p10 k" "r - u / 2" "p10 k" "r - u / 2"] by (force simp: less_imp_le)
    then show ?thesis using u by linarith
  next
    case False
    then show ?thesis using u p10_pos [of k] by linarith
  qed
  then show ?thesis using that r by blast
qed

end
