(* ===== verification/FeatureModel.thy ===== *)
theory FeatureModel
  imports Precision MarketBars
begin

text \<open>
  \<^verbatim>\<open>t0_trading/features/model.py\<close> and \<^verbatim>\<open>calculators.py\<close>: the feature vector with its validators, the book state, the
  order-flow of one quote transition, and one trailing window. \<^verbatim>\<open>None\<close> values are options; the nine book values are a
  record of their own, which the snapshot extends, as \<^verbatim>\<open>**book\<close> does. The lemmas show that the calculators only
  produce what the validators accept.
\<close>

section \<open>Records\<close>

record window_features =
  fw_window_seconds :: int
  fw_trade_count :: int
  fw_quote_change_count :: int
  fw_trade_volume :: int
  fw_signed_trade_volume :: int
  fw_trade_volume_per_second :: "decimal option"
  fw_trade_volume_imbalance :: "decimal option"
  fw_level_one_order_flow_imbalance :: int
  fw_price_return_bps :: "decimal option"
  fw_realized_volatility_bps :: "decimal option"
  fw_vwap :: "decimal option"
  fw_last_price_to_vwap_bps :: "decimal option"

text \<open>A constraint of an optional field.\<close>

definition if_present :: "('a \<Rightarrow> bool) \<Rightarrow> 'a option \<Rightarrow> bool" where
  "if_present P v = (case v of None \<Rightarrow> True | Some x \<Rightarrow> P x)"

lemma if_present_simps [simp]: "if_present P None" "if_present P (Some x) = P x"
  by (simp_all add: if_present_def)

definition WindowFeatures :: "window_features \<Rightarrow> window_features res" where
  "WindowFeatures w =
     (let trade_values = [fw_trade_volume_per_second w, fw_trade_volume_imbalance w, fw_vwap w, fw_last_price_to_vwap_bps w];
          movement_values = [fw_price_return_bps w, fw_realized_volatility_bps w]
      in if \<not> (1 \<le> fw_window_seconds w \<and> 0 \<le> fw_trade_count w \<and> 0 \<le> fw_quote_change_count w \<and> 0 \<le> fw_trade_volume w \<and>
               if_present (\<lambda>v. 0 \<le> v) (fw_trade_volume_per_second w) \<and>
               if_present (\<lambda>v. - 1 \<le> v \<and> v \<le> 1) (fw_trade_volume_imbalance w) \<and>
               if_present (\<lambda>v. 0 \<le> v) (fw_realized_volatility_bps w) \<and> if_present (\<lambda>v. 0 < v) (fw_vwap w))
         then Inl (ValidationError ''WindowFeatures'')
         else if \<bar>fw_signed_trade_volume w\<bar> > fw_trade_volume w
         then Inl (ValidationError ''signed trade volume cannot exceed total trade volume'')
         else if fw_quote_change_count w = 0 \<and> fw_level_one_order_flow_imbalance w \<noteq> 0
         then Inl (ValidationError ''book flow requires at least one quote transition'')
         else if fw_trade_count w = 0 \<and>
                 (fw_trade_volume w \<noteq> 0 \<or> fw_signed_trade_volume w \<noteq> 0 \<or> list_ex (\<lambda>v. v \<noteq> None) trade_values)
         then Inl (ValidationError ''empty trade window contains trade-derived values'')
         else if fw_trade_count w \<noteq> 0 \<and> (fw_trade_volume w = 0 \<or> list_ex (\<lambda>v. v = None) trade_values)
         then Inl (ValidationError ''non-empty trade window is missing trade-derived values'')
         else if fw_trade_count w < 2 \<and> list_ex (\<lambda>v. v \<noteq> None) movement_values
         then Inl (ValidationError ''price movement features require at least two trades'')
         else if fw_trade_count w \<ge> 2 \<and> list_ex (\<lambda>v. v = None) movement_values
         then Inl (ValidationError ''price movement features require at least two trades'')
         else Inr w)"

record book_values =
  bk_mid_price :: "decimal option"
  bk_microprice :: "decimal option"
  bk_microprice_deviation_bps :: "decimal option"
  bk_spread :: "decimal option"
  bk_spread_bps :: "decimal option"
  bk_bid_depth :: "int option"
  bk_ask_depth :: "int option"
  bk_level_one_imbalance :: "decimal option"
  bk_depth_imbalance :: "decimal option"

definition EMPTY_BOOK :: book_values where
  "EMPTY_BOOK = \<lparr>bk_mid_price = None, bk_microprice = None, bk_microprice_deviation_bps = None, bk_spread = None,
     bk_spread_bps = None, bk_bid_depth = None, bk_ask_depth = None, bk_level_one_imbalance = None, bk_depth_imbalance = None\<rparr>"

record feature_snapshot = book_values +
  fs_feature_version :: string
  fs_configuration_version :: string
  fs_configuration_sha256 :: string
  fs_symbol :: string
  fs_trade_date :: date
  fs_decision_at :: instant
  fs_market_session :: market_session
  fs_stream_session_id :: "string option"
  fs_last_receive_sequence :: "int option"
  fs_trade_age_seconds :: "decimal option"
  fs_quote_age_seconds :: "decimal option"
  fs_windows :: "window_features list"
  fs_reasons :: "string list"

text \<open>Which book values are present.\<close>

definition book_presence :: "'a book_values_scheme \<Rightarrow> bool list" where
  "book_presence b = [bk_mid_price b \<noteq> None, bk_microprice b \<noteq> None, bk_microprice_deviation_bps b \<noteq> None, bk_spread b \<noteq> None,
     bk_spread_bps b \<noteq> None, bk_bid_depth b \<noteq> None, bk_ask_depth b \<noteq> None, bk_level_one_imbalance b \<noteq> None,
     bk_depth_imbalance b \<noteq> None]"

definition book_bounds :: "'a book_values_scheme \<Rightarrow> bool" where
  "book_bounds b = (if_present (\<lambda>v. 0 < v) (bk_mid_price b) \<and> if_present (\<lambda>v. 0 < v) (bk_microprice b) \<and>
     if_present (\<lambda>v. 0 < v) (bk_spread b) \<and> if_present (\<lambda>v. 0 < v) (bk_spread_bps b) \<and>
     if_present (\<lambda>v. 0 < v) (bk_bid_depth b) \<and> if_present (\<lambda>v. 0 < v) (bk_ask_depth b) \<and>
     if_present (\<lambda>v. - 1 \<le> v \<and> v \<le> 1) (bk_level_one_imbalance b) \<and> if_present (\<lambda>v. - 1 \<le> v \<and> v \<le> 1) (bk_depth_imbalance b))"

definition FeatureSnapshot :: "feature_snapshot \<Rightarrow> feature_snapshot res" where
  "FeatureSnapshot s =
     (if \<not> (is_version (fs_feature_version s) \<and> is_version (fs_configuration_version s) \<and> is_sha256 (fs_configuration_sha256 s) \<and>
            if_present (\<lambda>v. v \<noteq> []) (fs_stream_session_id s) \<and> if_present (\<lambda>v. 1 \<le> v) (fs_last_receive_sequence s) \<and>
            if_present (\<lambda>v. 0 \<le> v) (fs_trade_age_seconds s) \<and> if_present (\<lambda>v. 0 \<le> v) (fs_quote_age_seconds s) \<and> book_bounds s)
      then Inl (ValidationError ''FeatureSnapshot'')
      else if fs_symbol s \<noteq> map to_upper (strip (fs_symbol s)) then Inl (ValidationError ''symbol must be uppercase'')
      else if (fs_stream_session_id s = None) \<noteq> (fs_last_receive_sequence s = None)
      then Inl (ValidationError ''stream position must be wholly present or absent'')
      else if sorted_set (map fw_window_seconds (fs_windows s)) \<noteq> map fw_window_seconds (fs_windows s)
      then Inl (ValidationError ''feature windows must be unique and ascending'')
      else if fromkeys (fs_reasons s) \<noteq> fs_reasons s then Inl (ValidationError ''feature reasons must be unique and stable'')
      else if False \<in> set (book_presence s) \<and> True \<in> set (book_presence s)
      then Inl (ValidationError ''book features must be wholly present or absent'')
      else Inr s)"

definition is_eligible :: "feature_snapshot \<Rightarrow> bool" where
  "is_eligible s = (fs_reasons s = [])"

text \<open>The content digests: of the trading version and of a snapshot.\<close>

record feature_env =
  fe_configuration_sha256 :: "trading_version \<Rightarrow> string"
  fe_snapshot_sha256 :: "feature_snapshot \<Rightarrow> string"

lemma WindowFeatures_Inr: "WindowFeatures w = Inr v \<Longrightarrow> v = w"
  by (auto simp: WindowFeatures_def Let_def split: if_splits)

lemma FeatureSnapshot_Inr: "FeatureSnapshot s = Inr t \<Longrightarrow> t = s"
  by (auto simp: FeatureSnapshot_def split: if_splits)

section \<open>Book state\<close>

definition sum_quantity :: "quote_level list \<Rightarrow> int" where
  "sum_quantity levels = sum_list (map ql_quantity levels)"

definition book_values_of :: "quote_snapshot \<Rightarrow> book_values res" where
  "book_values_of q =
     (if \<not> qs_is_complete q \<or> qs_bids q = [] \<or> qs_asks q = []
      then Inl (ValueError ''book features require one complete non-crossed quote'')
      else let best_bid = hd (qs_bids q); best_ask = hd (qs_asks q); spread = dsub (ql_price best_ask) (ql_price best_bid)
      in if spread \<le> 0 then Inl (ValueError ''book features require a positive spread'')
      else rbind (quantize PRICE_QUANTUM (ddiv (dadd (ql_price best_bid) (ql_price best_ask)) 2)) (\<lambda>midpoint.
        let level_one_depth = ql_quantity best_bid + ql_quantity best_ask
        in rbind (ddiv_res (dadd (dmul (ql_price best_ask) (of_int (ql_quantity best_bid)))
              (dmul (ql_price best_bid) (of_int (ql_quantity best_ask)))) (of_int level_one_depth)) (\<lambda>weighted.
        rbind (quantize PRICE_QUANTUM weighted) (\<lambda>microprice.
        let bid_depth = sum_quantity (qs_bids q); ask_depth = sum_quantity (qs_asks q)
        in rbind (basis_points (dsub microprice midpoint) midpoint) (\<lambda>deviation.
        rbind (basis_points spread midpoint) (\<lambda>spread_bps.
        rbind (ratio RATIO_QUANTUM (of_int (ql_quantity best_bid - ql_quantity best_ask)) (of_int level_one_depth)) (\<lambda>level_one.
        rbind (ratio RATIO_QUANTUM (of_int (bid_depth - ask_depth)) (of_int (bid_depth + ask_depth))) (\<lambda>depth.
        Inr \<lparr>bk_mid_price = Some midpoint, bk_microprice = Some microprice, bk_microprice_deviation_bps = Some deviation,
          bk_spread = Some spread, bk_spread_bps = Some spread_bps, bk_bid_depth = Some bid_depth, bk_ask_depth = Some ask_depth,
          bk_level_one_imbalance = Some level_one, bk_depth_imbalance = Some depth\<rparr>))))))))"

definition level_one_book_flow :: "quote_snapshot \<Rightarrow> quote_snapshot \<Rightarrow> int res" where
  "level_one_book_flow previous current =
     (if \<not> qs_is_complete previous \<or> \<not> qs_is_complete current then Inl (ValueError ''book flow requires complete quotes'')
      else rbind (index_res (qs_bids previous) 0) (\<lambda>previous_bid. rbind (index_res (qs_asks previous) 0) (\<lambda>previous_ask.
      rbind (index_res (qs_bids current) 0) (\<lambda>current_bid. rbind (index_res (qs_asks current) 0) (\<lambda>current_ask.
      let bid_flow = (if ql_price current_bid \<ge> ql_price previous_bid then ql_quantity current_bid else 0) -
                     (if ql_price current_bid \<le> ql_price previous_bid then ql_quantity previous_bid else 0);
          ask_flow = (if ql_price current_ask \<le> ql_price previous_ask then ql_quantity current_ask else 0) -
                     (if ql_price current_ask \<ge> ql_price previous_ask then ql_quantity previous_ask else 0)
      in Inr (bid_flow - ask_flow))))))"

section \<open>One trailing window\<close>

definition squared_return :: "trade \<times> trade \<Rightarrow> decimal res" where
  "squared_return p = (case p of (previous, current) \<Rightarrow>
     rbind (ddiv_prec_res 34 (dsub_prec 34 (tr_price current) (tr_price previous)) (tr_price previous)) (\<lambda>r. Inr (dsquare 34 r)))"

definition realized_volatility :: "trade list \<Rightarrow> decimal res" where
  "realized_volatility trades =
     rbind (map_res squared_return (zip trades (tl trades))) (\<lambda>squares.
     rbind (dsqrt 34 (dsum_prec 34 squares)) (\<lambda>root.
     quantize_prec 34 round_half_up BPS_QUANTUM (dmul_prec 34 root 10000)))"

definition price_movements :: "trade list \<Rightarrow> (decimal option \<times> decimal option) res" where
  "price_movements trades =
     (if length trades \<ge> 2
      then rbind (basis_points (dsub (tr_price (last trades)) (tr_price (hd trades))) (tr_price (hd trades))) (\<lambda>r.
           rbind (realized_volatility trades) (\<lambda>v. Inr (Some r, Some v)))
      else Inr (None, None))"

definition window_values :: "int \<Rightarrow> trade list \<Rightarrow> int list \<Rightarrow> window_features res" where
  "window_values window_seconds trades book_flows =
     (if trades = []
      then WindowFeatures \<lparr>fw_window_seconds = window_seconds, fw_trade_count = 0, fw_quote_change_count = int (length book_flows),
             fw_trade_volume = 0, fw_signed_trade_volume = 0, fw_trade_volume_per_second = None, fw_trade_volume_imbalance = None,
             fw_level_one_order_flow_imbalance = sum_list book_flows, fw_price_return_bps = None,
             fw_realized_volatility_bps = None, fw_vwap = None, fw_last_price_to_vwap_bps = None\<rparr>
      else let volume = sum_list (map tr_quantity trades);
               signed_volume = sum_list (map signed_quantity trades);
               traded_value = dsum (map trade_value trades);
               last_price = tr_price (last trades)
      in rbind (ddiv_res traded_value (of_int volume)) (\<lambda>average.
         rbind (quantize PRICE_QUANTUM average) (\<lambda>vwap.
         rbind (price_movements trades) (\<lambda>(price_return, volatility).
         rbind (ratio RATIO_QUANTUM (of_int volume) (of_int window_seconds)) (\<lambda>per_second.
         rbind (ratio RATIO_QUANTUM (of_int signed_volume) (of_int volume)) (\<lambda>imbalance.
         rbind (basis_points (dsub last_price vwap) vwap) (\<lambda>last_to_vwap.
         WindowFeatures \<lparr>fw_window_seconds = window_seconds, fw_trade_count = int (length trades),
           fw_quote_change_count = int (length book_flows), fw_trade_volume = volume, fw_signed_trade_volume = signed_volume,
           fw_trade_volume_per_second = Some per_second, fw_trade_volume_imbalance = Some imbalance,
           fw_level_one_order_flow_imbalance = sum_list book_flows, fw_price_return_bps = price_return,
           fw_realized_volatility_bps = volatility, fw_vwap = Some vwap, fw_last_price_to_vwap_bps = Some last_to_vwap\<rparr>)))))))"

section \<open>The calculators produce what the validators accept\<close>

lemma dec_ctx_bounded: "\<bar>x\<bar> \<le> of_int b \<Longrightarrow> b \<le> 10 ^ 28 \<Longrightarrow> \<bar>dec_ctx x\<bar> \<le> of_int b"
proof -
  assume x: "\<bar>x\<bar> \<le> of_int b" and b: "b \<le> 10 ^ 28"
  have "0 \<le> (of_int b :: rat)" using x by (rule order_trans [OF abs_ge_zero])
  then have "fits (of_int b)" "fits (of_int (- b))" using b by (intro fits_of_int; simp)+
  then show ?thesis using x dec_ctx_le [of "of_int b" x] dec_ctx_ge [of "of_int (- b)" x] by (simp add: abs_le_iff)
qed

lemma quantize_bounded:
  assumes "\<bar>x\<bar> \<le> of_int b" "b * 10 ^ k < 10 ^ 28"
  obtains a where "quantize k x = Inr a" "\<bar>a\<bar> \<le> of_int b" "0 \<le> x \<Longrightarrow> 0 \<le> a"
  using quantize_prec_bounded [OF assms] unfolding quantize_prec_default by blast

lemma ratio_bounded:
  assumes "d \<noteq> 0" "\<bar>n\<bar> \<le> of_int b * \<bar>d\<bar>" "b * 10 ^ k < 10 ^ 28"
  obtains a where "ratio k n d = Inr a" "\<bar>a\<bar> \<le> of_int b" "0 \<le> n \<Longrightarrow> 0 < d \<Longrightarrow> 0 \<le> a"
proof -
  have q: "\<bar>n / d\<bar> \<le> of_int b" using assms(1,2) by (simp add: abs_divide pos_divide_le_eq)
  have "0 \<le> (of_int b :: rat)" using q by (rule order_trans [OF abs_ge_zero])
  then have "0 \<le> b" by simp
  then have "b * 1 \<le> b * 10 ^ k" by (intro mult_left_mono) auto
  then have "b \<le> 10 ^ 28" using assms(3) by linarith
  with q have "\<bar>ddiv n d\<bar> \<le> of_int b" unfolding ddiv_def by (rule dec_ctx_bounded)
  from quantize_bounded [OF this assms(3)] obtain a
    where "quantize k (ddiv n d) = Inr a" "\<bar>a\<bar> \<le> of_int b" "0 \<le> ddiv n d \<Longrightarrow> 0 \<le> a" by blast
  moreover have "0 \<le> ddiv n d" if "0 \<le> n" "0 < d" using that by (simp add: ddiv_def)
  ultimately show ?thesis using that [of a] assms(1) by (simp add: ratio_def)
qed

text \<open>The magnitudes of the exchange: whole prices up to \<open>10\<^sup>8\<close> VND, volumes below \<open>10\<^sup>1\<^sup>0\<close>.\<close>

definition sane_price :: "decimal \<Rightarrow> bool" where
  "sane_price p \<longleftrightarrow> p \<in> \<int> \<and> 1 \<le> p \<and> p \<le> 100000000"

definition sane_trades :: "trade list \<Rightarrow> bool" where
  "sane_trades ts \<longleftrightarrow> (\<forall>t \<in> set ts. sane_price (tr_price t) \<and> 0 < tr_quantity t) \<and> total_quantity ts < 10000000000"

lemma basis_points_defined:
  assumes "\<bar>n\<bar> \<le> 100000000" "1 \<le> d"
  obtains a where "basis_points n d = Inr a"
proof -
  have "\<bar>n * 10000\<bar> \<le> of_int (10 ^ 12)" using assms(1) by (simp add: abs_mult)
  then have "\<bar>dmul n 10000\<bar> \<le> of_int (10 ^ 12)" unfolding dmul_def by (rule dec_ctx_bounded) simp
  also have "\<dots> \<le> of_int (10 ^ 12) * \<bar>d\<bar>" using assms(2) by simp
  finally show ?thesis
    using assms(2) ratio_bounded [of d "dmul n 10000" "10 ^ 12" BPS_QUANTUM] that by (auto simp: basis_points_def)
qed

lemma price_difference:
  assumes "sane_price a" "sane_price b"
  shows "\<bar>dsub a b\<bar> \<le> 100000000"
proof -
  have "\<bar>a - b\<bar> \<le> of_int 100000000" using assms by (auto simp: sane_price_def)
  then show ?thesis using dec_ctx_bounded [of "a - b" 100000000] by (simp add: dsub_def)
qed

lemma dec_prec_abs_le:
  assumes "\<bar>x\<bar> < p10 k" "0 < p"
  shows "\<bar>dec_prec p x\<bar> \<le> p10 k"
proof (cases "0 \<le> x")
  case True
  then show ?thesis using assms dec_prec_le_p10 [of x k p] dec_prec_nonneg [of x p] by simp
next
  case False
  then show ?thesis using assms dec_prec_le_p10 [of "- x" k p] dec_prec_nonneg [of "- x" p] by (simp add: dec_prec_minus)
qed

lemma squared_return_bounded:
  assumes "sane_price (tr_price a)" "sane_price (tr_price b)"
  obtains r where "squared_return (a, b) = Inr r" "0 \<le> r" "r \<le> of_int (10 ^ 23)"
proof -
  let ?a = "tr_price a" and ?b = "tr_price b"
  have pw: "p10 9 = 10 ^ 9" "p10 10 = 10 ^ 10" "p10 22 = 10 ^ 22" "p10 23 = 10 ^ 23"
    using p10_nat [of 9] p10_nat [of 10] p10_nat [of 22] p10_nat [of 23] by simp_all
  have "\<bar>?b - ?a\<bar> < p10 9" using assms by (auto simp: sane_price_def pw)
  then have d: "\<bar>dsub_prec 34 ?b ?a\<bar> \<le> p10 9" unfolding dsub_prec_def by (rule dec_prec_abs_le) simp
  have "\<bar>dsub_prec 34 ?b ?a / ?a\<bar> \<le> \<bar>dsub_prec 34 ?b ?a\<bar>"
    using assms(1) by (simp add: sane_price_def abs_divide pos_divide_le_eq mult_left_le_one_le mult_le_cancel_left1)
  also have "\<dots> < p10 10" using d by (simp add: pw)
  finally have q: "\<bar>dec_prec 34 (dsub_prec 34 ?b ?a / ?a)\<bar> \<le> p10 10" by (rule dec_prec_abs_le) simp
  define v where "v = dec_prec 34 (dsub_prec 34 ?b ?a / ?a)"
  have "v * v = \<bar>v\<bar> * \<bar>v\<bar>" by simp
  also have "\<dots> \<le> p10 10 * p10 10" using q unfolding v_def [symmetric] by (intro mult_mono) auto
  finally have "v * v < p10 22" by (simp add: pw)
  then have "dec_prec 37 (v * v) \<le> p10 22" by (intro dec_prec_le_p10) auto
  moreover have v37: "0 \<le> dec_prec 37 (v * v)" by (intro dec_prec_nonneg) auto
  ultimately have "dec_prec 34 (dec_prec 37 (v * v)) \<le> p10 23" by (intro dec_prec_le_p10) (simp_all add: pw)
  moreover have "0 \<le> dec_prec 34 (dec_prec 37 (v * v))" using v37 by (intro dec_prec_nonneg) auto
  moreover have "?a \<noteq> 0" using assms(1) by (auto simp: sane_price_def)
  ultimately show ?thesis
    using that [of "dsquare 34 v"] by (simp add: squared_return_def ddiv_prec_res_def dsquare_def v_def pw)
qed

lemma sane_length: "sane_trades ts \<Longrightarrow> int (length ts) \<le> total_quantity ts"
proof -
  assume "sane_trades ts"
  then have "\<forall>t \<in> set ts. 0 < tr_quantity t" by (simp add: sane_trades_def)
  then show ?thesis by (induction ts) (auto simp: total_quantity_def)
qed

lemma realized_volatility_defined:
  assumes "sane_trades ts"
  obtains v where "realized_volatility ts = Inr v" "0 \<le> v"
proof -
  have price: "sane_price (tr_price t)" if "t \<in> set ts" for t using assms that by (simp add: sane_trades_def)
  have pair: "fst p \<in> set ts \<and> snd p \<in> set ts" if "p \<in> set (zip ts (tl ts))" for p
    using that set_zip_leftD [of "fst p" "snd p" ts "tl ts"] set_zip_rightD [of "fst p" "snd p" ts "tl ts"] by (cases ts) auto
  have "\<exists>r. squared_return p = Inr r \<and> 0 \<le> r \<and> r \<le> of_int (10 ^ 23)" if "p \<in> set (zip ts (tl ts))" for p
    using pair [OF that] squared_return_bounded [OF price price, of "fst p" "snd p"] by (metis prod.collapse)
  then obtain xs where xs: "map_res squared_return (zip ts (tl ts)) = Inr xs" "length xs = length (zip ts (tl ts))"
      "\<forall>x \<in> set xs. 0 \<le> x \<and> x \<le> of_int (10 ^ 23)"
    using map_res_ex [of "zip ts (tl ts)" squared_return "\<lambda>p r. 0 \<le> r \<and> r \<le> of_int (10 ^ 23)"] by blast
  have "int (length xs) \<le> int (length ts)" using xs(2) by simp
  then have n: "int (length xs) < 10 ^ 10" using sane_length [OF assms] assms by (simp add: sane_trades_def)
  have sum: "0 \<le> dsum_prec 34 xs \<and> dsum_prec 34 xs \<le> of_int (int (length xs) * 10 ^ 23)"
    using xs(3) n by (intro dsum_prec_bounds) auto
  have "of_int (int (length xs) * 10 ^ 23) < (of_int (10 ^ 34) :: rat)" unfolding of_int_less_iff using n by simp
  also have "\<dots> = p10 (2 * 17)" using p10_nat [of 34] by simp
  finally have "dsum_prec 34 xs < p10 (2 * 17)" using sum by linarith
  then obtain r where r: "dsqrt 34 (dsum_prec 34 xs) = Inr r" "0 \<le> r" "r \<le> p10 17 + 1"
    using sum by (auto elim: dsqrt_bounded [of _ 17 34])
  have pw: "p10 17 = 10 ^ 17" "p10 23 = 10 ^ 23" using p10_nat [of 17] p10_nat [of 23] by simp_all
  have "r * 10000 < p10 23" using r(3) unfolding pw by simp
  then have "0 \<le> dmul_prec 34 r 10000" "dmul_prec 34 r 10000 \<le> p10 23"
    unfolding dmul_prec_def using r(2) dec_prec_le_p10 [of "r * 10000" 23 34] dec_prec_nonneg [of "r * 10000" 34] by simp_all
  then obtain v where "quantize_prec 34 round_half_up BPS_QUANTUM (dmul_prec 34 r 10000) = Inr v" "0 \<le> v"
    using quantize_prec_bounded [of "dmul_prec 34 r 10000" "10 ^ 23" BPS_QUANTUM 34] by (auto simp: pw)
  then show ?thesis using that xs(1) r(1) by (simp add: realized_volatility_def)
qed


lemma sane_vwap:
  assumes "sane_trades ts" "ts \<noteq> []"
  obtains v average where "ddiv_res (dsum (map trade_value ts)) (of_int (total_quantity ts)) = Inr average"
    "quantize PRICE_QUANTUM average = Inr v" "Min (set (map tr_price ts)) \<le> v" "v \<le> Max (set (map tr_price ts))" "0 < total_quantity ts"
proof -
  let ?V = "of_int (total_quantity ts) :: rat" and ?traded = "dsum (map trade_value ts)"
  have price: "sane_price (tr_price t) \<and> 0 < tr_quantity t" if "t \<in> set ts" for t using assms(1) that by (simp add: sane_trades_def)
  define b where "b = aggregate 1 [] 0 ts"
  have ok: "0 < tr_price t \<and> tr_price t \<in> \<int> \<and> 0 < tr_quantity t" if "t \<in> set ts" for t
    using price [OF that] by (auto simp: sane_price_def)
  note sound = aggregate_sound [OF assms(2) ok b_def]
  have b: "ob_volume b = total_quantity ts" "ob_value b = ?traded" "ob_low_price b = Min (set (map tr_price ts))"
    "ob_high_price b = Max (set (map tr_price ts))" by (simp_all add: b_def aggregate_def total_quantity_def)
  have V: "0 < total_quantity ts" "?V < 10 ^ 10" using sound(6) assms(1) by (simp_all add: b(1) sane_trades_def)
  have le: "tr_price t \<le> 100000000" if "t \<in> set ts" for t using price [OF that] by (simp add: sane_price_def)
  then have high: "ob_high_price b \<le> 100000000" using assms(2) by (auto simp: b(4))
  have "ob_high_price b * ?V \<le> 100000000 * ?V" using high V(1) by (intro mult_right_mono) auto
  also have "\<dots> < 10 ^ 20" using V(2) by simp
  finally have small: "ob_high_price b * of_int (ob_volume b) < 10 ^ 20" by (simp add: b(1))
  have "?traded \<le> 100000000 * ?V" using le price V(2) by (intro dsum_value_le) auto
  moreover have "0 * ?V \<le> ?traded" using ok by (intro dsum_value_ge) (auto intro: less_imp_le)
  ultimately have "\<bar>?traded / ?V\<bar> \<le> of_int 100000000" using V(1) by (simp add: pos_divide_le_eq)
  then have "\<bar>ddiv ?traded ?V\<bar> \<le> of_int 100000000" unfolding ddiv_def by (rule dec_ctx_bounded) simp
  then obtain v where v: "quantize PRICE_QUANTUM (ddiv ?traded ?V) = Inr v" using quantize_bounded [of _ 100000000 8] by auto
  show ?thesis
    using that [of "ddiv ?traded ?V" v] v sound(9) [OF _ small, of v] V(1) by (simp add: b ddiv_res_def)
qed

text \<open>C39: For trades of the exchange's magnitudes (whole prices up to \<open>10\<^sup>8\<close> VND, window volume below \<open>10\<^sup>1\<^sup>0\<close>) a window is always
  computed and accepted by its validator: it counts the trades and quote transitions, its VWAP lies between the
  lowest and the highest trade price, the volume imbalance lies in \<open>[-1, 1]\<close> and the order flow is the sum of the transitions;
  the price movement features are present exactly when there are two trades, and volatility is not negative.\<close>

theorem window_values_sound:
  assumes "1 \<le> seconds" "sane_trades ts"
  shows "\<exists>w. window_values seconds ts flows = Inr w \<and> fw_window_seconds w = seconds \<and> fw_trade_count w = int (length ts) \<and>
    fw_quote_change_count w = int (length flows) \<and> fw_level_one_order_flow_imbalance w = sum_list flows \<and>
    fw_trade_volume w = total_quantity ts \<and>
    (fw_price_return_bps w \<noteq> None \<longleftrightarrow> 2 \<le> length ts) \<and> (fw_realized_volatility_bps w \<noteq> None \<longleftrightarrow> 2 \<le> length ts) \<and>
    (fw_vwap w \<noteq> None \<longleftrightarrow> ts \<noteq> []) \<and> (fw_trade_volume_imbalance w \<noteq> None \<longleftrightarrow> ts \<noteq> []) \<and>
    (\<forall>v. fw_vwap w = Some v \<longrightarrow> Min (set (map tr_price ts)) \<le> v \<and> v \<le> Max (set (map tr_price ts))) \<and>
    (\<forall>v. fw_trade_volume_imbalance w = Some v \<longrightarrow> - 1 \<le> v \<and> v \<le> 1) \<and>
    (\<forall>v. fw_realized_volatility_bps w = Some v \<longrightarrow> 0 \<le> v)"
proof (cases "ts = []")
  case True
  then show ?thesis using assms(1) by (auto simp: window_values_def WindowFeatures_def total_quantity_def Let_def)
next
  case False
  have price: "sane_price (tr_price t) \<and> 0 < tr_quantity t" if "t \<in> set ts" for t using assms(2) that by (simp add: sane_trades_def)
  obtain average v where vwap: "ddiv_res (dsum (map trade_value ts)) (of_int (total_quantity ts)) = Inr average"
    "quantize PRICE_QUANTUM average = Inr v" "Min (set (map tr_price ts)) \<le> v" "v \<le> Max (set (map tr_price ts))" "0 < total_quantity ts"
    using sane_vwap [OF assms(2) False] by metis
  have ends: "sane_price (tr_price (hd ts))" "sane_price (tr_price (last ts))" using price False by auto
  have first: "1 \<le> tr_price (hd ts)" using ends(1) by (simp add: sane_price_def)
  obtain movement where pm: "price_movements ts = Inr movement" "fst movement \<noteq> None \<longleftrightarrow> 2 \<le> length ts"
      "snd movement \<noteq> None \<longleftrightarrow> 2 \<le> length ts" "\<And>x. snd movement = Some x \<Longrightarrow> 0 \<le> x"
  proof (cases "2 \<le> length ts")
    case True
    obtain r where "basis_points (dsub (tr_price (last ts)) (tr_price (hd ts))) (tr_price (hd ts)) = Inr r"
      using basis_points_defined [OF price_difference [OF ends(2,1)] first] .
    moreover obtain x where "realized_volatility ts = Inr x" "0 \<le> x" using realized_volatility_defined [OF assms(2)] .
    ultimately show ?thesis using True that [of "(Some r, Some x)"] by (simp add: price_movements_def)
  next
    case False
    then show ?thesis using that [of "(None, None)"] by (simp add: price_movements_def)
  qed
  have signed: "\<bar>sum_list (map signed_quantity ts)\<bar> \<le> total_quantity ts"
  proof -
    have "\<bar>sum_list (map signed_quantity xs)\<bar> \<le> total_quantity xs" if "\<And>t. t \<in> set xs \<Longrightarrow> 0 < tr_quantity t" for xs
      using that by (induction xs) (fastforce simp: total_quantity_def signed_quantity_def split: option.splits aggressor_side.splits)+
    then show ?thesis using price by blast
  qed
  obtain rate' where per_second: "ratio RATIO_QUANTUM (of_int (total_quantity ts)) (of_int seconds) = Inr rate'" "0 \<le> rate'"
  proof -
    have "\<bar>of_int (total_quantity ts) :: rat\<bar> \<le> of_int 10000000000" using vwap(5) assms(2) by (simp add: sane_trades_def)
    also have "\<dots> \<le> of_int 10000000000 * \<bar>of_int seconds\<bar>" using assms(1) by simp
    finally show ?thesis using assms(1) vwap(5) ratio_bounded [of "of_int seconds" "of_int (total_quantity ts)" 10000000000 8] that by auto
  qed
  obtain imbalance where imbalance: "ratio RATIO_QUANTUM (of_int (sum_list (map signed_quantity ts))) (of_int (total_quantity ts)) = Inr imbalance"
      "\<bar>imbalance\<bar> \<le> 1"
  proof -
    have "\<bar>of_int (sum_list (map signed_quantity ts)) :: rat\<bar> \<le> of_int (total_quantity ts)"
      using signed unfolding of_int_abs [symmetric] of_int_le_iff .
    then show ?thesis
      using vwap(5) ratio_bounded [of "of_int (total_quantity ts)" "of_int (sum_list (map signed_quantity ts))" 1 8] that by auto
  qed
  have range: "1 \<le> Min (set (map tr_price ts))" "Max (set (map tr_price ts)) \<le> 100000000"
    using False price by (auto simp: sane_price_def)
  then have v: "1 \<le> v" "v \<le> 100000000" using vwap(3,4) by linarith+
  have "\<bar>tr_price (last ts) - v\<bar> \<le> of_int 100000000" using ends(2) v by (auto simp: sane_price_def)
  then have "\<bar>dsub (tr_price (last ts)) v\<bar> \<le> 100000000" using dec_ctx_bounded [of _ 100000000] by (simp add: dsub_def)
  then obtain deviation where deviation: "basis_points (dsub (tr_price (last ts)) v) v = Inr deviation" using v(1) by (rule basis_points_defined)
  have vol: "sum_list (map tr_quantity ts) = total_quantity ts" by (simp add: total_quantity_def)
  show ?thesis
    using False assms(1) vwap pm per_second imbalance deviation v signed range
    by (auto simp: window_values_def vol Let_def split_def WindowFeatures_def abs_le_iff if_present_def split: option.splits)
qed


section \<open>Sound book values\<close>

lemma sane_price_fits: "sane_price p \<Longrightarrow> fits p"
  by (auto simp: sane_price_def intro: whole_exact)

text \<open>A rounded average of two prices lies between them.\<close>

lemma quantized_between:
  assumes "sane_price lo" "sane_price hi" "lo \<le> x" "x \<le> hi"
  obtains v where "quantize PRICE_QUANTUM (dec_ctx x) = Inr v" "lo \<le> v" "v \<le> hi"
proof -
  have d: "lo \<le> dec_ctx x" "dec_ctx x \<le> hi"
    using assms by (auto intro: dec_ctx_le dec_ctx_ge sane_price_fits)
  have "\<bar>dec_ctx x\<bar> \<le> of_int 100000000" using d assms(1,2) by (auto simp: sane_price_def)
  then obtain v where v: "quantize PRICE_QUANTUM (dec_ctx x) = Inr v" using quantize_bounded [of _ 100000000 8] by auto
  have "quantize PRICE_QUANTUM lo = Inr lo" "quantize PRICE_QUANTUM hi = Inr hi"
    using assms(1,2) by (auto simp: sane_price_def intro!: quantize_whole)
  then show ?thesis using that [OF v] quantize_mono [OF d(1) _ v] quantize_mono [OF d(2) v] by blast
qed

lemma sum_quantity_pos: "xs \<noteq> [] \<Longrightarrow> \<forall>l \<in> set xs. 0 < ql_quantity l \<Longrightarrow> 0 < sum_quantity xs"
proof (induction xs)
  case (Cons l ls)
  then show ?case by (cases ls) (auto simp: sum_quantity_def)
qed simp

lemma imbalance_defined:
  assumes "0 < a" "0 < b"
  obtains v where "ratio RATIO_QUANTUM (of_int (a - b)) (of_int (a + b)) = Inr v" "- 1 \<le> v" "v \<le> 1"
proof -
  have "\<bar>of_int (a - b) :: rat\<bar> \<le> of_int 1 * \<bar>of_int (a + b)\<bar>" using assms by simp
  then show ?thesis using assms ratio_bounded [of "of_int (a + b)" "of_int (a - b)" 1 8] that by (auto simp: abs_le_iff)
qed

lemma spread_bps_positive:
  assumes "1 \<le> spread" "spread \<le> 100000000" "1 \<le> mid" "mid \<le> 100000000" "spread \<in> \<int>"
  obtains v where "basis_points spread mid = Inr v" "0 < v"
proof -
  obtain v where v: "basis_points spread mid = Inr v" using basis_points_defined [of spread mid] assms by auto
  have whole: "dmul spread 10000 = spread * 10000"
    using assms whole_exact [of "spread * 10000"] by (simp add: dmul_def fits_def)
  have "1 * 100000000 \<le> spread * 100000000" using assms(1) by (intro mult_right_mono) auto
  then have "mid \<le> spread * 100000000" using assms(4) by linarith
  then have "1 / 10000 \<le> spread * 10000 / mid" using assms by (simp add: pos_le_divide_eq)
  moreover have "fits (1 / 10000)" using dec_ctx_exact [of 1 "- 4"] by (simp add: fits_def p10_def power_int_minus)
  ultimately have low: "1 / 10000 \<le> ddiv (dmul spread 10000) mid" unfolding ddiv_def whole by (intro dec_ctx_ge)
  have "quantize BPS_QUANTUM (1 / 10000) = Inr (1 / 10000)" using round_half_up_of_int [of 1] by (simp add: quantize_def)
  moreover have "quantize BPS_QUANTUM (ddiv (dmul spread 10000) mid) = Inr v"
    using v by (auto simp: basis_points_def ratio_def split: if_splits)
  ultimately have "1 / 10000 \<le> v" using quantize_mono [OF low] by blast
  then show ?thesis using that v by simp
qed

text \<open>For a complete decoded quote of the exchange's magnitudes the book state is always computed, with every value
  present: mid and micro price lie between the best bid and the best ask, the spread is their exact difference and
  positive also in basis points, the depths are the quantities of all levels and both imbalances lie in \<open>[-1, 1]\<close>.\<close>

theorem book_values_sound:
  assumes "sound_event depth (QuoteEvent q)" "qs_is_complete q" "1 \<le> depth"
    "\<forall>l \<in> set (qs_bids q) \<union> set (qs_asks q). sane_price (ql_price l) \<and> ql_quantity l \<le> 10000000000"
  shows "\<exists>b mid micro bps level_one imbalance. book_values_of q = Inr b \<and> False \<notin> set (book_presence b) \<and> book_bounds b \<and>
    bk_mid_price b = Some mid \<and> ql_price (hd (qs_bids q)) \<le> mid \<and> mid \<le> ql_price (hd (qs_asks q)) \<and>
    bk_microprice b = Some micro \<and> ql_price (hd (qs_bids q)) \<le> micro \<and> micro \<le> ql_price (hd (qs_asks q)) \<and>
    bk_spread b = Some (ql_price (hd (qs_asks q)) - ql_price (hd (qs_bids q))) \<and> bk_spread_bps b = Some bps \<and> 0 < bps \<and>
    bk_bid_depth b = Some (sum_quantity (qs_bids q)) \<and> bk_ask_depth b = Some (sum_quantity (qs_asks q)) \<and>
    bk_level_one_imbalance b = Some level_one \<and> \<bar>level_one\<bar> \<le> 1 \<and> bk_depth_imbalance b = Some imbalance \<and> \<bar>imbalance\<bar> \<le> 1"
proof -
  have ne: "qs_bids q \<noteq> []" "qs_asks q \<noteq> []" using assms(1-3) by auto
  let ?bid = "ql_price (hd (qs_bids q))" and ?ask = "ql_price (hd (qs_asks q))"
  let ?bq = "ql_quantity (hd (qs_bids q))" and ?aq = "ql_quantity (hd (qs_asks q))"
  have level: "0 < ql_quantity l" if "l \<in> set (qs_bids q) \<union> set (qs_asks q)" for l
    using that assms(1) by (auto simp: book_side_def list_all_iff)
  have heads: "hd (qs_bids q) \<in> set (qs_bids q) \<union> set (qs_asks q)" "hd (qs_asks q) \<in> set (qs_bids q) \<union> set (qs_asks q)" using ne by auto
  have sane: "sane_price ?bid" "sane_price ?ask" "?bq \<le> 10000000000" "?aq \<le> 10000000000" using assms(4) heads by blast+
  have qty: "0 < ?bq" "0 < ?aq" using level heads by auto
  have gap: "?bid < ?ask" using assms(1,2) ne by auto
  have bid: "?bid \<in> \<int>" "1 \<le> ?bid" "?bid \<le> 100000000" and ask: "?ask \<in> \<int>" "1 \<le> ?ask" "?ask \<le> 100000000"
    using sane by (auto simp: sane_price_def)
  have spread: "dsub ?ask ?bid = ?ask - ?bid" "1 \<le> ?ask - ?bid" "?ask - ?bid \<in> \<int>"
  proof -
    show int: "?ask - ?bid \<in> \<int>" using ask(1) bid(1) by simp
    then show "dsub ?ask ?bid = ?ask - ?bid" using whole_exact [OF int] bid ask gap by (simp add: dsub_def fits_def)
    from int obtain n where n: "?ask - ?bid = of_int n" by (auto elim: Ints_cases)
    then have "0 < n" using gap by (metis diff_gt_0_iff_gt of_int_0_less_iff)
    then show "1 \<le> ?ask - ?bid" unfolding n by simp
  qed
  have "dadd ?bid ?ask = ?bid + ?ask" using whole_exact [of "?bid + ?ask"] bid ask by (simp add: dadd_def fits_def)
  moreover obtain mid where "quantize PRICE_QUANTUM (dec_ctx ((?bid + ?ask) / 2)) = Inr mid" "?bid \<le> mid" "mid \<le> ?ask"
    using quantized_between [OF sane(1,2), of "(?bid + ?ask) / 2"] gap by auto
  ultimately have mid: "quantize PRICE_QUANTUM (ddiv (dadd ?bid ?ask) 2) = Inr mid" "?bid \<le> mid" "mid \<le> ?ask" by (simp_all add: ddiv_def)
  have product: "dmul p (of_int n) = p * of_int n" "p * of_int n \<le> 10 ^ 18" "0 \<le> p * of_int n"
    if "p \<in> \<int>" "1 \<le> p" "p \<le> 100000000" "0 < n" "n \<le> 10000000000" for p n
  proof -
    have "p * of_int n \<le> 100000000 * of_int 10000000000" using that by (intro mult_mono) auto
    then show le: "p * of_int n \<le> 10 ^ 18" by simp
    show "0 \<le> p * of_int n" using that by simp
    then show "dmul p (of_int n) = p * of_int n" using whole_exact [of "p * of_int n"] le that(1) by (simp add: dmul_def fits_def)
  qed
  let ?weighted = "?ask * of_int ?bq + ?bid * of_int ?aq" and ?depth = "of_int (?bq + ?aq) :: rat"
  have weighted: "dadd (dmul ?ask (of_int ?bq)) (dmul ?bid (of_int ?aq)) = ?weighted"
    using product [OF ask qty(1) sane(3)] product [OF bid qty(2) sane(4)] whole_exact [of ?weighted] ask(1) bid(1)
    by (simp add: dadd_def fits_def)
  have "?bid * of_int ?bq \<le> ?ask * of_int ?bq" "?bid * of_int ?aq \<le> ?ask * of_int ?aq"
    using gap qty by (auto intro!: mult_right_mono)
  then have "?bid * ?depth \<le> ?weighted" "?weighted \<le> ?ask * ?depth" unfolding of_int_add distrib_left by linarith+
  then have "?bid \<le> ?weighted / ?depth" "?weighted / ?depth \<le> ?ask" using qty by (simp_all add: pos_le_divide_eq pos_divide_le_eq)
  then obtain micro where micro: "quantize PRICE_QUANTUM (ddiv ?weighted ?depth) = Inr micro" "?bid \<le> micro" "micro \<le> ?ask"
    unfolding ddiv_def by (rule quantized_between [OF sane(1,2)])
  have mid1: "1 \<le> mid" "mid \<le> 100000000" using mid bid ask by linarith+
  have "\<bar>micro - mid\<bar> \<le> of_int 100000000" using micro mid bid ask by (auto simp: abs_le_iff)
  then have "\<bar>dsub micro mid\<bar> \<le> 100000000" using dec_ctx_bounded [of _ 100000000] by (simp add: dsub_def)
  then obtain deviation where deviation: "basis_points (dsub micro mid) mid = Inr deviation" using mid1(1) by (rule basis_points_defined)
  obtain bps where bps: "basis_points (?ask - ?bid) mid = Inr bps" "0 < bps"
    using spread_bps_positive [OF spread(2) _ mid1 spread(3)] ask bid by auto
  obtain level_one where level_one: "ratio RATIO_QUANTUM (of_int (?bq - ?aq)) (of_int (?bq + ?aq)) = Inr level_one" "- 1 \<le> level_one" "level_one \<le> 1"
    using imbalance_defined [OF qty] .
  have depths: "0 < sum_quantity (qs_bids q)" "0 < sum_quantity (qs_asks q)" using ne level by (auto intro!: sum_quantity_pos)
  obtain imbalance where imbalance: "ratio RATIO_QUANTUM (of_int (sum_quantity (qs_bids q) - sum_quantity (qs_asks q)))
      (of_int (sum_quantity (qs_bids q) + sum_quantity (qs_asks q))) = Inr imbalance" "- 1 \<le> imbalance" "imbalance \<le> 1"
    using imbalance_defined [OF depths] .
  have "book_values_of q = Inr \<lparr>bk_mid_price = Some mid, bk_microprice = Some micro, bk_microprice_deviation_bps = Some deviation,
      bk_spread = Some (?ask - ?bid), bk_spread_bps = Some bps, bk_bid_depth = Some (sum_quantity (qs_bids q)),
      bk_ask_depth = Some (sum_quantity (qs_asks q)), bk_level_one_imbalance = Some level_one, bk_depth_imbalance = Some imbalance\<rparr>"
    using assms(2) ne spread gap mid micro weighted deviation bps level_one imbalance qty
    by (simp add: book_values_of_def Let_def ddiv_res_def)
  then show ?thesis
    using mid micro bps level_one imbalance depths bid spread
    by (intro exI conjI) (assumption | simp add: book_presence_def book_bounds_def abs_le_iff)+
qed

section \<open>Witnesses\<close>

definition sample_position :: event_position where
  "sample_position = \<lparr>ep_stream_session_id = ''s1'', ep_receive_sequence = 1\<rparr>"

definition sample_window_trade :: "decimal \<Rightarrow> int \<Rightarrow> trade" where
  "sample_window_trade price quantity = \<lparr>tr_position = sample_position, tr_symbol = ''VIC'', tr_event_time = 0, tr_received_at = 0,
     tr_price = price, tr_quantity = quantity, tr_side = Some SIDE_BUY, tr_cumulative_volume = quantity\<rparr>"

definition sample_feature_book :: quote_snapshot where
  "sample_feature_book = \<lparr>qs_position = sample_position, qs_symbol = ''VIC'', qs_event_time = 0, qs_received_at = 0,
     qs_bids = [\<lparr>ql_level = 1, ql_price = 50000, ql_quantity = 300\<rparr>], qs_asks = [\<lparr>ql_level = 1, ql_price = 50100, ql_quantity = 100\<rparr>],
     qs_is_complete = True\<rparr>"

theorem window_values_sound_witness:
  "\<exists>w v. window_values 30 [sample_window_trade 50000 100, sample_window_trade 50100 300] [100, -50] = Inr w \<and>
     fw_level_one_order_flow_imbalance w = 50 \<and> fw_trade_volume w = 400 \<and> fw_vwap w = Some v \<and> 50000 \<le> v \<and> v \<le> 50100"
proof -
  let ?ts = "[sample_window_trade 50000 100, sample_window_trade 50100 300]"
  have sane: "sane_trades ?ts"
    by (simp add: sane_trades_def sane_price_def sample_window_trade_def total_quantity_def)
  have total: "total_quantity ?ts = 400" by (simp add: total_quantity_def sample_window_trade_def)
  obtain w where w: "window_values 30 ?ts [100, -50] = Inr w" "fw_level_one_order_flow_imbalance w = 50" "fw_trade_volume w = 400"
      "fw_vwap w \<noteq> None" "\<And>v. fw_vwap w = Some v \<Longrightarrow> Min (set (map tr_price ?ts)) \<le> v \<and> v \<le> Max (set (map tr_price ?ts))"
    using window_values_sound [of 30 ?ts "[100, -50]"] sane total by auto
  then obtain v where "fw_vwap w = Some v" "50000 \<le> v" "v \<le> 50100" by (auto simp: sample_window_trade_def)
  then show ?thesis using w(1-3) by blast
qed

theorem book_values_sound_witness:
  "\<exists>b micro. book_values_of sample_feature_book = Inr b \<and> bk_spread b = Some 100 \<and> bk_microprice b = Some micro \<and> 50000 \<le> micro \<and> micro \<le> 50100"
proof -
  have "sound_event 1 (QuoteEvent sample_feature_book)" by (simp add: sample_feature_book_def book_side_def)
  moreover have "qs_is_complete sample_feature_book" by (simp add: sample_feature_book_def)
  moreover have "\<forall>l \<in> set (qs_bids sample_feature_book) \<union> set (qs_asks sample_feature_book). sane_price (ql_price l) \<and> ql_quantity l \<le> 10000000000"
    by (simp add: sample_feature_book_def sane_price_def)
  ultimately obtain b micro where "book_values_of sample_feature_book = Inr b" "bk_microprice b = Some micro"
      "ql_price (hd (qs_bids sample_feature_book)) \<le> micro" "micro \<le> ql_price (hd (qs_asks sample_feature_book))"
      "bk_spread b = Some (ql_price (hd (qs_asks sample_feature_book)) - ql_price (hd (qs_bids sample_feature_book)))"
    using book_values_sound [of 1 sample_feature_book] by auto
  then show ?thesis by (intro exI [of _ b] exI [of _ micro]) (simp add: sample_feature_book_def)
qed

end
