(* ===== verification/FeatureEngine.thy ===== *)
theory FeatureEngine
  imports FeatureModel
begin

text \<open>
  \<^verbatim>\<open>t0_trading/features/engine.py\<close>: the incremental feature state shared by live and replay. Per symbol it keeps the latest
  trade and quote and two deques (here lists) that are pruned from the left; a decision clock turns the state of every
  symbol into a snapshot.

  The engine changes its state before it may raise, so its operations return the state they leave beside the result.
  The dictionary of symbols is an association list in the configured order. The clock generator is a \<open>partial_function\<close>:
  \<open>None\<close> is a loop that never ends, which a validated configuration excludes.
\<close>

section \<open>State of a symbol\<close>

record symbol_features =
  sf_session :: "market_session option"
  sf_observed_from :: "instant option"
  sf_latest_trade :: "trade option"
  sf_latest_quote :: "quote_snapshot option"
  sf_trades :: "trade list"
  sf_book_flows :: "(instant \<times> int) list"

definition no_features :: symbol_features where
  "no_features = \<lparr>sf_session = None, sf_observed_from = None, sf_latest_trade = None, sf_latest_quote = None,
     sf_trades = [], sf_book_flows = []\<rparr>"

definition reset_features :: "market_session \<Rightarrow> symbol_features" where
  "reset_features session = no_features\<lparr>sf_session := Some session\<rparr>"

definition enter_session :: "market_session \<Rightarrow> symbol_features \<Rightarrow> symbol_features" where
  "enter_session session st = (if sf_session st \<noteq> Some session then reset_features session else st)"

definition prune_features :: "int \<Rightarrow> instant \<Rightarrow> symbol_features \<Rightarrow> symbol_features" where
  "prune_features max_window observed_at st = (let cutoff = observed_at - max_window in
     st\<lparr>sf_trades := dropWhile (\<lambda>t. tr_received_at t \<le> cutoff) (sf_trades st),
        sf_book_flows := dropWhile (\<lambda>f. fst f \<le> cutoff) (sf_book_flows st)\<rparr>)"

definition start_observation :: "instant \<Rightarrow> symbol_features \<Rightarrow> symbol_features" where
  "start_observation received_at st = (if sf_observed_from st = None then st\<lparr>sf_observed_from := Some received_at\<rparr> else st)"

definition book_transition :: "quote_snapshot option \<Rightarrow> quote_snapshot \<Rightarrow> (instant \<times> int) list res" where
  "book_transition previous current =
     (case previous of None \<Rightarrow> Inr []
      | Some p \<Rightarrow> if qs_is_complete p \<and> qs_is_complete current
          then rbind (level_one_book_flow p current) (\<lambda>flow. Inr [(qs_received_at current, flow)]) else Inr [])"

text \<open>\<^verbatim>\<open>_observe\<close> after the reset at a session change.\<close>

fun observe_features :: "int \<Rightarrow> symbol_features \<Rightarrow> market_event \<Rightarrow> symbol_features \<times> unit res" where
  "observe_features max_window st (AuctionEvent a) = (st, Inr ())"
| "observe_features max_window st (TradeEvent t) =
     (let started = start_observation (tr_received_at t) st in
      (prune_features max_window (tr_received_at t)
         (started\<lparr>sf_latest_trade := Some t, sf_trades := sf_trades started @ [t]\<rparr>), Inr ()))"
| "observe_features max_window st (QuoteEvent q) =
     (let started = start_observation (qs_received_at q) st in
      case book_transition (sf_latest_quote started) q of
        Inl err \<Rightarrow> (started, Inl err)
      | Inr flows \<Rightarrow> (prune_features max_window (qs_received_at q)
          (started\<lparr>sf_book_flows := sf_book_flows started @ flows, sf_latest_quote := Some q\<rparr>), Inr ()))"

section \<open>The engine\<close>

record feature_engine =
  en_configuration :: trading_version
  en_market :: market_state
  en_symbols :: "(string \<times> symbol_features) list"
  en_last_received_at :: "instant option"
  en_last_stream_session_id :: "string option"
  en_last_receive_sequence :: "int option"
  en_last_decision_at :: "instant option"
  en_max_window :: int

definition fresh_features :: "trading_version \<Rightarrow> (string \<times> symbol_features) list" where
  "fresh_features c = map (\<lambda>symbol. (symbol, no_features)) (mc_symbols (tv_market c))"

definition new_feature_engine :: "trading_version \<Rightarrow> feature_engine res" where
  "new_feature_engine c =
     (if fc_windows_seconds (tv_features c) = [] then Inl IndexError
      else Inr \<lparr>en_configuration = c, en_market = new_market_state c, en_symbols = fresh_features c, en_last_received_at = None,
        en_last_stream_session_id = None, en_last_receive_sequence = None, en_last_decision_at = None,
        en_max_window = last (fc_windows_seconds (tv_features c)) * second_us\<rparr>)"

definition update_features ::
  "string \<Rightarrow> symbol_features \<Rightarrow> (string \<times> symbol_features) list \<Rightarrow> (string \<times> symbol_features) list" where
  "update_features symbol st = map (\<lambda>(s, old). if s = symbol then (s, st) else (s, old))"

definition schedule_of :: "trading_version \<Rightarrow> session_schedule" where
  "schedule_of c = mc_sessions (tv_market c)"

definition local_date :: "zone_info \<Rightarrow> instant \<Rightarrow> date" where
  "local_date z t = fst (zn_local z t)"

definition event_session :: "zone_info \<Rightarrow> trading_version \<Rightarrow> market_event \<Rightarrow> market_session res" where
  "event_session z c event = session_at z (schedule_of c) (local_date z (event_time event)) (Aware (event_time event))"

definition observe_market :: "zone_info \<Rightarrow> feature_engine \<Rightarrow> market_event \<Rightarrow> feature_engine \<times> unit res" where
  "observe_market z g event =
     (case map_of (en_symbols g) (event_symbol event) of
        None \<Rightarrow> (g, Inl KeyError)
      | Some st \<Rightarrow>
        (case event_session z (en_configuration g) event of
           Inl err \<Rightarrow> (g, Inl err)
         | Inr session \<Rightarrow>
           (let (st', r) = observe_features (en_max_window g) (enter_session session st) event
            in (g\<lparr>en_symbols := update_features (event_symbol event) st' (en_symbols g)\<rparr>, r))))"

definition switches_stream :: "feature_engine \<Rightarrow> stream_envelope \<Rightarrow> bool" where
  "switches_stream g e = (en_last_stream_session_id g \<noteq> None \<and> Some (se_stream_session_id e) \<noteq> en_last_stream_session_id g)"

definition note_envelope :: "feature_engine \<Rightarrow> stream_envelope \<Rightarrow> feature_engine" where
  "note_envelope g e =
     (if (case en_last_received_at g of None \<Rightarrow> True | Some r \<Rightarrow> se_received_at e \<ge> r)
      then g\<lparr>en_last_received_at := Some (se_received_at e), en_last_stream_session_id := Some (se_stream_session_id e),
             en_last_receive_sequence := Some (se_receive_sequence e)\<rparr>
      else g)"

definition reset_stream :: "feature_engine \<Rightarrow> stream_envelope \<Rightarrow> feature_engine" where
  "reset_stream g e = (if switches_stream g e then g\<lparr>en_symbols := fresh_features (en_configuration g)\<rparr> else g)"

text \<open>\<^verbatim>\<open>FeatureEngine.apply\<close>\<close>

definition feature_apply ::
  "market_feed \<Rightarrow> zone_info \<Rightarrow> feature_engine \<Rightarrow> stream_envelope \<Rightarrow> feature_engine \<times> market_update res" where
  "feature_apply F z g e =
     (if (case en_last_decision_at g of None \<Rightarrow> False | Some d \<Rightarrow> se_received_at e < d)
      then (g, Inl (ValueError ''envelope was received before the last emitted decision''))
      else let g1 = reset_stream g e;
               (market, r) = apply_envelope F z (en_market g1) e;
               g2 = g1\<lparr>en_market := market\<rparr>
      in case r of
           Inl err \<Rightarrow> (g2, Inl err)
         | Inr update \<Rightarrow>
           (case (case mu_event update of None \<Rightarrow> (g2, Inr ()) | Some event \<Rightarrow> observe_market z g2 event) of
              (g3, Inl err) \<Rightarrow> (g3, Inl err)
            | (g3, Inr _) \<Rightarrow> (note_envelope g3 e, Inr update)))"

section \<open>One snapshot\<close>

definition age_seconds :: "instant \<Rightarrow> instant option \<Rightarrow> decimal option" where
  "age_seconds later earlier = map_option (\<lambda>t. ddiv (of_int (later - t)) 1000000) earlier"

definition inside_window :: "instant \<Rightarrow> int \<Rightarrow> instant \<Rightarrow> bool" where
  "inside_window decision_at seconds t = (decision_at - seconds * second_us < t \<and> t \<le> decision_at)"

definition feature_window :: "symbol_features \<Rightarrow> instant \<Rightarrow> int \<Rightarrow> window_features res" where
  "feature_window st decision_at seconds =
     window_values seconds (filter (\<lambda>t. inside_window decision_at seconds (tr_received_at t)) (sf_trades st))
       (map snd (filter (\<lambda>f. inside_window decision_at seconds (fst f)) (sf_book_flows st)))"

text \<open>\<^verbatim>\<open>str(n)\<close>\<close>

function nat_string :: "int \<Rightarrow> string" where
  "nat_string n = (if n < 10 then [char_of (nat (48 + n))] else nat_string (n div 10) @ [char_of (nat (48 + n mod 10))])"
  by pat_completeness auto
termination by (relation "measure nat") auto

declare nat_string.simps [simp del]

definition int_string :: "int \<Rightarrow> string" where
  "int_string n = (if n < 0 then CHR ''-'' # nat_string (- n) else nat_string n)"

definition window_reasons :: "window_features \<Rightarrow> string list" where
  "window_reasons w =
     (if fw_trade_count w < 2 then [''INSUFFICIENT_TRADES_'' @ int_string (fw_window_seconds w) @ ''S''] else []) @
     (if fw_quote_change_count w < 1 then [''INSUFFICIENT_BOOK_FLOW_'' @ int_string (fw_window_seconds w) @ ''S''] else [])"

fun decision_value :: "decision_session \<Rightarrow> market_session" where
  "decision_value OPENING_AUCTION = MS_OPENING_AUCTION"
| "decision_value CONTINUOUS_AM = MS_CONTINUOUS_AM"
| "decision_value CONTINUOUS_PM = MS_CONTINUOUS_PM"
| "decision_value CLOSING_AUCTION = MS_CLOSING_AUCTION"

definition decision_enabled :: "trading_version \<Rightarrow> market_session \<Rightarrow> bool" where
  "decision_enabled c session = (session \<in> set (map decision_value (fc_decision_sessions (tv_features c))))"

definition feature_reasons ::
  "zone_info \<Rightarrow> trading_version \<Rightarrow> market_state \<Rightarrow> string \<Rightarrow> instant option \<Rightarrow> window_features list \<Rightarrow> instant \<Rightarrow>
   market_session \<Rightarrow> string list res" where
  "feature_reasons z c market symbol observed_from windows decision_at session =
     (if \<not> decision_enabled c session then Inr [''SESSION_NOT_ENABLED'']
      else rbind (session_window z (schedule_of c) (local_date z decision_at) session) (\<lambda>(session_start, _).
      rbind (market_health_at market symbol (Aware decision_at) (Some (Aware session_start))) (\<lambda>health.
      Inr (mh_reasons health @
        (if (case observed_from of None \<Rightarrow> True
             | Some t \<Rightarrow> decision_at - t < fc_warmup_seconds (tv_features c) * second_us) then [''WARMUP''] else []) @
        concat (map window_reasons windows)))))"

definition snapshot_book :: "quote_snapshot option \<Rightarrow> instant \<Rightarrow> book_values res" where
  "snapshot_book latest decision_at =
     (case latest of None \<Rightarrow> Inr EMPTY_BOOK
      | Some q \<Rightarrow> if qs_is_complete q \<and> qs_received_at q \<le> decision_at then book_values_of q else Inr EMPTY_BOOK)"

text \<open>\<^verbatim>\<open>_snapshot\<close> after the reset and the pruning of its symbol.\<close>

definition feature_snapshot_of ::
  "'e feature_env_scheme \<Rightarrow> zone_info \<Rightarrow> feature_engine \<Rightarrow> string \<Rightarrow> symbol_features \<Rightarrow> instant \<Rightarrow> market_session \<Rightarrow>
   feature_snapshot res" where
  "feature_snapshot_of E z g symbol st decision_at session =
     (let c = en_configuration g in
      rbind (map_res (feature_window st decision_at) (fc_windows_seconds (tv_features c))) (\<lambda>windows.
      rbind (feature_reasons z c (en_market g) symbol (sf_observed_from st) windows decision_at session) (\<lambda>reasons.
      rbind (snapshot_book (sf_latest_quote st) decision_at) (\<lambda>book.
      FeatureSnapshot (book_values.extend book (feature_snapshot.fields
        (fc_version (tv_features c)) (version c) (fe_configuration_sha256 E c) symbol (local_date z decision_at) decision_at session
        (en_last_stream_session_id g) (en_last_receive_sequence g)
        (age_seconds decision_at (map_option tr_received_at (sf_latest_trade st)))
        (age_seconds decision_at (map_option qs_received_at (sf_latest_quote st)))
        windows (fromkeys reasons)))))))"

section \<open>A decision clock\<close>

definition clock_features :: "int \<Rightarrow> instant \<Rightarrow> market_session \<Rightarrow> symbol_features \<Rightarrow> symbol_features" where
  "clock_features max_window decision_at session st = prune_features max_window decision_at (enter_session session st)"

text \<open>The comprehension over the symbols: an exception leaves the symbols before it, and its own, reset and pruned.\<close>

fun snapshot_loop ::
  "(symbol_features \<Rightarrow> symbol_features) \<Rightarrow> (string \<Rightarrow> symbol_features \<Rightarrow> feature_snapshot res) \<Rightarrow> string list \<Rightarrow>
   (string \<times> symbol_features) list \<Rightarrow> (string \<times> symbol_features) list \<times> feature_snapshot list res" where
  "snapshot_loop prepare build [] table = (table, Inr [])"
| "snapshot_loop prepare build (symbol # rest) table =
     (case map_of table symbol of
        None \<Rightarrow> (table, Inl KeyError)
      | Some st \<Rightarrow>
        (let st' = prepare st; table' = update_features symbol st' table in
         case build symbol st' of
           Inl err \<Rightarrow> (table', Inl err)
         | Inr snapshot \<Rightarrow> (let (table'', r) = snapshot_loop prepare build rest table'
             in (table'', rbind r (\<lambda>snapshots. Inr (snapshot # snapshots))))))"

text \<open>The guards of \<^verbatim>\<open>snapshots\<close>: the decision instant and its session.\<close>

definition decision_guards :: "zone_info \<Rightarrow> feature_engine \<Rightarrow> pydatetime \<Rightarrow> (instant \<times> market_session) res" where
  "decision_guards z g decision_at =
     (let c = en_configuration g in
      rbind (to_utc ''decision_at must be timezone-aware'' decision_at) (\<lambda>at_time.
      if at_time mod second_us \<noteq> 0 \<or> epoch_seconds at_time mod fc_cadence_seconds (tv_features c) \<noteq> 0
      then Inl (ValueError ''decision_at must align to the configured feature cadence'')
      else if (case en_last_decision_at g of None \<Rightarrow> False | Some d \<Rightarrow> at_time \<le> d)
      then Inl (ValueError ''feature decision times must be strictly increasing'')
      else if (case en_last_received_at g of None \<Rightarrow> False | Some r \<Rightarrow> r > at_time)
      then Inl (ValueError ''feature state contains input unavailable at decision_at'')
      else if \<not> contains c (local_date z at_time)
      then Inl (ValueError ''decision falls outside the configuration effective interval'')
      else rbind (session_at z (schedule_of c) (local_date z at_time) (Aware at_time)) (\<lambda>session. Inr (at_time, session))))"

definition feature_snapshots ::
  "'e feature_env_scheme \<Rightarrow> zone_info \<Rightarrow> feature_engine \<Rightarrow> pydatetime \<Rightarrow> feature_engine \<times> feature_snapshot list res" where
  "feature_snapshots E z g decision_at =
     (case decision_guards z g decision_at of
        Inl err \<Rightarrow> (g, Inl err)
      | Inr (at_time, session) \<Rightarrow>
        (let (table, r) = snapshot_loop (clock_features (en_max_window g) at_time session)
               (\<lambda>symbol st. feature_snapshot_of E z g symbol st at_time session)
               (mc_symbols (tv_market (en_configuration g))) (en_symbols g);
             g' = g\<lparr>en_symbols := table\<rparr>
         in case r of Inl err \<Rightarrow> (g', Inl err) | Inr snapshots \<Rightarrow> (g'\<lparr>en_last_decision_at := Some at_time\<rparr>, Inr snapshots)))"

section \<open>Replay over the configured clocks\<close>

partial_function (option) clock_ticks :: "int \<Rightarrow> instant \<Rightarrow> instant \<Rightarrow> instant list option" where
  [code]: "clock_ticks cadence stop current =
     (if current < stop
      then Option.bind (clock_ticks cadence stop (current + cadence)) (\<lambda>rest. Some (current # rest))
      else Some [])"

fun session_clocks :: "zone_info \<Rightarrow> trading_version \<Rightarrow> date \<Rightarrow> decision_session list \<Rightarrow> instant list res option" where
  "session_clocks z c trade_date [] = Some (Inr [])"
| "session_clocks z c trade_date (name # names) =
     (let cadence = fc_cadence_seconds (tv_features c) * second_us in
      case session_window z (schedule_of c) trade_date (decision_value name) of
        Inl err \<Rightarrow> Some (Inl err)
      | Inr (start, stop) \<Rightarrow>
        (case clock_ticks cadence stop (start + cadence) of None \<Rightarrow> None
         | Some ticks \<Rightarrow> (case session_clocks z c trade_date names of None \<Rightarrow> None
             | Some r \<Rightarrow> Some (rbind r (\<lambda>more. Inr (ticks @ more))))))"

definition decision_times :: "zone_info \<Rightarrow> trading_version \<Rightarrow> date \<Rightarrow> instant list res option" where
  "decision_times z c trade_date =
     (if \<not> contains c trade_date then Some (Inl (ValueError ''trade_date falls outside the configuration effective interval''))
      else session_clocks z c trade_date (fc_decision_sessions (tv_features c)))"

record stream_gap =
  sg_started_at :: instant
  sg_ended_at :: instant

definition gap_affected :: "trading_version \<Rightarrow> stream_gap list \<Rightarrow> instant \<Rightarrow> bool" where
  "gap_affected c gaps decision_at = list_ex (\<lambda>gap. sg_started_at gap \<le> decision_at \<and>
     decision_at < sg_ended_at gap + fc_warmup_seconds (tv_features c) * second_us) gaps"

definition mark_gap :: "bool \<Rightarrow> feature_snapshot \<Rightarrow> feature_snapshot" where
  "mark_gap affected s = (if affected \<and> ''CAPTURE_GAP'' \<notin> set (fs_reasons s)
     then s\<lparr>fs_reasons := fs_reasons s @ [''CAPTURE_GAP'']\<rparr> else s)"

fun apply_pending ::
  "market_feed \<Rightarrow> zone_info \<Rightarrow> instant \<Rightarrow> feature_engine \<Rightarrow> stream_envelope list \<Rightarrow> (feature_engine \<times> stream_envelope list) res" where
  "apply_pending F z decision_at g [] = Inr (g, [])"
| "apply_pending F z decision_at g (pending # rest) =
     (if se_received_at pending \<le> decision_at
      then (let (g', r) = feature_apply F z g pending in rbind r (\<lambda>_. apply_pending F z decision_at g' rest))
      else Inr (g, pending # rest))"

fun replay_clocks ::
  "'e feature_env_scheme \<Rightarrow> market_feed \<Rightarrow> zone_info \<Rightarrow> trading_version \<Rightarrow> stream_gap list \<Rightarrow> feature_engine \<Rightarrow>
   stream_envelope list \<Rightarrow> instant list \<Rightarrow> feature_snapshot list res" where
  "replay_clocks E F z c gaps g pending [] = Inr []"
| "replay_clocks E F z c gaps g pending (decision_at # clocks) =
     rbind (apply_pending F z decision_at g pending) (\<lambda>(g1, pending').
     let (g2, r) = feature_snapshots E z g1 (Aware decision_at) in
     rbind r (\<lambda>current.
     rbind (replay_clocks E F z c gaps g2 pending' clocks) (\<lambda>more.
     Inr (map (mark_gap (gap_affected c gaps decision_at)) current @ more))))"

definition replay_features ::
  "'e feature_env_scheme \<Rightarrow> market_feed \<Rightarrow> zone_info \<Rightarrow> trading_version \<Rightarrow> date \<Rightarrow> stream_gap list \<Rightarrow> stream_envelope list \<Rightarrow>
   feature_snapshot list res option" where
  "replay_features E F z c trade_date gaps envelopes =
     (case new_feature_engine c of Inl err \<Rightarrow> Some (Inl err)
      | Inr g \<Rightarrow> (case decision_times z c trade_date of None \<Rightarrow> None
          | Some r \<Rightarrow> Some (rbind r (\<lambda>clocks. replay_clocks E F z c gaps g envelopes clocks))))"

end
