(* ===== verification/Outcomes.thy ===== *)
theory Outcomes
  imports MarketReplay FeatureEngine
begin

text \<open>
  \<^verbatim>\<open>t0_trading/outcomes\<close> and \<^verbatim>\<open>controls/costing.py\<close>: conditional execution markouts. Quotes observed in a replay go to
  one tape per symbol; a label prices an action at its entry and horizon from the last quote available then,
  or records why it cannot.

  The digests of the trading version, of a feature snapshot and of the outcome policy are parameters.
\<close>

section \<open>Labels\<close>

record outcome_label =
  ol_outcome_version :: string
  ol_outcome_configuration_sha256 :: string
  ol_feature_version :: string
  ol_feature_configuration_sha256 :: string
  ol_feature_snapshot_sha256 :: string
  ol_stream_session_id :: string
  ol_symbol :: string
  ol_trade_date :: date
  ol_decision_at :: instant
  ol_action :: action
  ol_horizon_seconds :: int
  ol_order_quantity :: int
  ol_entry_at :: instant
  ol_horizon_at :: instant
  ol_entry_quote_received_at :: "instant option"
  ol_entry_receive_sequence :: "int option"
  ol_entry_vwap :: "decimal option"
  ol_horizon_quote_received_at :: "instant option"
  ol_horizon_receive_sequence :: "int option"
  ol_horizon_vwap :: "decimal option"
  ol_gross_return_bps :: "decimal option"
  ol_reasons :: "string list"

definition label_eligible :: "outcome_label \<Rightarrow> bool" where
  "label_eligible l = (ol_reasons l = [])"

text \<open>The loop of the validator over the entry and the horizon quote.\<close>

definition check_quote_lineage :: "instant option \<Rightarrow> int option \<Rightarrow> decimal option \<Rightarrow> instant \<Rightarrow> unit res" where
  "check_quote_lineage received_at sequence price evaluated_at =
     (if (received_at = None) \<noteq> (sequence = None)
      then Inl (ValidationError ''quote position must be wholly present or absent'')
      else if price \<noteq> None \<and> received_at = None
      then Inl (ValidationError ''simulated price requires quote lineage'')
      else if (case received_at of None \<Rightarrow> False | Some r \<Rightarrow> r > evaluated_at)
      then Inl (ValidationError ''outcome uses a quote unavailable at its evaluation time'')
      else Inr ())"

definition price_movement :: "action \<Rightarrow> decimal \<Rightarrow> decimal \<Rightarrow> decimal" where
  "price_movement action entry horizon = (if action = BUY then dsub horizon entry else dsub entry horizon)"

definition gross_return :: "action \<Rightarrow> decimal option \<Rightarrow> decimal option \<Rightarrow> decimal option res" where
  "gross_return action entry horizon =
     (case (entry, horizon) of
        (Some a, Some b) \<Rightarrow> rbind (basis_points (price_movement action a b) a) (\<lambda>g. Inr (Some g))
      | _ \<Rightarrow> Inr None)"

definition positive_option :: "'a::{ord,zero} option \<Rightarrow> bool" where
  "positive_option v = (case v of None \<Rightarrow> True | Some x \<Rightarrow> 0 < x)"

definition OutcomeLabel :: "outcome_label \<Rightarrow> outcome_label res" where
  "OutcomeLabel l =
     (if \<not> (is_version (ol_outcome_version l) \<and> is_sha256 (ol_outcome_configuration_sha256 l) \<and>
             is_version (ol_feature_version l) \<and> is_sha256 (ol_feature_configuration_sha256 l) \<and>
             is_sha256 (ol_feature_snapshot_sha256 l) \<and> ol_stream_session_id l \<noteq> [] \<and> 1 \<le> ol_horizon_seconds l \<and>
             1 \<le> ol_order_quantity l \<and> positive_option (ol_entry_receive_sequence l) \<and> positive_option (ol_entry_vwap l) \<and>
             positive_option (ol_horizon_receive_sequence l) \<and> positive_option (ol_horizon_vwap l))
      then Inl (ValidationError ''OutcomeLabel'')
      else if ol_symbol l \<noteq> map to_upper (strip (ol_symbol l))
      then Inl (ValidationError ''symbol must be uppercase'')
      else if \<not> (ol_decision_at l \<le> ol_entry_at l \<and> ol_entry_at l < ol_horizon_at l)
      then Inl (ValidationError ''outcome timestamps are not ordered'')
      else if ol_horizon_at l - ol_decision_at l \<noteq> ol_horizon_seconds l * second_us
      then Inl (ValidationError ''horizon_seconds does not match horizon_at'')
      else rbind (check_quote_lineage (ol_entry_quote_received_at l) (ol_entry_receive_sequence l) (ol_entry_vwap l) (ol_entry_at l)) (\<lambda>_.
      rbind (check_quote_lineage (ol_horizon_quote_received_at l) (ol_horizon_receive_sequence l) (ol_horizon_vwap l) (ol_horizon_at l)) (\<lambda>_.
      let prices_present = (ol_entry_vwap l \<noteq> None \<and> ol_horizon_vwap l \<noteq> None) in
      if prices_present \<noteq> (ol_gross_return_bps l \<noteq> None)
      then Inl (ValidationError ''gross return requires both simulated prices'')
      else if ol_reasons l = [] \<and> \<not> prices_present
      then Inl (ValidationError ''eligible outcome requires both simulated prices'')
      else rbind (gross_return (ol_action l) (ol_entry_vwap l) (ol_horizon_vwap l)) (\<lambda>expected.
      if prices_present \<and> ol_gross_return_bps l \<noteq> expected
      then Inl (ValidationError ''gross return does not reconcile with simulated prices'')
      else if fromkeys (ol_reasons l) \<noteq> ol_reasons l
      then Inl (ValidationError ''outcome reasons must be unique and stable'')
      else Inr l))))"

section \<open>Costing\<close>

definition conditional_net_return_bps :: "outcome_label \<Rightarrow> cost_policy \<Rightarrow> decimal res" where
  "conditional_net_return_bps l costs =
     (case (ol_action l, ol_entry_vwap l, ol_horizon_vwap l) of
        (BUY, Some a, Some b) \<Rightarrow>
          (let entry = dmul a (dadd 1 (ddiv (dadd (cp_buy_fee_bps costs) (cp_extra_slippage_bps costs)) 10000));
               exit_value = dmul b (dsub 1 (ddiv (dadd (dadd (cp_sell_fee_bps costs) (cp_sell_tax_bps costs)) (cp_extra_slippage_bps costs)) 10000))
           in basis_points (dsub exit_value entry) entry)
      | _ \<Rightarrow> Inl (ValueError ''conditional net return requires a priced BUY label''))"

section \<open>Quote tapes\<close>

type_synonym tape_position = "instant \<times> string \<times> int"

record quote_tape =
  qt_positions :: "tape_position list"
  qt_quotes :: "quote_snapshot list"

definition tape_position_of :: "quote_snapshot \<Rightarrow> tape_position" where
  "tape_position_of q = (qs_received_at q, ep_stream_session_id (qs_position q), ep_receive_sequence (qs_position q))"

definition tape_append :: "quote_tape \<Rightarrow> quote_snapshot \<Rightarrow> quote_tape res" where
  "tape_append tape q =
     (let position = tape_position_of q in
      if qt_positions tape \<noteq> [] \<and> position \<le> last (qt_positions tape)
      then Inl (ValueError ''quote tape must be strictly ordered by receipt and sequence'')
      else Inr (tape\<lparr>qt_positions := qt_positions tape @ [position], qt_quotes := qt_quotes tape @ [q]\<rparr>))"

text \<open>
  \<^verbatim>\<open>bisect.bisect_right\<close> with the test \<^verbatim>\<open>x < a[mid]\<close> as \<open>later\<close>. The tape's key is the evaluation time with the greatest
  one-character string and the greatest 64-bit number, above every position received at that time: a
  position is above the key exactly when it was received later.
\<close>

function bisect_right_from :: "('a \<Rightarrow> bool) \<Rightarrow> 'a list \<Rightarrow> nat \<Rightarrow> nat \<Rightarrow> nat" where
  "bisect_right_from later xs lo hi =
     (if lo < hi then (let mid = (lo + hi) div 2 in
        if later (xs ! mid) then bisect_right_from later xs lo mid else bisect_right_from later xs (mid + 1) hi)
      else lo)"
  by auto
termination by (relation "measure (\<lambda>(later, xs, lo, hi). hi - lo)") auto

declare bisect_right_from.simps [simp del]

definition received_after :: "instant \<Rightarrow> tape_position \<Rightarrow> bool" where
  "received_after evaluated_at p = (evaluated_at < fst p)"

definition tape_latest :: "quote_tape \<Rightarrow> instant \<Rightarrow> quote_snapshot option" where
  "tape_latest tape evaluated_at =
     (let index = bisect_right_from (received_after evaluated_at) (qt_positions tape) 0 (length (qt_positions tape))
      in if index = 0 then None else Some (qt_quotes tape ! (index - 1)))"

section \<open>Execution prices\<close>

fun walk_book :: "quote_level list \<Rightarrow> int \<Rightarrow> decimal \<Rightarrow> decimal option" where
  "walk_book [] remaining notional = None"
| "walk_book (l # ls) remaining notional =
     (let filled = min remaining (ql_quantity l);
          notional' = dadd notional (dmul (ql_price l) (of_int filled))
      in if remaining - filled = 0 then Some notional' else walk_book ls (remaining - filled) notional')"

definition book_vwap :: "quote_snapshot \<Rightarrow> action \<Rightarrow> int \<Rightarrow> decimal option res" where
  "book_vwap q action quantity =
     (case walk_book (if action = BUY then qs_asks q else qs_bids q) quantity 0 of
        None \<Rightarrow> Inr None
      | Some notional \<Rightarrow> rbind (ddiv_res notional (of_int quantity)) (\<lambda>average.
          rbind (quantize PRICE_QUANTUM average) (\<lambda>v. Inr (Some v))))"

record execution =
  ex_quote :: "quote_snapshot option"
  ex_price :: "decimal option"
  ex_reason :: "string option"

definition refused :: "quote_snapshot option \<Rightarrow> string \<Rightarrow> execution" where
  "refused q reason = \<lparr>ex_quote = q, ex_price = None, ex_reason = Some reason\<rparr>"

definition execution_price ::
  "quote_tape \<Rightarrow> instant \<Rightarrow> action \<Rightarrow> int \<Rightarrow> int \<Rightarrow> string \<Rightarrow> string \<Rightarrow> execution res" where
  "execution_price tape evaluated_at action quantity stale_after phase session =
     (case tape_latest tape evaluated_at of
        None \<Rightarrow> Inr (refused None (''MISSING_'' @ phase @ ''_QUOTE''))
      | Some q \<Rightarrow>
          if ep_stream_session_id (qs_position q) \<noteq> session then Inr (refused (Some q) (''CROSS_SEGMENT_'' @ phase @ ''_QUOTE''))
          else if \<not> qs_is_complete q then Inr (refused (Some q) (''INCOMPLETE_'' @ phase @ ''_BOOK''))
          else if evaluated_at - qs_received_at q > stale_after \<or> evaluated_at - qs_event_time q > stale_after
          then Inr (refused (Some q) (''STALE_'' @ phase @ ''_QUOTE''))
          else rbind (book_vwap q action quantity) (\<lambda>price.
            case price of
              None \<Rightarrow> Inr (refused (Some q) (''INSUFFICIENT_'' @ phase @ ''_DEPTH''))
            | Some p \<Rightarrow> Inr \<lparr>ex_quote = Some q, ex_price = Some p, ex_reason = None\<rparr>))"

section \<open>Tapes from a replay\<close>

type_synonym tapes = "string \<Rightarrow> quote_tape option"

definition empty_tape :: quote_tape where
  "empty_tape = \<lparr>qt_positions = [], qt_quotes = []\<rparr>"

definition empty_tapes :: "string list \<Rightarrow> tapes" where
  "empty_tapes symbols = (\<lambda>s. if s \<in> set symbols then Some empty_tape else None)"

fun observe_quote :: "tapes \<Rightarrow> market_event \<Rightarrow> tapes res" where
  "observe_quote tapes (QuoteEvent q) =
     (case tapes (qs_symbol q) of None \<Rightarrow> Inl KeyError
      | Some tape \<Rightarrow> rbind (tape_append tape q) (\<lambda>tape'. Inr (tapes(qs_symbol q \<mapsto> tape'))))"
| "observe_quote tapes _ = Inr tapes"

text \<open>
  The generator in front of the replay refuses an envelope of an unauthorised session when it is pulled:
  the envelopes before it have been replayed by then.
\<close>

definition replay_authorized ::
  "market_feed \<Rightarrow> zone_info \<Rightarrow> string list \<Rightarrow> date \<Rightarrow> tapes replay_vars \<Rightarrow> stream_envelope \<Rightarrow> tapes replay_vars res" where
  "replay_authorized F z authorized trade_date r e =
     (if se_stream_session_id e \<notin> set authorized then Inl (ValueError ''outcome replay input lineage is inconsistent'')
      else replay_envelope F z None (Some trade_date) observe_quote r e)"

definition quote_tapes ::
  "market_feed \<Rightarrow> zone_info \<Rightarrow> trading_version \<Rightarrow> string list \<Rightarrow> date \<Rightarrow> stream_envelope list \<Rightarrow> tapes res" where
  "quote_tapes F z c authorized trade_date envelopes =
     rbind (run_res (replay_authorized F z authorized trade_date)
       (initial_replay_vars c (empty_tapes (mc_symbols (tv_market c)))) envelopes) (\<lambda>r.
     rbind (finish_replay None None r) (\<lambda>r.
     if integrity_issues (rp_market r) \<noteq> [] then Inl (ValueError ''outcome replay input integrity failed'')
     else Inr (rp_observed r)))"

section \<open>Labelling\<close>

record outcome_env = feature_env +
  oe_policy_sha256 :: "outcome_version \<Rightarrow> string"

definition snapshot_consistent ::
  "outcome_env \<Rightarrow> zone_info \<Rightarrow> trading_version \<Rightarrow> date \<Rightarrow> feature_snapshot \<Rightarrow> bool" where
  "snapshot_consistent E z c trade_date s =
     (fs_feature_version s = fc_version (tv_features c) \<and> fs_configuration_version s = version c \<and>
      fs_configuration_sha256 s = fe_configuration_sha256 E c \<and> fs_symbol s \<in> set (mc_symbols (tv_market c)) \<and>
      fs_trade_date s = trade_date \<and> fst (zn_local z (fs_decision_at s)) = trade_date \<and>
      session_at z (mc_sessions (tv_market c)) trade_date (Aware (fs_decision_at s)) = Inr (fs_market_session s) \<and>
      fs_market_session s \<in> set (map decision_value (fc_decision_sessions (tv_features c))))"

definition opposite :: "action \<Rightarrow> action" where
  "opposite a = (case a of BUY \<Rightarrow> SELL | SELL \<Rightarrow> BUY)"

definition stale_after :: "trading_version \<Rightarrow> int" where
  "stale_after c = dq_quote_stale_after_seconds (tv_data_quality c) * second_us"

definition entry_instant :: "outcome_version \<Rightarrow> feature_snapshot \<Rightarrow> instant" where
  "entry_instant policy s = fs_decision_at s + ov_execution_latency_milliseconds policy * 1000"

definition crosses_gap :: "stream_gap list \<Rightarrow> instant \<Rightarrow> instant \<Rightarrow> bool" where
  "crosses_gap gaps decision_at horizon_at =
     list_ex (\<lambda>g. sg_started_at g \<le> horizon_at \<and> sg_ended_at g > decision_at) gaps"

definition no_execution :: execution where
  "no_execution = \<lparr>ex_quote = None, ex_price = None, ex_reason = None\<rparr>"

definition reason_list :: "string option \<Rightarrow> string list" where
  "reason_list r = (case r of None \<Rightarrow> [] | Some x \<Rightarrow> [x])"

text \<open>
  The two executions of a label, with the reasons found on the way. The code keeps the entry execution of a snapshot and action
  in a dictionary; it is a function of the tape, so computing it again yields the same.
\<close>

definition label_executions ::
  "trading_version \<Rightarrow> outcome_version \<Rightarrow> stream_gap list \<Rightarrow> tapes \<Rightarrow> instant \<Rightarrow> feature_snapshot \<Rightarrow> string \<Rightarrow> instant \<Rightarrow> action \<Rightarrow>
   (execution \<times> execution \<times> string list) res" where
  "label_executions c policy gaps tapes session_stop s session horizon_at action =
     (let entry_at = entry_instant policy s;
          reasons = (if fs_reasons s \<noteq> [] then [''FEATURE_INELIGIBLE''] else [])
      in if entry_at \<ge> session_stop \<or> horizon_at \<ge> session_stop
         then Inr (no_execution, no_execution, reasons @ [''HORIZON_OUTSIDE_SESSION''])
         else if crosses_gap gaps (fs_decision_at s) horizon_at
         then Inr (no_execution, no_execution, reasons @ [''CAPTURE_GAP''])
         else case tapes (fs_symbol s) of None \<Rightarrow> Inl KeyError
           | Some tape \<Rightarrow>
              rbind (execution_price tape entry_at action (ov_order_quantity policy) (stale_after c) ''ENTRY'' session) (\<lambda>entry.
              rbind (execution_price tape horizon_at (opposite action) (ov_order_quantity policy) (stale_after c) ''HORIZON'' session) (\<lambda>horizon.
              Inr (entry, horizon, reasons @ reason_list (ex_reason entry) @ reason_list (ex_reason horizon)))))"

definition build_label ::
  "outcome_env \<Rightarrow> outcome_version \<Rightarrow> feature_snapshot \<Rightarrow> string \<Rightarrow> int \<Rightarrow> action \<Rightarrow> execution \<times> execution \<times> string list \<Rightarrow>
   outcome_label res" where
  "build_label E policy s session horizon action found =
     (case found of (entry, exit, reasons) \<Rightarrow>
        rbind (gross_return action (ex_price entry) (ex_price exit)) (\<lambda>gross.
        OutcomeLabel \<lparr>ol_outcome_version = version policy, ol_outcome_configuration_sha256 = oe_policy_sha256 E policy,
          ol_feature_version = fs_feature_version s, ol_feature_configuration_sha256 = fs_configuration_sha256 s,
          ol_feature_snapshot_sha256 = fe_snapshot_sha256 E s, ol_stream_session_id = session, ol_symbol = fs_symbol s,
          ol_trade_date = fs_trade_date s, ol_decision_at = fs_decision_at s, ol_action = action,
          ol_horizon_seconds = horizon, ol_order_quantity = ov_order_quantity policy,
          ol_entry_at = entry_instant policy s, ol_horizon_at = fs_decision_at s + horizon * second_us,
          ol_entry_quote_received_at = map_option qs_received_at (ex_quote entry),
          ol_entry_receive_sequence = map_option (ep_receive_sequence \<circ> qs_position) (ex_quote entry),
          ol_entry_vwap = ex_price entry,
          ol_horizon_quote_received_at = map_option qs_received_at (ex_quote exit),
          ol_horizon_receive_sequence = map_option (ep_receive_sequence \<circ> qs_position) (ex_quote exit),
          ol_horizon_vwap = ex_price exit, ol_gross_return_bps = gross, ol_reasons = fromkeys reasons\<rparr>))"

definition label_snapshot ::
  "outcome_env \<Rightarrow> zone_info \<Rightarrow> trading_version \<Rightarrow> outcome_version \<Rightarrow> stream_gap list \<Rightarrow> tapes \<Rightarrow> feature_snapshot \<Rightarrow>
   outcome_label list res" where
  "label_snapshot E z c policy gaps tapes s =
     (case fs_stream_session_id s of None \<Rightarrow> Inl (ValueError ''outcome snapshot is missing stream lineage'')
      | Some session \<Rightarrow>
         rbind (session_window z (mc_sessions (tv_market c)) (fs_trade_date s) (fs_market_session s)) (\<lambda>(_, session_stop).
         map_res (\<lambda>(horizon, action).
             rbind (label_executions c policy gaps tapes session_stop s session (fs_decision_at s + horizon * second_us) action)
               (build_label E policy s session horizon action))
           (concat (map (\<lambda>h. [(h, BUY), (h, SELL)]) (ov_horizons_seconds policy)))))"

text \<open>The guards of \<^verbatim>\<open>label_outcomes\<close> on its arguments.\<close>

definition check_label_inputs ::
  "outcome_env \<Rightarrow> zone_info \<Rightarrow> trading_version \<Rightarrow> outcome_version \<Rightarrow> string list \<Rightarrow> feature_snapshot list \<Rightarrow> unit res" where
  "check_label_inputs E z c policy authorized snapshots =
     (if authorized = [] \<or> \<not> all_unique authorized \<or> [] \<in> set authorized
      then Inl (ValueError ''outcome capture lineage is inconsistent'')
      else if None \<in> set (map fs_stream_session_id snapshots)
      then Inl (ValueError ''outcome snapshots must reference captured stream sessions'')
      else if \<not> list_all (\<lambda>s. the (fs_stream_session_id s) \<in> set authorized) snapshots
      then Inl (ValueError ''outcome snapshot capture lineage is inconsistent'')
      else if \<not> list_all (snapshot_consistent E z c (fs_trade_date (hd snapshots))) snapshots \<or>
              \<not> all_unique (map (\<lambda>s. (fs_symbol s, fs_decision_at s)) snapshots)
      then Inl (ValueError ''outcome snapshot configuration lineage is inconsistent'')
      else if \<not> contains policy (fs_trade_date (hd snapshots))
      then Inl (ValueError ''outcome policy is not effective for the snapshot trade date'')
      else Inr ())"

definition label_outcomes ::
  "outcome_env \<Rightarrow> market_feed \<Rightarrow> zone_info \<Rightarrow> trading_version \<Rightarrow> outcome_version \<Rightarrow> string list \<Rightarrow> stream_gap list \<Rightarrow>
   feature_snapshot list \<Rightarrow> stream_envelope list \<Rightarrow> outcome_label list res" where
  "label_outcomes E F z c policy authorized gaps snapshots envelopes =
     (if snapshots = [] then Inr []
      else rbind (check_label_inputs E z c policy authorized snapshots) (\<lambda>_.
      rbind (quote_tapes F z c authorized (fs_trade_date (hd snapshots)) envelopes) (\<lambda>tapes.
      rbind (map_res (label_snapshot E z c policy gaps tapes) snapshots) (\<lambda>labels. Inr (concat labels)))))"

section \<open>The last quote available at an instant\<close>

text \<open>Binary search finds the border between the positions that are not later and those that are.\<close>

lemma bisect_right_from_border:
  assumes "lo \<le> hi" "hi \<le> length xs" "\<And>i j. i \<le> j \<Longrightarrow> j < length xs \<Longrightarrow> later (xs ! i) \<Longrightarrow> later (xs ! j)"
    and "\<And>i. i < lo \<Longrightarrow> \<not> later (xs ! i)" "\<And>i. hi \<le> i \<Longrightarrow> i < length xs \<Longrightarrow> later (xs ! i)"
  shows "bisect_right_from later xs lo hi \<le> length xs \<and>
    (\<forall>i < bisect_right_from later xs lo hi. \<not> later (xs ! i)) \<and>
    (\<forall>i. bisect_right_from later xs lo hi \<le> i \<longrightarrow> i < length xs \<longrightarrow> later (xs ! i))"
  using assms
proof (induction later xs lo hi rule: bisect_right_from.induct)
  case (1 later xs lo hi)
  show ?case
  proof (cases "lo < hi")
    case False
    then have "bisect_right_from later xs lo hi = lo" by (simp add: bisect_right_from.simps [of later xs lo hi])
    then show ?thesis using "1.prems" False by auto
  next
    case True
    let ?mid = "(lo + hi) div 2"
    have mid: "lo \<le> ?mid" "?mid < hi" using True by auto
    show ?thesis
    proof (cases "later (xs ! ?mid)")
      case later: True
      then have eq: "bisect_right_from later xs lo hi = bisect_right_from later xs lo ?mid"
        using True bisect_right_from.simps [of later xs lo hi] by (simp add: Let_def)
      have hi: "\<And>i. ?mid \<le> i \<Longrightarrow> i < length xs \<Longrightarrow> later (xs ! i)" using "1.prems"(3) later by blast
      have len: "?mid \<le> length xs" using mid "1.prems"(2) by linarith
      show ?thesis
        unfolding eq using len "1.prems"(3) "1.prems"(4) hi by (rule "1.IH"(1) [OF True refl later mid(1)])
    next
      case early: False
      then have eq: "bisect_right_from later xs lo hi = bisect_right_from later xs (?mid + 1) hi"
        using True bisect_right_from.simps [of later xs lo hi] by (simp add: Let_def)
      have "?mid < length xs" using mid "1.prems"(2) by linarith
      have lo: "\<not> later (xs ! i)" if "i < ?mid + 1" for i
      proof
        assume "later (xs ! i)"
        moreover have "i \<le> ?mid" using that by simp
        ultimately show False using "1.prems"(3) [of i ?mid] \<open>?mid < length xs\<close> early by blast
      qed
      have "?mid + 1 \<le> hi" using mid by simp
      then show ?thesis
        unfolding eq using "1.prems"(2) "1.prems"(3) lo "1.prems"(5) by (rule "1.IH"(2) [OF True refl early])
    qed
  qed
qed

lemma border_filter:
  assumes "n \<le> length xs" "\<forall>i < n. P (xs ! i)" "\<forall>i. n \<le> i \<longrightarrow> i < length xs \<longrightarrow> \<not> P (xs ! i)"
  shows "filter P xs = take n xs"
proof -
  have "filter P (take n xs) = take n xs" "filter P (drop n xs) = []"
    using assms by (auto simp: filter_id_conv filter_empty_conv in_set_conv_nth)
  then show ?thesis by (metis append_Nil2 append_take_drop_id filter_append)
qed

lemma last_take_nth: "0 < n \<Longrightarrow> n \<le> length xs \<Longrightarrow> last (take n xs) = xs ! (n - 1)"
  by (subst last_conv_nth) (auto simp: min_def)

lemma sorted_wrt_snoc:
  fixes x :: "'a::linorder"
  assumes "sorted_wrt (<) xs" "xs = [] \<or> last xs < x"
  shows "sorted_wrt (<) (xs @ [x])"
proof (cases xs rule: rev_cases)
  case (snoc ys y)
  with assms show ?thesis by (auto simp: sorted_wrt_append intro: order.strict_trans)
qed simp

definition last_received :: "quote_snapshot list \<Rightarrow> instant \<Rightarrow> quote_snapshot option" where
  "last_received quotes t = (case filter (\<lambda>q. qs_received_at q \<le> t) quotes of [] \<Rightarrow> None | qs \<Rightarrow> Some (last qs))"

definition wf_tape :: "quote_tape \<Rightarrow> bool" where
  "wf_tape tape \<longleftrightarrow> qt_positions tape = map tape_position_of (qt_quotes tape) \<and> sorted_wrt (<) (map tape_position_of (qt_quotes tape))"

lemma tape_latest_reference:
  assumes "wf_tape tape"
  shows "tape_latest tape t = last_received (qt_quotes tape) t"
proof -
  let ?ps = "qt_positions tape" and ?qs = "qt_quotes tape"
  let ?n = "bisect_right_from (received_after t) ?ps 0 (length ?ps)"
  have ps: "?ps = map tape_position_of ?qs" and sorted: "sorted_wrt (<) ?ps" using assms by (auto simp: wf_tape_def)
  have mono: "received_after t (?ps ! j)" if "i \<le> j" "j < length ?ps" "received_after t (?ps ! i)" for i j
  proof -
    have "?ps ! i \<le> ?ps ! j" using sorted that by (cases "i = j") (auto simp: sorted_wrt_iff_nth_less intro: less_imp_le)
    then show ?thesis using that(3) by (auto simp: received_after_def less_eq_prod_def)
  qed
  have border: "?n \<le> length ?ps" "\<forall>i < ?n. \<not> received_after t (?ps ! i)"
      "\<forall>i. ?n \<le> i \<longrightarrow> i < length ?ps \<longrightarrow> received_after t (?ps ! i)"
    using bisect_right_from_border [of 0 "length ?ps" ?ps "received_after t"] mono by auto
  have nth: "received_after t (?ps ! i) \<longleftrightarrow> \<not> qs_received_at (?qs ! i) \<le> t" if "i < length ?qs" for i
    using that by (simp add: ps received_after_def tape_position_of_def not_le)
  have len: "length ?ps = length ?qs" by (simp add: ps)
  have "filter (\<lambda>q. qs_received_at q \<le> t) ?qs = take ?n ?qs"
    using border nth len by (intro border_filter) auto
  moreover have "take ?n ?qs = [] \<longleftrightarrow> ?n = 0" "0 < ?n \<Longrightarrow> last (take ?n ?qs) = ?qs ! (?n - 1)"
    using border(1) len last_take_nth [of ?n ?qs] by auto
  ultimately show ?thesis by (auto simp: tape_latest_def last_received_def Let_def split: list.splits)
qed

text \<open>Quotes received later do not change it.\<close>

lemma last_received_append:
  "(\<And>q. q \<in> set extra \<Longrightarrow> t < qs_received_at q) \<Longrightarrow> last_received (quotes @ extra) t = last_received quotes t"
proof -
  assume "\<And>q. q \<in> set extra \<Longrightarrow> t < qs_received_at q"
  then have "filter (\<lambda>q. qs_received_at q \<le> t) extra = []" by (force simp: filter_empty_conv)
  then show ?thesis by (simp add: last_received_def)
qed

lemma last_received_member: "last_received quotes t = Some q \<Longrightarrow> q \<in> set quotes \<and> qs_received_at q \<le> t"
proof -
  assume a: "last_received quotes t = Some q"
  let ?qs = "filter (\<lambda>q. qs_received_at q \<le> t) quotes"
  have "?qs \<noteq> []" "q = last ?qs" using a by (auto simp: last_received_def split: list.splits)
  then have "q \<in> set ?qs" by (metis last_in_set)
  then show ?thesis by simp
qed

section \<open>Tapes grow with the replay\<close>

definition wf_tapes :: "tapes \<Rightarrow> bool" where
  "wf_tapes tapes \<longleftrightarrow> (\<forall>symbol tape. tapes symbol = Some tape \<longrightarrow> wf_tape tape)"

text \<open>One family of tapes extends another by quotes received after an instant.\<close>

definition extends_after :: "instant \<Rightarrow> tapes \<Rightarrow> tapes \<Rightarrow> bool" where
  "extends_after T tapes tapes' \<longleftrightarrow> (\<forall>symbol. case tapes symbol of
       None \<Rightarrow> tapes' symbol = None
     | Some tape \<Rightarrow> \<exists>tape' extra. tapes' symbol = Some tape' \<and> qt_quotes tape' = qt_quotes tape @ extra \<and>
         (\<forall>q \<in> set extra. T < qs_received_at q))"

lemma extends_after_refl: "extends_after T tapes tapes"
  by (auto simp: extends_after_def split: option.splits)

lemma extends_afterD:
  assumes "extends_after T tapes tapes'"
  shows "tapes symbol = None \<Longrightarrow> tapes' symbol = None"
    "tapes symbol = Some tape \<Longrightarrow> \<exists>tape' extra. tapes' symbol = Some tape' \<and> qt_quotes tape' = qt_quotes tape @ extra \<and>
       (\<forall>q \<in> set extra. T < qs_received_at q)"
  using assms [unfolded extends_after_def, THEN spec, of symbol] by simp_all

lemma extends_after_trans:
  assumes "extends_after T a b" "extends_after T b c"
  shows "extends_after T a c"
  unfolding extends_after_def
proof
  fix symbol
  show "case a symbol of None \<Rightarrow> c symbol = None
     | Some tape \<Rightarrow> \<exists>tape' extra. c symbol = Some tape' \<and> qt_quotes tape' = qt_quotes tape @ extra \<and> (\<forall>q \<in> set extra. T < qs_received_at q)"
  proof (cases "a symbol")
    case None
    then show ?thesis using extends_afterD(1) [OF assms(1)] extends_afterD(1) [OF assms(2)] by simp
  next
    case (Some tape)
    obtain tb mb where b: "b symbol = Some tb" "qt_quotes tb = qt_quotes tape @ mb" "\<forall>q \<in> set mb. T < qs_received_at q"
      using extends_afterD(2) [OF assms(1) Some] by blast
    obtain tc mc where "c symbol = Some tc" "qt_quotes tc = qt_quotes tb @ mc" "\<forall>q \<in> set mc. T < qs_received_at q"
      using extends_afterD(2) [OF assms(2) b(1)] by blast
    then show ?thesis using b Some by (auto intro!: exI [of _ "mb @ mc"])
  qed
qed

lemma observe_quote_step:
  assumes "observe_quote tapes ev = Inr tapes'"
  shows "wf_tapes tapes \<Longrightarrow> wf_tapes tapes'" "T < event_received_at ev \<Longrightarrow> extends_after T tapes tapes'"
proof -
  have "(wf_tapes tapes \<longrightarrow> wf_tapes tapes') \<and> (T < event_received_at ev \<longrightarrow> extends_after T tapes tapes')"
  proof (cases ev)
    case (QuoteEvent q)
    then obtain tape tape' where t: "tapes (qs_symbol q) = Some tape" "tape_append tape q = Inr tape'"
        "tapes' = tapes(qs_symbol q \<mapsto> tape')"
      using assms by (auto simp: rbind_eq_Inr split: option.splits)
    have ok: "qt_positions tape = [] \<or> last (qt_positions tape) < tape_position_of q"
      and tape': "tape' = tape\<lparr>qt_positions := qt_positions tape @ [tape_position_of q], qt_quotes := qt_quotes tape @ [q]\<rparr>"
      using t(2) by (auto simp: tape_append_def Let_def split: if_splits)
    have "wf_tape tape'" if "wf_tape tape"
      using that ok sorted_wrt_snoc [of "map tape_position_of (qt_quotes tape)" "tape_position_of q"]
      by (auto simp: tape' wf_tape_def)
    then have "wf_tapes tapes \<longrightarrow> wf_tapes tapes'" using t by (auto simp: wf_tapes_def)
    moreover have "extends_after T tapes tapes'" if "T < qs_received_at q"
      using that t(1) by (auto simp: extends_after_def t(3) tape' split: option.splits)
    ultimately show ?thesis by (simp add: QuoteEvent)
  qed (use assms in \<open>auto simp: extends_after_refl\<close>)
  then show "wf_tapes tapes \<Longrightarrow> wf_tapes tapes'" "T < event_received_at ev \<Longrightarrow> extends_after T tapes tapes'" by blast+
qed

lemma replay_authorized_step:
  assumes "replay_authorized F z authorized day r e = Inr r'"
  shows "wf_tapes (rp_observed r) \<Longrightarrow> wf_tapes (rp_observed r')"
    "T < se_received_at e \<Longrightarrow> extends_after T (rp_observed r) (rp_observed r')"
    "se_stream_session_id e \<in> set authorized"
proof -
  have env: "replay_envelope F z None (Some day) observe_quote r e = Inr r'" and auth: "se_stream_session_id e \<in> set authorized"
    using assms by (auto simp: replay_authorized_def split: if_splits)
  have none: "close_segment None r e = Inr r" by (simp add: close_segment_def segment_boundary_def split: option.splits)
  obtain s update where s: "apply_envelope F z (rp_market r) e = (s, update)" by (rule prod.exhaust)
  obtain u where u: "update = Inr u" using env by (auto simp: replay_envelope_def none s Let_def rbind_eq_Inr)
  define schedule where "schedule = mc_sessions (tv_market (st_configuration (rp_market r)))"
  obtain r2 where r2: "observe_update z schedule (Some day) observe_quote (note_receipt r s e) u = Inr r2"
    and r': "r' = r2\<lparr>rp_bars := rp_bars r2 @ mu_finalized_bars u\<rparr>"
    using env by (auto simp: replay_envelope_def none s u Let_def rbind_eq_Inr schedule_def)
  have "rp_observed r2 = rp_observed r \<or>
      (\<exists>ev. event_received_at ev = se_received_at e \<and> observe_quote (rp_observed r) ev = Inr (rp_observed r2))"
  proof (cases "mu_event u")
    case None
    then show ?thesis using r2 by (auto simp: observe_update_def note_receipt_def)
  next
    case (Some ev)
    then have "observe_event z schedule (Some day) observe_quote
        ((note_receipt r s e)\<lparr>rp_business_event_count := Suc (rp_business_event_count r)\<rparr>) ev = Inr r2"
      using r2 by (simp add: observe_update_def note_receipt_def)
    from observe_event_follows(5) [OF this] show ?thesis
      using apply_envelope_received [of F z "rp_market r" e s u ev] s u Some by (auto simp: note_receipt_def)
  qed
  then show "wf_tapes (rp_observed r) \<Longrightarrow> wf_tapes (rp_observed r')"
    "T < se_received_at e \<Longrightarrow> extends_after T (rp_observed r) (rp_observed r')" "se_stream_session_id e \<in> set authorized"
    using observe_quote_step auth by (auto simp: r' extends_after_refl)
qed

lemma replay_authorized_run:
  assumes "run_res (replay_authorized F z authorized day) r es = Inr r'"
  shows "wf_tapes (rp_observed r) \<longrightarrow> wf_tapes (rp_observed r')"
    "(\<forall>e \<in> set es. T < se_received_at e) \<longrightarrow> extends_after T (rp_observed r) (rp_observed r')"
  using assms
proof (induction es arbitrary: r)
  case (Cons e es)
  {
    case 1
    then show ?case using Cons.IH(1) replay_authorized_step(1) by (fastforce simp: rbind_eq_Inr)
  next
    case 2
    then show ?case using Cons.IH(2) replay_authorized_step(2) extends_after_trans by (fastforce simp: rbind_eq_Inr)
  }
qed (auto simp: extends_after_refl)

lemma finish_replay_none: "finish_replay None None r = Inr r"
  by (simp add: finish_replay_def finish_boundary_def segment_boundary_def split: option.splits)

lemma quote_tapes_wf:
  assumes "quote_tapes F z c authorized day es = Inr tapes"
  shows "wf_tapes tapes"
proof -
  have "wf_tapes (empty_tapes symbols)" for symbols by (simp add: wf_tapes_def empty_tapes_def empty_tape_def wf_tape_def)
  then show ?thesis using assms replay_authorized_run(1)
    by (fastforce simp: quote_tapes_def rbind_eq_Inr finish_replay_none initial_replay_vars_def split: if_splits)
qed

lemma quote_tapes_extend:
  assumes "quote_tapes F z c authorized day es = Inr tapes" "quote_tapes F z c authorized day (es @ extra) = Inr tapes'"
    "\<forall>e \<in> set extra. T < se_received_at e"
  shows "extends_after T tapes tapes'"
proof -
  let ?r0 = "initial_replay_vars c (empty_tapes (mc_symbols (tv_market c)))"
  obtain r where r: "run_res (replay_authorized F z authorized day) ?r0 es = Inr r" "tapes = rp_observed r"
    using assms(1) by (auto simp: quote_tapes_def rbind_eq_Inr finish_replay_none split: if_splits)
  obtain r' where "run_res (replay_authorized F z authorized day) r extra = Inr r'" "tapes' = rp_observed r'"
    using assms(2) r(1) by (auto simp: quote_tapes_def rbind_eq_Inr finish_replay_none run_res_append split: if_splits)
  then show ?thesis using replay_authorized_run(2) assms(3) r(2) by blast
qed

section \<open>Labels\<close>

lemma OutcomeLabel_Inr:
  assumes "OutcomeLabel l = Inr l'"
  shows "l' = l" "ol_entry_at l < ol_horizon_at l" "distinct (ol_reasons l)"
    "ol_reasons l = [] \<Longrightarrow> ol_entry_vwap l \<noteq> None \<and> ol_horizon_vwap l \<noteq> None"
  using assms by (auto simp: OutcomeLabel_def Let_def rbind_eq_Inr fromkeys_fix split: if_splits)

lemma build_label_Inr:
  assumes "build_label E policy s session horizon action (entry, exit, reasons) = Inr l"
  shows "ol_horizon_at l = fs_decision_at s + horizon * second_us" "ol_entry_at l = entry_instant policy s"
    "ol_entry_at l < ol_horizon_at l" "ol_reasons l = fromkeys reasons" "ol_entry_vwap l = ex_price entry"
    "ol_horizon_vwap l = ex_price exit" "ol_entry_quote_received_at l = map_option qs_received_at (ex_quote entry)"
    "ol_horizon_quote_received_at l = map_option qs_received_at (ex_quote exit)" "ol_symbol l = fs_symbol s"
    "ol_trade_date l = fs_trade_date s" "ol_decision_at l = fs_decision_at s" "ol_action l = action"
    "ol_stream_session_id l = session" "ol_order_quantity l = ov_order_quantity policy"
    "gross_return action (ex_price entry) (ex_price exit) = Inr (ol_gross_return_bps l)"
    "label_eligible l \<Longrightarrow> ol_entry_vwap l \<noteq> None \<and> ol_horizon_vwap l \<noteq> None"
  using assms by (auto simp: build_label_def rbind_eq_Inr label_eligible_def dest: OutcomeLabel_Inr)

text \<open>The labels of a snapshot, one for every horizon and action.\<close>

definition label_plan :: "outcome_version \<Rightarrow> (int \<times> action) list" where
  "label_plan policy = concat (map (\<lambda>h. [(h, BUY), (h, SELL)]) (ov_horizons_seconds policy))"

definition labelled ::
  "outcome_env \<Rightarrow> trading_version \<Rightarrow> outcome_version \<Rightarrow> stream_gap list \<Rightarrow> tapes \<Rightarrow> instant \<Rightarrow> feature_snapshot \<Rightarrow> string \<Rightarrow>
   int \<times> action \<Rightarrow> outcome_label \<Rightarrow> bool" where
  "labelled E c policy gaps tapes stop s session x l \<longleftrightarrow>
     (\<exists>found. label_executions c policy gaps tapes stop s session (fs_decision_at s + fst x * second_us) (snd x) = Inr found \<and>
        build_label E policy s session (fst x) (snd x) found = Inr l)"

lemma label_snapshot_Inr:
  assumes "label_snapshot E z c policy gaps tapes s = Inr ls"
  obtains session start stop where "fs_stream_session_id s = Some session"
    "session_window z (mc_sessions (tv_market c)) (fs_trade_date s) (fs_market_session s) = Inr (start, stop)"
    "list_all2 (labelled E c policy gaps tapes stop s session) (label_plan policy) ls"
proof -
  obtain session start stop where 1: "fs_stream_session_id s = Some session"
    "session_window z (mc_sessions (tv_market c)) (fs_trade_date s) (fs_market_session s) = Inr (start, stop)"
    and m: "map_res (\<lambda>(h, action). rbind (label_executions c policy gaps tapes stop s session (fs_decision_at s + h * second_us) action)
               (build_label E policy s session h action)) (label_plan policy) = Inr ls"
    using assms by (auto simp: label_snapshot_def label_plan_def rbind_eq_Inr split: option.splits)
  have "list_all2 (labelled E c policy gaps tapes stop s session) (label_plan policy) ls"
    using m unfolding map_res_Inr_iff by (rule list_all2_mono) (auto simp: labelled_def rbind_eq_Inr)
  with 1 show ?thesis by (rule that)
qed

lemma label_outcomes_Inr:
  assumes "label_outcomes E F z c policy authorized gaps snapshots es = Inr ls" "snapshots \<noteq> []"
  obtains tapes groups where "quote_tapes F z c authorized (fs_trade_date (hd snapshots)) es = Inr tapes"
    "list_all2 (\<lambda>s l. label_snapshot E z c policy gaps tapes s = Inr l) snapshots groups" "ls = concat groups"
    "check_label_inputs E z c policy authorized snapshots = Inr ()"
  using assms by (auto simp: label_outcomes_def rbind_eq_Inr map_res_Inr_iff)

section \<open>No look-ahead\<close>

lemma tape_latest_extends:
  assumes "extends_after T tapes tapes'" "wf_tapes tapes" "wf_tapes tapes'" "t \<le> T"
    "tapes symbol = Some tape" "tapes' symbol = Some tape'"
  shows "tape_latest tape' t = tape_latest tape t"
proof -
  obtain extra where extra: "qt_quotes tape' = qt_quotes tape @ extra" "\<forall>q \<in> set extra. T < qs_received_at q"
    using extends_afterD(2) [OF assms(1,5)] assms(6) by auto
  then show ?thesis using assms(2-6) last_received_append [of extra t "qt_quotes tape"]
    by (force simp: wf_tapes_def tape_latest_reference)
qed

lemma execution_price_cong:
  "tape_latest tape' t = tape_latest tape t \<Longrightarrow>
   execution_price tape' t action quantity stale phase session = execution_price tape t action quantity stale phase session"
  by (simp add: execution_price_def)

lemma label_executions_extends:
  assumes "extends_after T tapes tapes'" "wf_tapes tapes" "wf_tapes tapes'" "entry_instant policy s \<le> T" "horizon_at \<le> T"
  shows "label_executions c policy gaps tapes' stop s session horizon_at action =
    label_executions c policy gaps tapes stop s session horizon_at action"
proof (cases "tapes (fs_symbol s)")
  case None
  then have "tapes' (fs_symbol s) = None" using extends_afterD(1) [OF assms(1)] by blast
  with None show ?thesis by (simp add: label_executions_def Let_def)
next
  case (Some tape)
  then obtain tape' where tape': "tapes' (fs_symbol s) = Some tape'" using extends_afterD(2) [OF assms(1)] by blast
  note same = execution_price_cong [OF tape_latest_extends [OF assms(1-3) _ Some tape']]
  show ?thesis using same [OF assms(4)] same [OF assms(5)] Some tape' by (simp add: label_executions_def Let_def)
qed

lemma list_all2_concat:
  "list_all2 (list_all2 P) xss yss \<Longrightarrow> list_all2 P (concat xss) (concat yss)"
  by (induction rule: list_all2_induct) (auto intro: list_all2_appendI)

lemma list_all2_functions:
  assumes "list_all2 P xs ys" "list_all2 Q xs zs" "\<And>x y z. P x y \<Longrightarrow> Q x z \<Longrightarrow> R y z"
  shows "list_all2 R ys zs"
  using assms by (auto simp: list_all2_conv_all_nth)

lemma labelled_extends:
  assumes "extends_after T tapes tapes'" "wf_tapes tapes" "wf_tapes tapes'"
    and "labelled E c policy gaps tapes stop s session x l" "labelled E c policy gaps tapes' stop s session x l'"
  shows "ol_horizon_at l' = ol_horizon_at l \<and> (ol_horizon_at l \<le> T \<longrightarrow> l' = l)"
proof -
  obtain f f' where f: "label_executions c policy gaps tapes stop s session (fs_decision_at s + fst x * second_us) (snd x) = Inr f"
      "build_label E policy s session (fst x) (snd x) f = Inr l"
    and f': "label_executions c policy gaps tapes' stop s session (fs_decision_at s + fst x * second_us) (snd x) = Inr f'"
      "build_label E policy s session (fst x) (snd x) f' = Inr l'"
    using assms(4,5) by (auto simp: labelled_def)
  obtain a b r where fa: "f = (a, b, r)" by (rule prod_cases3)
  obtain a' b' r' where fa': "f' = (a', b', r')" by (rule prod_cases3)
  note l = build_label_Inr [OF f(2) [unfolded fa]] and l' = build_label_Inr [OF f'(2) [unfolded fa']]
  have "l' = l" if "ol_horizon_at l \<le> T"
  proof -
    have "fs_decision_at s + fst x * second_us \<le> T" "entry_instant policy s \<le> T" using l(1-3) that by linarith+
    then have "f' = f" using label_executions_extends [OF assms(1-3)] f(1) f'(1) by simp
    with f f' show ?thesis by simp
  qed
  then show ?thesis using l(1) l'(1) by simp
qed

lemma label_snapshot_extends:
  assumes "extends_after T tapes tapes'" "wf_tapes tapes" "wf_tapes tapes'"
    and ls: "label_snapshot E z c policy gaps tapes s = Inr ls" "label_snapshot E z c policy gaps tapes' s = Inr ls'"
  shows "list_all2 (\<lambda>l l'. ol_horizon_at l' = ol_horizon_at l \<and> (ol_horizon_at l \<le> T \<longrightarrow> l' = l)) ls ls'"
proof -
  obtain session start stop where s: "fs_stream_session_id s = Some session"
    "session_window z (mc_sessions (tv_market c)) (fs_trade_date s) (fs_market_session s) = Inr (start, stop)"
    and l: "list_all2 (labelled E c policy gaps tapes stop s session) (label_plan policy) ls"
    using label_snapshot_Inr [OF ls(1)] .
  have l': "list_all2 (labelled E c policy gaps tapes' stop s session) (label_plan policy) ls'"
    by (rule label_snapshot_Inr [OF ls(2)]) (use s in simp)
  show ?thesis using l l' by (rule list_all2_functions) (rule labelled_extends [OF assms(1-3)])
qed

text \<open>C21: Labels never look ahead. When a replay input is extended by envelopes received after an instant \<open>T\<close>, and both inputs can
  be labelled, every label whose horizon is not after \<open>T\<close> is the same in both results, position by position: no
  label depends on anything received after its horizon.\<close>

theorem labels_ignore_future:
  assumes "label_outcomes E F z c policy authorized gaps snapshots envelopes = Inr labels"
    "label_outcomes E F z c policy authorized gaps snapshots (envelopes @ later_envelopes) = Inr labels'"
    "\<forall>e \<in> set later_envelopes. T < se_received_at e"
  shows "list_all2 (\<lambda>l l'. ol_horizon_at l' = ol_horizon_at l \<and> (ol_horizon_at l \<le> T \<longrightarrow> l' = l)) labels labels'"
proof (cases "snapshots = []")
  case True
  then show ?thesis using assms by (simp add: label_outcomes_def)
next
  case False
  obtain tapes groups where t: "quote_tapes F z c authorized (fs_trade_date (hd snapshots)) envelopes = Inr tapes"
    "list_all2 (\<lambda>s l. label_snapshot E z c policy gaps tapes s = Inr l) snapshots groups" "labels = concat groups"
    using label_outcomes_Inr [OF assms(1) False] .
  obtain tapes' groups' where t': "quote_tapes F z c authorized (fs_trade_date (hd snapshots)) (envelopes @ later_envelopes) = Inr tapes'"
    "list_all2 (\<lambda>s l. label_snapshot E z c policy gaps tapes' s = Inr l) snapshots groups'" "labels' = concat groups'"
    using label_outcomes_Inr [OF assms(2) False] .
  have ext: "extends_after T tapes tapes'" using t(1) t'(1) assms(3) by (rule quote_tapes_extend)
  show ?thesis unfolding t(3) t'(3)
    by (intro list_all2_concat list_all2_functions [OF t(2) t'(2)]
        label_snapshot_extends [OF ext quote_tapes_wf [OF t(1)] quote_tapes_wf [OF t'(1)]])
qed

section \<open>Eligible labels\<close>

text \<open>A price is backed by the last quote of the tape that was received by the evaluation time.\<close>

definition priced_by ::
  "quote_tape \<Rightarrow> instant \<Rightarrow> action \<Rightarrow> int \<Rightarrow> int \<Rightarrow> string \<Rightarrow> instant option \<Rightarrow> decimal option \<Rightarrow> bool" where
  "priced_by tape evaluated_at action quantity stale session received_at price \<longleftrightarrow>
     (\<exists>q p. last_received (qt_quotes tape) evaluated_at = Some q \<and> qs_received_at q \<le> evaluated_at \<and>
        ep_stream_session_id (qs_position q) = session \<and> qs_is_complete q \<and> evaluated_at - qs_received_at q \<le> stale \<and>
        evaluated_at - qs_event_time q \<le> stale \<and> received_at = Some (qs_received_at q) \<and> price = Some p \<and>
        book_vwap q action quantity = Inr (Some p))"

lemma execution_price_priced:
  assumes "wf_tape tape" "execution_price tape t action quantity stale phase session = Inr x" "ex_price x \<noteq> None"
  shows "priced_by tape t action quantity stale session (map_option qs_received_at (ex_quote x)) (ex_price x)"
  using assms
  by (auto simp: execution_price_def tape_latest_reference refused_def priced_by_def rbind_eq_Inr
      dest: last_received_member split: option.splits if_splits)

lemma gross_return_priced:
  "gross_return action (Some a) (Some b) = Inr g \<Longrightarrow> \<exists>v. g = Some v \<and> basis_points (price_movement action a b) a = Inr v"
  by (auto simp: gross_return_def rbind_eq_Inr)

lemma execution_reason: "execution_price tape t action quantity stale phase session = Inr x \<Longrightarrow> ex_price x = None \<Longrightarrow> ex_reason x \<noteq> None"
  by (auto simp: execution_price_def refused_def rbind_eq_Inr split: option.splits if_splits)

text \<open>C22: An eligible label is clean: its snapshot was eligible, entry and horizon lie inside the trading session of the
  decision and no capture gap overlaps them, both prices are the book VWAP of the last quote received by their instant, and
  that quote is complete, fresh and of the label's stream session; its gross return is the basis points of the price
  movement in the direction of the action.\<close>

theorem eligible_labels_clean:
  assumes "label_outcomes E F z c policy authorized gaps snapshots envelopes = Inr labels" "l \<in> set labels" "label_eligible l"
  shows "\<exists>tapes tape session start stop entry horizon g.
    quote_tapes F z c authorized (ol_trade_date l) envelopes = Inr tapes \<and> tapes (ol_symbol l) = Some tape \<and>
    session_at z (mc_sessions (tv_market c)) (ol_trade_date l) (Aware (ol_decision_at l)) = Inr session \<and>
    session_window z (mc_sessions (tv_market c)) (ol_trade_date l) session = Inr (start, stop) \<and>
    ol_entry_at l < ol_horizon_at l \<and> ol_horizon_at l < stop \<and> \<not> crosses_gap gaps (ol_decision_at l) (ol_horizon_at l) \<and>
    priced_by tape (ol_entry_at l) (ol_action l) (ol_order_quantity l) (stale_after c) (ol_stream_session_id l)
      (ol_entry_quote_received_at l) (ol_entry_vwap l) \<and>
    priced_by tape (ol_horizon_at l) (opposite (ol_action l)) (ol_order_quantity l) (stale_after c) (ol_stream_session_id l)
      (ol_horizon_quote_received_at l) (ol_horizon_vwap l) \<and>
    ol_entry_vwap l = Some entry \<and> ol_horizon_vwap l = Some horizon \<and> ol_gross_return_bps l = Some g \<and>
    basis_points (price_movement (ol_action l) entry horizon) entry = Inr g"
proof -
  have "snapshots \<noteq> []" using assms(1,2) by (auto simp: label_outcomes_def)
  then obtain tapes groups where t: "quote_tapes F z c authorized (fs_trade_date (hd snapshots)) envelopes = Inr tapes"
    "list_all2 (\<lambda>s l. label_snapshot E z c policy gaps tapes s = Inr l) snapshots groups" "labels = concat groups"
    and guards: "check_label_inputs E z c policy authorized snapshots = Inr ()"
    using label_outcomes_Inr [OF assms(1)] by blast
  obtain s ls where s: "s \<in> set snapshots" "label_snapshot E z c policy gaps tapes s = Inr ls" "l \<in> set ls"
    using assms(2) t(3) list_all2_set_right [OF t(2)] by fastforce
  have consistent: "snapshot_consistent E z c (fs_trade_date (hd snapshots)) s"
    using guards s(1) by (auto simp: check_label_inputs_def list_all_iff split: if_splits)
  obtain session start stop where win: "session_window z (mc_sessions (tv_market c)) (fs_trade_date s) (fs_market_session s) = Inr (start, stop)"
    and l2: "list_all2 (labelled E c policy gaps tapes stop s session) (label_plan policy) ls"
    using label_snapshot_Inr [OF s(2)] by blast
  obtain x where x: "labelled E c policy gaps tapes stop s session x l"
    using list_all2_set_right [OF l2 s(3)] by blast
  then obtain entry exit reasons where found: "label_executions c policy gaps tapes stop s session (fs_decision_at s + fst x * second_us) (snd x) = Inr (entry, exit, reasons)"
    and l: "build_label E policy s session (fst x) (snd x) (entry, exit, reasons) = Inr l"
    by (auto simp: labelled_def)
  note f = build_label_Inr [OF l]
  have "reasons = []" using assms(3) f(4) by (simp add: label_eligible_def)
  then obtain tape where tape: "tapes (fs_symbol s) = Some tape" and inside: "entry_instant policy s < stop"
      "fs_decision_at s + fst x * second_us < stop" "\<not> crosses_gap gaps (fs_decision_at s) (fs_decision_at s + fst x * second_us)"
    and ex: "execution_price tape (entry_instant policy s) (snd x) (ov_order_quantity policy) (stale_after c) ''ENTRY'' session = Inr entry"
      "execution_price tape (fs_decision_at s + fst x * second_us) (opposite (snd x)) (ov_order_quantity policy) (stale_after c) ''HORIZON'' session = Inr exit"
    using found by (auto simp: label_executions_def Let_def rbind_eq_Inr split: if_splits option.splits)
  have prices: "ex_price entry \<noteq> None" "ex_price exit \<noteq> None" using f(5,6,16) assms(3) by auto
  have wf: "wf_tape tape" using quote_tapes_wf [OF t(1)] tape by (auto simp: wf_tapes_def)
  obtain a b where ab: "ex_price entry = Some a" "ex_price exit = Some b" using prices by blast
  then obtain g where g: "ol_gross_return_bps l = Some g" "basis_points (price_movement (snd x) a b) a = Inr g"
    using gross_return_priced f(15) by (metis (no_types))
  show ?thesis
    using execution_price_priced [OF wf ex(1) prices(1)] execution_price_priced [OF wf ex(2) prices(2)] win inside tape t(1)
      consistent f ab g
    by (intro exI [of _ tapes] exI [of _ tape] exI [of _ "fs_market_session s"] exI [of _ start] exI [of _ stop] exI [of _ a] exI [of _ b] exI [of _ g])
      (simp add: snapshot_consistent_def)
qed

section \<open>A concrete labelling\<close>

definition sample_book :: quote_message where
  "sample_book = sample_quote_message\<lparr>qmsg_bid_prices := map Some [40000, 39900, 39800] @ replicate 7 (Some 0),
     qmsg_ask_prices := map Some [50000, 50100, 50200] @ replicate 7 (Some 0)\<rparr>"

definition label_feed :: market_feed where
  "label_feed = sample_feed\<lparr>fd_quote := map_of [(''Q1'', sample_book)]\<rparr>"

definition label_env :: outcome_env where
  "label_env = \<lparr>fe_configuration_sha256 = (\<lambda>_. replicate 64 CHR ''a''),
     fe_snapshot_sha256 = (\<lambda>_. replicate 64 CHR ''c''), oe_policy_sha256 = (\<lambda>_. replicate 64 CHR ''b'')\<rparr>"

definition label_policy :: outcome_version where
  "label_policy = \<lparr>version = ''out-v1'', effective_from = 0, effective_to = None, ov_horizons_seconds = [5, 20],
     ov_order_quantity = 100, ov_execution_latency_milliseconds = 500\<rparr>"

text \<open>A decision at 09:15:04 local time, after the quote received at 09:15:03.\<close>

definition label_features :: feature_snapshot where
  "label_features = book_values.extend EMPTY_BOOK (feature_snapshot.fields ''f-v1'' ''core-v1'' (replicate 64 CHR ''a'') ''VIC''
     (fst (zn_local vietnam_zone sample_market_open)) (sample_market_open + 4 * second_us) MS_CONTINUOUS_AM (Some ''s1'') (Some 2)
     (Some 2) (Some 1) [] [])"

definition sample_labels :: "stream_envelope list \<Rightarrow> outcome_label list res" where
  "sample_labels = label_outcomes label_env label_feed vietnam_zone sample_trading label_policy [''s1''] [] [label_features]"

abbreviation early_envelopes :: "stream_envelope list" where
  "early_envelopes \<equiv> [sample_envelope 1 ''TradeMessage'' ''T1'' ''2025/09/24 09:15:01'' 2, sample_quote_envelope]"

abbreviation late_envelopes :: "stream_envelope list" where
  "late_envelopes \<equiv> [sample_envelope 3 ''QuoteMessage'' ''Q1'' ''2025/09/24 09:15:02'' 20]"

lemma sample_labels_early:
  obtains labels where "sample_labels early_envelopes = Inr labels"
    "map label_eligible labels = [True, True, False, False]" "map ol_gross_return_bps (take 2 labels) = [Some (- 2000), Some (- 2500)]"
proof -
  have "case sample_labels early_envelopes of Inl _ \<Rightarrow> False
     | Inr labels \<Rightarrow> map label_eligible labels = [True, True, False, False] \<and>
         map ol_gross_return_bps (take 2 labels) = [Some (- 2000), Some (- 2500)]"
    by code_simp
  then show ?thesis by (auto dest!: case_res_True intro: that)
qed

lemma sample_labels_late:
  obtains labels where "sample_labels (early_envelopes @ late_envelopes) = Inr labels"
proof -
  have "case sample_labels (early_envelopes @ late_envelopes) of Inl _ \<Rightarrow> False | Inr _ \<Rightarrow> True"
    by code_simp
  then show ?thesis by (auto dest!: case_res_True intro: that)
qed

theorem labels_ignore_future_witness:
  "\<exists>labels labels'. sample_labels early_envelopes = Inr labels \<and> sample_labels (early_envelopes @ late_envelopes) = Inr labels' \<and>
     list_all2 (\<lambda>l l'. ol_horizon_at l' = ol_horizon_at l \<and> (ol_horizon_at l \<le> sample_market_open + 10 * second_us \<longrightarrow> l' = l)) labels labels'"
proof -
  obtain labels where l: "sample_labels early_envelopes = Inr labels" by (rule sample_labels_early)
  obtain labels' where l': "sample_labels (early_envelopes @ late_envelopes) = Inr labels'" by (rule sample_labels_late)
  have late: "\<forall>e \<in> set late_envelopes. sample_market_open + 10 * second_us < se_received_at e"
    by (simp add: sample_envelope_def)
  show ?thesis
    using labels_ignore_future [OF l [unfolded sample_labels_def] l' [unfolded sample_labels_def] late] l l' by blast
qed

theorem eligible_labels_clean_witness:
  "\<exists>labels l tapes tape. sample_labels early_envelopes = Inr labels \<and> l \<in> set labels \<and>
     quote_tapes label_feed vietnam_zone sample_trading [''s1''] (ol_trade_date l) early_envelopes = Inr tapes \<and>
     tapes (ol_symbol l) = Some tape \<and> ol_gross_return_bps l = Some (- 2000) \<and>
     priced_by tape (ol_entry_at l) (ol_action l) (ol_order_quantity l) (stale_after sample_trading) (ol_stream_session_id l)
       (ol_entry_quote_received_at l) (ol_entry_vwap l)"
proof -
  obtain labels where l: "sample_labels early_envelopes = Inr labels" "map label_eligible labels = [True, True, False, False]"
      "map ol_gross_return_bps (take 2 labels) = [Some (- 2000), Some (- 2500)]"
    by (rule sample_labels_early)
  obtain x rest where x: "labels = x # rest" using l(2) by (cases labels) auto
  then have "x \<in> set labels" "label_eligible x" "ol_gross_return_bps x = Some (- 2000)" using l(2,3) by auto
  from eligible_labels_clean [OF l(1) [unfolded sample_labels_def] this(1,2)] this show ?thesis using l(1) by auto
qed

end
