(* ===== verification/Simulation.thy ===== *)
theory Simulation
  imports Outcomes Arbitration
begin

text \<open>
  \<^verbatim>\<open>t0_trading/simulation\<close>: the request of one day of arbitrated buy-first cycles, its validator, and the accounting engine
  that replays entries and exits in time order. Prices come from the conditional outcomes; inventory is settled
  quantity above the core minimum; sale proceeds are pending and may be advanced against.

  Digests are parameters. The unpacking of raw JSON in front of the request (\<^verbatim>\<open>accept_serialized_outcomes\<close>) is not modelled: a
  request is a record already.
\<close>

section \<open>Requests\<close>

record closing_mark =
  cm_symbol :: string
  cm_as_of :: instant
  cm_price :: decimal
  cm_source :: string

definition ClosingMark :: "closing_mark \<Rightarrow> closing_mark res" where
  "ClosingMark m = (if 0 < cm_price m \<and> cm_source m \<noteq> [] then Inr m else Inl (ValidationError ''ClosingMark''))"

record cycle_proposal =
  pr_candidate :: baseline_candidate
  pr_arbitration :: candidate_arbitration
  pr_outcome :: outcome_label

record simulation_env =
  sv_candidate_sha256 :: "baseline_candidate \<Rightarrow> string"
  sv_arbitration_sha256 :: "candidate_arbitration \<Rightarrow> string"
  sv_outcome_sha256 :: "outcome_label \<Rightarrow> string"

text \<open>An arbitration is always of the action BUY.\<close>

definition ArbitratedCycleProposal :: "simulation_env \<Rightarrow> cycle_proposal \<Rightarrow> cycle_proposal res" where
  "ArbitratedCycleProposal V p =
     (let candidate = pr_candidate p; arbitration = pr_arbitration p; outcome = pr_outcome p in
      rbind (require_selected_candidate (sv_candidate_sha256 V) candidate arbitration) (\<lambda>_.
      if ol_feature_snapshot_sha256 outcome \<noteq> bc_feature_snapshot_sha256 candidate \<or> ol_symbol outcome \<noteq> bc_symbol candidate \<or>
         ol_trade_date outcome \<noteq> bc_trade_date candidate \<or> ol_decision_at outcome \<noteq> bc_decision_at candidate \<or>
         ol_action outcome \<noteq> BUY \<or> ol_horizon_seconds outcome \<noteq> ca_horizon_seconds arbitration
      then Inl (ValidationError ''cycle proposal arbitration and outcome lineage do not match'')
      else if ol_reasons outcome \<noteq> [] \<and> ol_entry_vwap outcome \<noteq> None \<and> ol_horizon_vwap outcome \<noteq> None
      then Inl (ValidationError ''selected candidate cannot use an ineligible priced outcome'')
      else Inr p))"

definition proposal_priority :: "cycle_proposal \<Rightarrow> nat res" where
  "proposal_priority p = (case ca_priority (pr_arbitration p) of
     None \<Rightarrow> Inl (ValueError ''selected arbitration is missing priority'') | Some n \<Rightarrow> Inr n)"

definition cycle_id :: "simulation_env \<Rightarrow> cycle_proposal \<Rightarrow> string" where
  "cycle_id V p = sv_arbitration_sha256 V (pr_arbitration p)"

abbreviation proposal_symbol :: "cycle_proposal \<Rightarrow> string" where
  "proposal_symbol p \<equiv> bc_symbol (pr_candidate p)"

record simulation_request =
  sq_trade_date :: date
  sq_account :: account_snapshot
  sq_costs :: cost_policy
  sq_advance :: "advance_policy option"
  sq_risk :: risk_limits
  sq_lot_size :: int
  sq_closing_marks :: "closing_mark list"
  sq_selection_evidence :: "selection_evidence list"
  sq_proposals :: "cycle_proposal list"

text \<open>The fields, each a validated model of its own.\<close>

definition validate_option :: "('a \<Rightarrow> 'a res) \<Rightarrow> 'a option \<Rightarrow> 'a option res" where
  "validate_option f v = (case v of None \<Rightarrow> Inr None | Some x \<Rightarrow> rbind (f x) (\<lambda>y. Inr (Some y)))"

definition check_request_fields :: "simulation_env \<Rightarrow> simulation_request \<Rightarrow> unit res" where
  "check_request_fields V q =
     rbind (AccountSnapshot (sq_account q)) (\<lambda>_.
     rbind (CostPolicy (sq_costs q)) (\<lambda>_.
     rbind (validate_option AdvancePolicy (sq_advance q)) (\<lambda>_.
     rbind (RiskLimits (sq_risk q)) (\<lambda>_.
     rbind (if 1 \<le> sq_lot_size q then Inr () else Inl (ValidationError ''SimulationRequest'')) (\<lambda>_.
     rbind (map_res ClosingMark (sq_closing_marks q)) (\<lambda>_.
     rbind (map_res SelectionEvidence (sq_selection_evidence q)) (\<lambda>_.
     rbind (map_res (\<lambda>p. rbind (CandidateArbitration (pr_arbitration p)) (\<lambda>_. rbind (OutcomeLabel (pr_outcome p)) (\<lambda>_.
       ArbitratedCycleProposal V p))) (sq_proposals q)) (\<lambda>_. Inr ()))))))))"

definition selected_in_time :: "simulation_env \<Rightarrow> selection_evidence list \<Rightarrow> cycle_proposal \<Rightarrow> bool" where
  "selected_in_time V evidence p =
     (case keyed sel_arbitration_sha256 evidence (cycle_id V p) of None \<Rightarrow> False
      | Some e \<Rightarrow> bc_decision_at (pr_candidate p) \<le> sel_selected_at e \<and> sel_selected_at e < ol_entry_at (pr_outcome p))"

definition inside_day :: "simulation_request \<Rightarrow> cycle_proposal \<Rightarrow> bool" where
  "inside_day q p =
     (bc_trade_date (pr_candidate p) = sq_trade_date q \<and> proposal_symbol p \<in> set (map ap_symbol (ac_positions (sq_account q))) \<and>
      bc_decision_at (pr_candidate p) > ac_as_of (sq_account q) \<and>
      (case keyed cm_symbol (sq_closing_marks q) (proposal_symbol p) of None \<Rightarrow> False
       | Some mark \<Rightarrow> ol_entry_at (pr_outcome p) < cm_as_of mark \<and> ol_horizon_at (pr_outcome p) \<le> cm_as_of mark))"

definition SimulationRequest :: "simulation_env \<Rightarrow> zone_info \<Rightarrow> simulation_request \<Rightarrow> simulation_request res" where
  "SimulationRequest V z q =
     (let account = sq_account q; symbols = map ap_symbol (ac_positions account); marks = sq_closing_marks q;
          arbitrations = map pr_arbitration (sq_proposals q); ids = map (cycle_id V) (sq_proposals q);
          evidence = sq_selection_evidence q
      in rbind (check_request_fields V q) (\<lambda>_.
      if \<not> cost_contains (sq_costs q) (sq_trade_date q)
      then Inl (ValidationError ''cost policy is not effective for trade date'')
      else if (case sq_advance q of None \<Rightarrow> False | Some a \<Rightarrow> adv_settlement_date a \<le> sq_trade_date q)
      then Inl (ValidationError ''advance settlement date must follow the trade date'')
      else if fst (zn_local z (ac_as_of account)) \<noteq> sq_trade_date q
      then Inl (ValidationError ''account snapshot must be from the trade date'')
      else if \<not> all_unique (map cm_symbol marks) \<or> set (map cm_symbol marks) \<noteq> set symbols
      then Inl (ValidationError ''closing marks must cover account symbols exactly once'')
      else if list_ex (\<lambda>m. fst (zn_local z (cm_as_of m)) \<noteq> sq_trade_date q \<or> cm_as_of m \<le> ac_as_of account) marks
      then Inl (ValidationError ''closing marks must follow the same-day account snapshot'')
      else if \<not> all_unique ids \<or> \<not> all_unique (map (\<lambda>a. (ca_symbol a, ca_decision_at a)) arbitrations)
      then Inl (ValidationError ''proposals must have unique arbitrations and symbol clocks'')
      else rbind (map_res proposal_priority (sq_proposals q)) (\<lambda>priorities.
      if \<not> all_unique (zip (map (ol_entry_at \<circ> pr_outcome) (sq_proposals q)) priorities)
      then Inl (ValidationError ''simultaneous proposals require unique explicit priorities'')
      else if \<not> all_unique (map sel_arbitration_sha256 evidence) \<or> set (map sel_arbitration_sha256 evidence) \<noteq> set ids
      then Inl (ValidationError ''selection evidence must cover selected arbitrations exactly once'')
      else if \<not> list_all (selected_in_time V evidence) (sq_proposals q)
      then Inl (ValidationError ''selection evidence must precede outcome entry'')
      else if \<not> list_all (inside_day q) (sq_proposals q)
      then Inl (ValidationError ''proposal or outcome falls outside account and closing-mark window'')
      else Inr q)))"

section \<open>Results\<close>

datatype cycle_status = CLOSED_CYCLE | REJECTED_CYCLE | OPEN_CYCLE

record cycle_result =
  cr_cycle_id :: string
  cr_outcome_sha256 :: string
  cr_symbol :: string
  cr_strategy :: string
  cr_action :: action
  cr_quantity :: int
  cr_entry_at :: instant
  cr_horizon_at :: instant
  cr_status :: cycle_status
  cr_reason :: "string option"
  cr_entry_price :: "decimal option"
  cr_exit_price :: "decimal option"
  cr_gross_pnl_vnd :: "decimal option"
  cr_trading_cost_vnd :: "decimal option"
  cr_net_pnl_vnd :: "decimal option"

definition CycleResult :: "cycle_result \<Rightarrow> cycle_result res" where
  "CycleResult r = (if is_sha256 (cr_cycle_id r) \<and> is_sha256 (cr_outcome_sha256 r) \<and> cr_action r = BUY \<and> 1 \<le> cr_quantity r
     then Inr r else Inl (ValidationError ''CycleResult''))"

record end_position =
  en_symbol :: string
  en_settled_qty :: int
  en_t1_qty :: int
  en_t2_qty :: int
  en_bought_today_qty :: int

definition EndPosition :: "end_position \<Rightarrow> end_position res" where
  "EndPosition p = (if 0 \<le> en_settled_qty p \<and> 0 \<le> en_t1_qty p \<and> 0 \<le> en_t2_qty p \<and> 0 \<le> en_bought_today_qty p
     then Inr p else Inl (ValidationError ''EndPosition''))"

record simulation_report =
  smr_trade_date :: date
  smr_request_sha256 :: string
  smr_fee_provenance_recorded :: bool
  smr_fee_basis :: fee_basis
  smr_account_plan :: "string option"
  smr_selection_reference_recorded :: bool
  smr_complete :: bool
  smr_cycles :: "cycle_result list"
  smr_starting_cash_vnd :: decimal
  smr_ending_cash_vnd :: decimal
  smr_pending_sale_proceeds_vnd :: decimal
  smr_advance_principal_vnd :: decimal
  smr_advance_interest_vnd :: decimal
  smr_end_positions :: "end_position list"
  smr_hold_pnl_vnd :: decimal
  smr_gross_t0_alpha_vnd :: "decimal option"
  smr_trading_cost_vnd :: "decimal option"
  smr_financing_cost_vnd :: "decimal option"
  smr_net_t0_alpha_vnd :: "decimal option"
  smr_hold_plus_t0_pnl_vnd :: "decimal option"

definition SimulationReport :: "simulation_report \<Rightarrow> simulation_report res" where
  "SimulationReport r = (if is_sha256 (smr_request_sha256 r) then Inr r else Inl (ValidationError ''SimulationReport''))"

section \<open>The engine's state\<close>

record sim_position =
  sp_settled :: int
  sp_t1 :: int
  sp_t2 :: int
  sp_bought_today :: int

definition position_total :: "sim_position \<Rightarrow> int" where
  "position_total p = sp_settled p + sp_t1 p + sp_t2 p + sp_bought_today p"

record sim_execution =
  sx_price :: decimal
  sx_notional :: decimal
  sx_charge :: decimal

record open_cycle =
  oc_proposal :: cycle_proposal
  oc_entry :: sim_execution

record sim_state =
  sm_positions :: "string \<rightharpoonup> sim_position"
  sm_cash :: decimal
  sm_pending_sales :: decimal
  sm_advance_principal :: decimal
  sm_advance_interest :: decimal
  sm_open_by_symbol :: "string \<rightharpoonup> open_cycle"
  sm_results :: "string \<rightharpoonup> cycle_result"
  sm_started :: int
  sm_realized_net :: decimal

definition simulated_execution :: "simulation_request \<Rightarrow> decimal \<Rightarrow> action \<Rightarrow> int \<Rightarrow> sim_execution" where
  "simulated_execution q book_price side quantity =
     (let costs = sq_costs q;
          slip = ddiv (cp_extra_slippage_bps costs) 10000;
          price = dmul book_price (if side = BUY then dadd 1 slip else dsub 1 slip);
          notional = dmul price (of_int quantity);
          fee_bps = (if side = BUY then cp_buy_fee_bps costs else cp_sell_fee_bps costs);
          tax_bps = (if side = SELL then cp_sell_tax_bps costs else 0)
      in \<lparr>sx_price = price, sx_notional = notional, sx_charge = ddiv (dmul notional (dadd fee_bps tax_bps)) 10000\<rparr>)"

definition closed_pnl :: "cycle_status \<Rightarrow> sim_execution option \<Rightarrow> sim_execution option \<Rightarrow> (decimal \<times> decimal \<times> decimal) option res" where
  "closed_pnl status entry exit =
     (if status \<noteq> CLOSED_CYCLE then Inr None
      else case (entry, exit) of
        (Some a, Some b) \<Rightarrow>
          (let gross = dsub (sx_notional b) (sx_notional a); charge = dadd (sx_charge a) (sx_charge b)
           in Inr (Some (gross, charge, dsub gross charge)))
      | _ \<Rightarrow> Inl (ValueError ''closed cycle requires both executions''))"

definition make_result ::
  "simulation_env \<Rightarrow> cycle_proposal \<Rightarrow> cycle_status \<Rightarrow> string option \<Rightarrow> sim_execution option \<Rightarrow> sim_execution option \<Rightarrow>
   cycle_result res" where
  "make_result V p status reason entry exit =
     rbind (closed_pnl status entry exit) (\<lambda>pnl.
       CycleResult \<lparr>cr_cycle_id = cycle_id V p, cr_outcome_sha256 = sv_outcome_sha256 V (pr_outcome p),
         cr_symbol = proposal_symbol p, cr_strategy = bc_strategy (pr_candidate p), cr_action = BUY,
         cr_quantity = ol_order_quantity (pr_outcome p), cr_entry_at = ol_entry_at (pr_outcome p),
         cr_horizon_at = ol_horizon_at (pr_outcome p), cr_status = status, cr_reason = reason,
         cr_entry_price = map_option sx_price entry, cr_exit_price = map_option sx_price exit,
         cr_gross_pnl_vnd = map_option fst pnl, cr_trading_cost_vnd = map_option (fst \<circ> snd) pnl,
         cr_net_pnl_vnd = map_option (snd \<circ> snd) pnl\<rparr>)"

text \<open>A permitted advance draw and its interest to settlement.\<close>

definition fund_buy :: "simulation_request \<Rightarrow> sim_state \<Rightarrow> decimal \<Rightarrow> (decimal \<times> decimal) option" where
  "fund_buy q s spend =
     (let draw = max (dsub (dadd spend (rk_cash_reserve_vnd (sq_risk q))) (sm_cash s)) 0 in
      if draw = 0 then Some (0, 0)
      else case sq_advance q of None \<Rightarrow> None
        | Some policy \<Rightarrow>
            (let days = adv_settlement_date policy - sq_trade_date q;
                 interest = ddiv (dmul (dmul draw (adv_daily_interest_bps policy)) (of_int days)) 10000
             in if dadd (dadd (dadd (sm_advance_principal s) draw) (sm_advance_interest s)) interest > sm_pending_sales s then None
                else Some (draw, interest)))"

section \<open>Entries and exits\<close>

definition entry_rejection :: "simulation_request \<Rightarrow> sim_state \<Rightarrow> sim_position \<Rightarrow> int \<Rightarrow> cycle_proposal \<Rightarrow> string option" where
  "entry_rejection q s position core p =
     (let outcome = pr_outcome p; quantity = ol_order_quantity outcome; risk = sq_risk q in
      if sm_open_by_symbol s (proposal_symbol p) \<noteq> None then Some ''SYMBOL_BUSY''
      else if ol_entry_vwap outcome = None then Some ''ENTRY_BOOK_UNAVAILABLE''
      else if quantity mod sq_lot_size q \<noteq> 0 then Some ''LOT_SIZE''
      else if quantity > rk_max_cycle_quantity risk then Some ''QUANTITY_LIMIT''
      else if sm_started s \<ge> rk_max_cycles_per_day risk then Some ''CYCLE_LIMIT''
      else if sm_realized_net s \<le> dneg (rk_max_daily_loss_vnd risk) then Some ''DAILY_LOSS_LIMIT''
      else if sp_settled position - quantity < core then Some ''INSUFFICIENT_SETTLED_ABOVE_CORE''
      else None)"

definition put_result :: "simulation_env \<Rightarrow> sim_state \<Rightarrow> cycle_proposal \<Rightarrow> cycle_status \<Rightarrow> string option \<Rightarrow>
    sim_execution option \<Rightarrow> sim_execution option \<Rightarrow> sim_state res" where
  "put_result V s p status reason entry exit =
     rbind (make_result V p status reason entry exit) (\<lambda>r. Inr (s\<lparr>sm_results := (sm_results s)(cycle_id V p \<mapsto> r)\<rparr>))"

text \<open>The effect of a funded entry.\<close>

definition open_entry :: "sim_state \<Rightarrow> sim_position \<Rightarrow> cycle_proposal \<Rightarrow> sim_execution \<Rightarrow> decimal \<Rightarrow> decimal \<Rightarrow> sim_state" where
  "open_entry s position p entry draw interest =
     s\<lparr>sm_cash := dsub (dadd (sm_cash s) draw) (dadd (sx_notional entry) (sx_charge entry)),
       sm_advance_principal := dadd (sm_advance_principal s) draw,
       sm_advance_interest := dadd (sm_advance_interest s) interest,
       sm_realized_net := dsub (sm_realized_net s) interest,
       sm_positions := (sm_positions s)(proposal_symbol p \<mapsto>
         position\<lparr>sp_bought_today := sp_bought_today position + ol_order_quantity (pr_outcome p)\<rparr>),
       sm_open_by_symbol := (sm_open_by_symbol s)(proposal_symbol p \<mapsto> \<lparr>oc_proposal = p, oc_entry = entry\<rparr>),
       sm_started := sm_started s + 1\<rparr>"

definition enter_cycle :: "simulation_env \<Rightarrow> simulation_request \<Rightarrow> sim_state \<Rightarrow> sim_position \<Rightarrow> int \<Rightarrow> cycle_proposal \<Rightarrow> sim_state res" where
  "enter_cycle V q s position core p =
     (case entry_rejection q s position core p of
        Some reason \<Rightarrow> put_result V s p REJECTED_CYCLE (Some reason) None None
      | None \<Rightarrow> (case ol_entry_vwap (pr_outcome p) of
            None \<Rightarrow> Inl (ValueError ''actionable entry requires a book price'')
          | Some book \<Rightarrow>
              (let entry = simulated_execution q book BUY (ol_order_quantity (pr_outcome p)) in
               if sx_notional entry > rk_max_order_notional_vnd (sq_risk q)
               then put_result V s p REJECTED_CYCLE (Some ''ORDER_NOTIONAL_LIMIT'') None None
               else case fund_buy q s (dadd (sx_notional entry) (sx_charge entry)) of
                   None \<Rightarrow> put_result V s p REJECTED_CYCLE (Some ''CASH_LIMIT'') None None
                 | Some (draw, interest) \<Rightarrow> Inr (open_entry s position p entry draw interest))))"

text \<open>The effect of an exit whose result is a closed cycle.\<close>

definition close_cycle :: "sim_state \<Rightarrow> sim_position \<Rightarrow> cycle_proposal \<Rightarrow> sim_execution \<Rightarrow> decimal \<Rightarrow> sim_state" where
  "close_cycle s position p exit net =
     s\<lparr>sm_positions := (sm_positions s)(proposal_symbol p \<mapsto>
         position\<lparr>sp_settled := sp_settled position - ol_order_quantity (pr_outcome p)\<rparr>),
       sm_pending_sales := dadd (sm_pending_sales s) (dsub (sx_notional exit) (sx_charge exit)),
       sm_realized_net := dadd (sm_realized_net s) net,
       sm_open_by_symbol := (sm_open_by_symbol s)(proposal_symbol p := None)\<rparr>"

definition exit_cycle :: "simulation_env \<Rightarrow> simulation_request \<Rightarrow> sim_state \<Rightarrow> sim_position \<Rightarrow> int \<Rightarrow> cycle_proposal \<Rightarrow> sim_state res" where
  "exit_cycle V q s position core p =
     (let quantity = ol_order_quantity (pr_outcome p) in
      case sm_open_by_symbol s (proposal_symbol p) of None \<Rightarrow> Inr s
      | Some opened \<Rightarrow>
          if cycle_id V (oc_proposal opened) \<noteq> cycle_id V p then Inr s
          else case ol_horizon_vwap (pr_outcome p) of
            None \<Rightarrow> put_result V s p OPEN_CYCLE (Some ''EXIT_BOOK_UNAVAILABLE'') (Some (oc_entry opened)) None
          | Some book \<Rightarrow>
              if sp_settled position - quantity < core
              then put_result V s p OPEN_CYCLE (Some ''EXIT_SETTLED_SHORTFALL'') (Some (oc_entry opened)) None
              else (let exit = simulated_execution q book SELL quantity in
                rbind (make_result V p CLOSED_CYCLE None (Some (oc_entry opened)) (Some exit)) (\<lambda>r.
                case cr_net_pnl_vnd r of None \<Rightarrow> Inl (ValueError ''closed cycle is missing net PnL'')
                | Some net \<Rightarrow> Inr ((close_cycle s position p exit net)\<lparr>sm_results := (sm_results s)(cycle_id V p \<mapsto> r)\<rparr>))))"

section \<open>The event loop\<close>

datatype cycle_phase = EXIT_PHASE | ENTRY_PHASE

fun phase_value :: "cycle_phase \<Rightarrow> nat" where
  "phase_value EXIT_PHASE = 0"
| "phase_value ENTRY_PHASE = 1"

type_synonym cycle_event = "instant \<times> cycle_phase \<times> nat \<times> cycle_proposal"

definition proposal_events :: "cycle_proposal \<Rightarrow> cycle_event list res" where
  "proposal_events p = rbind (proposal_priority p) (\<lambda>priority.
     Inr [(ol_entry_at (pr_outcome p), ENTRY_PHASE, priority, p), (ol_horizon_at (pr_outcome p), EXIT_PHASE, priority, p)])"

fun event_key :: "cycle_event \<Rightarrow> instant \<times> nat \<times> nat" where
  "event_key (time, phase, priority, _) = (time, phase_value phase, priority)"

definition initial_position :: "simulation_request \<Rightarrow> string \<Rightarrow> account_position option" where
  "initial_position q = keyed ap_symbol (ac_positions (sq_account q))"

fun simulation_step :: "simulation_env \<Rightarrow> simulation_request \<Rightarrow> sim_state \<Rightarrow> cycle_event \<Rightarrow> sim_state res" where
  "simulation_step V q s (_, phase, _, p) =
     (case (sm_positions s (proposal_symbol p), initial_position q (proposal_symbol p)) of
        (Some position, Some account) \<Rightarrow>
          (if phase = ENTRY_PHASE then enter_cycle V q s position (ap_core_min_qty account) p
           else exit_cycle V q s position (ap_core_min_qty account) p)
      | _ \<Rightarrow> Inl KeyError)"

definition initial_sim_state :: "simulation_request \<Rightarrow> sim_state" where
  "initial_sim_state q =
     \<lparr>sm_positions = (\<lambda>symbol. map_option (\<lambda>a. \<lparr>sp_settled = ap_settled_qty a, sp_t1 = ap_t1_qty a, sp_t2 = ap_t2_qty a,
        sp_bought_today = 0\<rparr>) (initial_position q symbol)),
      sm_cash = ac_cash_vnd (sq_account q), sm_pending_sales = 0, sm_advance_principal = 0, sm_advance_interest = 0,
      sm_open_by_symbol = Map.empty, sm_results = Map.empty, sm_started = 0, sm_realized_net = 0\<rparr>"

definition simulation_events :: "simulation_request \<Rightarrow> cycle_event list res" where
  "simulation_events q = rbind (map_res proposal_events (sq_proposals q)) (\<lambda>es. Inr (sort_key event_key (concat es)))"

definition run_simulation :: "simulation_env \<Rightarrow> simulation_request \<Rightarrow> sim_state res" where
  "run_simulation V q = rbind (simulation_events q) (run_res (simulation_step V q) (initial_sim_state q))"

section \<open>The report\<close>

fun lookup :: "('k \<rightharpoonup> 'v) \<Rightarrow> 'k \<Rightarrow> 'v res" where
  "lookup m k = (case m k of None \<Rightarrow> Inl KeyError | Some v \<Rightarrow> Inr v)"

definition proposal_order :: "cycle_proposal \<Rightarrow> (instant \<times> nat) res" where
  "proposal_order p = rbind (proposal_priority p) (\<lambda>priority. Inr (ol_entry_at (pr_outcome p), priority))"

definition ordered_proposals :: "simulation_request \<Rightarrow> cycle_proposal list res" where
  "ordered_proposals q =
     rbind (map_res (\<lambda>p. rbind (proposal_order p) (\<lambda>k. Inr (k, p))) (sq_proposals q)) (\<lambda>kps. Inr (map snd (sort_key fst kps)))"

definition present :: "('a \<Rightarrow> 'b option) \<Rightarrow> 'a list \<Rightarrow> 'b list" where
  "present f xs = List.map_filter f xs"

definition hold_pnl :: "simulation_request \<Rightarrow> decimal res" where
  "hold_pnl q =
     rbind (map_res (\<lambda>item. rbind (lookup (keyed cm_symbol (sq_closing_marks q)) (ap_symbol item)) (\<lambda>mark.
        Inr (dmul (of_int (total_qty item)) (dsub (cm_price mark) (ap_start_price item))))) (ac_positions (sq_account q)))
      (\<lambda>gains. Inr (dsum gains))"

text \<open>
  \<^verbatim>\<open>not open_by_symbol\<close>: an entry looks its position up before it opens a cycle, so every open symbol is a symbol of
  the account.
\<close>

definition sim_complete :: "simulation_request \<Rightarrow> sim_state \<Rightarrow> bool" where
  "sim_complete q s = list_all (\<lambda>a. sm_open_by_symbol s (ap_symbol a) = None) (ac_positions (sq_account q))"

definition inventory_restored :: "simulation_request \<Rightarrow> sim_state \<Rightarrow> bool" where
  "inventory_restored q s = list_all (\<lambda>a. map_option position_total (sm_positions s (ap_symbol a)) = Some (total_qty a))
     (ac_positions (sq_account q))"

definition cash_reconciles :: "simulation_request \<Rightarrow> sim_state \<Rightarrow> decimal \<Rightarrow> decimal \<Rightarrow> bool" where
  "cash_reconciles q s gross_alpha trading_cost =
     (dsub (dsub (dsub (dadd (sm_cash s) (sm_pending_sales s)) (sm_advance_principal s)) (sm_advance_interest s))
        (ac_cash_vnd (sq_account q)) =
      dsub (dsub gross_alpha trading_cost) (sm_advance_interest s))"

definition end_positions :: "simulation_request \<Rightarrow> sim_state \<Rightarrow> end_position list res" where
  "end_positions q s = map_res (\<lambda>symbol. rbind (lookup (sm_positions s) symbol) (\<lambda>p.
     EndPosition \<lparr>en_symbol = symbol, en_settled_qty = sp_settled p, en_t1_qty = sp_t1 p, en_t2_qty = sp_t2 p,
       en_bought_today_qty = sp_bought_today p\<rparr>)) (sort (map ap_symbol (ac_positions (sq_account q))))"

definition report_of :: "simulation_request \<Rightarrow> string \<Rightarrow> sim_state \<Rightarrow> cycle_result list \<Rightarrow> decimal \<Rightarrow> decimal \<Rightarrow> decimal \<Rightarrow>
    end_position list \<Rightarrow> simulation_report" where
  "report_of q sha s cycles gross_alpha trading_cost held ends =
     (let complete = sim_complete q s;
          when_complete = (\<lambda>v. if complete then Some v else None);
          interest = sm_advance_interest s
      in \<lparr>smr_trade_date = sq_trade_date q, smr_request_sha256 = sha,
          smr_fee_provenance_recorded = (cp_fee_checked_at (sq_costs q) \<noteq> None), smr_fee_basis = cp_basis (sq_costs q),
          smr_account_plan = cp_account_plan (sq_costs q),
          smr_selection_reference_recorded = (sq_selection_evidence q \<noteq> [] \<and>
            list_all (\<lambda>e. sel_source_sha256 e \<noteq> []) (sq_selection_evidence q)),
          smr_complete = complete, smr_cycles = cycles, smr_starting_cash_vnd = ac_cash_vnd (sq_account q),
          smr_ending_cash_vnd = sm_cash s, smr_pending_sale_proceeds_vnd = sm_pending_sales s,
          smr_advance_principal_vnd = sm_advance_principal s, smr_advance_interest_vnd = interest,
          smr_end_positions = ends, smr_hold_pnl_vnd = held,
          smr_gross_t0_alpha_vnd = when_complete gross_alpha, smr_trading_cost_vnd = when_complete trading_cost,
          smr_financing_cost_vnd = when_complete interest,
          smr_net_t0_alpha_vnd = when_complete (dsub (dsub gross_alpha trading_cost) interest),
          smr_hold_plus_t0_pnl_vnd = when_complete (dsub (dsub (dadd held gross_alpha) trading_cost) interest)\<rparr>)"

definition finish_simulation :: "simulation_env \<Rightarrow> simulation_request \<Rightarrow> string \<Rightarrow> sim_state \<Rightarrow> simulation_report res" where
  "finish_simulation V q sha s =
     rbind (ordered_proposals q) (\<lambda>ordered.
     rbind (map_res (\<lambda>p. lookup (sm_results s) (cycle_id V p)) ordered) (\<lambda>cycles.
     let gross_alpha = dsum (present cr_gross_pnl_vnd cycles); trading_cost = dsum (present cr_trading_cost_vnd cycles) in
     rbind (hold_pnl q) (\<lambda>held.
     if sim_complete q s \<and> \<not> inventory_restored q s
     then Inl (ValueError ''closed T0 cycles must restore each symbol's total inventory'')
     else if sim_complete q s \<and> \<not> cash_reconciles q s gross_alpha trading_cost
     then Inl (ValueError ''T0 cash movement does not reconcile with cycle net PnL'')
     else rbind (end_positions q s) (\<lambda>ends. SimulationReport (report_of q sha s cycles gross_alpha trading_cost held ends)))))"

definition simulate_cycles :: "simulation_env \<Rightarrow> (simulation_request \<Rightarrow> string) \<Rightarrow> simulation_request \<Rightarrow> simulation_report res" where
  "simulate_cycles V request_sha q = rbind (run_simulation V q) (\<lambda>s. finish_simulation V q (request_sha q) s)"

section \<open>The effect of an event\<close>

text \<open>What an event may do to the state, as a step relation; the step function is one of its choices.\<close>

inductive cycle_effect :: "simulation_env \<Rightarrow> simulation_request \<Rightarrow> sim_state \<Rightarrow> cycle_event \<Rightarrow> sim_state \<Rightarrow> bool"
  for V q s where
  rejected: "make_result V p REJECTED_CYCLE reason None None = Inr r \<Longrightarrow>
    cycle_effect V q s (t, ENTRY_PHASE, n, p) (s\<lparr>sm_results := (sm_results s)(cycle_id V p \<mapsto> r)\<rparr>)"
| opened: "sm_positions s (proposal_symbol p) = Some position \<Longrightarrow> initial_position q (proposal_symbol p) = Some account \<Longrightarrow>
    entry_rejection q s position (ap_core_min_qty account) p = None \<Longrightarrow> ol_entry_vwap (pr_outcome p) = Some book \<Longrightarrow>
    entry = simulated_execution q book BUY (ol_order_quantity (pr_outcome p)) \<Longrightarrow>
    sx_notional entry \<le> rk_max_order_notional_vnd (sq_risk q) \<Longrightarrow>
    fund_buy q s (dadd (sx_notional entry) (sx_charge entry)) = Some (draw, interest) \<Longrightarrow>
    cycle_effect V q s (t, ENTRY_PHASE, n, p) (open_entry s position p entry draw interest)"
| ignored: "(\<And>c. sm_open_by_symbol s (proposal_symbol p) = Some c \<Longrightarrow> cycle_id V (oc_proposal c) \<noteq> cycle_id V p) \<Longrightarrow>
    cycle_effect V q s (t, EXIT_PHASE, n, p) s"
| stuck: "sm_open_by_symbol s (proposal_symbol p) = Some c \<Longrightarrow> cycle_id V (oc_proposal c) = cycle_id V p \<Longrightarrow>
    make_result V p OPEN_CYCLE reason (Some (oc_entry c)) None = Inr r \<Longrightarrow>
    cycle_effect V q s (t, EXIT_PHASE, n, p) (s\<lparr>sm_results := (sm_results s)(cycle_id V p \<mapsto> r)\<rparr>)"
| closed: "sm_open_by_symbol s (proposal_symbol p) = Some c \<Longrightarrow> cycle_id V (oc_proposal c) = cycle_id V p \<Longrightarrow>
    sm_positions s (proposal_symbol p) = Some position \<Longrightarrow> initial_position q (proposal_symbol p) = Some account \<Longrightarrow>
    \<not> sp_settled position - ol_order_quantity (pr_outcome p) < ap_core_min_qty account \<Longrightarrow>
    ol_horizon_vwap (pr_outcome p) = Some book \<Longrightarrow>
    exit = simulated_execution q book SELL (ol_order_quantity (pr_outcome p)) \<Longrightarrow>
    make_result V p CLOSED_CYCLE None (Some (oc_entry c)) (Some exit) = Inr r \<Longrightarrow> cr_net_pnl_vnd r = Some net \<Longrightarrow>
    cycle_effect V q s (t, EXIT_PHASE, n, p)
      ((close_cycle s position p exit net)\<lparr>sm_results := (sm_results s)(cycle_id V p \<mapsto> r)\<rparr>)"

lemma put_result_Inr:
  "put_result V s p status reason entry exit = Inr s' \<Longrightarrow>
   \<exists>r. make_result V p status reason entry exit = Inr r \<and> s' = s\<lparr>sm_results := (sm_results s)(cycle_id V p \<mapsto> r)\<rparr>"
  by (auto simp: put_result_def rbind_eq_Inr)

lemma enter_cycle_effect:
  assumes "enter_cycle V q s position (ap_core_min_qty account) p = Inr s'"
    "sm_positions s (proposal_symbol p) = Some position" "initial_position q (proposal_symbol p) = Some account"
  shows "cycle_effect V q s (t, ENTRY_PHASE, n, p) s'"
  using assms
  by (auto simp: enter_cycle_def Let_def split: option.splits if_splits dest!: put_result_Inr
      intro: cycle_effect.rejected cycle_effect.opened)

lemma exit_cycle_effect:
  assumes "exit_cycle V q s position (ap_core_min_qty account) p = Inr s'"
    "sm_positions s (proposal_symbol p) = Some position" "initial_position q (proposal_symbol p) = Some account"
  shows "cycle_effect V q s (t, EXIT_PHASE, n, p) s'"
  using assms
  by (auto simp: exit_cycle_def Let_def rbind_eq_Inr split: option.splits if_splits dest!: put_result_Inr
      intro: cycle_effect.ignored cycle_effect.stuck cycle_effect.closed)

lemma simulation_step_effect:
  assumes "simulation_step V q s e = Inr s'"
  shows "cycle_effect V q s e s'"
proof -
  obtain t phase n p where e: "e = (t, phase, n, p)" by (rule prod_cases4)
  then obtain position account where p: "sm_positions s (proposal_symbol p) = Some position"
      "initial_position q (proposal_symbol p) = Some account"
    using assms by (auto split: option.splits)
  show ?thesis
  proof (cases phase)
    case EXIT_PHASE
    then show ?thesis using assms p unfolding e by (auto intro: exit_cycle_effect)
  next
    case ENTRY_PHASE
    then show ?thesis using assms p unfolding e by (auto intro: enter_cycle_effect)
  qed
qed

lemma make_result_fields:
  assumes "make_result V p status reason entry exit = Inr r"
  shows "cr_cycle_id r = cycle_id V p" "cr_symbol r = proposal_symbol p" "cr_quantity r = ol_order_quantity (pr_outcome p)"
    "cr_status r = status" "cr_entry_price r = map_option sx_price entry" "1 \<le> cr_quantity r"
    "status = CLOSED_CYCLE \<Longrightarrow> \<exists>a b. entry = Some a \<and> exit = Some b \<and>
       cr_gross_pnl_vnd r = Some (dsub (sx_notional b) (sx_notional a)) \<and>
       cr_trading_cost_vnd r = Some (dadd (sx_charge a) (sx_charge b))"
    "status \<noteq> CLOSED_CYCLE \<Longrightarrow> cr_gross_pnl_vnd r = None \<and> cr_trading_cost_vnd r = None"
  using assms
  by (auto simp: make_result_def closed_pnl_def CycleResult_def Let_def rbind_eq_Inr split: if_splits option.splits)

section \<open>Inventory and limits\<close>

text \<open>What a validated request gives to the engine.\<close>

definition wf_simulation :: "simulation_env \<Rightarrow> simulation_request \<Rightarrow> bool" where
  "wf_simulation V q \<longleftrightarrow> distinct (map (cycle_id V) (sq_proposals q)) \<and> wf_account (sq_account q) \<and>
     1 \<le> rk_max_cycles_per_day (sq_risk q) \<and>
     (\<forall>p \<in> set (sq_proposals q). initial_position q (proposal_symbol p) \<noteq> None \<and>
        ol_entry_at (pr_outcome p) < ol_horizon_at (pr_outcome p) \<and> ca_priority (pr_arbitration p) \<noteq> None \<and>
        1 \<le> ol_order_quantity (pr_outcome p))"

lemma SimulationRequest_Inr:
  assumes "SimulationRequest V z q = Inr q'"
  shows "q' = q" "check_request_fields V q = Inr ()" "distinct (map (cycle_id V) (sq_proposals q))"
    "list_all (inside_day q) (sq_proposals q)" "\<exists>priorities. map_res proposal_priority (sq_proposals q) = Inr priorities"
    "set (map cm_symbol (sq_closing_marks q)) = set (map ap_symbol (ac_positions (sq_account q)))"
  using assms unfolding SimulationRequest_def Let_def rbind_eq_Inr if_Inl_eq_Inr by (simp_all, blast+)

lemma check_request_fields_Inr:
  assumes "check_request_fields V q = Inr u"
  shows "wf_account (sq_account q)" "RiskLimits (sq_risk q) = Inr (sq_risk q)"
    "p \<in> set (sq_proposals q) \<Longrightarrow> OutcomeLabel (pr_outcome p) = Inr (pr_outcome p)"
proof -
  obtain a r ps where a: "AccountSnapshot (sq_account q) = Inr a" and r: "RiskLimits (sq_risk q) = Inr r"
    and ps: "map_res (\<lambda>p. rbind (CandidateArbitration (pr_arbitration p)) (\<lambda>_. rbind (OutcomeLabel (pr_outcome p)) (\<lambda>_.
       ArbitratedCycleProposal V p))) (sq_proposals q) = Inr ps"
    using assms by (auto simp: check_request_fields_def rbind_eq_Inr)
  show "wf_account (sq_account q)" using a by (auto simp: wf_account_def AccountSnapshot_def rbind_eq_Inr split: if_splits)
  show "RiskLimits (sq_risk q) = Inr (sq_risk q)" using r by (auto simp: RiskLimits_def split: if_splits)
  assume "p \<in> set (sq_proposals q)"
  then obtain l where "OutcomeLabel (pr_outcome p) = Inr l"
    using ps by (auto simp: map_res_Inr_iff rbind_eq_Inr list_all2_conv_all_nth in_set_conv_nth)
  then show "OutcomeLabel (pr_outcome p) = Inr (pr_outcome p)" using OutcomeLabel_Inr(1) by blast
qed

lemma OutcomeLabel_quantity: "OutcomeLabel l = Inr l' \<Longrightarrow> 1 \<le> ol_order_quantity l"
  by (simp add: OutcomeLabel_def split: if_splits)

lemma SimulationRequest_wf:
  assumes "SimulationRequest V z q = Inr q'"
  shows "wf_simulation V q"
proof -
  note f = SimulationRequest_Inr [OF assms] and g = check_request_fields_Inr [OF SimulationRequest_Inr(2) [OF assms]]
  have risk: "1 \<le> rk_max_cycles_per_day (sq_risk q)" using g(2) by (simp add: RiskLimits_def split: if_splits)
  have each: "initial_position q (proposal_symbol p) \<noteq> None \<and> ol_entry_at (pr_outcome p) < ol_horizon_at (pr_outcome p) \<and>
      ca_priority (pr_arbitration p) \<noteq> None \<and> 1 \<le> ol_order_quantity (pr_outcome p)" if p: "p \<in> set (sq_proposals q)" for p
  proof (intro conjI)
    show "initial_position q (proposal_symbol p) \<noteq> None"
      using f(4) p by (auto simp: list_all_iff inside_day_def initial_position_def keyed_None)
    show "ol_entry_at (pr_outcome p) < ol_horizon_at (pr_outcome p)" using OutcomeLabel_Inr(2) [OF g(3) [OF p]] .
    show "ca_priority (pr_arbitration p) \<noteq> None"
      using f(5) p by (auto simp: map_res_Inr_iff list_all2_conv_all_nth in_set_conv_nth proposal_priority_def split: option.splits)
    show "1 \<le> ol_order_quantity (pr_outcome p)" using OutcomeLabel_quantity [OF g(3) [OF p]] .
  qed
  show ?thesis using f(3) g(1) risk each by (simp add: wf_simulation_def)
qed

lemma wf_simulation_injective:
  assumes "wf_simulation V q" "p \<in> set (sq_proposals q)" "p' \<in> set (sq_proposals q)" "cycle_id V p = cycle_id V p'"
  shows "p = p'"
  using assms by (auto simp: wf_simulation_def dest: sorted_distinct_key_unique)

definition open_quantity :: "sim_state \<Rightarrow> string \<Rightarrow> int" where
  "open_quantity s symbol = (case sm_open_by_symbol s symbol of None \<Rightarrow> 0 | Some c \<Rightarrow> ol_order_quantity (pr_outcome (oc_proposal c)))"

text \<open>Settled quantity never falls below the core; what was bought and not yet sold out of settled is an open cycle.\<close>

definition sound_position :: "account_position option \<Rightarrow> sim_position option \<Rightarrow> int \<Rightarrow> bool" where
  "sound_position account position busy \<longleftrightarrow> (case (account, position) of
     (None, None) \<Rightarrow> True
   | (Some a, Some x) \<Rightarrow> ap_core_min_qty a \<le> sp_settled x \<and> 0 \<le> sp_bought_today x \<and> sp_t1 x = ap_t1_qty a \<and> sp_t2 x = ap_t2_qty a \<and>
       sp_settled x + sp_bought_today x = ap_settled_qty a + busy
   | _ \<Rightarrow> False)"

definition within_limits :: "simulation_request \<Rightarrow> int \<Rightarrow> decimal \<Rightarrow> bool" where
  "within_limits q quantity price \<longleftrightarrow> quantity mod sq_lot_size q = 0 \<and> 1 \<le> quantity \<and> quantity \<le> rk_max_cycle_quantity (sq_risk q) \<and>
     dmul price (of_int quantity) \<le> rk_max_order_notional_vnd (sq_risk q)"

definition sound_open :: "simulation_request \<Rightarrow> string \<Rightarrow> open_cycle \<Rightarrow> bool" where
  "sound_open q symbol c \<longleftrightarrow> oc_proposal c \<in> set (sq_proposals q) \<and> proposal_symbol (oc_proposal c) = symbol \<and>
     within_limits q (ol_order_quantity (pr_outcome (oc_proposal c))) (sx_price (oc_entry c))"

definition sound_result :: "simulation_request \<Rightarrow> cycle_result \<Rightarrow> bool" where
  "sound_result q r \<longleftrightarrow> (cr_status r \<noteq> REJECTED_CYCLE \<longrightarrow> (\<exists>price. cr_entry_price r = Some price \<and> within_limits q (cr_quantity r) price))"

definition own_open :: "sim_state \<Rightarrow> cycle_proposal \<Rightarrow> bool" where
  "own_open s p \<longleftrightarrow> (\<exists>c. sm_open_by_symbol s (proposal_symbol p) = Some c \<and> oc_proposal c = p)"

definition taken :: "simulation_env \<Rightarrow> sim_state \<Rightarrow> cycle_proposal \<Rightarrow> bool" where
  "taken V s p \<longleftrightarrow> (\<exists>r. sm_results s (cycle_id V p) = Some r \<and> cr_status r \<noteq> REJECTED_CYCLE) \<or> own_open s p"

definition sim_inv :: "simulation_env \<Rightarrow> simulation_request \<Rightarrow> sim_state \<Rightarrow> bool" where
  "sim_inv V q s \<longleftrightarrow> wf_simulation V q \<and>
     (\<forall>symbol. sound_position (initial_position q symbol) (sm_positions s symbol) (open_quantity s symbol)) \<and>
     (\<forall>symbol c. sm_open_by_symbol s symbol = Some c \<longrightarrow> sound_open q symbol c) \<and>
     (\<forall>i r. sm_results s i = Some r \<longrightarrow> sound_result q r) \<and>
     int (length (filter (taken V s) (sq_proposals q))) \<le> sm_started s \<and> sm_started s \<le> rk_max_cycles_per_day (sq_risk q)"

definition event_proposal :: "cycle_event \<Rightarrow> cycle_proposal" where
  "event_proposal e = snd (snd (snd e))"

lemma length_filter_imp:
  "(\<And>x. x \<in> set xs \<Longrightarrow> Q x \<Longrightarrow> P x) \<Longrightarrow> length (filter Q xs) \<le> length (filter P xs)"
  by (induction xs) (auto simp: le_SucI)

lemma length_filter_one_more:
  assumes "distinct xs" "\<And>x. x \<in> set xs \<Longrightarrow> Q x \<Longrightarrow> P x \<or> x = a"
  shows "length (filter Q xs) \<le> Suc (length (filter P xs))"
proof -
  have "length (filter Q xs) \<le> length (filter (\<lambda>x. P x \<or> x = a) xs)" using assms(2) by (rule length_filter_imp)
  also have "\<dots> \<le> Suc (length (filter P xs))"
    using assms(1) by (induction xs) (auto simp: le_SucI intro: length_filter_imp)
  finally show ?thesis .
qed

lemma entry_rejection_None:
  assumes "entry_rejection q s position core p = None"
  shows "sm_open_by_symbol s (proposal_symbol p) = None" "ol_order_quantity (pr_outcome p) mod sq_lot_size q = 0"
    "ol_order_quantity (pr_outcome p) \<le> rk_max_cycle_quantity (sq_risk q)" "sm_started s < rk_max_cycles_per_day (sq_risk q)"
    "core \<le> sp_settled position - ol_order_quantity (pr_outcome p)" "ol_entry_vwap (pr_outcome p) \<noteq> None"
  using assms by (auto simp: entry_rejection_def Let_def split: if_splits)

lemma simulated_notional:
  "sx_notional (simulated_execution q book side quantity) = dmul (sx_price (simulated_execution q book side quantity)) (of_int quantity)"
  by (simp add: simulated_execution_def Let_def)

lemma sim_invD:
  assumes "sim_inv V q s"
  shows "wf_simulation V q" "sound_position (initial_position q symbol) (sm_positions s symbol) (open_quantity s symbol)"
    "sm_open_by_symbol s symbol = Some c \<Longrightarrow> sound_open q symbol c" "sm_results s i = Some r \<Longrightarrow> sound_result q r"
    "int (length (filter (taken V s) (sq_proposals q))) \<le> sm_started s" "sm_started s \<le> rk_max_cycles_per_day (sq_risk q)"
  using assms by (auto simp: sim_inv_def)

text \<open>A cycle id names its proposal, so an open cycle with the id of an event's proposal is that proposal's own.\<close>

lemma sim_inv_own:
  assumes "sim_inv V q s" "p \<in> set (sq_proposals q)" "sm_open_by_symbol s (proposal_symbol p) = Some c"
    "cycle_id V (oc_proposal c) = cycle_id V p"
  shows "oc_proposal c = p"
  using sim_invD(1,3) [OF assms(1)] assms(2-4) by (auto simp: sound_open_def dest: wf_simulation_injective)

lemmas effect_state_simps = open_entry_def close_cycle_def open_quantity_def

lemma effect_positions:
  assumes "cycle_effect V q s e s'" "sim_inv V q s" "event_proposal e \<in> set (sq_proposals q)"
  shows "sound_position (initial_position q symbol) (sm_positions s' symbol) (open_quantity s' symbol)"
  using assms(1)
proof cases
  case (opened p position account book entry draw interest t n)
  have "1 \<le> ol_order_quantity (pr_outcome p)"
    using sim_invD(1) [OF assms(2)] assms(3) opened by (auto simp: wf_simulation_def event_proposal_def)
  then show ?thesis
    using sim_invD(2) [OF assms(2), of symbol] opened entry_rejection_None(1) [OF opened(5)]
    by (auto simp: effect_state_simps sound_position_def)
next
  case (closed p c position account book exit r net t n)
  have "oc_proposal c = p" using sim_inv_own [OF assms(2) _ closed(3,4)] assms(3) closed(1) by (simp add: event_proposal_def)
  then show ?thesis
    using sim_invD(2) [OF assms(2), of symbol] closed by (auto simp: effect_state_simps sound_position_def)
qed (use sim_invD(2) [OF assms(2), of symbol] in \<open>simp_all add: open_quantity_def\<close>)

lemma effect_open:
  assumes "cycle_effect V q s e s'" "sim_inv V q s" "event_proposal e \<in> set (sq_proposals q)" "sm_open_by_symbol s' symbol = Some c"
  shows "sound_open q symbol c"
  using assms(1)
proof cases
  case (opened p position account book entry draw interest t n)
  have p: "p \<in> set (sq_proposals q)" using assms(3) opened by (simp add: event_proposal_def)
  then have "within_limits q (ol_order_quantity (pr_outcome p)) (sx_price entry)"
    using sim_invD(1) [OF assms(2)] entry_rejection_None [OF opened(5)] opened(7,8)
    by (auto simp: within_limits_def simulated_notional [symmetric] wf_simulation_def)
  then show ?thesis using sim_invD(3) [OF assms(2), of symbol c] assms(4) p opened
    by (auto simp: open_entry_def sound_open_def split: if_splits)
next
  case closed
  then show ?thesis using sim_invD(3) [OF assms(2), of symbol c] assms(4) by (auto simp: close_cycle_def split: if_splits)
qed (use sim_invD(3) [OF assms(2), of symbol c] assms(4) in simp_all)

lemma effect_results:
  assumes "cycle_effect V q s e s'" "sim_inv V q s" "event_proposal e \<in> set (sq_proposals q)" "sm_results s' i = Some r"
  shows "sound_result q r"
proof -
  have priced: "sound_result q x" if "sm_open_by_symbol s (proposal_symbol p) = Some c" "cycle_id V (oc_proposal c) = cycle_id V p"
    "p \<in> set (sq_proposals q)" "make_result V p status reason (Some (oc_entry c)) exit = Inr x" for p c status reason exit x
  proof -
    have "oc_proposal c = p" using sim_inv_own [OF assms(2) that(3,1,2)] .
    then show ?thesis using sim_invD(3) [OF assms(2) that(1)] make_result_fields [OF that(4)]
      by (auto simp: sound_open_def sound_result_def)
  qed
  note old = sim_invD(4) [OF assms(2), of i r]
  from assms(1) show ?thesis
  proof cases
    case (rejected p reason x t n)
    then show ?thesis using old assms(4) make_result_fields(4) [OF rejected(3)] by (auto simp: sound_result_def split: if_splits)
  next
    case (stuck p c reason x t n)
    then show ?thesis using old assms(3,4) priced [OF stuck(3,4) _ stuck(5)] by (auto simp: event_proposal_def split: if_splits)
  next
    case (closed p c position account book exit x net t n)
    then show ?thesis using old assms(3,4) priced [OF closed(3,4) _ closed(10)]
      by (auto simp: event_proposal_def close_cycle_def split: if_splits)
  qed (use old assms(4) in \<open>simp_all add: open_entry_def\<close>)
qed

lemma own_open_injective:
  "own_open s p \<Longrightarrow> sm_open_by_symbol s (proposal_symbol p) = Some c \<Longrightarrow> oc_proposal c = p"
  by (auto simp: own_open_def)

lemma effect_taken:
  assumes "cycle_effect V q s e s'" "sim_inv V q s" "event_proposal e \<in> set (sq_proposals q)" "p \<in> set (sq_proposals q)"
    "taken V s' p"
  shows "taken V s p \<or> (sm_started s' = sm_started s + 1 \<and> p = event_proposal e)"
proof -
  note inj = wf_simulation_injective [OF sim_invD(1) [OF assms(2)] assms(4)]
  from assms(1) show ?thesis
  proof cases
    case (rejected p' reason r t n)
    then show ?thesis using assms(5) make_result_fields(4) [OF rejected(3)] by (auto simp: taken_def own_open_def split: if_splits)
  next
    case (opened p' position account book entry draw interest t n)
    then show ?thesis using assms(5) by (auto simp: taken_def own_open_def open_entry_def event_proposal_def split: if_splits)
  next
    case (stuck p' c reason r t n)
    then have p': "p' \<in> set (sq_proposals q)" using assms(3) by (simp add: event_proposal_def)
    then have "own_open s p'" using sim_inv_own [OF assms(2) p' stuck(3,4)] stuck(3) by (simp add: own_open_def)
    then show ?thesis using assms(5) stuck inj [OF p'] by (auto simp: taken_def own_open_def split: if_splits)
  next
    case (closed p' c position account book exit r net t n)
    then have p': "p' \<in> set (sq_proposals q)" using assms(3) by (simp add: event_proposal_def)
    then have "own_open s p'" using sim_inv_own [OF assms(2) p' closed(3,4)] closed(3) by (simp add: own_open_def)
    then show ?thesis using assms(5) closed inj [OF p'] by (auto simp: taken_def own_open_def close_cycle_def split: if_splits)
  qed (use assms(5) in simp)
qed

lemma effect_started:
  assumes "cycle_effect V q s e s'" "sim_inv V q s"
  shows "sm_started s \<le> sm_started s'" "sm_started s' \<le> rk_max_cycles_per_day (sq_risk q)"
  using assms(1) sim_invD(6) [OF assms(2)]
  by (cases, auto simp: open_entry_def close_cycle_def dest: entry_rejection_None)+

lemma effect_started_steps: "cycle_effect V q s e s' \<Longrightarrow> sm_started s' = sm_started s \<or> sm_started s' = sm_started s + 1"
  by (erule cycle_effect.cases) (auto simp: open_entry_def close_cycle_def)

lemma effect_count:
  assumes "cycle_effect V q s e s'" "sim_inv V q s" "event_proposal e \<in> set (sq_proposals q)"
  shows "int (length (filter (taken V s') (sq_proposals q))) \<le> sm_started s'"
proof -
  have distinct: "distinct (sq_proposals q)" using sim_invD(1) [OF assms(2)] by (simp add: wf_simulation_def distinct_map)
  consider "sm_started s' = sm_started s" | "sm_started s' = sm_started s + 1" using effect_started_steps [OF assms(1)] by blast
  then show ?thesis
  proof cases
    case 1
    then have "length (filter (taken V s') (sq_proposals q)) \<le> length (filter (taken V s) (sq_proposals q))"
      using effect_taken [OF assms] by (intro length_filter_imp) auto
    then show ?thesis using 1 sim_invD(5) [OF assms(2)] by linarith
  next
    case 2
    have "length (filter (taken V s') (sq_proposals q)) \<le> Suc (length (filter (taken V s) (sq_proposals q)))"
      using effect_taken [OF assms] by (intro length_filter_one_more [OF distinct, where a = "event_proposal e"]) auto
    then show ?thesis using 2 sim_invD(5) [OF assms(2)] by linarith
  qed
qed

lemma effect_sim_inv:
  assumes "cycle_effect V q s e s'" "sim_inv V q s" "event_proposal e \<in> set (sq_proposals q)"
  shows "sim_inv V q s'"
  using effect_positions [OF assms] effect_open [OF assms] effect_results [OF assms] effect_count [OF assms]
    effect_started(2) [OF assms(1,2)] sim_invD(1) [OF assms(2)]
  by (simp add: sim_inv_def)

interpretation simulation: guarded_machine "simulation_step V q" "sim_inv V q" "\<lambda>e. event_proposal e \<in> set (sq_proposals q)"
  by unfold_locales (rule effect_sim_inv [OF simulation_step_effect])

lemma initial_sim_inv:
  assumes "wf_simulation V q"
  shows "sim_inv V q (initial_sim_state q)"
proof -
  have "sound_position (initial_position q symbol) (sm_positions (initial_sim_state q) symbol) (open_quantity (initial_sim_state q) symbol)"
    for symbol
  proof (cases "initial_position q symbol")
    case (Some a)
    then have "a \<in> set (ac_positions (sq_account q))" by (auto simp: initial_position_def dest: keyed_Some)
    then have "ap_core_min_qty a \<le> ap_settled_qty a" using assms wf_accountD(5) by (auto simp: wf_simulation_def)
    then show ?thesis using Some by (simp add: sound_position_def initial_sim_state_def open_quantity_def)
  qed (simp add: sound_position_def initial_sim_state_def)
  moreover have "filter (taken V (initial_sim_state q)) (sq_proposals q) = []"
    by (simp add: filter_empty_conv taken_def own_open_def initial_sim_state_def)
  ultimately show ?thesis using assms by (simp add: sim_inv_def initial_sim_state_def wf_simulation_def)
qed

section \<open>The schedule\<close>

text \<open>Every event belongs to a proposal of the request, and an exit comes after the entry of its proposal.\<close>

definition event_of :: "cycle_event \<Rightarrow> cycle_phase \<times> cycle_proposal" where
  "event_of e = (fst (snd e), event_proposal e)"

definition proposal_schedule :: "cycle_proposal \<Rightarrow> cycle_event list" where
  "proposal_schedule p = (let n = the (ca_priority (pr_arbitration p)) in
     [(ol_entry_at (pr_outcome p), ENTRY_PHASE, n, p), (ol_horizon_at (pr_outcome p), EXIT_PHASE, n, p)])"

lemma proposal_events_schedule:
  "ca_priority (pr_arbitration p) \<noteq> None \<Longrightarrow> proposal_events p = Inr (proposal_schedule p)"
  by (auto simp: proposal_events_def proposal_priority_def proposal_schedule_def)

lemma simulation_events_eq:
  assumes "wf_simulation V q"
  shows "simulation_events q = Inr (sort_key event_key (concat (map proposal_schedule (sq_proposals q))))"
proof -
  have "map_res proposal_events (sq_proposals q) = Inr (map proposal_schedule (sq_proposals q))"
    using assms by (intro map_res_total proposal_events_schedule) (simp add: wf_simulation_def)
  then show ?thesis by (simp add: simulation_events_def)
qed

lemma schedule_events:
  "map event_of (concat (map proposal_schedule ps)) = concat (map (\<lambda>p. [(ENTRY_PHASE, p), (EXIT_PHASE, p)]) ps)"
  by (induction ps) (auto simp: proposal_schedule_def event_of_def event_proposal_def Let_def)

lemma distinct_schedule: "distinct ps \<Longrightarrow> distinct (map event_of (concat (map proposal_schedule ps)))"
  unfolding schedule_events by (induction ps) auto

text \<open>An entry key is below its exit key, so in the sorted events the entry has been processed when the exit comes.\<close>

lemma sorted_event_before:
  assumes "map key es = ks" "sorted ks" "es = earlier @ e # rest" "a \<in> set es" "key a < key e"
  shows "a \<in> set earlier"
proof -
  have "key e \<le> key x" if "x \<in> set (e # rest)" for x
    using assms(1-3) that by (auto simp: sorted_append)
  then show ?thesis using assms(3-5) by (auto simp: leD)
qed

definition sim_events :: "simulation_request \<Rightarrow> cycle_event list" where
  "sim_events q = sort_key event_key (concat (map proposal_schedule (sq_proposals q)))"

lemma sim_events_facts:
  assumes "wf_simulation V q"
  shows "distinct (map event_of (sim_events q))"
    "e \<in> set (sim_events q) \<Longrightarrow> event_proposal e \<in> set (sq_proposals q)"
    "event_of ` set (sim_events q) = {ENTRY_PHASE, EXIT_PHASE} \<times> set (sq_proposals q)"
    "sim_events q = earlier @ e # rest \<Longrightarrow> fst (event_of e) = EXIT_PHASE \<Longrightarrow> (ENTRY_PHASE, event_proposal e) \<in> event_of ` set earlier"
proof -
  have "distinct (sq_proposals q)" using assms by (simp add: wf_simulation_def distinct_map)
  then show "distinct (map event_of (sim_events q))" unfolding sim_events_def using distinct_schedule by simp
  have members: "set (sim_events q) = (\<Union>p \<in> set (sq_proposals q). set (proposal_schedule p))" by (simp add: sim_events_def)
  show "e \<in> set (sim_events q) \<Longrightarrow> event_proposal e \<in> set (sq_proposals q)"
    by (auto simp: members proposal_schedule_def event_proposal_def Let_def)
  show "event_of ` set (sim_events q) = {ENTRY_PHASE, EXIT_PHASE} \<times> set (sq_proposals q)"
    unfolding members by (force simp: proposal_schedule_def event_of_def event_proposal_def Let_def)
  assume split: "sim_events q = earlier @ e # rest" and exit: "fst (event_of e) = EXIT_PHASE"
  then have "e \<in> set (sim_events q)" by simp
  then obtain p where p: "p \<in> set (sq_proposals q)" "e \<in> set (proposal_schedule p)" unfolding members by blast
  define n where "n = the (ca_priority (pr_arbitration p))"
  have e: "e = (ol_horizon_at (pr_outcome p), EXIT_PHASE, n, p)"
    using p(2) exit by (auto simp: proposal_schedule_def n_def Let_def event_of_def)
  let ?a = "(ol_entry_at (pr_outcome p), ENTRY_PHASE, n, p)"
  have "?a \<in> set (sim_events q)" using p(1) by (auto simp: members proposal_schedule_def n_def Let_def)
  moreover have "event_key ?a < event_key e" using assms p(1) by (simp add: e wf_simulation_def)
  moreover have "sorted (map event_key (sim_events q))" by (simp add: sim_events_def)
  ultimately have "?a \<in> set earlier" using sorted_event_before [OF refl _ split] by blast
  then have "event_of ?a \<in> event_of ` set earlier" by (rule imageI)
  then show "(ENTRY_PHASE, event_proposal e) \<in> event_of ` set earlier" by (simp add: e event_of_def event_proposal_def)
qed

section \<open>Every proposal gets one result\<close>

definition proper_digests :: "simulation_env \<Rightarrow> bool" where
  "proper_digests V \<longleftrightarrow> (\<forall>a. is_sha256 (sv_arbitration_sha256 V a)) \<and> (\<forall>l. is_sha256 (sv_outcome_sha256 V l))"

lemma make_result_returns:
  assumes "proper_digests V" "1 \<le> ol_order_quantity (pr_outcome p)" "status = CLOSED_CYCLE \<longrightarrow> entry \<noteq> None \<and> exit \<noteq> None"
  shows "\<exists>r. make_result V p status reason entry exit = Inr r \<and> (status = CLOSED_CYCLE \<longrightarrow> cr_net_pnl_vnd r \<noteq> None)"
  using assms
  by (auto simp: make_result_def closed_pnl_def CycleResult_def proper_digests_def cycle_id_def Let_def rbind_def)

lemma put_result_returns:
  assumes "proper_digests V" "1 \<le> ol_order_quantity (pr_outcome p)" "status \<noteq> CLOSED_CYCLE"
  shows "\<exists>s'. put_result V s p status reason entry exit = Inr s'"
  using make_result_returns [OF assms(1,2), of status entry exit reason] assms(3) by (auto simp: put_result_def)

lemma enter_cycle_returns:
  assumes "proper_digests V" "1 \<le> ol_order_quantity (pr_outcome p)"
  shows "\<exists>s'. enter_cycle V q s position core p = Inr s'"
proof (cases "entry_rejection q s position core p")
  case None
  then obtain book where "ol_entry_vwap (pr_outcome p) = Some book" using entry_rejection_None(6) by blast
  then show ?thesis using None put_result_returns [OF assms] by (auto simp: enter_cycle_def Let_def split: option.splits)
qed (use put_result_returns [OF assms] in \<open>simp add: enter_cycle_def\<close>)

lemma exit_cycle_returns:
  assumes "proper_digests V" "1 \<le> ol_order_quantity (pr_outcome p)"
  shows "\<exists>s'. exit_cycle V q s position core p = Inr s'"
proof -
  have closing: "\<exists>s'. rbind (make_result V p CLOSED_CYCLE None (Some a) (Some b)) (\<lambda>r. case cr_net_pnl_vnd r of
      None \<Rightarrow> Inl (ValueError m) | Some net \<Rightarrow> Inr (f r net)) = Inr s'" for a b m and f :: "cycle_result \<Rightarrow> decimal \<Rightarrow> sim_state"
    using make_result_returns [OF assms, of CLOSED_CYCLE "Some a" "Some b" None] by auto
  show ?thesis
    using put_result_returns [OF assms, of OPEN_CYCLE] closing
    by (simp add: exit_cycle_def Let_def split: option.split)
qed

lemma simulation_step_returns:
  assumes "proper_digests V" "sim_inv V q s" "event_proposal e \<in> set (sq_proposals q)"
  shows "\<exists>s'. simulation_step V q s e = Inr s'"
proof -
  obtain t phase n p where e: "e = (t, phase, n, p)" by (rule prod_cases4)
  then have p: "1 \<le> ol_order_quantity (pr_outcome p)" "initial_position q (proposal_symbol p) \<noteq> None"
    using sim_invD(1) [OF assms(2)] assms(3) by (auto simp: wf_simulation_def event_proposal_def)
  then obtain a x where "initial_position q (proposal_symbol p) = Some a" "sm_positions s (proposal_symbol p) = Some x"
    using sim_invD(2) [OF assms(2), of "proposal_symbol p"] by (auto simp: sound_position_def split: option.splits)
  then show ?thesis unfolding e using enter_cycle_returns [OF assms(1) p(1)] exit_cycle_returns [OF assms(1) p(1)] by simp
qed

text \<open>
  The progress of the loop on one proposal, after a set of events: it has an open cycle of its own or a result once its
  entry has been processed, and a result once its exit has.
\<close>

definition cycle_progress :: "simulation_env \<Rightarrow> (cycle_phase \<times> cycle_proposal) set \<Rightarrow> sim_state \<Rightarrow> cycle_proposal \<Rightarrow> bool" where
  "cycle_progress V finished s p \<longleftrightarrow>
     (case sm_results s (cycle_id V p) of
        None \<Rightarrow> (EXIT_PHASE, p) \<notin> finished \<and> (own_open s p \<longleftrightarrow> (ENTRY_PHASE, p) \<in> finished)
      | Some r \<Rightarrow> (ENTRY_PHASE, p) \<in> finished \<and> cr_cycle_id r = cycle_id V p \<and> (cr_status r = OPEN_CYCLE \<longleftrightarrow> own_open s p))"

text \<open>An event leaves the other proposals alone.\<close>

lemma effect_other:
  assumes "cycle_effect V q s e s'" "sim_inv V q s" "event_proposal e \<in> set (sq_proposals q)" "p \<in> set (sq_proposals q)"
    "p \<noteq> event_proposal e"
  shows "sm_results s' (cycle_id V p) = sm_results s (cycle_id V p)" "own_open s' p = own_open s p"
proof -
  have id: "cycle_id V p \<noteq> cycle_id V (event_proposal e)"
    using wf_simulation_injective [OF sim_invD(1) [OF assms(2)] assms(4,3)] assms(5) by blast
  show "sm_results s' (cycle_id V p) = sm_results s (cycle_id V p)"
    using assms(1) id by cases (auto simp: event_proposal_def open_entry_def)
  show "own_open s' p = own_open s p"
    using assms(1)
  proof cases
    case (opened p' position account book entry draw interest t n)
    then show ?thesis using entry_rejection_None(1) [OF opened(5)] assms(5)
      by (auto simp: own_open_def open_entry_def event_proposal_def)
  next
    case (closed p' c position account book exit r net t n)
    have "oc_proposal c = p'" using sim_inv_own [OF assms(2) _ closed(3,4)] assms(3) closed(1) by (simp add: event_proposal_def)
    then show ?thesis using closed assms(5) by (auto simp: own_open_def close_cycle_def event_proposal_def)
  qed (simp_all add: own_open_def)
qed

text \<open>What an event does to its own proposal.\<close>

lemma effect_own:
  assumes "cycle_effect V q s e s'" "sim_inv V q s" "event_proposal e \<in> set (sq_proposals q)" "event_of e \<notin> finished"
    "fst (event_of e) = EXIT_PHASE \<Longrightarrow> (ENTRY_PHASE, event_proposal e) \<in> finished"
    "cycle_progress V finished s (event_proposal e)"
  shows "cycle_progress V (insert (event_of e) finished) s' (event_proposal e)"
  using assms(1)
proof cases
  case (rejected p reason r t n)
  have new: "(ENTRY_PHASE, p) \<notin> finished" "event_proposal e = p" "event_of e = (ENTRY_PHASE, p)"
    using assms(4) rejected(1) by (simp_all add: event_of_def event_proposal_def)
  then have "\<not> own_open s p" using assms(6) by (auto simp: cycle_progress_def split: option.splits)
  then show ?thesis using rejected make_result_fields(1,4) [OF rejected(3)] new by (simp add: cycle_progress_def own_open_def)
next
  case (opened p position account book entry draw interest t n)
  have new: "(ENTRY_PHASE, p) \<notin> finished" "event_proposal e = p" "event_of e = (ENTRY_PHASE, p)"
    using assms(4) opened(1) by (simp_all add: event_of_def event_proposal_def)
  then have "sm_results s (cycle_id V p) = None" "(EXIT_PHASE, p) \<notin> finished"
    using assms(6) by (auto simp: cycle_progress_def split: option.splits)
  then show ?thesis using opened(2) new by (simp add: cycle_progress_def own_open_def open_entry_def)
next
  case (ignored p t n)
  have new: "(ENTRY_PHASE, p) \<in> finished" "event_proposal e = p" "event_of e = (EXIT_PHASE, p)"
    using assms(5) ignored(1) by (simp_all add: event_of_def event_proposal_def)
  have "\<not> own_open s p" using ignored(3) by (auto simp: own_open_def)
  then show ?thesis using ignored(2) new assms(6) by (auto simp: cycle_progress_def split: option.splits)
next
  case (stuck p c reason r t n)
  have new: "(ENTRY_PHASE, p) \<in> finished" "event_proposal e = p" "event_of e = (EXIT_PHASE, p)"
    using assms(5) stuck(1) by (simp_all add: event_of_def event_proposal_def)
  have "oc_proposal c = p" using sim_inv_own [OF assms(2) _ stuck(3,4)] assms(3) new(2) by simp
  then show ?thesis using stuck new make_result_fields(1,4) [OF stuck(5)] by (simp add: cycle_progress_def own_open_def)
next
  case (closed p c position account book exit r net t n)
  have new: "(ENTRY_PHASE, p) \<in> finished" "event_proposal e = p" "event_of e = (EXIT_PHASE, p)"
    using assms(5) closed(1) by (simp_all add: event_of_def event_proposal_def)
  then show ?thesis using closed make_result_fields(1,4) [OF closed(10)]
    by (simp add: cycle_progress_def own_open_def close_cycle_def)
qed

lemma effect_progress:
  assumes "cycle_effect V q s e s'" "sim_inv V q s" "event_proposal e \<in> set (sq_proposals q)" "event_of e \<notin> finished"
    "fst (event_of e) = EXIT_PHASE \<Longrightarrow> (ENTRY_PHASE, event_proposal e) \<in> finished"
    "\<forall>p \<in> set (sq_proposals q). cycle_progress V finished s p"
  shows "\<forall>p \<in> set (sq_proposals q). cycle_progress V (insert (event_of e) finished) s' p"
proof
  fix p assume p: "p \<in> set (sq_proposals q)"
  show "cycle_progress V (insert (event_of e) finished) s' p"
  proof (cases "p = event_proposal e")
    case True
    then show ?thesis using effect_own [OF assms(1-5)] assms(6) p by blast
  next
    case False
    then show ?thesis using effect_other [OF assms(1-3) p False] assms(6) p
      by (auto simp: cycle_progress_def event_of_def split: option.splits)
  qed
qed

text \<open>The loop always returns, and every proposal is finished at its end.\<close>

lemma simulation_loop:
  assumes "proper_digests V" "sim_inv V q s" "sim_events q = earlier @ rest"
    "\<forall>p \<in> set (sq_proposals q). cycle_progress V (event_of ` set earlier) s p" "P (length earlier) s"
    and keep: "\<And>before_e e after_e s s'. sim_events q = before_e @ e # after_e \<Longrightarrow> sim_inv V q s \<Longrightarrow>
      event_proposal e \<in> set (sq_proposals q) \<Longrightarrow> event_of e \<notin> event_of ` set before_e \<Longrightarrow>
      \<forall>p \<in> set (sq_proposals q). cycle_progress V (event_of ` set before_e) s p \<Longrightarrow> P (length before_e) s \<Longrightarrow>
      cycle_effect V q s e s' \<Longrightarrow> P (Suc (length before_e)) s'"
  shows "\<exists>s'. run_res (simulation_step V q) s rest = Inr s' \<and> sim_inv V q s' \<and>
    (\<forall>p \<in> set (sq_proposals q). cycle_progress V (event_of ` set (sim_events q)) s' p) \<and> P (length (sim_events q)) s'"
  using assms(2-5)
proof (induction rest arbitrary: s earlier)
  case (Cons e rest)
  note facts = sim_events_facts [OF sim_invD(1) [OF Cons.prems(1)]]
  have e: "event_proposal e \<in> set (sq_proposals q)" using facts(2) Cons.prems(2) by simp
  obtain s1 where s1: "simulation_step V q s e = Inr s1" using simulation_step_returns [OF assms(1) Cons.prems(1) e] by blast
  note effect = simulation_step_effect [OF s1]
  have new: "event_of e \<notin> event_of ` set earlier" using facts(1) Cons.prems(2) by auto
  have "\<forall>p \<in> set (sq_proposals q). cycle_progress V (insert (event_of e) (event_of ` set earlier)) s1 p"
    using effect Cons.prems(1) e new facts(4) [OF Cons.prems(2)] Cons.prems(3) by (rule effect_progress)
  then have "\<forall>p \<in> set (sq_proposals q). cycle_progress V (event_of ` set (earlier @ [e])) s1 p" by simp
  moreover have "sim_inv V q s1" using effect Cons.prems(1) e by (rule effect_sim_inv)
  moreover have "sim_events q = (earlier @ [e]) @ rest" using Cons.prems(2) by simp
  moreover have "P (length (earlier @ [e])) s1" using keep [OF Cons.prems(2,1) e new Cons.prems(3,4) effect] by simp
  ultimately show ?case using Cons.IH s1 by simp
qed auto

lemma run_simulation_invariant:
  assumes "proper_digests V" "wf_simulation V q" "P 0 (initial_sim_state q)"
    and keep: "\<And>before_e e after_e s s'. sim_events q = before_e @ e # after_e \<Longrightarrow> sim_inv V q s \<Longrightarrow>
      event_proposal e \<in> set (sq_proposals q) \<Longrightarrow> event_of e \<notin> event_of ` set before_e \<Longrightarrow>
      \<forall>p \<in> set (sq_proposals q). cycle_progress V (event_of ` set before_e) s p \<Longrightarrow> P (length before_e) s \<Longrightarrow>
      cycle_effect V q s e s' \<Longrightarrow> P (Suc (length before_e)) s'"
  obtains s where "run_simulation V q = Inr s" "sim_inv V q s"
    "\<And>p. p \<in> set (sq_proposals q) \<Longrightarrow> \<exists>r. sm_results s (cycle_id V p) = Some r \<and> cr_cycle_id r = cycle_id V p \<and>
       (cr_status r = OPEN_CYCLE \<longleftrightarrow> own_open s p)" "P (length (sim_events q)) s"
proof -
  have "\<forall>p \<in> set (sq_proposals q). cycle_progress V (event_of ` set []) (initial_sim_state q) p"
    by (simp add: cycle_progress_def initial_sim_state_def own_open_def)
  then obtain s where s: "run_res (simulation_step V q) (initial_sim_state q) (sim_events q) = Inr s" "sim_inv V q s" "P (length (sim_events q)) s"
    and finished: "\<forall>p \<in> set (sq_proposals q). cycle_progress V (event_of ` set (sim_events q)) s p"
    using simulation_loop [OF assms(1) initial_sim_inv [OF assms(2)], of "[]" "sim_events q" P] keep assms(3) by auto
  have "run_simulation V q = Inr s"
    using s(1) simulation_events_eq [OF assms(2)] by (simp add: run_simulation_def sim_events_def)
  moreover have "\<exists>r. sm_results s (cycle_id V p) = Some r \<and> cr_cycle_id r = cycle_id V p \<and> (cr_status r = OPEN_CYCLE \<longleftrightarrow> own_open s p)"
    if "p \<in> set (sq_proposals q)" for p
    using finished that unfolding sim_events_facts(3) [OF assms(2)] by (auto simp: cycle_progress_def split: option.splits)
  ultimately show ?thesis using s(2,3) that by blast
qed

lemma run_simulation_returns:
  assumes "proper_digests V" "wf_simulation V q"
  obtains s where "run_simulation V q = Inr s" "sim_inv V q s"
    "\<And>p. p \<in> set (sq_proposals q) \<Longrightarrow> \<exists>r. sm_results s (cycle_id V p) = Some r \<and> cr_cycle_id r = cycle_id V p \<and>
       (cr_status r = OPEN_CYCLE \<longleftrightarrow> own_open s p)"
  by (rule run_simulation_invariant [OF assms, where P = "\<lambda>_ _. True"]) blast+

section \<open>The report of a run\<close>

lemma length_filter_sort_key: "length (filter P (sort_key f xs)) = length (filter P xs)"
proof -
  have "mset (filter P (sort_key f xs)) = mset (filter P xs)" by simp
  then show ?thesis by (metis size_mset)
qed

definition result_order :: "cycle_proposal \<Rightarrow> instant \<times> nat" where
  "result_order p = (ol_entry_at (pr_outcome p), the (ca_priority (pr_arbitration p)))"

lemma sort_key_map_image: "sort_key f (map g xs) = map g (sort_key (f \<circ> g) xs)"
proof -
  have "insort_key f (g x) (map g ys) = map g (insort_key (f \<circ> g) x ys)" for x ys
    by (induction ys) auto
  then show ?thesis by (induction xs) simp_all
qed

lemma ordered_proposals_eq:
  assumes "wf_simulation V q"
  shows "ordered_proposals q = Inr (sort_key result_order (sq_proposals q))"
proof -
  have "map_res (\<lambda>p. rbind (proposal_order p) (\<lambda>k. Inr (k, p))) (sq_proposals q) = Inr (map (\<lambda>p. (result_order p, p)) (sq_proposals q))"
    using assms by (intro map_res_total) (auto simp: wf_simulation_def proposal_order_def proposal_priority_def result_order_def)
  then show ?thesis by (simp add: ordered_proposals_def sort_key_map_image o_def)
qed

text \<open>The results of a state in the order of the report.\<close>

definition results_of :: "simulation_env \<Rightarrow> simulation_request \<Rightarrow> sim_state \<Rightarrow> cycle_result list" where
  "results_of V q s = map (\<lambda>p. the (sm_results s (cycle_id V p))) (sort_key result_order (sq_proposals q))"

lemma lookup_Inr: "lookup m k = Inr v \<longleftrightarrow> m k = Some v"
  by (auto split: option.splits)

declare lookup.simps [simp del]

lemma map_res_lookup:
  "map_res (\<lambda>x. lookup m (f x)) xs = Inr ys \<Longrightarrow> (\<forall>x \<in> set xs. m (f x) \<noteq> None) \<and> ys = map (\<lambda>x. the (m (f x))) xs"
  by (induction xs arbitrary: ys) (auto simp: rbind_eq_Inr lookup_Inr)

lemma finish_simulation_Inr:
  assumes "finish_simulation V q sha s = Inr report" "wf_simulation V q"
  obtains ends held gross cost where "end_positions q s = Inr ends"
    "report = report_of q sha s (results_of V q s) gross cost held ends"
    "\<forall>p \<in> set (sq_proposals q). sm_results s (cycle_id V p) \<noteq> None"
    "gross = dsum (present cr_gross_pnl_vnd (results_of V q s))" "cost = dsum (present cr_trading_cost_vnd (results_of V q s))"
    "sim_complete q s \<Longrightarrow> inventory_restored q s \<and> cash_reconciles q s gross cost"
proof -
  obtain cycles where cycles: "map_res (\<lambda>p. lookup (sm_results s) (cycle_id V p)) (sort_key result_order (sq_proposals q)) = Inr cycles"
    using assms by (auto simp: finish_simulation_def ordered_proposals_eq [OF assms(2)] rbind_eq_Inr)
  note results = map_res_lookup [OF cycles]
  have eq: "cycles = results_of V q s" using results by (simp add: results_of_def)
  let ?gross = "dsum (present cr_gross_pnl_vnd cycles)" and ?cost = "dsum (present cr_trading_cost_vnd cycles)"
  obtain held ends where "sim_complete q s \<Longrightarrow> inventory_restored q s \<and> cash_reconciles q s ?gross ?cost"
    "end_positions q s = Inr ends" "SimulationReport (report_of q sha s cycles ?gross ?cost held ends) = Inr report"
    using assms(1) unfolding finish_simulation_def ordered_proposals_eq [OF assms(2)] rbind_Inr cycles Let_def rbind_eq_Inr
      if_Inl_eq_Inr by blast
  moreover have "\<forall>p \<in> set (sq_proposals q). sm_results s (cycle_id V p) \<noteq> None" using results by simp
  ultimately show ?thesis unfolding eq by (intro that) (auto simp: SimulationReport_def split: if_splits)
qed

lemma simulate_cycles_run:
  assumes "simulate_cycles V request_sha q = Inr report" "wf_simulation V q"
  obtains s where "run_simulation V q = Inr s" "sim_inv V q s" "finish_simulation V q (request_sha q) s = Inr report"
proof -
  obtain s where s: "run_simulation V q = Inr s" "finish_simulation V q (request_sha q) s = Inr report"
    using assms(1) by (auto simp: simulate_cycles_def rbind_eq_Inr)
  have run: "run_res (simulation_step V q) (initial_sim_state q) (sim_events q) = Inr s"
    using s(1) simulation_events_eq [OF assms(2)] by (simp add: run_simulation_def sim_events_def)
  have "list_all (\<lambda>e. event_proposal e \<in> set (sq_proposals q)) (sim_events q)"
    using sim_events_facts(2) [OF assms(2)] by (simp add: list_all_iff)
  then have "sim_inv V q s" using simulation.run_inv [OF initial_sim_inv [OF assms(2)] _ run] by blast
  with s that show ?thesis by blast
qed

lemma initial_position_member:
  assumes "wf_simulation V q" "a \<in> set (ac_positions (sq_account q))"
  shows "initial_position q (ap_symbol a) = Some a"
  using wf_accountD(3) [of "sq_account q"] assms unfolding wf_simulation_def initial_position_def by (blast intro: keyed_distinct)

lemma sound_position_member:
  assumes "sim_inv V q s" "a \<in> set (ac_positions (sq_account q))"
  obtains x where "sm_positions s (ap_symbol a) = Some x" "ap_core_min_qty a \<le> sp_settled x" "0 \<le> sp_bought_today x"
    "sp_t1 x = ap_t1_qty a" "sp_t2 x = ap_t2_qty a" "sp_settled x + sp_bought_today x = ap_settled_qty a + open_quantity s (ap_symbol a)"
  using sim_invD(2) [OF assms(1), of "ap_symbol a"] initial_position_member [OF sim_invD(1) [OF assms(1)] assms(2)]
  by (auto simp: sound_position_def split: option.splits)

lemma list_all2_set_left: "list_all2 P xs ys \<Longrightarrow> x \<in> set xs \<Longrightarrow> \<exists>y \<in> set ys. P x y"
  by (induction rule: list_all2_induct) auto

lemma end_positions_Inr:
  assumes "end_positions q s = Inr ends" "a \<in> set (ac_positions (sq_account q))"
  shows "\<exists>e x. e \<in> set ends \<and> en_symbol e = ap_symbol a \<and> sm_positions s (ap_symbol a) = Some x \<and> en_settled_qty e = sp_settled x \<and>
    en_t1_qty e = sp_t1 x \<and> en_t2_qty e = sp_t2 x \<and> en_bought_today_qty e = sp_bought_today x"
proof -
  let ?f = "\<lambda>symbol. rbind (lookup (sm_positions s) symbol) (\<lambda>p. EndPosition \<lparr>en_symbol = symbol, en_settled_qty = sp_settled p,
    en_t1_qty = sp_t1 p, en_t2_qty = sp_t2 p, en_bought_today_qty = sp_bought_today p\<rparr>)"
  have all: "list_all2 (\<lambda>x y. ?f x = Inr y) (sort (map ap_symbol (ac_positions (sq_account q)))) ends"
    using assms(1) by (simp add: end_positions_def map_res_Inr_iff)
  have "ap_symbol a \<in> set (sort (map ap_symbol (ac_positions (sq_account q))))" using assms(2) by simp
  then obtain e where "e \<in> set ends" "?f (ap_symbol a) = Inr e"
    using list_all2_set_left [OF all] by blast
  then show ?thesis by (auto simp: rbind_eq_Inr lookup_Inr EndPosition_def split: if_splits)
qed

text \<open>C12: A simulated day protects the inventory and respects every limit. In the report of any request, the settled quantity of each
  symbol stays at or above its core minimum, the quantities in settlement are untouched, and a complete report has the total
  of every symbol restored. Every cycle that was not rejected trades whole lots within the quantity limit and enters
  within the notional limit, and there are at most as many such cycles as the daily limit.\<close>

theorem simulation_protects_inventory:
  assumes "SimulationRequest V z q = Inr q" "simulate_cycles V request_sha q = Inr report"
  shows "(\<forall>a \<in> set (ac_positions (sq_account q)). \<exists>e \<in> set (smr_end_positions report). en_symbol e = ap_symbol a \<and>
      ap_core_min_qty a \<le> en_settled_qty e \<and> 0 \<le> en_bought_today_qty e \<and> en_t1_qty e = ap_t1_qty a \<and> en_t2_qty e = ap_t2_qty a \<and>
      (smr_complete report \<longrightarrow> en_settled_qty e + en_bought_today_qty e = ap_settled_qty a)) \<and>
    (\<forall>c \<in> set (smr_cycles report). cr_status c \<noteq> REJECTED_CYCLE \<longrightarrow>
      (\<exists>price. cr_entry_price c = Some price \<and> within_limits q (cr_quantity c) price)) \<and>
    int (length (filter (\<lambda>c. cr_status c \<noteq> REJECTED_CYCLE) (smr_cycles report))) \<le> rk_max_cycles_per_day (sq_risk q)"
proof -
  note wf = SimulationRequest_wf [OF assms(1)]
  obtain s where inv: "sim_inv V q s" and fin: "finish_simulation V q (request_sha q) s = Inr report"
    by (rule simulate_cycles_run [OF assms(2) wf])
  obtain ends held gross cost where ends: "end_positions q s = Inr ends"
    and report: "report = report_of q (request_sha q) s (results_of V q s) gross cost held ends"
    and present: "\<forall>p \<in> set (sq_proposals q). sm_results s (cycle_id V p) \<noteq> None"
    by (rule finish_simulation_Inr [OF fin wf])
  have r: "smr_end_positions report = ends" "smr_cycles report = results_of V q s" "smr_complete report = sim_complete q s"
    by (simp_all add: report report_of_def Let_def)
  have position: "\<exists>e \<in> set ends. en_symbol e = ap_symbol a \<and> ap_core_min_qty a \<le> en_settled_qty e \<and> 0 \<le> en_bought_today_qty e \<and>
      en_t1_qty e = ap_t1_qty a \<and> en_t2_qty e = ap_t2_qty a \<and>
      (sim_complete q s \<longrightarrow> en_settled_qty e + en_bought_today_qty e = ap_settled_qty a)"
    if a: "a \<in> set (ac_positions (sq_account q))" for a
  proof -
    have "sim_complete q s \<longrightarrow> open_quantity s (ap_symbol a) = 0" using a by (simp add: sim_complete_def open_quantity_def list_all_iff)
    moreover obtain e x where e: "e \<in> set ends" "en_symbol e = ap_symbol a" "sm_positions s (ap_symbol a) = Some x"
        "en_settled_qty e = sp_settled x" "en_t1_qty e = sp_t1 x" "en_t2_qty e = sp_t2 x" "en_bought_today_qty e = sp_bought_today x"
      using end_positions_Inr [OF ends a] by blast
    moreover obtain y where y: "sm_positions s (ap_symbol a) = Some y" "ap_core_min_qty a \<le> sp_settled y" "0 \<le> sp_bought_today y"
        "sp_t1 y = ap_t1_qty a" "sp_t2 y = ap_t2_qty a" "sp_settled y + sp_bought_today y = ap_settled_qty a + open_quantity s (ap_symbol a)"
      by (rule sound_position_member [OF inv a])
    ultimately show ?thesis by (intro bexI [of _ e]) simp_all
  qed
  have result: "\<exists>price. cr_entry_price c = Some price \<and> within_limits q (cr_quantity c) price"
    if "c \<in> set (results_of V q s)" "cr_status c \<noteq> REJECTED_CYCLE" for c
    using that present sim_invD(4) [OF inv] by (force simp: results_of_def sound_result_def)
  have "length (filter (\<lambda>c. cr_status c \<noteq> REJECTED_CYCLE) (results_of V q s)) =
      length (filter (\<lambda>p. cr_status (the (sm_results s (cycle_id V p))) \<noteq> REJECTED_CYCLE) (sq_proposals q))"
    by (simp add: results_of_def filter_map o_def length_filter_sort_key)
  also have "\<dots> \<le> length (filter (taken V s) (sq_proposals q))"
    using present by (intro length_filter_imp) (auto simp: taken_def)
  finally have "int (length (filter (\<lambda>c. cr_status c \<noteq> REJECTED_CYCLE) (results_of V q s))) \<le> rk_max_cycles_per_day (sq_risk q)"
    using sim_invD(5,6) [OF inv] by linarith
  with position result show ?thesis unfolding r by blast
qed

section \<open>Totality\<close>

lemma hold_pnl_returns:
  assumes "set (map cm_symbol (sq_closing_marks q)) = set (map ap_symbol (ac_positions (sq_account q)))"
  shows "\<exists>held. hold_pnl q = Inr held"
proof -
  have "keyed cm_symbol (sq_closing_marks q) (ap_symbol a) \<noteq> None" if "a \<in> set (ac_positions (sq_account q))" for a
    using that assms by (auto simp: keyed_None)
  then have "\<exists>gains. map_res (\<lambda>item. rbind (lookup (keyed cm_symbol (sq_closing_marks q)) (ap_symbol item)) (\<lambda>mark.
      Inr (dmul (of_int (total_qty item)) (dsub (cm_price mark) (ap_start_price item))))) (ac_positions (sq_account q)) = Inr gains"
    by (intro map_res_defined) (auto simp: lookup.simps split: option.splits)
  then show ?thesis by (auto simp: hold_pnl_def)
qed

lemma account_position_bounds:
  assumes "wf_account c" "a \<in> set (ac_positions c)"
  shows "0 \<le> ap_t1_qty a" "0 \<le> ap_t2_qty a" "0 \<le> ap_core_min_qty a"
  using wf_accountD(4) [OF assms] by (auto simp: AccountPosition_def split: if_splits)

lemma end_positions_returns:
  assumes "sim_inv V q s"
  shows "\<exists>ends. end_positions q s = Inr ends"
  unfolding end_positions_def
proof (rule map_res_defined)
  fix symbol assume "symbol \<in> set (sort (map ap_symbol (ac_positions (sq_account q))))"
  then obtain a where a: "a \<in> set (ac_positions (sq_account q))" "symbol = ap_symbol a" by auto
  have "wf_account (sq_account q)" using sim_invD(1) [OF assms] by (simp add: wf_simulation_def)
  note bounds = account_position_bounds [OF this a(1)]
  obtain x where "sm_positions s (ap_symbol a) = Some x" "ap_core_min_qty a \<le> sp_settled x" "0 \<le> sp_bought_today x"
      "sp_t1 x = ap_t1_qty a" "sp_t2 x = ap_t2_qty a" "sp_settled x + sp_bought_today x = ap_settled_qty a + open_quantity s (ap_symbol a)"
    by (rule sound_position_member [OF assms a(1)])
  then show "\<exists>e. rbind (lookup (sm_positions s) symbol) (\<lambda>p. EndPosition \<lparr>en_symbol = symbol, en_settled_qty = sp_settled p,
      en_t1_qty = sp_t1 p, en_t2_qty = sp_t2 p, en_bought_today_qty = sp_bought_today p\<rparr>) = Inr e"
    using bounds by (simp add: a(2) lookup.simps EndPosition_def)
qed

lemma inventory_restored_complete:
  assumes "sim_inv V q s" "sim_complete q s"
  shows "inventory_restored q s"
  unfolding inventory_restored_def list_all_iff
proof
  fix a assume a: "a \<in> set (ac_positions (sq_account q))"
  obtain x where "sm_positions s (ap_symbol a) = Some x" "ap_core_min_qty a \<le> sp_settled x" "0 \<le> sp_bought_today x"
      "sp_t1 x = ap_t1_qty a" "sp_t2 x = ap_t2_qty a" "sp_settled x + sp_bought_today x = ap_settled_qty a + open_quantity s (ap_symbol a)"
    by (rule sound_position_member [OF assms(1) a])
  moreover have "open_quantity s (ap_symbol a) = 0" using assms(2) a by (simp add: sim_complete_def list_all_iff open_quantity_def)
  ultimately show "map_option position_total (sm_positions s (ap_symbol a)) = Some (total_qty a)"
    by (simp add: position_total_def total_qty_def)
qed

text \<open>The report of a run that left a result for every proposal, unless the cash comparison fails.\<close>

lemma finish_simulation_eq:
  assumes "sim_inv V q s" "\<forall>p \<in> set (sq_proposals q). sm_results s (cycle_id V p) \<noteq> None" "is_sha256 sha" "hold_pnl q = Inr held"
    and gross: "gross = dsum (present cr_gross_pnl_vnd (results_of V q s))"
    and cost: "cost = dsum (present cr_trading_cost_vnd (results_of V q s))"
  obtains ends where "end_positions q s = Inr ends"
    "finish_simulation V q sha s = (if sim_complete q s \<and> \<not> cash_reconciles q s gross cost
       then Inl (ValueError ''T0 cash movement does not reconcile with cycle net PnL'')
       else Inr (report_of q sha s (results_of V q s) gross cost held ends))"
proof -
  obtain ends where ends: "end_positions q s = Inr ends" using end_positions_returns [OF assms(1)] by blast
  have cycles: "map_res (\<lambda>p. lookup (sm_results s) (cycle_id V p)) (sort_key result_order (sq_proposals q)) = Inr (results_of V q s)"
    unfolding results_of_def using assms(2) by (intro map_res_total) (auto simp: lookup.simps)
  have report: "SimulationReport (report_of q sha s cs g c h e) = Inr (report_of q sha s cs g c h e)" for cs g c h e
    using assms(3) by (simp add: SimulationReport_def report_of_def Let_def)
  have "finish_simulation V q sha s = (if sim_complete q s \<and> \<not> cash_reconciles q s gross cost
      then Inl (ValueError ''T0 cash movement does not reconcile with cycle net PnL'')
      else Inr (report_of q sha s (results_of V q s) gross cost held ends))"
    using inventory_restored_complete [OF assms(1)]
    by (simp add: finish_simulation_def ordered_proposals_eq [OF sim_invD(1) [OF assms(1)]] cycles assms(4) ends report
        gross cost Let_def)
  with ends show ?thesis by (rule that)
qed

lemma complete_iff_no_open:
  assumes "sim_inv V q s"
    and results: "\<And>p. p \<in> set (sq_proposals q) \<Longrightarrow> \<exists>r. sm_results s (cycle_id V p) = Some r \<and> cr_cycle_id r = cycle_id V p \<and>
       (cr_status r = OPEN_CYCLE \<longleftrightarrow> own_open s p)"
  shows "sim_complete q s \<longleftrightarrow> (\<forall>c \<in> set (results_of V q s). cr_status c \<noteq> OPEN_CYCLE)"
proof
  assume complete: "sim_complete q s"
  have "\<not> own_open s p" if "p \<in> set (sq_proposals q)" for p
  proof -
    have "initial_position q (proposal_symbol p) \<noteq> None"
      using sim_invD(1) [OF assms(1)] that by (simp add: wf_simulation_def)
    then obtain a where "initial_position q (proposal_symbol p) = Some a" by blast
    then have "a \<in> set (ac_positions (sq_account q))" "ap_symbol a = proposal_symbol p"
      by (auto simp: initial_position_def dest: keyed_Some)
    then have "sm_open_by_symbol s (proposal_symbol p) = None" using complete by (auto simp: sim_complete_def list_all_iff)
    then show ?thesis by (simp add: own_open_def)
  qed
  then show "\<forall>c \<in> set (results_of V q s). cr_status c \<noteq> OPEN_CYCLE" using results by (fastforce simp: results_of_def)
next
  assume none: "\<forall>c \<in> set (results_of V q s). cr_status c \<noteq> OPEN_CYCLE"
  have "sm_open_by_symbol s symbol = None" for symbol
  proof (cases "sm_open_by_symbol s symbol")
    case (Some c)
    then have c: "oc_proposal c \<in> set (sq_proposals q)" "own_open s (oc_proposal c)"
      using sim_invD(3) [OF assms(1) Some] by (auto simp: sound_open_def own_open_def)
    then obtain r where "sm_results s (cycle_id V (oc_proposal c)) = Some r" "cr_status r = OPEN_CYCLE" using results by blast
    moreover from this have "r \<in> set (results_of V q s)" using c(1) by (force simp: results_of_def)
    ultimately show ?thesis using none by blast
  qed
  then show "sim_complete q s" by (simp add: sim_complete_def list_all_iff)
qed

text \<open>C11: A validated request is always simulated to the end: every proposal has exactly one result, in the order of entry time and
  priority, the report is complete exactly when no cycle is left open, and the only exception the engine can raise on such a
  request is the final comparison of the rounded cash movement with the rounded profit.\<close>

theorem every_proposal_accounted:
  assumes "SimulationRequest V z q = Inr q" "proper_digests V" "is_sha256 (request_sha q)"
  shows "simulate_cycles V request_sha q = Inl (ValueError ''T0 cash movement does not reconcile with cycle net PnL'') \<or>
    (\<exists>report. simulate_cycles V request_sha q = Inr report \<and>
       map cr_cycle_id (smr_cycles report) = map (cycle_id V) (sort_key result_order (sq_proposals q)) \<and>
       (smr_complete report \<longleftrightarrow> (\<forall>c \<in> set (smr_cycles report). cr_status c \<noteq> OPEN_CYCLE)))"
proof -
  note wf = SimulationRequest_wf [OF assms(1)]
  obtain s where s: "run_simulation V q = Inr s" "sim_inv V q s"
    and results: "\<And>p. p \<in> set (sq_proposals q) \<Longrightarrow> \<exists>r. sm_results s (cycle_id V p) = Some r \<and> cr_cycle_id r = cycle_id V p \<and>
       (cr_status r = OPEN_CYCLE \<longleftrightarrow> own_open s p)"
    by (rule run_simulation_returns [OF assms(2) wf]) blast
  obtain held where held: "hold_pnl q = Inr held" using hold_pnl_returns SimulationRequest_Inr(6) [OF assms(1)] by blast
  have present: "\<forall>p \<in> set (sq_proposals q). sm_results s (cycle_id V p) \<noteq> None" using results by fastforce
  obtain ends where "finish_simulation V q (request_sha q) s = (if sim_complete q s \<and>
        \<not> cash_reconciles q s (dsum (present cr_gross_pnl_vnd (results_of V q s))) (dsum (present cr_trading_cost_vnd (results_of V q s)))
      then Inl (ValueError ''T0 cash movement does not reconcile with cycle net PnL'')
      else Inr (report_of q (request_sha q) s (results_of V q s) (dsum (present cr_gross_pnl_vnd (results_of V q s)))
        (dsum (present cr_trading_cost_vnd (results_of V q s))) held ends))"
    by (rule finish_simulation_eq [OF s(2) present assms(3) held refl refl])
  moreover have "map cr_cycle_id (results_of V q s) = map (cycle_id V) (sort_key result_order (sq_proposals q))"
    using results by (fastforce simp: results_of_def)
  moreover note complete_iff_no_open [OF s(2) results]
  ultimately show ?thesis using s(1) by (simp add: simulate_cycles_def report_of_def Let_def)
qed

section \<open>Exact days\<close>

text \<open>
  The comparison at the end of the engine is exact only where decimal arithmetic does not round. A day is exact up to a
  bound when no advance is used, the cash and the notional and charge of every execution are multiples of
  \<open>10\<^sup>-\<^sup>8\<close>, each execution is at most \<open>B\<close>, and the cash with eight times \<open>B\<close> per proposal stays within \<open>10\<^sup>2\<^sup>0\<close>.
\<close>

definition exact_execution :: "decimal \<Rightarrow> sim_execution \<Rightarrow> bool" where
  "exact_execution B e \<longleftrightarrow> on_grid (sx_notional e) \<and> on_grid (sx_charge e) \<and> \<bar>sx_notional e\<bar> \<le> B \<and> \<bar>sx_charge e\<bar> \<le> B"

definition exact_leg :: "simulation_request \<Rightarrow> decimal \<Rightarrow> action \<Rightarrow> int \<Rightarrow> decimal option \<Rightarrow> bool" where
  "exact_leg q B side quantity book =
     (case book of None \<Rightarrow> True | Some x \<Rightarrow> exact_execution B (simulated_execution q x side quantity))"

definition exact_day :: "simulation_request \<Rightarrow> decimal \<Rightarrow> bool" where
  "exact_day q B \<longleftrightarrow> sq_advance q = None \<and> on_grid (ac_cash_vnd (sq_account q)) \<and> 0 \<le> ac_cash_vnd (sq_account q) \<and> 0 \<le> B \<and>
     ac_cash_vnd (sq_account q) + 8 * of_nat (length (sq_proposals q)) * B \<le> 10 ^ 20 \<and>
     list_all (\<lambda>p. exact_leg q B BUY (ol_order_quantity (pr_outcome p)) (ol_entry_vwap (pr_outcome p)) \<and>
       exact_leg q B SELL (ol_order_quantity (pr_outcome p)) (ol_horizon_vwap (pr_outcome p))) (sq_proposals q)"

lemma dadd_exact: "on_grid x \<Longrightarrow> on_grid y \<Longrightarrow> \<bar>x + y\<bar> \<le> 10 ^ 20 \<Longrightarrow> dadd x y = x + y"
  and dsub_exact: "on_grid x \<Longrightarrow> on_grid y \<Longrightarrow> \<bar>x - y\<bar> \<le> 10 ^ 20 \<Longrightarrow> dsub x y = x - y"
  using on_grid_fits [OF on_grid_add] on_grid_fits [OF on_grid_diff] by (auto simp: dadd_def dsub_def fits_def)

lemma foldl_dadd_exact:
  assumes "\<forall>x \<in> set xs. on_grid x \<and> \<bar>x\<bar> \<le> b" "on_grid a" "\<bar>a\<bar> + of_nat (length xs) * b \<le> 10 ^ 20"
  shows "foldl dadd a xs = a + sum_list xs"
  using assms
proof (induction xs arbitrary: a)
  case (Cons x xs)
  then have x: "on_grid x" "\<bar>x\<bar> \<le> b" by auto
  then have "0 \<le> b" by linarith
  then have rest: "0 \<le> of_nat (length xs) * b" by simp
  have "\<bar>a\<bar> + b + of_nat (length xs) * b \<le> 10 ^ 20" using Cons.prems(3) by (simp add: algebra_simps)
  then have step: "\<bar>a + x\<bar> + of_nat (length xs) * b \<le> 10 ^ 20" using x(2) by linarith
  then have "dadd a x = a + x" using rest Cons.prems(2) x(1) by (intro dadd_exact) linarith+
  then show ?case using Cons.IH [OF _ on_grid_add [OF Cons.prems(2) x(1)] step] Cons.prems(1) by (simp add: add.assoc)
qed simp

lemma sum_list_bound:
  fixes b :: rat
  assumes "\<forall>x \<in> set xs. on_grid x \<and> \<bar>x\<bar> \<le> b"
  shows "on_grid (sum_list xs) \<and> \<bar>sum_list xs\<bar> \<le> of_nat (length xs) * b"
  using assms
proof (induction xs)
  case (Cons x xs)
  then have "on_grid (x + sum_list xs)" "\<bar>x\<bar> \<le> b" "\<bar>sum_list xs\<bar> \<le> of_nat (length xs) * b" by (auto intro: on_grid_add)
  moreover from this have "\<bar>x + sum_list xs\<bar> \<le> b + of_nat (length xs) * b" by linarith
  ultimately show ?case by (simp add: algebra_simps)
qed simp

lemma dsum_exact:
  assumes "\<forall>x \<in> set xs. on_grid x \<and> \<bar>x\<bar> \<le> b" "of_nat (length xs) * b \<le> 10 ^ 20"
  shows "dsum xs = sum_list xs"
  using foldl_dadd_exact [OF assms(1), of 0] assms(2) by (simp add: dsum_def)

lemma sum_list_update_one:
  fixes f g :: "'a \<Rightarrow> rat"
  assumes "distinct xs" "a \<in> set xs" "\<And>x. x \<in> set xs \<Longrightarrow> x \<noteq> a \<Longrightarrow> g x = f x"
  shows "sum_list (map g xs) = sum_list (map f xs) + (g a - f a)"
proof -
  have "sum_list (map g xs) = (\<Sum>x \<in> set xs. g x)" "sum_list (map f xs) = (\<Sum>x \<in> set xs. f x)"
    using assms(1) by (simp_all add: sum_list_distinct_conv_sum_set)
  moreover have "(\<Sum>x \<in> set xs - {a}. g x) = (\<Sum>x \<in> set xs - {a}. f x)" using assms(3) by (intro sum.cong) auto
  ultimately show ?thesis using assms(2) by (simp add: sum.remove [of "set xs" a])
qed

definition exact_result :: "decimal \<Rightarrow> cycle_result \<Rightarrow> bool" where
  "exact_result B r \<longleftrightarrow> (case (cr_gross_pnl_vnd r, cr_trading_cost_vnd r) of
     (Some g, Some c) \<Rightarrow> cr_status r = CLOSED_CYCLE \<and> on_grid g \<and> on_grid c \<and> \<bar>g\<bar> \<le> 2 * B \<and> \<bar>c\<bar> \<le> 2 * B
   | (None, None) \<Rightarrow> cr_status r \<noteq> CLOSED_CYCLE
   | _ \<Rightarrow> False)"

abbreviation amount :: "decimal option \<Rightarrow> decimal" where
  "amount v \<equiv> (case v of None \<Rightarrow> 0 | Some x \<Rightarrow> x)"

text \<open>What a proposal has moved so far: its spend while it is open, then its profit after costs.\<close>

definition contribution :: "simulation_env \<Rightarrow> sim_state \<Rightarrow> cycle_proposal \<Rightarrow> decimal" where
  "contribution V s p =
     (if own_open s p then (case sm_open_by_symbol s (proposal_symbol p) of None \<Rightarrow> 0
        | Some c \<Rightarrow> - (sx_notional (oc_entry c) + sx_charge (oc_entry c)))
      else case sm_results s (cycle_id V p) of None \<Rightarrow> 0 | Some r \<Rightarrow> amount (cr_gross_pnl_vnd r) - amount (cr_trading_cost_vnd r))"

definition exact_money :: "simulation_env \<Rightarrow> simulation_request \<Rightarrow> decimal \<Rightarrow> nat \<Rightarrow> sim_state \<Rightarrow> bool" where
  "exact_money V q B k s \<longleftrightarrow> sm_advance_principal s = 0 \<and> sm_advance_interest s = 0 \<and>
     on_grid (sm_cash s) \<and> \<bar>sm_cash s - ac_cash_vnd (sq_account q)\<bar> \<le> 2 * of_nat k * B \<and>
     on_grid (sm_pending_sales s) \<and> \<bar>sm_pending_sales s\<bar> \<le> 2 * of_nat k * B \<and>
     (\<forall>symbol c. sm_open_by_symbol s symbol = Some c \<longrightarrow> exact_execution B (oc_entry c)) \<and>
     (\<forall>i r. sm_results s i = Some r \<longrightarrow> exact_result B r) \<and>
     sm_cash s + sm_pending_sales s = ac_cash_vnd (sq_account q) + sum_list (map (contribution V s) (sq_proposals q))"

lemma exact_dayD:
  assumes "exact_day q B"
  shows "sq_advance q = None" "on_grid (ac_cash_vnd (sq_account q))" "0 \<le> ac_cash_vnd (sq_account q)" "0 \<le> B"
    "ac_cash_vnd (sq_account q) + 8 * of_nat (length (sq_proposals q)) * B \<le> 10 ^ 20"
    "p \<in> set (sq_proposals q) \<Longrightarrow> ol_entry_vwap (pr_outcome p) = Some x \<Longrightarrow>
      exact_execution B (simulated_execution q x BUY (ol_order_quantity (pr_outcome p)))"
    "p \<in> set (sq_proposals q) \<Longrightarrow> ol_horizon_vwap (pr_outcome p) = Some x \<Longrightarrow>
      exact_execution B (simulated_execution q x SELL (ol_order_quantity (pr_outcome p)))"
  using assms by (auto simp: exact_day_def exact_leg_def list_all_iff)

lemma exact_moneyD:
  assumes "exact_money V q B k s"
  shows "sm_advance_principal s = 0" "sm_advance_interest s = 0" "on_grid (sm_cash s)"
    "\<bar>sm_cash s - ac_cash_vnd (sq_account q)\<bar> \<le> 2 * of_nat k * B" "on_grid (sm_pending_sales s)"
    "\<bar>sm_pending_sales s\<bar> \<le> 2 * of_nat k * B" "sm_open_by_symbol s symbol = Some c \<Longrightarrow> exact_execution B (oc_entry c)"
    "sm_results s i = Some r \<Longrightarrow> exact_result B r"
    "sm_cash s + sm_pending_sales s = ac_cash_vnd (sq_account q) + sum_list (map (contribution V s) (sq_proposals q))"
  using assms by (auto simp: exact_money_def)

lemma fund_buy_without_advance: "sq_advance q = None \<Longrightarrow> fund_buy q s spend = Some (draw, interest) \<Longrightarrow> draw = 0 \<and> interest = 0"
  by (auto simp: fund_buy_def Let_def split: if_splits)

lemma effect_other_contribution:
  assumes "cycle_effect V q s e s'" "sim_inv V q s" "event_proposal e \<in> set (sq_proposals q)" "p \<in> set (sq_proposals q)"
    "p \<noteq> event_proposal e"
  shows "contribution V s' p = contribution V s p"
proof -
  have "sm_open_by_symbol s' (proposal_symbol p) = sm_open_by_symbol s (proposal_symbol p)" if own: "own_open s p"
    using assms(1)
  proof cases
    case (opened p' position account book entry draw interest t n)
    then show ?thesis using entry_rejection_None(1) [OF opened(5)] own by (auto simp: own_open_def open_entry_def)
  next
    case (closed p' c position account book exit r net t n)
    have "oc_proposal c = p'" using sim_inv_own [OF assms(2) _ closed(3,4)] assms(3) closed(1) by (simp add: event_proposal_def)
    then show ?thesis using closed assms(5) own by (auto simp: own_open_def close_cycle_def event_proposal_def)
  qed simp_all
  then show ?thesis using effect_other [OF assms] by (simp add: contribution_def)
qed

lemma length_sim_events: "length (sim_events q) = 2 * length (sq_proposals q)"
proof -
  have "length (concat (map proposal_schedule ps)) = 2 * length ps" for ps
    by (induction ps) (auto simp: proposal_schedule_def Let_def)
  then show ?thesis by (simp add: sim_events_def)
qed

text \<open>The bookkeeping of one event: what cash and pending sales move is what its proposal contributes.\<close>

lemma exact_money_step:
  assumes day: "exact_day q B" and k: "k < length (sim_events q)" and inv: "sim_inv V q s" and money: "exact_money V q B k s"
    and e: "event_proposal e \<in> set (sq_proposals q)" and effect: "cycle_effect V q s e s'"
    and cash: "sm_cash s' = sm_cash s + x" "sm_pending_sales s' = sm_pending_sales s + y" "on_grid x" "on_grid y" "\<bar>x\<bar> \<le> 2 * B" "\<bar>y\<bar> \<le> 2 * B"
    and moved: "contribution V s' (event_proposal e) = contribution V s (event_proposal e) + x + y"
    and advance: "sm_advance_principal s' = 0" "sm_advance_interest s' = 0"
    and open_exact: "\<And>symbol c. sm_open_by_symbol s' symbol = Some c \<Longrightarrow> exact_execution B (oc_entry c)"
    and results: "\<And>i r. sm_results s' i = Some r \<Longrightarrow> exact_result B r"
  shows "exact_money V q B (Suc k) s'"
proof -
  have "distinct (sq_proposals q)" using sim_invD(1) [OF inv] by (simp add: wf_simulation_def distinct_map)
  then have "sum_list (map (contribution V s') (sq_proposals q)) = sum_list (map (contribution V s) (sq_proposals q)) + (x + y)"
    using sum_list_update_one [OF _ e effect_other_contribution [OF effect inv e]] moved by simp
  moreover have "2 * of_nat (Suc k) * B = 2 * of_nat k * B + 2 * B" by (simp add: algebra_simps)
  ultimately show ?thesis using exact_moneyD [OF money] cash advance open_exact results
    by (auto simp: exact_money_def intro: on_grid_add)
qed

lemma exact_day_bounds:
  assumes "exact_day q B" "k < length (sim_events q)"
  shows "ac_cash_vnd (sq_account q) + 2 * of_nat k * B + 2 * B \<le> 10 ^ 20" "2 * B \<le> 10 ^ 20"
proof -
  have "Suc k \<le> 2 * length (sq_proposals q)" using assms(2) by (simp add: length_sim_events)
  then have "of_nat (Suc k) \<le> (of_nat (2 * length (sq_proposals q)) :: rat)" by (simp only: of_nat_le_iff)
  then have "of_nat (Suc k) * B \<le> of_nat (2 * length (sq_proposals q)) * B" using exact_dayD(4) [OF assms(1)] by (rule mult_right_mono)
  moreover have "of_nat (Suc k) * B = of_nat k * B + B" by (simp add: algebra_simps)
  moreover have "of_nat (2 * length (sq_proposals q)) * B = 2 * (of_nat (length (sq_proposals q)) * B)" by simp
  moreover have "0 \<le> of_nat (length (sq_proposals q)) * B" "0 \<le> of_nat k * B" using exact_dayD(4) [OF assms(1)] by simp_all
  moreover have "ac_cash_vnd (sq_account q) + 8 * (of_nat (length (sq_proposals q)) * B) \<le> 10 ^ 20"
    using exact_dayD(5) [OF assms(1)] by (simp add: mult.assoc)
  ultimately show "ac_cash_vnd (sq_account q) + 2 * of_nat k * B + 2 * B \<le> 10 ^ 20" "2 * B \<le> 10 ^ 20"
    using exact_dayD(3) [OF assms(1)] by (simp_all add: mult.assoc)
qed

lemma exact_executionD:
  assumes "exact_execution B e"
  shows "on_grid (sx_notional e)" "on_grid (sx_charge e)" "\<bar>sx_notional e\<bar> \<le> B" "\<bar>sx_charge e\<bar> \<le> B"
  using assms by (simp_all add: exact_execution_def)

lemma open_entry_exact:
  assumes day: "exact_day q B" and k: "k < length (sim_events q)" and inv: "sim_inv V q s" and money: "exact_money V q B k s"
    and e: "event_proposal e \<in> set (sq_proposals q)" and effect: "cycle_effect V q s e s'"
    and s': "s' = open_entry s position (event_proposal e) entry 0 0" and exact: "exact_execution B entry"
    and idle: "sm_open_by_symbol s (proposal_symbol (event_proposal e)) = None" "sm_results s (cycle_id V (event_proposal e)) = None"
  shows "exact_money V q B (Suc k) s'"
proof -
  note m = exact_moneyD [OF money] and x = exact_executionD [OF exact] and b = exact_day_bounds [OF day k]
  let ?spend = "sx_notional entry + sx_charge entry"
  have spend: "\<bar>?spend\<bar> \<le> 2 * B" "on_grid ?spend" using x by (auto intro: on_grid_add)
  have "dadd (sx_notional entry) (sx_charge entry) = ?spend" using x spend b(2) by (intro dadd_exact) auto
  moreover have "\<bar>sm_cash s\<bar> + 2 * B \<le> 10 ^ 20" using m(4) b(1) exact_dayD(3) [OF day] by linarith
  then have "dadd (sm_cash s) 0 = sm_cash s" "dsub (sm_cash s) ?spend = sm_cash s - ?spend"
    using m(3) spend exact_dayD(4) [OF day] by (auto intro!: dadd_exact [of _ 0, simplified] dsub_exact)
  ultimately have cash: "sm_cash s' = sm_cash s + - ?spend" by (simp add: s' open_entry_def)
  have zero: "dadd 0 0 = 0" using dadd_exact [of 0 0] by simp
  show ?thesis
  proof (rule exact_money_step [OF day k inv money e effect cash, of 0])
    show "contribution V s' (event_proposal e) = contribution V s (event_proposal e) + - ?spend + 0"
      using idle by (simp add: contribution_def own_open_def s' open_entry_def)
    show "sm_advance_principal s' = 0" "sm_advance_interest s' = 0" using m(1,2) zero by (simp_all add: s' open_entry_def)
    show "exact_execution B (oc_entry c)" if "sm_open_by_symbol s' symbol = Some c" for symbol c
      using that m(7) exact by (auto simp: s' open_entry_def split: if_splits)
    show "exact_result B r" if "sm_results s' i = Some r" for i r using that m(8) by (auto simp: s' open_entry_def)
  qed (use spend on_grid_uminus [OF spend(2)] exact_dayD(4) [OF day] in \<open>simp_all add: s' open_entry_def\<close>)
qed

lemma close_cycle_exact:
  assumes day: "exact_day q B" and k: "k < length (sim_events q)" and inv: "sim_inv V q s" and money: "exact_money V q B k s"
    and e: "event_proposal e \<in> set (sq_proposals q)" and effect: "cycle_effect V q s e s'"
    and s': "s' = (close_cycle s position (event_proposal e) exit net)\<lparr>sm_results := (sm_results s)(cycle_id V (event_proposal e) \<mapsto> r)\<rparr>"
    and own: "sm_open_by_symbol s (proposal_symbol (event_proposal e)) = Some c" "oc_proposal c = event_proposal e"
    and exact: "exact_execution B exit"
    and result: "make_result V (event_proposal e) CLOSED_CYCLE None (Some (oc_entry c)) (Some exit) = Inr r"
  shows "exact_money V q B (Suc k) s'"
proof -
  note m = exact_moneyD [OF money] and b = exact_day_bounds [OF day k] and x = exact_executionD [OF exact]
  note a = exact_executionD [OF m(7) [OF own(1)]]
  let ?net = "sx_notional exit - sx_charge exit"
  have net: "\<bar>?net\<bar> \<le> 2 * B" "on_grid ?net" using x by (auto intro: on_grid_diff)
  have "dsub (sx_notional exit) (sx_charge exit) = ?net" using x net b(2) by (intro dsub_exact) auto
  moreover have "\<bar>sm_pending_sales s\<bar> + 2 * B \<le> 10 ^ 20" using m(6) b(1) exact_dayD(3) [OF day] by linarith
  then have "dadd (sm_pending_sales s) ?net = sm_pending_sales s + ?net" using m(5) net by (intro dadd_exact) auto
  ultimately have pending: "sm_pending_sales s' = sm_pending_sales s + ?net" by (simp add: s' close_cycle_def)
  have gross: "dsub (sx_notional exit) (sx_notional (oc_entry c)) = sx_notional exit - sx_notional (oc_entry c)"
    using x a b(2) by (intro dsub_exact) auto
  have charge: "dadd (sx_charge (oc_entry c)) (sx_charge exit) = sx_charge (oc_entry c) + sx_charge exit"
    using x a b(2) by (intro dadd_exact) auto
  have r: "cr_gross_pnl_vnd r = Some (sx_notional exit - sx_notional (oc_entry c))"
      "cr_trading_cost_vnd r = Some (sx_charge (oc_entry c) + sx_charge exit)" "cr_status r = CLOSED_CYCLE"
    using make_result_fields(4,7) [OF result] gross charge by auto
  have exact_r: "exact_result B r" using x a by (auto simp: exact_result_def r intro: on_grid_add on_grid_diff)
  show ?thesis
  proof (rule exact_money_step [OF day k inv money e effect _ pending, of 0])
    show "contribution V s' (event_proposal e) = contribution V s (event_proposal e) + 0 + ?net"
      using own r by (simp add: contribution_def own_open_def s' close_cycle_def)
    show "exact_execution B (oc_entry c')" if "sm_open_by_symbol s' symbol = Some c'" for symbol c'
      using that m(7) by (auto simp: s' close_cycle_def split: if_splits)
    show "exact_result B r'" if "sm_results s' i = Some r'" for i r' using that m(8) exact_r by (auto simp: s' split: if_splits)
  qed (use net m(1,2) exact_dayD(4) [OF day] in \<open>simp_all add: s' close_cycle_def\<close>)
qed

lemma result_exact:
  assumes "exact_money V q B k s" "sm_results s' = (sm_results s)(i \<mapsto> r)" "make_result V p status reason entry exit = Inr r"
    "status \<noteq> CLOSED_CYCLE" "sm_results s' j = Some r'"
  shows "exact_result B r'"
proof (cases "j = i")
  case True
  then show ?thesis using assms(2,4,5) make_result_fields(4,8) [OF assms(3)] by (simp add: exact_result_def)
qed (use assms(2,5) exact_moneyD(8) [OF assms(1)] in simp)

lemma put_result_exact:
  assumes day: "exact_day q B" and k: "k < length (sim_events q)" and inv: "sim_inv V q s" and money: "exact_money V q B k s"
    and e: "event_proposal e \<in> set (sq_proposals q)" and effect: "cycle_effect V q s e s'"
    and s': "s' = s\<lparr>sm_results := (sm_results s)(cycle_id V (event_proposal e) \<mapsto> r)\<rparr>"
    and result: "make_result V (event_proposal e) status reason entry exit = Inr r" "status \<noteq> CLOSED_CYCLE"
    and idle: "own_open s (event_proposal e) \<or> sm_results s (cycle_id V (event_proposal e)) = None"
  shows "exact_money V q B (Suc k) s'"
proof (rule exact_money_step [OF day k inv money e effect, of 0 0])
  show "contribution V s' (event_proposal e) = contribution V s (event_proposal e) + 0 + 0"
    using idle make_result_fields(8) [OF result] by (auto simp: contribution_def own_open_def s')
  show "exact_result B x" if "sm_results s' i = Some x" for i x
    by (rule result_exact [OF money _ result that]) (simp add: s')
qed (use exact_moneyD [OF money] exact_dayD(4) [OF day] in \<open>simp_all add: s'\<close>)

lemma effect_exact_money:
  assumes day: "exact_day q B" and k: "k < length (sim_events q)" and inv: "sim_inv V q s" and money: "exact_money V q B k s"
    and e: "event_proposal e \<in> set (sq_proposals q)" and effect: "cycle_effect V q s e s'" and new: "event_of e \<notin> finished"
    and progress: "cycle_progress V finished s (event_proposal e)"
  shows "exact_money V q B (Suc k) s'"
  using effect
proof cases
  case (rejected p reason r t n)
  have p: "event_proposal e = p" "(ENTRY_PHASE, p) \<notin> finished" using rejected(1) new by (auto simp: event_proposal_def event_of_def)
  then have "sm_results s (cycle_id V p) = None" using progress by (auto simp: cycle_progress_def split: option.splits)
  then show ?thesis using put_result_exact [OF day k inv money e effect _ _ _ disjI2, of r REJECTED_CYCLE] rejected p by simp
next
  case (opened p position account book entry draw interest t n)
  have p: "event_proposal e = p" "(ENTRY_PHASE, p) \<notin> finished" using opened(1) new by (auto simp: event_proposal_def event_of_def)
  then have "sm_results s (cycle_id V p) = None" using progress by (auto simp: cycle_progress_def split: option.splits)
  moreover have "draw = 0" "interest = 0" using fund_buy_without_advance [OF exact_dayD(1) [OF day] opened(9)] by auto
  moreover have "exact_execution B entry" using exact_dayD(6) [OF day _ opened(6)] e p(1) opened(7) by simp
  ultimately show ?thesis using open_entry_exact [OF day k inv money e effect] opened(2) p(1) entry_rejection_None(1) [OF opened(5)] by simp
next
  case (ignored p t n)
  then show ?thesis
    using exact_money_step [OF day k inv money e effect, of 0 0] exact_moneyD [OF money] exact_dayD(4) [OF day] by simp
next
  case (stuck p c reason r t n)
  have p: "event_proposal e = p" using stuck(1) by (simp add: event_proposal_def)
  then have "own_open s p" using sim_inv_own [OF inv _ stuck(3,4)] e stuck(3) by (simp add: own_open_def)
  then show ?thesis using put_result_exact [OF day k inv money e effect _ _ _ disjI1, of r OPEN_CYCLE] stuck p by simp
next
  case (closed p c position account book exit r net t n)
  have p: "event_proposal e = p" using closed(1) by (simp add: event_proposal_def)
  have c: "oc_proposal c = p" using sim_inv_own [OF inv _ closed(3,4)] e p by simp
  have "exact_execution B exit" using exact_dayD(7) [OF day _ closed(8)] e p closed(9) by simp
  then show ?thesis using close_cycle_exact [OF day k inv money e effect] closed(2,3,10) c p by simp
qed

lemma initial_exact_money: "exact_day q B \<Longrightarrow> exact_money V q B 0 (initial_sim_state q)"
  by (auto simp: exact_money_def initial_sim_state_def contribution_def own_open_def exact_day_def sum_list_map_zero)

text \<open>The optional amounts of a list of results.\<close>

lemma sum_list_present: "sum_list (present f xs) = sum_list (map (\<lambda>x. amount (f x)) xs)"
  by (induction xs) (auto simp: present_def map_filter_simps split: option.splits)

lemma present_members: "x \<in> set (present f xs) \<longleftrightarrow> (\<exists>y \<in> set xs. f y = Some x)"
  by (induction xs) (auto simp: present_def map_filter_simps split: option.splits)

lemma length_present: "length (present f xs) \<le> length xs"
  by (induction xs) (auto simp: present_def map_filter_simps split: option.splits)

lemma dsum_present_exact:
  assumes "\<forall>r \<in> set rs. \<forall>x. f r = Some x \<longrightarrow> on_grid x \<and> \<bar>x\<bar> \<le> b" "of_nat (length rs) * b \<le> 10 ^ 20" "0 \<le> b"
  shows "dsum (present f rs) = sum_list (map (\<lambda>r. amount (f r)) rs)" "on_grid (sum_list (map (\<lambda>r. amount (f r)) rs))"
    "\<bar>sum_list (map (\<lambda>r. amount (f r)) rs)\<bar> \<le> of_nat (length rs) * b"
proof -
  have each: "\<forall>x \<in> set (present f rs). on_grid x \<and> \<bar>x\<bar> \<le> b" using assms(1) by (auto simp: present_members)
  have "of_nat (length (present f rs)) * b \<le> of_nat (length rs) * b"
    using length_present [of f rs] assms(3) by (intro mult_right_mono) simp_all
  with assms(2) show "dsum (present f rs) = sum_list (map (\<lambda>r. amount (f r)) rs)"
    using dsum_exact [OF each] by (simp add: sum_list_present)
  have "\<forall>x \<in> set (map (\<lambda>r. amount (f r)) rs). on_grid x \<and> \<bar>x\<bar> \<le> b" using assms(1,3) by (auto split: option.splits)
  from sum_list_bound [OF this] show "on_grid (sum_list (map (\<lambda>r. amount (f r)) rs))"
    "\<bar>sum_list (map (\<lambda>r. amount (f r)) rs)\<bar> \<le> of_nat (length rs) * b" by simp_all
qed

lemma exact_resultD:
  assumes "exact_result B r"
  shows "cr_gross_pnl_vnd r = Some x \<Longrightarrow> on_grid x \<and> \<bar>x\<bar> \<le> 2 * B" "cr_trading_cost_vnd r = Some x \<Longrightarrow> on_grid x \<and> \<bar>x\<bar> \<le> 2 * B"
  using assms by (auto simp: exact_result_def split: option.splits)

text \<open>The state at the end of an exact and complete day.\<close>

lemma exact_complete:
  assumes day: "exact_day q B" and money: "exact_money V q B (2 * length (sq_proposals q)) s"
    and present: "\<forall>p \<in> set (sq_proposals q). sm_results s (cycle_id V p) \<noteq> None \<and> \<not> own_open s p"
  defines "gross \<equiv> dsum (present cr_gross_pnl_vnd (results_of V q s))" and "cost \<equiv> dsum (present cr_trading_cost_vnd (results_of V q s))"
  shows "cash_reconciles q s gross cost" "sm_cash s + sm_pending_sales s = ac_cash_vnd (sq_account q) + (gross - cost)"
    "dsub (dsub gross cost) (sm_advance_interest s) = gross - cost"
    "gross - cost = (\<Sum>c \<leftarrow> results_of V q s. amount (cr_gross_pnl_vnd c) - amount (cr_trading_cost_vnd c))"
proof -
  note m = exact_moneyD [OF money] and d = exact_dayD [OF day]
  define N where "N = of_nat (length (sq_proposals q)) * B"
  have N: "ac_cash_vnd (sq_account q) + 8 * N \<le> 10 ^ 20" "0 \<le> N" using d(4,5) by (simp_all add: N_def mult.assoc)
  have length: "of_nat (length (results_of V q s)) * (2 * B) = 2 * N" by (simp add: results_of_def N_def)
  have results: "exact_result B r" if "r \<in> set (results_of V q s)" for r
    using that present m(8) by (force simp: results_of_def)
  have small: "of_nat (length (results_of V q s)) * (2 * B) \<le> 10 ^ 20" "0 \<le> 2 * B" using N d(3,4) length by linarith+
  have gs: "\<forall>r \<in> set (results_of V q s). \<forall>x. cr_gross_pnl_vnd r = Some x \<longrightarrow> on_grid x \<and> \<bar>x\<bar> \<le> 2 * B"
    and cs: "\<forall>r \<in> set (results_of V q s). \<forall>x. cr_trading_cost_vnd r = Some x \<longrightarrow> on_grid x \<and> \<bar>x\<bar> \<le> 2 * B"
    using results exact_resultD by blast+
  note g = dsum_present_exact [OF gs small] and c = dsum_present_exact [OF cs small]
  have bounds: "on_grid gross" "on_grid cost" "\<bar>gross\<bar> \<le> 2 * N" "\<bar>cost\<bar> \<le> 2 * N"
    using g c length by (simp_all add: gross_def cost_def)
  show sums: "gross - cost = (\<Sum>c \<leftarrow> results_of V q s. amount (cr_gross_pnl_vnd c) - amount (cr_trading_cost_vnd c))"
    by (simp add: gross_def cost_def g(1) c(1) sum_list_subtractf)
  have "contribution V s p = amount (cr_gross_pnl_vnd (the (sm_results s (cycle_id V p)))) - amount (cr_trading_cost_vnd (the (sm_results s (cycle_id V p))))"
    if "p \<in> set (sq_proposals q)" for p
    using that present by (auto simp: contribution_def)
  then have "sum_list (map (contribution V s) (sq_proposals q)) = gross - cost"
    unfolding sums results_of_def by (simp add: o_def cong: map_cong)
  then show cash: "sm_cash s + sm_pending_sales s = ac_cash_vnd (sq_account q) + (gross - cost)" using m(9) by simp
  have net: "on_grid (gross - cost)" "dsub gross cost = gross - cost" "dsub (gross - cost) 0 = gross - cost"
    using bounds N d(3) by (auto intro!: on_grid_diff dsub_exact [of gross cost] dsub_exact [of _ 0, simplified])
  then show "dsub (dsub gross cost) (sm_advance_interest s) = gross - cost" by (simp add: m(2))
  let ?final = "ac_cash_vnd (sq_account q) + (gross - cost)"
  have small_end: "\<bar>?final\<bar> \<le> 10 ^ 20" "on_grid ?final" using bounds N d(2,3) net(1) by (auto intro: on_grid_add)
  then have "dadd (sm_cash s) (sm_pending_sales s) = ?final" "dsub ?final 0 = ?final"
    using dadd_exact [OF m(3) m(5)] dsub_exact [OF small_end(2) on_grid_0] small_end(1) cash by simp_all
  moreover have "dsub ?final (ac_cash_vnd (sq_account q)) = gross - cost"
    using dsub_exact [OF small_end(2) d(2)] bounds N d(3) by simp
  ultimately show "cash_reconciles q s gross cost" using net by (simp add: cash_reconciles_def m(1,2))
qed

text \<open>C13: On an exact day, that is, one whose request has no sale advance policy and whose cash and execution amounts are
  multiples of \<open>10\<^sup>-\<^sup>8\<close> small enough that decimal arithmetic does not round, the engine always returns a report, and a complete
  report reconciles: the ending cash with the pending sale proceeds is the starting cash with the net profit, which is the
  profit after costs of its cycles. With an advance the drawn principal would be part of the ending cash as well.\<close>

theorem exact_simulation_reconciles:
  assumes "SimulationRequest V z q = Inr q" "proper_digests V" "is_sha256 (request_sha q)" "exact_day q B"
  shows "\<exists>report. simulate_cycles V request_sha q = Inr report \<and>
    (smr_complete report \<longrightarrow> (\<exists>net. smr_net_t0_alpha_vnd report = Some net \<and>
       smr_ending_cash_vnd report + smr_pending_sale_proceeds_vnd report = smr_starting_cash_vnd report + net \<and>
       net = (\<Sum>c \<leftarrow> smr_cycles report. amount (cr_gross_pnl_vnd c) - amount (cr_trading_cost_vnd c))))"
proof -
  note wf = SimulationRequest_wf [OF assms(1)]
  obtain s where s: "run_simulation V q = Inr s" "sim_inv V q s"
    and results: "\<And>p. p \<in> set (sq_proposals q) \<Longrightarrow> \<exists>r. sm_results s (cycle_id V p) = Some r \<and> cr_cycle_id r = cycle_id V p \<and>
       (cr_status r = OPEN_CYCLE \<longleftrightarrow> own_open s p)"
    and money: "exact_money V q B (length (sim_events q)) s"
  proof (rule run_simulation_invariant [OF assms(2) wf, where P = "exact_money V q B"])
    show "exact_money V q B 0 (initial_sim_state q)" using assms(4) by (rule initial_exact_money)
    fix before_e e after_e s s'
    assume split: "sim_events q = before_e @ e # after_e" and step: "sim_inv V q s" "event_proposal e \<in> set (sq_proposals q)"
      "event_of e \<notin> event_of ` set before_e" "\<forall>p \<in> set (sq_proposals q). cycle_progress V (event_of ` set before_e) s p"
      "exact_money V q B (length before_e) s" "cycle_effect V q s e s'"
    have "length before_e < length (sim_events q)" using split by simp
    then show "exact_money V q B (Suc (length before_e)) s'"
      using effect_exact_money [OF assms(4) _ step(1,5,2,6,3)] step(2,4) by blast
  qed blast
  have own: "\<forall>p \<in> set (sq_proposals q). sm_results s (cycle_id V p) \<noteq> None" using results by fastforce
  let ?gross = "dsum (present cr_gross_pnl_vnd (results_of V q s))" and ?cost = "dsum (present cr_trading_cost_vnd (results_of V q s))"
  obtain held where held: "hold_pnl q = Inr held" using hold_pnl_returns SimulationRequest_Inr(6) [OF assms(1)] by blast
  obtain ends where fin: "finish_simulation V q (request_sha q) s = (if sim_complete q s \<and> \<not> cash_reconciles q s ?gross ?cost
      then Inl (ValueError ''T0 cash movement does not reconcile with cycle net PnL'')
      else Inr (report_of q (request_sha q) s (results_of V q s) ?gross ?cost held ends))"
    by (rule finish_simulation_eq [OF s(2) own assms(3) held refl refl])
  show ?thesis
  proof (cases "sim_complete q s")
    case False
    then show ?thesis using s(1) fin by (simp add: simulate_cycles_def report_of_def Let_def)
  next
    case True
    then have "\<forall>p \<in> set (sq_proposals q). \<not> own_open s p"
      using complete_iff_no_open [OF s(2) results] results by (fastforce simp: results_of_def)
    then have "\<forall>p \<in> set (sq_proposals q). sm_results s (cycle_id V p) \<noteq> None \<and> \<not> own_open s p" using own by blast
    note e = exact_complete [OF assms(4) money [unfolded length_sim_events] this]
    show ?thesis using s(1) fin e True by (simp add: simulate_cycles_def report_of_def Let_def)
  qed
qed

section \<open>A concrete day\<close>

definition sample_day_open :: instant where
  "sample_day_open = zn_instant vietnam_zone 7 (9 * 3600 * second_us)"

definition sample_selection :: "string \<Rightarrow> instant \<Rightarrow> candidate_arbitration" where
  "sample_selection symbol t = \<lparr>ca_arbitration_version = ''arb-v1'', ca_arbitration_configuration_sha256 = replicate 64 CHR ''2'',
     ca_candidate_version = BASELINE_VERSION, ca_candidate_sha256 = sample_sha (sample_candidate symbol t (1/2)),
     ca_strategy = ''mean_reversion'', ca_symbol = symbol, ca_trade_date = 7, ca_decision_at = t, ca_horizon_seconds = 300,
     ca_strength = 1/2, ca_status = SELECTED, ca_rejection_reason = None, ca_priority = Some 0,
     ca_selected_candidate_sha256 = Some (sample_sha (sample_candidate symbol t (1/2)))\<rparr>"

definition sample_outcome :: "string \<Rightarrow> instant \<Rightarrow> decimal \<Rightarrow> decimal \<Rightarrow> decimal \<Rightarrow> outcome_label" where
  "sample_outcome symbol t entry horizon gross = \<lparr>ol_outcome_version = ''out-v1'', ol_outcome_configuration_sha256 = replicate 64 CHR ''3'',
     ol_feature_version = ''f-v1'', ol_feature_configuration_sha256 = replicate 64 CHR ''4'',
     ol_feature_snapshot_sha256 = replicate 64 CHR ''1'', ol_stream_session_id = ''s1'', ol_symbol = symbol, ol_trade_date = 7,
     ol_decision_at = t, ol_action = BUY, ol_horizon_seconds = 300, ol_order_quantity = 200, ol_entry_at = t + second_us,
     ol_horizon_at = t + 300 * second_us, ol_entry_quote_received_at = Some t, ol_entry_receive_sequence = Some 1,
     ol_entry_vwap = Some entry, ol_horizon_quote_received_at = Some (t + 299 * second_us), ol_horizon_receive_sequence = Some 9,
     ol_horizon_vwap = Some horizon, ol_gross_return_bps = Some gross, ol_reasons = []\<rparr>"

definition sample_proposal :: "string \<Rightarrow> instant \<Rightarrow> decimal \<Rightarrow> decimal \<Rightarrow> decimal \<Rightarrow> cycle_proposal" where
  "sample_proposal symbol t entry horizon gross = \<lparr>pr_candidate = sample_candidate symbol t (1/2),
     pr_arbitration = sample_selection symbol t, pr_outcome = sample_outcome symbol t entry horizon gross\<rparr>"

definition sample_simulation_env :: simulation_env where
  "sample_simulation_env = \<lparr>sv_candidate_sha256 = sample_sha,
     sv_arbitration_sha256 = (\<lambda>a. replicate 63 CHR ''0'' @ (if ca_symbol a = ''VIC'' then ''a'' else ''b'')),
     sv_outcome_sha256 = (\<lambda>_. replicate 64 CHR ''5'')\<rparr>"

text \<open>VIC is bought at 50000 and sold at 50500; VHM comes second and finds the daily limit of one cycle used up.\<close>

definition sample_day :: simulation_request where
  "sample_day = \<lparr>sq_trade_date = 7,
     sq_account = \<lparr>ac_as_of = sample_day_open, ac_source = ''statement'', ac_cash_vnd = 100000000,
       ac_positions = map (\<lambda>s. \<lparr>ap_symbol = s, ap_settled_qty = 1000, ap_t1_qty = 100, ap_t2_qty = 0, ap_core_min_qty = 500,
         ap_start_price = 49000\<rparr>) [''VHM'', ''VIC'']\<rparr>,
     sq_costs = \<lparr>cp_version = ''costs-v1'', cp_effective_from = 0, cp_effective_to = None, cp_buy_fee_bps = 10, cp_sell_fee_bps = 10,
       cp_sell_tax_bps = 10, cp_extra_slippage_bps = 5, cp_basis = USER_SUPPLIED, cp_account_plan = None, cp_fee_source = None,
       cp_fee_checked_at = None\<rparr>,
     sq_advance = None,
     sq_risk = \<lparr>rk_max_cycle_quantity = 500, rk_max_order_notional_vnd = 50000000, rk_max_cycles_per_day = 1,
       rk_max_daily_loss_vnd = 1000000, rk_cash_reserve_vnd = 1000000\<rparr>,
     sq_lot_size = 100,
     sq_closing_marks = map (\<lambda>s. \<lparr>cm_symbol = s, cm_as_of = sample_day_open + 20000 * second_us, cm_price = 50000, cm_source = ''close''\<rparr>)
       [''VHM'', ''VIC''],
     sq_selection_evidence = map (\<lambda>(s, t). \<lparr>sel_arbitration_sha256 = sv_arbitration_sha256 sample_simulation_env (sample_selection s t),
         sel_selected_at = t, sel_source = ''journal'', sel_source_sha256 = replicate 64 CHR ''6''\<rparr>)
       [(''VIC'', sample_day_open + 60 * second_us), (''VHM'', sample_day_open + 120 * second_us)],
     sq_proposals = [sample_proposal ''VIC'' (sample_day_open + 60 * second_us) 50000 50500 100,
       sample_proposal ''VHM'' (sample_day_open + 120 * second_us) 40000 39800 (- 50)]\<rparr>"

lemma sample_day_valid: "SimulationRequest sample_simulation_env vietnam_zone sample_day = Inr sample_day"
proof -
  have "case SimulationRequest sample_simulation_env vietnam_zone sample_day of Inl _ \<Rightarrow> False | Inr _ \<Rightarrow> True" by code_simp
  then show ?thesis using SimulationRequest_Inr(1) by (auto split: sum.splits)
qed

lemma sample_day_digests: "proper_digests sample_simulation_env" "is_sha256 (replicate 64 CHR ''7'')"
  by (auto simp: proper_digests_def sample_simulation_env_def is_sha256_def digit_def)

lemma sample_exact_day: "exact_day sample_day 20000000"
  unfolding exact_day_def by code_simp

lemma sample_simulation:
  obtains report where "simulate_cycles sample_simulation_env (\<lambda>_. replicate 64 CHR ''7'') sample_day = Inr report"
    "smr_complete report" "map cr_status (smr_cycles report) = [CLOSED_CYCLE, REJECTED_CYCLE]"
proof -
  have "case simulate_cycles sample_simulation_env (\<lambda>_. replicate 64 CHR ''7'') sample_day of Inl _ \<Rightarrow> False
     | Inr report \<Rightarrow> smr_complete report \<and> map cr_status (smr_cycles report) = [CLOSED_CYCLE, REJECTED_CYCLE]"
    by code_simp
  then show ?thesis by (auto dest!: case_res_True intro: that)
qed

theorem simulation_protects_inventory_witness:
  "\<exists>report e. simulate_cycles sample_simulation_env (\<lambda>_. replicate 64 CHR ''7'') sample_day = Inr report \<and>
     e \<in> set (smr_end_positions report) \<and> en_symbol e = ''VIC'' \<and> 500 \<le> en_settled_qty e \<and>
     en_settled_qty e + en_bought_today_qty e = 1000"
proof -
  obtain report where r: "simulate_cycles sample_simulation_env (\<lambda>_. replicate 64 CHR ''7'') sample_day = Inr report"
    "smr_complete report" "map cr_status (smr_cycles report) = [CLOSED_CYCLE, REJECTED_CYCLE]"
    by (rule sample_simulation)
  show ?thesis using simulation_protects_inventory [OF sample_day_valid r(1)] r(1,2)
    by (fastforce simp: sample_day_def)
qed

theorem every_proposal_accounted_witness:
  "\<exists>report. simulate_cycles sample_simulation_env (\<lambda>_. replicate 64 CHR ''7'') sample_day = Inr report \<and>
     map cr_cycle_id (smr_cycles report) = map (cycle_id sample_simulation_env) (sort_key result_order (sq_proposals sample_day))"
proof -
  obtain report where "simulate_cycles sample_simulation_env (\<lambda>_. replicate 64 CHR ''7'') sample_day = Inr report"
    "smr_complete report" "map cr_status (smr_cycles report) = [CLOSED_CYCLE, REJECTED_CYCLE]"
    by (rule sample_simulation)
  then show ?thesis
    using every_proposal_accounted [OF sample_day_valid sample_day_digests(1), of "\<lambda>_. replicate 64 CHR ''7''"] sample_day_digests(2)
    by auto
qed

theorem exact_simulation_reconciles_witness:
  "\<exists>report net. simulate_cycles sample_simulation_env (\<lambda>_. replicate 64 CHR ''7'') sample_day = Inr report \<and>
     smr_net_t0_alpha_vnd report = Some net \<and>
     smr_ending_cash_vnd report + smr_pending_sale_proceeds_vnd report = smr_starting_cash_vnd report + net"
proof -
  obtain report where "simulate_cycles sample_simulation_env (\<lambda>_. replicate 64 CHR ''7'') sample_day = Inr report"
    "smr_complete report" "map cr_status (smr_cycles report) = [CLOSED_CYCLE, REJECTED_CYCLE]"
    by (rule sample_simulation)
  then show ?thesis
    using exact_simulation_reconciles [OF sample_day_valid sample_day_digests(1) _ sample_exact_day, of "\<lambda>_. replicate 64 CHR ''7''"]
      sample_day_digests(2) by auto
qed

end
