(* ===== verification/FeatureRuns.thy ===== *)
theory FeatureRuns
  imports FeatureEngine
begin

text \<open>
  Runs of the feature engine and what they guarantee. A run applies envelopes and decision clocks in any order and logs what the
  engine observed, newest first. The reference state of a symbol is computed from that log alone: the events of the
  symbol since the last reconnect or session change, with every trade and every book transition kept. The engine, which
  updates its deques step by step and prunes them, produces the snapshots of the reference state.
\<close>

section \<open>Runs and their log\<close>

datatype feature_op = Feed stream_envelope | Clock instant

datatype observation = Reconnected | Observed market_session market_event | Decided market_session

definition observations :: "zone_info \<Rightarrow> feature_engine \<Rightarrow> stream_envelope \<Rightarrow> market_update \<Rightarrow> observation list" where
  "observations z g e u =
     (case mu_event u of None \<Rightarrow> []
      | Some event \<Rightarrow> (case event_session z (en_configuration g) event of Inl _ \<Rightarrow> [] | Inr session \<Rightarrow> [Observed session event])) @
     (if switches_stream g e then [Reconnected] else [])"

fun feature_step ::
  "'e feature_env_scheme \<Rightarrow> market_feed \<Rightarrow> zone_info \<Rightarrow> feature_engine \<times> observation list \<Rightarrow> feature_op \<Rightarrow>
   (feature_engine \<times> observation list) res" where
  "feature_step E F z (g, h) (Feed e) = (let (g', r) = feature_apply F z g e in rbind r (\<lambda>u. Inr (g', observations z g e u @ h)))"
| "feature_step E F z (g, h) (Clock d) = (let (g', r) = feature_snapshots E z g (Aware d) in
     rbind (decision_guards z g (Aware d)) (\<lambda>(_, session). rbind r (\<lambda>_. Inr (g', Decided session # h))))"

definition feature_run ::
  "'e feature_env_scheme \<Rightarrow> market_feed \<Rightarrow> zone_info \<Rightarrow> trading_version \<Rightarrow> feature_op list \<Rightarrow>
   (feature_engine \<times> observation list) res" where
  "feature_run E F z c ops = rbind (new_feature_engine c) (\<lambda>g. run_res (feature_step E F z) (g, []) ops)"

section \<open>The reference state\<close>

text \<open>The market session a symbol is in, and its events in that session, both read from the log.\<close>

fun last_session :: "string \<Rightarrow> observation list \<Rightarrow> market_session option" where
  "last_session symbol [] = None"
| "last_session symbol (Reconnected # h) = None"
| "last_session symbol (Decided m # h) = Some m"
| "last_session symbol (Observed m event # h) = (if event_symbol event = symbol then Some m else last_session symbol h)"

fun recent_events :: "string \<Rightarrow> market_session \<Rightarrow> observation list \<Rightarrow> market_event list" where
  "recent_events symbol m [] = []"
| "recent_events symbol m (Reconnected # h) = []"
| "recent_events symbol m (Decided m' # h) = (if m' = m then recent_events symbol m h else [])"
| "recent_events symbol m (Observed m' event # h) =
     (if event_symbol event \<noteq> symbol then recent_events symbol m h
      else if m' = m then recent_events symbol m h @ [event] else [])"

definition event_trades :: "market_event \<Rightarrow> trade list" where
  "event_trades event = (case event of TradeEvent t \<Rightarrow> [t] | _ \<Rightarrow> [])"

definition event_quotes :: "market_event \<Rightarrow> quote_snapshot list" where
  "event_quotes event = (case event of QuoteEvent q \<Rightarrow> [q] | _ \<Rightarrow> [])"

definition is_auction :: "market_event \<Rightarrow> bool" where
  "is_auction event = (case event of AuctionEvent _ \<Rightarrow> True | _ \<Rightarrow> False)"

definition flow_of :: "quote_snapshot option \<Rightarrow> quote_snapshot \<Rightarrow> (instant \<times> int) list" where
  "flow_of previous q = (case book_transition previous q of Inl _ \<Rightarrow> [] | Inr flows \<Rightarrow> flows)"

text \<open>The transitions of consecutive quotes.\<close>

fun flows_between :: "quote_snapshot list \<Rightarrow> (instant \<times> int) list" where
  "flows_between (p # q # rest) = flow_of (Some p) q @ flows_between (q # rest)"
| "flows_between _ = []"

abbreviation final :: "'a list \<Rightarrow> 'a option" where
  "final \<equiv> last_of (\<lambda>x. x)"

definition reference_features :: "market_session \<Rightarrow> market_event list \<Rightarrow> symbol_features" where
  "reference_features m events =
     (let trades = concat (map event_trades events); quotes = concat (map event_quotes events) in
      \<lparr>sf_session = Some m,
       sf_observed_from = (case filter (\<lambda>e. \<not> is_auction e) events of [] \<Rightarrow> None | e # _ \<Rightarrow> Some (event_received_at e)),
       sf_latest_trade = final trades, sf_latest_quote = final quotes, sf_trades = trades, sf_book_flows = flows_between quotes\<rparr>)"

section \<open>The engine state is the reference state without what has expired\<close>

definition keeps :: "('a \<Rightarrow> bool) \<Rightarrow> 'a list \<Rightarrow> 'a list \<Rightarrow> bool" where
  "keeps old all kept \<longleftrightarrow> (\<exists>dropped. all = dropped @ kept \<and> list_all old dropped)"

definition matches :: "(instant \<Rightarrow> bool) \<Rightarrow> symbol_features \<Rightarrow> symbol_features \<Rightarrow> bool" where
  "matches old ref st \<longleftrightarrow> sf_session st = sf_session ref \<and> sf_observed_from st = sf_observed_from ref \<and>
     sf_latest_trade st = sf_latest_trade ref \<and> sf_latest_quote st = sf_latest_quote ref \<and>
     keeps (\<lambda>t. old (tr_received_at t)) (sf_trades ref) (sf_trades st) \<and>
     keeps (\<lambda>f. old (fst f)) (sf_book_flows ref) (sf_book_flows st)"

lemma keeps_refl: "keeps old xs xs"
  by (simp add: keeps_def)

lemma keeps_snoc: "keeps old xs ys \<Longrightarrow> keeps old (xs @ zs) (ys @ zs)"
  by (auto simp: keeps_def)

lemma keeps_mono: "keeps old xs ys \<Longrightarrow> (\<And>x. old x \<Longrightarrow> old' x) \<Longrightarrow> keeps old' xs ys"
  by (auto simp: keeps_def list_all_iff)

lemma keeps_drop:
  assumes "keeps old xs ys" "\<And>x. p x \<Longrightarrow> old x"
  shows "keeps old xs (dropWhile p ys)"
proof -
  obtain dropped where "xs = dropped @ ys" "list_all old dropped" using assms(1) by (auto simp: keeps_def)
  moreover have "list_all old (takeWhile p ys)" using assms(2) by (auto simp: list_all_iff dest: set_takeWhileD)
  ultimately have "xs = (dropped @ takeWhile p ys) @ dropWhile p ys" "list_all old (dropped @ takeWhile p ys)" by simp_all
  then show ?thesis unfolding keeps_def by blast
qed

lemma keeps_filter:
  "keeps old xs ys \<Longrightarrow> (\<And>x. old x \<Longrightarrow> \<not> p x) \<Longrightarrow> filter p ys = filter p xs"
  by (auto simp: keeps_def list_all_iff filter_empty_conv)

lemma matches_mono: "matches old ref st \<Longrightarrow> (\<And>t. old t \<Longrightarrow> old' t) \<Longrightarrow> matches old' ref st"
  by (auto simp: matches_def intro: keeps_mono)

lemma matches_prune:
  "matches old ref st \<Longrightarrow> (\<And>t. t \<le> at_time - max_window \<Longrightarrow> old t) \<Longrightarrow> matches old ref (prune_features max_window at_time st)"
  by (auto simp: matches_def prune_features_def Let_def intro: keeps_drop)

text \<open>Windows inside the kept range do not see the difference.\<close>

lemma matches_window:
  assumes "matches old ref st" "\<And>t. old t \<Longrightarrow> t \<le> decision_at - seconds * second_us"
  shows "feature_window st decision_at seconds = feature_window ref decision_at seconds"
proof -
  have out: "\<not> inside_window decision_at seconds t" if "old t" for t
    using assms(2) [OF that] by (simp add: inside_window_def)
  have k: "keeps (\<lambda>t. old (tr_received_at t)) (sf_trades ref) (sf_trades st)"
    "keeps (\<lambda>f. old (fst f)) (sf_book_flows ref) (sf_book_flows st)" using assms(1) by (simp_all add: matches_def)
  have "filter (\<lambda>t. inside_window decision_at seconds (tr_received_at t)) (sf_trades st) =
      filter (\<lambda>t. inside_window decision_at seconds (tr_received_at t)) (sf_trades ref)"
    using k(1) by (rule keeps_filter) (rule out)
  moreover have "filter (\<lambda>f. inside_window decision_at seconds (fst f)) (sf_book_flows st) =
      filter (\<lambda>f. inside_window decision_at seconds (fst f)) (sf_book_flows ref)"
    using k(2) by (rule keeps_filter) (rule out)
  ultimately show ?thesis by (simp add: feature_window_def)
qed

lemma matches_snapshot:
  assumes "matches old ref st"
    "\<And>seconds t. seconds \<in> set (fc_windows_seconds (tv_features (en_configuration g))) \<Longrightarrow> old t \<Longrightarrow> t \<le> decision_at - seconds * second_us"
  shows "feature_snapshot_of E z g symbol st decision_at m = feature_snapshot_of E z g symbol ref decision_at m"
proof -
  have "map_res (feature_window st decision_at) (fc_windows_seconds (tv_features (en_configuration g))) =
      map_res (feature_window ref decision_at) (fc_windows_seconds (tv_features (en_configuration g)))"
    using assms by (intro map_res_cong matches_window refl) blast+
  then show ?thesis using assms(1) by (simp add: feature_snapshot_of_def matches_def Let_def)
qed

section \<open>One event\<close>

lemma final_snoc [simp]: "final (xs @ [x]) = Some x" "final [] = None"
  by (simp_all add: last_of_def)

lemma flows_between_snoc: "flows_between (qs @ [q]) = flows_between qs @ flow_of (final qs) q"
  by (induction qs rule: flows_between.induct) (simp_all add: last_of_def flow_of_def book_transition_def)

lemma reference_snoc:
  "reference_features m (events @ [AuctionEvent a]) = reference_features m events"
  "reference_features m (events @ [TradeEvent t]) = (let ref = start_observation (tr_received_at t) (reference_features m events)
     in ref\<lparr>sf_latest_trade := Some t, sf_trades := sf_trades ref @ [t]\<rparr>)"
  "reference_features m (events @ [QuoteEvent q]) = (let ref = start_observation (qs_received_at q) (reference_features m events)
     in ref\<lparr>sf_book_flows := sf_book_flows ref @ flow_of (sf_latest_quote ref) q, sf_latest_quote := Some q\<rparr>)"
  by (auto simp: reference_features_def Let_def event_trades_def event_quotes_def is_auction_def start_observation_def
      flows_between_snoc split: list.splits)

lemma matches_start: "matches old ref st \<Longrightarrow> matches old (start_observation t ref) (start_observation t st)"
  by (auto simp: matches_def start_observation_def)

lemma observe_matches:
  assumes "matches old (reference_features m events) st" "observe_features max_window st event = (st', Inr ())"
    "\<And>t. t \<le> event_received_at event - max_window \<Longrightarrow> old t"
  shows "matches old (reference_features m (events @ [event])) st'"
proof (cases event)
  case (AuctionEvent a)
  then show ?thesis using assms by (simp add: reference_snoc)
next
  case (TradeEvent t)
  let ?st = "start_observation (tr_received_at t) st" and ?ref = "start_observation (tr_received_at t) (reference_features m events)"
  have "matches old ?ref ?st" using assms(1) by (rule matches_start)
  then have "matches old (?ref\<lparr>sf_latest_trade := Some t, sf_trades := sf_trades ?ref @ [t]\<rparr>)
      (?st\<lparr>sf_latest_trade := Some t, sf_trades := sf_trades ?st @ [t]\<rparr>)"
    by (simp add: matches_def keeps_snoc)
  then show ?thesis using assms(2,3) by (auto simp: TradeEvent reference_snoc Let_def intro: matches_prune)
next
  case (QuoteEvent q)
  let ?st = "start_observation (qs_received_at q) st" and ?ref = "start_observation (qs_received_at q) (reference_features m events)"
  have m: "matches old ?ref ?st" using assms(1) by (rule matches_start)
  obtain flows where flows: "book_transition (sf_latest_quote ?st) q = Inr flows"
    and st': "st' = prune_features max_window (qs_received_at q) (?st\<lparr>sf_book_flows := sf_book_flows ?st @ flows, sf_latest_quote := Some q\<rparr>)"
    using assms(2) by (auto simp: QuoteEvent Let_def split: sum.splits)
  have "flow_of (sf_latest_quote ?ref) q = flows" using flows m by (simp add: matches_def flow_of_def)
  then have "matches old (?ref\<lparr>sf_book_flows := sf_book_flows ?ref @ flow_of (sf_latest_quote ?ref) q, sf_latest_quote := Some q\<rparr>)
      (?st\<lparr>sf_book_flows := sf_book_flows ?st @ flows, sf_latest_quote := Some q\<rparr>)"
    using m by (simp add: matches_def keeps_snoc)
  then show ?thesis using assms(3) by (auto simp: st' QuoteEvent reference_snoc Let_def intro: matches_prune)
qed


section \<open>Every run keeps the engine on its reference\<close>

lemma matches_refl: "matches old ref ref"
  by (simp add: matches_def keeps_refl)

lemma recent_other_session: "last_session symbol h \<noteq> Some m \<Longrightarrow> recent_events symbol m h = []"
  by (induction symbol m h rule: recent_events.induct) (auto split: if_splits)

definition symbol_ok :: "(instant \<Rightarrow> bool) \<Rightarrow> observation list \<Rightarrow> string \<times> symbol_features \<Rightarrow> bool" where
  "symbol_ok old h x \<longleftrightarrow> sf_session (snd x) = last_session (fst x) h \<and>
     (case last_session (fst x) h of None \<Rightarrow> snd x = no_features
      | Some m \<Rightarrow> matches old (reference_features m (recent_events (fst x) m h)) (snd x))"

lemma enter_matches:
  assumes "symbol_ok old h (symbol, st)"
  shows "matches old (reference_features m (recent_events symbol m h)) (enter_session m st)"
proof (cases "last_session symbol h = Some m")
  case True
  then show ?thesis using assms by (simp add: symbol_ok_def enter_session_def)
next
  case False
  then have "enter_session m st = reset_features m" using assms by (auto simp: symbol_ok_def enter_session_def)
  moreover have "reference_features m [] = reset_features m"
    by (simp add: reference_features_def reset_features_def no_features_def)
  ultimately show ?thesis using recent_other_session [OF False] by (simp add: matches_refl)
qed

lemma symbol_okI: "last_session symbol h = Some m \<Longrightarrow> matches old (reference_features m (recent_events symbol m h)) st \<Longrightarrow>
    symbol_ok old h (symbol, st)"
  by (auto simp: symbol_ok_def matches_def reference_features_def Let_def)

lemma symbol_ok_mono: "symbol_ok old h x \<Longrightarrow> (\<And>t. old t \<Longrightarrow> old' t) \<Longrightarrow> symbol_ok old' h x"
  by (auto simp: symbol_ok_def split: option.splits intro: matches_mono)

text \<open>What lies further back than the longest window from the latest receipt or decision.\<close>

definition expired :: "feature_engine \<Rightarrow> instant \<Rightarrow> bool" where
  "expired g t \<longleftrightarrow> (\<exists>b. (en_last_received_at g = Some b \<or> en_last_decision_at g = Some b) \<and> t \<le> b - en_max_window g)"

definition table_ok :: "(instant \<Rightarrow> bool) \<Rightarrow> trading_version \<Rightarrow> feature_engine \<times> observation list \<Rightarrow> bool" where
  "table_ok old c x \<longleftrightarrow> en_configuration (fst x) = c \<and>
     en_max_window (fst x) = last (fc_windows_seconds (tv_features c)) * second_us \<and>
     map fst (en_symbols (fst x)) = mc_symbols (tv_market c) \<and> (\<forall>y \<in> set (en_symbols (fst x)). symbol_ok old (snd x) y)"

definition feature_inv :: "trading_version \<Rightarrow> feature_engine \<times> observation list \<Rightarrow> bool" where
  "feature_inv c x \<longleftrightarrow> table_ok (expired (fst x)) c x"

lemma update_features_fst [simp]: "map fst (update_features symbol st xs) = map fst xs"
  by (induction xs) (auto simp: update_features_def)

lemma update_features_mem:
  "(x, y) \<in> set (update_features symbol st xs) \<Longrightarrow> (x = symbol \<and> y = st) \<or> (x \<noteq> symbol \<and> (x, y) \<in> set xs)"
  by (auto simp: update_features_def split: if_splits)

lemma update_features_map_of:
  "map_of (update_features symbol st xs) x = (if x = symbol \<and> x \<in> fst ` set xs then Some st else map_of xs x)"
  by (induction xs) (auto simp: update_features_def rev_image_eqI)

lemma table_ok_mono: "table_ok old c x \<Longrightarrow> (\<And>t. old t \<Longrightarrow> old' t) \<Longrightarrow> table_ok old' c x"
  by (auto simp: table_ok_def intro: symbol_ok_mono)

lemma new_engine_inv: "new_feature_engine c = Inr g \<Longrightarrow> feature_inv c (g, [])"
  by (auto simp: new_feature_engine_def feature_inv_def table_ok_def fresh_features_def symbol_ok_def no_features_def o_def
      split: if_splits)

lemma table_ok_market: "table_ok old c (g\<lparr>en_market := market\<rparr>, h) = table_ok old c (g, h)"
  by (simp add: table_ok_def)

lemma reset_stream_ok:
  assumes "table_ok old c (g, h)"
  shows "table_ok old c (reset_stream g e, (if switches_stream g e then [Reconnected] else []) @ h)"
proof (cases "switches_stream g e")
  case True
  then show ?thesis using assms
    by (auto simp: reset_stream_def table_ok_def fresh_features_def symbol_ok_def no_features_def o_def)
qed (use assms in \<open>simp add: reset_stream_def\<close>)

lemma observe_market_ok:
  assumes "table_ok old c (g, h)" "observe_market z g event = (g', Inr ())"
    "\<And>t. t \<le> event_received_at event - en_max_window g \<Longrightarrow> old t"
  obtains m where "event_session z c event = Inr m" "table_ok old c (g', Observed m event # h)"
    "en_market g' = en_market g" "en_last_received_at g' = en_last_received_at g" "en_last_decision_at g' = en_last_decision_at g"
proof -
  have c: "en_configuration g = c" using assms(1) by (simp add: table_ok_def)
  obtain st m st' where st: "map_of (en_symbols g) (event_symbol event) = Some st" and m: "event_session z c event = Inr m"
    and st': "observe_features (en_max_window g) (enter_session m st) event = (st', Inr ())"
    and g': "g' = g\<lparr>en_symbols := update_features (event_symbol event) st' (en_symbols g)\<rparr>"
    using assms(2) by (auto simp: observe_market_def c split: option.splits sum.splits prod.splits)
  let ?symbol = "event_symbol event"
  have "symbol_ok old h (?symbol, st)" using assms(1) map_of_SomeD [OF st] by (auto simp: table_ok_def)
  then have "matches old (reference_features m (recent_events ?symbol m h)) (enter_session m st)" by (rule enter_matches)
  from observe_matches [OF this st' assms(3)]
  have own: "symbol_ok old (Observed m event # h) (?symbol, st')" by (intro symbol_okI) auto
  have "symbol_ok old (Observed m event # h) (x, y)" if "(x, y) \<in> set (en_symbols g')" for x y
  proof -
    have "(x = ?symbol \<and> y = st') \<or> (x \<noteq> ?symbol \<and> (x, y) \<in> set (en_symbols g))"
      using that by (auto simp: g' dest: update_features_mem)
    then show ?thesis
    proof
      assume other: "x \<noteq> ?symbol \<and> (x, y) \<in> set (en_symbols g)"
      then have "symbol_ok old h (x, y)" using assms(1) by (auto simp: table_ok_def)
      then show ?thesis using other by (auto simp: symbol_ok_def split: option.splits)
    qed (use own in auto)
  qed
  then have "table_ok old c (g', Observed m event # h)" using assms(1) by (auto simp: table_ok_def g')
  then show ?thesis using that m by (simp add: g')
qed

lemma feature_apply_Inr:
  assumes "feature_apply F z g e = (g', Inr u)"
  obtains market g3 where "\<And>d. en_last_decision_at g = Some d \<Longrightarrow> d \<le> se_received_at e"
    "apply_envelope F z (en_market g) e = (market, Inr u)" "g' = note_envelope g3 e"
    "case mu_event u of None \<Rightarrow> g3 = (reset_stream g e)\<lparr>en_market := market\<rparr>
       | Some event \<Rightarrow> observe_market z ((reset_stream g e)\<lparr>en_market := market\<rparr>) event = (g3, Inr ())"
proof -
  have m: "en_market (reset_stream g e) = en_market g" by (simp add: reset_stream_def)
  have d: "\<And>d. en_last_decision_at g = Some d \<Longrightarrow> d \<le> se_received_at e"
    using assms by (auto simp: feature_apply_def split: if_splits)
  obtain market r where r: "apply_envelope F z (en_market g) e = (market, r)" by (rule prod.exhaust)
  have r': "r = Inr u" using assms by (auto simp: feature_apply_def Let_def m r split: if_splits sum.splits prod.splits)
  have "case mu_event u of None \<Rightarrow> g' = note_envelope ((reset_stream g e)\<lparr>en_market := market\<rparr>) e
      | Some event \<Rightarrow> \<exists>g3. g' = note_envelope g3 e \<and> observe_market z ((reset_stream g e)\<lparr>en_market := market\<rparr>) event = (g3, Inr ())"
    using assms by (auto simp: feature_apply_def Let_def m r r' split: if_splits sum.splits prod.splits option.splits)
  then show ?thesis using that [OF d] r r' by (cases "mu_event u") auto
qed

lemma note_envelope_keeps [simp]:
  "en_configuration (note_envelope g e) = en_configuration g" "en_market (note_envelope g e) = en_market g"
  "en_symbols (note_envelope g e) = en_symbols g" "en_max_window (note_envelope g e) = en_max_window g"
  "en_last_decision_at (note_envelope g e) = en_last_decision_at g"
  by (simp_all add: note_envelope_def)

lemma note_envelope_received:
  obtains r where "en_last_received_at (note_envelope g e) = Some r" "se_received_at e \<le> r"
    "\<And>r'. en_last_received_at g = Some r' \<Longrightarrow> r' \<le> r"
proof (cases "en_last_received_at g")
  case None
  then show ?thesis using that by (simp add: note_envelope_def)
next
  case (Some r)
  then show ?thesis using that by (cases "r \<le> se_received_at e") (simp_all add: note_envelope_def)
qed

lemma feed_inv:
  assumes "feature_inv c (g, h)" "feature_apply F z g e = (g', Inr u)"
  shows "feature_inv c (g', observations z g e u @ h)"
proof -
  obtain market g3 where m: "apply_envelope F z (en_market g) e = (market, Inr u)" "g' = note_envelope g3 e"
    and g3: "case mu_event u of None \<Rightarrow> g3 = (reset_stream g e)\<lparr>en_market := market\<rparr>
       | Some event \<Rightarrow> observe_market z ((reset_stream g e)\<lparr>en_market := market\<rparr>) event = (g3, Inr ())"
    using feature_apply_Inr [OF assms(2)] by metis
  let ?g2 = "(reset_stream g e)\<lparr>en_market := market\<rparr>" and ?h1 = "(if switches_stream g e then [Reconnected] else []) @ h"
  have keep: "en_last_received_at ?g2 = en_last_received_at g" "en_last_decision_at ?g2 = en_last_decision_at g"
    "en_max_window ?g2 = en_max_window g" "en_configuration ?g2 = en_configuration g"
    by (simp_all add: reset_stream_def)
  have c: "en_configuration g = c" using assms(1) by (simp add: feature_inv_def table_ok_def)
  let ?old = "\<lambda>t. expired g t \<or> t \<le> se_received_at e - en_max_window g"
  have "table_ok ?old c (g, h)" using assms(1) by (auto simp: feature_inv_def intro: table_ok_mono)
  then have "table_ok ?old c (reset_stream g e, ?h1)" by (rule reset_stream_ok)
  then have ok: "table_ok ?old c (?g2, ?h1)" by (simp only: table_ok_market)
  have end_ok: "table_ok ?old c (g3, observations z g e u @ h) \<and> en_last_received_at g3 = en_last_received_at g \<and>
      en_last_decision_at g3 = en_last_decision_at g \<and> en_max_window g3 = en_max_window g"
  proof (cases "mu_event u")
    case None
    then show ?thesis using ok g3 keep by (simp add: observations_def)
  next
    case (Some event)
    have "event_received_at event = se_received_at e" using m(1) Some by (rule apply_envelope_received)
    then have old: "?old t" if "t \<le> event_received_at event - en_max_window ?g2" for t using that by (simp add: keep)
    have obs: "observe_market z ?g2 event = (g3, Inr ())" using g3 Some by simp
    obtain s where s: "event_session z c event = Inr s" "table_ok ?old c (g3, Observed s event # ?h1)"
      "en_market g3 = en_market ?g2" "en_last_received_at g3 = en_last_received_at ?g2" "en_last_decision_at g3 = en_last_decision_at ?g2"
      by (rule observe_market_ok [OF ok obs old])
    have "en_max_window g3 = en_max_window g" using s(2) assms(1) by (simp add: table_ok_def feature_inv_def)
    then show ?thesis using s keep by (simp add: observations_def Some c)
  qed
  have "expired g' t" if "?old t" for t
  proof -
    obtain r where r: "en_last_received_at g' = Some r" "se_received_at e \<le> r" "\<And>r'. en_last_received_at g = Some r' \<Longrightarrow> r' \<le> r"
      using note_envelope_received [of g3 e] end_ok m(2) by metis
    have g': "en_max_window g' = en_max_window g" "en_last_decision_at g' = en_last_decision_at g"
      using end_ok m(2) by simp_all
    from that show ?thesis
    proof
      assume "expired g t"
      then obtain b where "en_last_received_at g = Some b \<or> en_last_decision_at g = Some b" "t \<le> b - en_max_window g"
        by (auto simp: expired_def)
      then show ?thesis using r(1) r(3) [of b] by (auto simp: expired_def g')
    next
      assume "t \<le> se_received_at e - en_max_window g"
      then have "t \<le> r - en_max_window g'" using r(2) by (simp add: g')
      then show ?thesis using r(1) by (auto simp: expired_def)
    qed
  qed
  then have "table_ok (expired g') c (g3, observations z g e u @ h)" using end_ok table_ok_mono by blast
  then show ?thesis by (simp add: feature_inv_def table_ok_def m(2))
qed

section \<open>A decision clock reads the reference\<close>

lemma snapshot_loop_result:
  assumes "distinct symbols" "set symbols \<subseteq> fst ` set table" "snapshot_loop prepare build symbols table = (table', r)"
  shows "r = map_res (\<lambda>s. build s (prepare (the (map_of table s)))) symbols \<and> map fst table' = map fst table \<and>
    (\<forall>xs. r = Inr xs \<longrightarrow> (\<forall>s. map_of table' s = (if s \<in> set symbols then map_option prepare (map_of table s) else map_of table s)))"
  using assms
proof (induction symbols arbitrary: table table' r)
  case (Cons symbol rest)
  obtain st where st: "map_of table symbol = Some st"
    using Cons.prems(2) by (cases "map_of table symbol") (auto simp: map_of_eq_None_iff)
  let ?table = "update_features symbol (prepare st) table"
  obtain table2 r2 where loop: "snapshot_loop prepare build rest ?table = (table2, r2)" by (rule prod.exhaust)
  have keys: "fst ` set ?table = fst ` set table" using update_features_fst by (metis list.set_map)
  have ih: "r2 = map_res (\<lambda>s. build s (prepare (the (map_of ?table s)))) rest \<and> map fst table2 = map fst table \<and>
      (\<forall>xs. r2 = Inr xs \<longrightarrow> (\<forall>s. map_of table2 s = (if s \<in> set rest then map_option prepare (map_of ?table s) else map_of ?table s)))"
    using Cons.IH [OF _ _ loop] Cons.prems(1,2) keys by simp
  have other: "map_of ?table s = map_of table s" if "s \<in> set rest" for s
    using that Cons.prems(1) by (auto simp: update_features_map_of)
  then have same: "map_res (\<lambda>s. build s (prepare (the (map_of ?table s)))) rest = map_res (\<lambda>s. build s (prepare (the (map_of table s)))) rest"
    by (intro map_res_cong) auto
  have own: "map_of ?table symbol = Some (prepare st)" using Cons.prems(2) by (simp add: update_features_map_of)
  show ?case
  proof (cases "build symbol (prepare st)")
    case (Inl err)
    then show ?thesis using Cons.prems(3) by (auto simp: st Let_def)
  next
    case (Inr snapshot)
    then have r: "table' = table2" "r = rbind r2 (\<lambda>snapshots. Inr (snapshot # snapshots))"
      using Cons.prems(3) by (simp_all add: st Let_def loop)
    have "\<forall>s. map_of table2 s = (if s \<in> set (symbol # rest) then map_option prepare (map_of table s) else map_of table s)"
      if found: "r = Inr xs" for xs
    proof -
      obtain ys where "r2 = Inr ys" using found r(2) by (auto simp: rbind_eq_Inr)
      then show ?thesis using ih other own st Cons.prems(1) by (auto simp: update_features_map_of)
    qed
    then show ?thesis using ih r same by (simp add: st Inr)
  qed
qed simp

lemma decision_guards_Inr:
  assumes "decision_guards z g (Aware d) = Inr (t, m)"
  shows "t = d" "\<And>r. en_last_received_at g = Some r \<Longrightarrow> r \<le> d" "\<And>r. en_last_decision_at g = Some r \<Longrightarrow> r < d"
    "contains (en_configuration g) (local_date z d)" "session_at z (schedule_of (en_configuration g)) (local_date z d) (Aware d) = Inr m"
    "d mod second_us = 0"
  using assms by (auto simp: decision_guards_def Let_def rbind_eq_Inr split: if_splits)

lemma window_within_longest:
  assumes "FeatureConfiguration f = Inr f'" "seconds \<in> set (fc_windows_seconds f)"
  shows "1 \<le> seconds" "seconds \<le> last (fc_windows_seconds f)"
proof -
  have "sorted (fc_windows_seconds f)" "fc_windows_seconds f \<noteq> []" "\<forall>w \<in> set (fc_windows_seconds f). fc_cadence_seconds f \<le> w"
    "1 \<le> fc_cadence_seconds f"
    using assms(1) by (auto simp: FeatureConfiguration_def sorted_set_fix list_ex_iff not_less split: if_splits)
  then show "1 \<le> seconds" "seconds \<le> last (fc_windows_seconds f)" using assms(2)
    by (force, cases "fc_windows_seconds f" rule: rev_cases) (auto simp: sorted_append)
qed

text \<open>The state a symbol is read in at a clock, and the state it is left in.\<close>

lemma clock_matches:
  assumes "table_ok (expired g) c (g, h)" "decision_guards z g (Aware d) = Inr (d, m)" "(symbol, st) \<in> set (en_symbols g)"
  shows "matches (\<lambda>t. t \<le> d - en_max_window g) (reference_features m (recent_events symbol m h)) (clock_features (en_max_window g) d m st)"
proof -
  have old: "t \<le> d - en_max_window g" if "expired g t" for t
    using that decision_guards_Inr [OF assms(2)] by (fastforce simp: expired_def)
  have "symbol_ok (\<lambda>t. t \<le> d - en_max_window g) h (symbol, st)"
    using assms(1,3) old by (fastforce simp: table_ok_def intro: symbol_ok_mono)
  from enter_matches [OF this, of m] show ?thesis unfolding clock_features_def by (rule matches_prune)
qed


text \<open>What the comprehension over the symbols computes.\<close>

lemma snapshot_loop_reference:
  assumes "feature_inv c (g, h)" "distinct (mc_symbols (tv_market c))" "FeatureConfiguration (tv_features c) = Inr f"
    and guards: "decision_guards z g (Aware d) = Inr (d, m)"
    and loop: "snapshot_loop (clock_features (en_max_window g) d m) (\<lambda>symbol st. feature_snapshot_of E z g symbol st d m)
      (mc_symbols (tv_market c)) (en_symbols g) = (table, r)"
  shows "r = map_res (\<lambda>symbol. feature_snapshot_of E z g symbol (reference_features m (recent_events symbol m h)) d m) (mc_symbols (tv_market c))"
    "r = Inr snapshots \<Longrightarrow> table_ok (\<lambda>t. t \<le> d - en_max_window g) c (g\<lparr>en_symbols := table\<rparr>, Decided m # h)"
proof -
  let ?old = "\<lambda>t. t \<le> d - en_max_window g" and ?ref = "\<lambda>symbol. reference_features m (recent_events symbol m h)"
  let ?prepare = "clock_features (en_max_window g) d m"
  have ok: "table_ok (expired g) c (g, h)" using assms(1) by (simp add: feature_inv_def)
  have keys: "map fst (en_symbols g) = mc_symbols (tv_market c)" and conf: "en_configuration g = c"
    and longest: "en_max_window g = last (fc_windows_seconds (tv_features c)) * second_us"
    using ok by (simp_all add: table_ok_def)
  have dist: "distinct (map fst (en_symbols g))" using assms(2) by (simp add: keys)
  have sub: "set (mc_symbols (tv_market c)) \<subseteq> fst ` set (en_symbols g)" using keys by (metis list.set_map order_refl)
  note found = snapshot_loop_result [OF assms(2) sub loop]
  have prepared: "matches ?old (?ref symbol) (?prepare st)" if "map_of (en_symbols g) symbol = Some st" for symbol st
    using clock_matches [OF ok guards map_of_SomeD [OF that]] .
  have "feature_snapshot_of E z g symbol (?prepare (the (map_of (en_symbols g) symbol))) d m = feature_snapshot_of E z g symbol (?ref symbol) d m"
    if member: "symbol \<in> set (mc_symbols (tv_market c))" for symbol
  proof -
    obtain st where st: "map_of (en_symbols g) symbol = Some st"
      using member sub by (cases "map_of (en_symbols g) symbol") (auto simp: map_of_eq_None_iff)
    have "t \<le> d - seconds * second_us" if "seconds \<in> set (fc_windows_seconds (tv_features (en_configuration g)))" "?old t" for seconds t
      using that window_within_longest(2) [OF assms(3), of seconds] by (simp add: conf longest)
    with prepared [OF st] show ?thesis unfolding st option.sel by (rule matches_snapshot)
  qed
  then show "r = map_res (\<lambda>symbol. feature_snapshot_of E z g symbol (?ref symbol) d m) (mc_symbols (tv_market c))"
    using found by (simp cong: map_res_cong)
  assume r: "r = Inr snapshots"
  have "symbol_ok ?old (Decided m # h) (symbol, st')" if "(symbol, st') \<in> set table" for symbol st'
  proof -
    have names: "map fst table = mc_symbols (tv_market c)" using found keys by simp
    have tab: "distinct (map fst table)" "fst ` set table = set (mc_symbols (tv_market c))"
      using assms(2) by (simp_all only: names flip: list.set_map)
    have "symbol \<in> fst ` set table" using that by (rule image_eqI [rotated]) simp
    then have member: "symbol \<in> set (mc_symbols (tv_market c))" by (simp only: tab(2))
    have "map_of table symbol = Some st'" using tab(1) that by (rule map_of_is_SomeI)
    moreover have "map_of table symbol = map_option ?prepare (map_of (en_symbols g) symbol)"
      using found r member by simp
    ultimately obtain st where "map_of (en_symbols g) symbol = Some st" "st' = ?prepare st" by auto
    then have "matches ?old (?ref symbol) st'" using prepared by simp
    then show ?thesis by (intro symbol_okI [where m = m]) simp_all
  qed
  then show "table_ok ?old c (g\<lparr>en_symbols := table\<rparr>, Decided m # h)"
    using ok found by (auto simp: table_ok_def)
qed

lemma clock_inv:
  assumes "feature_inv c (g, h)" "distinct (mc_symbols (tv_market c))" "FeatureConfiguration (tv_features c) = Inr f"
    "decision_guards z g (Aware d) = Inr (d', m)" "feature_snapshots E z g (Aware d) = (g', Inr snapshots)"
  shows "feature_inv c (g', Decided m # h)"
proof -
  have d': "d' = d" using decision_guards_Inr(1) [OF assms(4)] .
  have conf: "en_configuration g = c" using assms(1) by (simp add: feature_inv_def table_ok_def)
  obtain table r where loop: "snapshot_loop (clock_features (en_max_window g) d m) (\<lambda>symbol st. feature_snapshot_of E z g symbol st d m)
      (mc_symbols (tv_market c)) (en_symbols g) = (table, r)" by (rule prod.exhaust)
  have g': "r = Inr snapshots" "g' = g\<lparr>en_symbols := table, en_last_decision_at := Some d\<rparr>"
    using assms(4,5) by (auto simp: feature_snapshots_def Let_def d' loop conf split: sum.splits)
  have "table_ok (\<lambda>t. t \<le> d - en_max_window g) c (g\<lparr>en_symbols := table\<rparr>, Decided m # h)"
    using snapshot_loop_reference(2) [OF assms(1-3) assms(4) [unfolded d'] loop g'(1)] .
  then have "table_ok (expired g') c (g\<lparr>en_symbols := table\<rparr>, Decided m # h)"
    by (rule table_ok_mono) (auto simp: expired_def g'(2))
  then show ?thesis by (simp add: feature_inv_def table_ok_def g'(2))
qed

text \<open>Every accepted operation keeps the invariant: an instance of the shared machine contract.\<close>

definition feature_setting :: "trading_version \<Rightarrow> bool" where
  "feature_setting c \<longleftrightarrow> distinct (mc_symbols (tv_market c)) \<and> (\<exists>f. FeatureConfiguration (tv_features c) = Inr f)"

interpretation features: guarded_machine "feature_step E F z" "\<lambda>x. feature_setting c \<and> feature_inv c x" "\<lambda>_. True"
proof
  fix x op x'
  assume inv: "feature_setting c \<and> feature_inv c x" and step: "feature_step E F z x op = Inr x'"
  obtain g h where x: "x = (g, h)" by (rule prod.exhaust)
  have "feature_inv c x'"
  proof (cases op)
    case (Feed e)
    obtain g' r where r: "feature_apply F z g e = (g', r)" by (rule prod.exhaust)
    then obtain u where "r = Inr u" "x' = (g', observations z g e u @ h)"
      using step by (auto simp: x Feed rbind_eq_Inr)
    then show ?thesis using feed_inv [of c g h F z e g' u] inv r by (simp add: x)
  next
    case (Clock d)
    obtain g' r where r: "feature_snapshots E z g (Aware d) = (g', r)" by (rule prod.exhaust)
    then obtain d' m snapshots where "decision_guards z g (Aware d) = Inr (d', m)" "r = Inr snapshots" "x' = (g', Decided m # h)"
      using step by (auto simp: x Clock rbind_eq_Inr)
    then show ?thesis using clock_inv [of c g h _ z d d' m E g' snapshots] inv r by (auto simp: x feature_setting_def)
  qed
  then show "feature_setting c \<and> feature_inv c x'" using inv by simp
qed

lemma feature_run_inv:
  assumes "feature_setting c" "feature_run E F z c ops = Inr x"
  shows "feature_inv c x"
proof -
  obtain g where "new_feature_engine c = Inr g" "run_res (feature_step E F z) (g, []) ops = Inr x"
    using assms(2) by (auto simp: feature_run_def rbind_eq_Inr)
  then show ?thesis using features.run_inv [of c "(g, [])" ops E F z x] new_engine_inv assms(1) by (simp add: list_all_iff)
qed

text \<open>C15: The incremental, pruned engine computes the reference features. After any run of envelopes and decision clocks,
  over any number of stream sessions, a decision clock returns exactly what the log of the run prescribes: its
  guards, and then for every configured symbol the snapshot of the complete list of events the symbol has in its
  current market session since the last reconnect, the refusals of a snapshot included.\<close>

theorem incremental_features_equal_reference:
  assumes "feature_setting c" "feature_run E F z c ops = Inr (g, h)"
  shows "snd (feature_snapshots E z g (Aware d)) =
    rbind (decision_guards z g (Aware d)) (\<lambda>(t, m).
      map_res (\<lambda>symbol. feature_snapshot_of E z g symbol (reference_features m (recent_events symbol m h)) t m) (mc_symbols (tv_market c)))"
proof (cases "decision_guards z g (Aware d)")
  case (Inl err)
  then show ?thesis by (simp add: feature_snapshots_def)
next
  case (Inr guards)
  obtain m where m: "guards = (d, m)" using decision_guards_Inr(1) Inr by (cases guards) blast
  have inv: "feature_inv c (g, h)" using assms by (rule feature_run_inv)
  then have conf: "en_configuration g = c" by (simp add: feature_inv_def table_ok_def)
  obtain table r where loop: "snapshot_loop (clock_features (en_max_window g) d m) (\<lambda>symbol st. feature_snapshot_of E z g symbol st d m)
      (mc_symbols (tv_market c)) (en_symbols g) = (table, r)" by (rule prod.exhaust)
  obtain f where f: "distinct (mc_symbols (tv_market c))" "FeatureConfiguration (tv_features c) = Inr f"
    using assms(1) by (auto simp: feature_setting_def)
  have "snd (feature_snapshots E z g (Aware d)) = r"
    by (simp add: feature_snapshots_def Let_def Inr m loop conf split: sum.splits)
  then show ?thesis using snapshot_loop_reference(1) [OF inv f Inr [unfolded m] loop] by (simp add: Inr m)
qed

section \<open>Witnesses\<close>

text \<open>One symbol, a short session of two decision clocks, and five messages that make the second one eligible.\<close>

definition sample_feature_feed :: market_feed where
  "sample_feature_feed = \<lparr>fd_sha256 = (\<lambda>_. replicate 64 CHR ''a''),
     fd_trade = map_of [(''T1'', sample_trade_message ''2025/09/24 09:15:01'' 50000 100 ''B'' 100),
       (''T2'', sample_trade_message ''2025/09/24 09:15:30.5'' 50000 100 ''S'' 200),
       (''T3'', sample_trade_message ''2025/09/24 09:15:40'' 50100 300 ''B'' 500)],
     fd_quote = map_of [(''Q1'', sample_quote_message),
       (''Q2'', sample_quote_message\<lparr>qmsg_trading_time := ''2025/09/24 09:15:50'',
          qmsg_bid_volumes := [400, 200, 500] @ replicate 7 0\<rparr>)]\<rparr>"

definition sample_feature_trading :: trading_version where
  "sample_feature_trading = sample_trading
     \<lparr>tv_market := sample_market\<lparr>mc_symbols := [''VIC''], mc_bar_interval_seconds := 30, mc_sessions := sample_schedule
        \<lparr>continuous_am := (sample_time 555, (sample_time 556)\<lparr>tm_us := 33390000000\<rparr>)\<rparr>\<rparr>,
      tv_features := (tv_features sample_trading)\<lparr>fc_cadence_seconds := 30, fc_windows_seconds := [30], fc_warmup_seconds := 30,
        fc_decision_sessions := [CONTINUOUS_AM]\<rparr>\<rparr>"

definition sample_feature_env :: feature_env where
  "sample_feature_env = \<lparr>fe_configuration_sha256 = (\<lambda>_. replicate 64 CHR ''b''), fe_snapshot_sha256 = (\<lambda>_. replicate 64 CHR ''c'')\<rparr>"

definition sample_feature_envelopes :: "stream_envelope list" where
  "sample_feature_envelopes =
     [sample_envelope 1 ''TradeMessage'' ''T1'' ''2025/09/24 09:15:01'' 2, sample_quote_envelope,
      sample_envelope 3 ''TradeMessage'' ''T2'' ''2025/09/24 09:15:30.5'' 31,
      sample_envelope 4 ''TradeMessage'' ''T3'' ''2025/09/24 09:15:40'' 41,
      sample_envelope 5 ''QuoteMessage'' ''Q2'' ''2025/09/24 09:15:50'' 51]"

definition sample_feature_ops :: "feature_op list" where
  "sample_feature_ops = map Feed (take 2 sample_feature_envelopes) @ [Clock (sample_market_open + 30 * second_us)] @
     map Feed (drop 2 sample_feature_envelopes)"

abbreviation "sample_feature_clock \<equiv> sample_market_open + 60 * second_us"

lemma sample_feature_setting: "feature_setting sample_feature_trading"
proof -
  have "FeatureConfiguration (tv_features sample_feature_trading) = Inr (tv_features sample_feature_trading)" by code_simp
  moreover have "distinct (mc_symbols (tv_market sample_feature_trading))" by code_simp
  ultimately show ?thesis unfolding feature_setting_def by blast
qed

text \<open>The run, and the snapshot of a clock after it: eligible.\<close>

lemma sample_feature_run:
  obtains g h where "feature_run sample_feature_env sample_feature_feed vietnam_zone sample_feature_trading sample_feature_ops = Inr (g, h)"
    "case snd (feature_snapshots sample_feature_env vietnam_zone g (Aware sample_feature_clock)) of Inl _ \<Rightarrow> False
     | Inr snapshots \<Rightarrow> map is_eligible snapshots = [True]"
proof -
  have "case feature_run sample_feature_env sample_feature_feed vietnam_zone sample_feature_trading sample_feature_ops of Inl _ \<Rightarrow> False
     | Inr x \<Rightarrow> (case snd (feature_snapshots sample_feature_env vietnam_zone (fst x) (Aware sample_feature_clock)) of Inl _ \<Rightarrow> False
         | Inr snapshots \<Rightarrow> map is_eligible snapshots = [True])"
    by code_simp
  then obtain x where "feature_run sample_feature_env sample_feature_feed vietnam_zone sample_feature_trading sample_feature_ops = Inr x"
    "case snd (feature_snapshots sample_feature_env vietnam_zone (fst x) (Aware sample_feature_clock)) of Inl _ \<Rightarrow> False
       | Inr snapshots \<Rightarrow> map is_eligible snapshots = [True]"
    by (blast dest: case_res_True)
  then show ?thesis by (intro that [of "fst x" "snd x"]) simp_all
qed

theorem incremental_features_equal_reference_witness:
  "\<exists>g h. feature_run sample_feature_env sample_feature_feed vietnam_zone sample_feature_trading sample_feature_ops = Inr (g, h) \<and>
     snd (feature_snapshots sample_feature_env vietnam_zone g (Aware sample_feature_clock)) =
     rbind (decision_guards vietnam_zone g (Aware sample_feature_clock)) (\<lambda>(t, m).
       map_res (\<lambda>symbol. feature_snapshot_of sample_feature_env vietnam_zone g symbol
         (reference_features m (recent_events symbol m h)) t m) (mc_symbols (tv_market sample_feature_trading)))"
proof -
  obtain g h where run: "feature_run sample_feature_env sample_feature_feed vietnam_zone sample_feature_trading sample_feature_ops = Inr (g, h)"
    by (rule sample_feature_run)
  show ?thesis by (intro exI conjI, rule run, rule incremental_features_equal_reference [OF sample_feature_setting run])
qed

end
