(* ===== verification/FeatureSafety.thy ===== *)
theory FeatureSafety
  imports FeatureRuns
begin

text \<open>
  What a strategy may rely on. An eligible snapshot is complete and fresh: for that the latest trade and quote of the
  feature engine are coupled to those of the market state, whose health check the engine consults. The replay of a
  capture never looks ahead and emits the complete matrix of clocks and symbols.
\<close>

section \<open>The latest trade and quote of the market state\<close>

definition latest_after :: "market_event \<Rightarrow> trade option \<times> quote_snapshot option \<Rightarrow> trade option \<times> quote_snapshot option" where
  "latest_after event old = (case event of TradeEvent t \<Rightarrow> (Some t, snd old) | QuoteEvent q \<Rightarrow> (fst old, Some q) | AuctionEvent _ \<Rightarrow> old)"

definition market_latest :: "symbol_state \<Rightarrow> trade option \<times> quote_snapshot option" where
  "market_latest ss = (ss_latest_trade ss, ss_latest_quote ss)"

lemma apply_trade_latest: "apply_trade k ss t = Inr (ss', bars, integrity) \<Longrightarrow> ss_latest_quote ss' = ss_latest_quote ss"
  by (auto simp: apply_trade_def rbind_eq_Inr split: option.splits if_splits)

lemma apply_event_latest:
  assumes "1 \<le> k" "apply_event k ss event = Inr ef"
  shows "(ef_issues ef = [] \<and> market_latest (ef_state ef) = latest_after event (market_latest ss)) \<or>
    (ef_issues ef \<noteq> [] \<and> set (ef_issues ef) \<subseteq> set BLOCKING_ISSUES \<and> ef_state ef = ss)"
proof (cases event)
  case (TradeEvent t)
  then have "apply_trade_event k ss t = Inr ef" using assms(2) by simp
  with assms(1) show ?thesis
  proof (cases rule: apply_trade_event_cases)
    case refused
    then show ?thesis by blast
  next
    case (accepted ss')
    then show ?thesis using apply_trade_latest [OF accepted(3)] by (simp add: TradeEvent market_latest_def latest_after_def)
  qed
qed (use assms(2) in \<open>auto simp: apply_quote_def apply_auction_def market_latest_def latest_after_def BLOCKING_ISSUES_def split: if_splits\<close>)

lemma apply_decoded_latest:
  assumes "1 \<le> interval_seconds s" "set issues \<inter> set BLOCKING_ISSUES = {}" "apply_decoded z s issues event = (s', Inr u)"
  obtains ss ss' where "map_of (st_symbols s) (event_symbol event) = Some ss"
    "st_symbols s' = update_symbol (event_symbol event) ss' (st_symbols s)"
    "mu_event u = None \<and> ss' = ss \<or> mu_event u = Some event \<and> market_latest ss' = latest_after event (market_latest ss)"
    "st_configuration s' = st_configuration s" "st_active s' = st_active s"
proof -
  obtain ss ef where ss: "map_of (st_symbols s) (event_symbol event) = Some ss" and ef: "apply_event (interval_seconds s) ss event = Inr ef"
    and s': "s' = s\<lparr>st_symbols := update_symbol (event_symbol event) (ef_state ef) (st_symbols s),
        st_issues := st_issues s \<union> set (ef_integrity ef) \<union> set (issues @ ef_issues ef)\<rparr>"
    and u: "mu_event u = (if list_ex (\<lambda>i. i \<in> set BLOCKING_ISSUES) (issues @ ef_issues ef) then None else Some event)"
    using assms(3) by (auto simp: apply_decoded_def Let_def split: if_splits option.splits sum.splits)
  have "mu_event u = None \<and> ef_state ef = ss \<or> mu_event u = Some event \<and> market_latest (ef_state ef) = latest_after event (market_latest ss)"
    using apply_event_latest [OF assms(1) ef]
  proof (elim disjE conjE)
    assume none: "ef_issues ef = []" and latest: "market_latest (ef_state ef) = latest_after event (market_latest ss)"
    have "\<not> list_ex (\<lambda>i. i \<in> set BLOCKING_ISSUES) (issues @ ef_issues ef)" using assms(2) none by (auto simp: list_ex_iff)
    then show ?thesis using latest u by simp
  next
    assume "ef_issues ef \<noteq> []" "set (ef_issues ef) \<subseteq> set BLOCKING_ISSUES" and same: "ef_state ef = ss"
    then obtain i where "i \<in> set (ef_issues ef)" "i \<in> set BLOCKING_ISSUES" by (cases "ef_issues ef") auto
    then have "list_ex (\<lambda>i. i \<in> set BLOCKING_ISSUES) (issues @ ef_issues ef)" by (auto simp: list_ex_iff)
    then show ?thesis using same u by simp
  qed
  then show ?thesis using that [OF ss, of "ef_state ef"] s' by simp
qed

lemma reconnect_keeps [simp]:
  "st_configuration (reconnect s e) = st_configuration s" "st_active (reconnect s e) = Some (se_stream_session_id e)"
  by (simp_all add: reconnect_def)

lemma apply_envelope_latest:
  assumes "1 \<le> mc_bar_interval_seconds (tv_market (st_configuration s))" "apply_envelope F z s e = (s', Inr u)"
  shows "st_configuration s' = st_configuration s \<and> st_active s' = Some (se_stream_session_id e) \<and>
    (case mu_event u of None \<Rightarrow> st_symbols s' = st_symbols (reconnect s e) \<or>
         (\<exists>x ss. map_of (st_symbols (reconnect s e)) x = Some ss \<and> st_symbols s' = update_symbol x ss (st_symbols (reconnect s e)))
     | Some event \<Rightarrow> \<exists>ss ss'. map_of (st_symbols (reconnect s e)) (event_symbol event) = Some ss \<and>
         st_symbols s' = update_symbol (event_symbol event) ss' (st_symbols (reconnect s e)) \<and>
         market_latest ss' = latest_after event (market_latest ss))"
proof -
  obtain s1 issues where s1: "sequence_issues (reconnect s e) e = (s1, issues)" by (rule prod.exhaust)
  have keeps: "st_configuration s1 = st_configuration s" "st_symbols s1 = st_symbols (reconnect s e)"
    "st_active s1 = Some (se_stream_session_id e)" "issues = sequence_problems (reconnect s e) e"
    using sequence_issues_keeps [of "reconnect s e" e] s1 by simp_all
  from apply_envelope_Inr [OF assms(2) s1] show ?thesis
  proof (elim disjE exE conjE)
    assume "s' = s1" "u = no_event issues"
    then show ?thesis using keeps by (simp add: no_event_def)
  next
    fix event assume d: "apply_decoded z s1 issues event = (s', Inr u)"
    have k: "1 \<le> interval_seconds s1" using assms(1) by (simp add: interval_seconds_def keeps(1))
    have b: "set issues \<inter> set BLOCKING_ISSUES = {}" unfolding keeps(4) by (rule sequence_problems_not_blocking)
    obtain ss ss' where ss: "map_of (st_symbols s1) (event_symbol event) = Some ss"
      "st_symbols s' = update_symbol (event_symbol event) ss' (st_symbols s1)"
      "mu_event u = None \<and> ss' = ss \<or> mu_event u = Some event \<and> market_latest ss' = latest_after event (market_latest ss)"
      "st_configuration s' = st_configuration s1" "st_active s' = st_active s1"
      by (rule apply_decoded_latest [OF k b d])
    from ss(3) show ?thesis using ss(1,2,4,5) keeps by (elim disjE conjE) auto
  qed
qed

section \<open>Coupling of the engine and its market state\<close>

definition agrees :: "symbol_features \<Rightarrow> symbol_state \<Rightarrow> bool" where
  "agrees st ss \<longleftrightarrow> (\<forall>t. sf_latest_trade st = Some t \<longrightarrow> ss_latest_trade ss = Some t) \<and>
     (\<forall>q. sf_latest_quote st = Some q \<longrightarrow> ss_latest_quote ss = Some q)"

definition coupled :: "trading_version \<Rightarrow> feature_engine \<Rightarrow> bool" where
  "coupled c g \<longleftrightarrow> en_configuration g = c \<and> st_configuration (en_market g) = c \<and>
     en_last_stream_session_id g = st_active (en_market g) \<and>
     (\<forall>symbol st ss. (symbol, st) \<in> set (en_symbols g) \<longrightarrow> map_of (st_symbols (en_market g)) symbol = Some ss \<longrightarrow> agrees st ss)"

lemma agrees_none [simp]: "agrees no_features ss" "agrees (reset_features m) ss"
  by (simp_all add: agrees_def no_features_def reset_features_def)

lemma agrees_clock: "agrees st ss \<Longrightarrow> agrees (clock_features w d m st) ss"
proof -
  assume "agrees st ss"
  then have "agrees (enter_session m st) ss" by (simp add: enter_session_def)
  then show ?thesis by (simp add: clock_features_def prune_features_def agrees_def Let_def)
qed

lemma observe_latest:
  assumes "observe_features w st event = (st', Inr ())"
  shows "(sf_latest_trade st', sf_latest_quote st') = latest_after event (sf_latest_trade st, sf_latest_quote st)"
  using assms by (cases event)
    (auto simp: latest_after_def prune_features_def start_observation_def Let_def split: sum.splits if_splits)

lemma observe_agrees:
  assumes "agrees st ss" "observe_features w st event = (st', Inr ())" "market_latest ss' = latest_after event (market_latest ss)"
  shows "agrees st' ss'"
  using assms(1,3) observe_latest [OF assms(2)]
  by (cases event) (auto simp: agrees_def latest_after_def market_latest_def)

lemma update_symbol_map_of:
  "map_of (update_symbol symbol ss xs) x = (if x = symbol \<and> x \<in> fst ` set xs then Some ss else map_of xs x)"
  by (induction xs) (auto simp: update_symbol_def rev_image_eqI)

lemma update_same: "map_of xs x = Some y \<Longrightarrow> map_of (update_symbol x y xs) z = map_of xs z"
  by (auto simp: update_symbol_map_of)

lemma feed_coupled:
  assumes "coupled c g" "1 \<le> mc_bar_interval_seconds (tv_market c)" "feature_apply F z g e = (g', Inr u)"
    "\<And>r. en_last_received_at g = Some r \<Longrightarrow> r \<le> se_received_at e"
  shows "coupled c g'"
proof -
  obtain market g3 where m: "apply_envelope F z (en_market g) e = (market, Inr u)" "g' = note_envelope g3 e"
    and g3: "case mu_event u of None \<Rightarrow> g3 = (reset_stream g e)\<lparr>en_market := market\<rparr>
       | Some event \<Rightarrow> observe_market z ((reset_stream g e)\<lparr>en_market := market\<rparr>) event = (g3, Inr ())"
    using feature_apply_Inr [OF assms(3)] by metis
  let ?g2 = "(reset_stream g e)\<lparr>en_market := market\<rparr>" and ?r = "reconnect (en_market g) e"
  have conf: "en_configuration g = c" "st_configuration (en_market g) = c" "en_last_stream_session_id g = st_active (en_market g)"
    using assms(1) by (simp_all add: coupled_def)
  have latest: "st_configuration market = c" "st_active market = Some (se_stream_session_id e)"
    "case mu_event u of None \<Rightarrow> st_symbols market = st_symbols ?r \<or>
         (\<exists>x ss. map_of (st_symbols ?r) x = Some ss \<and> st_symbols market = update_symbol x ss (st_symbols ?r))
     | Some event \<Rightarrow> \<exists>ss ss'. map_of (st_symbols ?r) (event_symbol event) = Some ss \<and>
         st_symbols market = update_symbol (event_symbol event) ss' (st_symbols ?r) \<and> market_latest ss' = latest_after event (market_latest ss)"
    using apply_envelope_latest [OF _ m(1)] assms(2) conf(2) by simp_all
  have start: "agrees st ss" if "(symbol, st) \<in> set (en_symbols ?g2)" "map_of (st_symbols ?r) symbol = Some ss" for symbol st ss
  proof (cases "switches_stream g e")
    case True
    then show ?thesis using that(1) by (auto simp: reset_stream_def fresh_features_def)
  next
    case False
    then have "?r = (en_market g)\<lparr>st_active := Some (se_stream_session_id e)\<rparr>"
      using conf(3) by (auto simp: switches_stream_def reconnect_def)
    then show ?thesis using that assms(1) False by (simp add: reset_stream_def coupled_def)
  qed
  have keep: "en_configuration ?g2 = c" by (simp add: reset_stream_def conf)
  have "en_configuration g3 = c \<and> en_market g3 = market \<and> en_last_received_at g3 = en_last_received_at g \<and>
    (\<forall>symbol st ss. (symbol, st) \<in> set (en_symbols g3) \<longrightarrow> map_of (st_symbols market) symbol = Some ss \<longrightarrow> agrees st ss)"
  proof (cases "mu_event u")
    case None
    then have "g3 = ?g2" using g3 by simp
    moreover have "map_of (st_symbols market) x = map_of (st_symbols ?r) x" for x
      using latest(3) None by (auto simp: update_same)
    ultimately show ?thesis using start keep by (auto simp: reset_stream_def)
  next
    case (Some event)
    obtain st session st' where st: "map_of (en_symbols ?g2) (event_symbol event) = Some st"
      and st': "observe_features (en_max_window ?g2) (enter_session session st) event = (st', Inr ())"
      and g3': "g3 = ?g2\<lparr>en_symbols := update_features (event_symbol event) st' (en_symbols ?g2)\<rparr>"
      using g3 Some by (auto simp: observe_market_def split: option.splits sum.splits prod.splits)
    obtain ss ss' where ss: "map_of (st_symbols ?r) (event_symbol event) = Some ss"
      "st_symbols market = update_symbol (event_symbol event) ss' (st_symbols ?r)" "market_latest ss' = latest_after event (market_latest ss)"
      using latest(3) Some by auto
    have "agrees (enter_session session st) ss" using start [OF map_of_SomeD [OF st] ss(1)] by (simp add: enter_session_def)
    then have own: "agrees st' ss'" using st' ss(3) by (rule observe_agrees)
    have "agrees y ss2" if y: "(x, y) \<in> set (en_symbols g3)" and m2: "map_of (st_symbols market) x = Some ss2" for x y ss2
    proof -
      have "(x = event_symbol event \<and> y = st') \<or> (x \<noteq> event_symbol event \<and> (x, y) \<in> set (en_symbols ?g2))"
        using y unfolding g3' by (auto dest: update_features_mem)
      then show ?thesis
      proof
        assume "x = event_symbol event \<and> y = st'"
        moreover from this have "ss2 = ss'" using m2 ss(1) map_of_SomeD [OF ss(1)] by (auto simp: ss(2) update_symbol_map_of rev_image_eqI split: if_splits)
        ultimately show ?thesis using own by simp
      next
        assume "x \<noteq> event_symbol event \<and> (x, y) \<in> set (en_symbols ?g2)"
        then show ?thesis using start [of x y ss2] m2 by (simp add: ss(2) update_symbol_map_of)
      qed
    qed
    moreover have "en_configuration g3 = c \<and> en_market g3 = market \<and> en_last_received_at g3 = en_last_received_at g"
      by (simp add: g3' reset_stream_def conf)
    ultimately show ?thesis by blast
  qed
  moreover have "en_last_stream_session_id (note_envelope g3 e) = Some (se_stream_session_id e)"
    if "en_last_received_at g3 = en_last_received_at g"
    using that assms(4) by (auto simp: note_envelope_def split: option.splits)
  ultimately show ?thesis using latest(1,2) by (simp add: coupled_def m(2))
qed

text \<open>The accepted clock of a run, taken apart.\<close>

lemma snapshots_Inr:
  assumes "feature_inv c (g, h)" "feature_setting c" "feature_snapshots E z g (Aware d) = (g', Inr snapshots)"
  obtains m table where "decision_guards z g (Aware d) = Inr (d, m)"
    "snapshot_loop (clock_features (en_max_window g) d m) (\<lambda>symbol st. feature_snapshot_of E z g symbol st d m)
       (mc_symbols (tv_market c)) (en_symbols g) = (table, Inr snapshots)"
    "g' = g\<lparr>en_symbols := table, en_last_decision_at := Some d\<rparr>"
    "\<And>x y. (x, y) \<in> set table \<Longrightarrow> \<exists>st. (x, st) \<in> set (en_symbols g) \<and> y = clock_features (en_max_window g) d m st"
proof -
  have conf: "en_configuration g = c" and keys: "map fst (en_symbols g) = mc_symbols (tv_market c)"
    using assms(1) by (simp_all add: feature_inv_def table_ok_def)
  have dist: "distinct (mc_symbols (tv_market c))" using assms(2) by (simp add: feature_setting_def)
  obtain d' m where guards: "decision_guards z g (Aware d) = Inr (d', m)"
    using assms(3) by (cases "decision_guards z g (Aware d)") (auto simp: feature_snapshots_def)
  have d': "d' = d" using decision_guards_Inr(1) [OF guards] .
  obtain table r where loop: "snapshot_loop (clock_features (en_max_window g) d m) (\<lambda>symbol st. feature_snapshot_of E z g symbol st d m)
      (mc_symbols (tv_market c)) (en_symbols g) = (table, r)" by (rule prod.exhaust)
  have g': "r = Inr snapshots" "g' = g\<lparr>en_symbols := table, en_last_decision_at := Some d\<rparr>"
    using guards assms(3) by (auto simp: feature_snapshots_def Let_def d' loop conf split: sum.splits)
  have sub: "set (mc_symbols (tv_market c)) \<subseteq> fst ` set (en_symbols g)" by (simp flip: keys)
  note found = snapshot_loop_result [OF dist sub loop]
  have "\<exists>st. (x, st) \<in> set (en_symbols g) \<and> y = clock_features (en_max_window g) d m st" if mem: "(x, y) \<in> set table" for x y
  proof -
    have names: "map fst table = mc_symbols (tv_market c)" using found keys by simp
    have "x \<in> set (map fst table)" using mem by (auto simp: rev_image_eqI)
    then have "x \<in> set (mc_symbols (tv_market c))" by (simp only: names)
    moreover have "map_of table x = Some y" using mem dist by (intro map_of_is_SomeI) (simp_all only: names)
    ultimately obtain st where "map_of (en_symbols g) x = Some st" "y = clock_features (en_max_window g) d m st"
      using found g'(1) by auto
    then show ?thesis by (blast dest: map_of_SomeD)
  qed
  then show ?thesis using that guards loop g' unfolding d' by blast
qed

lemma clock_coupled:
  assumes "coupled c g" "feature_inv c (g, h)" "feature_setting c" "feature_snapshots E z g (Aware d) = (g', Inr snapshots)"
  shows "coupled c g'"
proof -
  obtain m table where g': "g' = g\<lparr>en_symbols := table, en_last_decision_at := Some d\<rparr>"
    and table: "\<And>x y. (x, y) \<in> set table \<Longrightarrow> \<exists>st. (x, st) \<in> set (en_symbols g) \<and> y = clock_features (en_max_window g) d m st"
    using snapshots_Inr [OF assms(2-4)] by metis
  have "agrees y ss" if "(x, y) \<in> set table" "map_of (st_symbols (en_market g)) x = Some ss" for x y ss
    using table [OF that(1)] that(2) assms(1) by (auto simp: coupled_def intro!: agrees_clock)
  then show ?thesis using assms(1) by (simp add: coupled_def g')
qed

definition fed :: "feature_op list \<Rightarrow> stream_envelope list" where
  "fed ops = concat (map (\<lambda>op. case op of Feed e \<Rightarrow> [e] | Clock _ \<Rightarrow> []) ops)"

lemma feature_run_coupled:
  assumes "feature_setting c" "1 \<le> mc_bar_interval_seconds (tv_market c)"
  shows "feature_run E F z c ops = Inr (g, h) \<Longrightarrow> sorted (map se_received_at (fed ops)) \<Longrightarrow>
    coupled c g \<and> (\<forall>r. en_last_received_at g = Some r \<longrightarrow> r \<in> se_received_at ` set (fed ops))"
proof (induction ops arbitrary: g h rule: rev_induct)
  case Nil
  then show ?case
    by (auto simp: feature_run_def rbind_eq_Inr new_feature_engine_def coupled_def fresh_features_def new_market_state_def split: if_splits)
next
  case (snoc op ops)
  obtain g0 h0 where run: "feature_run E F z c ops = Inr (g0, h0)" and step: "feature_step E F z (g0, h0) op = Inr (g, h)"
    using snoc.prems(1) by (auto simp: feature_run_def run_res_append rbind_eq_Inr)
  have ih: "coupled c g0" "\<And>r. en_last_received_at g0 = Some r \<Longrightarrow> r \<in> se_received_at ` set (fed ops)"
    using snoc.IH [OF run] snoc.prems(2) by (auto simp: fed_def sorted_append)
  show ?case
  proof (cases op)
    case (Feed e)
    obtain g' r where r: "feature_apply F z g0 e = (g', r)" by (rule prod.exhaust)
    then obtain u where u: "feature_apply F z g0 e = (g, Inr u)" using step by (auto simp: Feed rbind_eq_Inr)
    have "coupled c g"
    proof (rule feed_coupled [OF ih(1) assms(2) u])
      fix r assume "en_last_received_at g0 = Some r"
      then have "r \<in> se_received_at ` set (fed ops)" by (rule ih(2))
      then show "r \<le> se_received_at e" using snoc.prems(2) by (auto simp: fed_def Feed sorted_append)
    qed
    moreover have "r \<in> se_received_at ` set (fed (ops @ [op]))" if last: "en_last_received_at g = Some r" for r
    proof -
      obtain market g3 where g3: "g = note_envelope g3 e"
        "case mu_event u of None \<Rightarrow> g3 = (reset_stream g0 e)\<lparr>en_market := market\<rparr>
         | Some event \<Rightarrow> observe_market z ((reset_stream g0 e)\<lparr>en_market := market\<rparr>) event = (g3, Inr ())"
        using feature_apply_Inr [OF u] by metis
      have "en_last_received_at g3 = en_last_received_at g0" using g3(2)
        by (auto simp: observe_market_def reset_stream_def split: option.splits sum.splits prod.splits if_splits)
      then have "en_last_received_at g0 = Some r \<or> r = se_received_at e"
        using last by (auto simp: g3(1) note_envelope_def split: if_splits)
      then show ?thesis using ih(2) by (auto simp: fed_def Feed)
    qed
    ultimately show ?thesis by blast
  next
    case (Clock d)
    obtain g' r where r: "feature_snapshots E z g0 (Aware d) = (g', r)" by (rule prod.exhaust)
    then obtain snapshots where s: "feature_snapshots E z g0 (Aware d) = (g, Inr snapshots)"
      using step by (auto simp: Clock rbind_eq_Inr)
    have inv: "feature_inv c (g0, h0)" using assms(1) run by (rule feature_run_inv)
    obtain table where "g = g0\<lparr>en_symbols := table, en_last_decision_at := Some d\<rparr>" using snapshots_Inr [OF inv assms(1) s] by metis
    then have "en_last_received_at g = en_last_received_at g0" by simp
    then show ?thesis using clock_coupled [OF ih(1) inv assms(1) s] ih(2) by (auto simp: fed_def Clock)
  qed
qed

section \<open>Eligible snapshots\<close>

definition window_complete :: "window_features \<Rightarrow> bool" where
  "window_complete w \<longleftrightarrow> 2 \<le> fw_trade_count w \<and> 1 \<le> fw_quote_change_count w \<and> fw_trade_volume_per_second w \<noteq> None \<and>
     fw_trade_volume_imbalance w \<noteq> None \<and> fw_price_return_bps w \<noteq> None \<and> fw_realized_volatility_bps w \<noteq> None \<and>
     fw_vwap w \<noteq> None \<and> fw_last_price_to_vwap_bps w \<noteq> None"

lemma window_values_Inr:
  assumes "window_values seconds ts flows = Inr w"
  shows "fw_window_seconds w = seconds" "fw_trade_count w = int (length ts)" "fw_quote_change_count w = int (length flows)"
    "window_reasons w = [] \<Longrightarrow> window_complete w"
  using assms
  by (auto simp: window_values_def Let_def rbind_eq_Inr price_movements_def window_reasons_def window_complete_def
      dest!: WindowFeatures_Inr split: if_splits)

lemma book_values_of_Inr: "book_values_of q = Inr b \<Longrightarrow> False \<notin> set (book_presence b)"
  by (auto simp: book_values_of_def Let_def rbind_eq_Inr book_presence_def split: if_splits)

lemma feature_snapshot_of_Inr:
  assumes "feature_snapshot_of E z g symbol st d m = Inr s" "en_configuration g = c"
  obtains windows reasons book where "map_res (feature_window st d) (fc_windows_seconds (tv_features c)) = Inr windows"
    "feature_reasons z c (en_market g) symbol (sf_observed_from st) windows d m = Inr reasons"
    "snapshot_book (sf_latest_quote st) d = Inr book" "fs_symbol s = symbol" "fs_decision_at s = d" "fs_market_session s = m"
    "fs_windows s = windows" "fs_reasons s = fromkeys reasons" "book_presence s = book_presence book"
    "fs_trade_age_seconds s = age_seconds d (map_option tr_received_at (sf_latest_trade st))"
    "fs_quote_age_seconds s = age_seconds d (map_option qs_received_at (sf_latest_quote st))" "FeatureSnapshot s = Inr s"
    "fs_configuration_sha256 s = fe_configuration_sha256 E c" "fs_feature_version s = fc_version (tv_features c)"
    "fs_trade_date s = local_date z d" "fs_configuration_version s = version c"
proof -
  obtain windows reasons book where parts: "map_res (feature_window st d) (fc_windows_seconds (tv_features c)) = Inr windows"
    "feature_reasons z c (en_market g) symbol (sf_observed_from st) windows d m = Inr reasons"
    "snapshot_book (sf_latest_quote st) d = Inr book"
    and made: "FeatureSnapshot (book_values.extend book (feature_snapshot.fields
        (fc_version (tv_features c)) (version c) (fe_configuration_sha256 E c) symbol (local_date z d) d m
        (en_last_stream_session_id g) (en_last_receive_sequence g)
        (age_seconds d (map_option tr_received_at (sf_latest_trade st))) (age_seconds d (map_option qs_received_at (sf_latest_quote st)))
        windows (fromkeys reasons))) = Inr s"
    using assms by (auto simp: feature_snapshot_of_def Let_def rbind_eq_Inr)
  have s: "s = book_values.extend book (feature_snapshot.fields
        (fc_version (tv_features c)) (version c) (fe_configuration_sha256 E c) symbol (local_date z d) d m
        (en_last_stream_session_id g) (en_last_receive_sequence g)
        (age_seconds d (map_option tr_received_at (sf_latest_trade st))) (age_seconds d (map_option qs_received_at (sf_latest_quote st)))
        windows (fromkeys reasons))" using FeatureSnapshot_Inr [OF made] .
  have "FeatureSnapshot s = Inr s" using made s by simp
  then show ?thesis using that [OF parts] by (simp add: s book_values.defs feature_snapshot.defs book_presence_def)
qed

lemma final_Some: "xs \<noteq> [] \<Longrightarrow> \<exists>x. final xs = Some x"
  by (simp add: last_of_def)

lemma flows_between_quotes: "flows_between qs \<noteq> [] \<Longrightarrow> qs \<noteq> []"
  by auto

lemma reference_latest:
  assumes "sf_trades (reference_features m events) \<noteq> []" "sf_book_flows (reference_features m events) \<noteq> []"
  obtains t q where "sf_latest_trade (reference_features m events) = Some t" "sf_latest_quote (reference_features m events) = Some q"
proof -
  have "concat (map event_trades events) \<noteq> []" "concat (map event_quotes events) \<noteq> []"
    using assms flows_between_quotes by (auto simp: reference_features_def Let_def simp del: concat_eq_Nil_conv)
  from final_Some [OF this(1)] final_Some [OF this(2)] show ?thesis
    using that by (auto simp: reference_features_def Let_def simp del: concat_eq_Nil_conv)
qed

lemma feature_reasons_Nil:
  assumes "feature_reasons z c market symbol from windows d m = Inr []"
  obtains health start stop since t where "decision_enabled c m" "session_window z (schedule_of c) (local_date z d) m = Inr (start, stop)"
    "market_health_at market symbol (Aware d) (Some (Aware start)) = Inr health" "mh_reasons health = []"
    "from = Some t" "t \<le> d - fc_warmup_seconds (tv_features c) * second_us" "\<forall>w \<in> set windows. window_reasons w = []"
proof -
  obtain start stop health where parts: "decision_enabled c m" "session_window z (schedule_of c) (local_date z d) m = Inr (start, stop)"
    "market_health_at market symbol (Aware d) (Some (Aware start)) = Inr health"
    and none: "mh_reasons health @ (if (case from of None \<Rightarrow> True
             | Some t \<Rightarrow> d - t < fc_warmup_seconds (tv_features c) * second_us) then [''WARMUP''] else []) @ concat (map window_reasons windows) = []"
    using assms by (auto simp: feature_reasons_def rbind_eq_Inr split: if_splits)
  then obtain t where "from = Some t" "t \<le> d - fc_warmup_seconds (tv_features c) * second_us"
    by (cases "from") (auto split: if_splits)
  then show ?thesis using that parts none by auto
qed

text \<open>A snapshot as the market state sees it.\<close>

lemma health_fresh:
  assumes "market_health_at market symbol (Aware d) since = Inr health" "mh_reasons health = []"
  obtains ss t q where "map_of (st_symbols market) symbol = Some ss" "ss_latest_trade ss = Some t" "ss_latest_quote ss = Some q"
    "tr_received_at t \<le> d" "d - tr_received_at t \<le> dq_trade_stale_after_seconds (tv_data_quality (st_configuration market)) * second_us"
    "qs_received_at q \<le> d" "d - qs_received_at q \<le> dq_quote_stale_after_seconds (tv_data_quality (st_configuration market)) * second_us"
    "qs_is_complete q" "integrity_issues market = []"
proof -
  let ?d = "tv_data_quality (st_configuration market)"
  obtain ss since' where ss: "map_of (st_symbols market) symbol = Some ss" and none: "integrity_issues market = []"
      "trade_reasons (dq_trade_stale_after_seconds ?d) d since' (ss_latest_trade ss) = []"
      "quote_reasons (dq_quote_stale_after_seconds ?d) d since' (ss_latest_quote ss) = []"
    using assms by (auto simp: market_health_at_def Let_def rbind_eq_Inr split: option.splits)
  moreover obtain t where "ss_latest_trade ss = Some t" "tr_received_at t \<le> d" "d - tr_received_at t \<le> dq_trade_stale_after_seconds ?d * second_us"
    using none(2) by (auto simp: trade_reasons_def split: option.splits if_splits)
  moreover obtain q where "ss_latest_quote ss = Some q" "qs_received_at q \<le> d"
      "d - qs_received_at q \<le> dq_quote_stale_after_seconds ?d * second_us" "qs_is_complete q"
    using none(3) by (auto simp: quote_reasons_def split: option.splits if_splits)
  ultimately show ?thesis using that by blast
qed

text \<open>C16: An eligible snapshot is complete and fresh. When the envelopes of a run come in receipt order, a snapshot without
  reasons is of an enabled decision session, its nine book values are present, every configured window has at least two trades and
  one book transition and all its values, the ages are those of the latest trade and of the latest, complete quote of
  the symbol in its session, both within the configured staleness, observation has lasted for the warm-up, and the
  market state has recorded no integrity issue.\<close>

theorem eligible_features_complete:
  assumes "feature_setting c" "valid_market c" "feature_run E F z c ops = Inr (g, h)" "sorted (map se_received_at (fed ops))"
    "feature_snapshots E z g (Aware d) = (g', Inr snapshots)" "s \<in> set snapshots" "is_eligible s"
  shows "decision_enabled c (fs_market_session s) \<and> False \<notin> set (book_presence s) \<and>
    map fw_window_seconds (fs_windows s) = fc_windows_seconds (tv_features c) \<and> (\<forall>w \<in> set (fs_windows s). window_complete w) \<and>
    integrity_issues (en_market g) = [] \<and>
    (\<exists>t q from. let ref = reference_features (fs_market_session s) (recent_events (fs_symbol s) (fs_market_session s) h) in
       sf_latest_trade ref = Some t \<and> sf_latest_quote ref = Some q \<and> qs_is_complete q \<and>
       fs_trade_age_seconds s = age_seconds d (Some (tr_received_at t)) \<and> tr_received_at t \<le> d \<and>
       d - tr_received_at t \<le> dq_trade_stale_after_seconds (tv_data_quality c) * second_us \<and>
       fs_quote_age_seconds s = age_seconds d (Some (qs_received_at q)) \<and> qs_received_at q \<le> d \<and>
       d - qs_received_at q \<le> dq_quote_stale_after_seconds (tv_data_quality c) * second_us \<and>
       sf_observed_from ref = Some from \<and> from \<le> d - fc_warmup_seconds (tv_features c) * second_us)"
proof -
  have inv: "feature_inv c (g, h)" using assms(1,3) by (rule feature_run_inv)
  have conf: "en_configuration g = c" "map fst (en_symbols g) = mc_symbols (tv_market c)" and ok: "table_ok (expired g) c (g, h)"
    using inv by (simp_all add: feature_inv_def table_ok_def)
  have coupling: "coupled c g" using feature_run_coupled [OF assms(1) valid_marketD(1) [OF assms(2)] assms(3,4)] by blast
  obtain f where f: "FeatureConfiguration (tv_features c) = Inr f" using assms(1) by (auto simp: feature_setting_def)
  obtain m table where m: "decision_guards z g (Aware d) = Inr (d, m)"
    and loop: "snapshot_loop (clock_features (en_max_window g) d m) (\<lambda>symbol st. feature_snapshot_of E z g symbol st d m)
       (mc_symbols (tv_market c)) (en_symbols g) = (table, Inr snapshots)"
    using snapshots_Inr [OF inv assms(1,5)] by metis
  let ?ref = "\<lambda>symbol. reference_features m (recent_events symbol m h)"
  have "Inr snapshots = map_res (\<lambda>symbol. feature_snapshot_of E z g symbol (?ref symbol) d m) (mc_symbols (tv_market c))"
    using snapshot_loop_reference(1) [OF inv _ f m loop] assms(1) by (simp add: feature_setting_def)
  then have "list_all2 (\<lambda>symbol s. feature_snapshot_of E z g symbol (?ref symbol) d m = Inr s) (mc_symbols (tv_market c)) snapshots"
    by (simp flip: map_res_Inr_iff)
  then obtain symbol where symbol: "symbol \<in> set (mc_symbols (tv_market c))" and made: "feature_snapshot_of E z g symbol (?ref symbol) d m = Inr s"
    using list_all2_set_right [OF _ assms(6)] by blast
  obtain windows reasons book where parts: "map_res (feature_window (?ref symbol) d) (fc_windows_seconds (tv_features c)) = Inr windows"
    "feature_reasons z c (en_market g) symbol (sf_observed_from (?ref symbol)) windows d m = Inr reasons"
    "snapshot_book (sf_latest_quote (?ref symbol)) d = Inr book"
    and s: "fs_symbol s = symbol" "fs_market_session s = m" "fs_windows s = windows" "fs_reasons s = fromkeys reasons"
    "book_presence s = book_presence book"
    "fs_trade_age_seconds s = age_seconds d (map_option tr_received_at (sf_latest_trade (?ref symbol)))"
    "fs_quote_age_seconds s = age_seconds d (map_option qs_received_at (sf_latest_quote (?ref symbol)))"
    using feature_snapshot_of_Inr [OF made conf(1)] by metis
  have "reasons = []" using assms(7) s(4) by (simp add: is_eligible_def)
  then obtain start health since where r: "decision_enabled c m"
      "market_health_at (en_market g) symbol (Aware d) (Some (Aware start)) = Inr health" "mh_reasons health = []"
      "sf_observed_from (?ref symbol) = Some since" "since \<le> d - fc_warmup_seconds (tv_features c) * second_us" "\<forall>w \<in> set windows. window_reasons w = []"
    using feature_reasons_Nil parts(2) by metis
  have windows: "list_all2 (\<lambda>seconds w. feature_window (?ref symbol) d seconds = Inr w) (fc_windows_seconds (tv_features c)) windows"
    using parts(1) by (simp add: map_res_Inr_iff)
  have seconds: "map fw_window_seconds windows = fc_windows_seconds (tv_features c)"
    using windows by (induction rule: list_all2_induct) (auto simp: feature_window_def dest: window_values_Inr(1))
  have complete: "window_complete w" if w: "w \<in> set windows" for w
  proof -
    obtain seconds where "feature_window (?ref symbol) d seconds = Inr w" using list_all2_set_right [OF windows w] by blast
    then show ?thesis using window_values_Inr(4) r(6) w by (auto simp: feature_window_def)
  qed
  have "windows \<noteq> []" using seconds f by (auto simp: FeatureConfiguration_def split: if_splits)
  then obtain w seconds where w: "window_complete w" "feature_window (?ref symbol) d seconds = Inr w"
    using windows complete by (cases windows) (auto simp: list_all2_Cons2)
  have "sf_trades (?ref symbol) \<noteq> []" "sf_book_flows (?ref symbol) \<noteq> []"
    using w window_values_Inr(2,3) [OF w(2) [unfolded feature_window_def]] by (auto simp: window_complete_def)
  then obtain t q where tq: "sf_latest_trade (?ref symbol) = Some t" "sf_latest_quote (?ref symbol) = Some q"
    by (rule reference_latest)
  obtain ss t' q' where fresh: "map_of (st_symbols (en_market g)) symbol = Some ss" "ss_latest_trade ss = Some t'" "ss_latest_quote ss = Some q'"
    "tr_received_at t' \<le> d" "d - tr_received_at t' \<le> dq_trade_stale_after_seconds (tv_data_quality (st_configuration (en_market g))) * second_us"
    "qs_received_at q' \<le> d" "d - qs_received_at q' \<le> dq_quote_stale_after_seconds (tv_data_quality (st_configuration (en_market g))) * second_us"
    "qs_is_complete q'" "integrity_issues (en_market g) = []"
    by (rule health_fresh [OF r(2,3)])
  obtain st where st: "(symbol, st) \<in> set (en_symbols g)" using symbol unfolding conf(2) [symmetric] by auto
  have "matches (\<lambda>t. t \<le> d - en_max_window g) (?ref symbol) (clock_features (en_max_window g) d m st)"
    using clock_matches [OF ok m st] .
  moreover have "agrees (clock_features (en_max_window g) d m st) ss"
    using coupling st fresh(1) by (intro agrees_clock) (auto simp: coupled_def)
  ultimately have same: "t' = t" "q' = q" using tq fresh(2,3) by (auto simp: matches_def agrees_def)
  have "book_values_of q = Inr book" using parts(3) fresh(6,8) by (simp add: snapshot_book_def tq same)
  then have "False \<notin> set (book_presence s)" unfolding s(5) by (rule book_values_of_Inr)
  moreover have "st_configuration (en_market g) = c" using coupling by (simp add: coupled_def)
  ultimately show ?thesis
    using r seconds complete tq fresh(4-9) by (simp add: s same Let_def)
qed

section \<open>Replay: the matrix of clocks and symbols\<close>

lemma clock_ticks_complete:
  assumes "0 < cadence"
  shows "\<exists>ticks. clock_ticks cadence stop current = Some ticks \<and>
    set ticks = {t. t < stop \<and> (\<exists>k \<ge> 0. t = current + k * cadence)}"
proof (induction "nat (stop - current)" arbitrary: current rule: less_induct)
  case less
  show ?case
  proof (cases "current < stop")
    case False
    then have "{t. t < stop \<and> (\<exists>k \<ge> 0. t = current + k * cadence)} = {}"
      using assms by (auto simp: not_less) (smt (verit) mult_nonneg_nonneg)
    then show ?thesis using False by (simp add: clock_ticks.simps [of cadence stop current])
  next
    case True
    then have "nat (stop - (current + cadence)) < nat (stop - current)" using assms by simp
    from less [OF this] obtain ticks where ticks: "clock_ticks cadence stop (current + cadence) = Some ticks"
      "set ticks = {t. t < stop \<and> (\<exists>k \<ge> 0. t = current + cadence + k * cadence)}" by blast
    have "(\<exists>k \<ge> 0. t = current + k * cadence) \<longleftrightarrow> t = current \<or> (\<exists>k \<ge> 0. t = current + cadence + k * cadence)" for t
    proof
      assume "\<exists>k \<ge> 0. t = current + k * cadence"
      then obtain k where k: "0 \<le> k" "t = current + k * cadence" by blast
      show "t = current \<or> (\<exists>k \<ge> 0. t = current + cadence + k * cadence)"
      proof (cases "k = 0")
        case False
        then show ?thesis using k by (intro disjI2 exI [of _ "k - 1"]) (simp add: algebra_simps)
      qed (use k in simp)
    next
      assume "t = current \<or> (\<exists>k \<ge> 0. t = current + cadence + k * cadence)"
      then show "\<exists>k \<ge> 0. t = current + k * cadence"
      proof (elim disjE exE conjE)
        fix k assume "0 \<le> k" "t = current + cadence + k * cadence"
        then show ?thesis by (intro exI [of _ "k + 1"]) (simp add: algebra_simps)
      qed (auto intro: exI [of _ 0])
    qed
    then have "{t. t < stop \<and> (\<exists>k \<ge> 0. t = current + k * cadence)} = insert current (set ticks)" using True by (auto simp: ticks(2))
    then show ?thesis using True ticks(1) by (simp add: clock_ticks.simps [of cadence stop current])
  qed
qed

text \<open>The instants at which decisions are due: every cadence step strictly inside an enabled session.\<close>

definition decision_grid :: "zone_info \<Rightarrow> trading_version \<Rightarrow> date \<Rightarrow> decision_session list \<Rightarrow> instant set" where
  "decision_grid z c trade_date names = {t. \<exists>name \<in> set names. \<exists>start stop k.
     session_window z (schedule_of c) trade_date (decision_value name) = Inr (start, stop) \<and> t < stop \<and> 1 \<le> k \<and>
     t = start + k * (fc_cadence_seconds (tv_features c) * second_us)}"

lemma session_window_decision: "\<exists>start stop. session_window z schedule trade_date (decision_value name) = Inr (start, stop)"
  by (cases name) (auto simp: session_window_def split: prod.splits)

lemma session_clocks_complete:
  assumes "1 \<le> fc_cadence_seconds (tv_features c)"
  shows "\<exists>clocks. session_clocks z c trade_date names = Some (Inr clocks) \<and> set clocks = decision_grid z c trade_date names"
proof (induction names)
  case (Cons name names)
  let ?k = "fc_cadence_seconds (tv_features c) * second_us"
  obtain start stop where w: "session_window z (schedule_of c) trade_date (decision_value name) = Inr (start, stop)"
    using session_window_decision by blast
  obtain ticks where ticks: "clock_ticks ?k stop (start + ?k) = Some ticks"
    "set ticks = {t. t < stop \<and> (\<exists>k \<ge> 0. t = start + ?k + k * ?k)}"
    using clock_ticks_complete [of ?k stop "start + ?k"] assms by auto
  obtain clocks where clocks: "session_clocks z c trade_date names = Some (Inr clocks)" "set clocks = decision_grid z c trade_date names"
    using Cons by blast
  have "(\<exists>k \<ge> 0. t = start + ?k + k * ?k) \<longleftrightarrow> (\<exists>k \<ge> 1. t = start + k * ?k)" for t
  proof
    assume "\<exists>k \<ge> 0. t = start + ?k + k * ?k"
    then obtain k where "0 \<le> k" "t = start + ?k + k * ?k" by blast
    then show "\<exists>k \<ge> 1. t = start + k * ?k" by (intro exI [of _ "k + 1"]) (simp add: algebra_simps)
  next
    assume "\<exists>k \<ge> 1. t = start + k * ?k"
    then obtain k where "1 \<le> k" "t = start + k * ?k" by blast
    then show "\<exists>k \<ge> 0. t = start + ?k + k * ?k" by (intro exI [of _ "k - 1"]) (simp add: algebra_simps)
  qed
  then have "set (ticks @ clocks) = decision_grid z c trade_date (name # names)"
    by (auto simp: decision_grid_def clocks(2) ticks(2) w)
  then show ?case by (simp add: Let_def w ticks(1) clocks(1))
qed (simp add: decision_grid_def)

lemma setting_cadence: "feature_setting c \<Longrightarrow> 1 \<le> fc_cadence_seconds (tv_features c)"
  by (auto simp: feature_setting_def FeatureConfiguration_def split: if_splits)

lemma observe_market_keeps:
  "observe_market z g event = (g', r) \<Longrightarrow>
   en_configuration g' = en_configuration g \<and> en_last_decision_at g' = en_last_decision_at g"
  by (auto simp: observe_market_def split: option.splits sum.splits prod.splits)

lemma feature_apply_keeps:
  assumes "feature_apply F z g e = (g', Inr u)"
  shows "en_configuration g' = en_configuration g \<and> en_last_decision_at g' = en_last_decision_at g"
proof -
  obtain market g3 where g3: "g' = note_envelope g3 e"
    "case mu_event u of None \<Rightarrow> g3 = (reset_stream g e)\<lparr>en_market := market\<rparr>
     | Some event \<Rightarrow> observe_market z ((reset_stream g e)\<lparr>en_market := market\<rparr>) event = (g3, Inr ())"
    using feature_apply_Inr [OF assms] by metis
  have "en_configuration g3 = en_configuration g \<and> en_last_decision_at g3 = en_last_decision_at g"
    using g3(2) observe_market_keeps [of z "(reset_stream g e)\<lparr>en_market := market\<rparr>"]
    by (cases "mu_event u") (auto simp: reset_stream_def split: if_splits)
  then show ?thesis by (simp add: g3(1))
qed

lemma apply_pending_keeps:
  "apply_pending F z d g es = Inr (g', rest) \<Longrightarrow>
   en_configuration g' = en_configuration g \<and> en_last_decision_at g' = en_last_decision_at g"
proof (induction F z d g es rule: apply_pending.induct)
  case (2 F z d g pending rest)
  then show ?case
    by (cases "feature_apply F z g pending") (auto simp: rbind_eq_Inr dest: feature_apply_keeps split: if_splits)
qed simp

lemma snapshot_loop_symbols:
  assumes "\<And>symbol st s. build symbol st = Inr s \<Longrightarrow> f s = g symbol"
  shows "snapshot_loop prepare build symbols table = (table', Inr snapshots) \<Longrightarrow> map f snapshots = map g symbols"
proof (induction symbols arbitrary: table table' snapshots)
  case (Cons symbol rest)
  then show ?case
    by (auto simp: Let_def rbind_eq_Inr assms split: option.splits sum.splits prod.splits)
qed simp

text \<open>An accepted clock: its snapshots in the order of the symbols, and the next clock has to be later.\<close>

lemma feature_snapshots_matrix:
  assumes "feature_snapshots E z g (Aware d) = (g', Inr snapshots)"
  shows "map (\<lambda>s. (fs_decision_at s, fs_symbol s)) snapshots = map (Pair d) (mc_symbols (tv_market (en_configuration g)))"
    "en_configuration g' = en_configuration g" "en_last_decision_at g' = Some d" "\<And>x. en_last_decision_at g = Some x \<Longrightarrow> x < d"
proof -
  obtain d' m where guards: "decision_guards z g (Aware d) = Inr (d', m)"
    using assms by (cases "decision_guards z g (Aware d)") (auto simp: feature_snapshots_def)
  have d': "d' = d" using decision_guards_Inr(1) [OF guards] .
  obtain table r where loop: "snapshot_loop (clock_features (en_max_window g) d m) (\<lambda>symbol st. feature_snapshot_of E z g symbol st d m)
      (mc_symbols (tv_market (en_configuration g))) (en_symbols g) = (table, r)" by (rule prod.exhaust)
  have g': "r = Inr snapshots" "g' = g\<lparr>en_symbols := table, en_last_decision_at := Some d\<rparr>"
    using guards assms by (auto simp: feature_snapshots_def Let_def d' loop split: sum.splits)
  show "map (\<lambda>s. (fs_decision_at s, fs_symbol s)) snapshots = map (Pair d) (mc_symbols (tv_market (en_configuration g)))"
    by (rule snapshot_loop_symbols [OF _ loop [unfolded g'(1)]]) (erule feature_snapshot_of_Inr [OF _ refl], simp)
  show "en_configuration g' = en_configuration g" "en_last_decision_at g' = Some d" by (simp_all add: g'(2))
  show "\<And>x. en_last_decision_at g = Some x \<Longrightarrow> x < d" using decision_guards_Inr(3) [OF guards] .
qed

lemma mark_gap_fields [simp]: "fs_decision_at (mark_gap b s) = fs_decision_at s" "fs_symbol (mark_gap b s) = fs_symbol s"
  by (simp_all add: mark_gap_def)

text \<open>One clock of the replay loop.\<close>

lemma replay_clock_Inr:
  assumes "replay_clocks E F z c gaps g es (d # clocks) = Inr snapshots"
  obtains g1 rest g2 current more where "apply_pending F z d g es = Inr (g1, rest)"
    "feature_snapshots E z g1 (Aware d) = (g2, Inr current)" "replay_clocks E F z c gaps g2 rest clocks = Inr more"
    "snapshots = map (mark_gap (gap_affected c gaps d)) current @ more"
proof -
  obtain g1 rest where a: "apply_pending F z d g es = Inr (g1, rest)" using assms by (auto simp: rbind_eq_Inr)
  obtain g2 r where f: "feature_snapshots E z g1 (Aware d) = (g2, r)" by (rule prod.exhaust)
  show ?thesis using assms that [OF a, of g2] by (auto simp: a f rbind_eq_Inr)
qed

lemma replay_clocks_matrix:
  "replay_clocks E F z c gaps g es clocks = Inr snapshots \<Longrightarrow> en_configuration g = c \<Longrightarrow>
   map (\<lambda>s. (fs_decision_at s, fs_symbol s)) snapshots = concat (map (\<lambda>d. map (Pair d) (mc_symbols (tv_market c))) clocks) \<and>
   (\<forall>x. en_last_decision_at g = Some x \<longrightarrow> (\<forall>d \<in> set clocks. x < d)) \<and> sorted_wrt (<) clocks"
proof (induction clocks arbitrary: g es snapshots)
  case (Cons d clocks)
  obtain g1 rest g2 current more where step: "apply_pending F z d g es = Inr (g1, rest)"
    "feature_snapshots E z g1 (Aware d) = (g2, Inr current)" "replay_clocks E F z c gaps g2 rest clocks = Inr more"
    "snapshots = map (mark_gap (gap_affected c gaps d)) current @ more"
    using replay_clock_Inr [OF Cons.prems(1)] .
  have g1: "en_configuration g1 = c" "en_last_decision_at g1 = en_last_decision_at g"
    using apply_pending_keeps [OF step(1)] Cons.prems(2) by simp_all
  note here = feature_snapshots_matrix [OF step(2)]
  have g2: "en_configuration g2 = c" using here(2) g1(1) by simp
  have ih: "map (\<lambda>s. (fs_decision_at s, fs_symbol s)) more = concat (map (\<lambda>d. map (Pair d) (mc_symbols (tv_market c))) clocks)"
    "\<forall>x \<in> set clocks. d < x" "sorted_wrt (<) clocks"
    using Cons.IH [OF step(3) g2] here(3) by auto
  have "map (\<lambda>s. (fs_decision_at s, fs_symbol s)) snapshots = map (Pair d) (mc_symbols (tv_market c)) @ map (\<lambda>s. (fs_decision_at s, fs_symbol s)) more"
    using here(1) by (simp add: step(4) g1(1) o_def)
  then show ?case using ih here(4) g1(2) by (auto intro: less_trans)
qed simp

text \<open>C17: A replay always comes to its end, and emits the complete matrix. For a validated configuration the clock generator terminates
  and yields, in strictly increasing order when they are replayed, exactly the cadence steps inside the enabled
  sessions; a successful replay returns one snapshot per clock and configured symbol, in that order.\<close>

theorem replay_emits_matrix:
  assumes "feature_setting c" "contains c trade_date"
  shows "\<exists>clocks r. decision_times z c trade_date = Some (Inr clocks) \<and>
    set clocks = decision_grid z c trade_date (fc_decision_sessions (tv_features c)) \<and>
    replay_features E F z c trade_date gaps envelopes = Some r \<and>
    (\<forall>snapshots. r = Inr snapshots \<longrightarrow> sorted_wrt (<) clocks \<and>
       map (\<lambda>s. (fs_decision_at s, fs_symbol s)) snapshots = concat (map (\<lambda>d. map (Pair d) (mc_symbols (tv_market c))) clocks))"
proof -
  obtain clocks where "session_clocks z c trade_date (fc_decision_sessions (tv_features c)) = Some (Inr clocks)"
      "set clocks = decision_grid z c trade_date (fc_decision_sessions (tv_features c))"
    using session_clocks_complete [OF setting_cadence [OF assms(1)]] by metis
  then have clocks: "decision_times z c trade_date = Some (Inr clocks)"
      "set clocks = decision_grid z c trade_date (fc_decision_sessions (tv_features c))"
    using assms(2) by (simp_all add: decision_times_def)
  obtain g where g: "new_feature_engine c = Inr g" "en_configuration g = c"
    using assms(1) by (auto simp: new_feature_engine_def feature_setting_def FeatureConfiguration_def split: if_splits)
  show ?thesis
    using clocks replay_clocks_matrix [OF _ g(2), of E F z gaps envelopes clocks] by (auto simp: replay_features_def g(1))
qed

section \<open>Replay never looks ahead\<close>

lemma apply_pending_later:
  assumes "\<And>e. e \<in> set later_envelopes \<Longrightarrow> d < se_received_at e"
  shows "apply_pending F z d g es = Inr (g1, rest) \<Longrightarrow> apply_pending F z d g (es @ later_envelopes) = Inr (g1, rest @ later_envelopes)"
proof (induction es arbitrary: g)
  case Nil
  then show ?case
  proof (cases later_envelopes)
    case (Cons e es)
    then have "\<not> se_received_at e \<le> d" using assms [of e] by simp
    then show ?thesis using Nil Cons by simp
  qed simp
next
  case (Cons e es)
  then show ?case by (cases "feature_apply F z g e") (auto simp: rbind_eq_Inr split: if_splits)
qed

lemma same_matrix:
  assumes "map (\<lambda>s. (fs_decision_at s, fs_symbol s)) a = map (\<lambda>s. (fs_decision_at s, fs_symbol s)) b"
    "\<And>s. s \<in> set a \<Longrightarrow> T < fs_decision_at s"
  shows "list_all2 (\<lambda>s s'. fs_decision_at s' = fs_decision_at s \<and> fs_symbol s' = fs_symbol s \<and> (fs_decision_at s \<le> T \<longrightarrow> s' = s)) a b"
  using assms
proof (induction a arbitrary: b)
  case (Cons s a)
  then obtain s' b' where b: "b = s' # b'" by (cases b) auto
  have "T < fs_decision_at s" using Cons.prems(2) by simp
  moreover have "list_all2 (\<lambda>s s'. fs_decision_at s' = fs_decision_at s \<and> fs_symbol s' = fs_symbol s \<and>
      (fs_decision_at s \<le> T \<longrightarrow> s' = s)) a b'"
    using Cons.prems by (intro Cons.IH) (simp_all add: b)
  ultimately show ?case using Cons.prems(1) by (simp add: b)
qed simp

lemma replay_clocks_later:
  assumes later: "\<And>e. e \<in> set later_envelopes \<Longrightarrow> T < se_received_at e"
  shows "replay_clocks E F z c gaps g es clocks = Inr a \<Longrightarrow> replay_clocks E F z c gaps g (es @ later_envelopes) clocks = Inr b \<Longrightarrow>
    en_configuration g = c \<Longrightarrow>
    list_all2 (\<lambda>s s'. fs_decision_at s' = fs_decision_at s \<and> fs_symbol s' = fs_symbol s \<and> (fs_decision_at s \<le> T \<longrightarrow> s' = s)) a b"
proof (induction clocks arbitrary: g es a b)
  case (Cons d clocks)
  show ?case
  proof (cases "d \<le> T")
    case True
    obtain g1 rest g2 current more where step: "apply_pending F z d g es = Inr (g1, rest)"
      "feature_snapshots E z g1 (Aware d) = (g2, Inr current)" "replay_clocks E F z c gaps g2 rest clocks = Inr more"
      "a = map (mark_gap (gap_affected c gaps d)) current @ more"
      using replay_clock_Inr [OF Cons.prems(1)] .
    have "apply_pending F z d g (es @ later_envelopes) = Inr (g1, rest @ later_envelopes)"
      by (rule apply_pending_later [OF _ step(1)]) (use True later in \<open>force\<close>)
    then obtain more' where more': "replay_clocks E F z c gaps g2 (rest @ later_envelopes) clocks = Inr more'"
      "b = map (mark_gap (gap_affected c gaps d)) current @ more'"
      using Cons.prems(2) by (auto simp: step(2) rbind_eq_Inr)
    have "en_configuration g2 = c"
      using feature_snapshots_matrix(2) [OF step(2)] apply_pending_keeps [OF step(1)] Cons.prems(3) by simp
    from Cons.IH [OF step(3) more'(1) this] show ?thesis
      unfolding step(4) more'(2) by (intro list_all2_appendI list_all2_refl) auto
  next
    case False
    note matrix = replay_clocks_matrix [OF Cons.prems(1,3)] replay_clocks_matrix [OF Cons.prems(2,3)]
    have "T < fs_decision_at s" if s: "s \<in> set a" for s
    proof -
      have "(fs_decision_at s, fs_symbol s) \<in> set (map (\<lambda>s. (fs_decision_at s, fs_symbol s)) a)" using s by auto
      then have "fs_decision_at s \<in> set (d # clocks)" unfolding conjunct1 [OF matrix(1)] by auto
      then show ?thesis using False matrix(1) by (auto intro: less_trans)
    qed
    then show ?thesis using matrix by (intro same_matrix) auto
  qed
qed simp

text \<open>C14: Features never look ahead. When a capture is extended by envelopes received after an instant \<open>T\<close> and both captures
  can be replayed, the two replays emit the same clocks and symbols, and every snapshot decided at or before \<open>T\<close> is identical.\<close>

theorem features_ignore_future:
  assumes "replay_features E F z c trade_date gaps envelopes = Some (Inr snapshots)"
    "replay_features E F z c trade_date gaps (envelopes @ later_envelopes) = Some (Inr snapshots')"
    "\<forall>e \<in> set later_envelopes. T < se_received_at e"
  shows "list_all2 (\<lambda>s s'. fs_decision_at s' = fs_decision_at s \<and> fs_symbol s' = fs_symbol s \<and> (fs_decision_at s \<le> T \<longrightarrow> s' = s))
    snapshots snapshots'"
proof -
  obtain g clocks where g: "new_feature_engine c = Inr g" "decision_times z c trade_date = Some (Inr clocks)"
    "replay_clocks E F z c gaps g envelopes clocks = Inr snapshots" "replay_clocks E F z c gaps g (envelopes @ later_envelopes) clocks = Inr snapshots'"
    using assms(1,2) by (auto simp: replay_features_def rbind_eq_Inr split: sum.splits option.splits)
  have "en_configuration g = c" using g(1) by (auto simp: new_feature_engine_def split: if_splits)
  then show ?thesis using replay_clocks_later [OF _ g(3,4)] assms(3) by blast
qed

section \<open>Witnesses\<close>

theorem eligible_features_complete_witness:
  "\<exists>s. is_eligible s \<and> False \<notin> set (book_presence s) \<and> (\<forall>w \<in> set (fs_windows s). window_complete w) \<and>
     map fw_window_seconds (fs_windows s) = [30]"
proof -
  obtain g h where run: "feature_run sample_feature_env sample_feature_feed vietnam_zone sample_feature_trading sample_feature_ops = Inr (g, h)"
    and made: "case snd (feature_snapshots sample_feature_env vietnam_zone g (Aware sample_feature_clock)) of Inl _ \<Rightarrow> False
     | Inr snapshots \<Rightarrow> map is_eligible snapshots = [True]"
    by (rule sample_feature_run)
  obtain g' snapshots where snapshots: "feature_snapshots sample_feature_env vietnam_zone g (Aware sample_feature_clock) = (g', Inr snapshots)"
      "map is_eligible snapshots = [True]"
    using case_res_True [OF made] by (metis prod.collapse)
  from snapshots(2) obtain s where s: "s \<in> set snapshots" "is_eligible s" by (auto simp: map_eq_Cons_conv)
  have "MarketConfiguration (\<lambda>_. True) (tv_market sample_feature_trading) = Inr (tv_market sample_feature_trading)" by code_simp
  then have valid: "valid_market sample_feature_trading" unfolding valid_market_def by blast
  have ordered: "sorted (map se_received_at (fed sample_feature_ops))" by code_simp
  have "fc_windows_seconds (tv_features sample_feature_trading) = [30]" by code_simp
  then show ?thesis using eligible_features_complete [OF sample_feature_setting valid run ordered snapshots(1) s] s(2) by (intro exI [of _ s]) simp
qed

abbreviation "sample_feature_date \<equiv> local_date vietnam_zone sample_market_open"

text \<open>Two replays of the day: of the first two envelopes, and of all of them.\<close>

lemma sample_replays:
  "case replay_features sample_feature_env sample_feature_feed vietnam_zone sample_feature_trading sample_feature_date []
     (take 2 sample_feature_envelopes) of Some (Inr snapshots) \<Rightarrow> map is_eligible snapshots = [False, False] | _ \<Rightarrow> False"
  "case replay_features sample_feature_env sample_feature_feed vietnam_zone sample_feature_trading sample_feature_date []
     (take 2 sample_feature_envelopes @ drop 2 sample_feature_envelopes) of
     Some (Inr snapshots) \<Rightarrow> map is_eligible snapshots = [False, True] | _ \<Rightarrow> False"
  by code_simp+

theorem replay_emits_matrix_witness:
  "\<exists>clocks snapshots. decision_times vietnam_zone sample_feature_trading sample_feature_date = Some (Inr clocks) \<and>
     replay_features sample_feature_env sample_feature_feed vietnam_zone sample_feature_trading sample_feature_date []
       (take 2 sample_feature_envelopes) = Some (Inr snapshots) \<and> map is_eligible snapshots = [False, False] \<and>
     map (\<lambda>s. (fs_decision_at s, fs_symbol s)) snapshots = map (\<lambda>d. (d, ''VIC'')) clocks"
proof -
  have inside: "contains sample_feature_trading sample_feature_date" by code_simp
  have "mc_symbols (tv_market sample_feature_trading) = [''VIC'']" by code_simp
  then show ?thesis
    using replay_emits_matrix [OF sample_feature_setting inside, of vietnam_zone sample_feature_env sample_feature_feed "[]" "take 2 sample_feature_envelopes"]
      sample_replays(1) by (auto split: option.splits sum.splits)
qed

theorem features_ignore_future_witness:
  "\<exists>snapshots snapshots'. replay_features sample_feature_env sample_feature_feed vietnam_zone sample_feature_trading
       sample_feature_date [] (take 2 sample_feature_envelopes) = Some (Inr snapshots) \<and>
     replay_features sample_feature_env sample_feature_feed vietnam_zone sample_feature_trading
       sample_feature_date [] (take 2 sample_feature_envelopes @ drop 2 sample_feature_envelopes) = Some (Inr snapshots') \<and>
     list_all2 (\<lambda>s s'. fs_decision_at s' = fs_decision_at s \<and> fs_symbol s' = fs_symbol s \<and>
       (fs_decision_at s \<le> sample_market_open + 30 * second_us \<longrightarrow> s' = s)) snapshots snapshots' \<and>
     map is_eligible snapshots \<noteq> map is_eligible snapshots'"
proof -
  have later: "\<forall>e \<in> set (drop 2 sample_feature_envelopes). sample_market_open + 30 * second_us < se_received_at e" by code_simp
  obtain snapshots where short: "replay_features sample_feature_env sample_feature_feed vietnam_zone sample_feature_trading
       sample_feature_date [] (take 2 sample_feature_envelopes) = Some (Inr snapshots)" "map is_eligible snapshots = [False, False]"
    using sample_replays(1) by (auto split: option.splits sum.splits)
  obtain snapshots' where full: "replay_features sample_feature_env sample_feature_feed vietnam_zone sample_feature_trading
       sample_feature_date [] (take 2 sample_feature_envelopes @ drop 2 sample_feature_envelopes) = Some (Inr snapshots')"
       "map is_eligible snapshots' = [False, True]"
    using sample_replays(2) by (auto split: option.splits sum.splits)
  show ?thesis using features_ignore_future [OF short(1) full(1) later] short full by (intro exI [of _ snapshots] exI [of _ snapshots']) simp
qed

end
