(* ===== verification/ContextModel.thy ===== *)
theory ContextModel
  imports Readiness FeatureModel
begin

text \<open>
  The decision context: the records of \<^verbatim>\<open>t0_trading/context/model.py\<close> and the breadth record of
  \<^verbatim>\<open>context/breadth.py\<close> with their validators, and the regime classification of \<^verbatim>\<open>context/regime.py\<close>.

  A basis is explicit: a classification from constituent breadth never falls back to the index feed. The identity of a
  context policy (\<^verbatim>\<open>context_identity\<close>) is in \<^verbatim>\<open>Readiness\<close>.
\<close>

section \<open>Zones, indices and market statuses\<close>

record zone_context =
  zc_symbol :: string
  zc_current_feature_snapshot_sha256 :: string
  zc_history_sha256 :: "string option"
  zc_observation_count :: int
  zc_support :: "decimal option"
  zc_resistance :: "decimal option"
  zc_support_distance_bps :: "decimal option"
  zc_resistance_distance_bps :: "decimal option"
  zc_near_support_strength :: "decimal option"

definition zone_presence :: "zone_context \<Rightarrow> bool list" where
  "zone_presence z = [zc_history_sha256 z \<noteq> None, zc_support z \<noteq> None, zc_resistance z \<noteq> None,
     zc_support_distance_bps z \<noteq> None, zc_resistance_distance_bps z \<noteq> None, zc_near_support_strength z \<noteq> None]"

definition ZoneContext :: "zone_context \<Rightarrow> zone_context res" where
  "ZoneContext z =
     (if \<not> (is_sha256 (zc_current_feature_snapshot_sha256 z) \<and> if_present is_sha256 (zc_history_sha256 z) \<and>
            0 \<le> zc_observation_count z \<and> if_present (\<lambda>v. 0 < v) (zc_support z) \<and> if_present (\<lambda>v. 0 < v) (zc_resistance z) \<and>
            if_present (\<lambda>v. 0 \<le> v \<and> v \<le> 1) (zc_near_support_strength z))
      then Inl (ValidationError ''ZoneContext'')
      else if False \<in> set (zone_presence z) \<and> True \<in> set (zone_presence z)
      then Inl (ValidationError ''zone values must be wholly present or absent'')
      else if (case (zc_support z, zc_resistance z) of (Some s, Some r) \<Rightarrow> s > r | _ \<Rightarrow> False)
      then Inl (ValidationError ''zone support cannot exceed resistance'')
      else Inr z)"

definition zone_is_available :: "zone_context \<Rightarrow> bool" where
  "zone_is_available z = (zc_support z \<noteq> None)"

record market_window_context =
  mw_window_seconds :: int
  mw_return_bps :: decimal
  mw_realized_volatility_bps :: decimal

definition MarketWindowContext :: "market_window_context \<Rightarrow> market_window_context res" where
  "MarketWindowContext w =
     (if 1 \<le> mw_window_seconds w \<and> 0 \<le> mw_realized_volatility_bps w then Inr w
      else Inl (ValidationError ''MarketWindowContext''))"

datatype index_source_kind = SSI_STREAM_TRADE | SSI_REST_INDEX_1M_HISTORICAL

datatype status_source_kind = SSI_STREAM_MARKET_STATUS | CONFIGURED_MARKET_CALENDAR

record index_context =
  ix_index :: string
  ix_value :: "decimal option"
  ix_age_seconds :: "decimal option"
  ix_source_kind :: "index_source_kind option"
  ix_source_record_sha256 :: "string option"
  ix_stream_session_id :: "string option"
  ix_receive_sequence :: "int option"
  ix_windows :: "market_window_context list"
  ix_reasons :: "string list"

definition is_identifier :: "string \<Rightarrow> bool" where
  "is_identifier s = (s = map to_upper (strip s))"

text \<open>\<^verbatim>\<open>any(value is None) and any(value is not None)\<close> over the four lineage fields.\<close>

definition mixed :: "bool list \<Rightarrow> bool" where
  "mixed present = (False \<in> set present \<and> True \<in> set present)"

definition IndexContext :: "index_context \<Rightarrow> index_context res" where
  "IndexContext x =
     (if \<not> (if_present (\<lambda>v. 0 < v) (ix_value x) \<and> if_present (\<lambda>v. 0 \<le> v) (ix_age_seconds x) \<and>
            if_present is_sha256 (ix_source_record_sha256 x) \<and> if_present (\<lambda>v. v \<noteq> []) (ix_stream_session_id x) \<and>
            if_present (\<lambda>v. 1 \<le> v) (ix_receive_sequence x))
      then Inl (ValidationError ''IndexContext'')
      else if \<not> is_identifier (ix_index x) then Inl (ValidationError ''index identifier must be uppercase'')
      else if mixed [ix_value x \<noteq> None, ix_age_seconds x \<noteq> None, ix_source_kind x \<noteq> None, ix_source_record_sha256 x \<noteq> None]
      then Inl (ValidationError ''index value lineage must be wholly present or absent'')
      else if (ix_stream_session_id x = None) \<noteq> (ix_receive_sequence x = None)
      then Inl (ValidationError ''index stream position must be wholly present or absent'')
      else if ix_source_kind x = Some SSI_STREAM_TRADE \<and> ix_stream_session_id x = None
      then Inl (ValidationError ''live index context requires stream position lineage'')
      else if ix_source_kind x \<noteq> Some SSI_STREAM_TRADE \<and> ix_stream_session_id x \<noteq> None
      then Inl (ValidationError ''historical index context cannot carry stream position lineage'')
      else if map mw_window_seconds (ix_windows x) \<noteq> sorted_set (map mw_window_seconds (ix_windows x))
      then Inl (ValidationError ''index windows must be unique and ascending'')
      else if fromkeys (ix_reasons x) \<noteq> ix_reasons x then Inl (ValidationError ''index reasons must be unique'')
      else Inr x)"

definition index_is_eligible :: "index_context \<Rightarrow> bool" where
  "index_is_eligible x = (ix_reasons x = [])"

record market_status_context =
  mk_market :: string
  mk_status :: "string option"
  mk_age_seconds :: "decimal option"
  mk_is_tradable :: bool
  mk_source_kind :: "status_source_kind option"
  mk_source_record_sha256 :: "string option"
  mk_stream_session_id :: "string option"
  mk_receive_sequence :: "int option"
  mk_reasons :: "string list"

definition MarketStatusContext :: "market_status_context \<Rightarrow> market_status_context res" where
  "MarketStatusContext x =
     (if \<not> (if_present (\<lambda>v. 0 \<le> v) (mk_age_seconds x) \<and> if_present is_sha256 (mk_source_record_sha256 x) \<and>
            if_present (\<lambda>v. v \<noteq> []) (mk_stream_session_id x) \<and> if_present (\<lambda>v. 1 \<le> v) (mk_receive_sequence x))
      then Inl (ValidationError ''MarketStatusContext'')
      else if \<not> is_identifier (mk_market x) \<or> mk_market x = []
      then Inl (ValidationError ''market-status market must be uppercase'')
      else if \<not> if_present is_identifier (mk_status x) then Inl (ValidationError ''market status must be uppercase'')
      else if mixed [mk_status x \<noteq> None, mk_age_seconds x \<noteq> None, mk_source_kind x \<noteq> None, mk_source_record_sha256 x \<noteq> None]
      then Inl (ValidationError ''market-status lineage must be wholly present or absent'')
      else if (mk_stream_session_id x = None) \<noteq> (mk_receive_sequence x = None)
      then Inl (ValidationError ''market-status stream position must be wholly present or absent'')
      else if mk_source_kind x = Some SSI_STREAM_MARKET_STATUS \<and> mk_stream_session_id x = None
      then Inl (ValidationError ''live market status requires stream position lineage'')
      else if mk_source_kind x \<noteq> Some SSI_STREAM_MARKET_STATUS \<and> mk_stream_session_id x \<noteq> None
      then Inl (ValidationError ''calendar market status cannot carry stream position lineage'')
      else if mk_is_tradable x \<noteq> (mk_reasons x = [])
      then Inl (ValidationError ''market-status tradability must match its reasons'')
      else if fromkeys (mk_reasons x) \<noteq> mk_reasons x then Inl (ValidationError ''market-status reasons must be unique'')
      else Inr x)"

section \<open>Breadth\<close>

record breadth_context =
  br_index :: string
  br_policy_version :: string
  br_policy_sha256 :: string
  br_membership_sha256 :: "string option"
  br_observations_sha256 :: string
  br_lookback_seconds :: int
  br_expected_count :: int
  br_observed_count :: int
  br_participation :: "decimal option"
  br_advance_ratio :: "decimal option"
  br_mean_return_bps :: "decimal option"
  br_dispersion_bps :: "decimal option"
  br_upward_confirmation :: "bool option"
  br_reasons :: "string list"

definition BreadthContext :: "breadth_context \<Rightarrow> breadth_context res" where
  "BreadthContext b =
     (let present = [br_advance_ratio b \<noteq> None, br_mean_return_bps b \<noteq> None, br_dispersion_bps b \<noteq> None] in
      if \<not> (is_sha256 (br_policy_sha256 b) \<and> if_present is_sha256 (br_membership_sha256 b) \<and> is_sha256 (br_observations_sha256 b) \<and>
            60 \<le> br_lookback_seconds b \<and> 0 \<le> br_expected_count b \<and> 0 \<le> br_observed_count b \<and>
            if_present (\<lambda>v. 0 \<le> v \<and> v \<le> 1) (br_participation b) \<and> if_present (\<lambda>v. 0 \<le> v \<and> v \<le> 1) (br_advance_ratio b) \<and>
            if_present (\<lambda>v. 0 \<le> v) (br_dispersion_bps b))
      then Inl (ValidationError ''BreadthContext'')
      else if br_observed_count b > br_expected_count b then Inl (ValidationError ''breadth observations exceed membership'')
      else if (br_participation b = None) \<noteq> (br_expected_count b = 0)
      then Inl (ValidationError ''breadth participation requires a membership denominator'')
      else if (False \<in> set present) \<noteq> (br_observed_count b = 0) \<or> (True \<in> set present) \<noteq> (0 < br_observed_count b)
      then Inl (ValidationError ''breadth metrics require observed constituents'')
      else rbind (case br_participation b of None \<Rightarrow> Inr False
            | Some p \<Rightarrow> rbind (ratio RATIO_QUANTUM (of_int (br_observed_count b)) (of_int (br_expected_count b))) (\<lambda>r. Inr (p \<noteq> r)))
        (\<lambda>differs. if differs then Inl (ValidationError ''breadth participation does not match coverage'')
          else if (br_upward_confirmation b = None) \<noteq> (br_reasons b \<noteq> [])
          then Inl (ValidationError ''breadth confirmation requires healthy evidence'')
          else Inr b))"

section \<open>The decision context\<close>

record decision_context =
  dc_context_version :: string
  dc_context_configuration_sha256 :: string
  dc_feature_configuration_sha256 :: string
  dc_data_mode :: context_data_mode
  dc_trade_date :: date
  dc_decision_at :: instant
  dc_zones :: "zone_context list"
  dc_indices :: "index_context list"
  dc_market_statuses :: "market_status_context list"
  dc_breadth :: "breadth_context list"
  dc_market_basis :: "regime_basis option"
  dc_regime_policy_version :: "string option"
  dc_regime_policy_sha256 :: "string option"
  dc_market_reference_index :: "string option"
  dc_market_confirmation_strength :: "decimal option"
  dc_regime :: market_regime
  dc_reasons :: "string list"

text \<open>\<^verbatim>\<open>next((item for item in self.breadth if item.index == ...), None)\<close>\<close>

definition reference_breadth :: "string option \<Rightarrow> breadth_context list \<Rightarrow> breadth_context option" where
  "reference_breadth index breadth = find (\<lambda>b. Some (br_index b) = index) breadth"

definition unique_sorted :: "('a \<Rightarrow> string) \<Rightarrow> 'a list \<Rightarrow> bool" where
  "unique_sorted key xs = (map key xs = sorted_set (map key xs))"

definition DecisionContext :: "decision_context \<Rightarrow> decision_context res" where
  "DecisionContext c =
     (if \<not> (is_version (dc_context_version c) \<and> is_sha256 (dc_context_configuration_sha256 c) \<and>
            is_sha256 (dc_feature_configuration_sha256 c) \<and> if_present is_version (dc_regime_policy_version c) \<and>
            if_present is_sha256 (dc_regime_policy_sha256 c) \<and>
            if_present (\<lambda>v. 0 \<le> v \<and> v \<le> 1) (dc_market_confirmation_strength c))
      then Inl (ValidationError ''DecisionContext'')
      else if mixed [dc_market_basis c \<noteq> None, dc_regime_policy_version c \<noteq> None, dc_regime_policy_sha256 c \<noteq> None]
      then Inl (ValidationError ''regime basis and policy lineage must be wholly present or absent'')
      else if (dc_market_reference_index c \<noteq> None) \<noteq> (dc_market_basis c = Some CONSTITUENT_BREADTH)
      then Inl (ValidationError ''only constituent regime requires a reference index'')
      else if dc_market_basis c \<noteq> None \<and> dc_data_mode c \<noteq> LIVE
      then Inl (ValidationError ''declared realtime regime cannot use historical proxy context'')
      else if dc_market_basis c = Some CONSTITUENT_BREADTH \<and> dc_regime c \<noteq> UNKNOWN \<and>
              (case reference_breadth (dc_market_reference_index c) (dc_breadth c) of None \<Rightarrow> True | Some b \<Rightarrow> br_reasons b \<noteq> [])
      then Inl (ValidationError ''classified constituent regime requires eligible reference evidence'')
      else if \<not> unique_sorted br_index (dc_breadth c) then Inl (ValidationError ''breadth indices must be unique and sorted'')
      else if \<not> unique_sorted zc_symbol (dc_zones c) then Inl (ValidationError ''context zones must be unique and sorted'')
      else if \<not> unique_sorted ix_index (dc_indices c) then Inl (ValidationError ''context indices must be unique and sorted'')
      else if \<not> unique_sorted mk_market (dc_market_statuses c) then Inl (ValidationError ''market statuses must be unique and sorted'')
      else if fromkeys (dc_reasons c) \<noteq> dc_reasons c then Inl (ValidationError ''context reasons must be unique'')
      else if dc_regime c = UNKNOWN \<and> dc_reasons c = [] then Inl (ValidationError ''unknown regime requires an explicit reason'')
      else if dc_regime c \<noteq> UNKNOWN \<and> dc_reasons c \<noteq> [] then Inl (ValidationError ''classified regime cannot carry context failures'')
      else if (dc_market_confirmation_strength c = None) \<noteq> (dc_reasons c \<noteq> [])
      then Inl (ValidationError ''market confirmation availability must match context health'')
      else Inr c)"

definition context_is_tradable :: "decision_context \<Rightarrow> bool" where
  "context_is_tradable c =
     (let expected = (if dc_data_mode c = LIVE then SSI_STREAM_MARKET_STATUS else CONFIGURED_MARKET_CALENDAR) in
      dc_market_statuses c \<noteq> [] \<and>
      list_all (\<lambda>x. mk_is_tradable x \<and> mk_source_kind x = Some expected) (dc_market_statuses c))"

definition selection_block_reason :: "bool \<Rightarrow> decision_context \<Rightarrow> string option" where
  "selection_block_reason realtime c =
     (if \<not> context_is_tradable c then Some ''market_status_ineligible''
      else if (realtime \<or> dc_market_basis c \<noteq> None) \<and> dc_regime c = UNKNOWN then Some ''regime_ineligible'' else None)"

definition context_zone :: "decision_context \<Rightarrow> string \<Rightarrow> zone_context res" where
  "context_zone c symbol =
     (case filter (\<lambda>z. zc_symbol z = symbol) (dc_zones c) of
        [z] \<Rightarrow> Inr z | _ \<Rightarrow> Inl (ValueError (''context requires one zone for '' @ symbol)))"

section \<open>Regime classification\<close>

text \<open>\<^verbatim>\<open>min(_ONE, max(_ZERO, x))\<close>\<close>

definition clamp_unit :: "decimal \<Rightarrow> decimal" where
  "clamp_unit x = min 1 (max 0 x)"

text \<open>The result of the classification: confirmation strength, regime and reasons.\<close>

type_synonym classification = "decimal option \<times> market_regime \<times> string list"

definition labelled_reasons :: "string \<Rightarrow> string list \<Rightarrow> string list" where
  "labelled_reasons name = map (\<lambda>reason. name @ ''_'' @ reason)"

definition breadth_regime :: "breadth_version \<Rightarrow> decimal \<Rightarrow> decimal \<Rightarrow> breadth_context \<Rightarrow> decimal \<Rightarrow> decimal \<Rightarrow> decimal \<Rightarrow> market_regime" where
  "breadth_regime policy threshold dispersion_threshold reference mean dispersion advance =
     (if dispersion \<ge> dispersion_threshold then HIGH_DISPERSION
      else if mean \<ge> threshold \<and> br_upward_confirmation reference = Some True then TREND_UP
      else if mean \<le> dneg threshold \<and> advance \<le> dsub 1 (bv_confirmation_advance_ratio policy) then TREND_DOWN
      else RANGE)"

definition constituent_state ::
  "lineage_digests \<Rightarrow> regime_version \<Rightarrow> breadth_context list \<Rightarrow> breadth_version option \<Rightarrow> classification res" where
  "constituent_state L regime breadth breadth_policy =
     (case breadth_policy of None \<Rightarrow> Inl (ValueError ''constituent regime requires a breadth policy'')
      | Some policy \<Rightarrow>
     (case reference_breadth (rg_reference_index regime) breadth of
        None \<Rightarrow> Inr (None, UNKNOWN, [(case rg_reference_index regime of None \<Rightarrow> ''None'' | Some i \<Rightarrow> i) @ ''_MISSING_BREADTH''])
      | Some reference \<Rightarrow>
        if br_policy_sha256 reference \<noteq> version_sha256 (ld_breadth L) policy
        then Inl (ValueError ''constituent regime breadth policy lineage mismatch'')
        else if br_reasons reference \<noteq> [] then Inr (None, UNKNOWN, labelled_reasons (br_index reference) (br_reasons reference))
        else (case (rg_trend_threshold_bps regime, rg_high_dispersion_threshold_bps regime, br_mean_return_bps reference,
                    br_dispersion_bps reference, br_advance_ratio reference) of
            (Some threshold, Some dispersion_threshold, Some mean, Some dispersion, Some advance) \<Rightarrow>
              rbind (ddiv_res mean threshold) (\<lambda>share.
              rbind (ratio RATIO_QUANTUM (dmul (clamp_unit share) advance) 1) (\<lambda>confirmation.
              Inr (Some confirmation, breadth_regime policy threshold dispersion_threshold reference mean dispersion advance, [])))
          | _ \<Rightarrow> Inl (ValueError ''eligible constituent regime requires complete metrics and policy''))))"

text \<open>The reasons of indices and, without a regime policy, of market statuses.\<close>

definition source_reasons :: "index_context list \<Rightarrow> market_status_context list \<Rightarrow> bool \<Rightarrow> string list" where
  "source_reasons indices statuses with_statuses =
     (let reasons = fromkeys (concat (map (\<lambda>x. labelled_reasons (ix_index x) (ix_reasons x)) indices) @
        (if with_statuses then concat (map (\<lambda>x. labelled_reasons (mk_market x) (mk_reasons x)) statuses) else []))
      in if indices = [] then reasons @ [''MISSING_REQUIRED_INDICES''] else reasons)"

definition long_window :: "int \<Rightarrow> index_context \<Rightarrow> market_window_context option" where
  "long_window seconds x = find (\<lambda>w. mw_window_seconds w = seconds) (ix_windows x)"

definition index_regime :: "context_version \<Rightarrow> decimal \<Rightarrow> decimal \<Rightarrow> market_regime" where
  "index_regime policy market_return market_volatility =
     (if market_volatility \<ge> cx_high_volatility_threshold_bps policy then HIGH_VOLATILITY
      else if market_return \<ge> cx_trend_threshold_bps policy then TREND_UP
      else if market_return \<le> dneg (cx_trend_threshold_bps policy) then TREND_DOWN
      else RANGE)"

definition index_state ::
  "index_context list \<Rightarrow> market_status_context list \<Rightarrow> context_version \<Rightarrow> bool \<Rightarrow> classification res" where
  "index_state indices statuses policy with_statuses =
     (let reasons = source_reasons indices statuses with_statuses in
      if reasons \<noteq> [] then Inr (None, UNKNOWN, reasons)
      else if cx_market_windows_seconds policy = [] \<and> list_ex (\<lambda>x. ix_windows x \<noteq> []) indices then Inl IndexError
      else let seconds = last (cx_market_windows_seconds policy);
               missing = map (\<lambda>x. ix_index x @ ''_MISSING_REQUIRED_WINDOW'') (filter (\<lambda>x. long_window seconds x = None) indices)
      in if missing \<noteq> [] then Inr (None, UNKNOWN, missing)
      else let windows = map (\<lambda>x. the (long_window seconds x)) indices
      in rbind (map_res (\<lambda>w. ratio RATIO_QUANTUM (mw_return_bps w) (cx_trend_threshold_bps policy)) windows) (\<lambda>shares.
         rbind (ddiv_res (dsum (map mw_return_bps windows)) (of_nat (length windows))) (\<lambda>market_return.
         rbind (ddiv_res (dsum (map mw_realized_volatility_bps windows)) (of_nat (length windows))) (\<lambda>market_volatility.
         Inr (Some (clamp_unit (Min (set shares))), index_regime policy market_return market_volatility, [])))))"

text \<open>\<^verbatim>\<open>market_state\<close>\<close>

definition regime_state ::
  "lineage_digests \<Rightarrow> index_context list \<Rightarrow> market_status_context list \<Rightarrow> context_version \<Rightarrow> regime_version option \<Rightarrow>
   breadth_context list \<Rightarrow> breadth_version option \<Rightarrow> classification res" where
  "regime_state L indices statuses policy regime_policy breadth breadth_policy =
     (case regime_policy of
        Some regime \<Rightarrow> if rg_basis regime = CONSTITUENT_BREADTH then constituent_state L regime breadth breadth_policy
                       else index_state indices statuses policy False
      | None \<Rightarrow> index_state indices statuses policy True)"

end
