(* ===== verification/Breadth.thy ===== *)
theory Breadth
  imports ContextModel FeatureEngine
begin

text \<open>
  Constituent breadth: provider minute bars (\<^verbatim>\<open>t0_trading/market/intervals.py\<close>), captured index memberships (the records of
  \<^verbatim>\<open>capture/membership.py\<close>) and the incremental \<^verbatim>\<open>BreadthEngine\<close> of \<^verbatim>\<open>context/breadth.py\<close>.

  The message classes of the provider are the partial functions of \<open>context_feed\<close>; \<open>context_env\<close> holds the content digests.
  \<open>total_seconds()\<close> is compared and printed exactly, which holds for differences of less than thirty years.
\<close>

section \<open>Provider bars\<close>

record interval_message =
  im_symbol :: string
  im_interval_time :: string
  im_trading_time :: string
  im_type :: string
  im_volume :: int
  im_open :: "decimal option"
  im_high :: "decimal option"
  im_low :: "decimal option"
  im_close :: "decimal option"

record status_message =
  sm_market :: string
  sm_status :: string

record context_feed = market_feed +
  fd_interval :: "string \<Rightarrow> interval_message option"
  fd_status :: "string \<Rightarrow> status_message option"

record provider_bar =
  pb_symbol :: string
  pb_start :: instant
  pb_observed_at :: instant
  pb_open_price :: decimal
  pb_high_price :: decimal
  pb_low_price :: decimal
  pb_close_price :: decimal
  pb_volume :: int

definition minute_us :: int where "minute_us = 60 * second_us"

text \<open>\<^verbatim>\<open>provider_bar\<close>: no bar for another message type.\<close>

definition provider_bar_of :: "context_feed \<Rightarrow> zone_info \<Rightarrow> stream_envelope \<Rightarrow> provider_bar option res" where
  "provider_bar_of F z e =
     (if se_message_type e \<noteq> ''IntervalMessage'' then Inr None
      else if fd_sha256 F (se_message_json e) \<noteq> se_message_sha256 e
      then Inl (ValueError ''SSI IntervalMessage checksum is inconsistent'')
      else (case fd_interval F (se_message_json e) of
        None \<Rightarrow> Inl (ValueError ''invalid SSI IntervalMessage'')
      | Some m \<Rightarrow>
        if se_subscription_context e \<noteq> CTX_SYMBOLS \<or> se_symbol e \<noteq> Some (im_symbol m) \<or>
           se_source_time_text e \<noteq> Some (im_trading_time m) \<or> im_type m \<noteq> ''trade'' \<or> im_volume m \<le> 0
        then Inl (ValueError ''SSI IntervalMessage lineage is inconsistent'')
        else rbind (provider_timestamp z (im_interval_time m)) (\<lambda>start.
        rbind (provider_timestamp z (im_trading_time m)) (\<lambda>observed_at.
        if snd (zn_local z start) mod minute_us \<noteq> 0 \<or> \<not> (start \<le> observed_at \<and> observed_at < start + minute_us) \<or>
           observed_at > se_received_at e
        then Inl (ValueError ''SSI IntervalMessage timestamps are inconsistent'')
        else rbind (provider_price (im_open m)) (\<lambda>open_price.
        rbind (provider_price (im_high m)) (\<lambda>high_price.
        rbind (provider_price (im_low m)) (\<lambda>low_price.
        rbind (provider_price (im_close m)) (\<lambda>close_price.
        if low_price \<le> 0 \<or> low_price > min open_price close_price \<or> high_price < max open_price close_price
        then Inl (ValueError ''SSI IntervalMessage OHLC values are inconsistent'')
        else Inr (Some \<lparr>pb_symbol = map to_upper (im_symbol m), pb_start = start, pb_observed_at = observed_at,
          pb_open_price = open_price, pb_high_price = high_price, pb_low_price = low_price, pb_close_price = close_price,
          pb_volume = im_volume m\<rparr>)))))))))"

section \<open>Memberships\<close>

record index_membership =
  mb_index :: string
  mb_captured :: bool
  mb_symbols :: "string list"
  mb_record_sha256s :: "string list"

definition IndexMembership :: "index_membership \<Rightarrow> index_membership res" where
  "IndexMembership x =
     (if mb_index x = [] \<or> \<not> is_identifier (mb_index x)
      then Inl (ValidationError ''membership index must be an uppercase identifier'')
      else if sorted_set (mb_symbols x) \<noteq> mb_symbols x \<or> list_ex (\<lambda>s. s = [] \<or> \<not> is_identifier s) (mb_symbols x)
      then Inl (ValidationError ''membership symbols must be sorted unique uppercase identifiers'')
      else if mb_captured x \<noteq> (mb_symbols x \<noteq> []) \<or> length (mb_record_sha256s x) \<noteq> length (mb_symbols x)
      then Inl (ValidationError ''membership status and records are inconsistent'')
      else if list_ex (\<lambda>d. \<not> is_sha256 d) (mb_record_sha256s x)
      then Inl (ValidationError ''membership record checksums must be lowercase SHA-256'')
      else Inr x)"

record membership_snapshot =
  mp_captured_at :: instant
  mp_memberships :: "index_membership list"
  mp_snapshot_sha256 :: string

text \<open>Where a breadth return comes from: the position and receipt time of its two revisions.\<close>

type_synonym stream_position = "string \<times> int \<times> string"
type_synonym breadth_lineage = "string \<times> stream_position \<times> instant \<times> stream_position \<times> instant"

record context_env = feature_env +
  ce_lineage :: lineage_digests
  ce_membership_sha256 :: "instant \<Rightarrow> index_membership list \<Rightarrow> string"
  ce_observations_sha256 :: "breadth_lineage list \<Rightarrow> string"
  ce_history_sha256 :: "string list \<Rightarrow> string"
  ce_calendar_sha256 :: "string \<Rightarrow> instant \<Rightarrow> string \<Rightarrow> string"

definition BreadthMembershipSnapshot :: "context_env \<Rightarrow> membership_snapshot \<Rightarrow> membership_snapshot res" where
  "BreadthMembershipSnapshot E x =
     (if \<not> is_sha256 (mp_snapshot_sha256 x) then Inl (ValidationError ''BreadthMembershipSnapshot'')
      else if mp_memberships x = [] \<or> \<not> all_unique (map mb_index (mp_memberships x))
      then Inl (ValidationError ''membership snapshot indices must be non-empty and unique'')
      else if mp_snapshot_sha256 x \<noteq> ce_membership_sha256 E (mp_captured_at x) (mp_memberships x)
      then Inl (ValidationError ''membership snapshot checksum is inconsistent'')
      else Inr x)"

definition membership_symbols :: "membership_snapshot \<Rightarrow> string list" where
  "membership_symbols x = sorted_set (concat (map mb_symbols (filter mb_captured (mp_memberships x))))"

section \<open>The engine\<close>

record breadth_revision =
  rv_bar :: provider_bar
  rv_received_at :: instant
  rv_position :: stream_position

type_synonym revisions = "(string \<times> instant) \<Rightarrow> breadth_revision option"

record breadth_engine =
  be_configuration :: trading_version
  be_policy :: breadth_version
  be_membership :: "membership_snapshot option"
  be_bars :: revisions
  be_last_received_at :: "instant option"
  be_last_decision_at :: "instant option"

definition new_breadth_engine :: "trading_version \<Rightarrow> breadth_version \<Rightarrow> membership_snapshot option \<Rightarrow> breadth_engine" where
  "new_breadth_engine c policy membership = \<lparr>be_configuration = c, be_policy = policy, be_membership = membership,
     be_bars = Map.empty, be_last_received_at = None, be_last_decision_at = None\<rparr>"

definition breadth_symbols :: "breadth_engine \<Rightarrow> string list" where
  "breadth_symbols b = (case be_membership b of None \<Rightarrow> [] | Some x \<Rightarrow> membership_symbols x)"

definition revision_of :: "stream_envelope \<Rightarrow> provider_bar \<Rightarrow> breadth_revision" where
  "revision_of e bar = \<lparr>rv_bar = bar, rv_received_at = se_received_at e,
     rv_position = (se_stream_session_id e, se_receive_sequence e, se_message_sha256 e)\<rparr>"

text \<open>An older provider update that is delivered late does not rewind its minute.\<close>

definition add_revision :: "stream_envelope \<Rightarrow> provider_bar \<Rightarrow> revisions \<Rightarrow> revisions" where
  "add_revision e bar bars = (let key = (pb_symbol bar, pb_start bar) in
     if (case bars key of None \<Rightarrow> True | Some previous \<Rightarrow> pb_observed_at bar \<ge> pb_observed_at (rv_bar previous))
     then bars(key \<mapsto> revision_of e bar) else bars)"

definition breadth_cutoff :: "breadth_version \<Rightarrow> instant \<Rightarrow> instant" where
  "breadth_cutoff policy received_at = received_at - (bv_lookback_seconds policy + bv_stale_after_seconds policy + 60) * second_us"

definition prune_revisions :: "instant \<Rightarrow> revisions \<Rightarrow> revisions" where
  "prune_revisions cutoff bars = (\<lambda>key. if snd key \<ge> cutoff then bars key else None)"

text \<open>\<^verbatim>\<open>BreadthEngine.apply\<close>\<close>

definition breadth_apply :: "context_feed \<Rightarrow> zone_info \<Rightarrow> breadth_engine \<Rightarrow> stream_envelope \<Rightarrow> breadth_engine \<times> unit res" where
  "breadth_apply F z b e =
     (if (case be_last_received_at b of None \<Rightarrow> False | Some r \<Rightarrow> se_received_at e < r)
      then (b, Inl (ValueError ''breadth envelopes must be receipt ordered''))
      else let b1 = b\<lparr>be_last_received_at := Some (se_received_at e)\<rparr>
      in if (case se_symbol e of None \<Rightarrow> True | Some s \<Rightarrow> s \<notin> set (breadth_symbols b)) then (b1, Inr ())
      else (case provider_bar_of F z e of
         Inl err \<Rightarrow> (b1, Inl err)
       | Inr None \<Rightarrow> (b1, Inr ())
       | Inr (Some bar) \<Rightarrow>
           (b1\<lparr>be_bars := prune_revisions (breadth_cutoff (be_policy b) (se_received_at e)) (add_revision e bar (be_bars b))\<rparr>, Inr ())))"

text \<open>One constituent: its return and lineage, when both minutes were observed and are fresh.\<close>

definition fresh_pair :: "breadth_version \<Rightarrow> instant \<Rightarrow> breadth_revision \<Rightarrow> breadth_revision \<Rightarrow> bool" where
  "fresh_pair policy at_time current baseline = (let stale = bv_stale_after_seconds policy * second_us in
     at_time - pb_observed_at (rv_bar current) \<le> stale \<and>
     at_time - bv_lookback_seconds policy * second_us - pb_observed_at (rv_bar baseline) \<le> stale)"

definition constituent ::
  "breadth_version \<Rightarrow> instant \<Rightarrow> instant \<Rightarrow> instant \<Rightarrow> revisions \<Rightarrow> string \<Rightarrow> (decimal \<times> breadth_lineage) list res" where
  "constituent policy at_time current_start base_start bars symbol =
     (case (bars (symbol, current_start), bars (symbol, base_start)) of
        (Some current, Some baseline) \<Rightarrow>
          if \<not> fresh_pair policy at_time current baseline then Inr []
          else rbind (basis_points (dsub (pb_close_price (rv_bar current)) (pb_close_price (rv_bar baseline)))
                 (pb_close_price (rv_bar baseline)))
            (\<lambda>r. Inr [(r, (symbol, rv_position baseline, rv_received_at baseline, rv_position current, rv_received_at current))])
      | _ \<Rightarrow> Inr [])"

definition dispersion_of :: "decimal list \<Rightarrow> decimal \<Rightarrow> decimal res" where
  "dispersion_of returns mean =
     rbind (ddiv_res (dsum (map (\<lambda>v. dsquare 28 (dsub v mean)) returns)) (of_nat (length returns))) (\<lambda>variance.
     rbind (dsqrt 28 variance) (\<lambda>deviation. quantize_prec 28 round_half_even RATIO_QUANTUM deviation))"

text \<open>Mean (exact and quantised), advance ratio and dispersion of the observed returns.\<close>

definition breadth_metrics :: "decimal list \<Rightarrow> (decimal \<times> decimal \<times> decimal \<times> decimal) option res" where
  "breadth_metrics returns =
     (if returns = [] then Inr None
      else rbind (ratio RATIO_QUANTUM (of_nat (length (filter (\<lambda>v. 0 < v) returns))) (of_nat (length returns))) (\<lambda>advance.
      rbind (ddiv_res (dsum returns) (of_nat (length returns))) (\<lambda>mean.
      rbind (dispersion_of returns mean) (\<lambda>dispersion.
      rbind (quantize_prec 28 round_half_even RATIO_QUANTUM mean) (\<lambda>rounded. Inr (Some (advance, mean, dispersion, rounded)))))))"

definition breadth_reasons :: "breadth_version \<Rightarrow> string list \<Rightarrow> bool \<Rightarrow> nat \<Rightarrow> decimal option \<Rightarrow> string list" where
  "breadth_reasons policy symbols same_session n participation =
     (if symbols = [] then [''membership_unavailable''] else []) @
     (if \<not> same_session then [''outside_continuous_lookback''] else []) @
     (if n = 0 then [''missing_closed_minute_pairs''] else []) @
     (if (case participation of None \<Rightarrow> False | Some p \<Rightarrow> p < bv_minimum_participation policy)
      then [''insufficient_participation''] else [])"

text \<open>One index of the policy.\<close>

definition index_breadth ::
  "context_env \<Rightarrow> breadth_version \<Rightarrow> instant \<Rightarrow> bool \<Rightarrow> string option \<Rightarrow> (string \<times> index_membership) list \<Rightarrow> revisions \<Rightarrow>
   string \<Rightarrow> breadth_context res" where
  "index_breadth E policy at_time same_session membership_sha memberships bars index =
     (let symbols = (case map_of memberships index of None \<Rightarrow> [] | Some x \<Rightarrow> mb_symbols x);
          current_start = at_time - at_time mod minute_us - minute_us;
          base_start = current_start - bv_lookback_seconds policy * second_us
      in rbind (map_res (constituent policy at_time current_start base_start bars) (if same_session then symbols else [])) (\<lambda>observed.
      let returns = map fst (concat observed); lineage = map snd (concat observed); n = length returns
      in rbind (if symbols = [] then Inr None
                else rbind (ratio RATIO_QUANTUM (of_nat n) (of_nat (length symbols))) (\<lambda>p. Inr (Some p))) (\<lambda>participation.
      rbind (breadth_metrics returns) (\<lambda>metrics.
      let reasons = breadth_reasons policy symbols same_session n participation
      in BreadthContext \<lparr>br_index = index, br_policy_version = version policy,
           br_policy_sha256 = version_sha256 (ld_breadth (ce_lineage E)) policy, br_membership_sha256 = membership_sha,
           br_observations_sha256 = ce_observations_sha256 E lineage, br_lookback_seconds = bv_lookback_seconds policy,
           br_expected_count = int (length symbols), br_observed_count = int n, br_participation = participation,
           br_advance_ratio = map_option fst metrics, br_mean_return_bps = map_option (\<lambda>(_, _, _, m). m) metrics,
           br_dispersion_bps = map_option (\<lambda>(_, _, d, _). d) metrics,
           br_upward_confirmation = (if reasons \<noteq> [] then None
              else map_option (\<lambda>(a, m, _, _). bv_confirmation_advance_ratio policy \<le> a \<and> 0 < m) metrics),
           br_reasons = reasons\<rparr>))))"

definition continuous_session :: "market_session \<Rightarrow> bool" where
  "continuous_session session = (session = MS_CONTINUOUS_AM \<or> session = MS_CONTINUOUS_PM)"

text \<open>Does the look-back lie in the continuous session of the decision?\<close>

definition same_continuous_session :: "zone_info \<Rightarrow> trading_version \<Rightarrow> breadth_version \<Rightarrow> instant \<Rightarrow> bool res" where
  "same_continuous_session z c policy at_time =
     (let day = local_date z at_time;
          base_start = at_time - at_time mod minute_us - minute_us - bv_lookback_seconds policy * second_us
      in rbind (session_at z (schedule_of c) day (Aware at_time)) (\<lambda>session.
         if \<not> continuous_session session then Inr False
         else rbind (session_at z (schedule_of c) day (Aware base_start)) (\<lambda>base. Inr (base = session))))"

definition breadth_guards :: "zone_info \<Rightarrow> breadth_engine \<Rightarrow> pydatetime \<Rightarrow> instant res" where
  "breadth_guards z b decision_at =
     rbind (to_utc ''breadth decision time must be timezone-aware'' decision_at) (\<lambda>at_time.
     if (case be_last_received_at b of None \<Rightarrow> False | Some r \<Rightarrow> r > at_time)
     then Inl (ValueError ''breadth cannot build before applied receipts'')
     else if (case be_last_decision_at b of None \<Rightarrow> False | Some d \<Rightarrow> at_time \<le> d)
     then Inl (ValueError ''breadth clocks must be strictly increasing'')
     else if \<not> contains (be_policy b) (local_date z at_time)
     then Inl (ValueError ''breadth policy must cover the decision date'')
     else Inr at_time)"

text \<open>The membership that is known at the decision, with its digest.\<close>

definition known_membership :: "zone_info \<Rightarrow> membership_snapshot option \<Rightarrow> instant \<Rightarrow> membership_snapshot option" where
  "known_membership z snapshot at_time =
     (case snapshot of None \<Rightarrow> None
      | Some x \<Rightarrow> if mp_captured_at x \<le> at_time \<and> local_date z (mp_captured_at x) = local_date z at_time then Some x else None)"

text \<open>The result of \<^verbatim>\<open>build\<close> from the revisions it reads.\<close>

definition breadth_result ::
  "context_env \<Rightarrow> zone_info \<Rightarrow> trading_version \<Rightarrow> breadth_version \<Rightarrow> membership_snapshot option \<Rightarrow> revisions \<Rightarrow> instant \<Rightarrow>
   breadth_context list res" where
  "breadth_result E z c policy snapshot bars at_time =
     rbind (same_continuous_session z c policy at_time) (\<lambda>same_session.
     let known = known_membership z snapshot at_time;
         memberships = (case known of None \<Rightarrow> [] | Some x \<Rightarrow> rev (map (\<lambda>m. (mb_index m, m)) (mp_memberships x)))
     in map_res (index_breadth E policy at_time same_session (map_option mp_snapshot_sha256 known) memberships bars)
          (sort (bv_indices policy)))"

text \<open>\<^verbatim>\<open>BreadthEngine.build\<close>\<close>

definition breadth_build ::
  "context_env \<Rightarrow> zone_info \<Rightarrow> breadth_engine \<Rightarrow> pydatetime \<Rightarrow> breadth_engine \<times> breadth_context list res" where
  "breadth_build E z b decision_at =
     (case breadth_guards z b decision_at of
        Inl err \<Rightarrow> (b, Inl err)
      | Inr at_time \<Rightarrow> (b\<lparr>be_last_decision_at := Some at_time\<rparr>,
          breadth_result E z (be_configuration b) (be_policy b) (be_membership b) (be_bars b) at_time))"

end
