(* ===== verification/ContextEngine.thy ===== *)
theory ContextEngine
  imports Breadth
begin

text \<open>
  \<^verbatim>\<open>t0_trading/context/engine.py\<close>: observations of indices and market statuses, zones of support and resistance, the live engine that
  builds one context per feature clock, its replay over a capture, and the research builder over explicit observations.

  The dictionaries keyed by configured symbols, indices and markets are functions; the code only reads configured keys. The live
  engine changes its state before it may raise, so its operations return the state they leave beside the result.
\<close>

section \<open>Observations\<close>

record index_observation =
  io_index :: string
  io_value :: decimal
  io_observed_at :: instant
  io_source_kind :: index_source_kind
  io_source_record_sha256 :: string
  io_stream_session_id :: "string option"
  io_receive_sequence :: "int option"

definition IndexObservation :: "index_observation \<Rightarrow> index_observation res" where
  "IndexObservation x =
     (if \<not> is_identifier (io_index x) \<or> io_value x \<le> 0 then Inl (ValueError ''invalid index observation'')
      else if (io_stream_session_id x = None) \<noteq> (io_receive_sequence x = None)
      then Inl (ValueError ''index stream position must be wholly present or absent'')
      else if io_source_kind x = SSI_STREAM_TRADE \<and> io_stream_session_id x = None
      then Inl (ValueError ''live index observation requires stream position lineage'')
      else if io_source_kind x \<noteq> SSI_STREAM_TRADE \<and> io_stream_session_id x \<noteq> None
      then Inl (ValueError ''historical index observation cannot carry stream position lineage'')
      else if \<not> is_sha256 (io_source_record_sha256 x)
      then Inl (ValueError ''index source fingerprint must be a lowercase SHA-256'')
      else Inr x)"

record status_observation =
  so_market :: string
  so_status :: string
  so_observed_at :: instant
  so_source_kind :: status_source_kind
  so_source_record_sha256 :: string
  so_stream_session_id :: "string option"
  so_receive_sequence :: "int option"

definition MarketStatusObservation :: "status_observation \<Rightarrow> status_observation res" where
  "MarketStatusObservation x =
     (if \<not> is_identifier (so_market x) \<or> \<not> is_identifier (so_status x) \<or> so_market x = [] \<or> so_status x = []
      then Inl (ValueError ''invalid market-status observation'')
      else if (so_stream_session_id x = None) \<noteq> (so_receive_sequence x = None)
      then Inl (ValueError ''market-status stream position must be wholly present or absent'')
      else if so_source_kind x = SSI_STREAM_MARKET_STATUS \<and> so_stream_session_id x = None
      then Inl (ValueError ''live market-status observation requires stream lineage'')
      else if so_source_kind x \<noteq> SSI_STREAM_MARKET_STATUS \<and> so_stream_session_id x \<noteq> None
      then Inl (ValueError ''calendar market-status observation cannot carry stream lineage'')
      else if \<not> is_sha256 (so_source_record_sha256 x)
      then Inl (ValueError ''market-status source fingerprint must be a lowercase SHA-256'')
      else Inr x)"

text \<open>\<^verbatim>\<open>_index_tick\<close>; a price that is absent from the feed is an infinite one.\<close>

definition index_tick :: "context_feed \<Rightarrow> zone_info \<Rightarrow> string list \<Rightarrow> stream_envelope \<Rightarrow> index_observation option res" where
  "index_tick F z indices e =
     (case se_symbol e of None \<Rightarrow> Inr None
      | Some symbol \<Rightarrow>
        if se_subscription_context e \<noteq> CTX_INDICES \<or> se_message_type e \<noteq> ''TradeMessage'' \<or> symbol \<notin> set indices then Inr None
        else if fd_sha256 F (se_message_json e) \<noteq> se_message_sha256 e
        then Inl (ValueError ''index message checksum does not match its envelope'')
        else (case fd_trade F (se_message_json e) of
          None \<Rightarrow> Inl (ValueError ''invalid index stream message'')
        | Some payload \<Rightarrow>
          (case tmsg_price payload of None \<Rightarrow> Inl (ValueError ''index stream message does not match its capture envelope'')
           | Some price \<Rightarrow>
             if map to_upper (tmsg_symbol payload) \<noteq> symbol \<or> price \<le> 0
             then Inl (ValueError ''index stream message does not match its capture envelope'')
             else rbind (provider_timestamp z (tmsg_trading_time payload)) (\<lambda>occurred.
             if occurred > se_received_at e then Inl (ValueError ''index event time follows receipt time'')
             else rbind (IndexObservation \<lparr>io_index = symbol, io_value = price, io_observed_at = se_received_at e,
               io_source_kind = SSI_STREAM_TRADE, io_source_record_sha256 = se_message_sha256 e,
               io_stream_session_id = Some (se_stream_session_id e), io_receive_sequence = Some (se_receive_sequence e)\<rparr>)
               (\<lambda>x. Inr (Some x))))))"

text \<open>\<^verbatim>\<open>_market_status_tick\<close>\<close>

definition status_tick :: "context_feed \<Rightarrow> string list \<Rightarrow> stream_envelope \<Rightarrow> status_observation option res" where
  "status_tick F markets e =
     (case se_symbol e of None \<Rightarrow> Inr None
      | Some symbol \<Rightarrow>
        if se_subscription_context e \<noteq> CTX_MARKETS \<or> se_message_type e \<noteq> ''MarketStatusMessage'' \<or> symbol \<notin> set markets then Inr None
        else if fd_sha256 F (se_message_json e) \<noteq> se_message_sha256 e
        then Inl (ValueError ''market-status checksum does not match its envelope'')
        else (case fd_status F (se_message_json e) of
          None \<Rightarrow> Inl (ValueError ''invalid market-status stream message'')
        | Some payload \<Rightarrow>
          let market = map to_upper (strip (sm_market payload)); status = map to_upper (strip (sm_status payload))
          in if market \<noteq> symbol \<or> status = []
             then Inl (ValueError ''market-status message does not match its capture envelope'')
             else rbind (MarketStatusObservation \<lparr>so_market = market, so_status = status, so_observed_at = se_received_at e,
               so_source_kind = SSI_STREAM_MARKET_STATUS, so_source_record_sha256 = se_message_sha256 e,
               so_stream_session_id = Some (se_stream_session_id e), so_receive_sequence = Some (se_receive_sequence e)\<rparr>)
               (\<lambda>x. Inr (Some x))))"

section \<open>Zones\<close>

definition zone_prior :: "context_version \<Rightarrow> feature_snapshot \<Rightarrow> feature_snapshot \<Rightarrow> bool" where
  "zone_prior policy current item = (fs_market_session item = fs_market_session current \<and>
     fs_decision_at current - cx_zone_lookback_seconds policy * second_us \<le> fs_decision_at item \<and>
     fs_decision_at item < fs_decision_at current \<and> bk_mid_price item \<noteq> None \<and> is_eligible item)"

definition decimal_abs :: "decimal \<Rightarrow> decimal" where "decimal_abs x = dec_ctx \<bar>x\<bar>"

definition empty_zone :: "context_env \<Rightarrow> feature_snapshot \<Rightarrow> int \<Rightarrow> zone_context" where
  "empty_zone E current n = \<lparr>zc_symbol = fs_symbol current, zc_current_feature_snapshot_sha256 = fe_snapshot_sha256 E current,
     zc_history_sha256 = None, zc_observation_count = n, zc_support = None, zc_resistance = None,
     zc_support_distance_bps = None, zc_resistance_distance_bps = None, zc_near_support_strength = None\<rparr>"

text \<open>\<^verbatim>\<open>_zone\<close>\<close>

definition zone_of :: "context_env \<Rightarrow> context_version \<Rightarrow> feature_snapshot \<Rightarrow> feature_snapshot list \<Rightarrow> zone_context res" where
  "zone_of E policy current history =
     (let prior = filter (zone_prior policy current) history; n = int (length prior) in
      case bk_mid_price current of
        None \<Rightarrow> ZoneContext (empty_zone E current n)
      | Some price \<Rightarrow>
        if n < cx_zone_minimum_observations policy then ZoneContext (empty_zone E current n)
        else if prior = [] then Inl (ValueError ''min() iterable argument is empty'')
        else let prices = map (\<lambda>item. the (bk_mid_price item)) prior; support = Min (set prices); resistance = Max (set prices)
        in rbind (basis_points (dsub price support) support) (\<lambda>support_distance.
           rbind (basis_points (dsub resistance price) resistance) (\<lambda>resistance_distance.
           rbind (ratio RATIO_QUANTUM (decimal_abs support_distance) (cx_zone_tolerance_bps policy)) (\<lambda>share.
           ZoneContext ((empty_zone E current n)\<lparr>zc_history_sha256 := Some (ce_history_sha256 E (map (fe_snapshot_sha256 E) prior)),
             zc_support := Some support, zc_resistance := Some resistance, zc_support_distance_bps := Some support_distance,
             zc_resistance_distance_bps := Some resistance_distance, zc_near_support_strength := Some (max 0 (dsub 1 share))\<rparr>)))))"

section \<open>Indices and statuses as of a decision\<close>

text \<open>\<^verbatim>\<open>_as_of\<close>: the last observation at or before an instant.\<close>

definition as_of :: "('a \<Rightarrow> instant) \<Rightarrow> 'a list \<Rightarrow> instant \<Rightarrow> 'a option" where
  "as_of time xs at_time = find (\<lambda>x. time x \<le> at_time) (rev xs)"

definition index_returns :: "index_observation list \<Rightarrow> decimal list res" where
  "index_returns observed = map_res (\<lambda>(previous, item). basis_points (dsub (io_value item) (io_value previous)) (io_value previous))
     (zip observed (tl observed))"

text \<open>\<^verbatim>\<open>_window\<close>\<close>

definition market_window ::
  "index_observation list \<Rightarrow> index_observation \<Rightarrow> instant \<Rightarrow> int \<Rightarrow> int \<Rightarrow> market_window_context option res" where
  "market_window ticks current decision_at stale_after seconds =
     (let cutoff = decision_at - seconds * second_us in
      case as_of io_observed_at ticks cutoff of
        None \<Rightarrow> Inr None
      | Some reference \<Rightarrow>
        if cutoff - io_observed_at reference > stale_after * second_us then Inr None
        else rbind (index_returns (reference # filter (\<lambda>t. cutoff < io_observed_at t \<and> io_observed_at t \<le> io_observed_at current) ticks)) (\<lambda>returns.
          if returns = [] then Inr None
          else rbind (basis_points (dsub (io_value current) (io_value reference)) (io_value reference)) (\<lambda>r.
          rbind (dsqrt 28 (dsum (map (\<lambda>v. dmul v v) returns))) (\<lambda>volatility.
          rbind (MarketWindowContext \<lparr>mw_window_seconds = seconds, mw_return_bps = r, mw_realized_volatility_bps = volatility\<rparr>)
            (\<lambda>w. Inr (Some w))))))"

definition age_decimal :: "instant \<Rightarrow> instant \<Rightarrow> decimal" where
  "age_decimal later earlier = of_int (later - earlier) / 1000000"

definition present_items :: "'a option list \<Rightarrow> 'a list" where
  "present_items xs = concat (map (\<lambda>x. case x of None \<Rightarrow> [] | Some y \<Rightarrow> [y]) xs)"

text \<open>\<^verbatim>\<open>_index_context\<close>\<close>

definition index_context_of ::
  "index_observation list \<Rightarrow> instant \<Rightarrow> context_version \<Rightarrow> int \<Rightarrow> string \<Rightarrow> index_context res" where
  "index_context_of ticks decision_at policy stale_after index =
     (case as_of io_observed_at ticks decision_at of
        None \<Rightarrow> IndexContext \<lparr>ix_index = index, ix_value = None, ix_age_seconds = None, ix_source_kind = None,
          ix_source_record_sha256 = None, ix_stream_session_id = None, ix_receive_sequence = None, ix_windows = [],
          ix_reasons = [''MISSING_INDEX'']\<rparr>
      | Some current \<Rightarrow>
        rbind (map_res (market_window ticks current decision_at stale_after) (cx_market_windows_seconds policy)) (\<lambda>found.
        let windows = present_items found;
            reasons = (if decision_at - io_observed_at current > stale_after * second_us then [''STALE_INDEX''] else []) @
              (if map mw_window_seconds windows \<noteq> cx_market_windows_seconds policy then [''INSUFFICIENT_INDEX_HISTORY''] else [])
        in IndexContext \<lparr>ix_index = index, ix_value = Some (io_value current),
             ix_age_seconds = Some (age_decimal decision_at (io_observed_at current)), ix_source_kind = Some (io_source_kind current),
             ix_source_record_sha256 = Some (io_source_record_sha256 current), ix_stream_session_id = io_stream_session_id current,
             ix_receive_sequence = io_receive_sequence current, ix_windows = windows, ix_reasons = reasons\<rparr>))"

text \<open>\<^verbatim>\<open>_market_status_context\<close>\<close>

definition status_context_of ::
  "status_observation list \<Rightarrow> instant \<Rightarrow> context_version \<Rightarrow> string \<Rightarrow> market_status_context res" where
  "status_context_of observations decision_at policy market =
     (case as_of so_observed_at observations decision_at of
        None \<Rightarrow> MarketStatusContext \<lparr>mk_market = market, mk_status = None, mk_age_seconds = None, mk_is_tradable = False,
          mk_source_kind = None, mk_source_record_sha256 = None, mk_stream_session_id = None, mk_receive_sequence = None,
          mk_reasons = [''MISSING_MARKET_STATUS'']\<rparr>
      | Some current \<Rightarrow>
        let reasons = (if so_status current \<notin> set (cx_tradable_market_statuses policy) then [''MARKET_NOT_TRADABLE''] else [])
        in MarketStatusContext \<lparr>mk_market = market, mk_status = Some (so_status current),
             mk_age_seconds = Some (age_decimal decision_at (so_observed_at current)), mk_is_tradable = (reasons = []),
             mk_source_kind = Some (so_source_kind current), mk_source_record_sha256 = Some (so_source_record_sha256 current),
             mk_stream_session_id = so_stream_session_id current, mk_receive_sequence = so_receive_sequence current,
             mk_reasons = reasons\<rparr>)"

section \<open>The live engine\<close>

record context_engine =
  ct_configuration :: trading_version
  ct_policy :: context_version
  ct_regime_policy :: "regime_version option"
  ct_breadth_policy :: "breadth_version option"
  ct_configuration_sha256 :: string
  ct_index_ticks :: "string \<Rightarrow> index_observation list"
  ct_status_ticks :: "string \<Rightarrow> status_observation list"
  ct_history :: "string \<Rightarrow> feature_snapshot list"
  ct_last_received_at :: "instant option"
  ct_stream_session_id :: "string option"
  ct_last_decision_at :: "instant option"
  ct_breadth :: "breadth_engine option"

definition new_context_engine ::
  "context_env \<Rightarrow> trading_version \<Rightarrow> context_version \<Rightarrow> breadth_version option \<Rightarrow> membership_snapshot option \<Rightarrow>
   regime_version option \<Rightarrow> context_engine res" where
  "new_context_engine E c policy breadth_policy membership regime_policy =
     rbind (context_identity (ce_lineage E) policy regime_policy breadth_policy) (\<lambda>identity.
     Inr \<lparr>ct_configuration = c, ct_policy = policy, ct_regime_policy = regime_policy, ct_breadth_policy = breadth_policy,
       ct_configuration_sha256 = identity, ct_index_ticks = (\<lambda>_. []), ct_status_ticks = (\<lambda>_. []), ct_history = (\<lambda>_. []),
       ct_last_received_at = None, ct_stream_session_id = None, ct_last_decision_at = None,
       ct_breadth = map_option (\<lambda>b. new_breadth_engine c b membership) breadth_policy\<rparr>)"

definition append_at :: "string \<Rightarrow> 'a \<Rightarrow> (string \<Rightarrow> 'a list) \<Rightarrow> string \<Rightarrow> 'a list" where
  "append_at key x f = f(key := f key @ [x])"

text \<open>With a regime policy a reconnect forgets the market statuses: authorization must be reacquired.\<close>

definition note_stream :: "stream_envelope \<Rightarrow> context_engine \<Rightarrow> context_engine" where
  "note_stream e g =
     (let cleared = (if ct_regime_policy g \<noteq> None \<and> ct_stream_session_id g \<noteq> None \<and>
            ct_stream_session_id g \<noteq> Some (se_stream_session_id e)
          then g\<lparr>ct_status_ticks := (\<lambda>_. [])\<rparr> else g)
      in cleared\<lparr>ct_last_received_at := Some (se_received_at e), ct_stream_session_id := Some (se_stream_session_id e)\<rparr>)"

definition apply_breadth :: "context_feed \<Rightarrow> zone_info \<Rightarrow> stream_envelope \<Rightarrow> context_engine \<Rightarrow> context_engine \<times> unit res" where
  "apply_breadth F z e g =
     (case ct_breadth g of None \<Rightarrow> (g, Inr ())
      | Some b \<Rightarrow> (let (b', r) = breadth_apply F z b e in (g\<lparr>ct_breadth := Some b'\<rparr>, r)))"

definition observe_index :: "context_feed \<Rightarrow> zone_info \<Rightarrow> stream_envelope \<Rightarrow> context_engine \<Rightarrow> context_engine \<times> unit res" where
  "observe_index F z e g =
     (case index_tick F z (mc_indices (tv_market (ct_configuration g))) e of
        Inl err \<Rightarrow> (g, Inl err)
      | Inr None \<Rightarrow> (g, Inr ())
      | Inr (Some x) \<Rightarrow> (g\<lparr>ct_index_ticks := append_at (io_index x) x (ct_index_ticks g)\<rparr>, Inr ()))"

definition observe_status :: "context_feed \<Rightarrow> stream_envelope \<Rightarrow> context_engine \<Rightarrow> context_engine \<times> unit res" where
  "observe_status F e g =
     (case status_tick F (mc_status_markets (tv_market (ct_configuration g))) e of
        Inl err \<Rightarrow> (g, Inl err)
      | Inr None \<Rightarrow> (g, Inr ())
      | Inr (Some x) \<Rightarrow> (g\<lparr>ct_status_ticks := append_at (so_market x) x (ct_status_ticks g)\<rparr>, Inr ()))"

text \<open>One effect after another; the first exception keeps the state it was raised in.\<close>

definition and_then :: "'s \<times> unit res \<Rightarrow> ('s \<Rightarrow> 's \<times> unit res) \<Rightarrow> 's \<times> unit res" where
  "and_then m f = (case m of (s, Inl err) \<Rightarrow> (s, Inl err) | (s, Inr _) \<Rightarrow> f s)"

text \<open>\<^verbatim>\<open>LiveDecisionContextEngine.apply\<close>\<close>

definition context_apply :: "context_feed \<Rightarrow> zone_info \<Rightarrow> context_engine \<Rightarrow> stream_envelope \<Rightarrow> context_engine \<times> unit res" where
  "context_apply F z g e =
     (if (case ct_last_received_at g of None \<Rightarrow> False | Some r \<Rightarrow> se_received_at e < r)
      then (g, Inl (ValueError ''context envelopes must be receipt ordered''))
      else and_then (and_then (apply_breadth F z e (note_stream e g)) (observe_index F z e)) (observe_status F e))"

text \<open>The guards of \<^verbatim>\<open>build\<close>: the decision instant and the snapshots in symbol order.\<close>

definition complete_clock :: "trading_version \<Rightarrow> feature_snapshot list \<Rightarrow> bool" where
  "complete_clock c ordered = (map fs_symbol ordered = sort (mc_symbols (tv_market c)) \<and>
     length (remdups (map fs_trade_date ordered)) = 1 \<and> length (remdups (map fs_configuration_sha256 ordered)) = 1)"

definition context_guards :: "context_engine \<Rightarrow> feature_snapshot list \<Rightarrow> (instant \<times> feature_snapshot list) res" where
  "context_guards g snapshots =
     (if snapshots = [] then Inl (ValueError ''live context requires feature snapshots'')
      else if length (remdups (map fs_decision_at snapshots)) \<noteq> 1 then Inl (ValueError ''live context requires one feature clock'')
      else let decision_at = fs_decision_at (hd snapshots); ordered = sort_key fs_symbol snapshots
      in if (case ct_last_decision_at g of None \<Rightarrow> False | Some d \<Rightarrow> decision_at \<le> d)
      then Inl (ValueError ''live context clocks must be strictly increasing'')
      else if \<not> complete_clock (ct_configuration g) ordered
      then Inl (ValueError ''live context requires the complete feature matrix'')
      else if \<not> contains (ct_policy g) (fs_trade_date (hd ordered))
      then Inl (ValueError ''live context policy must cover the feature trade date'')
      else if (case ct_regime_policy g of None \<Rightarrow> False | Some p \<Rightarrow> \<not> contains p (fs_trade_date (hd ordered)))
      then Inl (ValueError ''regime policy must cover the feature trade date'')
      else if (case ct_last_received_at g of None \<Rightarrow> False | Some r \<Rightarrow> r > decision_at)
      then Inl (ValueError ''live context cannot build before applied receipts'')
      else Inr (decision_at, ordered))"

text \<open>Zones, indices and statuses of a clock.\<close>

definition context_parts ::
  "context_env \<Rightarrow> trading_version \<Rightarrow> context_version \<Rightarrow> int \<Rightarrow> (string \<Rightarrow> feature_snapshot list) \<Rightarrow>
   (string \<Rightarrow> index_observation list) \<Rightarrow> instant \<Rightarrow> feature_snapshot list \<Rightarrow> (zone_context list \<times> index_context list) res" where
  "context_parts E c policy stale_after history index_ticks decision_at ordered =
     rbind (map_res (\<lambda>s. zone_of E policy s (history (fs_symbol s))) ordered) (\<lambda>zones.
     rbind (map_res (\<lambda>i. index_context_of (index_ticks i) decision_at policy stale_after i) (sort (mc_indices (tv_market c)))) (\<lambda>indices.
     Inr (zones, indices)))"

definition live_statuses ::
  "trading_version \<Rightarrow> context_version \<Rightarrow> (string \<Rightarrow> status_observation list) \<Rightarrow> instant \<Rightarrow> market_status_context list res" where
  "live_statuses c policy status_ticks decision_at =
     map_res (\<lambda>market. status_context_of (status_ticks market) decision_at policy market) (sort (mc_status_markets (tv_market c)))"

definition build_breadth :: "context_env \<Rightarrow> zone_info \<Rightarrow> instant \<Rightarrow> context_engine \<Rightarrow> context_engine \<times> breadth_context list res" where
  "build_breadth E z decision_at g =
     (case ct_breadth g of None \<Rightarrow> (g, Inr [])
      | Some b \<Rightarrow> (let (b', r) = breadth_build E z b (Aware decision_at) in (g\<lparr>ct_breadth := Some b'\<rparr>, r)))"

definition make_context ::
  "context_env \<Rightarrow> context_engine \<Rightarrow> instant \<Rightarrow> feature_snapshot list \<Rightarrow> zone_context list \<times> index_context list \<Rightarrow>
   market_status_context list \<Rightarrow> breadth_context list \<Rightarrow> decision_context res" where
  "make_context E g decision_at ordered parts statuses breadth =
     rbind (regime_state (ce_lineage E) (snd parts) statuses (ct_policy g) (ct_regime_policy g) breadth (ct_breadth_policy g))
       (\<lambda>(confirmation, regime, reasons).
     DecisionContext \<lparr>dc_context_version = version (ct_policy g), dc_context_configuration_sha256 = ct_configuration_sha256 g,
       dc_feature_configuration_sha256 = fs_configuration_sha256 (hd ordered), dc_data_mode = LIVE,
       dc_trade_date = fs_trade_date (hd ordered), dc_decision_at = decision_at, dc_zones = fst parts, dc_indices = snd parts,
       dc_market_statuses = statuses, dc_breadth = breadth, dc_market_basis = map_option rg_basis (ct_regime_policy g),
       dc_regime_policy_version = map_option version (ct_regime_policy g),
       dc_regime_policy_sha256 = map_option (version_sha256 (ld_regime (ce_lineage E))) (ct_regime_policy g),
       dc_market_reference_index = Option.bind (ct_regime_policy g) rg_reference_index,
       dc_market_confirmation_strength = confirmation, dc_regime = regime, dc_reasons = reasons\<rparr>)"

text \<open>The history keeps the look-back of the zones.\<close>

definition remember :: "context_version \<Rightarrow> instant \<Rightarrow> feature_snapshot \<Rightarrow> (string \<Rightarrow> feature_snapshot list) \<Rightarrow> string \<Rightarrow> feature_snapshot list" where
  "remember policy decision_at s history = history(fs_symbol s :=
     dropWhile (\<lambda>item. fs_decision_at item < decision_at - cx_zone_lookback_seconds policy * second_us) (history (fs_symbol s) @ [s]))"

text \<open>\<^verbatim>\<open>LiveDecisionContextEngine.build\<close>\<close>

definition context_build ::
  "context_env \<Rightarrow> zone_info \<Rightarrow> context_engine \<Rightarrow> feature_snapshot list \<Rightarrow> context_engine \<times> decision_context res" where
  "context_build E z g snapshots =
     (case context_guards g snapshots of
        Inl err \<Rightarrow> (g, Inl err)
      | Inr (decision_at, ordered) \<Rightarrow>
        (case context_parts E (ct_configuration g) (ct_policy g) (cx_index_stale_after_seconds (ct_policy g)) (ct_history g)
            (ct_index_ticks g) decision_at ordered of
           Inl err \<Rightarrow> (g, Inl err)
         | Inr parts \<Rightarrow>
           (case live_statuses (ct_configuration g) (ct_policy g) (ct_status_ticks g) decision_at of
              Inl err \<Rightarrow> (g, Inl err)
            | Inr statuses \<Rightarrow>
              (case build_breadth E z decision_at g of
                 (g1, Inl err) \<Rightarrow> (g1, Inl err)
               | (g1, Inr breadth) \<Rightarrow>
                 (case make_context E g1 decision_at ordered parts statuses breadth of
                    Inl err \<Rightarrow> (g1, Inl err)
                  | Inr context \<Rightarrow>
                    (g1\<lparr>ct_history := fold (remember (ct_policy g1) decision_at) ordered (ct_history g1),
                        ct_last_decision_at := Some decision_at\<rparr>, Inr context))))))"

section \<open>Replay of the live engine\<close>

fun apply_receipts ::
  "context_feed \<Rightarrow> zone_info \<Rightarrow> instant \<Rightarrow> context_engine \<Rightarrow> stream_envelope list \<Rightarrow> (context_engine \<times> stream_envelope list) res" where
  "apply_receipts F z at_time g [] = Inr (g, [])"
| "apply_receipts F z at_time g (e # rest) =
     (if se_received_at e \<le> at_time
      then (let (g', r) = context_apply F z g e in rbind r (\<lambda>_. apply_receipts F z at_time g' rest))
      else Inr (g, e # rest))"

fun drain_receipts :: "context_feed \<Rightarrow> zone_info \<Rightarrow> context_engine \<Rightarrow> stream_envelope list \<Rightarrow> unit res" where
  "drain_receipts F z g [] = Inr ()"
| "drain_receipts F z g (e # rest) = (let (g', r) = context_apply F z g e in rbind r (\<lambda>_. drain_receipts F z g' rest))"

text \<open>\<^verbatim>\<open>sorted(clocks.items())\<close>: the snapshots of every clock in their given order.\<close>

definition clock_groups :: "feature_snapshot list \<Rightarrow> (instant \<times> feature_snapshot list) list" where
  "clock_groups snapshots =
     map (\<lambda>t. (t, filter (\<lambda>s. fs_decision_at s = t) snapshots)) (sorted_set (map fs_decision_at snapshots))"

fun replay_contexts ::
  "context_env \<Rightarrow> context_feed \<Rightarrow> zone_info \<Rightarrow> context_engine \<Rightarrow> stream_envelope list \<Rightarrow> (instant \<times> feature_snapshot list) list \<Rightarrow>
   decision_context list res" where
  "replay_contexts E F z g pending [] = rbind (drain_receipts F z g pending) (\<lambda>_. Inr [])"
| "replay_contexts E F z g pending ((at_time, members) # clocks) =
     rbind (apply_receipts F z at_time g pending) (\<lambda>(g1, rest).
     let (g2, r) = context_build E z g1 members in
     rbind r (\<lambda>context. rbind (replay_contexts E F z g2 rest clocks) (\<lambda>contexts. Inr (context # contexts))))"

definition build_decision_contexts ::
  "context_env \<Rightarrow> context_feed \<Rightarrow> zone_info \<Rightarrow> feature_snapshot list \<Rightarrow> stream_envelope list \<Rightarrow> trading_version \<Rightarrow> context_version \<Rightarrow>
   breadth_version option \<Rightarrow> membership_snapshot option \<Rightarrow> regime_version option \<Rightarrow> decision_context list res" where
  "build_decision_contexts E F z snapshots envelopes c policy breadth_policy membership regime_policy =
     (if snapshots = [] then Inl (ValueError ''decision context requires feature snapshots'')
      else if length (remdups (map fs_trade_date snapshots)) \<noteq> 1 then Inl (ValueError ''context requires one feature trade date'')
      else rbind (new_context_engine E c policy breadth_policy membership regime_policy) (\<lambda>g.
        replay_contexts E F z g envelopes (clock_groups snapshots)))"

section \<open>The research builder\<close>

text \<open>The checks of the observations: source and time order.\<close>

fun check_observations ::
  "('a \<Rightarrow> bool) \<Rightarrow> ('a \<Rightarrow> instant) \<Rightarrow> string \<Rightarrow> string \<Rightarrow> instant option \<Rightarrow> 'a list \<Rightarrow> unit res" where
  "check_observations accepted time source_message order_message previous [] = Inr ()"
| "check_observations accepted time source_message order_message previous (x # xs) =
     (if \<not> accepted x then Inl (ValueError source_message)
      else if (case previous of None \<Rightarrow> False | Some t \<Rightarrow> time x < t) then Inl (ValueError order_message)
      else check_observations accepted time source_message order_message (Some (time x)) xs)"

definition complete_groups :: "trading_version \<Rightarrow> (instant \<times> feature_snapshot list) list \<Rightarrow> bool" where
  "complete_groups c clocks = list_all (\<lambda>(_, members). sort (map fs_symbol members) = sort (mc_symbols (tv_market c)) \<and>
     length (remdups (map fs_configuration_sha256 members)) = 1) clocks"

definition calendar_status ::
  "context_env \<Rightarrow> context_version \<Rightarrow> instant \<Rightarrow> string \<Rightarrow> market_status_context res" where
  "calendar_status E policy decision_at market = MarketStatusContext
     \<lparr>mk_market = market, mk_status = Some ''LO'', mk_age_seconds = Some 0, mk_is_tradable = True,
      mk_source_kind = Some CONFIGURED_MARKET_CALENDAR,
      mk_source_record_sha256 = Some (ce_calendar_sha256 E (version_sha256 (ld_context (ce_lineage E)) policy) decision_at market),
      mk_stream_session_id = None, mk_receive_sequence = None, mk_reasons = []\<rparr>"

definition research_statuses ::
  "context_env \<Rightarrow> trading_version \<Rightarrow> context_version \<Rightarrow> context_data_mode \<Rightarrow> (string \<Rightarrow> status_observation list) \<Rightarrow> instant \<Rightarrow>
   market_status_context list res" where
  "research_statuses E c policy mode status_ticks decision_at =
     (if mode = HISTORICAL_PROXY
      then map_res (calendar_status E policy decision_at) (sort (mc_status_markets (tv_market c)))
      else live_statuses c policy status_ticks decision_at)"

definition research_context ::
  "context_env \<Rightarrow> context_version \<Rightarrow> context_data_mode \<Rightarrow> instant \<Rightarrow> feature_snapshot list \<Rightarrow>
   zone_context list \<times> index_context list \<Rightarrow> market_status_context list \<Rightarrow> decision_context res" where
  "research_context E policy mode decision_at members parts statuses =
     rbind (regime_state (ce_lineage E) (snd parts) statuses policy None [] None) (\<lambda>(confirmation, regime, reasons).
     DecisionContext \<lparr>dc_context_version = version policy,
       dc_context_configuration_sha256 = version_sha256 (ld_context (ce_lineage E)) policy,
       dc_feature_configuration_sha256 = fs_configuration_sha256 (hd members), dc_data_mode = mode,
       dc_trade_date = fs_trade_date (hd members), dc_decision_at = decision_at, dc_zones = fst parts, dc_indices = snd parts,
       dc_market_statuses = statuses, dc_breadth = [], dc_market_basis = None, dc_regime_policy_version = None,
       dc_regime_policy_sha256 = None, dc_market_reference_index = None,
       dc_market_confirmation_strength = confirmation, dc_regime = regime, dc_reasons = reasons\<rparr>)"

fun research_clocks ::
  "context_env \<Rightarrow> trading_version \<Rightarrow> context_version \<Rightarrow> context_data_mode \<Rightarrow> int \<Rightarrow> (string \<Rightarrow> index_observation list) \<Rightarrow>
   (string \<Rightarrow> status_observation list) \<Rightarrow> (string \<Rightarrow> feature_snapshot list) \<Rightarrow> (instant \<times> feature_snapshot list) list \<Rightarrow>
   decision_context list res" where
  "research_clocks E c policy mode stale_after index_ticks status_ticks history [] = Inr []"
| "research_clocks E c policy mode stale_after index_ticks status_ticks history ((decision_at, members) # clocks) =
     rbind (context_parts E c policy stale_after history index_ticks decision_at (sort_key fs_symbol members)) (\<lambda>parts.
     rbind (research_statuses E c policy mode status_ticks decision_at) (\<lambda>statuses.
     rbind (research_context E policy mode decision_at members parts statuses) (\<lambda>context.
     rbind (research_clocks E c policy mode stale_after index_ticks status_ticks
       (fold (remember policy decision_at) members history) clocks) (\<lambda>contexts. Inr (context # contexts)))))"

text \<open>\<^verbatim>\<open>build_decision_contexts_from_observations\<close>\<close>

definition build_from_observations ::
  "context_env \<Rightarrow> feature_snapshot list \<Rightarrow> index_observation list \<Rightarrow> trading_version \<Rightarrow> context_version \<Rightarrow> context_data_mode \<Rightarrow>
   status_observation list \<Rightarrow> decision_context list res" where
  "build_from_observations E snapshots observations c policy mode statuses =
     (let clocks = clock_groups snapshots;
          source = (if mode = LIVE then SSI_STREAM_TRADE else SSI_REST_INDEX_1M_HISTORICAL);
          stale_after = (if mode = HISTORICAL_PROXY then cx_historical_proxy_stale_after_seconds policy
            else cx_index_stale_after_seconds policy)
      in if snapshots = [] then Inl (ValueError ''decision context requires feature snapshots'')
      else if \<not> complete_groups c clocks then Inl (ValueError ''decision context requires the complete feature matrix'')
      else if length (remdups (map fs_trade_date snapshots)) \<noteq> 1 \<or> \<not> contains policy (fs_trade_date (hd snapshots))
      then Inl (ValueError ''context policy must cover the feature trade date'')
      else rbind (check_observations (\<lambda>x. io_source_kind x = source) io_observed_at
        ''index observation source does not match context data mode'' ''index observations must be time ordered'' None observations) (\<lambda>_.
      rbind (check_observations (\<lambda>x. mode = LIVE \<and> so_source_kind x = SSI_STREAM_MARKET_STATUS) so_observed_at
        ''market-status source does not match context data mode'' ''market-status observations must be time ordered'' None statuses) (\<lambda>_.
      research_clocks E c policy mode stale_after (\<lambda>i. filter (\<lambda>x. io_index x = i) observations)
        (\<lambda>m. filter (\<lambda>x. so_market x = m) statuses) (\<lambda>_. []) clocks)))"

end
