(* ===== verification/ContextRuns.thy ===== *)
theory ContextRuns
  imports ContextEngine
begin

text \<open>
  Runs of the live context engine and what they guarantee. A run receives envelopes and builds contexts in any order; its log keeps every
  accepted envelope and every decided snapshot. The engine keeps less: breadth bars are pruned at each update, the zone
  history at each clock. The reference context is computed from the complete log.
\<close>

section \<open>Breadth without pruning\<close>

definition known_bar :: "context_feed \<Rightarrow> zone_info \<Rightarrow> string list \<Rightarrow> stream_envelope \<Rightarrow> provider_bar option" where
  "known_bar F z symbols e =
     (if (case se_symbol e of None \<Rightarrow> True | Some s \<Rightarrow> s \<notin> set symbols) then None
      else (case provider_bar_of F z e of Inl _ \<Rightarrow> None | Inr bar \<Rightarrow> bar))"

fun all_revisions :: "context_feed \<Rightarrow> zone_info \<Rightarrow> string list \<Rightarrow> revisions \<Rightarrow> stream_envelope list \<Rightarrow> revisions" where
  "all_revisions F z symbols bars [] = bars"
| "all_revisions F z symbols bars (e # es) = all_revisions F z symbols
     (case known_bar F z symbols e of None \<Rightarrow> bars | Some bar \<Rightarrow> add_revision e bar bars) es"

lemma all_revisions_append:
  "all_revisions F z symbols bars (es @ es') = all_revisions F z symbols (all_revisions F z symbols bars es) es'"
  by (induction es arbitrary: bars) auto

text \<open>Two states of the bars agree from a start on.\<close>

definition agree_from :: "instant \<Rightarrow> revisions \<Rightarrow> revisions \<Rightarrow> bool" where
  "agree_from t bars bars' = (\<forall>key. t \<le> snd key \<longrightarrow> bars key = bars' key)"

lemma agree_from_mono: "agree_from t bars bars' \<Longrightarrow> t \<le> t' \<Longrightarrow> agree_from t' bars bars'"
  by (auto simp: agree_from_def)

lemma agree_from_add: "agree_from t bars bars' \<Longrightarrow> agree_from t (add_revision e bar bars) (add_revision e bar bars')"
  by (cases "t \<le> pb_start bar") (auto simp: agree_from_def add_revision_def Let_def)

lemma agree_from_prune: "agree_from t bars bars' \<Longrightarrow> t \<le> cutoff \<Longrightarrow> agree_from cutoff (prune_revisions cutoff bars) bars'"
  by (auto simp: agree_from_def prune_revisions_def)

definition received_last :: "stream_envelope list \<Rightarrow> instant option" where
  "received_last es = (if es = [] then None else Some (se_received_at (last es)))"

text \<open>The engine after the envelopes of a run, which are in receipt order.\<close>

definition breadth_inv ::
  "context_feed \<Rightarrow> zone_info \<Rightarrow> breadth_version \<Rightarrow> membership_snapshot option \<Rightarrow> stream_envelope list \<Rightarrow> breadth_engine \<Rightarrow> bool" where
  "breadth_inv F z policy membership es b \<longleftrightarrow> be_policy b = policy \<and> be_membership b = membership \<and>
     be_last_received_at b = received_last es \<and>
     (let reference = all_revisions F z (breadth_symbols b) Map.empty es in
      case received_last es of None \<Rightarrow> be_bars b = reference
      | Some r \<Rightarrow> agree_from (breadth_cutoff policy r) (be_bars b) reference)"

lemma breadth_inv_new: "breadth_inv F z policy membership [] (new_breadth_engine c policy membership)"
  by (simp add: breadth_inv_def new_breadth_engine_def received_last_def)

lemma breadth_apply_inv:
  assumes "breadth_inv F z policy membership es b" "breadth_apply F z b e = (b', Inr u)"
  shows "breadth_inv F z policy membership (es @ [e]) b'" "be_configuration b' = be_configuration b"
    "be_last_decision_at b' = be_last_decision_at b" "case received_last es of None \<Rightarrow> True | Some r \<Rightarrow> r \<le> se_received_at e"
proof -
  let ?symbols = "breadth_symbols b"
  have fields: "be_policy b = policy" "be_membership b = membership" "be_last_received_at b = received_last es"
    using assms(1) by (simp_all add: breadth_inv_def)
  let ?cutoff = "breadth_cutoff policy (se_received_at e)"
  have order: "case received_last es of None \<Rightarrow> True | Some r \<Rightarrow> r \<le> se_received_at e"
    using assms(2) fields by (auto simp: breadth_apply_def split: if_splits option.splits)
  then show "case received_last es of None \<Rightarrow> True | Some r \<Rightarrow> r \<le> se_received_at e" .
  let ?ref = "all_revisions F z ?symbols Map.empty es"
  have start: "agree_from ?cutoff (be_bars b) ?ref"
    using assms(1) order
    by (auto simp: breadth_inv_def Let_def breadth_cutoff_def agree_from_def split: option.splits)
  have b': "b' = b\<lparr>be_last_received_at := Some (se_received_at e), be_bars :=
      (case known_bar F z ?symbols e of None \<Rightarrow> be_bars b | Some bar \<Rightarrow> prune_revisions ?cutoff (add_revision e bar (be_bars b)))\<rparr>"
    using assms(2) fields by (auto simp: breadth_apply_def known_bar_def Let_def split: if_splits option.splits sum.splits)
  have symbols: "breadth_symbols b' = ?symbols" by (simp add: b' breadth_symbols_def)
  have "agree_from ?cutoff (be_bars b') (all_revisions F z ?symbols Map.empty (es @ [e]))"
    using start by (auto simp: b' all_revisions_append intro: agree_from_prune agree_from_add split: option.split)
  then show "breadth_inv F z policy membership (es @ [e]) b'"
    using fields symbols by (simp add: breadth_inv_def received_last_def Let_def) (simp add: b')
  show "be_configuration b' = be_configuration b" "be_last_decision_at b' = be_last_decision_at b" by (simp_all add: b')
qed

text \<open>A validated policy never prunes a bar that a later build reads: its staleness covers a minute.\<close>

lemma constituent_cong:
  assumes "agree_from t bars bars'" "t \<le> current_start" "t \<le> base_start"
  shows "constituent policy at_time current_start base_start bars symbol = constituent policy at_time current_start base_start bars' symbol"
  using assms by (simp add: constituent_def agree_from_def)

lemma breadth_result_reference:
  assumes "breadth_inv F z policy membership es b" "BreadthVersion policy = Inr v"
    "case received_last es of None \<Rightarrow> True | Some r \<Rightarrow> r \<le> at_time"
  shows "breadth_result E z c policy membership (be_bars b) at_time =
    breadth_result E z c policy membership (all_revisions F z (breadth_symbols b) Map.empty es) at_time"
proof -
  let ?ref = "all_revisions F z (breadth_symbols b) Map.empty es"
  let ?current = "at_time - at_time mod minute_us - minute_us"
  let ?base = "?current - bv_lookback_seconds policy * second_us"
  have policy: "60 \<le> bv_lookback_seconds policy" "60 \<le> bv_stale_after_seconds policy"
    using assms(2) by (auto simp: BreadthVersion_def split: if_splits)
  have "0 \<le> at_time mod minute_us" "at_time mod minute_us < minute_us" by (simp_all add: minute_us_def)
  have agree: "agree_from ?base (be_bars b) ?ref"
  proof (cases "received_last es")
    case None
    then show ?thesis using assms(1) by (simp add: breadth_inv_def agree_from_def)
  next
    case (Some r)
    have "60 * second_us \<le> bv_stale_after_seconds policy * second_us" using policy(2) by (intro mult_right_mono) simp_all
    then have "breadth_cutoff policy r \<le> ?base"
      using Some assms(3) \<open>at_time mod minute_us < minute_us\<close> by (simp add: breadth_cutoff_def minute_us_def algebra_simps)
    then show ?thesis using assms(1) Some by (auto simp: breadth_inv_def Let_def intro: agree_from_mono)
  qed
  have "?base \<le> ?current" using policy(1) by simp
  then have "constituent policy at_time ?current ?base (be_bars b) = constituent policy at_time ?current ?base ?ref"
    using agree by (intro ext constituent_cong [of ?base]) simp_all
  then have "index_breadth E policy at_time same sha memberships (be_bars b) = index_breadth E policy at_time same sha memberships ?ref"
    for same sha memberships by (intro ext) (simp add: index_breadth_def Let_def)
  then show ?thesis by (simp add: breadth_result_def Let_def)
qed

section \<open>Runs of the engine\<close>

datatype context_op = Receipt stream_envelope | Decision "feature_snapshot list"

type_synonym context_log = "stream_envelope list \<times> feature_snapshot list"

fun context_step ::
  "context_env \<Rightarrow> context_feed \<Rightarrow> zone_info \<Rightarrow> context_engine \<times> context_log \<Rightarrow> context_op \<Rightarrow> (context_engine \<times> context_log) res" where
  "context_step E F z (g, es, ss) (Receipt e) = (let (g', r) = context_apply F z g e in rbind r (\<lambda>_. Inr (g', es @ [e], ss)))"
| "context_step E F z (g, es, ss) (Decision snapshots) = (let (g', r) = context_build E z g snapshots in
     rbind r (\<lambda>_. Inr (g', es, ss @ sort_key fs_symbol snapshots)))"

record context_setting =
  cs_configuration :: trading_version
  cs_policy :: context_version
  cs_breadth_policy :: "breadth_version option"
  cs_membership :: "membership_snapshot option"
  cs_regime_policy :: "regime_version option"

definition context_run ::
  "context_env \<Rightarrow> context_feed \<Rightarrow> zone_info \<Rightarrow> context_setting \<Rightarrow> context_op list \<Rightarrow> (context_engine \<times> context_log) res" where
  "context_run E F z s ops =
     rbind (new_context_engine E (cs_configuration s) (cs_policy s) (cs_breadth_policy s) (cs_membership s) (cs_regime_policy s))
       (\<lambda>g. run_res (context_step E F z) (g, [], []) ops)"

section \<open>The log\<close>

definition index_log :: "context_feed \<Rightarrow> zone_info \<Rightarrow> trading_version \<Rightarrow> stream_envelope list \<Rightarrow> index_observation list" where
  "index_log F z c es = present_items (map (\<lambda>e. case index_tick F z (mc_indices (tv_market c)) e of Inl _ \<Rightarrow> None | Inr x \<Rightarrow> x) es)"

definition status_log :: "context_feed \<Rightarrow> trading_version \<Rightarrow> stream_envelope list \<Rightarrow> status_observation list" where
  "status_log F c es = present_items (map (\<lambda>e. case status_tick F (mc_status_markets (tv_market c)) e of Inl _ \<Rightarrow> None | Inr x \<Rightarrow> x) es)"

text \<open>The envelopes that may authorize trading: with a regime policy, those of the current stream session.\<close>

definition current_stream :: "stream_envelope list \<Rightarrow> stream_envelope list" where
  "current_stream es = rev (takeWhile (\<lambda>e. se_stream_session_id e = se_stream_session_id (last es)) (rev es))"

definition authorizing :: "context_setting \<Rightarrow> stream_envelope list \<Rightarrow> stream_envelope list" where
  "authorizing s es = (if cs_regime_policy s = None then es else current_stream es)"

lemma present_items_append [simp]: "present_items (xs @ ys) = present_items xs @ present_items ys"
  by (simp add: present_items_def)

lemma current_stream_snoc:
  "current_stream (es @ [e]) =
    (if es \<noteq> [] \<and> se_stream_session_id (last es) = se_stream_session_id e then current_stream es @ [e] else [e])"
proof (cases "es \<noteq> [] \<and> se_stream_session_id (last es) = se_stream_session_id e")
  case True
  then show ?thesis by (simp add: current_stream_def)
next
  case False
  then show ?thesis by (cases es rule: rev_cases) (auto simp: current_stream_def)
qed

lemma current_stream_simps [simp]: "current_stream [] = []" "current_stream [e] = [e]"
  by (simp_all add: current_stream_def)

section \<open>The invariant\<close>

definition prior_history :: "context_version \<Rightarrow> instant option \<Rightarrow> feature_snapshot list \<Rightarrow> feature_snapshot list \<Rightarrow> bool" where
  "prior_history policy decided kept whole \<longleftrightarrow>
     (\<forall>current. (case decided of None \<Rightarrow> True | Some d \<Rightarrow> d < fs_decision_at current) \<longrightarrow>
        filter (zone_prior policy current) kept = filter (zone_prior policy current) whole)"

definition context_inv ::
  "context_feed \<Rightarrow> zone_info \<Rightarrow> context_setting \<Rightarrow> context_engine \<times> context_log \<Rightarrow> bool" where
  "context_inv F z s x \<longleftrightarrow> (case x of (g, es, ss) \<Rightarrow>
     ct_configuration g = cs_configuration s \<and> ct_policy g = cs_policy s \<and> ct_regime_policy g = cs_regime_policy s \<and>
     ct_breadth_policy g = cs_breadth_policy s \<and>
     ct_last_received_at g = received_last es \<and>
     ct_stream_session_id g = (if es = [] then None else Some (se_stream_session_id (last es))) \<and>
     sorted (map se_received_at es) \<and>
     ct_index_ticks g = (\<lambda>i. filter (\<lambda>x. io_index x = i) (index_log F z (cs_configuration s) es)) \<and>
     ct_status_ticks g = (\<lambda>m. filter (\<lambda>x. so_market x = m) (status_log F (cs_configuration s) (authorizing s es))) \<and>
     (\<forall>symbol. prior_history (cs_policy s) (ct_last_decision_at g) (ct_history g symbol) (filter (\<lambda>x. fs_symbol x = symbol) ss)) \<and>
     (case cs_breadth_policy s of None \<Rightarrow> ct_breadth g = None
      | Some policy \<Rightarrow> \<exists>b. ct_breadth g = Some b \<and> be_configuration b = cs_configuration s \<and>
          breadth_inv F z policy (cs_membership s) es b))"

lemma context_inv_new:
  assumes "new_context_engine E (cs_configuration s) (cs_policy s) (cs_breadth_policy s) (cs_membership s) (cs_regime_policy s) = Inr g"
  shows "context_inv F z s (g, [], [])"
  using assms breadth_inv_new [of F z _ "cs_membership s" "cs_configuration s"]
  by (auto simp: new_context_engine_def rbind_eq_Inr context_inv_def received_last_def index_log_def status_log_def authorizing_def
      current_stream_def present_items_def prior_history_def new_breadth_engine_def split: option.splits)

text \<open>Receiving an envelope.\<close>

lemma and_then_Inr: "and_then m f = (s', Inr u) \<longleftrightarrow> (\<exists>s v. m = (s, Inr v) \<and> f s = (s', Inr u))"
  by (cases m; cases "snd m") (auto simp: and_then_def)

lemma observe_index_Inr:
  "observe_index F z e g = (g', Inr u) \<longleftrightarrow> (\<exists>x. index_tick F z (mc_indices (tv_market (ct_configuration g))) e = Inr x \<and>
     g' = g\<lparr>ct_index_ticks := (\<lambda>i. ct_index_ticks g i @ filter (\<lambda>x. io_index x = i) (present_items [x]))\<rparr>)"
  by (auto simp: observe_index_def append_at_def present_items_def fun_eq_iff split: sum.splits option.splits)

lemma observe_status_Inr:
  "observe_status F e g = (g', Inr u) \<longleftrightarrow> (\<exists>x. status_tick F (mc_status_markets (tv_market (ct_configuration g))) e = Inr x \<and>
     g' = g\<lparr>ct_status_ticks := (\<lambda>m. ct_status_ticks g m @ filter (\<lambda>x. so_market x = m) (present_items [x]))\<rparr>)"
  by (auto simp: observe_status_def append_at_def present_items_def fun_eq_iff split: sum.splits option.splits)

lemma context_apply_Inr:
  assumes "context_apply F z g e = (g', Inr u)"
  obtains b x y where "case ct_last_received_at g of None \<Rightarrow> True | Some r \<Rightarrow> r \<le> se_received_at e"
    "case ct_breadth g of None \<Rightarrow> b = None | Some b0 \<Rightarrow> \<exists>b1. breadth_apply F z b0 e = (b1, Inr ()) \<and> b = Some b1"
    "index_tick F z (mc_indices (tv_market (ct_configuration g))) e = Inr x"
    "status_tick F (mc_status_markets (tv_market (ct_configuration g))) e = Inr y"
    "g' = (note_stream e g)\<lparr>ct_breadth := b, ct_index_ticks := (\<lambda>i. ct_index_ticks g i @ filter (\<lambda>x. io_index x = i) (present_items [x])),
       ct_status_ticks := (\<lambda>m. ct_status_ticks (note_stream e g) m @ filter (\<lambda>x. so_market x = m) (present_items [y]))\<rparr>"
proof -
  have order: "case ct_last_received_at g of None \<Rightarrow> True | Some r \<Rightarrow> r \<le> se_received_at e"
    using assms by (auto simp: context_apply_def split: if_splits option.splits)
  obtain g1 g2 where g1: "apply_breadth F z e (note_stream e g) = (g1, Inr ())"
    and g2: "observe_index F z e g1 = (g2, Inr ())" "observe_status F e g2 = (g', Inr ())"
    using assms by (auto simp: context_apply_def and_then_Inr split: if_splits option.splits)
  have kept: "ct_configuration (note_stream e g) = ct_configuration g" "ct_breadth (note_stream e g) = ct_breadth g"
    "ct_index_ticks (note_stream e g) = ct_index_ticks g" by (simp_all add: note_stream_def Let_def)
  obtain b where b: "case ct_breadth g of None \<Rightarrow> b = None | Some b0 \<Rightarrow> \<exists>b1. breadth_apply F z b0 e = (b1, Inr ()) \<and> b = Some b1"
      "g1 = (note_stream e g)\<lparr>ct_breadth := b\<rparr>"
  proof (cases "ct_breadth g")
    case None
    then show ?thesis using that [of None] g1 kept by (simp add: apply_breadth_def)
  next
    case (Some b0)
    obtain b1 r where "breadth_apply F z b0 e = (b1, r)" by (rule prod.exhaust)
    then show ?thesis using that [of "Some b1"] g1 kept Some by (simp add: apply_breadth_def)
  qed
  show ?thesis
    using g2 b kept that [OF order b(1)] by (auto simp: observe_index_Inr observe_status_Inr)
qed

lemma received_last_snoc [simp]: "received_last (es @ [e]) = Some (se_received_at e)" "received_last [] = None"
  by (simp_all add: received_last_def)

lemma sorted_received_snoc:
  assumes "sorted (map se_received_at es)" "case received_last es of None \<Rightarrow> True | Some r \<Rightarrow> r \<le> se_received_at e"
  shows "sorted (map se_received_at (es @ [e]))"
proof (cases es rule: rev_cases)
  case (snoc es' e')
  then have "\<forall>x \<in> set es. se_received_at x \<le> se_received_at e'" using assms(1) by (auto simp: sorted_append)
  then show ?thesis using assms snoc by (auto simp: sorted_append)
qed simp

lemma receipt_inv:
  assumes "context_inv F z s (g, es, ss)" "context_apply F z g e = (g', Inr u)"
  shows "context_inv F z s (g', es @ [e], ss)"
proof -
  let ?c = "cs_configuration s"
  have fields: "ct_configuration g = ?c" "ct_policy g = cs_policy s" "ct_regime_policy g = cs_regime_policy s"
      "ct_breadth_policy g = cs_breadth_policy s" "ct_last_received_at g = received_last es"
      "ct_stream_session_id g = (if es = [] then None else Some (se_stream_session_id (last es)))"
      "sorted (map se_received_at es)"
      "ct_index_ticks g = (\<lambda>i. filter (\<lambda>x. io_index x = i) (index_log F z ?c es))"
      "ct_status_ticks g = (\<lambda>m. filter (\<lambda>x. so_market x = m) (status_log F ?c (authorizing s es)))"
      "\<forall>symbol. prior_history (cs_policy s) (ct_last_decision_at g) (ct_history g symbol) (filter (\<lambda>x. fs_symbol x = symbol) ss)"
    and breadth: "case cs_breadth_policy s of None \<Rightarrow> ct_breadth g = None
      | Some policy \<Rightarrow> \<exists>b. ct_breadth g = Some b \<and> be_configuration b = ?c \<and> breadth_inv F z policy (cs_membership s) es b"
    using assms(1) by (simp_all add: context_inv_def)
  obtain b x y where order: "case ct_last_received_at g of None \<Rightarrow> True | Some r \<Rightarrow> r \<le> se_received_at e"
    and b: "case ct_breadth g of None \<Rightarrow> b = None | Some b0 \<Rightarrow> \<exists>b1. breadth_apply F z b0 e = (b1, Inr ()) \<and> b = Some b1"
    and x: "index_tick F z (mc_indices (tv_market (ct_configuration g))) e = Inr x"
    and y: "status_tick F (mc_status_markets (tv_market (ct_configuration g))) e = Inr y"
    and g': "g' = (note_stream e g)\<lparr>ct_breadth := b, ct_index_ticks := (\<lambda>i. ct_index_ticks g i @ filter (\<lambda>x. io_index x = i) (present_items [x])),
       ct_status_ticks := (\<lambda>m. ct_status_ticks (note_stream e g) m @ filter (\<lambda>x. so_market x = m) (present_items [y]))\<rparr>"
    using assms(2) by (rule context_apply_Inr)
  have order': "case received_last es of None \<Rightarrow> True | Some r \<Rightarrow> r \<le> se_received_at e" using order fields(5) by simp
  have index: "index_log F z ?c (es @ [e]) = index_log F z ?c es @ present_items [x]"
    using x fields(1) by (simp add: index_log_def)
  have single: "status_log F ?c [e] = present_items [y]" using y fields(1) by (simp add: status_log_def)
  have append: "status_log F ?c (xs @ [e]) = status_log F ?c xs @ present_items [y]" for xs using single by (simp add: status_log_def)
  have status: "(\<lambda>m. ct_status_ticks (note_stream e g) m @ filter (\<lambda>x. so_market x = m) (present_items [y])) =
     (\<lambda>m. filter (\<lambda>x. so_market x = m) (status_log F ?c (authorizing s (es @ [e]))))"
    using fields(3,6,9) single append [of "authorizing s es"] append [of "[]"]
    by (intro ext) (auto simp: authorizing_def current_stream_snoc note_stream_def status_log_def Let_def)
  have bread: "case cs_breadth_policy s of None \<Rightarrow> b = None
      | Some policy \<Rightarrow> \<exists>b1. b = Some b1 \<and> be_configuration b1 = ?c \<and> breadth_inv F z policy (cs_membership s) (es @ [e]) b1"
  proof (cases "cs_breadth_policy s")
    case None
    then show ?thesis using breadth b by simp
  next
    case (Some policy)
    then obtain b0 b1 where b0: "ct_breadth g = Some b0" "be_configuration b0 = ?c" "breadth_inv F z policy (cs_membership s) es b0"
      "breadth_apply F z b0 e = (b1, Inr ())" "b = Some b1" using breadth b by auto
    then show ?thesis using Some breadth_apply_inv(1,2) [OF b0(3,4)] by simp
  qed
  have noted: "ct_configuration g' = ct_configuration g" "ct_policy g' = ct_policy g" "ct_regime_policy g' = ct_regime_policy g"
    "ct_breadth_policy g' = ct_breadth_policy g" "ct_last_received_at g' = Some (se_received_at e)"
    "ct_stream_session_id g' = Some (se_stream_session_id e)" "ct_history g' = ct_history g" "ct_last_decision_at g' = ct_last_decision_at g"
    "ct_breadth g' = b" "ct_index_ticks g' = (\<lambda>i. ct_index_ticks g i @ filter (\<lambda>x. io_index x = i) (present_items [x]))"
    "ct_status_ticks g' = (\<lambda>m. ct_status_ticks (note_stream e g) m @ filter (\<lambda>x. so_market x = m) (present_items [y]))"
    by (simp_all add: g' note_stream_def Let_def)
  show ?thesis
    unfolding context_inv_def prod.case noted status
    using fields bread sorted_received_snoc [OF fields(7) order'] by (simp add: index received_last_snoc)
qed

text \<open>Building a context.\<close>

lemma filter_dropWhile:
  assumes "\<And>x. x \<in> set xs \<Longrightarrow> P x \<Longrightarrow> \<not> Q x"
  shows "filter Q (dropWhile P xs) = filter Q xs"
  using assms by (induction xs) auto

lemma zone_prior_recent:
  assumes "d < fs_decision_at current" "fs_decision_at item < d - cx_zone_lookback_seconds policy * second_us"
  shows "\<not> zone_prior policy current item"
  using assms by (simp add: zone_prior_def)

lemma remember_all_prior:
  assumes "prior_history policy (Some d) (h symbol) whole"
  shows "prior_history policy (Some d) (fold (remember policy d) ss h symbol) (whole @ filter (\<lambda>x. fs_symbol x = symbol) ss)"
  using assms
proof (induction ss arbitrary: h whole)
  case (Cons s ss)
  have "prior_history policy (Some d) (remember policy d s h symbol) (if fs_symbol s = symbol then whole @ [s] else whole)"
  proof -
    have "filter (zone_prior policy current) (remember policy d s h symbol) =
        filter (zone_prior policy current) (if fs_symbol s = symbol then whole @ [s] else whole)" if later: "d < fs_decision_at current" for current
    proof -
      have same: "filter (zone_prior policy current) (h symbol) = filter (zone_prior policy current) whole"
        using Cons.prems later by (simp add: prior_history_def)
      show ?thesis
        using same filter_dropWhile [of "h symbol @ [s]" "\<lambda>item. fs_decision_at item < d - cx_zone_lookback_seconds policy * second_us" "zone_prior policy current"]
          zone_prior_recent [OF later] by (simp add: remember_def)
    qed
    then show ?thesis by (simp add: prior_history_def)
  qed
  then show ?case using Cons.IH [of "remember policy d s h" "if fs_symbol s = symbol then whole @ [s] else whole"]
    by (simp split: if_splits)
qed simp

lemma prior_history_later:
  assumes "prior_history policy decided kept whole" "case decided of None \<Rightarrow> True | Some d0 \<Rightarrow> d0 < d"
  shows "prior_history policy (Some d) kept whole"
  using assms by (auto simp: prior_history_def split: option.splits)

lemma context_guards_Inr:
  assumes "context_guards g snapshots = Inr (d, ordered)"
  shows "snapshots \<noteq> []" "ordered = sort_key fs_symbol snapshots" "\<forall>x \<in> set snapshots. fs_decision_at x = d"
    "case ct_last_decision_at g of None \<Rightarrow> True | Some d0 \<Rightarrow> d0 < d" "complete_clock (ct_configuration g) ordered"
    "contains (ct_policy g) (fs_trade_date (hd ordered))" "case ct_last_received_at g of None \<Rightarrow> True | Some r \<Rightarrow> r \<le> d"
proof -
  have one: "length (remdups (map fs_decision_at snapshots)) = 1" and ne: "snapshots \<noteq> []" and d: "d = fs_decision_at (hd snapshots)"
    using assms by (auto simp: context_guards_def Let_def split: if_splits)
  then obtain t where "remdups (map fs_decision_at snapshots) = [t]" by (auto simp: length_Suc_conv)
  then have "fs_decision_at ` set snapshots = {t}" by (metis list.set(1) list.simps(15) set_map set_remdups)
  moreover from this have "fs_decision_at (hd snapshots) = t" using ne by (metis hd_in_set imageI singletonD)
  ultimately show "\<forall>x \<in> set snapshots. fs_decision_at x = d" using d by auto
  show "snapshots \<noteq> []" using ne .
  show "ordered = sort_key fs_symbol snapshots" "case ct_last_decision_at g of None \<Rightarrow> True | Some d0 \<Rightarrow> d0 < d"
    "complete_clock (ct_configuration g) ordered" "contains (ct_policy g) (fs_trade_date (hd ordered))"
    "case ct_last_received_at g of None \<Rightarrow> True | Some r \<Rightarrow> r \<le> d"
    using assms by (auto simp: context_guards_def Let_def split: if_splits option.splits)
qed

section \<open>The reference context\<close>

text \<open>Complete lists in place of the kept ones, and breadth from all revisions.\<close>

definition reference_breadths ::
  "context_env \<Rightarrow> context_feed \<Rightarrow> zone_info \<Rightarrow> context_setting \<Rightarrow> context_engine \<Rightarrow> stream_envelope list \<Rightarrow> instant \<Rightarrow>
   breadth_context list res" where
  "reference_breadths E F z s g es d =
     (case (cs_breadth_policy s, ct_breadth g) of
        (Some policy, Some b) \<Rightarrow> rbind (breadth_guards z b (Aware d)) (\<lambda>t.
          breadth_result E z (cs_configuration s) policy (cs_membership s) (all_revisions F z (breadth_symbols b) Map.empty es) t)
      | _ \<Rightarrow> Inr [])"

definition reference_context ::
  "context_env \<Rightarrow> context_feed \<Rightarrow> zone_info \<Rightarrow> context_setting \<Rightarrow> context_engine \<Rightarrow> context_log \<Rightarrow> instant \<Rightarrow>
   feature_snapshot list \<Rightarrow> decision_context res" where
  "reference_context E F z s g whole d ordered = (case whole of (es, ss) \<Rightarrow>
     rbind (context_parts E (cs_configuration s) (cs_policy s) (cx_index_stale_after_seconds (cs_policy s))
       (\<lambda>symbol. filter (\<lambda>x. fs_symbol x = symbol) ss)
       (\<lambda>i. filter (\<lambda>x. io_index x = i) (index_log F z (cs_configuration s) es)) d ordered) (\<lambda>parts.
     rbind (live_statuses (cs_configuration s) (cs_policy s)
       (\<lambda>m. filter (\<lambda>x. so_market x = m) (status_log F (cs_configuration s) (authorizing s es))) d) (\<lambda>statuses.
     rbind (reference_breadths E F z s g es d) (\<lambda>breadth. make_context E g d ordered parts statuses breadth))))"

definition breadth_setting :: "context_setting \<Rightarrow> bool" where
  "breadth_setting s \<longleftrightarrow> (\<forall>policy. cs_breadth_policy s = Some policy \<longrightarrow> (\<exists>v. BreadthVersion policy = Inr v))"

lemma zone_of_cong:
  "filter (zone_prior policy current) h = filter (zone_prior policy current) h' \<Longrightarrow> zone_of E policy current h = zone_of E policy current h'"
  by (simp add: zone_of_def)

lemma build_breadth_reference:
  assumes "context_inv F z s (g, es, ss)" "breadth_setting s" "case ct_last_received_at g of None \<Rightarrow> True | Some r \<Rightarrow> r \<le> d"
  shows "snd (build_breadth E z d g) = reference_breadths E F z s g es d"
    "\<exists>b. fst (build_breadth E z d g) = g\<lparr>ct_breadth := b\<rparr> \<and>
      (case cs_breadth_policy s of None \<Rightarrow> b = None
       | Some policy \<Rightarrow> \<exists>b0. b = Some b0 \<and> be_configuration b0 = cs_configuration s \<and> breadth_inv F z policy (cs_membership s) es b0)"
proof -
  have both: "snd (build_breadth E z d g) = reference_breadths E F z s g es d \<and>
    (\<exists>b. fst (build_breadth E z d g) = g\<lparr>ct_breadth := b\<rparr> \<and>
      (case cs_breadth_policy s of None \<Rightarrow> b = None
       | Some policy \<Rightarrow> \<exists>b0. b = Some b0 \<and> be_configuration b0 = cs_configuration s \<and> breadth_inv F z policy (cs_membership s) es b0))"
  proof (cases "cs_breadth_policy s")
    case None
    then have none: "ct_breadth g = None" using assms(1) by (simp add: context_inv_def)
    show ?thesis using None none by (intro conjI exI [of _ None]) (simp_all add: build_breadth_def reference_breadths_def)
  next
    case (Some policy)
    then obtain b where b: "ct_breadth g = Some b" "be_configuration b = cs_configuration s" "breadth_inv F z policy (cs_membership s) es b"
      using assms(1) by (auto simp: context_inv_def)
    have received: "case received_last es of None \<Rightarrow> True | Some r \<Rightarrow> r \<le> d" using assms(1,3) by (simp add: context_inv_def)
    obtain v where v: "BreadthVersion policy = Inr v" using assms(2) Some by (auto simp: breadth_setting_def)
    have policy: "be_policy b = policy" "be_membership b = cs_membership s" using b(3) by (simp_all add: breadth_inv_def)
    show ?thesis
    proof (cases "breadth_guards z b (Aware d)")
      case (Inl err)
      then show ?thesis using Some b
        by (intro conjI exI [of _ "Some b"]) (simp_all add: build_breadth_def reference_breadths_def breadth_build_def)
    next
      case (Inr t)
      then have "t = d" by (auto simp: breadth_guards_def split: if_splits)
      moreover have "breadth_inv F z policy (cs_membership s) es (b\<lparr>be_last_decision_at := Some t\<rparr>)"
        using b(3) by (simp add: breadth_inv_def breadth_symbols_def Let_def split: option.splits)
      ultimately show ?thesis
        using Some b policy Inr breadth_result_reference [OF b(3) v, of d E "cs_configuration s"] received
        by (intro conjI exI [of _ "Some (b\<lparr>be_last_decision_at := Some t\<rparr>)"])
          (simp_all add: build_breadth_def reference_breadths_def breadth_build_def)
    qed
  qed
  then show "snd (build_breadth E z d g) = reference_breadths E F z s g es d"
    "\<exists>b. fst (build_breadth E z d g) = g\<lparr>ct_breadth := b\<rparr> \<and>
      (case cs_breadth_policy s of None \<Rightarrow> b = None
       | Some policy \<Rightarrow> \<exists>b0. b = Some b0 \<and> be_configuration b0 = cs_configuration s \<and> breadth_inv F z policy (cs_membership s) es b0)"
    by blast+
qed

lemma make_context_breadth [simp]: "make_context E (g\<lparr>ct_breadth := b\<rparr>) d ordered parts statuses breadth = make_context E g d ordered parts statuses breadth"
  by (simp add: make_context_def)

lemma context_build_reference:
  assumes "context_inv F z s (g, es, ss)" "breadth_setting s"
  shows "snd (context_build E z g snapshots) = rbind (context_guards g snapshots) (\<lambda>(d, ordered). reference_context E F z s g (es, ss) d ordered)"
proof (cases "context_guards g snapshots")
  case (Inl err)
  then show ?thesis by (simp add: context_build_def)
next
  case (Inr guards)
  then obtain d ordered where guards: "context_guards g snapshots = Inr (d, ordered)" by (cases guards) auto
  note facts = context_guards_Inr [OF guards]
  let ?history = "\<lambda>symbol. filter (\<lambda>x. fs_symbol x = symbol) ss"
  have fields: "ct_configuration g = cs_configuration s" "ct_policy g = cs_policy s"
      "ct_index_ticks g = (\<lambda>i. filter (\<lambda>x. io_index x = i) (index_log F z (cs_configuration s) es))"
      "ct_status_ticks g = (\<lambda>m. filter (\<lambda>x. so_market x = m) (status_log F (cs_configuration s) (authorizing s es)))"
      "\<forall>symbol. prior_history (cs_policy s) (ct_last_decision_at g) (ct_history g symbol) (?history symbol)"
    using assms(1) by (simp_all add: context_inv_def)
  have "zone_of E (cs_policy s) x (ct_history g (fs_symbol x)) = zone_of E (cs_policy s) x (?history (fs_symbol x))" if "x \<in> set ordered" for x
  proof -
    have "fs_decision_at x = d" using facts(2,3) that by simp
    then have "case ct_last_decision_at g of None \<Rightarrow> True | Some d0 \<Rightarrow> d0 < fs_decision_at x" using facts(4) by (simp split: option.splits)
    moreover have "prior_history (cs_policy s) (ct_last_decision_at g) (ct_history g (fs_symbol x)) (?history (fs_symbol x))" using fields(5) by blast
    ultimately show ?thesis unfolding prior_history_def by (intro zone_of_cong) blast
  qed
  then have parts: "context_parts E (cs_configuration s) (cs_policy s) stale (ct_history g) ticks d ordered =
      context_parts E (cs_configuration s) (cs_policy s) stale ?history ticks d ordered" for stale ticks
    by (simp add: context_parts_def cong: map_res_cong)
  obtain g1 r where bread: "build_breadth E z d g = (g1, r)" by (rule prod.exhaust)
  then obtain b where "r = reference_breadths E F z s g es d" "g1 = g\<lparr>ct_breadth := b\<rparr>"
    using build_breadth_reference [OF assms facts(7)] by (metis fst_conv snd_conv)
  then show ?thesis
    using bread fields
    by (simp add: context_build_def guards reference_context_def parts split: sum.split)
qed

lemma build_inv:
  assumes "context_inv F z s (g, es, ss)" "breadth_setting s" "context_build E z g snapshots = (g', Inr context)"
  shows "context_inv F z s (g', es, ss @ sort_key fs_symbol snapshots)"
proof -
  obtain d ordered parts statuses g1 breadth where guards: "context_guards g snapshots = Inr (d, ordered)"
    and bread: "build_breadth E z d g = (g1, Inr breadth)"
    and g': "g' = g1\<lparr>ct_history := fold (remember (ct_policy g1) d) ordered (ct_history g1), ct_last_decision_at := Some d\<rparr>"
    using assms(3) by (auto simp: context_build_def split: sum.splits prod.splits)
  note facts = context_guards_Inr [OF guards]
  obtain b where b: "g1 = g\<lparr>ct_breadth := b\<rparr>"
      "case cs_breadth_policy s of None \<Rightarrow> b = None
       | Some policy \<Rightarrow> \<exists>b0. b = Some b0 \<and> be_configuration b0 = cs_configuration s \<and> breadth_inv F z policy (cs_membership s) es b0"
    using build_breadth_reference(2) [OF assms(1,2) facts(7), of E] bread by auto
  have "prior_history (cs_policy s) (Some d) (fold (remember (cs_policy s) d) ordered (ct_history g) symbol)
      (filter (\<lambda>x. fs_symbol x = symbol) (ss @ ordered))" for symbol
  proof -
    have "prior_history (cs_policy s) (ct_last_decision_at g) (ct_history g symbol) (filter (\<lambda>x. fs_symbol x = symbol) ss)"
      using assms(1) by (simp add: context_inv_def)
    then show ?thesis unfolding filter_append using facts(4) by (rule remember_all_prior [OF prior_history_later])
  qed
  then show ?thesis using assms(1) b facts(2) by (cases "cs_breadth_policy s") (simp_all add: context_inv_def g')
qed

interpretation contexts: guarded_machine "context_step E F z" "\<lambda>x. breadth_setting s \<and> context_inv F z s x" "\<lambda>_. True"
proof
  fix x op x'
  assume inv: "breadth_setting s \<and> context_inv F z s x" and step: "context_step E F z x op = Inr x'"
  obtain g es ss where x: "x = (g, es, ss)" by (rule prod_cases3)
  have "context_inv F z s x'"
  proof (cases op)
    case (Receipt e)
    obtain g' r where r: "context_apply F z g e = (g', r)" by (rule prod.exhaust)
    then obtain u where "r = Inr u" "x' = (g', es @ [e], ss)" using step by (auto simp: x Receipt rbind_eq_Inr)
    then show ?thesis using receipt_inv [of F z s g es ss e g' u] inv r by (simp add: x)
  next
    case (Decision snapshots)
    obtain g' r where r: "context_build E z g snapshots = (g', r)" by (rule prod.exhaust)
    then obtain made where "r = Inr made" "x' = (g', es, ss @ sort_key fs_symbol snapshots)" using step by (auto simp: x Decision rbind_eq_Inr)
    then show ?thesis using build_inv [of F z s g es ss E snapshots g' made] inv r by (simp add: x)
  qed
  then show "breadth_setting s \<and> context_inv F z s x'" using inv by simp
qed

lemma context_run_inv:
  assumes "breadth_setting s" "context_run E F z s ops = Inr x"
  shows "context_inv F z s x"
proof -
  obtain g where g: "new_context_engine E (cs_configuration s) (cs_policy s) (cs_breadth_policy s) (cs_membership s) (cs_regime_policy s) = Inr g"
      "run_res (context_step E F z) (g, [], []) ops = Inr x"
    using assms(2) by (auto simp: context_run_def rbind_eq_Inr)
  show ?thesis using contexts.run_inv [of s F z "(g, [], [])" ops E x] context_inv_new [OF g(1)] g(2) assms(1) by (simp add: list_all_iff)
qed

text \<open>C18: The live context engine loses nothing that a decision needs. After any run of receipts and decisions under a validated
  breadth policy, a decision returns exactly the context of the complete log: zones over all snapshots decided before, index
  values over all receipts, market statuses over the receipts since the last reconnect when a regime policy is in force, and
  breadth over all bar revisions ever received; its guards and exceptions included.\<close>

theorem live_context_equals_reference:
  assumes "breadth_setting s" "context_run E F z s ops = Inr (g, es, ss)"
  shows "snd (context_build E z g snapshots) =
    rbind (context_guards g snapshots) (\<lambda>(d, ordered). reference_context E F z s g (es, ss) d ordered)"
  by (rule context_build_reference [OF context_run_inv [OF assms] assms(1)])

section \<open>Witnesses\<close>

text \<open>One symbol, one market and one index; the status message of the market arrives, then a clock is decided.\<close>

definition sample_context_env :: context_env where
  "sample_context_env = \<lparr>fe_configuration_sha256 = (\<lambda>_. replicate 64 CHR ''b''), fe_snapshot_sha256 = (\<lambda>_. replicate 64 CHR ''c''),
     ce_lineage = sample_lineage_digests, ce_membership_sha256 = (\<lambda>_ _. replicate 64 CHR ''d''),
     ce_observations_sha256 = (\<lambda>_. replicate 64 CHR ''e''), ce_history_sha256 = (\<lambda>_. replicate 64 CHR ''f''),
     ce_calendar_sha256 = (\<lambda>_ _ _. replicate 64 CHR ''d'')\<rparr>"

definition sample_context_feed :: context_feed where
  "sample_context_feed = \<lparr>fd_sha256 = (\<lambda>_. replicate 64 CHR ''a''), fd_trade = Map.empty, fd_quote = Map.empty,
     fd_interval = Map.empty, fd_status = map_of [(''M1'', \<lparr>sm_market = ''HOSE'', sm_status = ''OPEN''\<rparr>)]\<rparr>"

definition sample_official_regime :: regime_version where
  "sample_official_regime = \<lparr>version = ''rg-v1'', effective_from = 0, effective_to = None, rg_basis = OFFICIAL_INDEX,
     rg_reference_index = None, rg_trend_threshold_bps = None, rg_high_dispersion_threshold_bps = None\<rparr>"

definition sample_context_setting :: context_setting where
  "sample_context_setting = \<lparr>cs_configuration = sample_trading\<lparr>tv_market := sample_market\<lparr>mc_symbols := [''VIC'']\<rparr>\<rparr>,
     cs_policy = sample_context, cs_breadth_policy = None, cs_membership = None, cs_regime_policy = Some sample_official_regime\<rparr>"

definition sample_status_envelope :: stream_envelope where
  "sample_status_envelope = (sample_envelope 1 ''MarketStatusMessage'' ''M1'' ''2025/09/24 09:15:01'' 2)
     \<lparr>se_subscription_context := CTX_MARKETS, se_symbol := Some ''HOSE''\<rparr>"

definition sample_context_snapshot :: "instant \<Rightarrow> feature_snapshot" where
  "sample_context_snapshot at_time = \<lparr>bk_mid_price = None, bk_microprice = None, bk_microprice_deviation_bps = None, bk_spread = None,
     bk_spread_bps = None, bk_bid_depth = None, bk_ask_depth = None, bk_level_one_imbalance = None, bk_depth_imbalance = None,
     fs_feature_version = ''f-v1'', fs_configuration_version = ''core-v1'', fs_configuration_sha256 = replicate 64 CHR ''b'',
     fs_symbol = ''VIC'', fs_trade_date = 739517, fs_decision_at = at_time, fs_market_session = MS_CONTINUOUS_AM,
     fs_stream_session_id = None, fs_last_receive_sequence = None, fs_trade_age_seconds = None, fs_quote_age_seconds = None,
     fs_windows = [], fs_reasons = [''MISSING_TRADE'']\<rparr>"

abbreviation "sample_context_clock \<equiv> sample_market_open + 60 * second_us"

lemma sample_context_breadth: "breadth_setting sample_context_setting"
  by (simp add: breadth_setting_def sample_context_setting_def)

lemma sample_context_run:
  obtains g es ss where "context_run sample_context_env sample_context_feed vietnam_zone sample_context_setting
      [Receipt sample_status_envelope] = Inr (g, es, ss)"
    "case snd (context_build sample_context_env vietnam_zone g [sample_context_snapshot sample_context_clock]) of Inl _ \<Rightarrow> False
     | Inr x \<Rightarrow> context_is_tradable x"
proof -
  have "case context_run sample_context_env sample_context_feed vietnam_zone sample_context_setting [Receipt sample_status_envelope] of
      Inl _ \<Rightarrow> False
    | Inr x \<Rightarrow> (case snd (context_build sample_context_env vietnam_zone (fst x) [sample_context_snapshot sample_context_clock]) of
        Inl _ \<Rightarrow> False | Inr c \<Rightarrow> context_is_tradable c)"
    by code_simp
  then obtain x where "context_run sample_context_env sample_context_feed vietnam_zone sample_context_setting
      [Receipt sample_status_envelope] = Inr x"
    "case snd (context_build sample_context_env vietnam_zone (fst x) [sample_context_snapshot sample_context_clock]) of
        Inl _ \<Rightarrow> False | Inr c \<Rightarrow> context_is_tradable c"
    by (blast dest: case_res_True)
  then show ?thesis by (intro that [of "fst x" "fst (snd x)" "snd (snd x)"]) simp_all
qed

theorem live_context_equals_reference_witness:
  "\<exists>g es ss. context_run sample_context_env sample_context_feed vietnam_zone sample_context_setting [Receipt sample_status_envelope] =
     Inr (g, es, ss) \<and>
   snd (context_build sample_context_env vietnam_zone g [sample_context_snapshot sample_context_clock]) =
     rbind (context_guards g [sample_context_snapshot sample_context_clock]) (\<lambda>(d, ordered).
       reference_context sample_context_env sample_context_feed vietnam_zone sample_context_setting g (es, ss) d ordered)"
proof -
  obtain g es ss where run: "context_run sample_context_env sample_context_feed vietnam_zone sample_context_setting
      [Receipt sample_status_envelope] = Inr (g, es, ss)" by (rule sample_context_run)
  show ?thesis by (intro exI conjI, rule run, rule live_context_equals_reference [OF sample_context_breadth run])
qed

end
