(* ===== verification/ContextSafety.thy ===== *)
theory ContextSafety
  imports ContextRuns
begin

text \<open>
  Safety of decision contexts: tradability needs a market status of the current stream session, replays never look ahead, the
  research builder over extracted observations agrees with the live engine, and the regime classification is consistent.
\<close>

section \<open>Observations of a log\<close>

lemma IndexObservation_Inr: "IndexObservation x = Inr y \<Longrightarrow> y = x"
  by (auto simp: IndexObservation_def split: if_splits)

lemma MarketStatusObservation_Inr: "MarketStatusObservation x = Inr y \<Longrightarrow> y = x"
  by (auto simp: MarketStatusObservation_def split: if_splits)

lemma index_tick_Inr:
  assumes "index_tick F z indices e = Inr (Some x)"
  shows "io_observed_at x = se_received_at e" "io_source_kind x = SSI_STREAM_TRADE"
  using assms by (auto simp: index_tick_def rbind_eq_Inr dest!: IndexObservation_Inr split: option.splits if_splits)

lemma status_tick_Inr:
  assumes "status_tick F markets e = Inr (Some x)"
  shows "so_observed_at x = se_received_at e" "so_source_kind x = SSI_STREAM_MARKET_STATUS"
  using assms by (auto simp: status_tick_def rbind_eq_Inr Let_def dest!: MarketStatusObservation_Inr split: option.splits if_splits)

lemma present_items_set: "y \<in> set (present_items xs) \<longleftrightarrow> Some y \<in> set xs"
  by (induction xs) (auto simp: present_items_def split: option.splits)

lemma found_Some: "(case r of Inl _ \<Rightarrow> None | Inr x \<Rightarrow> x) = Some y \<longleftrightarrow> r = Inr (Some y)"
  by (cases r) auto

lemma index_log_member:
  "x \<in> set (index_log F z c es) \<longleftrightarrow> (\<exists>e \<in> set es. index_tick F z (mc_indices (tv_market c)) e = Inr (Some x))"
  unfolding index_log_def present_items_set set_map image_iff eq_commute [of "Some x"] found_Some ..

lemma status_log_member:
  "x \<in> set (status_log F c es) \<longleftrightarrow> (\<exists>e \<in> set es. status_tick F (mc_status_markets (tv_market c)) e = Inr (Some x))"
  unfolding status_log_def present_items_set set_map image_iff eq_commute [of "Some x"] found_Some ..

lemma current_stream_member: "e \<in> set (current_stream es) \<Longrightarrow> e \<in> set es \<and> se_stream_session_id e = se_stream_session_id (last es)"
  by (auto simp: current_stream_def dest: set_takeWhileD)

text \<open>When every observation is available, the one as of now is the last.\<close>

lemma as_of_last:
  assumes "\<And>x. x \<in> set xs \<Longrightarrow> time x \<le> t" "as_of time xs t = Some x"
  shows "xs \<noteq> [] \<and> x = last xs"
  using assms by (cases xs rule: rev_cases) (auto simp: as_of_def)

section \<open>Authorization\<close>

lemma MarketStatusContext_Inr: "MarketStatusContext x = Inr y \<Longrightarrow> y = x"
  by (auto simp: MarketStatusContext_def split: if_splits)

lemma DecisionContext_Inr: "DecisionContext x = Inr y \<Longrightarrow> y = x"
  by (auto simp: DecisionContext_def split: if_splits)

lemma status_context_tradable:
  assumes "status_context_of xs d policy market = Inr x" "mk_is_tradable x"
  obtains y where "as_of so_observed_at xs d = Some y" "so_status y \<in> set (cx_tradable_market_statuses policy)"
  using assms by (auto simp: status_context_of_def Let_def dest!: MarketStatusContext_Inr split: option.splits if_splits)

lemma make_context_Inr:
  assumes "make_context E g d ordered parts statuses breadth = Inr ctx"
  shows "dc_decision_at ctx = d" "dc_market_statuses ctx = statuses" "dc_zones ctx = fst parts" "dc_indices ctx = snd parts"
    "dc_data_mode ctx = LIVE" "dc_breadth ctx = breadth"
  using assms by (auto simp: make_context_def rbind_eq_Inr dest!: DecisionContext_Inr)

lemma context_build_Inr:
  assumes "context_build E z g snapshots = (g', Inr ctx)"
  obtains d ordered parts statuses g1 breadth where "context_guards g snapshots = Inr (d, ordered)"
    "context_parts E (ct_configuration g) (ct_policy g) (cx_index_stale_after_seconds (ct_policy g)) (ct_history g) (ct_index_ticks g) d ordered = Inr parts"
    "live_statuses (ct_configuration g) (ct_policy g) (ct_status_ticks g) d = Inr statuses"
    "build_breadth E z d g = (g1, Inr breadth)" "make_context E g1 d ordered parts statuses breadth = Inr ctx"
    "g' = g1\<lparr>ct_history := fold (remember (ct_policy g1) d) ordered (ct_history g1), ct_last_decision_at := Some d\<rparr>"
  using assms by (auto simp: context_build_def split: sum.splits prod.splits)

lemma received_last_bound:
  assumes "sorted (map se_received_at es)" "case received_last es of None \<Rightarrow> True | Some r \<Rightarrow> r \<le> d" "e \<in> set es"
  shows "se_received_at e \<le> d"
proof -
  obtain es' e' where es: "es = es' @ [e']" using assms(3) by (cases es rule: rev_cases) auto
  have "se_received_at e' \<le> d" using assms(2) by (simp add: es)
  then show ?thesis using assms(1,3) by (auto simp: es sorted_append)
qed

text \<open>C19: Trading is authorized only by the market itself. When a regime policy is in force, a context that reports the market
  tradable has, for every configured market, a status message that was received by the decision in the current stream session,
  that is, after the last reconnect; it is the last status of its market in that session, and the policy lists it
  as tradable.\<close>

theorem tradable_context_authorized:
  assumes "breadth_setting s" "context_run E F z s ops = Inr (g, es, ss)" "cs_regime_policy s \<noteq> None"
    "context_build E z g snapshots = (g', Inr ctx)" "context_is_tradable ctx"
    "market \<in> set (mc_status_markets (tv_market (cs_configuration s)))"
  shows "\<exists>e x. e \<in> set es \<and> se_stream_session_id e = se_stream_session_id (last es) \<and> se_received_at e \<le> dc_decision_at ctx \<and>
    status_tick F (mc_status_markets (tv_market (cs_configuration s))) e = Inr (Some x) \<and>
    x = last (filter (\<lambda>x. so_market x = market) (status_log F (cs_configuration s) (current_stream es))) \<and>
    so_market x = market \<and> so_status x \<in> set (cx_tradable_market_statuses (cs_policy s))"
proof -
  let ?c = "cs_configuration s" and ?ticks = "filter (\<lambda>x. so_market x = market) (status_log F (cs_configuration s) (current_stream es))"
  have inv: "context_inv F z s (g, es, ss)" using assms(1,2) by (rule context_run_inv)
  then have fields: "ct_configuration g = ?c" "ct_policy g = cs_policy s" "ct_last_received_at g = received_last es"
      "sorted (map se_received_at es)" "ct_status_ticks g market = ?ticks"
    using assms(3) by (simp_all add: context_inv_def authorizing_def)
  obtain d ordered parts statuses g1 breadth where guards: "context_guards g snapshots = Inr (d, ordered)"
    and statuses: "live_statuses (ct_configuration g) (ct_policy g) (ct_status_ticks g) d = Inr statuses"
    and made: "make_context E g1 d ordered parts statuses breadth = Inr ctx"
    using assms(4) by (rule context_build_Inr)
  note ctx = make_context_Inr [OF made]
  have received: "se_received_at e \<le> d" if "e \<in> set es" for e
    using received_last_bound [OF fields(4) _ that] context_guards_Inr(7) [OF guards] fields(3) by simp
  have "list_all2 (\<lambda>m x. status_context_of (ct_status_ticks g m) d (ct_policy g) m = Inr x) (sort (mc_status_markets (tv_market ?c))) statuses"
    using statuses fields(1) by (simp add: live_statuses_def map_res_Inr_iff)
  moreover obtain i where i: "i < length (sort (mc_status_markets (tv_market ?c)))" "sort (mc_status_markets (tv_market ?c)) ! i = market"
    using assms(6) by (metis in_set_conv_nth set_sort)
  ultimately have "status_context_of ?ticks d (cs_policy s) market = Inr (statuses ! i)" "i < length statuses"
    using list_all2_nthD [of _ _ statuses i] list_all2_lengthD [of _ _ statuses] fields(2,5) by fastforce+
  then obtain x where x: "x \<in> set statuses" "status_context_of ?ticks d (cs_policy s) market = Inr x" using nth_mem by blast
  have "mk_is_tradable x" using assms(5) x(1) ctx(2) by (simp add: context_is_tradable_def Let_def list_all_iff)
  then obtain y where y: "as_of so_observed_at ?ticks d = Some y" "so_status y \<in> set (cx_tradable_market_statuses (cs_policy s))"
    using status_context_tradable [OF x(2)] by blast
  have available: "so_observed_at t \<le> d" if "t \<in> set ?ticks" for t
    using that received by (auto simp: status_log_member status_tick_Inr(1) dest!: current_stream_member)
  have last: "?ticks \<noteq> []" "y = last ?ticks" using as_of_last [OF available y(1)] by auto
  then have "y \<in> set ?ticks" using last_in_set by blast
  then obtain e where e: "e \<in> set (current_stream es)" "status_tick F (mc_status_markets (tv_market ?c)) e = Inr (Some y)"
      "so_market y = market" by (auto simp: status_log_member)
  have session: "e \<in> set es \<and> se_stream_session_id e = se_stream_session_id (last es)" using e(1) by (rule current_stream_member)
  then have "se_received_at e \<le> dc_decision_at ctx" using received ctx(1) by simp
  then show ?thesis using session e(2,3) last(2) y(2) by (intro exI [of _ e] exI [of _ y]) simp
qed

section \<open>Replays never look ahead\<close>

lemma apply_receipts_later:
  assumes "\<And>e. e \<in> set later_envelopes \<Longrightarrow> d < se_received_at e"
  shows "apply_receipts F z d g es = Inr (g1, rest) \<Longrightarrow> apply_receipts F z d g (es @ later_envelopes) = Inr (g1, rest @ later_envelopes)"
proof (induction es arbitrary: g)
  case Nil
  then show ?case using assms [of "hd later_envelopes"] by (cases later_envelopes) auto
next
  case (Cons e es)
  show ?case
  proof (cases "se_received_at e \<le> d")
    case True
    obtain g' r where r: "context_apply F z g e = (g', r)" by (rule prod.exhaust)
    then obtain u where u: "r = Inr u" "apply_receipts F z d g' es = Inr (g1, rest)" using Cons.prems True by (auto simp: rbind_eq_Inr)
    then show ?thesis using Cons.IH [OF u(2)] True r by simp
  next
    case False
    then show ?thesis using Cons.prems by auto
  qed
qed

lemma replay_contexts_Cons:
  assumes "replay_contexts E F z g pending ((d, members) # clocks) = Inr contexts"
  obtains g1 rest g2 ctx more where "apply_receipts F z d g pending = Inr (g1, rest)" "context_build E z g1 members = (g2, Inr ctx)"
    "replay_contexts E F z g2 rest clocks = Inr more" "contexts = ctx # more"
proof -
  obtain g1 rest where 1: "apply_receipts F z d g pending = Inr (g1, rest)" using assms by (auto simp: rbind_eq_Inr)
  obtain g2 r where 2: "context_build E z g1 members = (g2, r)" by (rule prod.exhaust)
  then show ?thesis using assms 1 that by (auto simp: rbind_eq_Inr Let_def)
qed

lemma build_clock:
  assumes "context_build E z g members = (g', Inr ctx)" "\<forall>x \<in> set members. fs_decision_at x = d"
  shows "dc_decision_at ctx = d"
proof -
  obtain d' ordered parts statuses g1 breadth where guards: "context_guards g members = Inr (d', ordered)"
    and made: "make_context E g1 d' ordered parts statuses breadth = Inr ctx" using assms(1) by (rule context_build_Inr)
  have "members \<noteq> []" "\<forall>x \<in> set members. fs_decision_at x = d'" using context_guards_Inr [OF guards] by simp_all
  then show ?thesis using assms(2) make_context_Inr(1) [OF made] by (metis hd_in_set)
qed

definition clocked :: "(instant \<times> feature_snapshot list) list \<Rightarrow> bool" where
  "clocked clocks \<longleftrightarrow> sorted (map fst clocks) \<and> (\<forall>(d, members) \<in> set clocks. \<forall>x \<in> set members. fs_decision_at x = d)"

lemma clock_groups_clocked: "clocked (clock_groups snapshots)"
  by (auto simp: clocked_def clock_groups_def comp_def sorted_set_def)

text \<open>Contexts of the same clock, equal up to an instant.\<close>

definition same_until :: "instant \<Rightarrow> decision_context \<Rightarrow> decision_context \<Rightarrow> bool" where
  "same_until T x y \<longleftrightarrow> dc_decision_at y = dc_decision_at x \<and> (dc_decision_at x \<le> T \<longrightarrow> y = x)"

lemma same_until_refl: "same_until T x x"
  by (simp add: same_until_def)

lemma replay_clock_times:
  assumes "clocked clocks" "replay_contexts E F z g pending clocks = Inr contexts"
  shows "map dc_decision_at contexts = map fst clocks"
  using assms
proof (induction clocks arbitrary: g pending contexts)
  case (Cons entry clocks)
  obtain d members where entry: "entry = (d, members)" by (rule prod.exhaust)
  obtain g1 rest g2 ctx more where "context_build E z g1 members = (g2, Inr ctx)" "replay_contexts E F z g2 rest clocks = Inr more"
      "contexts = ctx # more"
    using Cons.prems(2) unfolding entry by (rule replay_contexts_Cons)
  then show ?case using Cons.IH Cons.prems(1) build_clock [of E z g1 members g2 ctx d] by (auto simp: clocked_def entry)
qed (auto simp: rbind_eq_Inr)

lemma all_later_same:
  assumes "map dc_decision_at xs = map dc_decision_at ys" "\<forall>x \<in> set xs. T < dc_decision_at x"
  shows "list_all2 (same_until T) xs ys"
proof -
  have "same_until T (xs ! i) (ys ! i)" if "i < length xs" for i
  proof -
    have "dc_decision_at (ys ! i) = dc_decision_at (xs ! i)" using assms(1) that by (metis length_map nth_map)
    moreover have "T < dc_decision_at (xs ! i)" using assms(2) that by simp
    ultimately show ?thesis by (simp add: same_until_def)
  qed
  moreover have "length xs = length ys" using assms(1) by (rule map_eq_imp_length_eq)
  ultimately show ?thesis by (simp add: list_all2_conv_all_nth)
qed

lemma replay_contexts_later:
  assumes "\<forall>e \<in> set later_envelopes. T < se_received_at e"
  shows "clocked clocks \<Longrightarrow> replay_contexts E F z g pending clocks = Inr xs \<Longrightarrow>
    replay_contexts E F z g (pending @ later_envelopes) clocks = Inr ys \<Longrightarrow> list_all2 (same_until T) xs ys"
proof (induction clocks arbitrary: g pending xs ys)
  case (Cons entry clocks)
  obtain d members where entry: "entry = (d, members)" by (rule prod.exhaust)
  show ?case
  proof (cases "d \<le> T")
    case False
    have clocks: "map dc_decision_at xs = map fst (entry # clocks)" "map dc_decision_at ys = map fst (entry # clocks)"
      using Cons.prems replay_clock_times by blast+
    then have times: "map dc_decision_at xs = map dc_decision_at ys" by (rule trans [OF _ sym])
    have "\<forall>t \<in> set (map fst (entry # clocks)). T < t" using Cons.prems(1) False by (auto simp: clocked_def entry)
    then have "\<forall>x \<in> set xs. T < dc_decision_at x" unfolding clocks(1) [symmetric] by simp
    with times show ?thesis by (rule all_later_same)
  next
    case True
    obtain g1 rest g2 ctx more where first: "apply_receipts F z d g pending = Inr (g1, rest)"
        "context_build E z g1 members = (g2, Inr ctx)" "replay_contexts E F z g2 rest clocks = Inr more" "xs = ctx # more"
      using Cons.prems(2) unfolding entry by (rule replay_contexts_Cons)
    obtain g1' rest' g2' ctx' more' where second: "apply_receipts F z d g (pending @ later_envelopes) = Inr (g1', rest')"
        "context_build E z g1' members = (g2', Inr ctx')" "replay_contexts E F z g2' rest' clocks = Inr more'" "ys = ctx' # more'"
      using Cons.prems(3) unfolding entry by (rule replay_contexts_Cons)
    have "apply_receipts F z d g (pending @ later_envelopes) = Inr (g1, rest @ later_envelopes)"
      using apply_receipts_later [OF _ first(1)] assms True by force
    then have "g1' = g1" "rest' = rest @ later_envelopes" using second(1) by simp_all
    then have same: "ctx' = ctx" "replay_contexts E F z g2 (rest @ later_envelopes) clocks = Inr more'"
      using first(2) second(2,3) by simp_all
    have "clocked clocks" using Cons.prems(1) by (auto simp: clocked_def)
    then have "list_all2 (same_until T) more more'" using first(3) same(2) by (rule Cons.IH)
    then show ?thesis using first(4) second(4) same(1) by (simp add: same_until_refl)
  qed
qed (auto simp: rbind_eq_Inr)

text \<open>C20: Decision contexts never look ahead. When a capture is extended by envelopes received after an instant \<open>T\<close> and both captures
  replay, the replays build the same clocks, and every context decided at or before \<open>T\<close> is identical: zones, indices,
  market statuses, breadth and regime.\<close>

theorem contexts_ignore_future:
  assumes "build_decision_contexts E F z snapshots envelopes c policy breadth_policy membership regime_policy = Inr contexts"
    "build_decision_contexts E F z snapshots (envelopes @ later_envelopes) c policy breadth_policy membership regime_policy = Inr contexts'"
    "\<forall>e \<in> set later_envelopes. T < se_received_at e"
  shows "list_all2 (\<lambda>x x'. dc_decision_at x' = dc_decision_at x \<and> (dc_decision_at x \<le> T \<longrightarrow> x' = x)) contexts contexts'"
proof -
  obtain g where g: "replay_contexts E F z g envelopes (clock_groups snapshots) = Inr contexts"
      "replay_contexts E F z g (envelopes @ later_envelopes) (clock_groups snapshots) = Inr contexts'"
    using assms(1,2) by (auto simp: build_decision_contexts_def rbind_eq_Inr split: if_splits)
  show ?thesis using replay_contexts_later [OF assms(3) clock_groups_clocked g] by (simp add: same_until_def [abs_def])
qed

section \<open>Witnesses\<close>

theorem tradable_context_authorized_witness:
  "\<exists>es (ctx :: decision_context) e x. e \<in> set es \<and> se_stream_session_id e = se_stream_session_id (last es) \<and> se_received_at e \<le> dc_decision_at ctx \<and>
     status_tick sample_context_feed [''HOSE''] e = Inr (Some x) \<and>
     x = last (filter (\<lambda>x. so_market x = ''HOSE'') (status_log sample_context_feed (cs_configuration sample_context_setting) (current_stream es))) \<and>
     so_market x = ''HOSE'' \<and> so_status x \<in> set (cx_tradable_market_statuses (cs_policy sample_context_setting))"
proof -
  obtain g es ss where run: "context_run sample_context_env sample_context_feed vietnam_zone sample_context_setting
      [Receipt sample_status_envelope] = Inr (g, es, ss)"
    and built: "case snd (context_build sample_context_env vietnam_zone g [sample_context_snapshot sample_context_clock]) of
        Inl _ \<Rightarrow> False | Inr x \<Rightarrow> context_is_tradable x" by (rule sample_context_run)
  obtain g' r where r: "context_build sample_context_env vietnam_zone g [sample_context_snapshot sample_context_clock] = (g', r)"
    by (rule prod.exhaust)
  with built obtain ctx where ctx: "r = Inr ctx" "context_is_tradable ctx" by (cases r) auto
  have regime: "cs_regime_policy sample_context_setting \<noteq> None" by (simp add: sample_context_setting_def)
  have market: "mc_status_markets (tv_market (cs_configuration sample_context_setting)) = [''HOSE'']"
    by (simp add: sample_context_setting_def sample_market_def)
  have member: "''HOSE'' \<in> set (mc_status_markets (tv_market (cs_configuration sample_context_setting)))" by (simp add: market)
  show ?thesis
    using tradable_context_authorized [OF sample_context_breadth run regime r [unfolded ctx(1)] ctx(2) member]
    unfolding market by blast
qed

theorem contexts_ignore_future_witness:
  "\<exists>(contexts :: decision_context list) contexts'. length contexts = 1 \<and> list_all2 (\<lambda>x x'. dc_decision_at x' = dc_decision_at x \<and>
     (dc_decision_at x \<le> sample_context_clock \<longrightarrow> x' = x)) contexts contexts'"
proof -
  let ?build = "\<lambda>envelopes. build_decision_contexts sample_context_env sample_context_feed vietnam_zone
    [sample_context_snapshot sample_context_clock] envelopes (cs_configuration sample_context_setting) sample_context None None
    (Some sample_official_regime)"
  let ?later = "[sample_status_envelope\<lparr>se_received_at := sample_market_open + 90 * second_us\<rparr>]"
  have "case ?build [] of Inl _ \<Rightarrow> False | Inr xs \<Rightarrow> length xs = 1" by code_simp
  then obtain contexts where xs: "?build [] = Inr contexts" "length contexts = 1" by (blast dest: case_res_True)
  have "case ?build ([] @ ?later) of Inl _ \<Rightarrow> False | Inr xs \<Rightarrow> True" by code_simp
  then obtain contexts' where ys: "?build ([] @ ?later) = Inr contexts'" by (blast dest: case_res_True)
  have "\<forall>e \<in> set ?later. sample_context_clock < se_received_at e" by simp
  then show ?thesis using contexts_ignore_future [OF xs(1) ys] xs(2) by blast
qed

end
