(* ===== verification/Spec2Isabelle.thy ===== *)
theory Spec2Isabelle
  imports PaperStore Simulation FeatureSafety ContextSafety
begin

text \<open>
  \<^bold>\<open>A verification library of the T+0 trading core of mini-lakehouse\<close>
  (\<^verbatim>\<open>src/t0-trading/src/t0_trading\<close>).

  \<^bold>\<open>The program.\<close> Strategy candidates are produced on decision clocks; the \<^emph>\<open>arbitrator\<close> selects at most a configured
  number of them per clock and symbol; replayed sessions are judged by the \<^emph>\<open>promotion gate\<close> on walk-forward holdouts; a
  PASS of the previous session makes the next trading day \<^emph>\<open>ready\<close> for paper trading. In paper trading a \<^emph>\<open>planner\<close> turns a
  selected candidate into an order intent under risk limits, the \<^emph>\<open>ledger\<close> reserves cash and settled inventory for it,
  \<^emph>\<open>matching\<close> fills it conservatively from quotes, the \<^emph>\<open>reducer\<close> accepts or refuses every event, and the
  \<^emph>\<open>session runtime\<close> appends all of this to an immutable log that a PostgreSQL repository commits by compare-and-swap.
  Every policy is a version with an effective date interval, resolved by the trading date. Underneath, provider messages are
  decoded into market events, a \<^emph>\<open>market state\<close> checks their sequence and builds bars, \<^emph>\<open>replay\<close> pushes captures through the
  same state, \<^emph>\<open>features\<close> summarise the recent events of every symbol at decision clocks,
  a \<^emph>\<open>context\<close> of zones, indices, market statuses and breadth joins them, \<^emph>\<open>outcomes\<close> label what an action would have earned, and \<^emph>\<open>simulation\<close> accounts a day of selected cycles.

  \<^bold>\<open>Theories, in the order of the calls.\<close>
  \<^item> \<^verbatim>\<open>Prelude\<close>: exceptions as values (\<open>'a res\<close>, \<open>rbind\<close>), tuple idioms, identifier patterns, and the two machine
    contracts \<open>guarded_machine\<close> (an invariant kept by every accepted step) and \<open>metered_machine\<close> (a conserved quantity),
    which the components interpret.
  \<^item> \<^verbatim>\<open>Decimals\<close>, \<^verbatim>\<open>Numeric\<close> (\<^verbatim>\<open>numeric.py\<close>), \<^verbatim>\<open>Precision\<close> (other precisions, squares, roots): Python decimals under the default context (28 digits, half-even) as
    rationals rounded after every operation; monotone, exact on the grid the code uses, sign preserving. The contract
    \<open>monotone_rounding\<close> bounds rounded averages.
  \<^item> \<^verbatim>\<open>Controls\<close> (\<^verbatim>\<open>controls/model.py\<close>, \<^verbatim>\<open>presets.py\<close>), \<^verbatim>\<open>Configuration\<close> (\<^verbatim>\<open>configuration.py\<close>), \<^verbatim>\<open>Candidates\<close>
    (\<^verbatim>\<open>strategy/baselines.py\<close>): records with their pydantic validators, version resolution, cross-checks.
  \<^item> \<^verbatim>\<open>Arbitration\<close> (\<^verbatim>\<open>arbitration/engine.py\<close>, \<^verbatim>\<open>model.py\<close>): the arbitrator's clock transition and replay.
  \<^item> \<^verbatim>\<open>Promotion\<close> (\<^verbatim>\<open>promotion/engine.py\<close>, \<^verbatim>\<open>model.py\<close>): walk-forward folds and the gate. The fold loop is a
    \<open>partial_function\<close> in the option monad; with a validated policy it is proved to return.
  \<^item> \<^verbatim>\<open>Readiness\<close> (\<^verbatim>\<open>execution/readiness.py\<close>, \<^verbatim>\<open>promotion/evidence.py\<close>, \<^verbatim>\<open>publication.py\<close>, \<^verbatim>\<open>context/regime.py\<close>):
    lineage, cohort loading, fail-closed admission.
  \<^item> \<^verbatim>\<open>PaperModel\<close> (\<^verbatim>\<open>execution/model.py\<close>), \<^verbatim>\<open>PaperLedger\<close> (\<^verbatim>\<open>ledger.py\<close>), \<^verbatim>\<open>PaperEngine\<close> (\<^verbatim>\<open>engine.py\<close>),
    \<^verbatim>\<open>PaperMatching\<close> (\<^verbatim>\<open>matching.py\<close>): one definition per function; loops over operations and events are \<open>run_res\<close> of
    a step function whose state record holds the loop variables.
  \<^item> \<^verbatim>\<open>PaperRuntime\<close> (\<^verbatim>\<open>execution/runtime.py\<close>: the session, its replay and transitions), \<^verbatim>\<open>PaperSessions\<close> (their
    properties), \<^verbatim>\<open>PaperStore\<close> (\<^verbatim>\<open>postgres.py\<close> and the \<^verbatim>\<open>PaperRuntime\<close> class, written against the locale
    \<open>paper_repository\<close>, which the PostgreSQL model interprets). The driver's connection is a parameter of each call:
    it may fail before the load, before the transaction commits, or lose the response to a committed transaction.
  \<^item> \<^verbatim>\<open>MarketClock\<close> (\<^verbatim>\<open>market/session.py\<close>), \<^verbatim>\<open>MarketEvents\<close> (\<^verbatim>\<open>events.py\<close>), \<^verbatim>\<open>MarketState\<close> (\<^verbatim>\<open>state.py\<close>) with
    \<^verbatim>\<open>MarketBars\<close> (its runs and their properties), \<^verbatim>\<open>MarketReplay\<close> (\<^verbatim>\<open>replay.py\<close>): an envelope is one step of the state
    machine; its refusals are values next to the new state, because the code changes the state before it raises.
  \<^item> \<^verbatim>\<open>FeatureModel\<close> (\<^verbatim>\<open>features/model.py\<close>, \<^verbatim>\<open>calculators.py\<close>), \<^verbatim>\<open>FeatureEngine\<close> (\<^verbatim>\<open>features/engine.py\<close>),
    \<^verbatim>\<open>FeatureRuns\<close> and \<^verbatim>\<open>FeatureSafety\<close> (runs of the engine and their properties): this engine, too, changes its state
    before it raises; its clock generator is a \<open>partial_function\<close>, proved to end for a validated configuration.
  \<^item> \<^verbatim>\<open>ContextModel\<close> (\<^verbatim>\<open>context/model.py\<close>, \<^verbatim>\<open>regime.py\<close>), \<^verbatim>\<open>Breadth\<close> (\<^verbatim>\<open>context/breadth.py\<close>, \<^verbatim>\<open>market/intervals.py\<close>, the records
    of \<^verbatim>\<open>capture/membership.py\<close>), \<^verbatim>\<open>ContextEngine\<close> (\<^verbatim>\<open>context/engine.py\<close>), \<^verbatim>\<open>ContextRuns\<close> and \<^verbatim>\<open>ContextSafety\<close> (runs of the live
    engine and their properties): operations return the state they leave beside their result, as in the features.
  \<^item> \<^verbatim>\<open>Outcomes\<close> (\<^verbatim>\<open>outcomes/model.py\<close>, \<^verbatim>\<open>engine.py\<close>, \<^verbatim>\<open>controls/costing.py\<close>): quote tapes filled by a replay, execution
    prices, labels. \<^verbatim>\<open>Simulation\<close> (\<^verbatim>\<open>simulation/model.py\<close>, \<^verbatim>\<open>engine.py\<close>): the request and the event loop; the step relation
    \<open>cycle_effect\<close> lists what an event may do, and the invariants are proved by cases on it.

  \<^bold>\<open>What is shown.\<close> Decimals: rates and quantiles stay in range. Configuration: resolution is unique; closed paper
  executions agree with their policies, an open one need not (a finding). Arbitration: every record carries the verdict
  prescribed for its candidate, ranks of the leaders under the clock capacity included, one record per candidate, selection limits, disjoint horizons of selections of a symbol, totality exactly under the guards. Promotion:
  folds partition the sessions without look-ahead, a PASS certifies every threshold on the sums of the holdout rows of its targets, the gate terminates. Readiness: loading
  always returns, and paper mode implies a published PASS equal to the gate recomputed over the complete audited sessions of
  the lineage in force, whose hashes are the digests of the policies and costs whose intervals contain the date. Paper trading:
  settled core holdings are never sold, cash is conserved, a stale plan is refused; accepted histories are sound and their
  averages stay within the fill prices; a ready plan respects every limit that could block it, can be reserved, and its reservation covers
  every fill; fills are conservative, crossing quotes fill, expired orders close; sessions are append-only, their incremental
  ledger equals the replay, one quote never gives out more than it shows, the clock leaves nothing open past its deadline,
  resubmission is idempotent; commits are compare-and-swap, acknowledged only when persisted, a commit whose response is lost can be repeated, and every
  schedule of runtime calls and connection failures leaves a loadable session that extends the stored one.

  Market: the session clock agrees with the session windows, decoded events are well formed and failures are of three classes
  (\<^verbatim>\<open>OverflowError\<close> for a provider time outside the years of UTC is one of them), the incremental bars equal an
  aggregation of the accepted trades and are sound, a symbol reported ready has seen a gapless session, a replay is a run of
  the production state. Features: window and book values are defined and bounded, the incremental engine equals a reference over the
  events of the session, an eligible snapshot is complete and fresh, a replay ends with the full clock by symbol matrix and never looks
  ahead. Context: the pruned live engine returns the context of the complete log, trading is authorized only by a status of the
  current stream session, and replayed contexts never look ahead. Outcomes: labels never look ahead, and an eligible label is priced by complete fresh quotes inside
  its session. Simulation: every proposal of a validated request gets one result, core holdings are kept and limits
  respected, and on days without a sale advance policy and without decimal rounding the cash movement is the profit of the cycles.

  \<^bold>\<open>Parameters.\<close> Content digests (canonical JSON and SHA-256) are functions in \<open>paper_env\<close>, \<open>promotion_digests\<close>,
  \<open>lineage_digests\<close>, \<open>feature_env\<close>, \<open>context_env\<close>, \<open>outcome_env\<close>, \<open>simulation_env\<close> and \<open>repository\<close>; the provider's message classes are the partial
  functions of \<open>market_feed\<close> and \<open>context_feed\<close>, the time zone database is \<open>zone_info\<close>. Where a property needs digests to tell two
  values apart it says so by \<open>inj_on\<close> over the values concerned. The market's local date and the object store are parameters too. Instants are microseconds, dates are
  ordinals, JSON texts are the values they encode, and time differences in seconds are exact, which Python's are below
  thirty years; \<^verbatim>\<open>ValidationError\<close> carries the message of the failing check. Decimal
  exponents are unbounded; properties that need exact arithmetic assume values on the \<open>10\<^sup>-\<^sup>8\<close> grid below \<open>10\<^sup>20\<close>, far
  beyond prices in VND.

  \<^bold>\<open>Not modelled.\<close> Capture, journals, audits that replay object storage, notifications, the command line and provider glue
  (I/O around the core); the lakehouse catalog, ingest and Spark jobs, the OCR engine, the user interface and orchestration
  (calls into third-party systems). Planned next, because they are pure: strategy scoring,
  session evaluation.
\<close>

end
